(* ===== verification/Prelude.thy ===== *)
theory Prelude
  imports Complex_Main "HOL-Library.AList" "HOL-Library.Product_Lexorder"
begin

text \<open>
  Shared vocabulary of the development: the types that stand for the Rust types every
  crate uses (timestamps, identifiers, hash maps, ordered sets), the conversions of
  machine integers the sources write with \<^verbatim>\<open>as\<close>, \<^verbatim>\<open>clamp\<close> and
  \<^verbatim>\<open>max\<close>, and the generic facts about them that the component theories rest on.

  \<^item> A \<^verbatim>\<open>DateTime<Utc>\<close> is an integer number of nanoseconds since the epoch.
  \<^item> A \<^verbatim>\<open>Uuid\<close> is the natural number its 128 bits spell; \<^verbatim>\<open>Uuid::new_v4()\<close>
    is a value the environment supplies.
  \<^item> A \<^verbatim>\<open>HashMap\<close> is an association list with distinct keys. The order of the list
    is the order in which the map is iterated, which the Rust library leaves open: a
    theorem about all such lists is a theorem about all iteration orders.
  \<^item> A \<^verbatim>\<open>BTreeSet\<close> is the strictly ascending list of its elements.
\<close>

named_theorems store_simps "rewriting of the keyed stores"
named_theorems lifecycle_simps "unfolding of status strings"

type_synonym datetime = int
type_synonym uuid = nat
type_synonym ('k, 'v) hashmap = "('k \<times> 'v) list"

text \<open>\<^verbatim>\<open>chrono::Duration::seconds\<close>, on the nanosecond scale of \<^typ>\<open>datetime\<close>.\<close>

definition seconds :: "int \<Rightarrow> int" where
  "seconds n = n * 1000000000"

text \<open>\<^verbatim>\<open>Ord::clamp\<close> for \<^term>\<open>lo \<le> hi\<close>.\<close>

definition clamp :: "int \<Rightarrow> int \<Rightarrow> int \<Rightarrow> int" where
  "clamp lo hi x = (if x < lo then lo else if hi < x then hi else x)"

text \<open>\<^verbatim>\<open>n as usize\<close> for an \<^verbatim>\<open>i64\<close> on a 64-bit target: reinterpretation of the bits.\<close>

definition as_usize :: "int \<Rightarrow> nat" where
  "as_usize n = nat (n mod 2 ^ 64)"

section \<open>Hash maps\<close>

definition hm_values :: "('k, 'v) hashmap \<Rightarrow> 'v list" where
  "hm_values m = map snd m"

definition hm_insert :: "'k \<Rightarrow> 'v \<Rightarrow> ('k, 'v) hashmap \<Rightarrow> ('k, 'v) hashmap" where
  "hm_insert k v m = AList.update k v m"

definition hm_remove :: "'k \<Rightarrow> ('k, 'v) hashmap \<Rightarrow> ('k, 'v) hashmap" where
  "hm_remove k m = AList.delete k m"

text \<open>\<^verbatim>\<open>if let Some(v) = m.get_mut(&k) { ... }\<close>\<close>

definition hm_modify :: "'k \<Rightarrow> ('v \<Rightarrow> 'v) \<Rightarrow> ('k, 'v) hashmap \<Rightarrow> ('k, 'v) hashmap" where
  "hm_modify k f m = (case map_of m k of None \<Rightarrow> m | Some v \<Rightarrow> AList.update k (f v) m)"

text \<open>\<^verbatim>\<open>for v in m.values_mut() { ... }\<close>\<close>

definition hm_values_mut :: "('v \<Rightarrow> 'v) \<Rightarrow> ('k, 'v) hashmap \<Rightarrow> ('k, 'v) hashmap" where
  "hm_values_mut f m = map (\<lambda>(k, v). (k, f v)) m"

definition wf_map :: "('k, 'v) hashmap \<Rightarrow> bool" where
  "wf_map m \<longleftrightarrow> distinct (map fst m)"

lemma map_of_insert [simp, store_simps]: "map_of (hm_insert k v m) = (map_of m)(k \<mapsto> v)"
  by (simp add: hm_insert_def update_conv')

lemma map_of_remove [simp, store_simps]: "map_of (hm_remove k m) = (map_of m)(k := None)"
  by (simp add: hm_remove_def delete_conv')

lemma map_of_modify [simp, store_simps]:
  "map_of (hm_modify k f m) = (map_of m)(k := map_option f (map_of m k))"
  by (auto simp: hm_modify_def update_conv' fun_eq_iff split: option.splits)

lemma map_of_values_mut [simp, store_simps]:
  "map_of (hm_values_mut f m) = map_option f \<circ> map_of m"
  by (induction m) (auto simp: hm_values_mut_def fun_eq_iff)

lemma wf_map_Nil [simp]: "wf_map []"
  by (simp add: wf_map_def)

lemma wf_map_insert [simp]: "wf_map m \<Longrightarrow> wf_map (hm_insert k v m)"
  by (simp add: wf_map_def hm_insert_def distinct_update)

lemma wf_map_remove [simp]: "wf_map m \<Longrightarrow> wf_map (hm_remove k m)"
  by (simp add: wf_map_def hm_remove_def distinct_delete)

lemma wf_map_modify [simp]: "wf_map m \<Longrightarrow> wf_map (hm_modify k f m)"
  by (simp add: wf_map_def hm_modify_def distinct_update split: option.splits)

lemma fst_values_mut [simp]: "map fst (hm_values_mut f m) = map fst m"
  by (simp add: hm_values_mut_def comp_def case_prod_unfold)

lemma wf_map_values_mut [simp]: "wf_map m \<Longrightarrow> wf_map (hm_values_mut f m)"
  by (simp add: wf_map_def)

lemma in_set_iff_map_of: "wf_map m \<Longrightarrow> (k, v) \<in> set m \<longleftrightarrow> map_of m k = Some v"
  by (simp add: wf_map_def)

lemma in_values_iff: "wf_map m \<Longrightarrow> v \<in> set (hm_values m) \<longleftrightarrow> (\<exists>k. map_of m k = Some v)"
  by (force simp: hm_values_def wf_map_def)

lemma modify_absent [simp]: "map_of m k = None \<Longrightarrow> hm_modify k f m = m"
  by (simp add: hm_modify_def)

lemma modify_present: "map_of m k = Some v \<Longrightarrow> hm_modify k f m = hm_insert k (f v) m"
  by (simp add: hm_modify_def hm_insert_def)

section \<open>Ordered sets\<close>

fun bt_insert :: "'a::linorder \<Rightarrow> 'a list \<Rightarrow> 'a list" where
  "bt_insert x [] = [x]"
| "bt_insert x (y # ys) =
     (if x < y then x # y # ys else if x = y then y # ys else y # bt_insert x ys)"

definition bt_remove :: "'a \<Rightarrow> 'a list \<Rightarrow> 'a list" where
  "bt_remove x ys = filter (\<lambda>y. y \<noteq> x) ys"

abbreviation bt_set :: "'a::linorder list \<Rightarrow> bool" where
  "bt_set xs \<equiv> sorted_wrt (<) xs"

lemma set_bt_insert [simp]: "set (bt_insert x ys) = insert x (set ys)"
  by (induction ys) auto

lemma bt_set_insert [simp]: "bt_set ys \<Longrightarrow> bt_set (bt_insert x ys)"
  by (induction ys) auto

lemma set_bt_remove [simp]: "set (bt_remove x ys) = set ys - {x}"
  by (auto simp: bt_remove_def)

lemma bt_set_remove [simp]: "bt_set ys \<Longrightarrow> bt_set (bt_remove x ys)"
  by (simp add: bt_remove_def sorted_wrt_filter)

lemma bt_set_sorted: "bt_set xs \<Longrightarrow> sorted xs \<and> distinct xs"
  by (simp add: strict_sorted_iff)

text \<open>\<^verbatim>\<open>Iterator::max_by_key\<close>: the last of the elements with the largest key.\<close>

fun max_by_key :: "('a \<Rightarrow> int) \<Rightarrow> 'a list \<Rightarrow> 'a option" where
  "max_by_key f [] = None"
| "max_by_key f (x # xs) =
     (case max_by_key f xs of
        None \<Rightarrow> Some x
      | Some y \<Rightarrow> if f x \<le> f y then Some y else Some x)"

lemma find_SomeD: "find P xs = Some x \<Longrightarrow> x \<in> set xs \<and> P x"
  by (induction xs) (auto split: if_splits)

lemma max_by_key_None [simp]: "max_by_key f xs = None \<longleftrightarrow> xs = []"
  by (cases xs) (auto split: option.splits)

lemma max_by_key_Some:
  "max_by_key f xs = Some x \<Longrightarrow> x \<in> set xs \<and> (\<forall>y \<in> set xs. f y \<le> f x)"
  by (induction xs arbitrary: x) (fastforce split: option.splits if_splits)+

section \<open>Strictly sorted lists\<close>

text \<open>In a list with strictly ascending keys, the elements above the \<open>k\<close>-th are those after it.\<close>

lemma strict_filter_drop:
  assumes sorted: "sorted_wrt (\<lambda>a b. f a < (f b :: 'b::linorder)) xs" and k: "k < length xs"
  shows "filter (\<lambda>x. f (xs ! k) < f x) xs = drop (Suc k) xs"
proof -
  have "f x \<le> f (xs ! k)" if "x \<in> set (take (Suc k) xs)" for x
  proof -
    from that obtain i where "i \<le> k" "x = xs ! i" by (auto simp: in_set_conv_nth less_Suc_eq_le)
    then show ?thesis using sorted k by (cases "i = k") (auto simp: sorted_wrt_iff_nth_less less_imp_le)
  qed
  then have "filter (\<lambda>x. f (xs ! k) < f x) (take (Suc k) xs) = []"
    by (auto simp: filter_empty_conv not_less)
  moreover have "f (xs ! k) < f x" if "x \<in> set (drop (Suc k) xs)" for x
    using that sorted by (auto simp: in_set_conv_nth sorted_wrt_iff_nth_less)
  then have "filter (\<lambda>x. f (xs ! k) < f x) (drop (Suc k) xs) = drop (Suc k) xs"
    by (simp add: filter_id_conv)
  ultimately have "filter (\<lambda>x. f (xs ! k) < f x) (take (Suc k) xs @ drop (Suc k) xs) = drop (Suc k) xs"
    unfolding filter_append by simp
  then show ?thesis by simp
qed

section \<open>Integers\<close>

lemma clamp_range: "lo \<le> hi \<Longrightarrow> lo \<le> clamp lo hi x \<and> clamp lo hi x \<le> hi"
  by (simp add: clamp_def)

lemma clamp_id [simp]: "lo \<le> x \<Longrightarrow> x \<le> hi \<Longrightarrow> clamp lo hi x = x"
  by (simp add: clamp_def)

lemma as_usize_nonneg: "0 \<le> n \<Longrightarrow> n < 2 ^ 64 \<Longrightarrow> as_usize n = nat n"
  by (simp add: as_usize_def)

lemma seconds_mono: "a \<le> b \<Longrightarrow> seconds a \<le> seconds b"
  by (simp add: seconds_def)

lemma seconds_nonneg [simp]: "0 \<le> seconds n \<longleftrightarrow> 0 \<le> n"
  by (simp add: seconds_def zero_le_mult_iff)

lemma seconds_pos [simp]: "0 < seconds n \<longleftrightarrow> 0 < n"
  by (simp add: seconds_def zero_less_mult_iff)

end
