(* ===== verification/Core_Model.thy ===== *)
theory Core_Model
  imports Prelude
begin

text \<open>
  The data model of the crate \<^verbatim>\<open>azums-core\<close>: \<^verbatim>\<open>src/model.rs\<close>,
  \<^verbatim>\<open>src/error.rs\<close> and \<^verbatim>\<open>src/semantics.rs\<close>. Structs are records whose
  fields carry a short prefix (\<open>j_\<close> for \<^verbatim>\<open>Job\<close>, \<open>nj_\<close> for
  \<^verbatim>\<open>NewJob\<close>, and so on), enums are datatypes with the constructors of the source.
  Persisted statuses stay the strings the backends store.
\<close>

section \<open>Errors\<close>

datatype Error =
    Backend string
  | UnknownJobType string
  | JobNotFound uuid
  | QueueEmpty string
  | LeaseExpired uuid string
  | PayloadDeserialization string
  | InvalidState string
  | Internal string

section \<open>JSON values\<close>

datatype json =
    JNull
  | JBool bool
  | JNumber int
  | JString string
  | JArray "json list"
  | JObject "(string \<times> json) list"

section \<open>Queues, workers and capabilities\<close>

datatype QueueOrdering = Fifo | Fastest

record QueueConfig =
  qc_ordering :: QueueOrdering

definition QueueConfig_default :: QueueConfig where
  "QueueConfig_default = \<lparr>qc_ordering = Fifo\<rparr>"

definition QueueConfig_new :: "QueueOrdering \<Rightarrow> QueueConfig" where
  "QueueConfig_new policy = \<lparr>qc_ordering = policy\<rparr>"

record Queue =
  q_name :: string
  q_config :: QueueConfig

definition Queue_new :: "string \<Rightarrow> QueueConfig \<Rightarrow> Queue" where
  "Queue_new name config = \<lparr>q_name = name, q_config = config\<rparr>"

record Worker =
  w_id :: string

definition Worker_new :: "string \<Rightarrow> Worker" where
  "Worker_new i = \<lparr>w_id = i\<rparr>"

datatype OrderingCapability = NoOrdering | FifoLeasing | FifoAndFastestLeasing

datatype BackpressureCapability = BacklogOnly | ExecutionRateLimit

datatype DurabilityCapability = ProcessLocal | Persistent | ConfigurationDependent

datatype TransactionalEnqueueCapability = BackendOperationOnly | SameDatabase

datatype NotificationCapability =
  ProcessLocalHint | BestEffortHint | BestEffortHintWithPolling

datatype RetentionCapability = ProcessLifetime | ExplicitPruning | BackendConfigured

datatype ConsumerGroupCapability = OffsetsOnly

record BackendSemanticCapabilities =
  durability :: DurabilityCapability
  transactional_enqueue_scope :: TransactionalEnqueueCapability
  notification_delivery :: NotificationCapability
  job_retention :: RetentionCapability
  stream_retention :: RetentionCapability
  consumer_group_coordination :: ConsumerGroupCapability

record BackendCapabilities =
  transactional_enqueue :: bool
  durable_jobs :: bool
  notifications :: bool
  streams_supported :: bool
  consumer_groups :: bool
  distributed_workers :: bool
  ordering_capability :: OrderingCapability
  backpressure :: BackpressureCapability

definition caps_memory :: BackendCapabilities where
  "caps_memory =
     \<lparr>transactional_enqueue = False, durable_jobs = False, notifications = True,
      streams_supported = True, consumer_groups = True, distributed_workers = False,
      ordering_capability = FifoAndFastestLeasing, backpressure = BacklogOnly\<rparr>"

definition caps_sqlite :: BackendCapabilities where
  "caps_sqlite =
     \<lparr>transactional_enqueue = True, durable_jobs = True, notifications = True,
      streams_supported = True, consumer_groups = True, distributed_workers = False,
      ordering_capability = FifoAndFastestLeasing, backpressure = BacklogOnly\<rparr>"

definition caps_postgres :: BackendCapabilities where
  "caps_postgres =
     \<lparr>transactional_enqueue = True, durable_jobs = True, notifications = True,
      streams_supported = True, consumer_groups = True, distributed_workers = True,
      ordering_capability = FifoAndFastestLeasing, backpressure = ExecutionRateLimit\<rparr>"

definition caps_redis :: BackendCapabilities where
  "caps_redis =
     \<lparr>transactional_enqueue = False, durable_jobs = True, notifications = True,
      streams_supported = True, consumer_groups = True, distributed_workers = True,
      ordering_capability = FifoLeasing, backpressure = BacklogOnly\<rparr>"

definition supports_portable_job_api :: "BackendCapabilities \<Rightarrow> bool" where
  "supports_portable_job_api c \<longleftrightarrow> durable_jobs c \<or> \<not> distributed_workers c"

definition sem_memory :: BackendSemanticCapabilities where
  "sem_memory =
     \<lparr>durability = ProcessLocal, transactional_enqueue_scope = BackendOperationOnly,
      notification_delivery = ProcessLocalHint, job_retention = ProcessLifetime,
      stream_retention = ProcessLifetime, consumer_group_coordination = OffsetsOnly\<rparr>"

definition sem_sqlite :: BackendSemanticCapabilities where
  "sem_sqlite =
     \<lparr>durability = Persistent, transactional_enqueue_scope = SameDatabase,
      notification_delivery = BestEffortHintWithPolling, job_retention = ExplicitPruning,
      stream_retention = ExplicitPruning, consumer_group_coordination = OffsetsOnly\<rparr>"

definition sem_postgres :: BackendSemanticCapabilities where
  "sem_postgres =
     \<lparr>durability = Persistent, transactional_enqueue_scope = SameDatabase,
      notification_delivery = BestEffortHint, job_retention = ExplicitPruning,
      stream_retention = ExplicitPruning, consumer_group_coordination = OffsetsOnly\<rparr>"

definition sem_redis :: BackendSemanticCapabilities where
  "sem_redis =
     \<lparr>durability = ConfigurationDependent, transactional_enqueue_scope = BackendOperationOnly,
      notification_delivery = BestEffortHintWithPolling, job_retention = BackendConfigured,
      stream_retention = BackendConfigured, consumer_group_coordination = OffsetsOnly\<rparr>"

definition semantics :: "BackendCapabilities \<Rightarrow> BackendSemanticCapabilities option" where
  "semantics c =
     (let key = (transactional_enqueue c, durable_jobs c, notifications c, streams_supported c,
                 consumer_groups c, distributed_workers c, ordering_capability c, backpressure c)
      in if key = (False, False, True, True, True, False, FifoAndFastestLeasing, BacklogOnly)
         then Some sem_memory
         else if key = (True, True, True, True, True, False, FifoAndFastestLeasing, BacklogOnly)
         then Some sem_sqlite
         else if key = (True, True, True, True, True, True, FifoAndFastestLeasing, ExecutionRateLimit)
         then Some sem_postgres
         else if key = (False, True, True, True, True, True, FifoLeasing, BacklogOnly)
         then Some sem_redis
         else None)"

section \<open>Jobs\<close>

record JobListItem =
  li_id :: uuid
  li_idempotency_key :: "string option"
  li_queue :: string
  li_job_type :: string
  li_status :: string
  li_run_at :: datetime
  li_deadline_at :: "datetime option"
  li_timeout_seconds :: "int option"
  li_recurring_interval_seconds :: "int option"
  li_priority :: int
  li_max_attempts :: int
  li_last_error_code :: "string option"
  li_last_error_message :: "string option"
  li_dlq_reason_code :: "string option"
  li_created_at :: datetime
  li_updated_at :: datetime

record Job =
  j_dataset_id :: string
  j_replay_of_job_id :: "uuid option"
  j_idempotency_key :: "string option"
  j_id :: uuid
  j_queue :: string
  j_job_type :: string
  j_payload :: json
  j_run_at :: datetime
  j_deadline_at :: "datetime option"
  j_timeout_seconds :: "int option"
  j_recurring_interval_seconds :: "int option"
  j_status :: string
  j_priority :: int
  j_max_attempts :: int
  j_locked_at :: "datetime option"
  j_locked_by :: "string option"
  j_lock_expires_at :: "datetime option"
  j_dlq_reason_code :: "string option"
  j_dlq_at :: "datetime option"
  j_created_at :: datetime
  j_updated_at :: datetime

record NewJob =
  nj_queue :: string
  nj_job_type :: string
  nj_payload_json :: json
  nj_idempotency_key :: "string option"
  nj_run_at :: datetime
  nj_deadline_at :: "datetime option"
  nj_timeout_seconds :: "int option"
  nj_recurring_interval_seconds :: "int option"
  nj_priority :: int
  nj_max_attempts :: int

record JobExecution =
  je_job_id :: uuid
  je_attempt_id :: uuid
  je_attempt_no :: int
  je_worker_id :: string
  je_lease_expires_at :: datetime
  je_started_at :: datetime

section \<open>Statuses\<close>

datatype JobStatus =
  Queued | Running | Completed | Succeeded | Failed | Dlq | Cancelled | Canceled

fun JobStatus_as_str :: "JobStatus \<Rightarrow> string" where
  "JobStatus_as_str JobStatus.Queued = ''queued''"
| "JobStatus_as_str JobStatus.Running = ''running''"
| "JobStatus_as_str JobStatus.Completed = ''succeeded''"
| "JobStatus_as_str JobStatus.Succeeded = ''succeeded''"
| "JobStatus_as_str JobStatus.Failed = ''failed''"
| "JobStatus_as_str JobStatus.Dlq = ''dlq''"
| "JobStatus_as_str JobStatus.Cancelled = ''canceled''"
| "JobStatus_as_str JobStatus.Canceled = ''canceled''"

definition JobStatus_parse :: "string \<Rightarrow> Error + JobStatus" where
  "JobStatus_parse status =
     (if status = ''queued'' then Inr JobStatus.Queued
      else if status = ''running'' then Inr JobStatus.Running
      else if status = ''succeeded'' \<or> status = ''completed'' then Inr JobStatus.Completed
      else if status = ''failed'' then Inr JobStatus.Failed
      else if status = ''dlq'' then Inr JobStatus.Dlq
      else if status = ''canceled'' \<or> status = ''cancelled'' then Inr JobStatus.Cancelled
      else Inl (InvalidState (''unknown job status '' @ [CHR 0x27] @ status @ [CHR 0x27])))"

fun JobStatus_is_terminal :: "JobStatus \<Rightarrow> bool" where
  "JobStatus_is_terminal JobStatus.Completed = True"
| "JobStatus_is_terminal JobStatus.Succeeded = True"
| "JobStatus_is_terminal JobStatus.Dlq = True"
| "JobStatus_is_terminal JobStatus.Cancelled = True"
| "JobStatus_is_terminal JobStatus.Canceled = True"
| "JobStatus_is_terminal _ = False"

datatype JobLifecycleState =
  Scheduled | Queued | Running | Completed | RetryWait | Cancelled | Dlq

fun JobLifecycleState_as_str :: "JobLifecycleState \<Rightarrow> string" where
  "JobLifecycleState_as_str Scheduled = ''scheduled''"
| "JobLifecycleState_as_str JobLifecycleState.Queued = ''queued''"
| "JobLifecycleState_as_str JobLifecycleState.Running = ''running''"
| "JobLifecycleState_as_str JobLifecycleState.Completed = ''completed''"
| "JobLifecycleState_as_str RetryWait = ''retry_wait''"
| "JobLifecycleState_as_str JobLifecycleState.Cancelled = ''cancelled''"
| "JobLifecycleState_as_str JobLifecycleState.Dlq = ''dlq''"

fun JobLifecycleState_is_terminal :: "JobLifecycleState \<Rightarrow> bool" where
  "JobLifecycleState_is_terminal JobLifecycleState.Completed = True"
| "JobLifecycleState_is_terminal JobLifecycleState.Cancelled = True"
| "JobLifecycleState_is_terminal JobLifecycleState.Dlq = True"
| "JobLifecycleState_is_terminal _ = False"

fun legal_successors :: "JobLifecycleState \<Rightarrow> JobLifecycleState list" where
  "legal_successors Scheduled = [JobLifecycleState.Queued]"
| "legal_successors JobLifecycleState.Queued = [JobLifecycleState.Running]"
| "legal_successors JobLifecycleState.Running =
     [JobLifecycleState.Completed, RetryWait, JobLifecycleState.Cancelled, JobLifecycleState.Dlq]"
| "legal_successors RetryWait = [JobLifecycleState.Queued]"
| "legal_successors JobLifecycleState.Completed = []"
| "legal_successors JobLifecycleState.Cancelled = []"
| "legal_successors JobLifecycleState.Dlq = []"

definition can_transition_to :: "JobLifecycleState \<Rightarrow> JobLifecycleState \<Rightarrow> bool" where
  "can_transition_to s next \<longleftrightarrow> next \<in> set (legal_successors s)"

definition ensure_transition_to :: "JobLifecycleState \<Rightarrow> JobLifecycleState \<Rightarrow> Error + unit" where
  "ensure_transition_to s next =
     (if can_transition_to s next then Inr ()
      else Inl (InvalidState (''illegal job state transition: '' @ JobLifecycleState_as_str s
                  @ '' -> '' @ JobLifecycleState_as_str next)))"

definition from_persisted ::
  "JobStatus \<Rightarrow> datetime \<Rightarrow> datetime \<Rightarrow> nat \<Rightarrow> Error + JobLifecycleState" where
  "from_persisted status run_at now failed_attempts =
     (case status of
        JobStatus.Queued \<Rightarrow>
          if run_at > now \<and> failed_attempts > 0 then Inr RetryWait
          else if run_at > now then Inr Scheduled
          else Inr JobLifecycleState.Queued
      | JobStatus.Running \<Rightarrow> Inr JobLifecycleState.Running
      | JobStatus.Completed \<Rightarrow> Inr JobLifecycleState.Completed
      | JobStatus.Succeeded \<Rightarrow> Inr JobLifecycleState.Completed
      | JobStatus.Dlq \<Rightarrow> Inr JobLifecycleState.Dlq
      | JobStatus.Cancelled \<Rightarrow> Inr JobLifecycleState.Cancelled
      | JobStatus.Canceled \<Rightarrow> Inr JobLifecycleState.Cancelled
      | JobStatus.Failed \<Rightarrow>
          Inl (InvalidState (''job status '' @ [CHR 0x27] @ ''failed'' @ [CHR 0x27]
                 @ '' is legacy; failures belong to JobAttempt'')))"

definition lifecycle_state_at :: "Job \<Rightarrow> datetime \<Rightarrow> nat \<Rightarrow> Error + JobLifecycleState" where
  "lifecycle_state_at j now failed_attempts =
     (case JobStatus_parse (j_status j) of
        Inl e \<Rightarrow> Inl e
      | Inr st \<Rightarrow> from_persisted st (j_run_at j) now failed_attempts)"

section \<open>Building jobs\<close>

definition Job_new :: "datetime \<Rightarrow> uuid \<Rightarrow> string \<Rightarrow> json \<Rightarrow> Job" where
  "Job_new now new_id job_type payload =
     \<lparr>j_dataset_id = ''default'', j_replay_of_job_id = None, j_idempotency_key = None,
      j_id = new_id, j_queue = ''default'', j_job_type = job_type, j_payload = payload,
      j_run_at = now, j_deadline_at = None, j_timeout_seconds = None,
      j_recurring_interval_seconds = None, j_status = JobStatus_as_str JobStatus.Queued,
      j_priority = 0, j_max_attempts = 25, j_locked_at = None, j_locked_by = None,
      j_lock_expires_at = None, j_dlq_reason_code = None, j_dlq_at = None,
      j_created_at = now, j_updated_at = now\<rparr>"

definition Job_queue :: "Job \<Rightarrow> string \<Rightarrow> Job" where
  "Job_queue j queue = j\<lparr>j_queue := queue\<rparr>"

definition Job_priority :: "Job \<Rightarrow> int \<Rightarrow> Job" where
  "Job_priority j priority = j\<lparr>j_priority := priority\<rparr>"

definition Job_max_attempts :: "Job \<Rightarrow> int \<Rightarrow> Job" where
  "Job_max_attempts j n = j\<lparr>j_max_attempts := n\<rparr>"

definition Job_idempotency_key :: "Job \<Rightarrow> string \<Rightarrow> Job" where
  "Job_idempotency_key j key = j\<lparr>j_idempotency_key := Some key\<rparr>"

definition Job_run_at :: "Job \<Rightarrow> datetime \<Rightarrow> Job" where
  "Job_run_at j t = j\<lparr>j_run_at := t\<rparr>"

definition Job_deadline_at :: "Job \<Rightarrow> datetime \<Rightarrow> Job" where
  "Job_deadline_at j t = j\<lparr>j_deadline_at := Some t\<rparr>"

definition Job_timeout_seconds :: "Job \<Rightarrow> int \<Rightarrow> Job" where
  "Job_timeout_seconds j n = j\<lparr>j_timeout_seconds := Some (max n 0)\<rparr>"

definition Job_recurring_interval_seconds :: "Job \<Rightarrow> int \<Rightarrow> Job" where
  "Job_recurring_interval_seconds j n = j\<lparr>j_recurring_interval_seconds := Some (max n 1)\<rparr>"

definition NewJob_from_Job :: "Job \<Rightarrow> NewJob" where
  "NewJob_from_Job job =
     \<lparr>nj_queue = j_queue job, nj_job_type = j_job_type job, nj_payload_json = j_payload job,
      nj_idempotency_key = j_idempotency_key job, nj_run_at = j_run_at job,
      nj_deadline_at = j_deadline_at job, nj_timeout_seconds = j_timeout_seconds job,
      nj_recurring_interval_seconds = j_recurring_interval_seconds job,
      nj_priority = j_priority job, nj_max_attempts = j_max_attempts job\<rparr>"

section \<open>Streams\<close>

record Event =
  ev_sequence_no :: int
  ev_stream_name :: string
  ev_event_type :: string
  ev_payload_json :: json
  ev_created_at :: datetime

record NewEvent =
  ne_event_type :: string
  ne_payload_json :: json

definition NewEvent_new :: "string \<Rightarrow> json \<Rightarrow> NewEvent" where
  "NewEvent_new event_type payload =
     \<lparr>ne_event_type = event_type, ne_payload_json = payload\<rparr>"

record ConsumerGroupStatus =
  cg_consumer_group :: string
  cg_stream_name :: string
  cg_last_acked_seq :: int
  cg_updated_at :: datetime

end
