(* ===== verification/Backend_Api.thy ===== *)
theory Backend_Api
  imports Core_Model
begin

text \<open>
  The interface every storage implements: \<^verbatim>\<open>azums-core/src/backend/mod.rs\<close> (the trait
  \<^verbatim>\<open>StorageBackend\<close>) and \<^verbatim>\<open>azums-core/src/backend/stream.rs\<close> (the trait
  \<^verbatim>\<open>StreamBackend\<close>). A trait object is a record of operations over a state type.

  An operation takes the state and returns a result and the state it leaves behind. The
  result is \<^term>\<open>Inl\<close> of an error where the source returns \<^verbatim>\<open>Err\<close>; the state
  is returned in that case too, because an operation may fail half way and keep what it
  did. What the operations take from their surroundings, the clock and the identifiers
  drawn by \<^verbatim>\<open>Uuid::new_v4()\<close>, comes in an environment: \<open>e_now\<close> is the value
  of \<^verbatim>\<open>Utc::now()\<close> during the call and \<open>e_fresh k\<close> the identifier the call
  draws at its \<open>k\<close>-th use of the generator.
\<close>

section \<open>Results\<close>

datatype anyhow =
    job_not_found uuid
  | cannot_start_attempt uuid string
  | cannot_start_attempts string
  | illegal_transition string uuid string
  | attempt_not_found uuid
  | cannot_complete_attempt uuid uuid
  | cannot_fail_attempt uuid uuid
  | cancel_needs_worker uuid
  | cancel_terminal uuid string
  | cancel_invalid_status uuid string
  | no_stream_support
  | length_mismatch
  | sql_error string
  | message string

type_synonym ('s, 'r) op = "'s \<Rightarrow> (anyhow + 'r) \<times> 's"

record Env =
  e_now :: datetime
  e_fresh :: "nat \<Rightarrow> uuid"

section \<open>The traits as records of operations\<close>

record 's StreamBackend =
  sx_publish :: "Env \<Rightarrow> string \<Rightarrow> NewEvent \<Rightarrow> ('s, int) op"
  sx_subscribe_stream :: "string \<Rightarrow> string \<Rightarrow> int option \<Rightarrow> ('s, unit) op"
  sx_ack :: "Env \<Rightarrow> string \<Rightarrow> string \<Rightarrow> int \<Rightarrow> ('s, unit) op"
  sx_read_events :: "string \<Rightarrow> int \<Rightarrow> int \<Rightarrow> ('s, Event list) op"
  sx_prune_events :: "string \<Rightarrow> int \<Rightarrow> ('s, nat) op"
  sx_consumer_group_info :: "string \<Rightarrow> ('s, ConsumerGroupStatus list) op"

record 's StorageBackend =
  sb_capabilities :: "'s \<Rightarrow> BackendCapabilities"
  sb_as_stream :: "'s StreamBackend option"
  sb_run_migrations :: "('s, unit) op"
  sb_health_check :: "('s, unit) op"
  sb_enqueue :: "Env \<Rightarrow> NewJob \<Rightarrow> ('s, uuid) op"
  sb_subscribe :: "string \<Rightarrow> ('s, unit) op"
  sb_lease_jobs_batch :: "Env \<Rightarrow> string \<Rightarrow> string \<Rightarrow> int \<Rightarrow> int \<Rightarrow> ('s, Job list) op"
  sb_lease_jobs_batch_with_ordering ::
    "Env \<Rightarrow> string \<Rightarrow> string \<Rightarrow> int \<Rightarrow> int \<Rightarrow> QueueOrdering \<Rightarrow> ('s, Job list) op"
  sb_reap_expired_locks :: "Env \<Rightarrow> ('s, nat) op"
  sb_start_attempts_batch ::
    "Env \<Rightarrow> string list \<Rightarrow> uuid list \<Rightarrow> string \<Rightarrow> ('s, (uuid \<times> uuid \<times> int) list) op"
  sb_mark_succeeded :: "Env \<Rightarrow> uuid \<Rightarrow> uuid \<Rightarrow> string \<Rightarrow> int \<Rightarrow> ('s, unit) op"
  sb_mark_succeeded_batch ::
    "(nat \<Rightarrow> Env) \<Rightarrow> string \<Rightarrow> (uuid \<times> uuid \<times> int) list \<Rightarrow> string \<Rightarrow> ('s, unit) op"
  sb_reschedule_for_retry ::
    "Env \<Rightarrow> uuid \<Rightarrow> uuid \<Rightarrow> string \<Rightarrow> int \<Rightarrow> datetime \<Rightarrow> string \<Rightarrow> string \<Rightarrow> int \<Rightarrow> ('s, unit) op"
  sb_mark_dlq ::
    "Env \<Rightarrow> uuid \<Rightarrow> uuid \<Rightarrow> string \<Rightarrow> int \<Rightarrow> string \<Rightarrow> string \<Rightarrow> string \<Rightarrow> int \<Rightarrow> ('s, unit) op"
  sb_archive_succeeded_older_than :: "datetime \<Rightarrow> int \<Rightarrow> ('s, nat) op"
  sb_delete_history_for_succeeded_older_than :: "datetime \<Rightarrow> int \<Rightarrow> ('s, nat \<times> nat) op"
  sb_perform_maintenance :: "Env \<Rightarrow> ('s, unit) op"
  sb_extend_lease :: "Env \<Rightarrow> uuid \<Rightarrow> string \<Rightarrow> int \<Rightarrow> ('s, bool) op"
  sb_cancel_job :: "Env \<Rightarrow> uuid \<Rightarrow> string option \<Rightarrow> ('s, unit) op"
  sb_get_job :: "uuid \<Rightarrow> ('s, Job option) op"
  sb_list_jobs ::
    "string option \<Rightarrow> string option \<Rightarrow> int \<Rightarrow> datetime option \<Rightarrow> uuid option
       \<Rightarrow> ('s, JobListItem list) op"
  sb_replay_job :: "Env \<Rightarrow> uuid \<Rightarrow> string option \<Rightarrow> datetime option \<Rightarrow> ('s, uuid) op"

section \<open>Provided methods\<close>

definition semantic_capabilities ::
  "'s StorageBackend \<Rightarrow> 's \<Rightarrow> BackendSemanticCapabilities option" where
  "semantic_capabilities B s = semantics (sb_capabilities B s)"

definition dequeue_and_lease ::
  "'s StorageBackend \<Rightarrow> Env \<Rightarrow> string \<Rightarrow> string \<Rightarrow> int \<Rightarrow> int \<Rightarrow> ('s, Job list) op" where
  "dequeue_and_lease B env queue worker_id lease_seconds batch_size =
     sb_lease_jobs_batch B env queue worker_id lease_seconds batch_size"

definition complete_job ::
  "'s StorageBackend \<Rightarrow> Env \<Rightarrow> uuid \<Rightarrow> uuid \<Rightarrow> string \<Rightarrow> int \<Rightarrow> ('s, unit) op" where
  "complete_job B env job_id attempt_id worker_id latency_ms =
     sb_mark_succeeded B env job_id attempt_id worker_id latency_ms"

definition retry_job ::
  "'s StorageBackend \<Rightarrow> Env \<Rightarrow> uuid \<Rightarrow> uuid \<Rightarrow> string \<Rightarrow> int \<Rightarrow> datetime \<Rightarrow> string \<Rightarrow> string
     \<Rightarrow> int \<Rightarrow> ('s, unit) op" where
  "retry_job B env job_id attempt_id worker_id latency_ms next_run_at error_code error_message
     attempt_no =
     sb_reschedule_for_retry B env job_id attempt_id worker_id latency_ms next_run_at
       error_code error_message attempt_no"

definition fail_job ::
  "'s StorageBackend \<Rightarrow> Env \<Rightarrow> uuid \<Rightarrow> uuid \<Rightarrow> string \<Rightarrow> int \<Rightarrow> string \<Rightarrow> string \<Rightarrow> string
     \<Rightarrow> int \<Rightarrow> ('s, unit) op" where
  "fail_job B env job_id attempt_id worker_id latency_ms reason_code error_code error_message
     attempt_no =
     sb_mark_dlq B env job_id attempt_id worker_id latency_ms reason_code
       error_code error_message attempt_no"

text \<open>\<^verbatim>\<open>StreamBackend::read_next\<close>: read after the group's acknowledged offset.\<close>

definition read_next ::
  "'s StreamBackend \<Rightarrow> string \<Rightarrow> string \<Rightarrow> int \<Rightarrow> ('s, Event list) op" where
  "read_next X stream consumer_group limit s =
     (case sx_consumer_group_info X stream s of
        (Inl e, s') \<Rightarrow> (Inl e, s')
      | (Inr infos, s') \<Rightarrow>
          (let last_acked_seq =
                 (case find (\<lambda>status. cg_consumer_group status = consumer_group) infos of
                    Some status \<Rightarrow> cg_last_acked_seq status
                  | None \<Rightarrow> 0)
           in sx_read_events X stream last_acked_seq limit s'))"

section \<open>Runs of fallible steps\<close>

text \<open>
  \<^verbatim>\<open>for x in xs { step(x).await?; }\<close>: the steps in order, stopping at the first error
  with whatever the steps before it did. The \<open>k\<close>-th step sees the \<open>k\<close>-th
  environment.
\<close>

fun for_each :: "(Env \<Rightarrow> 'x \<Rightarrow> ('s, unit) op) \<Rightarrow> (nat \<Rightarrow> Env) \<Rightarrow> 'x list \<Rightarrow> ('s, unit) op" where
  "for_each step envs [] s = (Inr (), s)"
| "for_each step envs (x # xs) s =
     (case step (envs 0) x s of
        (Inl e, s') \<Rightarrow> (Inl e, s')
      | (Inr _, s') \<Rightarrow> for_each step (\<lambda>k. envs (Suc k)) xs s')"

lemma for_each_invariant:
  assumes "\<And>env x s. x \<in> set xs \<Longrightarrow> P s \<Longrightarrow> P (snd (step env x s))"
  shows "P s \<Longrightarrow> P (snd (for_each step envs xs s))"
  using assms
proof (induction xs arbitrary: s envs)
  case Nil
  then show ?case by simp
next
  case (Cons x xs)
  obtain r s' where step: "step (envs 0) x s = (r, s')" by fastforce
  have "P s'" using Cons.prems(2)[of x s "envs 0"] Cons.prems(1) step by simp
  then show ?case using Cons.IH[of s' "\<lambda>k. envs (Suc k)"] Cons.prems(2) step
    by (cases r) auto
qed

end
