(* ===== verification/Memory_Store.thy ===== *)
theory Memory_Store
  imports Backend_Api
begin

text \<open>
  The in-memory storage of \<^verbatim>\<open>azums-core/src/backend/memory.rs\<close>: its state and the job
  operations of \<^verbatim>\<open>impl StorageBackend for MemoryBackend\<close>. Every method takes the write
  lock for its whole body, so one method call is one atomic step on the state. The
  broadcast channels of \<^verbatim>\<open>notifiers\<close> are kept as the number of wake-ups sent on them.
\<close>

section \<open>State\<close>

record MemoryAttempt =
  at_id :: uuid
  at_dataset_id :: string
  at_job_id :: uuid
  at_attempt_no :: int
  at_status :: string
  at_worker_id :: string
  at_started_at :: datetime
  at_finished_at :: "datetime option"
  at_latency_ms :: "int option"
  at_error_code :: "string option"
  at_error_message :: "string option"

datatype QueueEntry =
  QueueEntry (qe_priority: int) (qe_run_at: datetime) (qe_created_at: datetime) (qe_id: uuid)

definition from_job :: "Job \<Rightarrow> QueueEntry" where
  "from_job job = QueueEntry (j_priority job) (j_run_at job) (j_created_at job) (j_id job)"

text \<open>
  \<^verbatim>\<open>impl Ord for QueueEntry\<close>: higher priority first, then earlier \<^verbatim>\<open>run_at\<close>, earlier
  \<^verbatim>\<open>created_at\<close>, smaller id.
\<close>

definition entry_cmp_less :: "QueueEntry \<Rightarrow> QueueEntry \<Rightarrow> bool" where
  "entry_cmp_less a b \<longleftrightarrow>
     qe_priority b < qe_priority a
     \<or> qe_priority a = qe_priority b
       \<and> (qe_run_at a < qe_run_at b
          \<or> qe_run_at a = qe_run_at b
            \<and> (qe_created_at a < qe_created_at b
               \<or> qe_created_at a = qe_created_at b \<and> qe_id a < qe_id b))"

instantiation QueueEntry :: linorder
begin

definition less_QueueEntry :: "QueueEntry \<Rightarrow> QueueEntry \<Rightarrow> bool" where
  "less_QueueEntry a b \<longleftrightarrow> entry_cmp_less a b"

definition less_eq_QueueEntry :: "QueueEntry \<Rightarrow> QueueEntry \<Rightarrow> bool" where
  "less_eq_QueueEntry a b \<longleftrightarrow> entry_cmp_less a b \<or> a = b"

instance
proof
  fix x y z :: QueueEntry
  show "(x < y) = (x \<le> y \<and> \<not> y \<le> x)"
    by (cases x; cases y) (auto simp: less_QueueEntry_def less_eq_QueueEntry_def entry_cmp_less_def)
  show "x \<le> x"
    by (simp add: less_eq_QueueEntry_def)
  show "x \<le> y \<Longrightarrow> y \<le> z \<Longrightarrow> x \<le> z"
    by (cases x; cases y; cases z) (auto simp: less_eq_QueueEntry_def entry_cmp_less_def)
  show "x \<le> y \<Longrightarrow> y \<le> x \<Longrightarrow> x = y"
    by (cases x; cases y) (auto simp: less_eq_QueueEntry_def entry_cmp_less_def)
  show "x \<le> y \<or> y \<le> x"
    by (cases x; cases y) (auto simp: less_eq_QueueEntry_def entry_cmp_less_def)
qed

end

record InnerState =
  jobs :: "(uuid, Job) hashmap"
  queued_jobs :: "(string, QueueEntry list) hashmap"
  archive :: "(uuid, Job) hashmap"
  attempts :: "(uuid, MemoryAttempt) hashmap"
  attempt_counts :: "(uuid, int) hashmap"
  streams :: "(string, Event list) hashmap"
  stream_offsets :: "(string \<times> string, ConsumerGroupStatus) hashmap"

record MemoryBackend = InnerState +
  notifiers :: "(string, nat) hashmap"
  stream_notifiers :: "(string, nat) hashmap"

definition mem_new :: MemoryBackend where
  "mem_new =
     \<lparr>jobs = [], queued_jobs = [], archive = [], attempts = [], attempt_counts = [],
      streams = [], stream_offsets = [], notifiers = [], stream_notifiers = []\<rparr>"

definition mem_clear :: "MemoryBackend \<Rightarrow> MemoryBackend" where
  "mem_clear s =
     s\<lparr>jobs := [], queued_jobs := [], archive := [], attempts := [], attempt_counts := [],
       streams := [], stream_offsets := []\<rparr>"

definition attempts_snapshot :: "MemoryBackend \<Rightarrow> MemoryAttempt list" where
  "attempts_snapshot s = hm_values (attempts s)"

definition notify_queue :: "string \<Rightarrow> MemoryBackend \<Rightarrow> MemoryBackend" where
  "notify_queue queue s = s\<lparr>notifiers := hm_modify queue Suc (notifiers s)\<rparr>"

definition notify_stream :: "string \<Rightarrow> MemoryBackend \<Rightarrow> MemoryBackend" where
  "notify_stream stream s = s\<lparr>stream_notifiers := hm_modify stream Suc (stream_notifiers s)\<rparr>"

text \<open>\<^verbatim>\<open>state.queued_jobs.get(queue).into_iter().flatten()\<close>\<close>

definition index_of :: "MemoryBackend \<Rightarrow> string \<Rightarrow> QueueEntry list" where
  "index_of s queue = (case map_of (queued_jobs s) queue of None \<Rightarrow> [] | Some es \<Rightarrow> es)"

text \<open>\<^verbatim>\<open>state.queued_jobs.entry(queue).or_default().insert(entry)\<close>\<close>

definition index_insert :: "string \<Rightarrow> QueueEntry \<Rightarrow> MemoryBackend \<Rightarrow> MemoryBackend" where
  "index_insert queue e s =
     s\<lparr>queued_jobs := hm_insert queue (bt_insert e (index_of s queue)) (queued_jobs s)\<rparr>"

text \<open>\<^verbatim>\<open>if let Some(index) = state.queued_jobs.get_mut(queue) { index.remove(&entry); }\<close>\<close>

definition index_remove :: "string \<Rightarrow> QueueEntry \<Rightarrow> MemoryBackend \<Rightarrow> MemoryBackend" where
  "index_remove queue e s = s\<lparr>queued_jobs := hm_modify queue (bt_remove e) (queued_jobs s)\<rparr>"

definition put_job :: "uuid \<Rightarrow> Job \<Rightarrow> MemoryBackend \<Rightarrow> MemoryBackend" where
  "put_job k j s = s\<lparr>jobs := hm_insert k j (jobs s)\<rparr>"

definition put_attempt :: "uuid \<Rightarrow> MemoryAttempt \<Rightarrow> MemoryBackend \<Rightarrow> MemoryBackend" where
  "put_attempt k a s = s\<lparr>attempts := hm_insert k a (attempts s)\<rparr>"

section \<open>Enqueue and subscribe\<close>

definition mem_enqueue_entity :: "Env \<Rightarrow> NewJob \<Rightarrow> Job" where
  "mem_enqueue_entity env job =
     \<lparr>j_dataset_id = ''default'', j_replay_of_job_id = None,
      j_idempotency_key = nj_idempotency_key job, j_id = e_fresh env 0,
      j_queue = nj_queue job, j_job_type = nj_job_type job, j_payload = nj_payload_json job,
      j_run_at = nj_run_at job, j_deadline_at = nj_deadline_at job,
      j_timeout_seconds = nj_timeout_seconds job,
      j_recurring_interval_seconds = nj_recurring_interval_seconds job,
      j_status = JobStatus_as_str JobStatus.Queued, j_priority = nj_priority job,
      j_max_attempts = nj_max_attempts job, j_locked_at = None, j_locked_by = None,
      j_lock_expires_at = None, j_dlq_reason_code = None, j_dlq_at = None,
      j_created_at = e_now env, j_updated_at = e_now env\<rparr>"

definition mem_find_idempotent :: "NewJob \<Rightarrow> MemoryBackend \<Rightarrow> Job option" where
  "mem_find_idempotent job s =
     (case nj_idempotency_key job of
        None \<Rightarrow> None
      | Some key \<Rightarrow>
          find (\<lambda>existing. j_idempotency_key existing = Some key) (hm_values (jobs s)))"

definition mem_enqueue :: "Env \<Rightarrow> NewJob \<Rightarrow> (MemoryBackend, uuid) op" where
  "mem_enqueue env job s =
     (case mem_find_idempotent job s of
        Some existing \<Rightarrow> (Inr (j_id existing), s)
      | None \<Rightarrow>
          (let job_entity = mem_enqueue_entity env job;
               s1 = index_insert (nj_queue job) (from_job job_entity) s;
               s2 = put_job (e_fresh env 0) job_entity s1
           in (Inr (e_fresh env 0), notify_queue (nj_queue job) s2)))"

definition mem_subscribe :: "string \<Rightarrow> (MemoryBackend, unit) op" where
  "mem_subscribe queue s =
     (case map_of (notifiers s) queue of
        Some _ \<Rightarrow> (Inr (), s)
      | None \<Rightarrow> (Inr (), s\<lparr>notifiers := hm_insert queue 0 (notifiers s)\<rparr>))"

section \<open>Leasing\<close>

definition past_deadline :: "datetime \<Rightarrow> Job \<Rightarrow> bool" where
  "past_deadline now job \<longleftrightarrow>
     (case j_deadline_at job of None \<Rightarrow> False | Some deadline \<Rightarrow> deadline < now)"

definition mem_expired_deadlines :: "datetime \<Rightarrow> string \<Rightarrow> MemoryBackend \<Rightarrow> QueueEntry list" where
  "mem_expired_deadlines now queue s =
     filter (\<lambda>entry. qe_run_at entry \<le> now
               \<and> (case map_of (jobs s) (qe_id entry) of
                    None \<Rightarrow> False
                  | Some job \<Rightarrow> past_deadline now job))
       (index_of s queue)"

definition deadline_dlq :: "datetime \<Rightarrow> Job \<Rightarrow> Job" where
  "deadline_dlq now job =
     job\<lparr>j_status := JobStatus_as_str JobStatus.Dlq,
         j_dlq_reason_code := Some ''DEADLINE_EXCEEDED'',
         j_dlq_at := Some now, j_updated_at := now\<rparr>"

definition expire_entry ::
  "datetime \<Rightarrow> string \<Rightarrow> QueueEntry \<Rightarrow> MemoryBackend \<Rightarrow> MemoryBackend" where
  "expire_entry now queue entry s =
     (let s1 = index_remove queue entry s
      in s1\<lparr>jobs := hm_modify (qe_id entry) (deadline_dlq now) (jobs s1)\<rparr>)"

definition lock_job :: "datetime \<Rightarrow> string \<Rightarrow> datetime \<Rightarrow> Job \<Rightarrow> Job" where
  "lock_job now worker_id lock_expires_at j =
     j\<lparr>j_status := JobStatus_as_str JobStatus.Running, j_locked_at := Some now,
       j_locked_by := Some worker_id, j_lock_expires_at := Some lock_expires_at,
       j_updated_at := now\<rparr>"

fun lease_loop ::
  "datetime \<Rightarrow> string \<Rightarrow> datetime \<Rightarrow> QueueEntry list \<Rightarrow> MemoryBackend
     \<Rightarrow> Job list \<times> MemoryBackend" where
  "lease_loop now worker_id lock_expires_at [] s = ([], s)"
| "lease_loop now worker_id lock_expires_at (candidate # rest) s =
     (case map_of (jobs s) (qe_id candidate) of
        None \<Rightarrow> lease_loop now worker_id lock_expires_at rest s
      | Some j \<Rightarrow>
          (let j' = lock_job now worker_id lock_expires_at j;
               (leased, s') =
                 lease_loop now worker_id lock_expires_at rest (put_job (qe_id candidate) j' s)
           in (j' # leased, s')))"

definition mem_lease_jobs_batch_with_ordering ::
  "Env \<Rightarrow> string \<Rightarrow> string \<Rightarrow> int \<Rightarrow> int \<Rightarrow> QueueOrdering \<Rightarrow> (MemoryBackend, Job list) op" where
  "mem_lease_jobs_batch_with_ordering env queue worker_id lease_seconds batch_size policy s =
     (let now = e_now env;
          s1 = fold (expire_entry now queue) (mem_expired_deadlines now queue s) s;
          candidates =
            take (nat (max batch_size 0)) (filter (\<lambda>entry. qe_run_at entry \<le> now) (index_of s1 queue))
      in if candidates = [] then (Inr [], s1)
         else
           (let s2 = fold (index_remove queue) candidates s1;
                lock_expires_at = now + seconds lease_seconds;
                (leased, s3) = lease_loop now worker_id lock_expires_at candidates s2
            in (Inr leased, s3)))"

definition mem_lease_jobs_batch ::
  "Env \<Rightarrow> string \<Rightarrow> string \<Rightarrow> int \<Rightarrow> int \<Rightarrow> (MemoryBackend, Job list) op" where
  "mem_lease_jobs_batch env queue worker_id lease_seconds batch_size =
     mem_lease_jobs_batch_with_ordering env queue worker_id lease_seconds batch_size Fifo"

section \<open>Recovery of expired leases\<close>

definition lease_expired :: "datetime \<Rightarrow> Job \<Rightarrow> bool" where
  "lease_expired now job \<longleftrightarrow>
     j_status job = ''running''
     \<and> (case j_lock_expires_at job of None \<Rightarrow> False | Some t \<Rightarrow> t \<le> now)"

definition fail_attempt_record ::
  "datetime \<Rightarrow> int \<Rightarrow> string \<Rightarrow> string \<Rightarrow> MemoryAttempt \<Rightarrow> MemoryAttempt" where
  "fail_attempt_record now latency_ms code msg att =
     att\<lparr>at_status := ''failed'', at_finished_at := Some now, at_latency_ms := Some latency_ms,
         at_error_code := Some code, at_error_message := Some msg\<rparr>"

definition requeue_job :: "datetime \<Rightarrow> Job \<Rightarrow> Job" where
  "requeue_job now job =
     job\<lparr>j_status := JobStatus_as_str JobStatus.Queued, j_locked_at := None, j_locked_by := None,
         j_lock_expires_at := None, j_updated_at := now\<rparr>"

fun requeue_loop :: "datetime \<Rightarrow> uuid list \<Rightarrow> MemoryBackend \<Rightarrow> nat \<times> MemoryBackend" where
  "requeue_loop now [] s = (0, s)"
| "requeue_loop now (job_id # rest) s =
     (case map_of (jobs s) job_id of
        None \<Rightarrow> requeue_loop now rest s
      | Some job \<Rightarrow>
          (let job' = requeue_job now job;
               s1 = index_insert (j_queue job') (from_job job') (put_job job_id job' s);
               (reaped, s') = requeue_loop now rest s1
           in (Suc reaped, s')))"

definition mem_reap_expired_locks :: "Env \<Rightarrow> (MemoryBackend, nat) op" where
  "mem_reap_expired_locks env s =
     (let now = e_now env;
          expired_job_ids = map j_id (filter (lease_expired now) (hm_values (jobs s)));
          s1 = s\<lparr>attempts :=
                 hm_values_mut
                   (\<lambda>attempt. if at_job_id attempt \<in> set expired_job_ids
                                 \<and> at_status attempt = ''running''
                      then fail_attempt_record now 0 ''LEASE_EXPIRED''
                             ''worker lease expired before ACK'' attempt
                      else attempt)
                   (attempts s)\<rparr>;
          (reaped, s2) = requeue_loop now expired_job_ids s1
      in (Inr reaped, s2))"

section \<open>Attempts\<close>

definition lease_held :: "string \<Rightarrow> Job \<Rightarrow> bool" where
  "lease_held worker_id job \<longleftrightarrow>
     \<not> (j_status job \<noteq> ''running'' \<or> j_locked_by job \<noteq> Some worker_id)"

definition new_attempt :: "datetime \<Rightarrow> uuid \<Rightarrow> uuid \<Rightarrow> int \<Rightarrow> string \<Rightarrow> MemoryAttempt" where
  "new_attempt now attempt_id job_id n worker_id =
     \<lparr>at_id = attempt_id, at_dataset_id = ''default'', at_job_id = job_id, at_attempt_no = n,
      at_status = ''running'', at_worker_id = worker_id, at_started_at = now,
      at_finished_at = None, at_latency_ms = None, at_error_code = None,
      at_error_message = None\<rparr>"

definition attempt_count :: "MemoryBackend \<Rightarrow> uuid \<Rightarrow> int" where
  "attempt_count s job_id =
     (case map_of (attempt_counts s) job_id of None \<Rightarrow> 0 | Some n \<Rightarrow> n)"

text \<open>The number of an attempt is an \<^verbatim>\<open>i32\<close> in the code; here it has no upper bound.\<close>

fun start_loop ::
  "datetime \<Rightarrow> (nat \<Rightarrow> uuid) \<Rightarrow> string \<Rightarrow> uuid list
     \<Rightarrow> (MemoryBackend, (uuid \<times> uuid \<times> int) list) op" where
  "start_loop now fresh worker_id [] s = (Inr [], s)"
| "start_loop now fresh worker_id (job_id # rest) s =
     (case map_of (jobs s) job_id of
        None \<Rightarrow> (Inl (job_not_found job_id), s)
      | Some job \<Rightarrow>
          if \<not> lease_held worker_id job then (Inl (cannot_start_attempt job_id worker_id), s)
          else
            (let next_attempt_no = attempt_count s job_id + 1;
                 attempt_id = fresh 0;
                 s1 = put_attempt attempt_id
                        (new_attempt now attempt_id job_id next_attempt_no worker_id) s;
                 s2 = s1\<lparr>attempt_counts := hm_insert job_id next_attempt_no (attempt_counts s1)\<rparr>
             in case start_loop now (\<lambda>k. fresh (Suc k)) worker_id rest s2 of
                  (Inl e, s') \<Rightarrow> (Inl e, s')
                | (Inr results, s') \<Rightarrow> (Inr ((job_id, attempt_id, next_attempt_no) # results), s')))"

definition mem_start_attempts_batch ::
  "Env \<Rightarrow> string list \<Rightarrow> uuid list \<Rightarrow> string
     \<Rightarrow> (MemoryBackend, (uuid \<times> uuid \<times> int) list) op" where
  "mem_start_attempts_batch env dataset_ids job_ids worker_id s =
     (if job_ids = [] then (Inr [], s)
      else start_loop (e_now env) (e_fresh env) worker_id job_ids s)"

section \<open>Outcomes of an attempt\<close>

definition next_occurrence :: "datetime \<Rightarrow> uuid \<Rightarrow> Job \<Rightarrow> int \<Rightarrow> Job" where
  "next_occurrence now next_id job interval =
     job\<lparr>j_id := next_id, j_replay_of_job_id := Some (j_id job), j_idempotency_key := None,
         j_run_at := j_run_at job + seconds interval,
         j_deadline_at := map_option (\<lambda>deadline. deadline + seconds interval) (j_deadline_at job),
         j_status := JobStatus_as_str JobStatus.Queued, j_locked_at := None,
         j_locked_by := None, j_lock_expires_at := None, j_dlq_reason_code := None,
         j_dlq_at := None, j_created_at := now, j_updated_at := now\<rparr>"

definition complete_job_record :: "datetime \<Rightarrow> Job \<Rightarrow> Job" where
  "complete_job_record now job =
     job\<lparr>j_status := JobStatus_as_str JobStatus.Completed, j_locked_at := None,
         j_locked_by := None, j_lock_expires_at := None, j_updated_at := now\<rparr>"

definition succeed_attempt_record :: "datetime \<Rightarrow> int \<Rightarrow> MemoryAttempt \<Rightarrow> MemoryAttempt" where
  "succeed_attempt_record now latency_ms att =
     att\<lparr>at_status := ''succeeded'', at_finished_at := Some now, at_latency_ms := Some latency_ms\<rparr>"

definition attempt_open :: "uuid \<Rightarrow> MemoryAttempt \<Rightarrow> bool" where
  "attempt_open job_id att \<longleftrightarrow> \<not> (at_status att \<noteq> ''running'' \<or> at_job_id att \<noteq> job_id)"

definition mem_mark_succeeded ::
  "Env \<Rightarrow> uuid \<Rightarrow> uuid \<Rightarrow> string \<Rightarrow> int \<Rightarrow> (MemoryBackend, unit) op" where
  "mem_mark_succeeded env job_id attempt_id worker_id latency_ms s =
     (let now = e_now env;
          recurring_job =
            Option.bind (map_of (jobs s) job_id)
              (\<lambda>job. map_option (next_occurrence now (e_fresh env 0) job)
                       (j_recurring_interval_seconds job))
      in case map_of (jobs s) job_id of
           None \<Rightarrow> (Inl (job_not_found job_id), s)
         | Some job \<Rightarrow>
             if \<not> lease_held worker_id job
             then (Inl (illegal_transition ''completed'' job_id worker_id), s)
             else (case map_of (attempts s) attempt_id of
               None \<Rightarrow> (Inl (attempt_not_found attempt_id), s)
             | Some att \<Rightarrow>
                 if \<not> attempt_open job_id att
                 then (Inl (cannot_complete_attempt attempt_id job_id), s)
                 else
                   (let s1 = put_attempt attempt_id (succeed_attempt_record now latency_ms att) s;
                        s2 = put_job job_id (complete_job_record now job) s1
                    in case recurring_job of
                         None \<Rightarrow> (Inr (), s2)
                       | Some next \<Rightarrow>
                           (let s3 = index_insert (j_queue next) (from_job next) s2;
                                s4 = put_job (j_id next) next s3
                            in (Inr (), notify_queue (j_queue next) s4)))))"

definition mem_mark_succeeded_batch ::
  "(nat \<Rightarrow> Env) \<Rightarrow> string \<Rightarrow> (uuid \<times> uuid \<times> int) list \<Rightarrow> string \<Rightarrow> (MemoryBackend, unit) op" where
  "mem_mark_succeeded_batch envs dataset_id updates worker_id s =
     for_each
       (\<lambda>env (job_id, attempt_id, latency_ms).
          mem_mark_succeeded env job_id attempt_id worker_id latency_ms)
       envs updates s"

definition mem_reschedule_for_retry ::
  "Env \<Rightarrow> uuid \<Rightarrow> uuid \<Rightarrow> string \<Rightarrow> int \<Rightarrow> datetime \<Rightarrow> string \<Rightarrow> string \<Rightarrow> int
     \<Rightarrow> (MemoryBackend, unit) op" where
  "mem_reschedule_for_retry env job_id attempt_id worker_id latency_ms next_run_at
     error_code error_message attempt_no s =
     (let now = e_now env
      in case map_of (jobs s) job_id of
           None \<Rightarrow> (Inl (job_not_found job_id), s)
         | Some job \<Rightarrow>
             if \<not> lease_held worker_id job
             then (Inl (illegal_transition ''retry_wait'' job_id worker_id), s)
             else (case map_of (attempts s) attempt_id of
               None \<Rightarrow> (Inl (attempt_not_found attempt_id), s)
             | Some att \<Rightarrow>
                 if \<not> attempt_open job_id att
                 then (Inl (cannot_fail_attempt attempt_id job_id), s)
                 else
                   (let s1 = put_attempt attempt_id
                               (fail_attempt_record now latency_ms error_code error_message att) s;
                        job' = (requeue_job now job)\<lparr>j_run_at := next_run_at\<rparr>;
                        s2 = put_job job_id job' s1
                    in (Inr (), index_insert (j_queue job') (from_job job') s2))))"

definition dlq_job_record :: "datetime \<Rightarrow> string \<Rightarrow> Job \<Rightarrow> Job" where
  "dlq_job_record now reason_code job =
     job\<lparr>j_status := JobStatus_as_str JobStatus.Dlq, j_dlq_reason_code := Some reason_code,
         j_dlq_at := Some now, j_locked_at := None, j_locked_by := None,
         j_lock_expires_at := None, j_updated_at := now\<rparr>"

definition mem_mark_dlq ::
  "Env \<Rightarrow> uuid \<Rightarrow> uuid \<Rightarrow> string \<Rightarrow> int \<Rightarrow> string \<Rightarrow> string \<Rightarrow> string \<Rightarrow> int
     \<Rightarrow> (MemoryBackend, unit) op" where
  "mem_mark_dlq env job_id attempt_id worker_id latency_ms reason_code
     error_code error_message attempt_no s =
     (let now = e_now env
      in case map_of (jobs s) job_id of
           None \<Rightarrow> (Inl (job_not_found job_id), s)
         | Some job \<Rightarrow>
             if \<not> lease_held worker_id job
             then (Inl (illegal_transition ''dlq'' job_id worker_id), s)
             else (case map_of (attempts s) attempt_id of
               None \<Rightarrow> (Inl (attempt_not_found attempt_id), s)
             | Some att \<Rightarrow>
                 if \<not> attempt_open job_id att
                 then (Inl (cannot_fail_attempt attempt_id job_id), s)
                 else
                   (let s1 = put_attempt attempt_id
                               (fail_attempt_record now latency_ms error_code error_message att) s
                    in (Inr (), put_job job_id (dlq_job_record now reason_code job) s1))))"

section \<open>Archiving\<close>

fun archive_loop :: "uuid list \<Rightarrow> MemoryBackend \<Rightarrow> MemoryBackend" where
  "archive_loop [] s = s"
| "archive_loop (i # rest) s =
     (case map_of (jobs s) i of
        None \<Rightarrow> archive_loop rest s
      | Some job \<Rightarrow>
          archive_loop rest
            (s\<lparr>jobs := hm_remove i (jobs s), archive := hm_insert i job (archive s)\<rparr>))"

definition mem_archive_succeeded_older_than :: "datetime \<Rightarrow> int \<Rightarrow> (MemoryBackend, nat) op" where
  "mem_archive_succeeded_older_than cutoff limit s =
     (let to_archive =
            map j_id (take (as_usize limit)
              (filter (\<lambda>j. j_status j = ''succeeded'' \<and> j_updated_at j < cutoff)
                 (hm_values (jobs s))))
      in (Inr (length to_archive), archive_loop to_archive s))"

definition mem_delete_history_for_succeeded_older_than ::
  "datetime \<Rightarrow> int \<Rightarrow> (MemoryBackend, nat \<times> nat) op" where
  "mem_delete_history_for_succeeded_older_than cutoff limit s =
     (let archived_ids =
            map j_id (filter (\<lambda>j. j_updated_at j < cutoff) (hm_values (archive s)));
          to_remove =
            map at_id (take (as_usize limit)
              (filter (\<lambda>a. at_started_at a < cutoff \<and> at_job_id a \<in> set archived_ids)
                 (hm_values (attempts s))))
      in (Inr (length to_remove, 0), s\<lparr>attempts := fold hm_remove to_remove (attempts s)\<rparr>))"

section \<open>Heartbeat and cancellation\<close>

definition mem_extend_lease :: "Env \<Rightarrow> uuid \<Rightarrow> string \<Rightarrow> int \<Rightarrow> (MemoryBackend, bool) op" where
  "mem_extend_lease env job_id worker_id lease_seconds s =
     (case map_of (jobs s) job_id of
        None \<Rightarrow> (Inr False, s)
      | Some job \<Rightarrow>
          if j_status job = ''running'' \<and> j_locked_by job = Some worker_id
          then (Inr True,
                put_job job_id
                  (job\<lparr>j_lock_expires_at := Some (e_now env + seconds lease_seconds),
                       j_updated_at := e_now env\<rparr>) s)
          else (Inr False, s))"

definition cancel_job_record :: "datetime \<Rightarrow> Job \<Rightarrow> Job" where
  "cancel_job_record now job =
     job\<lparr>j_status := JobStatus_as_str JobStatus.Cancelled, j_locked_at := None,
         j_locked_by := None, j_lock_expires_at := None, j_updated_at := now\<rparr>"

definition cancel_guard :: "uuid \<Rightarrow> string option \<Rightarrow> Job \<Rightarrow> anyhow option" where
  "cancel_guard job_id worker_id job =
     (if j_status job = ''queued'' then None
      else if j_status job = ''running'' then
        (case worker_id of
           None \<Rightarrow> Some (cancel_needs_worker job_id)
         | Some w \<Rightarrow>
             if j_locked_by job \<noteq> Some w
             then Some (illegal_transition ''cancelled'' job_id w) else None)
      else if j_status job = ''succeeded'' \<or> j_status job = ''dlq'' \<or> j_status job = ''canceled''
        then Some (cancel_terminal job_id (j_status job))
      else Some (cancel_invalid_status job_id (j_status job)))"

definition latest_open_attempt :: "uuid \<Rightarrow> MemoryBackend \<Rightarrow> (uuid \<times> MemoryAttempt) option" where
  "latest_open_attempt job_id s =
     max_by_key (\<lambda>(k, a). at_attempt_no a)
       (filter (\<lambda>(k, a). at_job_id a = job_id \<and> at_status a = ''running'') (attempts s))"

definition mem_cancel_job :: "Env \<Rightarrow> uuid \<Rightarrow> string option \<Rightarrow> (MemoryBackend, unit) op" where
  "mem_cancel_job env job_id worker_id s =
     (let now = e_now env
      in case map_of (jobs s) job_id of
           None \<Rightarrow> (Inl (job_not_found job_id), s)
         | Some job \<Rightarrow>
             (case cancel_guard job_id worker_id job of
                Some e \<Rightarrow> (Inl e, s)
              | None \<Rightarrow>
                  (let s1 = (if j_status job = ''running'' then
                               (case latest_open_attempt job_id s of
                                  None \<Rightarrow> s
                                | Some (k, att) \<Rightarrow>
                                    put_attempt k
                                      (fail_attempt_record now 0 ''CANCELLED'' ''job cancelled'' att) s)
                             else s);
                       s2 = put_job job_id (cancel_job_record now job) s1
                   in (Inr (), if j_status job = ''queued''
                               then index_remove (j_queue job) (from_job job) s2 else s2))))"

section \<open>Reads and replay\<close>

definition lookup_job :: "MemoryBackend \<Rightarrow> uuid \<Rightarrow> Job option" where
  "lookup_job s job_id =
     (case map_of (jobs s) job_id of
        Some j \<Rightarrow> Some j
      | None \<Rightarrow> map_of (archive s) job_id)"

definition mem_get_job :: "uuid \<Rightarrow> (MemoryBackend, Job option) op" where
  "mem_get_job job_id s = (Inr (lookup_job s job_id), s)"

definition list_item :: "Job \<Rightarrow> JobListItem" where
  "list_item j =
     \<lparr>li_id = j_id j, li_idempotency_key = j_idempotency_key j, li_queue = j_queue j,
      li_job_type = j_job_type j, li_status = j_status j, li_run_at = j_run_at j,
      li_deadline_at = j_deadline_at j, li_timeout_seconds = j_timeout_seconds j,
      li_recurring_interval_seconds = j_recurring_interval_seconds j,
      li_priority = j_priority j, li_max_attempts = j_max_attempts j,
      li_last_error_code = None, li_last_error_message = None,
      li_dlq_reason_code = j_dlq_reason_code j, li_created_at = j_created_at j,
      li_updated_at = j_updated_at j\<rparr>"

definition list_filter :: "string option \<Rightarrow> string option \<Rightarrow> Job \<Rightarrow> bool" where
  "list_filter queue status j \<longleftrightarrow>
     (case queue of Some q \<Rightarrow> j_queue j = q | None \<Rightarrow> True)
     \<and> (case status of Some st \<Rightarrow> j_status j = st | None \<Rightarrow> True)"

definition after_cursor :: "datetime option \<Rightarrow> uuid option \<Rightarrow> JobListItem \<Rightarrow> bool" where
  "after_cursor cursor_created_at cursor_id item =
     (case (cursor_created_at, cursor_id) of
        (Some c, Some i) \<Rightarrow> li_created_at item < c \<or> li_created_at item = c \<and> li_id item < i
      | _ \<Rightarrow> True)"

text \<open>The comparator of \<^verbatim>\<open>items.sort_by\<close>: newest first, larger id first.\<close>

definition newest_first :: "JobListItem \<Rightarrow> int \<times> int" where
  "newest_first item = (- li_created_at item, - int (li_id item))"

definition mem_list_jobs ::
  "string option \<Rightarrow> string option \<Rightarrow> int \<Rightarrow> datetime option \<Rightarrow> uuid option
     \<Rightarrow> (MemoryBackend, JobListItem list) op" where
  "mem_list_jobs queue status limit cursor_created_at cursor_id s =
     (let n = nat (clamp 1 500 limit);
          items =
            filter (after_cursor cursor_created_at cursor_id)
              (map list_item (filter (list_filter queue status) (hm_values (jobs s))))
      in (Inr (take n (sort_key newest_first items)), s))"

definition replay_entity ::
  "Env \<Rightarrow> uuid \<Rightarrow> string option \<Rightarrow> datetime option \<Rightarrow> Job \<Rightarrow> Job" where
  "replay_entity env job_id override_queue override_run_at src =
     \<lparr>j_dataset_id = ''default'', j_replay_of_job_id = Some job_id, j_idempotency_key = None,
      j_id = e_fresh env 0,
      j_queue = (case override_queue of Some q \<Rightarrow> q | None \<Rightarrow> j_queue src),
      j_job_type = j_job_type src, j_payload = j_payload src,
      j_run_at = (case override_run_at of Some t \<Rightarrow> t | None \<Rightarrow> e_now env),
      j_deadline_at = j_deadline_at src, j_timeout_seconds = j_timeout_seconds src,
      j_recurring_interval_seconds = j_recurring_interval_seconds src,
      j_status = JobStatus_as_str JobStatus.Queued, j_priority = j_priority src,
      j_max_attempts = j_max_attempts src, j_locked_at = None, j_locked_by = None,
      j_lock_expires_at = None, j_dlq_reason_code = None, j_dlq_at = None,
      j_created_at = e_now env, j_updated_at = e_now env\<rparr>"

definition mem_replay_job ::
  "Env \<Rightarrow> uuid \<Rightarrow> string option \<Rightarrow> datetime option \<Rightarrow> (MemoryBackend, uuid) op" where
  "mem_replay_job env job_id override_queue override_run_at s =
     (case lookup_job s job_id of
        None \<Rightarrow> (Inl (job_not_found job_id), s)
      | Some src \<Rightarrow>
          (let new_job = replay_entity env job_id override_queue override_run_at src;
               s1 = index_insert (j_queue new_job) (from_job new_job) s;
               s2 = put_job (e_fresh env 0) new_job s1
           in (Inr (e_fresh env 0), notify_queue (j_queue new_job) s2)))"

end
