(* ===== verification/Memory_Invariant.thy ===== *)
theory Memory_Invariant
  imports Memory_Store
begin

text \<open>
  The well-formedness invariant of the in-memory storage and its preservation by every
  operation. The invariant is stated on the lookup functions of the tables, so that the
  preservation lemmas are facts about function updates that the operations instantiate.
\<close>

section \<open>The invariant\<close>

definition job_ok :: "Job \<Rightarrow> bool" where
  "job_ok j \<longleftrightarrow>
     j_status j \<in> {''queued'', ''running'', ''succeeded'', ''dlq'', ''canceled''}
     \<and> (j_status j = ''running'' \<longleftrightarrow> j_locked_at j \<noteq> None)
     \<and> (j_status j = ''running'' \<longleftrightarrow> j_locked_by j \<noteq> None)
     \<and> (j_status j = ''running'' \<longleftrightarrow> j_lock_expires_at j \<noteq> None)
     \<and> (j_status j = ''dlq'' \<longleftrightarrow> j_dlq_reason_code j \<noteq> None)
     \<and> (j_status j = ''dlq'' \<longleftrightarrow> j_dlq_at j \<noteq> None)"

definition attempt_ok :: "MemoryAttempt \<Rightarrow> bool" where
  "attempt_ok a \<longleftrightarrow>
     at_status a \<in> {''running'', ''succeeded'', ''failed''}
     \<and> (at_status a = ''running'' \<longleftrightarrow> at_finished_at a = None)
     \<and> (at_status a = ''failed'' \<longleftrightarrow> at_error_code a \<noteq> None)"

definition jobs_wf :: "(uuid \<rightharpoonup> Job) \<Rightarrow> bool" where
  "jobs_wf J \<longleftrightarrow> (\<forall>k j. J k = Some j \<longrightarrow> j_id j = k \<and> job_ok j)"

definition keys_unique :: "(uuid \<rightharpoonup> Job) \<Rightarrow> bool" where
  "keys_unique J \<longleftrightarrow>
     (\<forall>k1 k2 j1 j2 key. J k1 = Some j1 \<longrightarrow> J k2 = Some j2
        \<longrightarrow> j_idempotency_key j1 = Some key \<longrightarrow> j_idempotency_key j2 = Some key \<longrightarrow> k1 = k2)"

definition archive_wf :: "(uuid \<rightharpoonup> Job) \<Rightarrow> (uuid \<rightharpoonup> Job) \<Rightarrow> bool" where
  "archive_wf J A \<longleftrightarrow>
     (\<forall>k j. A k = Some j \<longrightarrow> j_id j = k \<and> j_status j = ''succeeded'' \<and> J k = None)"

definition queued_entry :: "(uuid \<rightharpoonup> Job) \<Rightarrow> string \<Rightarrow> QueueEntry \<Rightarrow> bool" where
  "queued_entry J q e \<longleftrightarrow>
     (\<exists>j. J (qe_id e) = Some j \<and> j_status j = ''queued'' \<and> j_queue j = q \<and> from_job j = e)"

definition index_wf :: "(uuid \<rightharpoonup> Job) \<Rightarrow> (string \<Rightarrow> QueueEntry list) \<Rightarrow> bool" where
  "index_wf J I \<longleftrightarrow> (\<forall>q. bt_set (I q) \<and> (\<forall>e. e \<in> set (I q) \<longleftrightarrow> queued_entry J q e))"

definition attempts_wf :: "(uuid \<rightharpoonup> MemoryAttempt) \<Rightarrow> (uuid \<Rightarrow> int) \<Rightarrow> bool" where
  "attempts_wf T C \<longleftrightarrow>
     (\<forall>k a. T k = Some a \<longrightarrow>
        at_id a = k \<and> attempt_ok a \<and> 1 \<le> at_attempt_no a \<and> at_attempt_no a \<le> C (at_job_id a))
     \<and> (\<forall>k1 k2 a1 a2. T k1 = Some a1 \<longrightarrow> T k2 = Some a2 \<longrightarrow> at_job_id a1 = at_job_id a2
          \<longrightarrow> at_attempt_no a1 = at_attempt_no a2 \<longrightarrow> k1 = k2)
     \<and> (\<forall>i. 0 \<le> C i)"

definition tables_wf :: "MemoryBackend \<Rightarrow> bool" where
  "tables_wf s \<longleftrightarrow>
     wf_map (jobs s) \<and> wf_map (queued_jobs s) \<and> wf_map (archive s)
     \<and> wf_map (attempts s) \<and> wf_map (attempt_counts s)"

definition mem_inv :: "MemoryBackend \<Rightarrow> bool" where
  "mem_inv s \<longleftrightarrow>
     tables_wf s
     \<and> jobs_wf (map_of (jobs s))
     \<and> keys_unique (map_of (jobs s))
     \<and> archive_wf (map_of (jobs s)) (map_of (archive s))
     \<and> index_wf (map_of (jobs s)) (index_of s)
     \<and> attempts_wf (map_of (attempts s)) (attempt_count s)"

text \<open>
  An identifier the generator draws is fresh when no stored job, archived job or attempt
  carries it: what \<^verbatim>\<open>Uuid::new_v4()\<close> is relied on for.
\<close>

definition fresh_id :: "uuid \<Rightarrow> MemoryBackend \<Rightarrow> bool" where
  "fresh_id i s \<longleftrightarrow>
     map_of (jobs s) i = None \<and> map_of (archive s) i = None \<and> map_of (attempts s) i = None"

definition fresh_env :: "Env \<Rightarrow> MemoryBackend \<Rightarrow> bool" where
  "fresh_env env s \<longleftrightarrow> inj (e_fresh env) \<and> (\<forall>k. fresh_id (e_fresh env k) s)"

section \<open>Selectors of the update helpers\<close>

lemma index_of_insert [simp, store_simps]:
  "index_of (index_insert q e s) = (index_of s)(q := bt_insert e (index_of s q))"
  by (auto simp: index_of_def index_insert_def fun_eq_iff)

lemma index_of_remove [simp, store_simps]:
  "index_of (index_remove q e s) = (index_of s)(q := bt_remove e (index_of s q))"
  by (auto simp: index_of_def index_remove_def bt_remove_def fun_eq_iff split: option.splits)

lemma put_job_simps [simp, store_simps]:
  "jobs (put_job k j s) = hm_insert k j (jobs s)"
  "queued_jobs (put_job k j s) = queued_jobs s"
  "archive (put_job k j s) = archive s"
  "attempts (put_job k j s) = attempts s"
  "attempt_counts (put_job k j s) = attempt_counts s"
  "streams (put_job k j s) = streams s"
  "stream_offsets (put_job k j s) = stream_offsets s"
  "index_of (put_job k j s) = index_of s"
  "attempt_count (put_job k j s) = attempt_count s"
  by (simp_all add: put_job_def index_of_def attempt_count_def fun_eq_iff)

lemma put_attempt_simps [simp, store_simps]:
  "jobs (put_attempt k a s) = jobs s"
  "queued_jobs (put_attempt k a s) = queued_jobs s"
  "archive (put_attempt k a s) = archive s"
  "attempts (put_attempt k a s) = hm_insert k a (attempts s)"
  "attempt_counts (put_attempt k a s) = attempt_counts s"
  "streams (put_attempt k a s) = streams s"
  "stream_offsets (put_attempt k a s) = stream_offsets s"
  "index_of (put_attempt k a s) = index_of s"
  "attempt_count (put_attempt k a s) = attempt_count s"
  by (simp_all add: put_attempt_def index_of_def attempt_count_def fun_eq_iff)

lemma index_insert_simps [simp, store_simps]:
  "jobs (index_insert q e s) = jobs s"
  "archive (index_insert q e s) = archive s"
  "attempts (index_insert q e s) = attempts s"
  "attempt_counts (index_insert q e s) = attempt_counts s"
  "streams (index_insert q e s) = streams s"
  "stream_offsets (index_insert q e s) = stream_offsets s"
  "attempt_count (index_insert q e s) = attempt_count s"
  "wf_map (queued_jobs s) \<Longrightarrow> wf_map (queued_jobs (index_insert q e s))"
  by (simp_all add: index_insert_def attempt_count_def fun_eq_iff)

lemma index_remove_simps [simp, store_simps]:
  "jobs (index_remove q e s) = jobs s"
  "archive (index_remove q e s) = archive s"
  "attempts (index_remove q e s) = attempts s"
  "attempt_counts (index_remove q e s) = attempt_counts s"
  "streams (index_remove q e s) = streams s"
  "stream_offsets (index_remove q e s) = stream_offsets s"
  "attempt_count (index_remove q e s) = attempt_count s"
  "wf_map (queued_jobs s) \<Longrightarrow> wf_map (queued_jobs (index_remove q e s))"
  by (simp_all add: index_remove_def attempt_count_def fun_eq_iff)

lemma notify_queue_simps [simp, store_simps]:
  "jobs (notify_queue q s) = jobs s"
  "queued_jobs (notify_queue q s) = queued_jobs s"
  "archive (notify_queue q s) = archive s"
  "attempts (notify_queue q s) = attempts s"
  "attempt_counts (notify_queue q s) = attempt_counts s"
  "streams (notify_queue q s) = streams s"
  "stream_offsets (notify_queue q s) = stream_offsets s"
  "index_of (notify_queue q s) = index_of s"
  "attempt_count (notify_queue q s) = attempt_count s"
  by (simp_all add: notify_queue_def index_of_def attempt_count_def fun_eq_iff)

section \<open>Record updates and statuses\<close>

lemma from_job_sel [simp]:
  "qe_id (from_job j) = j_id j" "qe_run_at (from_job j) = j_run_at j"
  "qe_priority (from_job j) = j_priority j" "qe_created_at (from_job j) = j_created_at j"
  by (simp_all add: from_job_def)

lemmas record_defs =
  lock_job_def deadline_dlq_def requeue_job_def complete_job_record_def dlq_job_record_def
  cancel_job_record_def next_occurrence_def mem_enqueue_entity_def replay_entity_def

lemmas attempt_record_defs =
  fail_attempt_record_def succeed_attempt_record_def new_attempt_def

lemma job_ok_cases:
  assumes "job_ok j"
  obtains "j_status j = ''queued''" | "j_status j = ''running''" | "j_status j = ''succeeded''"
    | "j_status j = ''dlq''" | "j_status j = ''canceled''"
  using assms by (auto simp: job_ok_def)

lemma job_ok_records [simp, intro]:
  "job_ok (mem_enqueue_entity env job)"
  "job_ok (replay_entity env i oq orun src)"
  "job_ok j \<Longrightarrow> j_status j = ''queued'' \<Longrightarrow> job_ok (lock_job now w t j)"
  "job_ok j \<Longrightarrow> j_status j = ''queued'' \<Longrightarrow> job_ok (deadline_dlq now j)"
  "job_ok j \<Longrightarrow> j_status j = ''running'' \<Longrightarrow> job_ok (requeue_job now j)"
  "job_ok j \<Longrightarrow> j_status j = ''running'' \<Longrightarrow> job_ok (complete_job_record now j)"
  "job_ok (dlq_job_record now reason j)"
  "job_ok j \<Longrightarrow> j_status j \<noteq> ''dlq'' \<Longrightarrow> job_ok (cancel_job_record now j)"
  "job_ok (next_occurrence now i j n)"
  by (simp_all add: job_ok_def record_defs)

lemma entity_sel [simp]:
  "j_id (mem_enqueue_entity env job) = e_fresh env 0"
  "j_status (mem_enqueue_entity env job) = ''queued''"
  "j_queue (mem_enqueue_entity env job) = nj_queue job"
  "j_idempotency_key (mem_enqueue_entity env job) = nj_idempotency_key job"
  "j_id (replay_entity env i oq orun src) = e_fresh env 0"
  "j_status (replay_entity env i oq orun src) = ''queued''"
  "j_idempotency_key (replay_entity env i oq orun src) = None"
  "j_id (next_occurrence now i j n) = i"
  "j_status (next_occurrence now i j n) = ''queued''"
  "j_queue (next_occurrence now i j n) = j_queue j"
  "j_idempotency_key (next_occurrence now i j n) = None"
  by (simp_all add: record_defs)

section \<open>Updates of the job table\<close>

lemma jobs_wf_upd: "jobs_wf J \<Longrightarrow> j_id j = k \<Longrightarrow> job_ok j \<Longrightarrow> jobs_wf (J(k \<mapsto> j))"
  by (simp add: jobs_wf_def)

lemma jobs_wfD: "jobs_wf J \<Longrightarrow> J k = Some j \<Longrightarrow> j_id j = k \<and> job_ok j"
  by (simp add: jobs_wf_def)

lemma keys_unique_upd_same:
  assumes "keys_unique J" "J k = Some j0" "j_idempotency_key j = j_idempotency_key j0"
  shows "keys_unique (J(k \<mapsto> j))"
  unfolding keys_unique_def
proof (intro allI impI)
  fix k1 k2 j1 j2 key
  assume upd: "(J(k \<mapsto> j)) k1 = Some j1" "(J(k \<mapsto> j)) k2 = Some j2"
    and keys: "j_idempotency_key j1 = Some key" "j_idempotency_key j2 = Some key"
  have old: "\<exists>j'. J i = Some j' \<and> j_idempotency_key j' = Some key"
    if "(J(k \<mapsto> j)) i = Some ji" "j_idempotency_key ji = Some key" for i ji
    using that assms(2,3) by (auto split: if_splits)
  from old[OF upd(1) keys(1)] old[OF upd(2) keys(2)] assms(1) show "k1 = k2"
    unfolding keys_unique_def by blast
qed

lemma keys_unique_upd_none:
  "keys_unique J \<Longrightarrow> j_idempotency_key j = None \<Longrightarrow> keys_unique (J(k \<mapsto> j))"
  by (simp add: keys_unique_def)

lemma keys_unique_upd_new:
  assumes "keys_unique J"
    and "\<And>k' j'. J k' = Some j' \<Longrightarrow> j_idempotency_key j \<noteq> None
           \<Longrightarrow> j_idempotency_key j' \<noteq> j_idempotency_key j"
  shows "keys_unique (J(k \<mapsto> j))"
  using assms unfolding keys_unique_def by (auto split: if_splits)

lemma keys_unique_None: "keys_unique J \<Longrightarrow> keys_unique (J(k := None))"
  by (simp add: keys_unique_def)

lemma archive_wf_upd: "archive_wf J A \<Longrightarrow> A k = None \<Longrightarrow> archive_wf (J(k \<mapsto> j)) A"
  by (auto simp: archive_wf_def)

lemma archive_wf_present: "archive_wf J A \<Longrightarrow> J k = Some j \<Longrightarrow> A k = None"
  by (cases "A k") (auto simp: archive_wf_def)

section \<open>Updates of the queue index\<close>

lemma queued_entry_upd:
  "queued_entry (J(k \<mapsto> j)) q e \<longleftrightarrow>
     (if qe_id e = k then j_status j = ''queued'' \<and> j_queue j = q \<and> from_job j = e
      else queued_entry J q e)"
  by (auto simp: queued_entry_def)

lemma index_wf_enqueue:
  assumes wf: "index_wf J I" and k: "j_id j = k" and queued: "j_status j = ''queued''"
    and old: "\<And>j0. J k = Some j0 \<Longrightarrow> j_status j0 \<noteq> ''queued''"
  shows "index_wf (J(k \<mapsto> j)) (I(j_queue j := bt_insert (from_job j) (I (j_queue j))))"
proof -
  have absent: "\<not> queued_entry J q e" if "qe_id e = k" for q e
    using old that by (auto simp: queued_entry_def)
  have new: "qe_id e = k \<Longrightarrow> from_job j = e \<longleftrightarrow> e = from_job j" for e by auto
  show ?thesis
    using wf absent k queued
    unfolding index_wf_def by (auto simp: queued_entry_upd)
qed

lemma index_wf_keep:
  assumes wf: "index_wf J I" and new: "j_status j \<noteq> ''queued''"
    and old: "\<And>j0. J k = Some j0 \<Longrightarrow> j_status j0 \<noteq> ''queued''"
  shows "index_wf (J(k \<mapsto> j)) I"
proof -
  have "\<not> queued_entry J q e" if "qe_id e = k" for q e
    using old that by (auto simp: queued_entry_def)
  then show ?thesis
    using wf new unfolding index_wf_def by (auto simp: queued_entry_upd)
qed

lemma index_wf_take_out:
  assumes wf: "index_wf J I" and sub: "E \<subseteq> set (I q)"
    and J': "\<And>k. J' k = (if k \<in> qe_id ` E then map_option f (J k) else J k)"
    and I': "I' = I(q := filter (\<lambda>e. e \<notin> E) (I q))"
    and f: "\<And>j. j_status (f j) \<noteq> ''queued''"
  shows "index_wf J' I'"
proof -
  have same: "e' = e" if "queued_entry J q1 e" "queued_entry J q2 e'" "qe_id e = qe_id e'"
    for e e' q1 q2
    using that by (auto simp: queued_entry_def)
  have mem: "queued_entry J q e" if "e \<in> E" for e
    using that sub wf by (auto simp: index_wf_def)
  have gone: "\<not> queued_entry J' q' e" if "qe_id e \<in> qe_id ` E" for q' e
    using that f J'[of "qe_id e"] by (auto simp: queued_entry_def)
  have kept: "queued_entry J' q' e \<longleftrightarrow> queued_entry J q' e" if "qe_id e \<notin> qe_id ` E" for q' e
    using that J'[of "qe_id e"] by (simp add: queued_entry_def)
  have other: "\<not> queued_entry J q' e" if "qe_id e \<in> qe_id ` E" "q' \<noteq> q \<or> e \<notin> E" for q' e
  proof
    assume q': "queued_entry J q' e"
    from that(1) obtain e' where e': "e' \<in> E" "qe_id e = qe_id e'" by auto
    have "e' = e" using same[OF q' mem[OF e'(1)] e'(2)] by simp
    moreover have "q' = q" using q' mem[OF e'(1)] e'(2) by (auto simp: queued_entry_def)
    ultimately show False using that(2) e'(1) by auto
  qed
  show ?thesis
    unfolding index_wf_def
  proof (intro allI conjI)
    fix q'
    show "bt_set (I' q')" using wf by (simp add: I' index_wf_def sorted_wrt_filter)
    fix e
    show "e \<in> set (I' q') \<longleftrightarrow> queued_entry J' q' e"
    proof (cases "qe_id e \<in> qe_id ` E")
      case True
      have "e \<notin> set (I' q')"
      proof (cases "q' = q \<and> e \<in> E")
        case True then show ?thesis by (simp add: I')
      next
        case False
        then have "e \<notin> set (I q')" using other[OF True] wf by (auto simp: index_wf_def)
        then show ?thesis by (auto simp: I')
      qed
      then show ?thesis using gone[OF True] by simp
    next
      case False
      then have "e \<notin> E" by auto
      then have "e \<in> set (I' q') \<longleftrightarrow> e \<in> set (I q')" by (auto simp: I')
      then show ?thesis using kept[OF False] wf by (simp add: index_wf_def)
    qed
  qed
qed

section \<open>Updates of the attempt table\<close>

lemma attempts_wf_close:
  assumes "attempts_wf T C" "T k = Some a0" "at_id a = at_id a0" "at_job_id a = at_job_id a0"
    "at_attempt_no a = at_attempt_no a0" "attempt_ok a"
  shows "attempts_wf (T(k \<mapsto> a)) C"
proof -
  have base: "at_id a = k" "1 \<le> at_attempt_no a" "at_attempt_no a \<le> C (at_job_id a)"
    using assms by (auto simp: attempts_wf_def)
  have uniq: "k = k'" if "T k' = Some a'" "at_job_id a' = at_job_id a"
    "at_attempt_no a' = at_attempt_no a" for k' a'
    using assms that unfolding attempts_wf_def by metis
  show ?thesis
    using assms(1,6) base uniq unfolding attempts_wf_def by (auto split: if_splits)
qed

lemma attempts_wf_start:
  assumes wf: "attempts_wf T C" and no: "at_attempt_no a = C (at_job_id a) + 1"
    and "at_id a = k" "attempt_ok a" and fresh: "T k = None"
  shows "attempts_wf (T(k \<mapsto> a)) (C(at_job_id a := at_attempt_no a))"
proof -
  have old: "at_attempt_no a' < at_attempt_no a" if "T k' = Some a'" "at_job_id a' = at_job_id a"
    for k' a'
    using wf that no unfolding attempts_wf_def by force
  have pos: "0 \<le> C i" for i using wf by (simp add: attempts_wf_def)
  show ?thesis
    unfolding attempts_wf_def
  proof (intro conjI allI impI)
    fix k1 k2 a1 a2
    assume upd: "(T(k \<mapsto> a)) k1 = Some a1" "(T(k \<mapsto> a)) k2 = Some a2"
      and eq: "at_job_id a1 = at_job_id a2" "at_attempt_no a1 = at_attempt_no a2"
    show "k1 = k2"
      using upd eq old wf by (auto simp: attempts_wf_def split: if_splits) (metis less_irrefl)+
  next
    fix i show "0 \<le> (C(at_job_id a := at_attempt_no a)) i" using pos[of i] pos[of "at_job_id a"] no
      by simp
  qed (use assms old pos[of "at_job_id a"] in
       \<open>force simp: attempts_wf_def split: if_splits\<close>)+
qed

lemma attempts_wf_map:
  assumes wf: "attempts_wf T C"
    and f: "\<And>a. attempt_ok a \<Longrightarrow> attempt_ok (f a)" "\<And>a. at_id (f a) = at_id a"
      "\<And>a. at_job_id (f a) = at_job_id a" "\<And>a. at_attempt_no (f a) = at_attempt_no a"
  shows "attempts_wf (map_option f \<circ> T) C"
proof -
  have inv: "\<exists>a0. T k = Some a0 \<and> a = f a0" if "(map_option f \<circ> T) k = Some a" for k a
    using that by auto
  show ?thesis
    unfolding attempts_wf_def
  proof (intro conjI allI impI)
    fix k1 k2 a1 a2
    assume img: "(map_option f \<circ> T) k1 = Some a1" "(map_option f \<circ> T) k2 = Some a2"
      and eq: "at_job_id a1 = at_job_id a2" "at_attempt_no a1 = at_attempt_no a2"
    from inv[OF img(1)] inv[OF img(2)] obtain b1 b2 where
      b: "T k1 = Some b1" "a1 = f b1" "T k2 = Some b2" "a2 = f b2" by blast
    then have "at_job_id b1 = at_job_id b2" "at_attempt_no b1 = at_attempt_no b2"
      using eq f(3,4) by auto
    then show "k1 = k2" using wf b(1,3) unfolding attempts_wf_def by blast
  next
    fix i show "0 \<le> C i" using wf by (simp add: attempts_wf_def)
  qed (use wf f in \<open>auto simp: attempts_wf_def\<close>)
qed

lemma attempts_wf_sub: "attempts_wf T C \<Longrightarrow> T' \<subseteq>\<^sub>m T \<Longrightarrow> attempts_wf T' C"
  unfolding attempts_wf_def map_le_def dom_def by (clarsimp, metis option.simps(3))

lemma attempt_ok_records [simp, intro]:
  "attempt_ok (new_attempt now i jid n w)"
  "attempt_ok a \<Longrightarrow> attempt_ok (fail_attempt_record now l c m a)"
  "attempt_ok a \<Longrightarrow> at_status a = ''running'' \<Longrightarrow> attempt_ok (succeed_attempt_record now l a)"
  by (auto simp: attempt_ok_def attempt_record_defs)

lemma attempt_record_sel [simp]:
  "at_id (fail_attempt_record now l c m a) = at_id a"
  "at_job_id (fail_attempt_record now l c m a) = at_job_id a"
  "at_attempt_no (fail_attempt_record now l c m a) = at_attempt_no a"
  "at_status (fail_attempt_record now l c m a) = ''failed''"
  "at_id (succeed_attempt_record now l a) = at_id a"
  "at_job_id (succeed_attempt_record now l a) = at_job_id a"
  "at_attempt_no (succeed_attempt_record now l a) = at_attempt_no a"
  "at_status (succeed_attempt_record now l a) = ''succeeded''"
  by (simp_all add: attempt_record_defs)

section \<open>Enqueue, replay, reads\<close>

lemma mem_inv_new [simp]: "mem_inv mem_new"
  by (simp add: mem_inv_def mem_new_def tables_wf_def jobs_wf_def keys_unique_def archive_wf_def
      index_wf_def index_of_def queued_entry_def attempts_wf_def attempt_count_def)

lemma mem_inv_clear [simp]: "mem_inv (mem_clear s)"
  by (simp add: mem_inv_def mem_clear_def tables_wf_def jobs_wf_def keys_unique_def archive_wf_def
      index_wf_def index_of_def queued_entry_def attempts_wf_def attempt_count_def)

lemma mem_inv_notify [simp]: "mem_inv (notify_queue q s) \<longleftrightarrow> mem_inv s"
  by (simp add: mem_inv_def tables_wf_def)

lemma mem_inv_insert_job:
  assumes inv: "mem_inv s" and new: "map_of (jobs s) k = None" "map_of (archive s) k = None"
    and j: "j_id j = k" "job_ok j" "j_status j = ''queued''"
    and key: "\<And>k' j'. map_of (jobs s) k' = Some j' \<Longrightarrow> j_idempotency_key j \<noteq> None
           \<Longrightarrow> j_idempotency_key j' \<noteq> j_idempotency_key j"
  shows "mem_inv (put_job k j (index_insert (j_queue j) (from_job j) s))"
  unfolding mem_inv_def
proof (intro conjI)
  let ?s = "put_job k j (index_insert (j_queue j) (from_job j) s)"
  show "tables_wf ?s" using inv by (simp add: mem_inv_def tables_wf_def)
  show "jobs_wf (map_of (jobs ?s))" using inv j by (simp add: mem_inv_def jobs_wf_upd)
  show "keys_unique (map_of (jobs ?s))"
    using keys_unique_upd_new[OF _ key] inv by (simp add: mem_inv_def)
  show "archive_wf (map_of (jobs ?s)) (map_of (archive ?s))"
    using inv new by (simp add: mem_inv_def archive_wf_upd)
  show "index_wf (map_of (jobs ?s)) (index_of ?s)"
    using index_wf_enqueue[of "map_of (jobs s)" "index_of s" j k] inv new j
    by (simp add: mem_inv_def)
  show "attempts_wf (map_of (attempts ?s)) (attempt_count ?s)"
    using inv by (simp add: mem_inv_def)
qed

lemma mem_enqueue_inv:
  assumes inv: "mem_inv s" and fresh: "fresh_id (e_fresh env 0) s"
  shows "mem_inv (snd (mem_enqueue env job s))"
proof (cases "mem_find_idempotent job s")
  case (Some existing)
  then show ?thesis using inv by (simp add: mem_enqueue_def)
next
  case None
  let ?j = "mem_enqueue_entity env job"
  have wf: "wf_map (jobs s)" using inv by (simp add: mem_inv_def tables_wf_def)
  have key: "j_idempotency_key j' \<noteq> j_idempotency_key ?j"
    if "map_of (jobs s) k' = Some j'" "j_idempotency_key ?j \<noteq> None" for k' j'
  proof -
    have "j' \<in> set (hm_values (jobs s))" using that(1) wf by (auto simp: in_values_iff)
    then show ?thesis using None that(2)
      by (auto simp: mem_find_idempotent_def find_None_iff split: option.splits)
  qed
  have "mem_inv (put_job (e_fresh env 0) ?j (index_insert (j_queue ?j) (from_job ?j) s))"
    using inv fresh key
    by (intro mem_inv_insert_job) (auto simp: fresh_id_def)
  then show ?thesis using None by (simp add: mem_enqueue_def Let_def)
qed

lemma mem_replay_inv:
  assumes inv: "mem_inv s" and fresh: "fresh_id (e_fresh env 0) s"
  shows "mem_inv (snd (mem_replay_job env i oq orun s))"
proof (cases "lookup_job s i")
  case None
  then show ?thesis using inv by (simp add: mem_replay_job_def)
next
  case (Some src)
  let ?j = "replay_entity env i oq orun src"
  have "mem_inv (put_job (e_fresh env 0) ?j (index_insert (j_queue ?j) (from_job ?j) s))"
    using inv fresh by (intro mem_inv_insert_job) (auto simp: fresh_id_def)
  then show ?thesis using Some by (simp add: mem_replay_job_def Let_def)
qed

end
