(* ===== verification/Memory_Lease.thy ===== *)
theory Memory_Lease
  imports Memory_Invariant
begin

text \<open>
  Leasing in the in-memory storage: what the two loops of
  \<^verbatim>\<open>lease_jobs_batch_with_ordering\<close> compute, the reference specification of a lease (the
  due jobs of the queue in the order of \<^verbatim>\<open>QueueEntry\<close>, cut at the batch size), and the
  preservation of the invariant.
\<close>

section \<open>The deadline sweep\<close>

lemma deadline_dlq_idem [simp]: "deadline_dlq now (deadline_dlq now j) = deadline_dlq now j"
  by (simp add: deadline_dlq_def)

lemma lock_job_idem [simp]: "lock_job now w t (lock_job now w t j) = lock_job now w t j"
  by (simp add: lock_job_def)

lemma lease_record_sel [simp]:
  "j_status (deadline_dlq now j) = ''dlq''" "j_id (deadline_dlq now j) = j_id j"
  "j_idempotency_key (deadline_dlq now j) = j_idempotency_key j"
  "j_status (lock_job now w t j) = ''running''" "j_id (lock_job now w t j) = j_id j"
  "j_idempotency_key (lock_job now w t j) = j_idempotency_key j"
  "j_locked_by (lock_job now w t j) = Some w" "j_lock_expires_at (lock_job now w t j) = Some t"
  "j_queue (lock_job now w t j) = j_queue j" "from_job (lock_job now w t j) = from_job j"
  by (simp_all add: record_defs from_job_def)

lemma expire_entry_simps [simp]:
  "map_of (jobs (expire_entry now q e s)) =
     (map_of (jobs s))(qe_id e := map_option (deadline_dlq now) (map_of (jobs s) (qe_id e)))"
  "index_of (expire_entry now q e s) = (index_of s)(q := bt_remove e (index_of s q))"
  "archive (expire_entry now q e s) = archive s"
  "attempts (expire_entry now q e s) = attempts s"
  "attempt_counts (expire_entry now q e s) = attempt_counts s"
  "attempt_count (expire_entry now q e s) = attempt_count s"
  "streams (expire_entry now q e s) = streams s"
  "stream_offsets (expire_entry now q e s) = stream_offsets s"
  "tables_wf s \<Longrightarrow> tables_wf (expire_entry now q e s)"
proof -
  have idx: "index_of (s\<lparr>jobs := J\<rparr>) = index_of s" for s J
    by (simp add: index_of_def fun_eq_iff)
  show "index_of (expire_entry now q e s) = (index_of s)(q := bt_remove e (index_of s q))"
    by (simp add: expire_entry_def Let_def idx)
qed (simp_all add: expire_entry_def Let_def attempt_count_def fun_eq_iff tables_wf_def index_remove_def)

lemma fold_expire_jobs:
  "map_of (jobs (fold (expire_entry now q) es s)) k =
     (if k \<in> qe_id ` set es then map_option (deadline_dlq now) (map_of (jobs s) k)
      else map_of (jobs s) k)"
  by (induction es arbitrary: s) (auto simp: option.map_comp comp_def)

lemma fold_expire_index:
  "index_of (fold (expire_entry now q) es s) =
     (index_of s)(q := filter (\<lambda>e. e \<notin> set es) (index_of s q))"
  by (induction es arbitrary: s) (auto simp: bt_remove_def fun_eq_iff intro: filter_cong)

lemma fold_expire_simps [simp]:
  "archive (fold (expire_entry now q) es s) = archive s"
  "attempts (fold (expire_entry now q) es s) = attempts s"
  "attempt_counts (fold (expire_entry now q) es s) = attempt_counts s"
  "attempt_count (fold (expire_entry now q) es s) = attempt_count s"
  "streams (fold (expire_entry now q) es s) = streams s"
  "stream_offsets (fold (expire_entry now q) es s) = stream_offsets s"
  "tables_wf s \<Longrightarrow> tables_wf (fold (expire_entry now q) es s)"
  by (induction es arbitrary: s) simp_all

section \<open>The locking loop\<close>

lemma fold_remove_index:
  "index_of (fold (index_remove q) es s) =
     (index_of s)(q := filter (\<lambda>e. e \<notin> set es) (index_of s q))"
  by (induction es arbitrary: s) (auto simp: bt_remove_def fun_eq_iff intro: filter_cong)

lemma fold_remove_simps [simp]:
  "jobs (fold (index_remove q) es s) = jobs s"
  "archive (fold (index_remove q) es s) = archive s"
  "attempts (fold (index_remove q) es s) = attempts s"
  "attempt_counts (fold (index_remove q) es s) = attempt_counts s"
  "attempt_count (fold (index_remove q) es s) = attempt_count s"
  "streams (fold (index_remove q) es s) = streams s"
  "stream_offsets (fold (index_remove q) es s) = stream_offsets s"
  "tables_wf s \<Longrightarrow> tables_wf (fold (index_remove q) es s)"
  by (induction es arbitrary: s) (simp_all add: tables_wf_def)

lemma lease_loop_jobs:
  "map_of (jobs (snd (lease_loop now w t es s))) k =
     (if k \<in> qe_id ` set es then map_option (lock_job now w t) (map_of (jobs s) k)
      else map_of (jobs s) k)"
  by (induction es arbitrary: s)
     (auto simp: Let_def case_prod_unfold option.map_comp comp_def split: option.splits)

lemma lease_loop_simps [simp]:
  "index_of (snd (lease_loop now w t es s)) = index_of s"
  "archive (snd (lease_loop now w t es s)) = archive s"
  "attempts (snd (lease_loop now w t es s)) = attempts s"
  "attempt_counts (snd (lease_loop now w t es s)) = attempt_counts s"
  "attempt_count (snd (lease_loop now w t es s)) = attempt_count s"
  "streams (snd (lease_loop now w t es s)) = streams s"
  "stream_offsets (snd (lease_loop now w t es s)) = stream_offsets s"
  "tables_wf s \<Longrightarrow> tables_wf (snd (lease_loop now w t es s))"
  by (induction es arbitrary: s)
     (simp_all add: Let_def case_prod_unfold tables_wf_def split: option.splits)

lemma lease_loop_result:
  assumes "\<And>e. e \<in> set es \<Longrightarrow> map_of (jobs s) (qe_id e) \<noteq> None"
  shows "fst (lease_loop now w t es s) =
           map (\<lambda>e. lock_job now w t (the (map_of (jobs s) (qe_id e)))) es"
  using assms
proof (induction es arbitrary: s)
  case Nil
  then show ?case by simp
next
  case (Cons e es)
  from Cons.prems[of e] obtain j where j: "map_of (jobs s) (qe_id e) = Some j" by auto
  have "fst (lease_loop now w t es (put_job (qe_id e) (lock_job now w t j) s)) =
          map (\<lambda>e. lock_job now w t (the (map_of (jobs s) (qe_id e)))) es"
    using Cons.prems j by (subst Cons.IH) (auto simp del: not_None_eq)
  then show ?case using j by (simp add: Let_def case_prod_unfold)
qed

section \<open>Entries leave the index\<close>

lemma index_wf_queued:
  "index_wf J I \<Longrightarrow> e \<in> set (I q) \<Longrightarrow>
     \<exists>j. J (qe_id e) = Some j \<and> j_status j = ''queued'' \<and> j_queue j = q \<and> from_job j = e"
  by (auto simp: index_wf_def queued_entry_def)

lemma mem_inv_take_out:
  assumes inv: "mem_inv s" and sub: "E \<subseteq> set (index_of s q)" and tables: "tables_wf s'"
    and jobs': "\<And>k. map_of (jobs s') k =
      (if k \<in> qe_id ` E then map_option f (map_of (jobs s) k) else map_of (jobs s) k)"
    and index': "index_of s' = (index_of s)(q := filter (\<lambda>e. e \<notin> E) (index_of s q))"
    and rest: "archive s' = archive s" "attempts s' = attempts s" "attempt_count s' = attempt_count s"
    and f: "\<And>j. j_status (f j) \<noteq> ''queued''" "\<And>j. j_id (f j) = j_id j"
      "\<And>j. j_idempotency_key (f j) = j_idempotency_key j"
      "\<And>j. job_ok j \<Longrightarrow> j_status j = ''queued'' \<Longrightarrow> job_ok (f j)"
  shows "mem_inv s'"
  unfolding mem_inv_def
proof (intro conjI)
  have idx: "index_wf (map_of (jobs s)) (index_of s)" and jwf: "jobs_wf (map_of (jobs s))"
    and ku: "keys_unique (map_of (jobs s))"
    using inv by (simp_all add: mem_inv_def)
  have queued: "j_status j = ''queued''" if "map_of (jobs s) k = Some j" "k \<in> qe_id ` E" for k j
    using that sub index_wf_queued[OF idx] by fastforce
  have old: "\<exists>j0. map_of (jobs s) k = Some j0 \<and> j_idempotency_key j0 = j_idempotency_key j"
    if "map_of (jobs s') k = Some j" for k j
    using that f(3) by (auto simp: jobs' split: if_splits)
  show "tables_wf s'" by (rule tables)
  show "jobs_wf (map_of (jobs s'))"
    using jwf queued f by (auto simp: jobs_wf_def jobs' split: if_splits)
  show "keys_unique (map_of (jobs s'))"
    unfolding keys_unique_def by (metis old ku[unfolded keys_unique_def])
  show "archive_wf (map_of (jobs s')) (map_of (archive s'))"
    using inv by (auto simp: mem_inv_def archive_wf_def rest jobs')
  show "index_wf (map_of (jobs s')) (index_of s')"
    by (rule index_wf_take_out[OF idx sub jobs' index' f(1)])
  show "attempts_wf (map_of (attempts s')) (attempt_count s')"
    using inv by (simp add: mem_inv_def rest)
qed

lemma mem_inv_sweep:
  assumes "mem_inv s" "set es \<subseteq> set (index_of s q)"
  shows "mem_inv (fold (expire_entry now q) es s)"
  by (rule mem_inv_take_out[OF assms, where f = "deadline_dlq now"])
     (use assms in \<open>simp_all add: mem_inv_def fold_expire_jobs fold_expire_index\<close>)

lemma mem_inv_lock:
  assumes "mem_inv s" "set es \<subseteq> set (index_of s q)"
  shows "mem_inv (snd (lease_loop now w t es (fold (index_remove q) es s)))"
  by (rule mem_inv_take_out[OF assms, where f = "lock_job now w t"])
     (use assms in \<open>simp_all add: mem_inv_def lease_loop_jobs fold_remove_index\<close>)

section \<open>The stages of a lease\<close>

definition swept :: "datetime \<Rightarrow> string \<Rightarrow> MemoryBackend \<Rightarrow> MemoryBackend" where
  "swept now queue s = fold (expire_entry now queue) (mem_expired_deadlines now queue s) s"

definition due_candidates :: "datetime \<Rightarrow> string \<Rightarrow> nat \<Rightarrow> MemoryBackend \<Rightarrow> QueueEntry list" where
  "due_candidates now queue n s =
     take n (filter (\<lambda>entry. qe_run_at entry \<le> now) (index_of s queue))"

definition locked :: "datetime \<Rightarrow> string \<Rightarrow> string \<Rightarrow> datetime \<Rightarrow> QueueEntry list \<Rightarrow> MemoryBackend
     \<Rightarrow> Job list \<times> MemoryBackend" where
  "locked now queue w t es s = lease_loop now w t es (fold (index_remove queue) es s)"

lemma lease_stages:
  "mem_lease_jobs_batch_with_ordering env queue w ls bs policy s =
     (let now = e_now env; s1 = swept now queue s;
          (leased, s2) = locked now queue w (now + seconds ls)
                           (due_candidates now queue (nat (max bs 0)) s1) s1
      in (Inr leased, s2))"
  by (simp add: mem_lease_jobs_batch_with_ordering_def swept_def due_candidates_def locked_def
      Let_def case_prod_unfold)

lemma expired_subset: "set (mem_expired_deadlines now q s) \<subseteq> set (index_of s q)"
  by (auto simp: mem_expired_deadlines_def)

lemma candidates_subset: "set (due_candidates now q n s) \<subseteq> set (index_of s q)"
  by (auto simp: due_candidates_def dest: in_set_takeD)

lemma mem_inv_swept: "mem_inv s \<Longrightarrow> mem_inv (swept now q s)"
  unfolding swept_def by (rule mem_inv_sweep[OF _ expired_subset])

lemma mem_lease_with_ordering_inv:
  assumes "mem_inv s"
  shows "mem_inv (snd (mem_lease_jobs_batch_with_ordering env q w ls bs policy s))"
  using mem_inv_lock[OF mem_inv_swept[OF assms] candidates_subset]
  by (simp add: lease_stages Let_def case_prod_unfold locked_def)

lemma mem_lease_inv: "mem_inv s \<Longrightarrow> mem_inv (snd (mem_lease_jobs_batch env q w ls bs s))"
  by (simp add: mem_lease_jobs_batch_def mem_lease_with_ordering_inv)

section \<open>The reference lease\<close>

text \<open>
  What a lease promises, without the index: among the jobs of the table, those of the
  queue that are queued, due and not past their deadline, in priority order, at most
  \<^verbatim>\<open>batch_size\<close> of them.
\<close>

definition lease_due :: "datetime \<Rightarrow> string \<Rightarrow> Job \<Rightarrow> bool" where
  "lease_due now queue j \<longleftrightarrow>
     j_status j = ''queued'' \<and> j_queue j = queue \<and> j_run_at j \<le> now \<and> \<not> past_deadline now j"

definition lease_spec :: "datetime \<Rightarrow> string \<Rightarrow> nat \<Rightarrow> MemoryBackend \<Rightarrow> Job list" where
  "lease_spec now queue n s =
     take n (sort_key from_job (filter (lease_due now queue) (hm_values (jobs s))))"

definition deadline_passed :: "datetime \<Rightarrow> string \<Rightarrow> Job \<Rightarrow> bool" where
  "deadline_passed now queue j \<longleftrightarrow>
     j_status j = ''queued'' \<and> j_queue j = queue \<and> j_run_at j \<le> now \<and> past_deadline now j"

lemma mem_invD:
  assumes "mem_inv s"
  shows "wf_map (jobs s)" "jobs_wf (map_of (jobs s))" "index_wf (map_of (jobs s)) (index_of s)"
    "archive_wf (map_of (jobs s)) (map_of (archive s))"
    "attempts_wf (map_of (attempts s)) (attempt_count s)" "wf_map (attempts s)"
    "wf_map (archive s)" "tables_wf s" "keys_unique (map_of (jobs s))"
  using assms by (simp_all add: mem_inv_def tables_wf_def)

lemma job_in_values:
  assumes "mem_inv s"
  shows "j \<in> set (hm_values (jobs s)) \<longleftrightarrow> map_of (jobs s) (j_id j) = Some j"
  using in_values_iff[OF mem_invD(1)[OF assms]] mem_invD(2)[OF assms] by (auto simp: jobs_wf_def)

lemma job_ids_distinct:
  assumes "mem_inv s"
  shows "map j_id (hm_values (jobs s)) = map fst (jobs s)" "distinct (map j_id (hm_values (jobs s)))"
proof -
  have "j_id j = k" if "(k, j) \<in> set (jobs s)" for k j
    using that mem_invD(1,2)[OF assms] by (auto simp: in_set_iff_map_of jobs_wf_def)
  then show eq: "map j_id (hm_values (jobs s)) = map fst (jobs s)"
    by (auto simp: hm_values_def)
  show "distinct (map j_id (hm_values (jobs s)))"
    using mem_invD(1)[OF assms] by (simp add: eq wf_map_def)
qed

lemma in_index_iff:
  assumes "mem_inv s"
  shows "e \<in> set (index_of s q) \<longleftrightarrow>
    (\<exists>j \<in> set (hm_values (jobs s)). j_status j = ''queued'' \<and> j_queue j = q \<and> from_job j = e)"
  using mem_invD(3)[OF assms]
  by (auto simp: index_wf_def queued_entry_def job_in_values[OF assms])

lemma index_lookup:
  assumes "mem_inv s" "e \<in> set (index_of s q)"
  obtains j where "map_of (jobs s) (qe_id e) = Some j" "from_job j = e" "j_status j = ''queued''"
    "j_queue j = q" "j \<in> set (hm_values (jobs s))"
proof -
  from assms obtain j where "j \<in> set (hm_values (jobs s))" "j_status j = ''queued''"
    "j_queue j = q" "from_job j = e"
    unfolding in_index_iff[OF assms(1)] by blast
  then show thesis using that[of j] job_in_values[OF assms(1), of j] by auto
qed

lemma swept_jobs:
  assumes "mem_inv s"
  shows "map_of (jobs (swept now q s)) k =
    (case map_of (jobs s) k of
       None \<Rightarrow> None
     | Some j \<Rightarrow> Some (if deadline_passed now q j then deadline_dlq now j else j))"
proof (cases "map_of (jobs s) k")
  case (Some j)
  then have id: "j_id j = k" using mem_invD(2)[OF assms] by (simp add: jobs_wf_def)
  have "k \<in> qe_id ` set (mem_expired_deadlines now q s) \<longleftrightarrow> deadline_passed now q j"
  proof
    assume "k \<in> qe_id ` set (mem_expired_deadlines now q s)"
    then obtain e where e: "e \<in> set (index_of s q)" "qe_id e = k" "qe_run_at e \<le> now"
      "past_deadline now j"
      using Some by (auto simp: mem_expired_deadlines_def)
    from index_lookup[OF assms e(1)] Some e(2) have "from_job j = e" "j_status j = ''queued''"
      "j_queue j = q" by (metis option.inject)+
    then show "deadline_passed now q j" using e(3,4) by (auto simp: deadline_passed_def)
  next
    assume d: "deadline_passed now q j"
    then have "from_job j \<in> set (index_of s q)"
      using Some id by (auto simp: in_index_iff[OF assms] job_in_values[OF assms] deadline_passed_def)
    then have "from_job j \<in> set (mem_expired_deadlines now q s)"
      using d Some id by (simp add: mem_expired_deadlines_def deadline_passed_def)
    then show "k \<in> qe_id ` set (mem_expired_deadlines now q s)" using id by force
  qed
  then show ?thesis using Some by (simp add: swept_def fold_expire_jobs)
qed (simp add: swept_def fold_expire_jobs)

lemma swept_index:
  assumes "mem_inv s"
  shows "filter (\<lambda>e. qe_run_at e \<le> now) (index_of (swept now q s) q) =
         map from_job (sort_key from_job (filter (lease_due now q) (hm_values (jobs s))))"
    (is "?lhs = map from_job ?js")
proof (rule sorted_distinct_set_unique)
  have idx: "index_wf (map_of (jobs (swept now q s))) (index_of (swept now q s))"
    using mem_invD(3)[OF mem_inv_swept[OF assms]] .
  then show "sorted ?lhs" "distinct ?lhs"
    using bt_set_sorted[of ?lhs] by (simp_all add: index_wf_def sorted_wrt_filter)
  show "sorted (map from_job ?js)" by simp
  have "inj_on from_job (set (hm_values (jobs s)))"
    using job_ids_distinct(2)[OF assms] by (auto simp: inj_on_def distinct_map dest: arg_cong[of _ _ qe_id])
  then show "distinct (map from_job ?js)"
    using job_ids_distinct(2)[OF assms] by (auto simp: distinct_map inj_on_def)
  show "set ?lhs = set (map from_job ?js)"
  proof (intro set_eqI iffI)
    fix e assume "e \<in> set ?lhs"
    then have e: "e \<in> set (index_of (swept now q s) q)" "qe_run_at e \<le> now" by auto
    from index_lookup[OF mem_inv_swept[OF assms] e(1)] obtain j where
      j: "map_of (jobs (swept now q s)) (qe_id e) = Some j" "from_job j = e"
      "j_status j = ''queued''" "j_queue j = q" by auto
    then have "map_of (jobs s) (j_id j) = Some j" "\<not> deadline_passed now q j"
      using j by (auto simp: swept_jobs[OF assms] split: option.splits if_splits)
    then have "lease_due now q j" "j \<in> set (hm_values (jobs s))"
      using j e(2) by (auto simp: lease_due_def deadline_passed_def job_in_values[OF assms])
    then show "e \<in> set (map from_job ?js)" using j(2) by auto
  next
    fix e assume "e \<in> set (map from_job ?js)"
    then obtain j where j: "j \<in> set (hm_values (jobs s))" "lease_due now q j" "e = from_job j" by auto
    have "map_of (jobs (swept now q s)) (j_id j) = Some j"
      using j by (simp add: swept_jobs[OF assms] job_in_values[OF assms] deadline_passed_def lease_due_def)
    then show "e \<in> set ?lhs"
      using j by (auto simp: in_index_iff[OF mem_inv_swept[OF assms]]
          job_in_values[OF mem_inv_swept[OF assms]] lease_due_def)
  qed
qed

lemma candidates_spec:
  "mem_inv s \<Longrightarrow> due_candidates now q n (swept now q s) = map from_job (lease_spec now q n s)"
  by (simp add: due_candidates_def swept_index lease_spec_def take_map)

lemma lease_spec_mem:
  assumes "mem_inv s" "j \<in> set (lease_spec now q n s)"
  shows "map_of (jobs s) (j_id j) = Some j" "lease_due now q j"
    "map_of (jobs (swept now q s)) (j_id j) = Some j"
proof -
  have "j \<in> set (hm_values (jobs s)) \<and> lease_due now q j"
    using assms(2) by (auto simp: lease_spec_def dest!: in_set_takeD)
  then show "map_of (jobs s) (j_id j) = Some j" "lease_due now q j"
    by (simp_all add: job_in_values[OF assms(1)])
  then show "map_of (jobs (swept now q s)) (j_id j) = Some j"
    by (simp add: swept_jobs[OF assms(1)] lease_due_def deadline_passed_def)
qed

lemma lease_result:
  assumes "mem_inv s"
  shows "fst (mem_lease_jobs_batch_with_ordering env q w ls bs policy s) =
    Inr (map (lock_job (e_now env) w (e_now env + seconds ls))
          (lease_spec (e_now env) q (nat (max bs 0)) s))"
proof -
  let ?js = "lease_spec (e_now env) q (nat (max bs 0)) s"
  have "fst (locked (e_now env) q w t (map from_job ?js) (swept (e_now env) q s)) =
          map (lock_job (e_now env) w t) ?js" for t
    unfolding locked_def
    by (subst lease_loop_result) (auto simp: lease_spec_mem[OF assms])
  then show ?thesis
    by (simp add: lease_stages Let_def case_prod_unfold candidates_spec[OF assms])
qed

lemma lease_jobs_after:
  assumes "mem_inv s"
  shows "map_of (jobs (snd (mem_lease_jobs_batch_with_ordering env q w ls bs policy s))) k =
    (case map_of (jobs s) k of
       None \<Rightarrow> None
     | Some j \<Rightarrow> Some
         (if deadline_passed (e_now env) q j then deadline_dlq (e_now env) j
          else if j \<in> set (lease_spec (e_now env) q (nat (max bs 0)) s)
            then lock_job (e_now env) w (e_now env + seconds ls) j
          else j))"
proof (cases "map_of (jobs s) k")
  case (Some j)
  then have id: "j_id j = k" using mem_invD(2)[OF assms] by (simp add: jobs_wf_def)
  let ?js = "lease_spec (e_now env) q (nat (max bs 0)) s"
  have "k \<in> qe_id ` set (map from_job ?js) \<longleftrightarrow> k \<in> j_id ` set ?js"
    by (simp add: image_image)
  moreover have "k \<in> j_id ` set ?js \<longleftrightarrow> j \<in> set ?js"
    using Some id lease_spec_mem(1)[OF assms] by (metis (no_types, lifting) imageE imageI option.inject)
  ultimately have "k \<in> qe_id ` set (map from_job ?js) \<longleftrightarrow> j \<in> set ?js" by simp
  then show ?thesis using Some lease_spec_mem(2)[OF assms, of j "e_now env" q]
    by (simp add: lease_stages Let_def case_prod_unfold candidates_spec[OF assms] locked_def
        lease_loop_jobs swept_jobs[OF assms] lease_due_def deadline_passed_def del: set_map)
qed (simp add: lease_stages Let_def case_prod_unfold locked_def lease_loop_jobs swept_jobs[OF assms])

lemma lease_frame [simp]:
  "archive (snd (mem_lease_jobs_batch_with_ordering env q w ls bs policy s)) = archive s"
  "attempts (snd (mem_lease_jobs_batch_with_ordering env q w ls bs policy s)) = attempts s"
  "attempt_counts (snd (mem_lease_jobs_batch_with_ordering env q w ls bs policy s)) = attempt_counts s"
  by (simp_all add: lease_stages Let_def case_prod_unfold locked_def swept_def)

end
