(* ===== verification/Memory_Outcomes.thy ===== *)
theory Memory_Outcomes
  imports Memory_Lease
begin

text \<open>
  Everything that happens to a job after it was leased: attempts, outcomes, lease recovery,
  heartbeats, cancellation and archiving. For each operation, what it does to the tables
  and that it keeps the invariant.
\<close>

section \<open>Single-record updates keep the invariant\<close>

lemma mem_inv_put_attempt:
  assumes "mem_inv s" "map_of (attempts s) k = Some a0" "at_id a = at_id a0"
    "at_job_id a = at_job_id a0" "at_attempt_no a = at_attempt_no a0" "attempt_ok a"
  shows "mem_inv (put_attempt k a s)"
  using assms attempts_wf_close[OF mem_invD(5)[OF assms(1)] assms(2-6)]
  by (simp add: mem_inv_def tables_wf_def)

lemma mem_inv_put_job:
  assumes inv: "mem_inv s" and old: "map_of (jobs s) k = Some old_job" "j_status old_job \<noteq> ''queued''"
    and new: "j_status j \<noteq> ''queued''" "j_id j = k" "job_ok j"
      "j_idempotency_key j = j_idempotency_key old_job"
  shows "mem_inv (put_job k j s)"
  unfolding mem_inv_def
proof (intro conjI)
  show "tables_wf (put_job k j s)" using inv by (simp add: mem_inv_def tables_wf_def)
  show "jobs_wf (map_of (jobs (put_job k j s)))"
    using mem_invD(2)[OF inv] new by (simp add: jobs_wf_upd)
  show "keys_unique (map_of (jobs (put_job k j s)))"
    using keys_unique_upd_same[OF mem_invD(9)[OF inv] old(1) new(4)] by simp
  show "archive_wf (map_of (jobs (put_job k j s))) (map_of (archive (put_job k j s)))"
    using archive_wf_upd[OF mem_invD(4)[OF inv] archive_wf_present[OF mem_invD(4)[OF inv] old(1)]]
    by simp
  show "index_wf (map_of (jobs (put_job k j s))) (index_of (put_job k j s))"
    using index_wf_keep[OF mem_invD(3)[OF inv] new(1), of k] old by simp
  show "attempts_wf (map_of (attempts (put_job k j s))) (attempt_count (put_job k j s))"
    using mem_invD(5)[OF inv] by simp
qed

lemma mem_inv_requeue:
  assumes inv: "mem_inv s" and old: "map_of (jobs s) k = Some old_job" "j_status old_job \<noteq> ''queued''"
    and new: "j_status j = ''queued''" "j_id j = k" "job_ok j"
      "j_idempotency_key j = j_idempotency_key old_job"
  shows "mem_inv (index_insert (j_queue j) (from_job j) (put_job k j s))"
    (is "mem_inv ?s")
  unfolding mem_inv_def
proof (intro conjI)
  show "tables_wf ?s" using inv by (simp add: mem_inv_def tables_wf_def)
  show "jobs_wf (map_of (jobs ?s))"
    using mem_invD(2)[OF inv] new by (simp add: jobs_wf_upd)
  show "keys_unique (map_of (jobs ?s))"
    using keys_unique_upd_same[OF mem_invD(9)[OF inv] old(1) new(4)] by simp
  show "archive_wf (map_of (jobs ?s)) (map_of (archive ?s))"
    using archive_wf_upd[OF mem_invD(4)[OF inv] archive_wf_present[OF mem_invD(4)[OF inv] old(1)]]
    by simp
  show "index_wf (map_of (jobs ?s)) (index_of ?s)"
    using index_wf_enqueue[OF mem_invD(3)[OF inv] new(2,1)] old by simp
  show "attempts_wf (map_of (attempts ?s)) (attempt_count ?s)"
    using mem_invD(5)[OF inv] by simp
qed

lemma mem_inv_dequeue:
  assumes inv: "mem_inv s" and old: "map_of (jobs s) k = Some old_job" "j_status old_job = ''queued''"
    and new: "j_status j \<noteq> ''queued''" "j_id j = k" "job_ok j"
      "j_idempotency_key j = j_idempotency_key old_job"
  shows "mem_inv (index_remove (j_queue old_job) (from_job old_job) (put_job k j s))"
    (is "mem_inv ?s")
  unfolding mem_inv_def
proof (intro conjI)
  have id: "j_id old_job = k" using jobs_wfD[OF mem_invD(2)[OF inv] old(1)] by simp
  have in_idx: "from_job old_job \<in> set (index_of s (j_queue old_job))"
    using old id by (auto simp: in_index_iff[OF inv] job_in_values[OF inv])
  show "tables_wf ?s" using inv by (simp add: mem_inv_def tables_wf_def)
  show "jobs_wf (map_of (jobs ?s))"
    using mem_invD(2)[OF inv] new by (simp add: jobs_wf_upd)
  show "keys_unique (map_of (jobs ?s))"
    using keys_unique_upd_same[OF mem_invD(9)[OF inv] old(1) new(4)] by simp
  show "archive_wf (map_of (jobs ?s)) (map_of (archive ?s))"
    using archive_wf_upd[OF mem_invD(4)[OF inv] archive_wf_present[OF mem_invD(4)[OF inv] old(1)]]
    by simp
  show "index_wf (map_of (jobs ?s)) (index_of ?s)"
    by (rule index_wf_take_out[OF mem_invD(3)[OF inv], where E = "{from_job old_job}" and f = "\<lambda>_. j"])
       (use in_idx id old new in \<open>simp_all add: bt_remove_def\<close>)
  show "attempts_wf (map_of (attempts ?s)) (attempt_count ?s)"
    using mem_invD(5)[OF inv] by simp
qed

section \<open>Outcomes of an attempt\<close>

lemma outcome_record_sel [simp]:
  "j_id (complete_job_record now j) = j_id j" "j_status (complete_job_record now j) = ''succeeded''"
  "j_idempotency_key (complete_job_record now j) = j_idempotency_key j"
  "j_recurring_interval_seconds (complete_job_record now j) = j_recurring_interval_seconds j"
  "j_id (dlq_job_record now r j) = j_id j" "j_status (dlq_job_record now r j) = ''dlq''"
  "j_idempotency_key (dlq_job_record now r j) = j_idempotency_key j"
  "j_id (requeue_job now j) = j_id j" "j_status (requeue_job now j) = ''queued''"
  "j_idempotency_key (requeue_job now j) = j_idempotency_key j"
  "j_queue (requeue_job now j) = j_queue j"
  "requeue_job now (requeue_job now j) = requeue_job now j"
  "j_id (cancel_job_record now j) = j_id j" "j_status (cancel_job_record now j) = ''canceled''"
  "j_idempotency_key (cancel_job_record now j) = j_idempotency_key j"
  by (simp_all add: record_defs)

lemma lease_held_iff [simp]:
  "lease_held w j \<longleftrightarrow> j_status j = ''running'' \<and> j_locked_by j = Some w"
  by (auto simp: lease_held_def)

lemma attempt_open_iff [simp]:
  "attempt_open i a \<longleftrightarrow> at_status a = ''running'' \<and> at_job_id a = i"
  by (auto simp: attempt_open_def)

lemma job_ok_reschedule [simp, intro]:
  "job_ok j \<Longrightarrow> j_status j = ''running'' \<Longrightarrow> job_ok ((requeue_job now j)\<lparr>j_run_at := t\<rparr>)"
  using job_ok_records(5)[of j now] by (simp add: job_ok_def)

lemma mem_mark_succeeded_inv:
  assumes inv: "mem_inv s" and fresh: "fresh_id (e_fresh env 0) s"
  shows "mem_inv (snd (mem_mark_succeeded env i aid w l s))"
proof (cases "map_of (jobs s) i")
  case None
  then show ?thesis using inv by (simp add: mem_mark_succeeded_def)
next
  case (Some j)
  show ?thesis
  proof (cases "map_of (attempts s) aid")
    case None
    then show ?thesis using inv Some by (simp add: mem_mark_succeeded_def Let_def)
  next
    case (Some a)
    note job = \<open>map_of (jobs s) i = Some j\<close>
    have id: "j_id j = i" "job_ok j" using jobs_wfD[OF mem_invD(2)[OF inv] job] by auto
    have a_ok: "attempt_ok a" using mem_invD(5)[OF inv] Some by (simp add: attempts_wf_def)
    let ?s2 = "put_job i (complete_job_record (e_now env) j)
                 (put_attempt aid (succeed_attempt_record (e_now env) l a) s)"
    have s2: "mem_inv ?s2" if "lease_held w j" "attempt_open i a"
      by (rule mem_inv_put_job[where old_job = j])
         (use that job id Some a_ok mem_inv_put_attempt[OF inv Some] in simp_all)
    have s4: "mem_inv (put_job i' nxt (index_insert (j_queue nxt) (from_job nxt) ?s2))"
      if "lease_held w j" "attempt_open i a" "nxt = next_occurrence (e_now env) i' j n"
        "i' = e_fresh env 0" for nxt n i'
      using that fresh Some job
      by (intro mem_inv_insert_job[OF s2]) (auto simp: fresh_id_def)
    show ?thesis
      using inv job Some s2 s4
      by (auto simp: mem_mark_succeeded_def Let_def split: option.splits)
  qed
qed

lemma mem_reschedule_for_retry_inv:
  assumes inv: "mem_inv s"
  shows "mem_inv (snd (mem_reschedule_for_retry env i aid w l t c m n s))"
proof -
  have "mem_inv (index_insert (j_queue j') (from_job j') (put_job i j'
          (put_attempt aid (fail_attempt_record (e_now env) l c m a) s)))"
    if "map_of (jobs s) i = Some j" "map_of (attempts s) aid = Some a" "lease_held w j"
      "j' = (requeue_job (e_now env) j)\<lparr>j_run_at := t\<rparr>" for j a j'
  proof (rule mem_inv_requeue[where old_job = j])
    have "attempt_ok a" using mem_invD(5)[OF inv] that by (simp add: attempts_wf_def)
    then show "mem_inv (put_attempt aid (fail_attempt_record (e_now env) l c m a) s)"
      using mem_inv_put_attempt[OF inv that(2)] by simp
  qed (use that jobs_wfD[OF mem_invD(2)[OF inv] that(1)] in simp_all)
  then show ?thesis
    using inv by (auto simp: mem_reschedule_for_retry_def Let_def split: option.splits)
qed

lemma mem_mark_dlq_inv:
  assumes inv: "mem_inv s"
  shows "mem_inv (snd (mem_mark_dlq env i aid w l r c m n s))"
proof -
  have "mem_inv (put_job i (dlq_job_record (e_now env) r j)
          (put_attempt aid (fail_attempt_record (e_now env) l c m a) s))"
    if "map_of (jobs s) i = Some j" "map_of (attempts s) aid = Some a" "lease_held w j" for j a
  proof (rule mem_inv_put_job[where old_job = j])
    have "attempt_ok a" using mem_invD(5)[OF inv] that by (simp add: attempts_wf_def)
    then show "mem_inv (put_attempt aid (fail_attempt_record (e_now env) l c m a) s)"
      using mem_inv_put_attempt[OF inv that(2)] by simp
  qed (use that jobs_wfD[OF mem_invD(2)[OF inv] that(1)] in simp_all)
  then show ?thesis
    using inv by (auto simp: mem_mark_dlq_def Let_def split: option.splits)
qed

section \<open>Starting attempts\<close>

definition record_attempt :: "uuid \<Rightarrow> uuid \<Rightarrow> datetime \<Rightarrow> string \<Rightarrow> MemoryBackend \<Rightarrow> MemoryBackend" where
  "record_attempt attempt_id job_id now w s =
     (let n = attempt_count s job_id + 1;
          s1 = put_attempt attempt_id (new_attempt now attempt_id job_id n w) s
      in s1\<lparr>attempt_counts := hm_insert job_id n (attempt_counts s1)\<rparr>)"

lemma record_attempt_simps [simp]:
  "jobs (record_attempt aid i now w s) = jobs s"
  "archive (record_attempt aid i now w s) = archive s"
  "index_of (record_attempt aid i now w s) = index_of s"
  "attempts (record_attempt aid i now w s) =
     hm_insert aid (new_attempt now aid i (attempt_count s i + 1) w) (attempts s)"
  "attempt_count (record_attempt aid i now w s) = (attempt_count s)(i := attempt_count s i + 1)"
  by (simp_all add: record_attempt_def Let_def index_of_def attempt_count_def fun_eq_iff)

lemma start_loop_Cons:
  "start_loop now fresh w (i # is) s =
     (case map_of (jobs s) i of
        None \<Rightarrow> (Inl (job_not_found i), s)
      | Some job \<Rightarrow>
          if lease_held w job then
            (case start_loop now (\<lambda>k. fresh (Suc k)) w is (record_attempt (fresh 0) i now w s) of
               (Inl e, s') \<Rightarrow> (Inl e, s')
             | (Inr rs, s') \<Rightarrow> (Inr ((i, fresh 0, attempt_count s i + 1) # rs), s'))
          else (Inl (cannot_start_attempt i w), s))"
  by (simp add: record_attempt_def Let_def split: option.splits)

lemma new_attempt_sel [simp]:
  "at_id (new_attempt now aid i n w) = aid" "at_job_id (new_attempt now aid i n w) = i"
  "at_attempt_no (new_attempt now aid i n w) = n"
  "at_status (new_attempt now aid i n w) = ''running''"
  by (simp_all add: new_attempt_def)

lemma mem_inv_record_attempt:
  assumes inv: "mem_inv s" and fresh: "map_of (attempts s) aid = None"
  shows "mem_inv (record_attempt aid i now w s)"
proof -
  have "attempts_wf (map_of (attempts (record_attempt aid i now w s)))
          (attempt_count (record_attempt aid i now w s))"
    using attempts_wf_start[OF mem_invD(5)[OF inv], of "new_attempt now aid i (attempt_count s i + 1) w" aid]
      fresh by simp
  moreover have "tables_wf (record_attempt aid i now w s)"
    using inv by (simp add: mem_inv_def tables_wf_def record_attempt_def Let_def)
  ultimately show ?thesis using inv by (simp add: mem_inv_def)
qed

lemma start_loop_inv:
  assumes "mem_inv s" "inj fresh" "\<And>k. map_of (attempts s) (fresh k) = None"
  shows "mem_inv (snd (start_loop now fresh w is s))"
  using assms
proof (induction "is" arbitrary: s fresh)
  case Nil
  then show ?case by simp
next
  case (Cons i "is")
  let ?s = "record_attempt (fresh 0) i now w s"
  have "inj (\<lambda>k. fresh (Suc k))" using Cons.prems(2) by (auto intro!: injI dest: injD)
  moreover have "map_of (attempts ?s) (fresh (Suc k)) = None" for k
    using Cons.prems(3) injD[OF Cons.prems(2), of "Suc k" 0] by auto
  ultimately have "mem_inv (snd (start_loop now (\<lambda>k. fresh (Suc k)) w is ?s))"
    using Cons.IH mem_inv_record_attempt Cons.prems by blast
  then show ?case using Cons.prems(1)
    by (auto simp del: start_loop.simps simp: start_loop_Cons split: option.splits prod.splits sum.splits)
qed

lemma fresh_envD:
  "fresh_env env s \<Longrightarrow> inj (e_fresh env)" "fresh_env env s \<Longrightarrow> fresh_id (e_fresh env k) s"
  by (simp_all add: fresh_env_def)

lemma mem_start_attempts_batch_inv:
  assumes "mem_inv s" "fresh_env env s"
  shows "mem_inv (snd (mem_start_attempts_batch env ds is w s))"
  using assms start_loop_inv[OF assms(1) fresh_envD(1)[OF assms(2)], of "e_now env" w "is"]
  by (simp add: mem_start_attempts_batch_def fresh_env_def fresh_id_def)

section \<open>Recovery of expired leases\<close>

lemma requeue_loop_simps [simp]:
  "archive (snd (requeue_loop now is s)) = archive s"
  "attempts (snd (requeue_loop now is s)) = attempts s"
  "attempt_counts (snd (requeue_loop now is s)) = attempt_counts s"
  "attempt_count (snd (requeue_loop now is s)) = attempt_count s"
  by (induction "is" arbitrary: s) (simp_all add: Let_def case_prod_unfold split: option.splits)

lemma requeue_loop_jobs:
  "map_of (jobs (snd (requeue_loop now is s))) k =
     (if k \<in> set is then map_option (requeue_job now) (map_of (jobs s) k) else map_of (jobs s) k)"
  by (induction "is" arbitrary: s)
     (auto simp: Let_def case_prod_unfold option.map_comp comp_def split: option.splits)

lemma requeue_loop_inv:
  assumes "mem_inv s" "distinct is"
    and "\<And>i. i \<in> set is \<Longrightarrow> \<exists>j. map_of (jobs s) i = Some j \<and> j_status j = ''running''"
  shows "mem_inv (snd (requeue_loop now is s)) \<and> fst (requeue_loop now is s) = length is"
  using assms
proof (induction "is" arbitrary: s)
  case Nil
  then show ?case by simp
next
  case (Cons i "is")
  from Cons.prems(3)[of i] obtain j where
    j: "map_of (jobs s) i = Some j" "j_status j = ''running''" by auto
  let ?j = "requeue_job now j"
  let ?s = "index_insert (j_queue ?j) (from_job ?j) (put_job i ?j s)"
  have "mem_inv ?s"
    by (rule mem_inv_requeue[where old_job = j])
       (use Cons.prems j jobs_wfD[OF mem_invD(2)[OF Cons.prems(1)] j(1)] in simp_all)
  moreover have "\<exists>j. map_of (jobs ?s) i' = Some j \<and> j_status j = ''running''"
    if "i' \<in> set is" for i'
    using Cons.prems(2) Cons.prems(3)[of i'] that by auto
  ultimately show ?case using Cons.IH[of ?s] Cons.prems(2) j(1)
    by (simp add: Let_def case_prod_unfold)
qed

definition expired_ids :: "datetime \<Rightarrow> MemoryBackend \<Rightarrow> uuid list" where
  "expired_ids now s = map j_id (filter (lease_expired now) (hm_values (jobs s)))"

definition reap_attempt :: "datetime \<Rightarrow> uuid set \<Rightarrow> MemoryAttempt \<Rightarrow> MemoryAttempt" where
  "reap_attempt now ids a =
     (if at_job_id a \<in> ids \<and> at_status a = ''running''
      then fail_attempt_record now 0 ''LEASE_EXPIRED'' ''worker lease expired before ACK'' a
      else a)"

lemma reap_attempt_sel [simp]:
  "at_id (reap_attempt now ids a) = at_id a" "at_job_id (reap_attempt now ids a) = at_job_id a"
  "at_attempt_no (reap_attempt now ids a) = at_attempt_no a"
  "attempt_ok a \<Longrightarrow> attempt_ok (reap_attempt now ids a)"
  by (simp_all add: reap_attempt_def)

definition close_attempts :: "datetime \<Rightarrow> MemoryBackend \<Rightarrow> MemoryBackend" where
  "close_attempts now s =
     s\<lparr>attempts := hm_values_mut (reap_attempt now (set (expired_ids now s))) (attempts s)\<rparr>"

lemma close_attempts_simps [simp]:
  "jobs (close_attempts now s) = jobs s" "archive (close_attempts now s) = archive s"
  "index_of (close_attempts now s) = index_of s"
  "attempt_counts (close_attempts now s) = attempt_counts s"
  "attempt_count (close_attempts now s) = attempt_count s"
  "map_of (attempts (close_attempts now s)) =
     map_option (reap_attempt now (set (expired_ids now s))) \<circ> map_of (attempts s)"
  by (simp_all add: close_attempts_def index_of_def attempt_count_def fun_eq_iff)

lemma reap_stages:
  "mem_reap_expired_locks env s =
     (let (n, s') = requeue_loop (e_now env) (expired_ids (e_now env) s) (close_attempts (e_now env) s)
      in (Inr n, s'))"
  by (simp add: mem_reap_expired_locks_def close_attempts_def expired_ids_def Let_def
      case_prod_unfold reap_attempt_def[abs_def])

lemma mem_inv_close_attempts: "mem_inv s \<Longrightarrow> mem_inv (close_attempts now s)"
  using attempts_wf_map[of "map_of (attempts s)" "attempt_count s" "reap_attempt now (set (expired_ids now s))"]
  by (simp add: mem_inv_def) (simp add: tables_wf_def close_attempts_def)

lemma in_expired_ids:
  assumes "mem_inv s"
  shows "i \<in> set (expired_ids now s) \<longleftrightarrow> (\<exists>j. map_of (jobs s) i = Some j \<and> lease_expired now j)"
proof
  assume "i \<in> set (expired_ids now s)"
  then obtain j where "j \<in> set (hm_values (jobs s))" "lease_expired now j" "i = j_id j"
    by (auto simp: expired_ids_def)
  then show "\<exists>j. map_of (jobs s) i = Some j \<and> lease_expired now j"
    using job_in_values[OF assms] by blast
next
  assume "\<exists>j. map_of (jobs s) i = Some j \<and> lease_expired now j"
  then obtain j where j: "map_of (jobs s) i = Some j" "lease_expired now j" by blast
  then have "j_id j = i" using jobs_wfD[OF mem_invD(2)[OF assms]] by blast
  then show "i \<in> set (expired_ids now s)"
    using j job_in_values[OF assms, of j] by (auto simp: expired_ids_def)
qed

lemma expired_ids_distinct:
  assumes "mem_inv s"
  shows "distinct (expired_ids now s)"
  using job_ids_distinct(2)[OF assms] by (simp add: expired_ids_def distinct_map_filter)

lemma reap_invariant_count:
  assumes "mem_inv s"
  shows "mem_inv (snd (mem_reap_expired_locks env s))"
    "fst (mem_reap_expired_locks env s) = Inr (length (expired_ids (e_now env) s))"
proof -
  have "\<exists>j. map_of (jobs s) i = Some j \<and> j_status j = ''running''"
    if "i \<in> set (expired_ids (e_now env) s)" for i
    using that by (auto simp: in_expired_ids[OF assms] lease_expired_def)
  from requeue_loop_inv[OF mem_inv_close_attempts[OF assms] expired_ids_distinct[OF assms]] this
  show "mem_inv (snd (mem_reap_expired_locks env s))"
    "fst (mem_reap_expired_locks env s) = Inr (length (expired_ids (e_now env) s))"
    by (simp_all add: reap_stages Let_def case_prod_unfold)
qed

lemma reap_jobs_after:
  assumes "mem_inv s"
  shows "map_of (jobs (snd (mem_reap_expired_locks env s))) k =
    (case map_of (jobs s) k of
       None \<Rightarrow> None
     | Some j \<Rightarrow> Some (if lease_expired (e_now env) j then requeue_job (e_now env) j else j))"
  by (auto simp: reap_stages Let_def case_prod_unfold requeue_loop_jobs in_expired_ids[OF assms]
      split: option.splits)

lemma reap_attempts_after:
  "map_of (attempts (snd (mem_reap_expired_locks env s))) k =
     map_option (reap_attempt (e_now env) (set (expired_ids (e_now env) s))) (map_of (attempts s) k)"
  by (simp add: reap_stages Let_def case_prod_unfold)

section \<open>Heartbeat and cancellation\<close>

lemma job_ok_extend [simp, intro]:
  "job_ok j \<Longrightarrow> j_status j = ''running'' \<Longrightarrow> job_ok (j\<lparr>j_lock_expires_at := Some t, j_updated_at := u\<rparr>)"
  by (simp add: job_ok_def)

lemma mem_extend_lease_inv:
  assumes inv: "mem_inv s"
  shows "mem_inv (snd (mem_extend_lease env i w ls s))"
proof -
  have "mem_inv (put_job i (j\<lparr>j_lock_expires_at := Some t, j_updated_at := u\<rparr>) s)"
    if "map_of (jobs s) i = Some j" "j_status j = ''running''" for j t u
    by (rule mem_inv_put_job[OF inv that(1)])
       (use that jobs_wfD[OF mem_invD(2)[OF inv] that(1)] in auto)
  then show ?thesis using inv by (auto simp: mem_extend_lease_def split: option.splits)
qed

lemma cancel_guard_None:
  "cancel_guard i w j = None \<longleftrightarrow>
     j_status j = ''queued''
     \<or> j_status j = ''running'' \<and> w \<noteq> None \<and> j_locked_by j = w"
  by (auto simp: cancel_guard_def split: option.splits)

lemma latest_open_attempt_Some:
  assumes "wf_map (attempts s)" "latest_open_attempt i s = Some (k, a)"
  shows "map_of (attempts s) k = Some a" "at_job_id a = i" "at_status a = ''running''"
    "\<And>k' a'. map_of (attempts s) k' = Some a' \<Longrightarrow> at_job_id a' = i \<Longrightarrow> at_status a' = ''running''
       \<Longrightarrow> at_attempt_no a' \<le> at_attempt_no a"
  using max_by_key_Some[OF assms(2)[unfolded latest_open_attempt_def]] assms(1)
  by (auto simp: in_set_iff_map_of)

lemma latest_open_attempt_None:
  assumes "wf_map (attempts s)"
  shows "latest_open_attempt i s = None \<longleftrightarrow>
    (\<forall>k a. map_of (attempts s) k = Some a \<longrightarrow> at_job_id a = i \<longrightarrow> at_status a \<noteq> ''running'')"
  using assms by (auto simp: latest_open_attempt_def filter_empty_conv in_set_iff_map_of)

definition close_latest :: "datetime \<Rightarrow> uuid \<Rightarrow> MemoryBackend \<Rightarrow> MemoryBackend" where
  "close_latest now i s =
     (case latest_open_attempt i s of
        None \<Rightarrow> s
      | Some (k, att) \<Rightarrow>
          put_attempt k (fail_attempt_record now 0 ''CANCELLED'' ''job cancelled'' att) s)"

lemma close_latest_simps [simp]:
  "jobs (close_latest now i s) = jobs s" "archive (close_latest now i s) = archive s"
  "index_of (close_latest now i s) = index_of s"
  "queued_jobs (close_latest now i s) = queued_jobs s"
  by (auto simp: close_latest_def split: option.splits)

lemma mem_inv_close_latest:
  assumes inv: "mem_inv s"
  shows "mem_inv (close_latest now i s)"
proof -
  have "mem_inv (put_attempt k (fail_attempt_record now 0 c m a) s)"
    if "latest_open_attempt i s = Some (k, a)" for k a c m
  proof -
    have a: "map_of (attempts s) k = Some a"
      using latest_open_attempt_Some(1)[OF mem_invD(6)[OF inv] that] .
    then have "attempt_ok a" using mem_invD(5)[OF inv] by (simp add: attempts_wf_def)
    then show ?thesis by (intro mem_inv_put_attempt[OF inv a]) simp_all
  qed
  then show ?thesis using inv by (auto simp: close_latest_def split: option.splits)
qed

lemma cancel_stages:
  "mem_cancel_job env i w s =
     (case map_of (jobs s) i of
        None \<Rightarrow> (Inl (job_not_found i), s)
      | Some j \<Rightarrow>
          (case cancel_guard i w j of
             Some e \<Rightarrow> (Inl e, s)
           | None \<Rightarrow>
               (Inr (),
                if j_status j = ''queued''
                then index_remove (j_queue j) (from_job j) (put_job i (cancel_job_record (e_now env) j) s)
                else put_job i (cancel_job_record (e_now env) j) (close_latest (e_now env) i s))))"
proof (cases "map_of (jobs s) i")
  case (Some j)
  have "j_status j = ''queued'' \<or> j_status j = ''running''" if "cancel_guard i w j = None"
    using that by (auto simp: cancel_guard_None)
  then show ?thesis
    using Some by (cases "cancel_guard i w j") (auto simp: mem_cancel_job_def close_latest_def Let_def)
qed (simp add: mem_cancel_job_def)

lemma mem_cancel_job_inv:
  assumes inv: "mem_inv s"
  shows "mem_inv (snd (mem_cancel_job env i w s))"
proof -
  let ?c = "cancel_job_record (e_now env)"
  have queued: "mem_inv (index_remove (j_queue j) (from_job j) (put_job i (?c j) s))"
    if "map_of (jobs s) i = Some j" "j_status j = ''queued''" for j
    by (rule mem_inv_dequeue[OF inv that])
       (use that jobs_wfD[OF mem_invD(2)[OF inv] that(1)] in auto)
  have running: "mem_inv (put_job i (?c j) (close_latest (e_now env) i s))"
    if "map_of (jobs s) i = Some j" "j_status j = ''running''" for j
    by (rule mem_inv_put_job[OF mem_inv_close_latest[OF inv], where old_job = j])
       (use that jobs_wfD[OF mem_invD(2)[OF inv] that(1)] in auto)
  show ?thesis
    using inv queued running by (auto simp: cancel_stages cancel_guard_None split: option.splits)
qed

section \<open>Archiving\<close>

lemma mem_inv_archive_one:
  assumes inv: "mem_inv s" and j: "map_of (jobs s) i = Some j" "j_status j = ''succeeded''"
  shows "mem_inv (s\<lparr>jobs := hm_remove i (jobs s), archive := hm_insert i j (archive s)\<rparr>)"
    (is "mem_inv ?s")
  unfolding mem_inv_def
proof (intro conjI)
  have idx: "index_of ?s = index_of s" by (simp add: index_of_def fun_eq_iff)
  have ac: "attempt_count ?s = attempt_count s" by (simp add: attempt_count_def fun_eq_iff)
  have id: "j_id j = i" using jobs_wfD[OF mem_invD(2)[OF inv] j(1)] by simp
  show "tables_wf ?s" using inv by (simp add: mem_inv_def tables_wf_def)
  show "jobs_wf (map_of (jobs ?s))" using mem_invD(2)[OF inv] by (simp add: jobs_wf_def)
  show "keys_unique (map_of (jobs ?s))"
    using keys_unique_None[OF mem_invD(9)[OF inv]] by simp
  show "archive_wf (map_of (jobs ?s)) (map_of (archive ?s))"
    using mem_invD(4)[OF inv] id j by (auto simp: archive_wf_def)
  have "queued_entry ((map_of (jobs s))(i := None)) q e \<longleftrightarrow> queued_entry (map_of (jobs s)) q e" for q e
    using j by (auto simp: queued_entry_def)
  then show "index_wf (map_of (jobs ?s)) (index_of ?s)"
    using mem_invD(3)[OF inv] by (simp add: index_wf_def idx)
  show "attempts_wf (map_of (attempts ?s)) (attempt_count ?s)"
    using mem_invD(5)[OF inv] by (simp add: ac)
qed

lemma archive_loop_inv:
  assumes "mem_inv s"
    and "\<And>i j. i \<in> set is \<Longrightarrow> map_of (jobs s) i = Some j \<Longrightarrow> j_status j = ''succeeded''"
  shows "mem_inv (archive_loop is s)"
  using assms
proof (induction "is" arbitrary: s)
  case (Cons i "is")
  show ?case
  proof (cases "map_of (jobs s) i")
    case None
    have "mem_inv (archive_loop is s)" by (rule Cons.IH[OF Cons.prems]) simp_all
    then show ?thesis using None by simp
  next
    case (Some j)
    let ?s = "s\<lparr>jobs := hm_remove i (jobs s), archive := hm_insert i j (archive s)\<rparr>"
    have "mem_inv ?s" using mem_inv_archive_one[OF Cons.prems(1) Some] Cons.prems(2)[of i j] Some by simp
    moreover have "j_status j' = ''succeeded''"
      if "i' \<in> set is" "map_of (jobs ?s) i' = Some j'" for i' j'
      using that Cons.prems(2)[of i' j'] by (auto split: if_splits)
    ultimately have "mem_inv (archive_loop is ?s)" by (rule Cons.IH)
    then show ?thesis using Some by simp
  qed
qed simp

lemma archive_loop_tables:
  "map_of (jobs (archive_loop is s)) k = (if k \<in> set is then None else map_of (jobs s) k)"
  "map_of (archive (archive_loop is s)) k =
     (if k \<in> set is \<and> map_of (jobs s) k \<noteq> None then map_of (jobs s) k else map_of (archive s) k)"
  "attempts (archive_loop is s) = attempts s"
  "attempt_counts (archive_loop is s) = attempt_counts s"
  by (induction "is" arbitrary: s) (auto split: option.splits)

definition archivable_ids :: "datetime \<Rightarrow> int \<Rightarrow> MemoryBackend \<Rightarrow> uuid list" where
  "archivable_ids cutoff limit s =
     map j_id (take (as_usize limit)
       (filter (\<lambda>j. j_status j = ''succeeded'' \<and> j_updated_at j < cutoff) (hm_values (jobs s))))"

lemma archive_stages:
  "mem_archive_succeeded_older_than cutoff limit s =
     (Inr (length (archivable_ids cutoff limit s)), archive_loop (archivable_ids cutoff limit s) s)"
  by (simp add: mem_archive_succeeded_older_than_def archivable_ids_def Let_def)

lemma archivable_idsD:
  assumes "mem_inv s" "i \<in> set (archivable_ids cutoff limit s)"
  obtains j where "map_of (jobs s) i = Some j" "j_status j = ''succeeded''" "j_updated_at j < cutoff"
proof -
  from assms(2) obtain j where "j \<in> set (hm_values (jobs s))" "i = j_id j"
    "j_status j = ''succeeded''" "j_updated_at j < cutoff"
    by (auto simp: archivable_ids_def dest!: in_set_takeD)
  then show thesis using that[of j] job_in_values[OF assms(1), of j] by simp
qed

lemma mem_archive_inv:
  assumes "mem_inv s"
  shows "mem_inv (snd (mem_archive_succeeded_older_than cutoff limit s))"
proof -
  have "j_status j = ''succeeded''"
    if "i \<in> set (archivable_ids cutoff limit s)" "map_of (jobs s) i = Some j" for i j
    using archivable_idsD[OF assms that(1)] that(2) by auto
  then show ?thesis using archive_loop_inv[OF assms] by (simp add: archive_stages)
qed

lemma fold_remove_map: "map_of (fold hm_remove ks m) k = (if k \<in> set ks then None else map_of m k)"
  by (induction ks arbitrary: m) auto

lemma wf_map_fold_remove: "wf_map m \<Longrightarrow> wf_map (fold hm_remove ks m)"
  by (induction ks arbitrary: m) auto

lemma mem_delete_history_inv:
  assumes inv: "mem_inv s"
  shows "mem_inv (snd (mem_delete_history_for_succeeded_older_than cutoff limit s))"
proof -
  have "mem_inv (s\<lparr>attempts := fold hm_remove ks (attempts s)\<rparr>)" (is "mem_inv ?s") for ks
  proof -
    have sub: "map_of (fold hm_remove ks (attempts s)) \<subseteq>\<^sub>m map_of (attempts s)"
      by (auto simp: map_le_def fold_remove_map split: if_splits)
    have "index_of ?s = index_of s" "attempt_count ?s = attempt_count s"
      by (simp_all add: index_of_def attempt_count_def fun_eq_iff)
    then show ?thesis
      using inv attempts_wf_sub[OF mem_invD(5)[OF inv] sub]
      by (simp add: mem_inv_def tables_wf_def wf_map_fold_remove)
  qed
  then show ?thesis
    by (simp add: mem_delete_history_for_succeeded_older_than_def Let_def)
qed

end
