(* ===== verification/Stream_Contract.thy ===== *)
theory Stream_Contract
  imports Backend_Api
begin

text \<open>
  The contract of \<^verbatim>\<open>StreamBackend\<close> as a locale: what publishing, reading, acknowledging
  and pruning promise about an abstract log and an abstract table of offsets, and what a
  consumer group may conclude from these laws alone. Also the handle of
  \<^verbatim>\<open>azums/src/stream_handle.rs\<close>, which forwards to the backend of a client.
\<close>

section \<open>Logs\<close>

abbreviation seq :: "Event \<Rightarrow> int" where
  "seq \<equiv> ev_sequence_no"

text \<open>The limit every backend puts on one read.\<close>

definition read_limit :: "int \<Rightarrow> nat" where
  "read_limit limit = nat (clamp 1 1000 limit)"

definition after_seq :: "int \<Rightarrow> Event list \<Rightarrow> Event list" where
  "after_seq n es = filter (\<lambda>e. n < seq e) es"

definition log_sorted :: "Event list \<Rightarrow> bool" where
  "log_sorted es \<longleftrightarrow> sorted_wrt (\<lambda>a b. seq a < seq b) es"

lemma read_limit_pos [simp]: "0 < read_limit n" "read_limit n \<le> 1000"
  using clamp_range[of 1 1000 n] by (auto simp: read_limit_def)

lemma after_seq_append [simp]: "after_seq n (xs @ ys) = after_seq n xs @ after_seq n ys"
  by (simp add: after_seq_def)

lemma after_seq_after: "m \<le> n \<Longrightarrow> after_seq n (after_seq m es) = after_seq n es"
  by (auto simp: after_seq_def intro: filter_cong)

lemma log_sorted_after [simp]: "log_sorted es \<Longrightarrow> log_sorted (after_seq n es)"
  by (simp add: log_sorted_def after_seq_def sorted_wrt_filter)

lemma after_last:
  assumes "log_sorted es" "k < length es"
  shows "after_seq (seq (es ! k)) es = drop (Suc k) es"
  using strict_filter_drop[OF assms(1)[unfolded log_sorted_def] assms(2)] by (simp add: after_seq_def)

text \<open>What a consumer group has acknowledged (nothing is 0) and what it has still to read.\<close>

definition offset_of :: "int option \<Rightarrow> int" where
  "offset_of a = (case a of None \<Rightarrow> 0 | Some n \<Rightarrow> n)"

definition unread :: "int option \<Rightarrow> Event list \<Rightarrow> Event list" where
  "unread a es = after_seq (offset_of a) es"

text \<open>
  A consumer group that reads a batch and acknowledges its last event, again and again,
  receives the pending events in order, each exactly once.
\<close>

fun consume ::
  "'s StreamBackend \<Rightarrow> Env \<Rightarrow> string \<Rightarrow> string \<Rightarrow> int \<Rightarrow> nat \<Rightarrow> 's \<Rightarrow> Event list \<times> 's" where
  "consume X env st g limit 0 s = ([], s)"
| "consume X env st g limit (Suc rounds) s =
     (case read_next X st g limit s of
        (Inl e, s') \<Rightarrow> ([], s')
      | (Inr [], s') \<Rightarrow> ([], s')
      | (Inr (e # es), s') \<Rightarrow>
          (let s'' = snd (sx_ack X env st g (seq (last (e # es))) s');
               (rest, t) = consume X env st g limit rounds s''
           in ((e # es) @ rest, t)))"

section \<open>The contract\<close>

locale event_stream =
  fixes X :: "'s StreamBackend"
    and inv :: "'s \<Rightarrow> bool"
    and log :: "'s \<Rightarrow> string \<Rightarrow> Event list"
    and acked :: "'s \<Rightarrow> string \<Rightarrow> string \<Rightarrow> int option"
  assumes read_law: "inv s \<Longrightarrow>
      sx_read_events X st n limit s = (Inr (take (read_limit limit) (after_seq n (log s st))), s)"
    and info_law: "inv s \<Longrightarrow>
      \<exists>infos. sx_consumer_group_info X st s = (Inr infos, s)
        \<and> map_option cg_last_acked_seq (find (\<lambda>c. cg_consumer_group c = g) infos) = acked s st g"
    and ack_law: "inv s \<Longrightarrow> fst (sx_ack X env st g n s) = Inr ()
        \<and> inv (snd (sx_ack X env st g n s))
        \<and> log (snd (sx_ack X env st g n s)) = log s
        \<and> (\<exists>m. acked (snd (sx_ack X env st g n s)) st g = Some m
             \<and> (case acked s st g of None \<Rightarrow> 0 < n \<longrightarrow> m = n | Some k \<Rightarrow> m = max k n))
        \<and> (\<forall>st' g'. (st', g') \<noteq> (st, g) \<longrightarrow> acked (snd (sx_ack X env st g n s)) st' g' = acked s st' g')"
    and publish_law: "inv s \<Longrightarrow>
        \<exists>n e. fst (sx_publish X env st ne s) = Inr n \<and> inv (snd (sx_publish X env st ne s))
          \<and> seq e = n \<and> ev_event_type e = ne_event_type ne \<and> ev_payload_json e = ne_payload_json ne
          \<and> ev_stream_name e = st
          \<and> log (snd (sx_publish X env st ne s)) = (log s)(st := log s st @ [e])
          \<and> acked (snd (sx_publish X env st ne s)) = acked s"
    and prune_law: "inv s \<Longrightarrow>
        \<exists>c. c \<le> n \<and> (\<forall>g m. acked s st g = Some m \<longrightarrow> c \<le> m)
          \<and> inv (snd (sx_prune_events X st n s))
          \<and> log (snd (sx_prune_events X st n s)) = (log s)(st := after_seq c (log s st))
          \<and> acked (snd (sx_prune_events X st n s)) = acked s
          \<and> fst (sx_prune_events X st n s) = Inr (length (log s st) - length (after_seq c (log s st)))"
begin

abbreviation offset :: "'s \<Rightarrow> string \<Rightarrow> string \<Rightarrow> int" where
  "offset s st g \<equiv> offset_of (acked s st g)"

abbreviation pending :: "'s \<Rightarrow> string \<Rightarrow> string \<Rightarrow> Event list" where
  "pending s st g \<equiv> unread (acked s st g) (log s st)"

lemma read_next_pending:
  assumes "inv s"
  shows "read_next X st g limit s = (Inr (take (read_limit limit) (pending s st g)), s)"
proof -
  from info_law[OF assms, of st g] obtain infos where
    i: "sx_consumer_group_info X st s = (Inr infos, s)"
    "map_option cg_last_acked_seq (find (\<lambda>c. cg_consumer_group c = g) infos) = acked s st g" by auto
  then have "(case find (\<lambda>c. cg_consumer_group c = g) infos of
      Some c \<Rightarrow> cg_last_acked_seq c | None \<Rightarrow> 0) = offset s st g"
    by (simp add: i(2)[symmetric] offset_of_def split: option.split)
  then show ?thesis using i(1) read_law[OF assms] by (simp add: read_next_def unread_def)
qed

lemma ack_offset:
  assumes "inv s" "offset s st g < n"
  shows "offset (snd (sx_ack X env st g n s)) st g = n"
  using ack_law[OF assms(1), of env st g n] assms(2)
  by (auto simp: offset_of_def split: option.splits)

lemma ack_other_group:
  "inv s \<Longrightarrow> (st', g') \<noteq> (st, g) \<Longrightarrow> offset (snd (sx_ack X env st g n s)) st' g' = offset s st' g'"
  using ack_law[of s env st g n] by simp

lemma prune_keeps_pending:
  assumes "inv s" "acked s st g = Some m"
  shows "pending (snd (sx_prune_events X st n s)) st g = pending s st g"
proof -
  from prune_law[OF assms(1), of n st] obtain c where "c \<le> m"
    "log (snd (sx_prune_events X st n s)) = (log s)(st := after_seq c (log s st))"
    "acked (snd (sx_prune_events X st n s)) = acked s" using assms(2) by blast
  then show ?thesis using assms(2) by (simp add: unread_def offset_of_def after_seq_after)
qed

lemma prune_other_stream:
  assumes "inv s" "st' \<noteq> st"
  shows "pending (snd (sx_prune_events X st n s)) st' g = pending s st' g"
  using prune_law[OF assms(1), of n st] assms(2) by auto

lemma ack_batch_pending:
  assumes inv: "inv s" and sorted: "log_sorted (log s st)" and n: "0 < n" "pending s st g \<noteq> []"
  shows "pending (snd (sx_ack X env st g (seq (last (take n (pending s st g)))) s)) st g =
         drop n (pending s st g)"
proof -
  let ?p = "pending s st g" and ?k = "min n (length (pending s st g)) - 1"
  have len: "0 < length ?p" using n(2) by simp
  have k: "?k < length ?p" "Suc ?k = min n (length ?p)"
    using n(1) len by linarith+
  have last: "last (take n ?p) = ?p ! ?k"
    using n k(1) by (subst last_conv_nth) (auto simp: min.commute)
  have ge: "offset s st g < seq (?p ! ?k)"
    using nth_mem[OF k(1)] unfolding unread_def after_seq_def by auto
  have "after_seq (seq (?p ! ?k)) (log s st) = after_seq (seq (?p ! ?k)) ?p"
    using ge by (simp add: unread_def after_seq_after)
  also have "\<dots> = drop (Suc ?k) ?p" using after_last[OF _ k(1)] sorted by (simp add: unread_def)
  also have "\<dots> = drop n ?p" using k(2) by (simp add: min_def)
  finally have rest: "after_seq (seq (?p ! ?k)) (log s st) = drop n ?p" .
  define m where "m = seq (last (take n ?p))"
  have "offset (snd (sx_ack X env st g m s)) st g = seq (?p ! ?k)"
    using ack_offset[OF inv, of st g m env] ge by (simp add: m_def last)
  moreover have "log (snd (sx_ack X env st g m s)) = log s" using ack_law[OF inv] by blast
  ultimately have "pending (snd (sx_ack X env st g m s)) st g = drop n ?p"
    using rest by (simp add: unread_def[of "acked (snd _) _ _"])
  then show ?thesis by (simp add: m_def)
qed

lemma consume_exactly_once:
  assumes "inv s" "log_sorted (log s st)"
  shows "fst (consume X env st g limit rounds s) = take (rounds * read_limit limit) (pending s st g)"
  using assms
proof (induction rounds arbitrary: s)
  case 0
  then show ?case by simp
next
  case (Suc rounds)
  let ?n = "read_limit limit" and ?p = "pending s st g"
  show ?case
  proof (cases "take ?n ?p")
    case Nil
    have "0 < ?n" by simp
    then have "?p = []" using Nil by (metis take_eq_Nil less_numeral_extra(3))
    then show ?thesis using Nil by (simp add: read_next_pending[OF Suc.prems(1)])
  next
    case (Cons e es)
    let ?s = "snd (sx_ack X env st g (seq (last (e # es))) s)"
    have "?p \<noteq> []" using Cons by auto
    then have pend: "pending ?s st g = drop ?n ?p"
      using ack_batch_pending[OF Suc.prems, of ?n g env] Cons by simp
    have "fst (consume X env st g limit rounds ?s) = take (rounds * ?n) (drop ?n ?p)"
      using Suc.IH[of ?s] ack_law[OF Suc.prems(1)] Suc.prems pend by simp
    then show ?thesis
      using Cons by (simp add: read_next_pending[OF Suc.prems(1)] Let_def case_prod_unfold take_add)
  qed
qed

lemma consume_all:
  assumes "inv s" "log_sorted (log s st)" "length (pending s st g) \<le> rounds * read_limit limit"
  shows "fst (consume X env st g limit rounds s) = pending s st g"
  using consume_exactly_once[OF assms(1,2)] assms(3) by simp

end

text \<open>A storage that numbers the events of a stream in the order it keeps them.\<close>

locale ordered_stream = event_stream +
  assumes sorted_law: "inv s \<Longrightarrow> log_sorted (log s st)"
begin

lemma consume_in_order:
  "inv s \<Longrightarrow> fst (consume X env st g limit rounds s) = take (rounds * read_limit limit) (pending s st g)"
  by (rule consume_exactly_once[OF _ sorted_law])

lemma publish_is_last:
  assumes "inv s" "e \<in> set (log s st)"
  shows "\<exists>n. fst (sx_publish X env st ne s) = Inr n \<and> seq e < n"
proof -
  from publish_law[OF assms(1), of env st ne] obtain n x where
    "fst (sx_publish X env st ne s) = Inr n" "inv (snd (sx_publish X env st ne s))" "seq x = n"
    "log (snd (sx_publish X env st ne s)) st = log s st @ [x]" by auto
  then show ?thesis
    using sorted_law[of "snd (sx_publish X env st ne s)" st] assms(2)
    by (auto simp: log_sorted_def sorted_wrt_append)
qed

end

section \<open>The stream handle\<close>

record StreamHandle =
  sh_stream_name :: string

definition stream_backend :: "'s StorageBackend \<Rightarrow> anyhow + 's StreamBackend" where
  "stream_backend B = (case sb_as_stream B of None \<Rightarrow> Inl no_stream_support | Some X \<Rightarrow> Inr X)"

definition with_stream :: "'s StorageBackend \<Rightarrow> ('s StreamBackend \<Rightarrow> ('s, 'r) op) \<Rightarrow> ('s, 'r) op" where
  "with_stream B f s = (case stream_backend B of Inl e \<Rightarrow> (Inl e, s) | Inr X \<Rightarrow> f X s)"

definition handle_publish ::
  "'s StorageBackend \<Rightarrow> StreamHandle \<Rightarrow> Env \<Rightarrow> string \<Rightarrow> json \<Rightarrow> ('s, int) op" where
  "handle_publish B h env event_type payload =
     with_stream B (\<lambda>X. sx_publish X env (sh_stream_name h) (NewEvent_new event_type payload))"

definition handle_read_events ::
  "'s StorageBackend \<Rightarrow> StreamHandle \<Rightarrow> int \<Rightarrow> int \<Rightarrow> ('s, Event list) op" where
  "handle_read_events B h after limit =
     with_stream B (\<lambda>X. sx_read_events X (sh_stream_name h) after limit)"

definition handle_read_next ::
  "'s StorageBackend \<Rightarrow> StreamHandle \<Rightarrow> string \<Rightarrow> int \<Rightarrow> ('s, Event list) op" where
  "handle_read_next B h consumer_group limit =
     with_stream B (\<lambda>X. read_next X (sh_stream_name h) consumer_group limit)"

definition handle_ack ::
  "'s StorageBackend \<Rightarrow> StreamHandle \<Rightarrow> Env \<Rightarrow> string \<Rightarrow> int \<Rightarrow> ('s, unit) op" where
  "handle_ack B h env consumer_group n =
     with_stream B (\<lambda>X. sx_ack X env (sh_stream_name h) consumer_group n)"

definition handle_prune_events :: "'s StorageBackend \<Rightarrow> StreamHandle \<Rightarrow> int \<Rightarrow> ('s, nat) op" where
  "handle_prune_events B h through_seq =
     with_stream B (\<lambda>X. sx_prune_events X (sh_stream_name h) through_seq)"

definition handle_consumer_group_info ::
  "'s StorageBackend \<Rightarrow> StreamHandle \<Rightarrow> ('s, ConsumerGroupStatus list) op" where
  "handle_consumer_group_info B h =
     with_stream B (\<lambda>X. sx_consumer_group_info X (sh_stream_name h))"

definition handle_subscribe ::
  "'s StorageBackend \<Rightarrow> StreamHandle \<Rightarrow> string \<Rightarrow> int option \<Rightarrow> ('s, unit) op" where
  "handle_subscribe B h consumer_group last_seq =
     with_stream B (\<lambda>X. sx_subscribe_stream X (sh_stream_name h) consumer_group last_seq)"

end
