(* ===== verification/Memory_Streams.thy ===== *)
theory Memory_Streams
  imports Memory_Outcomes Stream_Contract
begin

text \<open>
  \<^verbatim>\<open>impl StreamBackend for MemoryBackend\<close>, its stream invariant, and the proof that it
  satisfies the stream contract. Sequence numbers are the length of the log plus one,
  so they are unique as long as nothing was pruned; what happens afterwards is stated at
  the end.
\<close>

section \<open>Operations\<close>

definition stream_log :: "MemoryBackend \<Rightarrow> string \<Rightarrow> Event list" where
  "stream_log s stream = (case map_of (streams s) stream of None \<Rightarrow> [] | Some es \<Rightarrow> es)"

definition mem_publish :: "Env \<Rightarrow> string \<Rightarrow> NewEvent \<Rightarrow> (MemoryBackend, int) op" where
  "mem_publish env stream event s =
     (let es = stream_log s stream;
          sequence_no = int (length es + 1);
          event_entity =
            \<lparr>ev_sequence_no = sequence_no, ev_stream_name = stream,
             ev_event_type = ne_event_type event, ev_payload_json = ne_payload_json event,
             ev_created_at = e_now env\<rparr>;
          s1 = s\<lparr>streams := hm_insert stream (es @ [event_entity]) (streams s)\<rparr>
      in (Inr sequence_no, notify_stream stream s1))"

definition mem_subscribe_stream ::
  "string \<Rightarrow> string \<Rightarrow> int option \<Rightarrow> (MemoryBackend, unit) op" where
  "mem_subscribe_stream stream consumer_group last_seq s =
     (case map_of (stream_notifiers s) stream of
        Some _ \<Rightarrow> (Inr (), s)
      | None \<Rightarrow> (Inr (), s\<lparr>stream_notifiers := hm_insert stream 0 (stream_notifiers s)\<rparr>))"

definition mem_ack :: "Env \<Rightarrow> string \<Rightarrow> string \<Rightarrow> int \<Rightarrow> (MemoryBackend, unit) op" where
  "mem_ack env stream consumer_group n s =
     (let key = (stream, consumer_group);
          now = e_now env;
          entry =
            (case map_of (stream_offsets s) key of
               Some e \<Rightarrow> e
             | None \<Rightarrow>
                 \<lparr>cg_consumer_group = consumer_group, cg_stream_name = stream,
                  cg_last_acked_seq = 0, cg_updated_at = now\<rparr>);
          entry' =
            (if n > cg_last_acked_seq entry
             then entry\<lparr>cg_last_acked_seq := n, cg_updated_at := now\<rparr> else entry)
      in (Inr (), s\<lparr>stream_offsets := hm_insert key entry' (stream_offsets s)\<rparr>))"

definition mem_read_events :: "string \<Rightarrow> int \<Rightarrow> int \<Rightarrow> (MemoryBackend, Event list) op" where
  "mem_read_events stream after limit s =
     (let n = nat (clamp 1 1000 limit)
      in case map_of (streams s) stream of
           Some es \<Rightarrow> (Inr (take n (filter (\<lambda>e. ev_sequence_no e > after) es)), s)
         | None \<Rightarrow> (Inr [], s))"

definition mem_prune_events :: "string \<Rightarrow> int \<Rightarrow> (MemoryBackend, nat) op" where
  "mem_prune_events stream through_seq s =
     (let offsets =
            map cg_last_acked_seq
              (filter (\<lambda>status. cg_stream_name status = stream) (hm_values (stream_offsets s)));
          min_offset = (if offsets = [] then through_seq else Min (set offsets));
          cutoff = min through_seq min_offset
      in case map_of (streams s) stream of
           None \<Rightarrow> (Inr 0, s)
         | Some es \<Rightarrow>
             (let before = length es;
                  es' = filter (\<lambda>event. ev_sequence_no event > cutoff) es
              in (Inr (before - length es'),
                  s\<lparr>streams := hm_insert stream es' (streams s)\<rparr>)))"

definition mem_consumer_group_info :: "string \<Rightarrow> (MemoryBackend, ConsumerGroupStatus list) op" where
  "mem_consumer_group_info stream s =
     (Inr (filter (\<lambda>cg. cg_stream_name cg = stream) (hm_values (stream_offsets s))), s)"

definition memory_stream :: "MemoryBackend StreamBackend" where
  "memory_stream =
     \<lparr>sx_publish = mem_publish, sx_subscribe_stream = mem_subscribe_stream, sx_ack = mem_ack,
      sx_read_events = mem_read_events, sx_prune_events = mem_prune_events,
      sx_consumer_group_info = mem_consumer_group_info\<rparr>"

section \<open>The contract holds\<close>

definition stream_inv :: "MemoryBackend \<Rightarrow> bool" where
  "stream_inv s \<longleftrightarrow>
     wf_map (streams s) \<and> wf_map (stream_offsets s)
     \<and> (\<forall>st g c. map_of (stream_offsets s) (st, g) = Some c
          \<longrightarrow> cg_stream_name c = st \<and> cg_consumer_group c = g)"

definition mem_acked :: "MemoryBackend \<Rightarrow> string \<Rightarrow> string \<Rightarrow> int option" where
  "mem_acked s st g = map_option cg_last_acked_seq (map_of (stream_offsets s) (st, g))"

lemma notify_stream_simps [simp]:
  "streams (notify_stream st s) = streams s" "stream_offsets (notify_stream st s) = stream_offsets s"
  "jobs (notify_stream st s) = jobs s" "archive (notify_stream st s) = archive s"
  "queued_jobs (notify_stream st s) = queued_jobs s" "attempts (notify_stream st s) = attempts s"
  "attempt_counts (notify_stream st s) = attempt_counts s"
  by (simp_all add: notify_stream_def)

lemma group_info:
  assumes "stream_inv s"
  shows "map_option cg_last_acked_seq
           (find (\<lambda>c. cg_consumer_group c = g)
             (filter (\<lambda>c. cg_stream_name c = st) (hm_values (stream_offsets s)))) = mem_acked s st g"
    (is "map_option _ (find ?P ?cs) = _")
proof (cases "find ?P ?cs")
  case None
  have "map_of (stream_offsets s) (st, g) = None"
  proof (rule ccontr)
    assume "map_of (stream_offsets s) (st, g) \<noteq> None"
    then obtain c where c: "map_of (stream_offsets s) (st, g) = Some c" by blast
    then have "c \<in> set (hm_values (stream_offsets s))"
      using assms by (auto simp: stream_inv_def in_values_iff)
    moreover have "cg_stream_name c = st" "cg_consumer_group c = g"
      using assms c by (auto simp: stream_inv_def)
    ultimately show False using None by (auto simp: find_None_iff)
  qed
  then show ?thesis using None by (simp add: mem_acked_def)
next
  case (Some c)
  then have c: "c \<in> set ?cs" "cg_consumer_group c = g"
    by (auto dest: find_SomeD)
  then obtain k where "map_of (stream_offsets s) k = Some c"
    using assms by (auto simp: stream_inv_def in_values_iff)
  moreover have "k = (st, g)" using calculation c assms by (cases k) (auto simp: stream_inv_def)
  ultimately show ?thesis using Some by (simp add: mem_acked_def)
qed

text \<open>The sequence number up to which a prune really removes events.\<close>

definition prune_cut :: "string \<Rightarrow> int \<Rightarrow> MemoryBackend \<Rightarrow> int" where
  "prune_cut st n s =
     (let offsets = map cg_last_acked_seq
            (filter (\<lambda>c. cg_stream_name c = st) (hm_values (stream_offsets s)))
      in min n (if offsets = [] then n else Min (set offsets)))"

lemma prune_stages:
  "mem_prune_events st n s =
     (case map_of (streams s) st of
        None \<Rightarrow> (Inr 0, s)
      | Some es \<Rightarrow> (Inr (length es - length (after_seq (prune_cut st n s) es)),
                      s\<lparr>streams := hm_insert st (after_seq (prune_cut st n s) es) (streams s)\<rparr>))"
  unfolding mem_prune_events_def Let_def after_seq_def prune_cut_def ..

lemma prune_cut_le_acked:
  assumes "stream_inv s" "mem_acked s st g = Some m"
  shows "prune_cut st n s \<le> m"
proof -
  from assms(2) obtain c where c: "map_of (stream_offsets s) (st, g) = Some c" "cg_last_acked_seq c = m"
    by (auto simp: mem_acked_def)
  then have "c \<in> set (filter (\<lambda>c. cg_stream_name c = st) (hm_values (stream_offsets s)))"
    using assms(1) by (auto simp: stream_inv_def in_values_iff)
  then show ?thesis
    using c(2) by (auto simp: prune_cut_def Let_def filter_empty_conv intro!: min.coboundedI2 Min_le)
qed

lemma prune_cut_le: "prune_cut st n s \<le> n"
  by (simp add: prune_cut_def Let_def)

lemma stream_log_upd:
  "stream_log (s\<lparr>streams := hm_insert st l (streams s)\<rparr>) = (stream_log s)(st := l)"
  by (simp add: stream_log_def fun_eq_iff)

lemma mem_ack_monotone:
  "offset_of (mem_acked s st' g') \<le> offset_of (mem_acked (snd (mem_ack env st g n s)) st' g')"
  by (auto simp: mem_ack_def mem_acked_def offset_of_def Let_def split: option.splits)

lemma memory_publish_law:
  assumes "stream_inv s"
  shows "\<exists>n e. fst (mem_publish env st ne s) = Inr n \<and> stream_inv (snd (mem_publish env st ne s))
      \<and> seq e = n \<and> ev_event_type e = ne_event_type ne \<and> ev_payload_json e = ne_payload_json ne
      \<and> ev_stream_name e = st
      \<and> stream_log (snd (mem_publish env st ne s)) = (stream_log s)(st := stream_log s st @ [e])
      \<and> mem_acked (snd (mem_publish env st ne s)) = mem_acked s"
  using assms
  by (intro exI[of _ "int (length (stream_log s st) + 1)"]
      exI[of _ "\<lparr>ev_sequence_no = int (length (stream_log s st) + 1), ev_stream_name = st,
             ev_event_type = ne_event_type ne, ev_payload_json = ne_payload_json ne,
             ev_created_at = e_now env\<rparr>"])
     (simp add: mem_publish_def Let_def stream_inv_def mem_acked_def fun_eq_iff stream_log_def)

lemma memory_prune_law:
  assumes "stream_inv s"
  shows "\<exists>c. c \<le> n \<and> (\<forall>g m. mem_acked s st g = Some m \<longrightarrow> c \<le> m)
      \<and> stream_inv (snd (mem_prune_events st n s))
      \<and> stream_log (snd (mem_prune_events st n s)) = (stream_log s)(st := after_seq c (stream_log s st))
      \<and> mem_acked (snd (mem_prune_events st n s)) = mem_acked s
      \<and> fst (mem_prune_events st n s) =
          Inr (length (stream_log s st) - length (after_seq c (stream_log s st)))"
proof -
  have "after_seq (prune_cut st n s) [] = []" by (simp add: after_seq_def)
  then show ?thesis
    using assms prune_cut_le_acked[OF assms] prune_cut_le[of st n s]
    by (intro exI[of _ "prune_cut st n s"])
       (auto simp: prune_stages stream_inv_def mem_acked_def fun_eq_iff stream_log_def
         split: option.splits)
qed

interpretation ms: event_stream memory_stream stream_inv stream_log mem_acked
proof
  fix s st n limit env g ne
  assume inv: "stream_inv s"
  show "sx_read_events memory_stream st n limit s =
          (Inr (take (read_limit limit) (after_seq n (stream_log s st))), s)"
    by (simp add: memory_stream_def mem_read_events_def Let_def read_limit_def after_seq_def
        stream_log_def split: option.split)
  show "\<exists>infos. sx_consumer_group_info memory_stream st s = (Inr infos, s)
      \<and> map_option cg_last_acked_seq (find (\<lambda>c. cg_consumer_group c = g) infos) = mem_acked s st g"
    using group_info[OF inv] by (simp add: memory_stream_def mem_consumer_group_info_def)
  show "fst (sx_ack memory_stream env st g n s) = Inr ()
      \<and> stream_inv (snd (sx_ack memory_stream env st g n s))
      \<and> stream_log (snd (sx_ack memory_stream env st g n s)) = stream_log s
      \<and> (\<exists>m. mem_acked (snd (sx_ack memory_stream env st g n s)) st g = Some m
           \<and> (case mem_acked s st g of None \<Rightarrow> 0 < n \<longrightarrow> m = n | Some k \<Rightarrow> m = max k n))
      \<and> (\<forall>st' g'. (st', g') \<noteq> (st, g) \<longrightarrow>
           mem_acked (snd (sx_ack memory_stream env st g n s)) st' g' = mem_acked s st' g')"
    using inv
    by (auto simp: memory_stream_def mem_ack_def Let_def stream_inv_def stream_log_def mem_acked_def
        fun_eq_iff split: option.splits)
  show "\<exists>m e. fst (sx_publish memory_stream env st ne s) = Inr m
      \<and> stream_inv (snd (sx_publish memory_stream env st ne s))
      \<and> seq e = m \<and> ev_event_type e = ne_event_type ne \<and> ev_payload_json e = ne_payload_json ne
      \<and> ev_stream_name e = st
      \<and> stream_log (snd (sx_publish memory_stream env st ne s)) = (stream_log s)(st := stream_log s st @ [e])
      \<and> mem_acked (snd (sx_publish memory_stream env st ne s)) = mem_acked s"
    using memory_publish_law[OF inv] by (simp add: memory_stream_def)
  show "\<exists>c. c \<le> n \<and> (\<forall>g m. mem_acked s st g = Some m \<longrightarrow> c \<le> m)
      \<and> stream_inv (snd (sx_prune_events memory_stream st n s))
      \<and> stream_log (snd (sx_prune_events memory_stream st n s)) =
          (stream_log s)(st := after_seq c (stream_log s st))
      \<and> mem_acked (snd (sx_prune_events memory_stream st n s)) = mem_acked s
      \<and> fst (sx_prune_events memory_stream st n s) =
          Inr (length (stream_log s st) - length (after_seq c (stream_log s st)))"
    using memory_prune_law[OF inv] by (simp add: memory_stream_def)
qed

section \<open>Sequence numbers\<close>

text \<open>A log that was never pruned carries the numbers 1, 2, 3, ... in order.\<close>

definition dense :: "Event list \<Rightarrow> bool" where
  "dense es \<longleftrightarrow> map seq es = map (\<lambda>k. int (Suc k)) [0..<length es]"

lemma dense_nth: "dense es \<longleftrightarrow> (\<forall>k < length es. seq (es ! k) = int (Suc k))"
  unfolding dense_def list_eq_iff_nth_eq by simp

lemma dense_sorted: "dense es \<Longrightarrow> log_sorted es"
  by (simp add: dense_nth log_sorted_def sorted_wrt_iff_nth_less)

lemma dense_snoc: "dense es \<Longrightarrow> seq e = int (length es) + 1 \<Longrightarrow> dense (es @ [e])"
  by (auto simp: dense_nth nth_append less_Suc_eq)

lemma dense_after: "dense es \<Longrightarrow> after_seq (int k) es = drop k es"
proof -
  assume d: "dense es"
  show ?thesis
  proof (cases "k = 0 \<or> length es < k")
    case True
    have "x \<in> set es \<Longrightarrow> 0 < seq x \<and> seq x \<le> int (length es)" for x
      using d by (auto simp: dense_nth in_set_conv_nth)
    then show ?thesis using True by (fastforce simp: after_seq_def filter_empty_conv filter_id_conv)
  next
    case False
    then have "seq (es ! (k - 1)) = int k" using d by (auto simp: dense_nth)
    then show ?thesis using after_last[OF dense_sorted[OF d], of "k - 1"] False by auto
  qed
qed

lemma mem_publish_effect:
  "fst (mem_publish env st ne s) = Inr (int (length (stream_log s st)) + 1)"
  "stream_log (snd (mem_publish env st ne s)) st =
     stream_log s st @
       [\<lparr>ev_sequence_no = int (length (stream_log s st)) + 1, ev_stream_name = st,
         ev_event_type = ne_event_type ne, ev_payload_json = ne_payload_json ne,
         ev_created_at = e_now env\<rparr>]"
  by (simp_all add: mem_publish_def Let_def stream_log_def)

fun publish_all :: "Env \<Rightarrow> string \<Rightarrow> NewEvent list \<Rightarrow> MemoryBackend \<Rightarrow> MemoryBackend" where
  "publish_all env st [] s = s"
| "publish_all env st (ne # nes) s = publish_all env st nes (snd (mem_publish env st ne s))"

lemma publish_all_log:
  assumes "dense (stream_log s st)"
  shows "dense (stream_log (publish_all env st nes s) st)
    \<and> map (\<lambda>e. (ev_event_type e, ev_payload_json e)) (stream_log (publish_all env st nes s) st) =
      map (\<lambda>e. (ev_event_type e, ev_payload_json e)) (stream_log s st)
      @ map (\<lambda>ne. (ne_event_type ne, ne_payload_json ne)) nes"
  using assms
proof (induction nes arbitrary: s)
  case (Cons ne nes)
  have "dense (stream_log (snd (mem_publish env st ne s)) st)"
    using dense_snoc[OF Cons.prems] by (simp add: mem_publish_effect)
  from Cons.IH[OF this] show ?case by (simp add: mem_publish_effect)
qed simp

lemma publish_all_inv:
  assumes "stream_inv s"
  shows "stream_inv (publish_all env st nes s)"
    "mem_acked (publish_all env st nes s) = mem_acked s"
proof -
  have "stream_inv (publish_all env st nes s) \<and> mem_acked (publish_all env st nes s) = mem_acked s"
    using assms
  proof (induction nes arbitrary: s)
    case (Cons ne nes)
    have "stream_inv (snd (mem_publish env st ne s)) \<and> mem_acked (snd (mem_publish env st ne s)) = mem_acked s"
      using memory_publish_law[OF Cons.prems] by blast
    then show ?case using Cons.IH by auto
  qed simp
  then show "stream_inv (publish_all env st nes s)"
    "mem_acked (publish_all env st nes s) = mem_acked s" by auto
qed

lemma prune_cutoff_ge:
  assumes "stream_inv s" "\<And>g m. mem_acked s st g = Some m \<Longrightarrow> n \<le> m"
  shows "stream_log (snd (mem_prune_events st n s)) st = after_seq n (stream_log s st)"
proof -
  let ?cs = "filter (\<lambda>c. cg_stream_name c = st) (hm_values (stream_offsets s))"
  have "n \<le> cg_last_acked_seq c" if "c \<in> set ?cs" for c
  proof -
    have c: "c \<in> set (hm_values (stream_offsets s))" "cg_stream_name c = st" using that by auto
    from c(1) obtain k where k: "map_of (stream_offsets s) k = Some c"
      using assms(1) by (auto simp: stream_inv_def in_values_iff)
    then have "mem_acked s st (snd k) = Some (cg_last_acked_seq c)"
      using assms(1) c(2) by (cases k) (auto simp: stream_inv_def mem_acked_def)
    then show ?thesis using assms(2) by blast
  qed
  then have "n \<le> Min (set (map cg_last_acked_seq ?cs))" if "?cs \<noteq> []"
    using that by (subst Min_ge_iff) (auto simp: filter_empty_conv)
  then have "prune_cut st n s = n"
    by (auto simp: prune_cut_def Let_def intro: min_absorb1)
  then show ?thesis
    by (simp add: prune_stages stream_log_def after_seq_def split: option.split)
qed

end
