(* ===== verification/Memory_Observe.thy ===== *)
theory Memory_Observe
  imports Memory_Lease "HOL-Library.Char_ord" "HOL-Library.List_Lexorder"
begin

text \<open>
  Observability: the records of \<^verbatim>\<open>azums-core/src/backend/observability.rs\<close> and
  \<^verbatim>\<open>impl ObservabilityBackend for MemoryBackend\<close> of \<^verbatim>\<open>memory.rs\<close>.

  Reading a JSON value (\<^verbatim>\<open>Value::get\<close>, \<^verbatim>\<open>Value::as_str\<close> of serde_json) and printing a
  timestamp or an identifier (chrono, uuid) are parameters. Averages are exact rationals
  where the source divides two \<^verbatim>\<open>f64\<close>.
\<close>

section \<open>Printing and ordered maps\<close>

text \<open>\<^verbatim>\<open>Display\<close> for integers.\<close>

fun show_nat :: "nat \<Rightarrow> string" where
  "show_nat n = (if n < 10 then [char_of (48 + n)] else show_nat (n div 10) @ [char_of (48 + n mod 10)])"

declare show_nat.simps [simp del]

definition show_int :: "int \<Rightarrow> string" where
  "show_int n = (if n < 0 then CHR ''-'' # show_nat (nat (- n)) else show_nat (nat n))"

fun btm_insert :: "'k::linorder \<Rightarrow> 'v \<Rightarrow> ('k \<times> 'v) list \<Rightarrow> ('k \<times> 'v) list" where
  "btm_insert k v [] = [(k, v)]"
| "btm_insert k v ((k', v') # m) =
     (if k < k' then (k, v) # (k', v') # m
      else if k = k' then (k, v) # m
      else (k', v') # btm_insert k v m)"

lemma map_of_btm_insert [simp]: "map_of (btm_insert k v m) = (map_of m)(k \<mapsto> v)"
  by (induction m) (auto simp: fun_eq_iff)

section \<open>Records\<close>

record JobObservationEvent =
  oe_at :: datetime
  oe_job_id :: uuid
  oe_attempt :: "int option"
  oe_worker_id :: "string option"
  oe_queue :: string
  oe_duration_ms :: "int option"
  oe_status :: string
  oe_retry_count :: int
  oe_error :: "string option"
  oe_trace_id :: "string option"

definition opt_insert :: "string \<Rightarrow> string option \<Rightarrow> (string \<times> string) list \<Rightarrow> (string \<times> string) list" where
  "opt_insert k v attrs = (case v of None \<Rightarrow> attrs | Some x \<Rightarrow> btm_insert k x attrs)"

definition span_attributes :: "(uuid \<Rightarrow> string) \<Rightarrow> JobObservationEvent \<Rightarrow> (string \<times> string) list" where
  "span_attributes show_uuid ev =
     (let attrs = btm_insert ''azums.job_id'' (show_uuid (oe_job_id ev)) [];
          attrs = btm_insert ''azums.queue'' (oe_queue ev) attrs;
          attrs = btm_insert ''azums.status'' (oe_status ev) attrs;
          attrs = btm_insert ''azums.retry_count'' (show_int (oe_retry_count ev)) attrs;
          attrs = opt_insert ''azums.attempt'' (map_option show_int (oe_attempt ev)) attrs;
          attrs = opt_insert ''azums.worker_id'' (oe_worker_id ev) attrs;
          attrs = opt_insert ''azums.duration_ms'' (map_option show_int (oe_duration_ms ev)) attrs;
          attrs = opt_insert ''azums.error'' (oe_error ev) attrs
      in opt_insert ''trace_id'' (oe_trace_id ev) attrs)"

record JobExplanation =
  jx_job_id :: uuid
  jx_job_type :: string
  jx_queue :: string
  jx_status :: string
  jx_retry_count :: int
  jx_last_worker_id :: "string option"
  jx_last_error :: "string option"
  jx_trace_id :: "string option"
  jx_events :: "JobObservationEvent list"
  jx_summary :: string

record QueueMetrics =
  qm_at :: datetime
  qm_queue :: string
  qm_jobs_total :: nat
  qm_jobs_completed :: nat
  qm_jobs_failed :: nat
  qm_jobs_retried :: nat
  qm_jobs_dlq :: nat
  qm_queue_depth :: nat
  qm_execution_latency_ms_avg :: rat
  qm_claim_latency_ms_avg :: rat
  qm_retry_latency_ms_avg :: rat
  qm_worker_count :: nat

text \<open>What the module calls in serde_json and chrono.\<close>

record Externals =
  x_json_get :: "json \<Rightarrow> string \<Rightarrow> json option"
  x_json_as_str :: "json \<Rightarrow> string option"
  x_show_time :: "datetime \<Rightarrow> string"

definition trace_id_from_job :: "Externals \<Rightarrow> Job \<Rightarrow> string option" where
  "trace_id_from_job x job =
     (case Option.bind (x_json_get x (j_payload job) ''trace_id'') (x_json_as_str x) of
        Some t \<Rightarrow> Some t
      | None \<Rightarrow>
          Option.bind
            (Option.bind (x_json_get x (j_payload job) ''metadata'')
               (\<lambda>value. x_json_get x value ''trace_id''))
            (x_json_as_str x))"

section \<open>Explaining a job\<close>

definition attempt_error :: "MemoryAttempt \<Rightarrow> string option" where
  "attempt_error attempt =
     (case (at_error_code attempt, at_error_message attempt) of
        (Some code, Some msg) \<Rightarrow> Some (code @ '': '' @ msg)
      | (Some code, None) \<Rightarrow> Some code
      | (None, Some msg) \<Rightarrow> Some msg
      | (None, None) \<Rightarrow> None)"

definition job_summary :: "Externals \<Rightarrow> datetime \<Rightarrow> Job \<Rightarrow> MemoryAttempt list \<Rightarrow> string" where
  "job_summary x now job as =
     (let attempt_count = show_nat (length as); st = j_status job
      in if st = ''queued'' \<and> j_run_at job > now then
           ''Job is waiting until '' @ x_show_time x (j_run_at job) @ ''.''
         else if st = ''queued'' then
           ''Job is queued and eligible when ordering and priority allow it.''
         else if st = ''running'' then
           (case j_locked_by job of
              Some w \<Rightarrow> ''Job is running on worker '' @ w @ ''.''
            | None \<Rightarrow> ''Job is running without a recorded worker identity.'')
         else if st = ''succeeded'' \<or> st = ''completed'' then
           ''Job completed after '' @ attempt_count @ '' attempt(s).''
         else if st = ''dlq'' then
           ''Job is in DLQ after '' @ attempt_count @ '' attempt(s): ''
             @ (case j_dlq_reason_code job of Some r \<Rightarrow> r | None \<Rightarrow> ''UNKNOWN'') @ ''.''
         else if st = ''canceled'' \<or> st = ''cancelled'' then ''Job was cancelled.''
         else ''Job is in backend-specific status '' @ [CHR 0x27] @ st @ [CHR 0x27] @ ''.'')"

fun find_map :: "('a \<Rightarrow> 'b option) \<Rightarrow> 'a list \<Rightarrow> 'b option" where
  "find_map f [] = None"
| "find_map f (x # xs) = (case f x of Some y \<Rightarrow> Some y | None \<Rightarrow> find_map f xs)"

definition attempt_event ::
  "Job \<Rightarrow> uuid \<Rightarrow> string option \<Rightarrow> MemoryAttempt \<Rightarrow> JobObservationEvent" where
  "attempt_event job job_id trace_id attempt =
     \<lparr>oe_at = (case at_finished_at attempt of Some t \<Rightarrow> t | None \<Rightarrow> at_started_at attempt),
      oe_job_id = job_id, oe_attempt = Some (at_attempt_no attempt),
      oe_worker_id = Some (at_worker_id attempt), oe_queue = j_queue job,
      oe_duration_ms = at_latency_ms attempt, oe_status = at_status attempt,
      oe_retry_count = max (at_attempt_no attempt - 1) 0, oe_error = attempt_error attempt,
      oe_trace_id = trace_id\<rparr>"

definition mem_explain_job ::
  "Externals \<Rightarrow> Env \<Rightarrow> uuid \<Rightarrow> (MemoryBackend, JobExplanation option) op" where
  "mem_explain_job x env job_id s =
     (case lookup_job s job_id of
        None \<Rightarrow> (Inr None, s)
      | Some job \<Rightarrow>
          (let as = sort_key at_attempt_no
                      (filter (\<lambda>attempt. at_job_id attempt = job_id) (hm_values (attempts s)));
               trace_id = trace_id_from_job x job;
               retry_count = int (length (filter (\<lambda>attempt. at_status attempt = ''failed'') as));
               last_worker_id = (if as = [] then None else Some (at_worker_id (last as)));
               last_error = find_map attempt_error (rev as);
               first_event =
                 \<lparr>oe_at = j_created_at job, oe_job_id = job_id, oe_attempt = None,
                  oe_worker_id = None, oe_queue = j_queue job, oe_duration_ms = None,
                  oe_status = ''queued'', oe_retry_count = 0, oe_error = None,
                  oe_trace_id = trace_id\<rparr>;
               events = first_event # map (attempt_event job job_id trace_id) as
           in (Inr (Some
                 \<lparr>jx_job_id = job_id, jx_job_type = j_job_type job, jx_queue = j_queue job,
                  jx_status = j_status job, jx_retry_count = retry_count,
                  jx_last_worker_id = last_worker_id, jx_last_error = last_error,
                  jx_trace_id = trace_id, jx_events = events,
                  jx_summary = job_summary x (e_now env) job as\<rparr>), s)))"

section \<open>Queue metrics\<close>

definition avg_i64 :: "int list \<Rightarrow> rat" where
  "avg_i64 values =
     (if length values = 0 then 0 else of_int (sum_list values) / of_nat (length values))"

text \<open>\<^verbatim>\<open>TimeDelta::num_milliseconds\<close>: whole milliseconds, truncated towards zero.\<close>

definition num_milliseconds :: "int \<Rightarrow> int" where
  "num_milliseconds d = (if 0 \<le> d then d div 1000000 else - ((- d) div 1000000))"

definition queue_row :: "MemoryBackend \<Rightarrow> datetime \<Rightarrow> string \<Rightarrow> QueueMetrics" where
  "queue_row s now queue_name =
     (let js = filter (\<lambda>job. j_queue job = queue_name) (hm_values (jobs s));
          as = filter (\<lambda>attempt. case lookup_job s (at_job_id attempt) of
                                   None \<Rightarrow> False
                                 | Some job \<Rightarrow> j_queue job = queue_name)
                 (hm_values (attempts s));
          workers = remdups (List.map_filter j_locked_by (filter (\<lambda>job. j_status job = ''running'') js));
          failed = filter (\<lambda>attempt. at_status attempt = ''failed'') as;
          retry_latency =
            List.map_filter
              (\<lambda>attempt.
                 Option.bind (at_finished_at attempt) (\<lambda>finished_at.
                 Option.bind (lookup_job s (at_job_id attempt)) (\<lambda>job.
                   let millis = num_milliseconds (j_run_at job - finished_at)
                   in if millis > 0 then Some millis else None))) as
      in \<lparr>qm_at = now, qm_queue = queue_name, qm_jobs_total = length js,
          qm_jobs_completed =
            length (filter (\<lambda>job. j_status job = ''succeeded'' \<or> j_status job = ''completed'') js),
          qm_jobs_failed = length failed,
          qm_jobs_retried =
            length (filter (\<lambda>attempt. case map_of (jobs s) (at_job_id attempt) of
                                        None \<Rightarrow> False | Some job \<Rightarrow> j_status job = ''queued'') failed),
          qm_jobs_dlq = length (filter (\<lambda>job. j_status job = ''dlq'') js),
          qm_queue_depth = length (filter (\<lambda>job. j_status job = ''queued'' \<and> j_run_at job \<le> now) js),
          qm_execution_latency_ms_avg = avg_i64 (List.map_filter at_latency_ms as),
          qm_claim_latency_ms_avg =
            avg_i64 (List.map_filter
              (\<lambda>job. map_option (\<lambda>locked_at. num_milliseconds (locked_at - j_created_at job)) (j_locked_at job)) js),
          qm_retry_latency_ms_avg = avg_i64 retry_latency,
          qm_worker_count = length workers\<rparr>)"

definition mem_queue_metrics ::
  "Env \<Rightarrow> string option \<Rightarrow> (MemoryBackend, QueueMetrics list) op" where
  "mem_queue_metrics env queue s =
     (let now = e_now env;
          queues = map j_queue
            (filter (\<lambda>job. case queue of None \<Rightarrow> True | Some target \<Rightarrow> j_queue job = target)
               (hm_values (jobs s)));
          queues = (case queue of None \<Rightarrow> queues | Some q \<Rightarrow> q # queues)
      in (Inr (map (queue_row s now) (sort (remdups queues))), s))"

section \<open>Facts about the reports\<close>

lemma explain_attempts_distinct:
  assumes inv: "mem_inv s"
  shows "sorted_wrt (<) (map at_attempt_no (sort_key at_attempt_no
           (filter (\<lambda>a. at_job_id a = i) (hm_values (attempts s)))))"
proof -
  let ?as = "filter (\<lambda>a. at_job_id a = i) (hm_values (attempts s))"
  have key: "at_id a = k \<and> map_of (attempts s) k = Some a" if "(k, a) \<in> set (attempts s)" for k a
    using that mem_invD(5,6)[OF inv] by (auto simp: in_set_iff_map_of attempts_wf_def)
  have mem: "map_of (attempts s) (at_id a) = Some a" if "a \<in> set (hm_values (attempts s))" for a
    using that key by (auto simp: hm_values_def)
  have "map at_id (hm_values (attempts s)) = map fst (attempts s)"
    using key by (auto simp: hm_values_def)
  then have dist: "distinct (hm_values (attempts s))"
    using mem_invD(6)[OF inv] by (metis wf_map_def distinct_map)
  have "inj_on at_attempt_no (set ?as)"
  proof (rule inj_onI)
    fix a b assume ab: "a \<in> set ?as" "b \<in> set ?as" "at_attempt_no a = at_attempt_no b"
    then have "map_of (attempts s) (at_id a) = Some a" "map_of (attempts s) (at_id b) = Some b"
      "at_job_id a = at_job_id b" using mem by auto
    moreover from this have "at_id a = at_id b"
      using mem_invD(5)[OF inv] ab(3) unfolding attempts_wf_def by blast
    ultimately show "a = b" by (metis option.inject)
  qed
  then have "distinct (map at_attempt_no (sort_key at_attempt_no ?as))"
    using dist by (simp add: distinct_map)
  then show ?thesis by (simp add: strict_sorted_iff)
qed

lemma partition_count:
  "length (filter P xs) = length (filter (\<lambda>x. P x \<and> Q x) xs) + length (filter (\<lambda>x. P x \<and> \<not> Q x) xs)"
  by (induction xs) auto

lemma sum_rows:
  "finite A \<Longrightarrow> set xs \<subseteq> A \<Longrightarrow> (\<Sum>a\<in>A. length (filter (\<lambda>x. x = a) xs)) = length xs"
proof (induction xs)
  case (Cons x xs)
  have "(\<Sum>a\<in>A. length (filter (\<lambda>y. y = a) (x # xs))) =
        (\<Sum>a\<in>A. (if a = x then 1 else 0) + length (filter (\<lambda>y. y = a) xs))"
    by (intro sum.cong) auto
  also have "\<dots> = 1 + length xs" using Cons by (simp add: sum.distrib)
  finally show ?case by simp
qed simp

end
