(* ===== verification/Memory_Backend.thy ===== *)
theory Memory_Backend
  imports Memory_Streams Memory_Observe
begin

text \<open>
  The in-memory storage as a whole: the trait object it is used through, the calls a
  client may issue as a datatype, their execution, and the states reachable by any
  sequence of calls from an empty storage. The environment of a call supplies
  identifiers that are not in use, as \<^verbatim>\<open>Uuid::new_v4()\<close> does.
\<close>

section \<open>The trait object\<close>

definition memory_backend :: "MemoryBackend StorageBackend" where
  "memory_backend =
     \<lparr>sb_capabilities = (\<lambda>_. caps_memory),
      sb_as_stream = Some memory_stream,
      sb_run_migrations = (\<lambda>s. (Inr (), s)),
      sb_health_check = (\<lambda>s. (Inr (), s)),
      sb_enqueue = mem_enqueue,
      sb_subscribe = mem_subscribe,
      sb_lease_jobs_batch = mem_lease_jobs_batch,
      sb_lease_jobs_batch_with_ordering = mem_lease_jobs_batch_with_ordering,
      sb_reap_expired_locks = mem_reap_expired_locks,
      sb_start_attempts_batch = mem_start_attempts_batch,
      sb_mark_succeeded = mem_mark_succeeded,
      sb_mark_succeeded_batch = mem_mark_succeeded_batch,
      sb_reschedule_for_retry = mem_reschedule_for_retry,
      sb_mark_dlq = mem_mark_dlq,
      sb_archive_succeeded_older_than = mem_archive_succeeded_older_than,
      sb_delete_history_for_succeeded_older_than = mem_delete_history_for_succeeded_older_than,
      sb_perform_maintenance = (\<lambda>_ s. (Inr (), s)),
      sb_extend_lease = mem_extend_lease,
      sb_cancel_job = mem_cancel_job,
      sb_get_job = mem_get_job,
      sb_list_jobs = mem_list_jobs,
      sb_replay_job = mem_replay_job\<rparr>"

section \<open>Calls and their execution\<close>

datatype mem_call =
    CEnqueue NewJob
  | CLease string string int int QueueOrdering
  | CReap
  | CStart "string list" "uuid list" string
  | CSucceed uuid uuid string int
  | CSucceedBatch string "(uuid \<times> uuid \<times> int) list" string
  | CRetry uuid uuid string int datetime string string int
  | CDlq uuid uuid string int string string string int
  | CArchive datetime int
  | CDeleteHistory datetime int
  | CExtend uuid string int
  | CCancel uuid "string option"
  | CReplay uuid "string option" "datetime option"
  | CSubscribe string
  | CPublish string NewEvent
  | CSubscribeStream string string "int option"
  | CAck string string int
  | CPrune string int
  | CRead

fun mem_exec :: "(nat \<Rightarrow> Env) \<Rightarrow> mem_call \<Rightarrow> MemoryBackend \<Rightarrow> MemoryBackend" where
  "mem_exec envs (CEnqueue job) s = snd (mem_enqueue (envs 0) job s)"
| "mem_exec envs (CLease q w ls bs policy) s =
     snd (mem_lease_jobs_batch_with_ordering (envs 0) q w ls bs policy s)"
| "mem_exec envs CReap s = snd (mem_reap_expired_locks (envs 0) s)"
| "mem_exec envs (CStart ds is w) s = snd (mem_start_attempts_batch (envs 0) ds is w s)"
| "mem_exec envs (CSucceed i a w l) s = snd (mem_mark_succeeded (envs 0) i a w l s)"
| "mem_exec envs (CSucceedBatch d us w) s = snd (mem_mark_succeeded_batch envs d us w s)"
| "mem_exec envs (CRetry i a w l t c m n) s =
     snd (mem_reschedule_for_retry (envs 0) i a w l t c m n s)"
| "mem_exec envs (CDlq i a w l r c m n) s = snd (mem_mark_dlq (envs 0) i a w l r c m n s)"
| "mem_exec envs (CArchive cutoff limit) s = snd (mem_archive_succeeded_older_than cutoff limit s)"
| "mem_exec envs (CDeleteHistory cutoff limit) s =
     snd (mem_delete_history_for_succeeded_older_than cutoff limit s)"
| "mem_exec envs (CExtend i w ls) s = snd (mem_extend_lease (envs 0) i w ls s)"
| "mem_exec envs (CCancel i w) s = snd (mem_cancel_job (envs 0) i w s)"
| "mem_exec envs (CReplay i q t) s = snd (mem_replay_job (envs 0) i q t s)"
| "mem_exec envs (CSubscribe q) s = snd (mem_subscribe q s)"
| "mem_exec envs (CPublish st e) s = snd (mem_publish (envs 0) st e s)"
| "mem_exec envs (CSubscribeStream st g n) s = snd (mem_subscribe_stream st g n s)"
| "mem_exec envs (CAck st g n) s = snd (mem_ack (envs 0) st g n s)"
| "mem_exec envs (CPrune st n) s = snd (mem_prune_events st n s)"
| "mem_exec envs CRead s = s"

definition fresh_envs :: "(nat \<Rightarrow> Env) \<Rightarrow> MemoryBackend \<Rightarrow> bool" where
  "fresh_envs envs s \<longleftrightarrow>
     (\<forall>n. fresh_env (envs n) s) \<and> (\<forall>m n. m \<noteq> n \<longrightarrow> e_fresh (envs m) 0 \<noteq> e_fresh (envs n) 0)"

inductive mem_step :: "MemoryBackend \<Rightarrow> mem_call \<Rightarrow> MemoryBackend \<Rightarrow> bool" where
  step: "fresh_envs envs s \<Longrightarrow> mem_step s c (mem_exec envs c s)"

inductive_cases mem_stepE: "mem_step s c s'"

inductive mem_reachable :: "MemoryBackend \<Rightarrow> bool" where
  init: "mem_reachable mem_new"
| next_call: "mem_reachable s \<Longrightarrow> mem_step s c s' \<Longrightarrow> mem_reachable s'"

section \<open>The invariant along every run\<close>

lemma mark_succeeded_job_tables:
  "archive (snd (mem_mark_succeeded env i aid w l s)) = archive s"
  "k \<noteq> i \<Longrightarrow> k \<noteq> e_fresh env 0 \<Longrightarrow>
     map_of (jobs (snd (mem_mark_succeeded env i aid w l s))) k = map_of (jobs s) k"
  "map_of (attempts s) k = None \<Longrightarrow>
     map_of (attempts (snd (mem_mark_succeeded env i aid w l s))) k = None"
  by (auto simp: mem_mark_succeeded_def Let_def split: option.splits)

lemma mark_succeeded_absent:
  "map_of (jobs s) k = None \<Longrightarrow> k \<noteq> e_fresh env 0 \<Longrightarrow>
     map_of (jobs (snd (mem_mark_succeeded env i aid w l s))) k = None"
  by (auto simp: mem_mark_succeeded_def Let_def split: option.splits)

lemma mark_succeeded_batch_step:
  "snd (mem_mark_succeeded_batch envs d ((i, a, l) # us) w s) =
     (case mem_mark_succeeded (envs 0) i a w l s of
        (Inl e, s') \<Rightarrow> s'
      | (Inr _, s') \<Rightarrow> snd (mem_mark_succeeded_batch (\<lambda>k. envs (Suc k)) d us w s'))"
  by (simp add: mem_mark_succeeded_batch_def split: prod.split sum.split)

definition fresh_firsts :: "(nat \<Rightarrow> Env) \<Rightarrow> MemoryBackend \<Rightarrow> bool" where
  "fresh_firsts envs s \<longleftrightarrow>
     (\<forall>n. fresh_id (e_fresh (envs n) 0) s)
     \<and> (\<forall>m n. m \<noteq> n \<longrightarrow> e_fresh (envs m) 0 \<noteq> e_fresh (envs n) 0)"

lemma fresh_firsts_step:
  assumes "fresh_firsts envs s"
  shows "fresh_firsts (\<lambda>n. envs (Suc n)) (snd (mem_mark_succeeded (envs 0) i a w l s))"
proof -
  have "fresh_id (e_fresh (envs (Suc n)) 0) (snd (mem_mark_succeeded (envs 0) i a w l s))" for n
  proof -
    have "e_fresh (envs (Suc n)) 0 \<noteq> e_fresh (envs 0) 0" using assms by (simp add: fresh_firsts_def)
    then show ?thesis
      using assms mark_succeeded_absent mark_succeeded_job_tables(1,3)
      by (simp add: fresh_firsts_def fresh_id_def)
  qed
  then show ?thesis using assms by (simp add: fresh_firsts_def)
qed

lemma mark_succeeded_batch_induct:
  assumes step: "\<And>envs s i a l. P s \<Longrightarrow> fresh_firsts envs s \<Longrightarrow> (i, a, l) \<in> set us
      \<Longrightarrow> P (snd (mem_mark_succeeded (envs 0) i a w l s))"
    and "P s" "fresh_firsts envs s"
  shows "P (snd (mem_mark_succeeded_batch envs d us w s))"
  using assms
proof (induction us arbitrary: s envs)
  case Nil
  then show ?case by (simp add: mem_mark_succeeded_batch_def)
next
  case (Cons u us)
  obtain i a l where u: "u = (i, a, l)" by (cases u)
  obtain r s' where m: "mem_mark_succeeded (envs 0) i a w l s = (r, s')" by fastforce
  have "P s'" "fresh_firsts (\<lambda>n. envs (Suc n)) s'"
    using Cons.prems(1)[OF Cons.prems(2,3), of i a l] fresh_firsts_step[OF Cons.prems(3), of i a w l]
      u m by auto
  then have "P (snd (mem_mark_succeeded_batch (\<lambda>n. envs (Suc n)) d us w s'))"
    using Cons.IH[of s' "\<lambda>n. envs (Suc n)"] Cons.prems(1) by (meson list.set_intros(2))
  then show ?case using \<open>P s'\<close> by (simp add: u m mark_succeeded_batch_step split: sum.split)
qed

lemma fresh_envs_firsts: "fresh_envs envs s \<Longrightarrow> fresh_firsts envs s"
  by (simp add: fresh_envs_def fresh_firsts_def fresh_env_def)

text \<open>Subscriptions and the stream calls leave the job tables alone.\<close>

definition same_job_tables :: "MemoryBackend \<Rightarrow> MemoryBackend \<Rightarrow> bool" where
  "same_job_tables s s' \<longleftrightarrow>
     jobs s' = jobs s \<and> queued_jobs s' = queued_jobs s \<and> archive s' = archive s
     \<and> attempts s' = attempts s \<and> attempt_counts s' = attempt_counts s"

lemma stream_calls_frame:
  "same_job_tables s (snd (mem_subscribe q s))"
  "same_job_tables s (snd (mem_publish env st e s))"
  "same_job_tables s (snd (mem_subscribe_stream st g m s))"
  "same_job_tables s (snd (mem_ack env st g n s))"
  "same_job_tables s (snd (mem_prune_events st n s))"
  by (simp_all add: same_job_tables_def mem_subscribe_def mem_publish_def mem_subscribe_stream_def
      mem_ack_def mem_prune_events_def Let_def split: option.splits)

lemma same_job_tables_inv: "same_job_tables s s' \<Longrightarrow> mem_inv s \<Longrightarrow> mem_inv s'"
proof -
  assume same: "same_job_tables s s'" and inv: "mem_inv s"
  have "index_of s' = index_of s" "attempt_count s' = attempt_count s"
    using same by (simp_all add: same_job_tables_def index_of_def attempt_count_def fun_eq_iff)
  then show "mem_inv s'"
    using same inv by (simp add: same_job_tables_def mem_inv_def tables_wf_def)
qed

lemma same_job_tables_lookup:
  "same_job_tables s s' \<Longrightarrow> map_of (jobs s') = map_of (jobs s) \<and> archive s' = archive s"
  by (simp add: same_job_tables_def)

lemma mem_exec_inv:
  assumes "mem_inv s" "fresh_envs envs s"
  shows "mem_inv (mem_exec envs c s)"
proof -
  have f: "fresh_env (envs 0) s" "fresh_id (e_fresh (envs 0) 0) s"
    using assms(2) by (simp_all add: fresh_envs_def fresh_env_def)
  have "mem_inv (snd (mem_mark_succeeded_batch envs d us w s))" for d us w
    by (rule mark_succeeded_batch_induct[where P = mem_inv, OF _ assms(1) fresh_envs_firsts[OF assms(2)]])
       (simp add: fresh_firsts_def mem_mark_succeeded_inv)
  then show ?thesis
    using assms(1) f
    by (cases c)
       (simp_all add: mem_enqueue_inv mem_lease_with_ordering_inv reap_invariant_count
         mem_start_attempts_batch_inv mem_mark_succeeded_inv mem_reschedule_for_retry_inv
         mem_mark_dlq_inv mem_archive_inv mem_delete_history_inv mem_extend_lease_inv
         mem_cancel_job_inv mem_replay_inv same_job_tables_inv[OF stream_calls_frame(1)]
         same_job_tables_inv[OF stream_calls_frame(2)] same_job_tables_inv[OF stream_calls_frame(3)]
         same_job_tables_inv[OF stream_calls_frame(4)] same_job_tables_inv[OF stream_calls_frame(5)])
qed

lemma mem_step_inv: "mem_step s c s' \<Longrightarrow> mem_inv s \<Longrightarrow> mem_inv s'"
  by (auto elim: mem_stepE simp: mem_exec_inv)

lemma mem_reachable_inv: "mem_reachable s \<Longrightarrow> mem_inv s"
  by (induction rule: mem_reachable.induct) (auto intro: mem_step_inv)

section \<open>The stream invariant along every run\<close>

definition same_streams :: "MemoryBackend \<Rightarrow> MemoryBackend \<Rightarrow> bool" where
  "same_streams s s' \<longleftrightarrow> streams s' = streams s \<and> stream_offsets s' = stream_offsets s"

lemma same_streams_trans: "same_streams a b \<Longrightarrow> same_streams b c \<Longrightarrow> same_streams a c"
  by (simp add: same_streams_def)

lemma same_streams_inv: "same_streams s s' \<Longrightarrow> stream_inv s \<Longrightarrow> stream_inv s'"
  by (simp add: same_streams_def stream_inv_def)

lemma same_streams_loops:
  "same_streams s (snd (requeue_loop now is s))"
  "same_streams s (snd (start_loop now fresh w is s))"
  "same_streams s (archive_loop is s)"
proof -
  show "same_streams s (snd (requeue_loop now is s))"
    by (induction "is" arbitrary: s)
       (auto simp: same_streams_def Let_def case_prod_unfold split: option.split)
  show "same_streams s (snd (start_loop now fresh w is s))"
  proof (induction "is" arbitrary: s fresh)
    case (Cons i "is")
    from Cons[of "record_attempt (fresh 0) i now w s" "\<lambda>k. fresh (Suc k)"] show ?case
      by (simp del: start_loop.simps(2) add: start_loop_Cons same_streams_def record_attempt_def Let_def
          case_prod_unfold split: option.split sum.split)
  qed (simp add: same_streams_def)
  show "same_streams s (archive_loop is s)"
    by (induction "is" arbitrary: s) (auto simp: same_streams_def split: option.split)
qed

lemma job_calls_frame:
  "same_streams s (snd (mem_enqueue env job s))"
  "same_streams s (snd (mem_lease_jobs_batch_with_ordering env q w ls bs policy s))"
  "same_streams s (snd (mem_reap_expired_locks env s))"
  "same_streams s (snd (mem_start_attempts_batch env ds is w s))"
  "same_streams s (snd (mem_mark_succeeded env i a w l s))"
  "same_streams s (snd (mem_reschedule_for_retry env i a w l t c m n s))"
  "same_streams s (snd (mem_mark_dlq env i a w l r c m n s))"
  "same_streams s (snd (mem_archive_succeeded_older_than t n s))"
  "same_streams s (snd (mem_delete_history_for_succeeded_older_than t n s))"
  "same_streams s (snd (mem_extend_lease env i w ls s))"
  "same_streams s (snd (mem_cancel_job env i wo s))"
  "same_streams s (snd (mem_replay_job env i oq orun s))"
  "same_streams s (snd (mem_subscribe q s))"
  using same_streams_loops
  by (auto simp: same_streams_def mem_enqueue_def lease_stages swept_def locked_def reap_stages
      close_attempts_def mem_start_attempts_batch_def mem_mark_succeeded_def
      mem_reschedule_for_retry_def mem_mark_dlq_def archive_stages
      mem_delete_history_for_succeeded_older_than_def mem_extend_lease_def cancel_stages
      close_latest_def mem_replay_job_def mem_subscribe_def Let_def case_prod_unfold
      split: option.splits)

lemma succeed_batch_frame: "same_streams s (snd (mem_mark_succeeded_batch envs d us w s))"
  unfolding mem_mark_succeeded_batch_def
  by (rule for_each_invariant[where P = "same_streams s"])
     (auto intro: same_streams_trans job_calls_frame(5) simp: same_streams_def[of s s])

lemma stream_calls_inv:
  assumes "stream_inv s"
  shows "stream_inv (snd (mem_publish env st e s))" "stream_inv (snd (mem_ack env st g n s))"
    "stream_inv (snd (mem_prune_events st n s))" "stream_inv (snd (mem_subscribe_stream st g m s))"
  using ms.publish_law[OF assms, of env st e] ms.ack_law[OF assms, of env st g n]
    ms.prune_law[OF assms, of n st] assms
  by (auto simp: memory_stream_def mem_subscribe_stream_def stream_inv_def split: option.splits)

lemma mem_reachable_stream_inv: "mem_reachable s \<Longrightarrow> stream_inv s"
proof (induction rule: mem_reachable.induct)
  case (next_call s c s')
  then obtain envs where "s' = mem_exec envs c s" by (auto elim: mem_stepE)
  then show ?case
    using next_call.IH same_streams_inv[OF job_calls_frame(1)] same_streams_inv[OF job_calls_frame(2)]
      same_streams_inv[OF job_calls_frame(3)] same_streams_inv[OF job_calls_frame(4)]
      same_streams_inv[OF job_calls_frame(5)] same_streams_inv[OF job_calls_frame(6)]
      same_streams_inv[OF job_calls_frame(7)] same_streams_inv[OF job_calls_frame(8)]
      same_streams_inv[OF job_calls_frame(9)] same_streams_inv[OF job_calls_frame(10)]
      same_streams_inv[OF job_calls_frame(11)] same_streams_inv[OF job_calls_frame(12)]
      same_streams_inv[OF job_calls_frame(13)] same_streams_inv[OF succeed_batch_frame] stream_calls_inv
    by (cases c) simp_all
qed (simp add: stream_inv_def mem_new_def)

end
