(* ===== verification/Memory_Runs.thy ===== *)
theory Memory_Runs
  imports Memory_Backend
begin

text \<open>
  What any call can do to one stored job: the job stays in the storage, keeps its
  identity, gets a new status only from the call meant for it and under the condition of that
  call, and does not change at all once it is terminal; a running job changes only on behalf of
  the worker that holds its lease, or when the lease has expired.
\<close>

section \<open>Evolution of a job\<close>

definition same_identity :: "Job \<Rightarrow> Job \<Rightarrow> bool" where
  "same_identity j j' \<longleftrightarrow>
     j_id j' = j_id j \<and> j_dataset_id j' = j_dataset_id j \<and> j_queue j' = j_queue j
     \<and> j_job_type j' = j_job_type j \<and> j_payload j' = j_payload j
     \<and> j_idempotency_key j' = j_idempotency_key j \<and> j_priority j' = j_priority j
     \<and> j_max_attempts j' = j_max_attempts j \<and> j_deadline_at j' = j_deadline_at j
     \<and> j_timeout_seconds j' = j_timeout_seconds j \<and> j_created_at j' = j_created_at j
     \<and> j_recurring_interval_seconds j' = j_recurring_interval_seconds j
     \<and> j_replay_of_job_id j' = j_replay_of_job_id j"

definition terminal_status :: "string \<Rightarrow> bool" where
  "terminal_status st \<longleftrightarrow> st \<in> {''succeeded'', ''dlq'', ''canceled''}"

definition evolves :: "Job \<Rightarrow> Job \<Rightarrow> bool" where
  "evolves j j' \<longleftrightarrow> same_identity j j' \<and> (terminal_status (j_status j) \<longrightarrow> j' = j)"

lemmas evolves_defs = evolves_def same_identity_def terminal_status_def

lemma evolves_refl [simp]: "evolves j j"
  by (simp add: evolves_defs)

lemma evolves_records:
  "j_status j = ''queued'' \<Longrightarrow> evolves j (lock_job now w t j)"
  "j_status j = ''queued'' \<Longrightarrow> evolves j (deadline_dlq now j)"
  "j_status j = ''running'' \<Longrightarrow> evolves j (requeue_job now j)"
  "j_status j = ''running'' \<Longrightarrow> evolves j ((requeue_job now j)\<lparr>j_run_at := t\<rparr>)"
  "j_status j = ''running'' \<Longrightarrow> evolves j (complete_job_record now j)"
  "j_status j = ''running'' \<Longrightarrow> evolves j (dlq_job_record now r j)"
  "j_status j = ''queued'' \<or> j_status j = ''running'' \<Longrightarrow> evolves j (cancel_job_record now j)"
  "j_status j = ''running'' \<Longrightarrow> evolves j (j\<lparr>j_lock_expires_at := e, j_updated_at := u\<rparr>)"
  by (auto simp: evolves_defs record_defs)

lemma record_statuses:
  "j_status (lock_job now w t j) = ''running''" "j_status (deadline_dlq now j) = ''dlq''"
  "j_status (requeue_job now j) = ''queued''" "j_status (complete_job_record now j) = ''succeeded''"
  "j_status (dlq_job_record now r j) = ''dlq''" "j_status (cancel_job_record now j) = ''canceled''"
  by (simp_all add: record_defs)

section \<open>Effect of each call on the job table\<close>

lemma enqueue_jobs_after:
  "k \<noteq> e_fresh env 0 \<Longrightarrow> map_of (jobs (snd (mem_enqueue env job s))) k = map_of (jobs s) k"
  "archive (snd (mem_enqueue env job s)) = archive s"
  by (simp_all add: mem_enqueue_def Let_def split: option.splits)

lemma replay_jobs_after:
  "k \<noteq> e_fresh env 0 \<Longrightarrow> map_of (jobs (snd (mem_replay_job env i q t s))) k = map_of (jobs s) k"
  "archive (snd (mem_replay_job env i q t s)) = archive s"
  by (simp_all add: mem_replay_job_def Let_def split: option.splits)

lemma start_loop_jobs [simp]:
  "jobs (snd (start_loop now fresh w is s)) = jobs s"
  "archive (snd (start_loop now fresh w is s)) = archive s"
  by (induction "is" arbitrary: s fresh)
     (auto simp del: start_loop.simps(2) simp: start_loop_Cons split: option.splits prod.splits sum.splits,
      (metis record_attempt_simps(1,2) snd_conv)+)

lemma start_jobs_after [simp]:
  "jobs (snd (mem_start_attempts_batch env ds is w s)) = jobs s"
  "archive (snd (mem_start_attempts_batch env ds is w s)) = archive s"
  by (simp_all add: mem_start_attempts_batch_def)

lemma succeed_jobs_after:
  "k \<noteq> e_fresh env 0 \<Longrightarrow>
     map_of (jobs (snd (mem_mark_succeeded env i a w l s))) k = map_of (jobs s) k
     \<or> k = i \<and> (\<exists>j. map_of (jobs s) i = Some j \<and> lease_held w j
           \<and> map_of (jobs (snd (mem_mark_succeeded env i a w l s))) k
               = Some (complete_job_record (e_now env) j))"
  by (auto simp: mem_mark_succeeded_def Let_def split: option.splits)

lemma retry_jobs_after:
  "map_of (jobs (snd (mem_reschedule_for_retry env i a w l t c m n s))) k = map_of (jobs s) k
     \<or> k = i \<and> (\<exists>j. map_of (jobs s) i = Some j \<and> lease_held w j
           \<and> map_of (jobs (snd (mem_reschedule_for_retry env i a w l t c m n s))) k
               = Some ((requeue_job (e_now env) j)\<lparr>j_run_at := t\<rparr>))"
  "archive (snd (mem_reschedule_for_retry env i a w l t c m n s)) = archive s"
  by (auto simp: mem_reschedule_for_retry_def Let_def split: option.splits)

lemma dlq_jobs_after:
  "map_of (jobs (snd (mem_mark_dlq env i a w l r c m n s))) k = map_of (jobs s) k
     \<or> k = i \<and> (\<exists>j. map_of (jobs s) i = Some j \<and> lease_held w j
           \<and> map_of (jobs (snd (mem_mark_dlq env i a w l r c m n s))) k
               = Some (dlq_job_record (e_now env) r j))"
  "archive (snd (mem_mark_dlq env i a w l r c m n s)) = archive s"
  by (auto simp: mem_mark_dlq_def Let_def split: option.splits)

lemma extend_jobs_after:
  "map_of (jobs (snd (mem_extend_lease env i w ls s))) k = map_of (jobs s) k
     \<or> k = i \<and> (\<exists>j. map_of (jobs s) i = Some j \<and> lease_held w j
           \<and> map_of (jobs (snd (mem_extend_lease env i w ls s))) k
               = Some (j\<lparr>j_lock_expires_at := Some (e_now env + seconds ls), j_updated_at := e_now env\<rparr>))"
  "archive (snd (mem_extend_lease env i w ls s)) = archive s"
  by (auto simp: mem_extend_lease_def split: option.splits)

lemma cancel_jobs_after:
  "map_of (jobs (snd (mem_cancel_job env i wo s))) k = map_of (jobs s) k
     \<or> k = i \<and> (\<exists>j. map_of (jobs s) i = Some j \<and> cancel_guard i wo j = None
           \<and> map_of (jobs (snd (mem_cancel_job env i wo s))) k
               = Some (cancel_job_record (e_now env) j))"
  "archive (snd (mem_cancel_job env i wo s)) = archive s"
  by (auto simp: cancel_stages split: option.splits)

lemma archive_lookup_after:
  assumes "mem_inv s"
  shows "lookup_job (snd (mem_archive_succeeded_older_than cutoff limit s)) k = lookup_job s k"
proof (cases "k \<in> set (archivable_ids cutoff limit s)")
  case True
  from archivable_idsD[OF assms True] obtain j where "map_of (jobs s) k = Some j" by blast
  then show ?thesis using True by (simp add: archive_stages lookup_job_def archive_loop_tables)
qed (simp add: archive_stages lookup_job_def archive_loop_tables split: option.splits)

lemma delete_history_jobs [simp]:
  "jobs (snd (mem_delete_history_for_succeeded_older_than cutoff limit s)) = jobs s"
  "archive (snd (mem_delete_history_for_succeeded_older_than cutoff limit s)) = archive s"
  by (simp_all add: mem_delete_history_for_succeeded_older_than_def Let_def)

lemma succeed_batch_jobs_after:
  assumes "fresh_firsts envs s" "map_of (jobs s) k = Some j"
  shows "map_of (jobs (snd (mem_mark_succeeded_batch envs d us w s))) k = Some j
     \<or> lease_held w j \<and> (\<exists>now. map_of (jobs (snd (mem_mark_succeeded_batch envs d us w s))) k
          = Some (complete_job_record now j))"
proof -
  let ?P = "\<lambda>s'. map_of (jobs s') k = Some j
     \<or> lease_held w j \<and> (\<exists>now. map_of (jobs s') k = Some (complete_job_record now j))"
  have "?P (snd (mem_mark_succeeded (envs 0) i a w l s'))" if "?P s'" "fresh_firsts envs s'"
    for envs s' i a l
  proof -
    have "k \<noteq> e_fresh (envs 0) 0" using that by (auto simp: fresh_firsts_def fresh_id_def)
    from succeed_jobs_after[OF this, of i a w l s'] show ?thesis
      using that(1) by auto
  qed
  then show ?thesis
    by (rule mark_succeeded_batch_induct[where P = ?P, OF _ disjI1[OF assms(2)] assms(1)])
qed

lemma succeed_batch_archive [simp]:
  "archive (snd (mem_mark_succeeded_batch envs d us w s)) = archive s"
proof (induction us arbitrary: s envs)
  case (Cons u us)
  obtain i a l where u: "u = (i, a, l)" by (cases u)
  have "archive s' = archive s" if "mem_mark_succeeded (envs 0) i a w l s = (r, s')" for r s'
    using mark_succeeded_job_tables(1)[of "envs 0" i a w l s] that by simp
  then show ?case using Cons by (simp add: u mark_succeeded_batch_step split: prod.split sum.split)
qed (simp add: mem_mark_succeeded_batch_def)

section \<open>One call, one job\<close>

lemma lookup_some_cases:
  assumes "mem_inv s" "lookup_job s k = Some j"
  obtains "map_of (jobs s) k = Some j"
    | "map_of (jobs s) k = None" "map_of (archive s) k = Some j"
  using assms(2) by (auto simp: lookup_job_def split: option.splits)

text \<open>
  The calls that act on behalf of a worker carry its identifier.
\<close>

fun call_worker :: "mem_call \<Rightarrow> string option" where
  "call_worker (CStart ds is w) = Some w"
| "call_worker (CSucceed i a w l) = Some w"
| "call_worker (CSucceedBatch d us w) = Some w"
| "call_worker (CRetry i a w l t c m n) = Some w"
| "call_worker (CDlq i a w l r c m n) = Some w"
| "call_worker (CExtend i w ls) = Some w"
| "call_worker (CCancel i w) = w"
| "call_worker _ = None"

text \<open>
  The statuses a call can give to a job. The transitions of the lifecycle page of the
  documentation are those of a lease call on a due job, of the three reports of the holder, of
  the cancellation of a running job and, as an operational path, of the reaper. A lease call
  also dead-letters a due job whose deadline has passed, and a queued job can be cancelled:
  both are missing in the table of \<^verbatim>\<open>legal_successors\<close>.
\<close>

fun moved_by :: "(nat \<Rightarrow> Env) \<Rightarrow> mem_call \<Rightarrow> Job \<Rightarrow> string \<Rightarrow> bool" where
  "moved_by envs (CLease q w ls bs policy) j st \<longleftrightarrow>
     st = ''running'' \<and> lease_due (e_now (envs 0)) q j
     \<or> st = ''dlq'' \<and> deadline_passed (e_now (envs 0)) q j"
| "moved_by envs CReap j st \<longleftrightarrow> st = ''queued'' \<and> lease_expired (e_now (envs 0)) j"
| "moved_by envs (CSucceed i a w l) j st \<longleftrightarrow> st = ''succeeded'' \<and> j_id j = i \<and> lease_held w j"
| "moved_by envs (CSucceedBatch d us w) j st \<longleftrightarrow> st = ''succeeded'' \<and> lease_held w j"
| "moved_by envs (CRetry i a w l t c m n) j st \<longleftrightarrow> st = ''queued'' \<and> j_id j = i \<and> lease_held w j"
| "moved_by envs (CDlq i a w l r c m n) j st \<longleftrightarrow> st = ''dlq'' \<and> j_id j = i \<and> lease_held w j"
| "moved_by envs (CCancel i wo) j st \<longleftrightarrow> st = ''canceled'' \<and> j_id j = i
     \<and> (j_status j = ''queued'' \<or> (\<exists>w. wo = Some w \<and> lease_held w j))"
| "moved_by envs _ j st \<longleftrightarrow> False"

definition job_touched :: "(nat \<Rightarrow> Env) \<Rightarrow> mem_call \<Rightarrow> Job \<Rightarrow> Job \<Rightarrow> bool" where
  "job_touched envs c j j' \<longleftrightarrow>
     (j_status j' = j_status j \<or> moved_by envs c j (j_status j'))
     \<and> (j' = j
        \<or> j_status j = ''queued'' \<and> evolves j j'
        \<or> j_status j = ''running'' \<and> evolves j j' \<and> lease_expired (e_now (envs 0)) j \<and> c = CReap
        \<or> j_status j = ''running'' \<and> evolves j j' \<and> call_worker c = j_locked_by j)"

lemma exec_stored_job:
  assumes inv: "mem_inv s" and fresh: "fresh_envs envs s" and j: "map_of (jobs s) k = Some j"
  shows "\<exists>j'. lookup_job (mem_exec envs c s) k = Some j' \<and> job_touched envs c j j'"
proof -
  let ?s' = "mem_exec envs c s"
  have k: "k \<noteq> e_fresh (envs 0) 0"
    using fresh j by (auto simp: fresh_envs_def fresh_env_def fresh_id_def)
  have stay: ?thesis if "map_of (jobs ?s') k = Some j"
    using that by (auto simp: lookup_job_def job_touched_def)
  have move: ?thesis if "map_of (jobs ?s') k = Some j'" "job_touched envs c j j'" for j'
    using that by (auto simp: lookup_job_def)
  have id: "j_id j = k" using mem_invD(2)[OF inv] j by (simp add: jobs_wf_def)
  note worker = job_touched_def evolves_records record_statuses id
  show ?thesis
  proof (cases c)
    case (CEnqueue job)
    then show ?thesis using stay enqueue_jobs_after(1)[OF k] j by simp
  next
    case (CLease q w ls bs policy)
    have "lease_due (e_now (envs 0)) q j" if "j \<in> set (lease_spec (e_now (envs 0)) q n s)" for n
      using lease_spec_mem(2)[OF inv that] .
    then show ?thesis
      using move[of "deadline_dlq (e_now (envs 0)) j"] stay CLease
        move[of "lock_job (e_now (envs 0)) w (e_now (envs 0) + seconds ls) j"]
        lease_jobs_after[OF inv, of "envs 0" q w ls bs policy k] j
      by (auto simp: worker deadline_passed_def lease_due_def split: if_splits)
  next
    case CReap
    then show ?thesis
      using move[of "requeue_job (e_now (envs 0)) j"] stay reap_jobs_after[OF inv, of "envs 0" k] j
      by (auto simp: worker lease_expired_def split: if_splits)
  next
    case (CStart ds "is" w)
    then show ?thesis using stay j by simp
  next
    case (CSucceed i a w l)
    then show ?thesis
      using move[of "complete_job_record (e_now (envs 0)) j"] stay succeed_jobs_after[OF k, of i a w l s] j
      by (auto simp: worker)
  next
    case (CSucceedBatch d us w)
    then show ?thesis
      using move stay succeed_batch_jobs_after[OF fresh_envs_firsts[OF fresh] j, of d us w]
      by (auto simp: worker)
  next
    case (CRetry i a w l t cd m n)
    then show ?thesis
      using move[of "(requeue_job (e_now (envs 0)) j)\<lparr>j_run_at := t\<rparr>"] stay
        retry_jobs_after(1)[of "envs 0" i a w l t cd m n s k] j
      by (auto simp: worker)
  next
    case (CDlq i a w l r cd m n)
    then show ?thesis
      using move[of "dlq_job_record (e_now (envs 0)) r j"] stay
        dlq_jobs_after(1)[of "envs 0" i a w l r cd m n s k] j
      by (auto simp: worker)
  next
    case (CArchive cutoff limit)
    then show ?thesis
      using archive_lookup_after[OF inv, of cutoff limit k] j
      by (auto simp: lookup_job_def job_touched_def)
  next
    case (CDeleteHistory cutoff limit)
    then show ?thesis using stay j by simp
  next
    case (CExtend i w ls)
    then show ?thesis
      using move stay extend_jobs_after(1)[of "envs 0" i w ls s k] j by (auto simp: worker)
  next
    case (CCancel i w)
    then show ?thesis
      using move[of "cancel_job_record (e_now (envs 0)) j"] stay cancel_jobs_after(1)[of "envs 0" i w s k] j
      by (auto simp: worker cancel_guard_None)
  next
    case (CReplay i q t)
    then show ?thesis using stay replay_jobs_after(1)[OF k] j by simp
  next
    case (CSubscribe q)
    then show ?thesis using stay same_job_tables_lookup[OF stream_calls_frame(1)] j by simp
  next
    case (CPublish st e)
    then show ?thesis using stay same_job_tables_lookup[OF stream_calls_frame(2)] j by simp
  next
    case (CSubscribeStream st g n)
    then show ?thesis using stay same_job_tables_lookup[OF stream_calls_frame(3)] j by simp
  next
    case (CAck st g n)
    then show ?thesis using stay same_job_tables_lookup[OF stream_calls_frame(4)] j by simp
  next
    case (CPrune st n)
    then show ?thesis using stay same_job_tables_lookup[OF stream_calls_frame(5)] j by simp
  next
    case CRead
    then show ?thesis using stay j by simp
  qed
qed

lemma exec_archive_after:
  assumes "mem_inv s" "map_of (archive s) k = Some j"
  shows "map_of (archive (mem_exec envs c s)) k = Some j"
proof (cases c)
  case (CArchive cutoff limit)
  have "map_of (jobs s) k = None" using mem_invD(4)[OF assms(1)] assms(2) by (simp add: archive_wf_def)
  then show ?thesis using assms(2) CArchive by (simp add: archive_stages archive_loop_tables)
qed (use assms(2) in \<open>simp_all add: enqueue_jobs_after reap_stages Let_def case_prod_unfold
    mark_succeeded_job_tables retry_jobs_after dlq_jobs_after extend_jobs_after cancel_jobs_after
    replay_jobs_after same_job_tables_lookup[OF stream_calls_frame(1)]
    same_job_tables_lookup[OF stream_calls_frame(2)] same_job_tables_lookup[OF stream_calls_frame(3)]
    same_job_tables_lookup[OF stream_calls_frame(4)] same_job_tables_lookup[OF stream_calls_frame(5)]\<close>)

lemma exec_archived_job:
  assumes inv: "mem_inv s" and fresh: "fresh_envs envs s" and j: "map_of (archive s) k = Some j"
  shows "lookup_job (mem_exec envs c s) k = Some j"
proof -
  have "map_of (archive (mem_exec envs c s)) k = Some j" by (rule exec_archive_after[OF inv j])
  moreover have "archive_wf (map_of (jobs (mem_exec envs c s))) (map_of (archive (mem_exec envs c s)))"
    using mem_invD(4)[OF mem_exec_inv[OF inv fresh]] .
  ultimately show ?thesis by (simp add: archive_wf_def lookup_job_def)
qed

lemma step_job:
  assumes "mem_step s c s'" "mem_inv s" "lookup_job s k = Some j"
  shows "\<exists>j'. lookup_job s' k = Some j' \<and> evolves j j'"
proof -
  from assms(1) obtain envs where e: "fresh_envs envs s" "s' = mem_exec envs c s"
    by (auto elim: mem_stepE)
  from lookup_some_cases[OF assms(2,3)] show ?thesis
  proof cases
    case 1
    from exec_stored_job[OF assms(2) e(1) 1, of c] e(2) show ?thesis
      by (auto simp: job_touched_def)
  next
    case 2
    from exec_archived_job[OF assms(2) e(1) 2(2), of c] e(2) show ?thesis by auto
  qed
qed

section \<open>Runs\<close>

inductive mem_run :: "MemoryBackend \<Rightarrow> MemoryBackend \<Rightarrow> bool" where
  finished: "mem_run s s"
| call: "mem_step s c s' \<Longrightarrow> mem_run s' s'' \<Longrightarrow> mem_run s s''"

lemma mem_run_inv: "mem_run s s' \<Longrightarrow> mem_inv s \<Longrightarrow> mem_inv s'"
  by (induction rule: mem_run.induct) (auto intro: mem_step_inv)

lemma same_identity_trans: "same_identity a b \<Longrightarrow> same_identity b c \<Longrightarrow> same_identity a c"
  by (simp add: same_identity_def)

lemma run_job:
  assumes "mem_run s s'" "mem_inv s" "lookup_job s k = Some j"
  shows "\<exists>j'. lookup_job s' k = Some j' \<and> same_identity j j'
           \<and> (terminal_status (j_status j) \<longrightarrow> j' = j)"
  using assms
proof (induction arbitrary: j rule: mem_run.induct)
  case (finished s)
  then show ?case by (auto simp: same_identity_def)
next
  case (call s c s' s'')
  from step_job[OF call.hyps(1) call.prems] obtain j1 where
    j1: "lookup_job s' k = Some j1" "evolves j j1" by blast
  from call.IH[OF mem_step_inv[OF call.hyps(1) call.prems(1)] j1(1)] obtain j2 where
    "lookup_job s'' k = Some j2" "same_identity j1 j2" "terminal_status (j_status j1) \<longrightarrow> j2 = j1" by blast
  then show ?case using j1(2) by (auto simp: evolves_def intro: same_identity_trans)
qed

end
