(* ===== verification/Listing_Pages.thy ===== *)
theory Listing_Pages
  imports Memory_Store
begin

text \<open>
  Lists of jobs in pages, for every storage that keeps the cursor's promise: a page holds the
  rows that follow the cursor in the order newest first, and the cursor for the next page is
  taken from the last row of a page.
\<close>

definition page_size :: "int \<Rightarrow> nat" where
  "page_size limit = nat (clamp 1 500 limit)"

lemma page_size_pos [simp]: "0 < page_size limit" "page_size limit \<le> 500"
  using clamp_range[of 1 500 limit] by (auto simp: page_size_def)

lemma filter_sort_key: "filter P (sort_key f xs) = sort_key f (filter P xs)"
  by (induction xs) (simp_all add: filter_insort_triv filter_insort)

lemma after_cursor_key:
  "after_cursor (Some (li_created_at c)) (Some (li_id c)) = (\<lambda>item. newest_first c < newest_first item)"
  by (auto simp: after_cursor_def newest_first_def fun_eq_iff)

text \<open>The pages a client gets that follows the cursor, until a page is empty.\<close>

fun follow_cursor ::
  "((datetime \<times> uuid) option \<Rightarrow> JobListItem list) \<Rightarrow> nat \<Rightarrow> (datetime \<times> uuid) option
     \<Rightarrow> JobListItem list" where
  "follow_cursor page 0 cursor = []"
| "follow_cursor page (Suc n) cursor =
     (case page cursor of
        [] \<Rightarrow> []
      | x # xs \<Rightarrow>
          (let l = last (x # xs)
           in (x # xs) @ follow_cursor page n (Some (li_created_at l, li_id l))))"

locale cursor_listing =
  fixes ok :: "'s \<Rightarrow> bool"
    and page :: "'q \<Rightarrow> int \<Rightarrow> (datetime \<times> uuid) option \<Rightarrow> 's \<Rightarrow> JobListItem list"
    and listing :: "'q \<Rightarrow> 's \<Rightarrow> JobListItem list"
  assumes strict: "ok s \<Longrightarrow> sorted_wrt (\<lambda>a b. newest_first a < newest_first b) (listing q s)"
    and page_law: "ok s \<Longrightarrow> c = None \<or> (\<exists>x \<in> set (listing q s). c = Some (li_created_at x, li_id x)) \<Longrightarrow>
      page q limit c s =
        take (page_size limit) (filter (after_cursor (map_option fst c) (map_option snd c)) (listing q s))"
begin

lemma next_page:
  assumes "ok s" "k < length (listing q s)" "x = listing q s ! k"
  shows "page q limit (Some (li_created_at x, li_id x)) s = take (page_size limit) (drop (Suc k) (listing q s))"
proof -
  have "x \<in> set (listing q s)" using assms(2,3) by simp
  then have "page q limit (Some (li_created_at x, li_id x)) s =
      take (page_size limit) (filter (\<lambda>y. newest_first x < newest_first y) (listing q s))"
    using page_law[OF assms(1), of "Some (li_created_at x, li_id x)" q limit] by (auto simp: after_cursor_key)
  then show ?thesis using strict_filter_drop[OF strict[OF assms(1)] assms(2)] assms(3) by simp
qed

lemma follow_from:
  assumes "ok s" "\<And>l. page q l cursor s = take (page_size l) (drop k (listing q s))"
  shows "follow_cursor (\<lambda>c. page q limit c s) n cursor = take (n * page_size limit) (drop k (listing q s))"
  using assms(2)
proof (induction n arbitrary: cursor k)
  case (Suc n)
  let ?L = "listing q s" and ?p = "page_size limit"
  show ?case
  proof (cases "take ?p (drop k ?L)")
    case Nil
    then have "drop k ?L = []" by (simp del: drop_eq_Nil) (metis page_size_pos(1) less_numeral_extra(3))
    then show ?thesis using Suc.prems[of limit] by simp
  next
    case (Cons x xs)
    define d where "d = length (take ?p (drop k ?L)) - 1"
    define m where "m = k + d"
    have len: "0 < length (take ?p (drop k ?L))" using Cons by simp
    then have d: "d < length (take ?p (drop k ?L))" "Suc d = length (take ?p (drop k ?L))"
      unfolding d_def by linarith+
    then have m: "m < length ?L" "Suc m = k + length (take ?p (drop k ?L))"
      by (simp_all add: m_def)
    have "last (take ?p (drop k ?L)) = take ?p (drop k ?L) ! d"
      unfolding d_def using Cons by (intro last_conv_nth) simp
    also have "\<dots> = ?L ! m" using d(1) m(1) unfolding m_def by (simp add: nth_drop less_imp_le)
    finally have last: "last (x # xs) = ?L ! m" using Cons by (simp only:)
    have "follow_cursor (\<lambda>c. page q limit c s) n (Some (li_created_at (?L ! m), li_id (?L ! m))) =
            take (n * ?p) (drop (Suc m) ?L)"
      by (rule Suc.IH) (rule next_page[OF assms(1) m(1) refl])
    also have "drop (Suc m) ?L = drop ?p (drop k ?L)"
      using m(2) by (simp add: min_def add.commute split: if_splits)
    finally show ?thesis
      using Suc.prems[of limit] Cons last by (simp add: Let_def take_add)
  qed
qed simp

lemma follow_all:
  assumes "ok s"
  shows "follow_cursor (\<lambda>c. page q limit c s) n None = take (n * page_size limit) (listing q s)"
  using follow_from[OF assms, of q None 0] page_law[OF assms, of None q] by (simp add: after_cursor_def)

end

end
