(* ===== verification/Memory_Listing.thy ===== *)
theory Memory_Listing
  imports Memory_Lease Listing_Pages
begin

text \<open>
  Listing jobs in pages: \<^verbatim>\<open>list_jobs\<close> of the in-memory storage returns the matching jobs
  newest first, and the cursor taken from the last row of a page selects exactly the rows
  that follow it.
\<close>

definition listing :: "string option \<Rightarrow> string option \<Rightarrow> MemoryBackend \<Rightarrow> JobListItem list" where
  "listing queue status s =
     sort_key newest_first (map list_item (filter (list_filter queue status) (hm_values (jobs s))))"

lemma list_item_sel [simp]:
  "li_id (list_item j) = j_id j" "li_created_at (list_item j) = j_created_at j"
  by (simp_all add: list_item_def)

lemma newest_first_inj:
  assumes inv: "mem_inv s"
  shows "distinct (map newest_first (listing q st s))"
proof -
  let ?js = "filter (list_filter q st) (hm_values (jobs s))"
  have ids: "distinct (map j_id ?js)"
    using job_ids_distinct(2)[OF inv] by (simp add: distinct_map_filter)
  have "distinct (map (newest_first \<circ> list_item) ?js)"
    using ids unfolding distinct_map
    by (auto simp: inj_on_def newest_first_def)
  then have "distinct (map newest_first (map list_item ?js))" by simp
  then show ?thesis unfolding listing_def
    by (simp only: distinct_map distinct_sort set_sort)
qed

lemma listing_strict:
  assumes "mem_inv s"
  shows "sorted_wrt (\<lambda>a b. newest_first a < newest_first b) (listing q st s)"
proof -
  have "sorted (map newest_first (listing q st s))" by (simp add: listing_def)
  then have "sorted_wrt (<) (map newest_first (listing q st s))"
    using newest_first_inj[OF assms] by (simp add: strict_sorted_iff)
  then show ?thesis by (simp add: sorted_wrt_map)
qed

lemma mem_list_jobs_pages:
  "mem_list_jobs q st limit c i s =
     (Inr (take (page_size limit) (filter (after_cursor c i) (listing q st s))), s)"
  by (simp add: mem_list_jobs_def listing_def page_size_def Let_def filter_sort_key)

text \<open>Following the cursor page by page.\<close>

definition listed_page ::
  "string option \<times> string option \<Rightarrow> int \<Rightarrow> (datetime \<times> uuid) option \<Rightarrow> MemoryBackend
     \<Rightarrow> JobListItem list" where
  "listed_page filters limit cursor s =
     (case fst (mem_list_jobs (fst filters) (snd filters) limit (map_option fst cursor)
                  (map_option snd cursor) s) of
        Inl e \<Rightarrow> []
      | Inr items \<Rightarrow> items)"

definition follow_pages ::
  "string option \<Rightarrow> string option \<Rightarrow> int \<Rightarrow> nat \<Rightarrow> (datetime \<times> uuid) option \<Rightarrow> MemoryBackend
     \<Rightarrow> JobListItem list" where
  "follow_pages q st limit n cursor s = follow_cursor (\<lambda>c. listed_page (q, st) limit c s) n cursor"

interpretation ml: cursor_listing mem_inv listed_page "\<lambda>(q, st). listing q st"
  by unfold_locales (auto simp: listing_strict listed_page_def mem_list_jobs_pages)

lemma follow_pages_all:
  assumes "mem_inv s"
  shows "follow_pages q st limit n None s = take (n * page_size limit) (listing q st s)"
  using ml.follow_all[OF assms, of "(q, st)" limit n] by (simp add: follow_pages_def)

end
