(* ===== verification/Retry_Policy.thy ===== *)
theory Retry_Policy
  imports Prelude "HOL-Library.Word"
begin

text \<open>
  Failure classification and backoff: \<^verbatim>\<open>azums/src/jobs/retry.rs\<close> and
  \<^verbatim>\<open>azums/src/jobs/error_codes.rs\<close>.

  The backoff multiplier is computed on 64-bit words as the source does with
  \<^verbatim>\<open>checked_shl\<close>, so its sign bit is visible. Products saturate at the bounds of
  \<^verbatim>\<open>i64\<close>. Floating point is exact rational arithmetic. Sampling from a range (crate rand)
  is a parameter; sampling from an empty range panics, as its documentation says.
  \<^verbatim>\<open>str::trim\<close> and \<^verbatim>\<open>to_uppercase\<close> are modelled on ASCII.
\<close>

section \<open>Strings\<close>

definition is_ws :: "char \<Rightarrow> bool" where
  "is_ws c \<longleftrightarrow> (let n = (of_char c :: nat) in n = 32 \<or> 9 \<le> n \<and> n \<le> 13)"

definition trim_start :: "string \<Rightarrow> string" where
  "trim_start s = dropWhile is_ws s"

definition trim :: "string \<Rightarrow> string" where
  "trim s = rev (dropWhile is_ws (rev (trim_start s)))"

definition upper_char :: "char \<Rightarrow> char" where
  "upper_char c = (let n = (of_char c :: nat) in if 97 \<le> n \<and> n \<le> 122 then char_of (n - 32) else c)"

definition to_uppercase :: "string \<Rightarrow> string" where
  "to_uppercase s = map upper_char s"

fun split_once :: "char \<Rightarrow> string \<Rightarrow> (string \<times> string) option" where
  "split_once d [] = None"
| "split_once d (c # cs) =
     (if c = d then Some ([], cs)
      else map_option (\<lambda>(a, b). (c # a, b)) (split_once d cs))"

lemma split_once_Some:
  "split_once d s = Some (a, b) \<longleftrightarrow> s = a @ d # b \<and> d \<notin> set a"
proof (induction s arbitrary: a)
  case (Cons c cs)
  show ?case by (cases a) (auto simp: Cons)
qed simp

section \<open>Failure classes\<close>

datatype ErrorClass = Retryable | Permanent | Timeout | Panic | Cancelled | SystemFailure

definition classify_error :: "string \<Rightarrow> ErrorClass" where
  "classify_error code =
     (let c = to_uppercase (trim code)
      in if c = ''TIMEOUT'' then ErrorClass.Timeout
         else if c = ''PANIC'' then ErrorClass.Panic
         else if c = ''CANCELLED'' \<or> c = ''CANCELED'' then ErrorClass.Cancelled
         else if c \<in> {''BAD_PAYLOAD'', ''UNKNOWN_JOB_TYPE'', ''PERMANENT'', ''PERMANENT_ERROR''}
           then ErrorClass.Permanent
         else if c \<in> {''DEPENDENCY_DOWN'', ''DB_DEADLOCK'', ''SERIALIZATION'', ''RATE_LIMIT'',
                       ''DB_DISCONNECT'', ''SYSTEM_FAILURE'', ''LEASE_EXPIRED''}
           then ErrorClass.SystemFailure
         else ErrorClass.Retryable)"

fun is_retryable :: "ErrorClass \<Rightarrow> bool" where
  "is_retryable ErrorClass.Retryable = True"
| "is_retryable ErrorClass.Timeout = True"
| "is_retryable ErrorClass.SystemFailure = True"
| "is_retryable _ = False"

fun dlq_reason_code :: "ErrorClass \<Rightarrow> string" where
  "dlq_reason_code ErrorClass.Permanent = ''PERMANENT_ERROR''"
| "dlq_reason_code ErrorClass.Panic = ''PANIC''"
| "dlq_reason_code ErrorClass.Cancelled = ''CANCELLED''"
| "dlq_reason_code ErrorClass.Timeout = ''MAX_ATTEMPTS_EXCEEDED''"
| "dlq_reason_code ErrorClass.Retryable = ''MAX_ATTEMPTS_EXCEEDED''"
| "dlq_reason_code ErrorClass.SystemFailure = ''MAX_ATTEMPTS_EXCEEDED''"

definition known_codes :: "string list" where
  "known_codes =
     [''TIMEOUT'', ''BAD_PAYLOAD'', ''PERMANENT'', ''PERMANENT_ERROR'', ''DEPENDENCY_DOWN'',
      ''DB_DEADLOCK'', ''SERIALIZATION'', ''RATE_LIMIT'', ''DB_DISCONNECT'', ''SYSTEM_FAILURE'',
      ''CANCELLED'', ''CANCELED'']"

definition canonical_code :: "string \<Rightarrow> string" where
  "canonical_code code =
     (if code = ''PERMANENT'' then ''PERMANENT_ERROR''
      else if code = ''CANCELED'' then ''CANCELLED''
      else if code \<in> set known_codes then code
      else ''HANDLER_ERROR'')"

definition parse_handler_error :: "string \<Rightarrow> string \<times> string" where
  "parse_handler_error msg =
     (case split_once CHR '':'' msg of
        None \<Rightarrow> (''HANDLER_ERROR'', msg)
      | Some (code, rest) \<Rightarrow>
          (let code = to_uppercase (trim code)
           in if code \<in> set known_codes then (canonical_code code, trim rest)
              else (''HANDLER_ERROR'', msg)))"

section \<open>Error codes\<close>

datatype ErrorCode =
    Timeout | DbDeadlock | Serialization | RateLimit | Panic | BadPayload | PermanentError
  | DependencyDown | DbDisconnect | SystemFailure | Cancelled | LeaseExpired | HandlerError
  | Unknown

definition ErrorCode_from_str :: "string \<Rightarrow> ErrorCode" where
  "ErrorCode_from_str s =
     (let c = to_uppercase (trim s)
      in if c = ''TIMEOUT'' then ErrorCode.Timeout
         else if c = ''DB_DEADLOCK'' then DbDeadlock
         else if c = ''SERIALIZATION'' then Serialization
         else if c = ''RATE_LIMIT'' then RateLimit
         else if c = ''PANIC'' then ErrorCode.Panic
         else if c = ''BAD_PAYLOAD'' then BadPayload
         else if c = ''PERMANENT'' \<or> c = ''PERMANENT_ERROR'' then PermanentError
         else if c = ''DEPENDENCY_DOWN'' then DependencyDown
         else if c = ''DB_DISCONNECT'' then DbDisconnect
         else if c = ''SYSTEM_FAILURE'' then ErrorCode.SystemFailure
         else if c = ''CANCELLED'' \<or> c = ''CANCELED'' then ErrorCode.Cancelled
         else if c = ''LEASE_EXPIRED'' then LeaseExpired
         else if c = ''HANDLER_ERROR'' then HandlerError
         else Unknown)"

fun ErrorCode_as_str :: "ErrorCode \<Rightarrow> string" where
  "ErrorCode_as_str ErrorCode.Timeout = ''TIMEOUT''"
| "ErrorCode_as_str DbDeadlock = ''DB_DEADLOCK''"
| "ErrorCode_as_str Serialization = ''SERIALIZATION''"
| "ErrorCode_as_str RateLimit = ''RATE_LIMIT''"
| "ErrorCode_as_str ErrorCode.Panic = ''PANIC''"
| "ErrorCode_as_str BadPayload = ''BAD_PAYLOAD''"
| "ErrorCode_as_str PermanentError = ''PERMANENT_ERROR''"
| "ErrorCode_as_str DependencyDown = ''DEPENDENCY_DOWN''"
| "ErrorCode_as_str DbDisconnect = ''DB_DISCONNECT''"
| "ErrorCode_as_str ErrorCode.SystemFailure = ''SYSTEM_FAILURE''"
| "ErrorCode_as_str ErrorCode.Cancelled = ''CANCELLED''"
| "ErrorCode_as_str LeaseExpired = ''LEASE_EXPIRED''"
| "ErrorCode_as_str HandlerError = ''HANDLER_ERROR''"
| "ErrorCode_as_str Unknown = ''UNKNOWN''"

fun suggested_action_for :: "ErrorCode \<Rightarrow> string" where
  "suggested_action_for ErrorCode.Timeout =
     ''Increase timeout OR reduce payload/work. Check downstream latency and retries.''"
| "suggested_action_for DbDeadlock =
     ''Retry is OK. Reduce lock contention: consistent row ordering, smaller transactions.''"
| "suggested_action_for Serialization =
     ''Retry is OK. Use SERIALIZABLE retry loop / reduce concurrent writes / use lower isolation if acceptable.''"
| "suggested_action_for RateLimit =
     ''Back off. Add client-side rate limiting, respect Retry-After, lower concurrency.''"
| "suggested_action_for ErrorCode.Panic =
     ''Investigate crash. Capture panic info, add safeguards, consider marking permanent if deterministic.''"
| "suggested_action_for BadPayload =
     ''Non-retryable. Validate payload schema/fields. Fix producer or add transform step.''"
| "suggested_action_for PermanentError =
     ''Non-retryable. Validate payload schema/fields. Fix producer or add transform step.''"
| "suggested_action_for DependencyDown =
     ''Retry later. Check dependency health, circuit-break, alerting, fallback path.''"
| "suggested_action_for DbDisconnect =
     ''Retry is OK. Check infrastructure health, worker lifecycle, and database/network stability.''"
| "suggested_action_for ErrorCode.SystemFailure =
     ''Retry is OK. Check infrastructure health, worker lifecycle, and database/network stability.''"
| "suggested_action_for LeaseExpired =
     ''Retry is OK. Check infrastructure health, worker lifecycle, and database/network stability.''"
| "suggested_action_for ErrorCode.Cancelled =
     ''Cancellation is terminal. Inspect the caller or operator action that requested cancellation.''"
| "suggested_action_for HandlerError =
     ''Retryable by default. Add a specific error code if the failure is permanent or operational.''"
| "suggested_action_for Unknown =
     ''Inspect error_message + logs. Decide if retryable; add mapping once understood.''"

definition suggested_action :: "string \<Rightarrow> string" where
  "suggested_action code = suggested_action_for (ErrorCode_from_str code)"

section \<open>Backoff\<close>

record RetryConfig =
  base_seconds :: int
  max_seconds :: int
  jitter_pct :: rat

definition RetryConfig_default :: RetryConfig where
  "RetryConfig_default = \<lparr>base_seconds = 2, max_seconds = 15 * 60, jitter_pct = 1 / 5\<rparr>"

abbreviation i64_min :: int where "i64_min \<equiv> - (2 ^ 63)"
abbreviation i64_max :: int where "i64_max \<equiv> 2 ^ 63 - 1"

text \<open>\<^verbatim>\<open>1_i64.checked_shl(exp)\<close>: the shift of the 64-bit word, or nothing from 64 on.\<close>

definition checked_shl_one :: "nat \<Rightarrow> int option" where
  "checked_shl_one e = (if e < 64 then Some (sint (push_bit e (1 :: 64 word))) else None)"

definition saturating_mul :: "int \<Rightarrow> int \<Rightarrow> int" where
  "saturating_mul a b = clamp i64_min i64_max (a * b)"

text \<open>\<^verbatim>\<open>f64::round\<close>: to the nearest integer, halves away from zero.\<close>

definition round_away :: "rat \<Rightarrow> int" where
  "round_away x = (if 0 \<le> x then \<lfloor>x + 1 / 2\<rfloor> else - \<lfloor>- x + 1 / 2\<rfloor>)"

text \<open>A panic of the calling task.\<close>

datatype 'a outcome = Returns 'a | Panics string

definition backoff_delay :: "int \<Rightarrow> RetryConfig \<Rightarrow> int" where
  "backoff_delay attempt_no cfg =
     (let attempt = nat (max attempt_no 1);
          e = attempt - 1;
          pow2 = (case checked_shl_one e of Some p \<Rightarrow> p | None \<Rightarrow> i64_max);
          delay = saturating_mul (base_seconds cfg) pow2
      in if delay > max_seconds cfg then max_seconds cfg else delay)"

definition next_delay_seconds ::
  "int \<Rightarrow> RetryConfig \<Rightarrow> (rat \<Rightarrow> rat \<Rightarrow> rat) \<Rightarrow> int outcome" where
  "next_delay_seconds attempt_no cfg random_range =
     (let delay = backoff_delay attempt_no cfg;
          jitter_range = rat_of_int delay * jitter_pct cfg
      in if - jitter_range > jitter_range then Panics ''cannot sample empty range''
         else
           (let jitter = random_range (- jitter_range) jitter_range;
                jittered = clamp i64_min i64_max (round_away (rat_of_int delay + jitter))
            in if max_seconds cfg < 0 then Panics ''assertion failed: min <= max''
               else Returns (clamp 0 (max_seconds cfg) jittered)))"

text \<open>What \<^verbatim>\<open>Rng::random_range\<close> documents for a non-empty inclusive range.\<close>

definition samples_range :: "(rat \<Rightarrow> rat \<Rightarrow> rat) \<Rightarrow> bool" where
  "samples_range r \<longleftrightarrow> (\<forall>lo hi. lo \<le> hi \<longrightarrow> lo \<le> r lo hi \<and> r lo hi \<le> hi)"

section \<open>Facts\<close>

lemma RetryConfig_default_sel [simp]:
  "base_seconds RetryConfig_default = 2" "max_seconds RetryConfig_default = 900"
  "jitter_pct RetryConfig_default = 1 / 5"
  by (simp_all add: RetryConfig_default_def)

lemma shl_small:
  assumes e: "e < 63"
  shows "checked_shl_one e = Some (2 ^ e)"
proof -
  have "(2::int) ^ e < 2 ^ 63" using e by (intro power_strict_increasing) auto
  then have "signed_take_bit 63 ((2::int) ^ e) = 2 ^ e"
    by (intro signed_take_bit_int_eq_self) (auto intro: order_trans[of _ 0])
  moreover have "push_bit e (1 :: 64 word) = word_of_int (2 ^ e)"
    by (simp add: push_bit_eq_mult)
  ultimately have "sint (push_bit e (1 :: 64 word)) = 2 ^ e"
    by (simp only: sint_sbintrunc') simp
  then show ?thesis using e by (simp add: checked_shl_one_def)
qed

lemma shl_63: "checked_shl_one 63 = Some i64_min"
  by (simp add: checked_shl_one_def push_bit_eq_mult)

lemma shl_big: "64 \<le> e \<Longrightarrow> checked_shl_one e = None"
  by (simp add: checked_shl_one_def)

lemma backoff_exponential:
  assumes "1 \<le> n" "n \<le> 63" "0 \<le> base_seconds cfg"
  shows "backoff_delay n cfg = min (max_seconds cfg) (min i64_max (base_seconds cfg * 2 ^ nat (n - 1)))"
proof -
  have e: "nat (max n 1) - 1 = nat (n - 1)" "nat (n - 1) < 63" using assms by auto
  have "0 \<le> base_seconds cfg * 2 ^ nat (n - 1)" using assms(3) by simp
  then show ?thesis
    using shl_small[OF e(2)] e(1)
    by (auto simp: backoff_delay_def Let_def saturating_mul_def clamp_def)
qed

lemma backoff_saturated:
  assumes "65 \<le> n" "0 \<le> base_seconds cfg"
  shows "backoff_delay n cfg = min (max_seconds cfg) (min i64_max (base_seconds cfg * i64_max))"
proof -
  have "64 \<le> nat (max n 1) - 1" using assms by auto
  then show ?thesis
    using shl_big assms(2) by (auto simp: backoff_delay_def Let_def saturating_mul_def clamp_def)
qed

lemma backoff_64:
  assumes "1 \<le> base_seconds cfg" "0 \<le> max_seconds cfg"
  shows "backoff_delay 64 cfg = i64_min"
proof -
  have "base_seconds cfg * i64_min \<le> i64_min" using assms(1) by simp
  then have "saturating_mul (base_seconds cfg) i64_min = i64_min"
    by (simp add: saturating_mul_def clamp_def)
  then show ?thesis using shl_63 assms(2) by (simp add: backoff_delay_def Let_def)
qed

lemma backoff_range:
  assumes "n \<noteq> 64" "0 \<le> base_seconds cfg" "0 \<le> max_seconds cfg"
  shows "0 \<le> backoff_delay n cfg" "backoff_delay n cfg \<le> max_seconds cfg"
proof -
  have small: "backoff_delay n cfg = backoff_delay 1 cfg" if "n < 1"
    using that by (simp add: backoff_delay_def)
  have shape: "\<exists>p. 0 \<le> p \<and> backoff_delay m cfg = min (max_seconds cfg) (min i64_max p)"
    if "1 \<le> m" "m \<noteq> 64" for m
  proof (cases "m \<le> 63")
    case True
    then show ?thesis using backoff_exponential[of m cfg] that assms(2)
      by (intro exI[of _ "base_seconds cfg * 2 ^ nat (m - 1)"]) simp
  next
    case False
    then show ?thesis using backoff_saturated[of m cfg] that assms(2)
      by (intro exI[of _ "base_seconds cfg * i64_max"]) simp
  qed
  from shape[of n] shape[of 1] small assms(1) obtain p where
    p: "0 \<le> p" "backoff_delay n cfg = min (max_seconds cfg) (min i64_max p)"
    by (cases "n < 1") auto
  then show "0 \<le> backoff_delay n cfg" "backoff_delay n cfg \<le> max_seconds cfg"
    using assms(3) by simp_all
qed

lemma round_away_nonneg: "0 \<le> x \<Longrightarrow> 0 \<le> round_away x"
  by (simp add: round_away_def le_floor_iff)

lemma round_away_nonpos: "x < 0 \<Longrightarrow> round_away x \<le> 0"
  by (simp add: round_away_def le_floor_iff)

lemma round_away_mono:
  assumes "x \<le> y"
  shows "round_away x \<le> round_away y"
proof (cases "x < 0 \<and> 0 \<le> y")
  case True
  then show ?thesis using round_away_nonneg[of y] round_away_nonpos[of x] by linarith
next
  case False
  then show ?thesis
    using assms floor_mono[of "x + 1 / 2" "y + 1 / 2"] floor_mono[of "- y + 1 / 2" "- x + 1 / 2"]
    by (auto simp: round_away_def not_le not_less)
qed

lemma round_away_int [simp]: "round_away (rat_of_int n) = n"
  by (simp add: round_away_def) linarith

lemma next_delay_returns:
  assumes "n \<noteq> 64" "0 \<le> base_seconds cfg" "0 \<le> max_seconds cfg" "0 \<le> jitter_pct cfg"
  shows "next_delay_seconds n cfg r =
    Returns (clamp 0 (max_seconds cfg) (clamp i64_min i64_max (round_away
      (rat_of_int (backoff_delay n cfg)
        + r (- (rat_of_int (backoff_delay n cfg) * jitter_pct cfg))
            (rat_of_int (backoff_delay n cfg) * jitter_pct cfg)))))"
proof -
  have "0 \<le> rat_of_int (backoff_delay n cfg) * jitter_pct cfg"
    using backoff_range(1)[OF assms(1-3)] assms(4) by simp
  then show ?thesis using assms(3) by (simp add: next_delay_seconds_def Let_def)
qed

lemma clamp_mono: "lo \<le> hi \<Longrightarrow> x \<le> y \<Longrightarrow> clamp lo hi x \<le> clamp lo hi y"
  by (simp add: clamp_def)

text \<open>
  C27: For every attempt number but 64 and every sensible configuration the backoff returns,
  and the delay lies between the rounded lower and upper ends of the jitter interval
  around the capped exponential delay, never above the configured maximum.
\<close>

theorem next_delay_bounds:
  assumes "n \<noteq> 64" "0 \<le> base_seconds cfg" "0 \<le> max_seconds cfg" "0 \<le> jitter_pct cfg"
    and "samples_range r"
  shows "\<exists>d. next_delay_seconds n cfg r = Returns d \<and> 0 \<le> d \<and> d \<le> max_seconds cfg
      \<and> clamp 0 (max_seconds cfg) (clamp i64_min i64_max
            (round_away (rat_of_int (backoff_delay n cfg) * (1 - jitter_pct cfg)))) \<le> d
      \<and> d \<le> clamp 0 (max_seconds cfg) (clamp i64_min i64_max
            (round_away (rat_of_int (backoff_delay n cfg) * (1 + jitter_pct cfg))))"
proof -
  let ?b = "rat_of_int (backoff_delay n cfg)"
  let ?j = "?b * jitter_pct cfg"
  have "0 \<le> ?j" using backoff_range(1)[OF assms(1-3)] assms(4) by simp
  then have "- ?j \<le> r (- ?j) ?j" "r (- ?j) ?j \<le> ?j" using assms(5) by (simp_all add: samples_range_def)
  then have "?b * (1 - jitter_pct cfg) \<le> ?b + r (- ?j) ?j" "?b + r (- ?j) ?j \<le> ?b * (1 + jitter_pct cfg)"
    by (simp_all add: algebra_simps)
  then show ?thesis
    using next_delay_returns[OF assms(1-4), of r] clamp_range[OF assms(3)] assms(3)
    by (auto intro!: clamp_mono round_away_mono)
qed

theorem next_delay_bounds_witness:
  "\<exists>d. next_delay_seconds 3 RetryConfig_default (\<lambda>lo hi. hi) = Returns d \<and> 6 \<le> d \<and> d \<le> 10"
proof -
  have d: "backoff_delay 3 RetryConfig_default = 8"
    using backoff_exponential[of 3 RetryConfig_default] by simp
  have "round_away (8 * 4 / 5) = 6" "round_away (8 * 6 / 5) = 10"
    by (simp_all add: round_away_def floor_eq_iff)
  then show ?thesis
    using next_delay_bounds[of 3 RetryConfig_default "\<lambda>lo hi. hi"]
    by (auto simp: d samples_range_def clamp_def)
qed

text \<open>
  The sixty-fourth attempt does not get a delay: the multiplier \<^verbatim>\<open>1 << 63\<close> is the most
  negative \<^verbatim>\<open>i64\<close>, the cap does not apply to it, and sampling the jitter panics.
\<close>

theorem next_delay_panics_at_64:
  assumes "1 \<le> base_seconds cfg" "0 \<le> max_seconds cfg" "0 < jitter_pct cfg"
  shows "next_delay_seconds 64 cfg r = Panics ''cannot sample empty range''"
proof -
  have "rat_of_int i64_min * jitter_pct cfg < 0" using assms(3) by simp
  then show ?thesis
    using backoff_64[OF assms(1,2)] by (simp add: next_delay_seconds_def Let_def)
qed

theorem next_delay_panics_at_64_witness:
  "next_delay_seconds 64 RetryConfig_default (\<lambda>lo hi. hi) = Panics ''cannot sample empty range''"
  by (rule next_delay_panics_at_64) simp_all

section \<open>Classification of handler errors\<close>

lemma known_codes_check:
  "list_all (\<lambda>c. classify_error (canonical_code c) = classify_error c \<and> to_uppercase (trim c) = c)
     known_codes"
  by (simp add: known_codes_def canonical_code_def classify_error_def to_uppercase_def trim_def
      trim_start_def is_ws_def upper_char_def Let_def)

lemma known_code_class:
  "c \<in> set known_codes \<Longrightarrow> classify_error (canonical_code c) = classify_error c \<and> to_uppercase (trim c) = c"
  using known_codes_check by (simp add: list_all_iff)

lemma classify_error_cong:
  "to_uppercase (trim a) = to_uppercase (trim b) \<Longrightarrow> classify_error a = classify_error b"
  by (simp add: classify_error_def)

lemma handler_error_retryable: "classify_error ''HANDLER_ERROR'' = ErrorClass.Retryable"
  by (simp add: classify_error_def to_uppercase_def trim_def trim_start_def is_ws_def
      upper_char_def Let_def)

text \<open>
  The class of a handler error is decided by the text before its first colon when that
  is one of the known codes, in any case and with surrounding blanks, and is retryable
  otherwise. In particular it is never the panic class, whatever the handler returns.
\<close>

theorem handler_error_class:
  "classify_error (fst (parse_handler_error msg)) =
     (case split_once CHR '':'' msg of
        Some (code, rest) \<Rightarrow>
          if to_uppercase (trim code) \<in> set known_codes then classify_error code
          else ErrorClass.Retryable
      | None \<Rightarrow> ErrorClass.Retryable)"
proof (cases "split_once CHR '':'' msg")
  case (Some cr)
  obtain code rest where cr: "cr = (code, rest)" by (cases cr)
  have "classify_error (canonical_code (to_uppercase (trim code))) = classify_error code"
    if "to_uppercase (trim code) \<in> set known_codes"
    using known_code_class[OF that] classify_error_cong[of "to_uppercase (trim code)" code] by simp
  then show ?thesis
    using Some cr by (simp add: parse_handler_error_def Let_def handler_error_retryable)
qed (simp add: parse_handler_error_def handler_error_retryable)

text \<open>
  Printing an error code and parsing the text gives the code back, and the codes that
  the retry policy treats as final are exactly panic, bad payload, permanent error and
  cancellation.
\<close>

theorem error_code_roundtrip:
  "ErrorCode_from_str (ErrorCode_as_str c) = c
   \<and> (is_retryable (classify_error (ErrorCode_as_str c)) \<longleftrightarrow>
        c \<notin> {ErrorCode.Panic, BadPayload, PermanentError, ErrorCode.Cancelled})"
  by (cases c)
     (simp_all add: ErrorCode_from_str_def classify_error_def to_uppercase_def trim_def
       trim_start_def is_ws_def upper_char_def Let_def)

end
