(* ===== verification/Client_Runtime.thy ===== *)
theory Client_Runtime
  imports Backend_Api Retry_Policy
begin

text \<open>
  The in-process client of \<^verbatim>\<open>azums/src/quickstart.rs\<close>: configuration, the processing of
  a leased batch, failure handling, and the worker loops, over any storage backend.

  What a handler does is the world's choice. For every job of a batch the world says
  whether the timeout fires before the task ends, how the task ends, which heartbeats are
  sent meanwhile, how long it took, and what the clock, the identifier generator and the
  random generator return. Everything between two calls of the backend is local to the
  worker, so the model is the sequence of calls with the decisions between them.
\<close>

section \<open>Configuration\<close>

record QuickstartFlow =
  qf_handlers :: "string list"
  qf_queue_configs :: "(string, QueueConfig) hashmap"
  qf_queue :: string
  qf_worker_id :: string
  qf_lease_seconds :: int
  qf_retry_cfg :: RetryConfig

text \<open>
  The environment variables \<^verbatim>\<open>AZUMS_QUEUE\<close>, \<^verbatim>\<open>AZUMS_WORKER_ID\<close> and
  \<^verbatim>\<open>AZUMS_LEASE_SECONDS\<close> (parsed, when it parses) are arguments.
\<close>

definition QuickstartFlow_new ::
  "string option \<Rightarrow> string option \<Rightarrow> int option \<Rightarrow> QuickstartFlow" where
  "QuickstartFlow_new env_queue env_worker env_lease =
     \<lparr>qf_handlers = [], qf_queue_configs = [],
      qf_queue = (case env_queue of Some q \<Rightarrow> q | None \<Rightarrow> ''default''),
      qf_worker_id = (case env_worker of Some w \<Rightarrow> w | None \<Rightarrow> ''quickstart-worker''),
      qf_lease_seconds = (case env_lease of Some n \<Rightarrow> n | None \<Rightarrow> 10),
      qf_retry_cfg = RetryConfig_default\<rparr>"

definition with_queue :: "QuickstartFlow \<Rightarrow> string \<Rightarrow> QuickstartFlow" where
  "with_queue f queue = f\<lparr>qf_queue := queue\<rparr>"

definition with_worker_id :: "QuickstartFlow \<Rightarrow> string \<Rightarrow> QuickstartFlow" where
  "with_worker_id f w = f\<lparr>qf_worker_id := w\<rparr>"

definition with_lease_seconds :: "QuickstartFlow \<Rightarrow> int \<Rightarrow> QuickstartFlow" where
  "with_lease_seconds f n = f\<lparr>qf_lease_seconds := max n 1\<rparr>"

definition configure_queue :: "QuickstartFlow \<Rightarrow> string \<Rightarrow> QueueConfig \<Rightarrow> QuickstartFlow" where
  "configure_queue f queue config =
     f\<lparr>qf_queue_configs := hm_insert queue config (qf_queue_configs f)\<rparr>"

definition get_queue_config :: "QuickstartFlow \<Rightarrow> string \<Rightarrow> QueueConfig" where
  "get_queue_config f queue =
     (case map_of (qf_queue_configs f) queue of Some c \<Rightarrow> c | None \<Rightarrow> QueueConfig_default)"

definition register_handler :: "QuickstartFlow \<Rightarrow> string \<Rightarrow> QuickstartFlow" where
  "register_handler f job_type = f\<lparr>qf_handlers := List.insert job_type (qf_handlers f)\<rparr>"

section \<open>Enqueueing and forwarding\<close>

definition flow_enqueue :: "'s StorageBackend \<Rightarrow> Env \<Rightarrow> NewJob \<Rightarrow> ('s, uuid) op" where
  "flow_enqueue B env job = sb_enqueue B env job"

fun flow_enqueue_batch :: "'s StorageBackend \<Rightarrow> (nat \<Rightarrow> Env) \<Rightarrow> NewJob list \<Rightarrow> ('s, uuid list) op" where
  "flow_enqueue_batch B envs [] s = (Inr [], s)"
| "flow_enqueue_batch B envs (job # rest) s =
     (case flow_enqueue B (envs 0) job s of
        (Inl e, s') \<Rightarrow> (Inl e, s')
      | (Inr i, s') \<Rightarrow>
          (case flow_enqueue_batch B (\<lambda>k. envs (Suc k)) rest s' of
             (Inl e, s'') \<Rightarrow> (Inl e, s'')
           | (Inr is, s'') \<Rightarrow> (Inr (i # is), s'')))"

definition flow_get_job :: "'s StorageBackend \<Rightarrow> uuid \<Rightarrow> ('s, Job option) op" where
  "flow_get_job B job_id = sb_get_job B job_id"

definition flow_replay_job :: "'s StorageBackend \<Rightarrow> Env \<Rightarrow> uuid \<Rightarrow> ('s, uuid) op" where
  "flow_replay_job B env job_id = sb_replay_job B env job_id None None"

definition flow_cancel_job :: "'s StorageBackend \<Rightarrow> Env \<Rightarrow> uuid \<Rightarrow> string option \<Rightarrow> ('s, unit) op" where
  "flow_cancel_job B env job_id worker_id = sb_cancel_job B env job_id worker_id"

section \<open>The world of one job\<close>

datatype task_result =
    TaskOk
  | TaskErr string
  | TaskPanic string
  | TaskJoinError string

record JobRun =
  jr_timed_out :: bool
  jr_result :: task_result
  jr_heartbeats :: "Env list"
  jr_latency_ms :: int
  jr_env :: Env
  jr_now :: datetime
  jr_rng :: "rat \<Rightarrow> rat \<Rightarrow> rat"

datatype client_error = Failed anyhow | Panicked string

type_synonym ('s, 'r) run = "'s \<Rightarrow> (client_error + 'r) \<times> 's"

definition lift :: "('s, 'r) op \<Rightarrow> ('s, 'r) run" where
  "lift f s = (case f s of (Inl e, s') \<Rightarrow> (Inl (Failed e), s') | (Inr r, s') \<Rightarrow> (Inr r, s'))"

section \<open>Failures\<close>

definition handle_failure ::
  "'s StorageBackend \<Rightarrow> QuickstartFlow \<Rightarrow> JobRun \<Rightarrow> uuid \<Rightarrow> uuid \<Rightarrow> string \<Rightarrow> string \<Rightarrow> int \<Rightarrow> int
     \<Rightarrow> ('s, unit) run" where
  "handle_failure B f w job_id attempt_id error_code error_message attempt_no max_attempts s =
     (let cls = classify_error error_code;
          can_retry = is_retryable cls \<and> attempt_no < max_attempts
      in if can_retry then
           (case next_delay_seconds attempt_no (qf_retry_cfg f) (jr_rng w) of
              Panics msg \<Rightarrow> (Inl (Panicked msg), s)
            | Returns delay_secs \<Rightarrow>
                lift (sb_reschedule_for_retry B (jr_env w) job_id attempt_id (qf_worker_id f)
                        (jr_latency_ms w) (jr_now w + seconds delay_secs)
                        error_code error_message attempt_no) s)
         else
           lift (sb_mark_dlq B (jr_env w) job_id attempt_id (qf_worker_id f) (jr_latency_ms w)
                   (dlq_reason_code cls) error_code error_message attempt_no) s)"

definition starts_with :: "string \<Rightarrow> string \<Rightarrow> bool" where
  "starts_with prefix s \<longleftrightarrow> take (length prefix) s = prefix"

text \<open>\<^verbatim>\<open>trim_start_matches("PANIC: ")\<close>: the prefix is removed as often as it occurs.\<close>

function trim_panic :: "string \<Rightarrow> string" where
  "trim_panic s = (if starts_with ''PANIC: '' s then trim_panic (drop 7 s) else s)"
  by pat_completeness auto
termination
proof (relation "measure length")
  fix s assume "starts_with ''PANIC: '' s"
  then have "s \<noteq> []" by (auto simp: starts_with_def)
  then show "(drop 7 s, s) \<in> measure length" by simp
qed simp

declare trim_panic.simps [simp del]

text \<open>The error text of a task, as \<^verbatim>\<open>anyhow!\<close> and \<^verbatim>\<open>to_string\<close> produce it.\<close>

definition task_error :: "task_result \<Rightarrow> string option" where
  "task_error r =
     (case r of
        TaskOk \<Rightarrow> None
      | TaskErr msg \<Rightarrow> Some msg
      | TaskPanic msg \<Rightarrow> Some (''PANIC: '' @ msg)
      | TaskJoinError msg \<Rightarrow> Some (''task join error: '' @ msg))"

definition res_outcome :: "QuickstartFlow \<Rightarrow> JobRun \<Rightarrow> Job \<Rightarrow> string option" where
  "res_outcome f w job =
     (if j_job_type job \<in> set (qf_handlers f) then task_error (jr_result w)
      else Some (''no handler registered for job_type='' @ j_job_type job))"

definition describe_error :: "QuickstartFlow \<Rightarrow> Job \<Rightarrow> string \<Rightarrow> string \<times> string" where
  "describe_error f job err_str =
     (if starts_with ''PANIC: '' err_str then (''PANIC'', trim_panic err_str)
      else if j_job_type job \<in> set (qf_handlers f) then parse_handler_error err_str
      else (''UNKNOWN_JOB_TYPE'', err_str))"

section \<open>Processing a batch\<close>

text \<open>The heartbeat task: its results are ignored.\<close>

fun send_heartbeats :: "'s StorageBackend \<Rightarrow> QuickstartFlow \<Rightarrow> uuid \<Rightarrow> Env list \<Rightarrow> 's \<Rightarrow> 's" where
  "send_heartbeats B f job_id [] s = s"
| "send_heartbeats B f job_id (env # rest) s =
     send_heartbeats B f job_id rest
       (snd (sb_extend_lease B env job_id (qf_worker_id f) (qf_lease_seconds f) s))"

definition attempt_timed_out :: "QuickstartFlow \<Rightarrow> JobRun \<Rightarrow> Job \<Rightarrow> bool" where
  "attempt_timed_out f w job \<longleftrightarrow>
     j_job_type job \<in> set (qf_handlers f) \<and> j_timeout_seconds job \<noteq> None \<and> jr_timed_out w"

definition conclude_job ::
  "'s StorageBackend \<Rightarrow> QuickstartFlow \<Rightarrow> JobRun \<Rightarrow> Job \<Rightarrow> uuid \<Rightarrow> int \<Rightarrow> ('s, unit) run" where
  "conclude_job B f w job attempt_id attempt_no s =
     (case res_outcome f w job of
        None \<Rightarrow>
          lift (sb_mark_succeeded B (jr_env w) (j_id job) attempt_id (qf_worker_id f)
                  (jr_latency_ms w)) s
      | Some err_str \<Rightarrow>
          (let (err_code, err_msg) = describe_error f job err_str
           in if starts_with ''PANIC: '' err_str then
                lift (sb_mark_dlq B (jr_env w) (j_id job) attempt_id (qf_worker_id f)
                        (jr_latency_ms w) ''PANIC'' err_code err_msg attempt_no) s
              else
                handle_failure B f w (j_id job) attempt_id err_code err_msg attempt_no
                  (j_max_attempts job) s))"

fun process_loop ::
  "'s StorageBackend \<Rightarrow> QuickstartFlow \<Rightarrow> (nat \<Rightarrow> JobRun) \<Rightarrow> Job list
     \<Rightarrow> (uuid, uuid \<times> int) hashmap \<Rightarrow> ('s, unit) run" where
  "process_loop B f world [] attempts_map s = (Inr (), s)"
| "process_loop B f world (job # rest) attempts_map s =
     (case map_of attempts_map (j_id job) of
        None \<Rightarrow> process_loop B f (\<lambda>k. world (Suc k)) rest attempts_map s
      | Some (attempt_id, attempt_no) \<Rightarrow>
          (let w = world 0;
               attempts_map' = hm_remove (j_id job) attempts_map;
               s1 = send_heartbeats B f (j_id job) (jr_heartbeats w) s
           in if attempt_timed_out f w job then
                handle_failure B f w (j_id job) attempt_id ''TIMEOUT''
                  ''job attempt exceeded timeout_seconds'' attempt_no (j_max_attempts job) s1
              else
                (case conclude_job B f w job attempt_id attempt_no s1 of
                   (Inl e, s2) \<Rightarrow> (Inl e, s2)
                 | (Inr _, s2) \<Rightarrow>
                     process_loop B f (\<lambda>k. world (Suc k)) rest attempts_map' s2)))"

text \<open>\<^verbatim>\<open>started_attempts.into_iter().map(..).collect()\<close>\<close>

definition attempts_table :: "(uuid \<times> uuid \<times> int) list \<Rightarrow> (uuid, uuid \<times> int) hashmap" where
  "attempts_table started = fold (\<lambda>r. hm_insert (fst r) (snd r)) started []"

definition process_batch ::
  "'s StorageBackend \<Rightarrow> QuickstartFlow \<Rightarrow> Env \<Rightarrow> (nat \<Rightarrow> JobRun) \<Rightarrow> Job list \<Rightarrow> ('s, unit) run" where
  "process_batch B f env world batch s =
     (case sb_start_attempts_batch B env (map j_dataset_id batch) (map j_id batch) (qf_worker_id f) s of
        (Inl e, s') \<Rightarrow> (Inl (Failed e), s')
      | (Inr started_attempts, s') \<Rightarrow>
          process_loop B f world batch (attempts_table started_attempts) s')"

section \<open>Worker loops\<close>

text \<open>What the world supplies for one round of a worker loop.\<close>

record Round =
  rd_lease_env :: Env
  rd_start_env :: Env
  rd_jobs :: "nat \<Rightarrow> JobRun"

definition lease_round :: "'s StorageBackend \<Rightarrow> QuickstartFlow \<Rightarrow> Env \<Rightarrow> ('s, Job list) op" where
  "lease_round B f env =
     sb_lease_jobs_batch_with_ordering B env (qf_queue f) (qf_worker_id f) (qf_lease_seconds f) 32
       (qc_ordering (get_queue_config f (qf_queue f)))"

text \<open>
  \<^verbatim>\<open>run_until_empty\<close> with a bound on the number of rounds; \<^term>\<open>None\<close> means that the
  bound was reached.
\<close>

fun run_until_empty ::
  "nat \<Rightarrow> 's StorageBackend \<Rightarrow> QuickstartFlow \<Rightarrow> (nat \<Rightarrow> Round) \<Rightarrow> nat \<Rightarrow> 's
     \<Rightarrow> ((client_error + nat) \<times> 's) option" where
  "run_until_empty 0 B f rounds processed s = None"
| "run_until_empty (Suc fuel) B f rounds processed s =
     (let r = rounds 0
      in case lease_round B f (rd_lease_env r) s of
           (Inl e, s') \<Rightarrow> Some (Inl (Failed e), s')
         | (Inr batch, s') \<Rightarrow>
             if batch = [] then Some (Inr processed, s')
             else
               (case process_batch B f (rd_start_env r) (rd_jobs r) batch s' of
                  (Inl e, s'') \<Rightarrow> Some (Inl e, s'')
                | (Inr _, s'') \<Rightarrow>
                    run_until_empty fuel B f (\<lambda>k. rounds (Suc k)) (processed + length batch) s''))"

text \<open>
  One pass of \<^verbatim>\<open>run_with_shutdown\<close> after the shutdown test: the periodic reaping and
  maintenance (their errors are ignored), the lease, and the batch. The two intervals
  have elapsed or not as the world says; waiting for a notification changes nothing here.
\<close>

record Tick =
  tk_round :: Round
  tk_reap :: "Env option"
  tk_maintenance :: "Env option"

definition worker_tick :: "'s StorageBackend \<Rightarrow> QuickstartFlow \<Rightarrow> Tick \<Rightarrow> ('s, unit) run" where
  "worker_tick B f t s =
     (let s1 = (case tk_reap t of None \<Rightarrow> s | Some env \<Rightarrow> snd (sb_reap_expired_locks B env s));
          s2 = (case tk_maintenance t of None \<Rightarrow> s1 | Some env \<Rightarrow> snd (sb_perform_maintenance B env s1));
          r = tk_round t
      in case lease_round B f (rd_lease_env r) s2 of
           (Inl e, s3) \<Rightarrow> (Inl (Failed e), s3)
         | (Inr batch, s3) \<Rightarrow>
             if batch = [] then (Inr (), s3)
             else process_batch B f (rd_start_env r) (rd_jobs r) batch s3)"

text \<open>
  \<^verbatim>\<open>run_with_shutdown\<close>: a subscription whose failure is ignored, then ticks until the token
  is cancelled or a tick fails.
\<close>

fun worker_loop ::
  "'s StorageBackend \<Rightarrow> QuickstartFlow \<Rightarrow> Tick list \<Rightarrow> ('s, unit) run" where
  "worker_loop B f [] s = (Inr (), s)"
| "worker_loop B f (t # ts) s =
     (case worker_tick B f t s of
        (Inl e, s') \<Rightarrow> (Inl e, s')
      | (Inr _, s') \<Rightarrow> worker_loop B f ts s')"

definition run_with_shutdown ::
  "'s StorageBackend \<Rightarrow> QuickstartFlow \<Rightarrow> Tick list \<Rightarrow> ('s, unit) run" where
  "run_with_shutdown B f ticks s = worker_loop B f ticks (snd (sb_subscribe B (qf_queue f) s))"

end
