(* ===== verification/Backend_Contract.thy ===== *)
theory Backend_Contract
  imports Client_Runtime
begin

text \<open>
  The contract between the worker and its storage, as a locale: what leasing, starting
  attempts, reporting outcomes and heartbeats promise, in terms of the stored jobs, the
  open attempts, the identifiers in use, the datasets jobs are found under and the lease
  durations the storage accepts. Inside the locale, the client's obligations:
  every job of a batch is settled with the status its outcome calls for, and a worker that
  runs until its queue is empty stops.
\<close>

section \<open>Vocabulary\<close>

definition held_by :: "(uuid \<Rightarrow> Job option) \<Rightarrow> string \<Rightarrow> uuid \<Rightarrow> bool" where
  "held_by J w i \<longleftrightarrow>
     (\<exists>j. J i = Some j \<and> j_status j = ''running'' \<and> j_locked_by j = Some w)"

definition status_of :: "(uuid \<Rightarrow> Job option) \<Rightarrow> uuid \<Rightarrow> string option" where
  "status_of J i = map_option j_status (J i)"

text \<open>The status an outcome calls for.\<close>

definition failure_status :: "string \<Rightarrow> int \<Rightarrow> int \<Rightarrow> string" where
  "failure_status code attempt_no max_attempts =
     (if is_retryable (classify_error code) \<and> attempt_no < max_attempts then ''queued'' else ''dlq'')"

definition expected_status :: "QuickstartFlow \<Rightarrow> JobRun \<Rightarrow> Job \<Rightarrow> int \<Rightarrow> string" where
  "expected_status f w job attempt_no =
     (case res_outcome f w job of
        None \<Rightarrow> ''succeeded''
      | Some err \<Rightarrow>
          if starts_with ''PANIC: '' err then ''dlq''
          else failure_status (fst (describe_error f job err)) attempt_no (j_max_attempts job))"

definition sane_retry :: "RetryConfig \<Rightarrow> bool" where
  "sane_retry cfg \<longleftrightarrow> 0 \<le> base_seconds cfg \<and> 0 \<le> max_seconds cfg \<and> 0 \<le> jitter_pct cfg"

lemma sane_delay:
  "sane_retry cfg \<Longrightarrow> n < m \<Longrightarrow> m \<le> 64 \<Longrightarrow> \<exists>d. next_delay_seconds n cfg r = Returns d"
  using next_delay_returns[of n cfg r] by (auto simp: sane_retry_def)

text \<open>
  An outcome whose report cannot panic: success, or a failure under a sane configuration
  with at most 64 attempts.
\<close>

definition retry_safe :: "QuickstartFlow \<Rightarrow> JobRun \<Rightarrow> Job \<Rightarrow> bool" where
  "retry_safe f w job \<longleftrightarrow>
     res_outcome f w job = None
     \<or> sane_retry (qf_retry_cfg f) \<and> j_max_attempts job \<le> 64"

lemma fold_insert_other:
  "i \<notin> fst ` set rs \<Longrightarrow> map_of (fold (\<lambda>r. hm_insert (fst r) (snd r)) rs m) i = map_of m i"
  by (induction rs arbitrary: m) auto

lemma fold_insert_lookup:
  "distinct (map fst rs) \<Longrightarrow> r \<in> set rs \<Longrightarrow>
     map_of (fold (\<lambda>r. hm_insert (fst r) (snd r)) rs m) (fst r) = Some (snd r)"
  by (induction rs arbitrary: m) (auto simp: fold_insert_other)

lemma attempts_table_lookup:
  "distinct (map fst rs) \<Longrightarrow> r \<in> set rs \<Longrightarrow> map_of (attempts_table rs) (fst r) = Some (snd r)"
  by (simp add: attempts_table_def fold_insert_lookup)

text \<open>
  The identifiers a batch may draw: for its attempts from the environment of the start
  call, and one per job for a next occurrence. They are new and all different.
\<close>

definition new_id :: "(nat \<Rightarrow> JobRun) \<Rightarrow> nat \<Rightarrow> uuid" where
  "new_id world k = e_fresh (jr_env (world k)) 0"

definition fresh_batch :: "Env \<Rightarrow> (nat \<Rightarrow> JobRun) \<Rightarrow> uuid set \<Rightarrow> bool" where
  "fresh_batch env world U \<longleftrightarrow>
     inj (e_fresh env) \<and> inj (new_id world)
     \<and> range (e_fresh env) \<inter> U = {} \<and> range (new_id world) \<inter> U = {}
     \<and> range (e_fresh env) \<inter> range (new_id world) = {}"

lemma fresh_batch_new:
  assumes "fresh_batch env world U" "U' \<subseteq> U \<union> range (e_fresh env)"
  shows "new_id world k \<notin> U'"
proof -
  have "range (new_id world) \<inter> U = {}" "range (e_fresh env) \<inter> range (new_id world) = {}"
    using assms(1) by (simp_all add: fresh_batch_def)
  then show ?thesis using assms(2) by (metis IntI UnE empty_iff rangeI subsetD)
qed

definition round_ids :: "Round \<Rightarrow> uuid set" where
  "round_ids r = range (e_fresh (rd_start_env r)) \<union> range (new_id (rd_jobs r))"

definition fresh_rounds :: "(nat \<Rightarrow> Round) \<Rightarrow> uuid set \<Rightarrow> bool" where
  "fresh_rounds rounds U \<longleftrightarrow>
     (\<forall>r. fresh_batch (rd_start_env (rounds r)) (rd_jobs (rounds r)) U)
     \<and> (\<forall>r r'. r \<noteq> r' \<longrightarrow> round_ids (rounds r) \<inter> round_ids (rounds r') = {})"

lemma fresh_rounds_step:
  assumes "fresh_rounds rounds U" "U' \<subseteq> U \<union> round_ids (rounds 0)"
  shows "fresh_rounds (\<lambda>r. rounds (Suc r)) U'"
proof -
  have "round_ids (rounds (Suc r)) \<inter> U = {}" for r
    using assms(1) by (simp add: fresh_rounds_def fresh_batch_def round_ids_def Int_Un_distrib2)
  moreover have "round_ids (rounds (Suc r)) \<inter> round_ids (rounds 0) = {}" for r
    using assms(1) by (simp add: fresh_rounds_def)
  ultimately have "round_ids (rounds (Suc r)) \<inter> U' = {}" for r using assms(2) by blast
  then show ?thesis
    using assms(1) by (simp add: fresh_rounds_def fresh_batch_def round_ids_def Int_Un_distrib2)
qed

text \<open>The jobs of a queue that wait for a worker, and a world in which every task succeeds.\<close>

definition waiting :: "(uuid \<Rightarrow> Job option) \<Rightarrow> string \<Rightarrow> uuid set" where
  "waiting J q = {i. \<exists>j. J i = Some j \<and> j_status j = ''queued'' \<and> j_queue j = q}"

definition all_tasks_ok :: "(nat \<Rightarrow> Round) \<Rightarrow> bool" where
  "all_tasks_ok rounds \<longleftrightarrow>
     (\<forall>r k. jr_result (rd_jobs (rounds r) k) = TaskOk \<and> \<not> jr_timed_out (rd_jobs (rounds r) k))"

definition runnable :: "QuickstartFlow \<Rightarrow> (uuid \<Rightarrow> Job option) \<Rightarrow> bool" where
  "runnable f J \<longleftrightarrow>
     (\<forall>i j. J i = Some j \<longrightarrow> j_status j = ''queued'' \<longrightarrow> j_queue j = qf_queue f
        \<longrightarrow> j_job_type j \<in> set (qf_handlers f) \<and> j_recurring_interval_seconds j = None)"

lemma ok_outcome:
  assumes "jr_result w = TaskOk" "\<not> jr_timed_out w" "j_job_type job \<in> set (qf_handlers f)"
  shows "retry_safe f w job" "\<not> attempt_timed_out f w job" "expected_status f w job n = ''succeeded''"
  using assms by (simp_all add: retry_safe_def attempt_timed_out_def expected_status_def
      res_outcome_def task_error_def)

section \<open>The contract\<close>

locale worker_storage =
  fixes B :: "'s StorageBackend"
    and inv :: "'s \<Rightarrow> bool"
    and stored :: "'s \<Rightarrow> uuid \<Rightarrow> Job option"
    and opened :: "'s \<Rightarrow> uuid \<Rightarrow> uuid \<Rightarrow> bool"
    and used :: "'s \<Rightarrow> uuid set"
    and located :: "'s \<Rightarrow> string \<Rightarrow> uuid \<Rightarrow> bool"
    and accepts :: "int \<Rightarrow> bool"
  assumes used_law: "inv s \<Longrightarrow> stored s i = Some j \<Longrightarrow> i \<in> used s"
    and finite_law: "inv s \<Longrightarrow> finite (used s)"
    and lease_law: "inv s \<Longrightarrow> accepts ls \<Longrightarrow>
      \<exists>js s'. sb_lease_jobs_batch_with_ordering B env q w ls bs policy s = (Inr js, s')
        \<and> inv s' \<and> distinct (map j_id js) \<and> used s' = used s \<and> opened s' = opened s
        \<and> (\<forall>j \<in> set js. stored s' (j_id j) = Some j \<and> held_by (stored s') w (j_id j)
             \<and> located s' (j_dataset_id j) (j_id j)
             \<and> (\<exists>old. stored s (j_id j) = Some old \<and> j_status old = ''queued''
                    \<and> j_queue old = q \<and> j_job_type j = j_job_type old
                    \<and> j_recurring_interval_seconds j = j_recurring_interval_seconds old))
        \<and> (\<forall>k. k \<notin> j_id ` set js \<longrightarrow>
             stored s' k = stored s k
             \<or> k \<in> waiting (stored s) q \<and> status_of (stored s') k = Some ''dlq'')"
    and start_law: "inv s \<Longrightarrow> inj (e_fresh env) \<Longrightarrow> range (e_fresh env) \<inter> used s = {} \<Longrightarrow>
      (\<forall>i \<in> set is. held_by (stored s) w i) \<Longrightarrow> distinct is \<Longrightarrow> list_all2 (located s) ds is \<Longrightarrow>
      \<exists>rs s'. sb_start_attempts_batch B env ds is w s = (Inr rs, s')
        \<and> inv s' \<and> map fst rs = is \<and> stored s' = stored s
        \<and> (\<forall>(i, a, n) \<in> set rs. opened s' a i)
        \<and> used s' \<subseteq> used s \<union> range (e_fresh env)"
    and succeed_law: "inv s \<Longrightarrow> held_by (stored s) w i \<Longrightarrow> opened s a i \<Longrightarrow>
      e_fresh env 0 \<notin> used s \<Longrightarrow>
      \<exists>s'. sb_mark_succeeded B env i a w l s = (Inr (), s') \<and> inv s'
        \<and> status_of (stored s') i = Some ''succeeded''
        \<and> (\<forall>k. k \<noteq> i \<longrightarrow> k \<noteq> e_fresh env 0 \<longrightarrow> stored s' k = stored s k)
        \<and> (\<forall>j. stored s i = Some j \<longrightarrow> j_recurring_interval_seconds j = None \<longrightarrow> used s' = used s)
        \<and> (\<forall>a' k. k \<noteq> i \<longrightarrow> opened s a' k \<longrightarrow> opened s' a' k)
        \<and> used s' \<subseteq> insert (e_fresh env 0) (used s)"
    and retry_law: "inv s \<Longrightarrow> held_by (stored s) w i \<Longrightarrow> opened s a i \<Longrightarrow>
      \<exists>s'. sb_reschedule_for_retry B env i a w l t c m n s = (Inr (), s') \<and> inv s'
        \<and> status_of (stored s') i = Some ''queued''
        \<and> (\<forall>k. k \<noteq> i \<longrightarrow> stored s' k = stored s k)
        \<and> (\<forall>a' k. k \<noteq> i \<longrightarrow> opened s a' k \<longrightarrow> opened s' a' k)
        \<and> used s' = used s"
    and dlq_law: "inv s \<Longrightarrow> held_by (stored s) w i \<Longrightarrow> opened s a i \<Longrightarrow>
      \<exists>s'. sb_mark_dlq B env i a w l r c m n s = (Inr (), s') \<and> inv s'
        \<and> status_of (stored s') i = Some ''dlq''
        \<and> (\<forall>k. k \<noteq> i \<longrightarrow> stored s' k = stored s k)
        \<and> (\<forall>a' k. k \<noteq> i \<longrightarrow> opened s a' k \<longrightarrow> opened s' a' k)
        \<and> used s' = used s"
    and extend_law: "inv s \<Longrightarrow>
      inv (snd (sb_extend_lease B env i w ls s))
        \<and> (\<forall>k. k \<noteq> i \<longrightarrow> stored (snd (sb_extend_lease B env i w ls s)) k = stored s k)
        \<and> (\<forall>j. stored s i = Some j \<longrightarrow>
             (\<exists>e u. stored (snd (sb_extend_lease B env i w ls s)) i =
                 Some (j\<lparr>j_lock_expires_at := e, j_updated_at := u\<rparr>)))
        \<and> opened (snd (sb_extend_lease B env i w ls s)) = opened s
        \<and> used (snd (sb_extend_lease B env i w ls s)) = used s"
begin

abbreviation held :: "'s \<Rightarrow> string \<Rightarrow> uuid \<Rightarrow> bool" where
  "held s w i \<equiv> held_by (stored s) w i"

text \<open>What one outcome may change: job \<open>i\<close>, and at most one new identifier.\<close>

definition settles :: "'s \<Rightarrow> 's \<Rightarrow> uuid \<Rightarrow> string \<Rightarrow> uuid \<Rightarrow> bool" where
  "settles s s' i st x \<longleftrightarrow>
     inv s' \<and> status_of (stored s') i = Some st
     \<and> (\<forall>k. k \<noteq> i \<longrightarrow> k \<noteq> x \<longrightarrow> stored s' k = stored s k)
     \<and> (\<forall>a k. k \<noteq> i \<longrightarrow> opened s a k \<longrightarrow> opened s' a k)
     \<and> used s' \<subseteq> insert x (used s)
     \<and> (\<forall>j. stored s i = Some j \<longrightarrow> j_recurring_interval_seconds j = None \<longrightarrow> used s' = used s)"

lemma heartbeats_keep:
  assumes "inv s"
  shows "inv (send_heartbeats B f i hs s)
    \<and> (\<forall>k. k \<noteq> i \<longrightarrow> stored (send_heartbeats B f i hs s) k = stored s k)
    \<and> (\<forall>j. stored s i = Some j \<longrightarrow>
         (\<exists>e u. stored (send_heartbeats B f i hs s) i = Some (j\<lparr>j_lock_expires_at := e, j_updated_at := u\<rparr>)))
    \<and> opened (send_heartbeats B f i hs s) = opened s
    \<and> used (send_heartbeats B f i hs s) = used s"
  using assms
proof (induction hs arbitrary: s)
  case Nil
  have "\<exists>e u. j = j\<lparr>j_lock_expires_at := e, j_updated_at := u\<rparr>" for j :: Job
    by (intro exI[of _ "j_lock_expires_at j"] exI[of _ "j_updated_at j"]) simp
  then show ?case using Nil by simp
next
  case (Cons h hs)
  let ?s = "snd (sb_extend_lease B h i (qf_worker_id f) (qf_lease_seconds f) s)"
  note law = extend_law[OF Cons.prems, of h i "qf_worker_id f" "qf_lease_seconds f"]
  note IH = Cons.IH[OF conjunct1[OF law]]
  have "\<exists>e u. stored (send_heartbeats B f i hs ?s) i = Some (j\<lparr>j_lock_expires_at := e, j_updated_at := u\<rparr>)"
    if j: "stored s i = Some j" for j
  proof -
    from law j obtain e u where "stored ?s i = Some (j\<lparr>j_lock_expires_at := e, j_updated_at := u\<rparr>)" by blast
    from IH this obtain e' u' where "stored (send_heartbeats B f i hs ?s) i =
      Some (j\<lparr>j_lock_expires_at := e, j_updated_at := u, j_lock_expires_at := e', j_updated_at := u'\<rparr>)"
      by blast
    then show ?thesis by auto
  qed
  then show ?case using IH law by simp
qed

lemma heartbeats_held:
  assumes "inv s" "held s w k"
  shows "held (send_heartbeats B f i hs s) w k"
proof (cases "k = i")
  case True
  with heartbeats_keep[OF assms(1), of f i hs] assms(2) show ?thesis by (fastforce simp: held_by_def)
next
  case False
  with heartbeats_keep[OF assms(1), of f i hs] assms(2) show ?thesis by (simp add: held_by_def)
qed

lemma retry_settles:
  assumes "inv s" "held s w i" "opened s a i"
  shows "\<exists>s'. sb_reschedule_for_retry B env i a w l t c m n s = (Inr (), s') \<and> settles s s' i ''queued'' x"
proof -
  from retry_law[OF assms, of env l t c m n] obtain s' where
    s': "sb_reschedule_for_retry B env i a w l t c m n s = (Inr (), s')" "inv s'"
    "status_of (stored s') i = Some ''queued''" "\<forall>k. k \<noteq> i \<longrightarrow> stored s' k = stored s k"
    "\<forall>a' k. k \<noteq> i \<longrightarrow> opened s a' k \<longrightarrow> opened s' a' k" "used s' = used s" by blast
  then have "settles s s' i ''queued'' x" unfolding settles_def by blast
  with s'(1) show ?thesis by blast
qed

lemma dlq_settles:
  assumes "inv s" "held s w i" "opened s a i"
  shows "\<exists>s'. sb_mark_dlq B env i a w l r c m n s = (Inr (), s') \<and> settles s s' i ''dlq'' x"
proof -
  from dlq_law[OF assms, of env l r c m n] obtain s' where
    s': "sb_mark_dlq B env i a w l r c m n s = (Inr (), s')" "inv s'"
    "status_of (stored s') i = Some ''dlq''" "\<forall>k. k \<noteq> i \<longrightarrow> stored s' k = stored s k"
    "\<forall>a' k. k \<noteq> i \<longrightarrow> opened s a' k \<longrightarrow> opened s' a' k" "used s' = used s" by blast
  then have "settles s s' i ''dlq'' x" unfolding settles_def by blast
  with s'(1) show ?thesis by blast
qed

lemma succeed_settles:
  assumes "inv s" "held s w i" "opened s a i" "e_fresh env 0 \<notin> used s"
  shows "\<exists>s'. sb_mark_succeeded B env i a w l s = (Inr (), s')
    \<and> settles s s' i ''succeeded'' (e_fresh env 0)"
proof -
  from succeed_law[OF assms, of l] obtain s' where
    s': "sb_mark_succeeded B env i a w l s = (Inr (), s')" "inv s'"
    "status_of (stored s') i = Some ''succeeded''"
    "\<forall>k. k \<noteq> i \<longrightarrow> k \<noteq> e_fresh env 0 \<longrightarrow> stored s' k = stored s k"
    "\<forall>a' k. k \<noteq> i \<longrightarrow> opened s a' k \<longrightarrow> opened s' a' k"
    "used s' \<subseteq> insert (e_fresh env 0) (used s)"
    "\<forall>j. stored s i = Some j \<longrightarrow> j_recurring_interval_seconds j = None \<longrightarrow> used s' = used s" by blast
  then have "settles s s' i ''succeeded'' (e_fresh env 0)" unfolding settles_def by blast
  with s'(1) show ?thesis by blast
qed

lemma lift_ok: "f s = (Inr r, s') \<Longrightarrow> lift f s = (Inr r, s')"
  by (simp add: lift_def)

lemma failure_settles:
  assumes inv: "inv s" and h: "held s (qf_worker_id f) i" and a: "opened s a i"
    and cfg: "sane_retry (qf_retry_cfg f)" and m: "max_attempts \<le> 64"
  shows "\<exists>s'. handle_failure B f w i a code msg n max_attempts s = (Inr (), s')
    \<and> settles s s' i (failure_status code n max_attempts) x"
proof (cases "is_retryable (classify_error code) \<and> n < max_attempts")
  case True
  then obtain d where d: "next_delay_seconds n (qf_retry_cfg f) (jr_rng w) = Returns d"
    using sane_delay[OF cfg _ m] by blast
  from retry_settles[OF inv h a, of "jr_env w" "jr_latency_ms w" "jr_now w + seconds d" code msg n x]
  show ?thesis using True d
    by (auto simp: handle_failure_def failure_status_def lift_ok)
next
  case False
  from dlq_settles[OF inv h a, of "jr_env w" "jr_latency_ms w" "dlq_reason_code (classify_error code)"
      code msg n x]
  show ?thesis using False
    by (auto simp: handle_failure_def failure_status_def lift_ok)
qed

lemma conclude_settles:
  assumes inv: "inv s" and h: "held s (qf_worker_id f) (j_id job)" and a: "opened s a (j_id job)"
    and safe: "retry_safe f w job" and fresh: "e_fresh (jr_env w) 0 \<notin> used s"
  shows "\<exists>s'. conclude_job B f w job a n s = (Inr (), s')
    \<and> settles s s' (j_id job) (expected_status f w job n) (e_fresh (jr_env w) 0)"
proof (cases "res_outcome f w job")
  case None
  with succeed_settles[OF inv h a fresh, of "jr_latency_ms w"] show ?thesis
    by (auto simp: conclude_job_def expected_status_def lift_ok)
next
  case (Some err)
  then have cfg: "sane_retry (qf_retry_cfg f)" and m: "j_max_attempts job \<le> 64"
    using safe by (simp_all add: retry_safe_def)
  obtain c msg where d: "describe_error f job err = (c, msg)" by fastforce
  show ?thesis
  proof (cases "starts_with ''PANIC: '' err")
    case True
    with dlq_settles[OF inv h a, of "jr_env w" "jr_latency_ms w" "''PANIC''" c msg n "e_fresh (jr_env w) 0"]
    show ?thesis using Some d by (auto simp: conclude_job_def expected_status_def lift_ok)
  next
    case False
    with failure_settles[OF inv h a cfg m, of w c msg n "e_fresh (jr_env w) 0"]
    show ?thesis using Some d by (simp add: conclude_job_def expected_status_def)
  qed
qed

text \<open>A batch that was leased and whose attempts were started.\<close>

definition batch_ready ::
  "QuickstartFlow \<Rightarrow> (uuid, uuid \<times> int) hashmap \<Rightarrow> Job list \<Rightarrow> 's \<Rightarrow> bool" where
  "batch_ready f m batch s \<longleftrightarrow>
     inv s \<and> distinct (map j_id batch)
     \<and> (\<forall>j \<in> set batch. held s (qf_worker_id f) (j_id j)
          \<and> (\<exists>a n. map_of m (j_id j) = Some (a, n) \<and> opened s a (j_id j)))"

definition fresh_world :: "(nat \<Rightarrow> JobRun) \<Rightarrow> nat \<Rightarrow> 's \<Rightarrow> bool" where
  "fresh_world world n s \<longleftrightarrow>
     (\<forall>k < n. new_id world k \<notin> used s)
     \<and> (\<forall>k l. k < n \<longrightarrow> l < n \<longrightarrow> k \<noteq> l \<longrightarrow> new_id world k \<noteq> new_id world l)"

lemma fresh_world_step:
  assumes "fresh_world world (Suc n) s" "used s' \<subseteq> insert (new_id world 0) (used s)"
  shows "fresh_world (\<lambda>k. world (Suc k)) n s'"
proof -
  have "new_id world (Suc k) \<notin> used s'" if "k < n" for k
    using assms that unfolding fresh_world_def by (metis insertE Suc_mono nat.distinct(1) subsetD zero_less_Suc)
  then show ?thesis
    using assms(1) by (auto simp: fresh_world_def new_id_def)
qed

lemma heartbeats_ready:
  assumes "batch_ready f m batch s"
  shows "batch_ready f m batch (send_heartbeats B f i hs s)"
  using assms heartbeats_keep[of s f i hs] heartbeats_held[of s] by (simp add: batch_ready_def)

lemma settles_ready:
  assumes ready: "batch_ready f m (job # rest) s" and st: "settles s s' (j_id job) stt x" "x \<notin> used s"
  shows "batch_ready f (hm_remove (j_id job) m) rest s'"
proof -
  have inv: "inv s" using ready by (simp add: batch_ready_def)
  have "held s' (qf_worker_id f) (j_id j)
      \<and> (\<exists>a n. map_of (hm_remove (j_id job) m) (j_id j) = Some (a, n) \<and> opened s' a (j_id j))"
    if "j \<in> set rest" for j
  proof -
    have ne: "j_id j \<noteq> j_id job" using ready imageI[OF that, of j_id] by (auto simp: batch_ready_def)
    have h: "held s (qf_worker_id f) (j_id j)" using ready that by (simp add: batch_ready_def)
    then have "j_id j \<noteq> x" using used_law[OF inv] st(2) by (auto simp: held_by_def)
    then have "stored s' (j_id j) = stored s (j_id j)" using st(1) ne by (simp add: settles_def)
    moreover obtain a n where "map_of m (j_id j) = Some (a, n)" "opened s a (j_id j)"
      using ready \<open>j \<in> set rest\<close> by (auto simp: batch_ready_def)
    moreover from this have "opened s' a (j_id j)" using st(1) ne by (simp add: settles_def)
    ultimately show ?thesis using h ne by (simp add: held_by_def)
  qed
  then show ?thesis using ready st(1) by (simp add: batch_ready_def settles_def)
qed

definition outcome_fits :: "QuickstartFlow \<Rightarrow> (nat \<Rightarrow> JobRun) \<Rightarrow> (uuid, uuid \<times> int) hashmap \<Rightarrow> Job list \<Rightarrow> 's \<Rightarrow> bool" where
  "outcome_fits f world m batch s' \<longleftrightarrow>
     (\<forall>k < length batch. status_of (stored s') (j_id (batch ! k)) =
        Some (expected_status f (world k) (batch ! k) (snd (the (map_of m (j_id (batch ! k)))))))"

lemma process_step:
  assumes ready: "batch_ready f m (job # rest) s" and safe: "retry_safe f (world 0) job"
    and live: "\<not> attempt_timed_out f (world 0) job"
    and fresh: "new_id world 0 \<notin> used s"
  obtains a n s2 where "map_of m (j_id job) = Some (a, n)"
    "process_loop B f world (job # rest) m s =
       process_loop B f (\<lambda>k. world (Suc k)) rest (hm_remove (j_id job) m) s2"
    "batch_ready f (hm_remove (j_id job) m) rest s2"
    "status_of (stored s2) (j_id job) = Some (expected_status f (world 0) job n)"
    "\<forall>i. i \<noteq> j_id job \<longrightarrow> i \<noteq> new_id world 0 \<longrightarrow> stored s2 i = stored s i"
    "used s2 \<subseteq> insert (new_id world 0) (used s)"
    "\<forall>j. stored s (j_id job) = Some j \<longrightarrow> j_recurring_interval_seconds j = None \<longrightarrow> used s2 = used s"
proof -
  obtain a n where an: "map_of m (j_id job) = Some (a, n)" "opened s a (j_id job)"
    using ready by (auto simp: batch_ready_def)
  let ?s1 = "send_heartbeats B f (j_id job) (jr_heartbeats (world 0)) s"
  have inv: "inv s" using ready by (simp add: batch_ready_def)
  note hb = heartbeats_keep[OF inv, of f "j_id job" "jr_heartbeats (world 0)"]
  have r1: "batch_ready f m (job # rest) ?s1" by (rule heartbeats_ready[OF ready])
  have fresh1: "new_id world 0 \<notin> used ?s1" using fresh hb by simp
  have "inv ?s1" "held ?s1 (qf_worker_id f) (j_id job)" using r1 by (simp_all add: batch_ready_def)
  from conclude_settles[OF this _ safe, of a n] an(2) hb fresh1
  obtain s2 where s2: "conclude_job B f (world 0) job a n ?s1 = (Inr (), s2)"
    "settles ?s1 s2 (j_id job) (expected_status f (world 0) job n) (new_id world 0)"
    by (auto simp: new_id_def)
  have "used s2 = used s" if j: "stored s (j_id job) = Some j" "j_recurring_interval_seconds j = None" for j
  proof -
    from hb j(1) obtain e u where
      "stored ?s1 (j_id job) = Some (j\<lparr>j_lock_expires_at := e, j_updated_at := u\<rparr>)" by blast
    then show ?thesis using s2(2) j(2) hb by (simp add: settles_def)
  qed
  then show thesis
    using that[OF an(1) _ settles_ready[OF r1 s2(2) fresh1]] an(1) live s2 hb
    by (simp add: Let_def settles_def)
qed

lemma new_id_shift:
  "new_id world ` {..<Suc n} = insert (new_id world 0) (new_id (\<lambda>k. world (Suc k)) ` {..<n})"
  by (auto simp: lessThan_Suc_eq_insert_0 image_image new_id_def)

lemma outcome_fits_Cons:
  assumes "map_of m (j_id job) = Some (a, n)" "j_id job \<notin> j_id ` set rest"
    and "status_of (stored s) (j_id job) = Some (expected_status f (world 0) job n)"
    and "outcome_fits f (\<lambda>k. world (Suc k)) (hm_remove (j_id job) m) rest s"
  shows "outcome_fits f world m (job # rest) s"
  unfolding outcome_fits_def
proof (intro allI impI)
  fix k assume k: "k < length (job # rest)"
  have "map_of (hm_remove (j_id job) m) (j_id (rest ! l)) = map_of m (j_id (rest ! l))"
    if "l < length rest" for l
    using that assms(2) by (metis fun_upd_other image_eqI map_of_remove nth_mem)
  then show "status_of (stored s) (j_id ((job # rest) ! k)) = Some (expected_status f (world k)
      ((job # rest) ! k) (snd (the (map_of m (j_id ((job # rest) ! k))))))"
    using assms k by (cases k) (auto simp: outcome_fits_def)
qed

definition plain_jobs :: "Job list \<Rightarrow> 's \<Rightarrow> bool" where
  "plain_jobs batch s \<longleftrightarrow>
     (\<forall>j \<in> set batch. \<forall>j'. stored s (j_id j) = Some j' \<longrightarrow> j_recurring_interval_seconds j' = None)"

text \<open>
  The jobs at the front of a batch whose handlers do not time out are processed one by one, and
  the jobs behind them wait untouched.
\<close>

lemma process_prefix:
  assumes "batch_ready f m (pre @ rest) s"
    and "\<forall>k < length pre. retry_safe f (world k) (pre ! k)"
    and "\<forall>k < length pre. \<not> attempt_timed_out f (world k) (pre ! k)"
    and "fresh_world world (length pre) s"
  shows "\<exists>m' s'. process_loop B f world (pre @ rest) m s
        = process_loop B f (\<lambda>k. world (k + length pre)) rest m' s'
    \<and> batch_ready f m' rest s' \<and> outcome_fits f world m pre s'
    \<and> (\<forall>j \<in> set rest. map_of m' (j_id j) = map_of m (j_id j))
    \<and> (\<forall>i. i \<notin> j_id ` set pre \<longrightarrow> i \<notin> new_id world ` {..<length pre} \<longrightarrow> stored s' i = stored s i)
    \<and> used s' \<subseteq> used s \<union> new_id world ` {..<length pre}
    \<and> (plain_jobs pre s \<longrightarrow> used s' = used s)"
  using assms
proof (induction pre arbitrary: world m s)
  case Nil
  then show ?case by (intro exI[of _ m] exI[of _ s]) (simp add: outcome_fits_def)
next
  case (Cons job pre)
  let ?m = "hm_remove (j_id job) m" and ?world = "\<lambda>k. world (Suc k)"
  from Cons.prems(2-4) have job: "retry_safe f (world 0) job" "\<not> attempt_timed_out f (world 0) job"
    "new_id world 0 \<notin> used s" by (auto simp: fresh_world_def)
  have ready: "batch_ready f m (job # (pre @ rest)) s" using Cons.prems(1) by simp
  from process_step[OF ready job] obtain a n s2 where s2:
    "map_of m (j_id job) = Some (a, n)"
    "process_loop B f world (job # (pre @ rest)) m s = process_loop B f ?world (pre @ rest) ?m s2"
    "batch_ready f ?m (pre @ rest) s2"
    "status_of (stored s2) (j_id job) = Some (expected_status f (world 0) job n)"
    "\<forall>i. i \<noteq> j_id job \<longrightarrow> i \<noteq> new_id world 0 \<longrightarrow> stored s2 i = stored s i"
    "used s2 \<subseteq> insert (new_id world 0) (used s)"
    "\<forall>j. stored s (j_id job) = Some j \<longrightarrow> j_recurring_interval_seconds j = None \<longrightarrow> used s2 = used s"
    by blast
  have tail: "\<forall>k < length pre. \<not> attempt_timed_out f (?world k) (pre ! k)"
    "\<forall>k < length pre. retry_safe f (?world k) (pre ! k)"
    "fresh_world ?world (length pre) s2"
    using Cons.prems(2-4) fresh_world_step[OF _ s2(6)] by fastforce+
  from Cons.IH[OF s2(3) tail(2,1,3)]
  obtain m' s3 where s3: "process_loop B f ?world (pre @ rest) ?m s2 =
      process_loop B f (\<lambda>k. ?world (k + length pre)) rest m' s3"
    "batch_ready f m' rest s3" "outcome_fits f ?world ?m pre s3"
    "\<forall>j \<in> set rest. map_of m' (j_id j) = map_of ?m (j_id j)"
    "\<forall>i. i \<notin> j_id ` set pre \<longrightarrow> i \<notin> new_id ?world ` {..<length pre} \<longrightarrow> stored s3 i = stored s2 i"
    "used s3 \<subseteq> used s2 \<union> new_id ?world ` {..<length pre}"
    "plain_jobs pre s2 \<longrightarrow> used s3 = used s2"
    by auto
  have dist: "j_id job \<notin> j_id ` set pre" "j_id job \<notin> j_id ` set rest" and inv: "inv s"
    and h: "\<forall>j \<in> set (job # pre). held s (qf_worker_id f) (j_id j)"
    using Cons.prems(1) by (auto simp: batch_ready_def)
  have ids: "\<forall>j \<in> set (job # pre). j_id j \<in> used s" using used_law[OF inv] h by (fastforce simp: held_by_def)
  then have "j_id job \<notin> new_id ?world ` {..<length pre}"
    using Cons.prems(4) by (auto simp: fresh_world_def new_id_def)
  then have "status_of (stored s3) (j_id job) = Some (expected_status f (world 0) job n)"
    using s3(5) dist s2(4) by (simp add: status_of_def)
  from outcome_fits_Cons[OF s2(1) dist(1) this s3(3)]
  have fits: "outcome_fits f world m (job # pre) s3" .
  have used3: "used s3 \<subseteq> used s \<union> new_id world ` {..<length (job # pre)}"
    using s3(6) s2(6) unfolding list.size new_id_shift add_0_right add_Suc_right by auto
  have "stored s2 (j_id j) = stored s (j_id j)" if "j \<in> set pre" for j
    using s2(5) that dist ids job(3) by (metis image_eqI list.set_intros(2))
  then have plain: "used s3 = used s" if "plain_jobs (job # pre) s"
    using that s3(7) s2(7) h by (auto simp: plain_jobs_def held_by_def)
  have frame: "stored s3 i = stored s i"
    if "i \<notin> j_id ` set (job # pre)" "i \<notin> new_id world ` {..<length (job # pre)}" for i
    using that s3(5) s2(5) by (auto simp: new_id_shift)
  have same: "map_of m' (j_id j) = map_of m (j_id j)" if "j \<in> set rest" for j
    using s3(4) that dist(2) by (metis fun_upd_other image_eqI map_of_remove)
  have "process_loop B f world ((job # pre) @ rest) m s
      = process_loop B f (\<lambda>k. world (k + length (job # pre))) rest m' s3"
    using s2(2) s3(1) by simp
  then show ?case using s3(2) fits same frame used3 plain by (intro exI[of _ m'] exI[of _ s3]) blast
qed

lemma process_loop_settles:
  assumes "batch_ready f m batch s"
    and "\<forall>k < length batch. retry_safe f (world k) (batch ! k)"
    and "\<forall>k < length batch. \<not> attempt_timed_out f (world k) (batch ! k)"
    and "fresh_world world (length batch) s"
  shows "\<exists>s'. process_loop B f world batch m s = (Inr (), s') \<and> inv s'
    \<and> outcome_fits f world m batch s'
    \<and> (\<forall>i. i \<notin> j_id ` set batch \<longrightarrow> i \<notin> new_id world ` {..<length batch} \<longrightarrow> stored s' i = stored s i)
    \<and> used s' \<subseteq> used s \<union> new_id world ` {..<length batch}
    \<and> (plain_jobs batch s \<longrightarrow> used s' = used s)"
  using process_prefix[of f m batch "[]" s world] assms by (auto simp: batch_ready_def)

lemma batch_start:
  assumes inv: "inv s" and dist: "distinct (map j_id batch)"
    and h: "\<forall>j \<in> set batch. held s (qf_worker_id f) (j_id j)" and fresh: "fresh_batch env world (used s)"
    and loc: "\<forall>j \<in> set batch. located s (j_dataset_id j) (j_id j)"
  obtains rs s1 where
    "sb_start_attempts_batch B env (map j_dataset_id batch) (map j_id batch) (qf_worker_id f) s = (Inr rs, s1)"
    "map fst rs = map j_id batch" "stored s1 = stored s" "batch_ready f (attempts_table rs) batch s1"
    "used s1 \<subseteq> used s \<union> range (e_fresh env)" "fresh_world world n s1"
    "process_batch B f env world batch s = process_loop B f world batch (attempts_table rs) s1"
proof -
  have env: "inj (e_fresh env)" "range (e_fresh env) \<inter> used s = {}"
    using fresh by (simp_all add: fresh_batch_def)
  have "\<forall>i \<in> set (map j_id batch). held s (qf_worker_id f) i" using h by simp
  moreover have "list_all2 (located s) (map j_dataset_id batch) (map j_id batch)"
    using loc by (simp add: list_all2_map1 list_all2_map2 list_all2_same)
  ultimately obtain rs s1 where st:
    "sb_start_attempts_batch B env (map j_dataset_id batch) (map j_id batch) (qf_worker_id f) s = (Inr rs, s1)"
    "inv s1" "map fst rs = map j_id batch" "stored s1 = stored s"
    "\<forall>(i, a, n) \<in> set rs. opened s1 a i" "used s1 \<subseteq> used s \<union> range (e_fresh env)"
    using start_law[OF inv env _ dist] by blast
  have "\<exists>a n. map_of (attempts_table rs) (j_id j) = Some (a, n) \<and> opened s1 a (j_id j)"
    if "j \<in> set batch" for j
  proof -
    have "j_id j \<in> fst ` set rs" using st(3) that by (metis image_eqI list.set_map)
    then obtain a n where r: "(j_id j, a, n) \<in> set rs" by auto
    from attempts_table_lookup[OF _ r] st(3) dist r st(5) show ?thesis by fastforce
  qed
  then have ready: "batch_ready f (attempts_table rs) batch s1"
    using st(2,4) dist h by (simp add: batch_ready_def)
  have "new_id world k \<notin> used s1" for k by (rule fresh_batch_new[OF fresh st(6)])
  moreover have "new_id world k \<noteq> new_id world l" if "k \<noteq> l" for k l
    using fresh injD[of "new_id world" k l] that by (auto simp: fresh_batch_def)
  ultimately have "fresh_world world n s1" by (simp add: fresh_world_def)
  then show thesis using that[OF st(1,3,4) ready st(6)] st(1) by (simp add: process_batch_def)
qed

lemma process_batch_settles:
  assumes "inv s" "distinct (map j_id batch)"
    and "\<forall>j \<in> set batch. held s (qf_worker_id f) (j_id j)" "fresh_batch env world (used s)"
    and "\<forall>k < length batch. retry_safe f (world k) (batch ! k)"
    and "\<forall>k < length batch. \<not> attempt_timed_out f (world k) (batch ! k)"
    and "\<forall>j \<in> set batch. located s (j_dataset_id j) (j_id j)"
  shows "\<exists>rs s'. fst (sb_start_attempts_batch B env (map j_dataset_id batch) (map j_id batch)
                        (qf_worker_id f) s) = Inr rs
    \<and> map fst rs = map j_id batch
    \<and> process_batch B f env world batch s = (Inr (), s') \<and> inv s'
    \<and> (\<forall>k < length batch. status_of (stored s') (j_id (batch ! k)) =
         Some (expected_status f (world k) (batch ! k) (snd (snd (rs ! k)))))
    \<and> (\<forall>i. i \<notin> j_id ` set batch \<longrightarrow> i \<notin> range (new_id world) \<longrightarrow> stored s' i = stored s i)
    \<and> used s' \<subseteq> used s \<union> range (e_fresh env) \<union> range (new_id world)
    \<and> (plain_jobs batch s \<longrightarrow> used s' \<subseteq> used s \<union> range (e_fresh env))"
proof -
  from batch_start[OF assms(1-4,7), of "length batch"] obtain rs s1 where st:
    "sb_start_attempts_batch B env (map j_dataset_id batch) (map j_id batch) (qf_worker_id f) s = (Inr rs, s1)"
    "map fst rs = map j_id batch" "stored s1 = stored s" "batch_ready f (attempts_table rs) batch s1"
    "used s1 \<subseteq> used s \<union> range (e_fresh env)" "fresh_world world (length batch) s1"
    "process_batch B f env world batch s = process_loop B f world batch (attempts_table rs) s1" by blast
  from process_loop_settles[OF st(4) assms(5,6) st(6)] obtain s' where s':
    "process_loop B f world batch (attempts_table rs) s1 = (Inr (), s')" "inv s'"
    "outcome_fits f world (attempts_table rs) batch s'"
    "\<forall>i. i \<notin> j_id ` set batch \<longrightarrow> i \<notin> new_id world ` {..<length batch} \<longrightarrow> stored s' i = stored s1 i"
    "used s' \<subseteq> used s1 \<union> new_id world ` {..<length batch}"
    "plain_jobs batch s1 \<longrightarrow> used s' = used s1" by blast
  have no: "snd (the (map_of (attempts_table rs) (j_id (batch ! k)))) = snd (snd (rs ! k))"
    if k: "k < length batch" for k
  proof -
    have len: "k < length rs" using st(2) k by (metis length_map)
    have "fst (rs ! k) = j_id (batch ! k)" using st(2) k len by (metis nth_map)
    then show ?thesis using attempts_table_lookup[OF _ nth_mem[OF len]] st(2) assms(2) by simp
  qed
  have "plain_jobs batch s1 = plain_jobs batch s" by (simp add: plain_jobs_def st(3))
  then show ?thesis
    using st(1,2,3,5,7) s' no by (intro exI[of _ rs] exI[of _ s']) (auto simp: outcome_fits_def)
qed

text \<open>
  A timeout ends the whole batch: the jobs before the one that timed out are settled, that one is
  reported as failed, and the jobs after it keep their lease and are not reported.
\<close>

lemma process_loop_timeout:
  assumes ready: "batch_ready f m (pre @ job # post) s"
    and pre: "\<forall>k < length pre. retry_safe f (world k) (pre ! k)"
      "\<forall>k < length pre. \<not> attempt_timed_out f (world k) (pre ! k)" "fresh_world world (length pre) s"
    and late: "attempt_timed_out f (world (length pre)) job"
    and cfg: "sane_retry (qf_retry_cfg f)" "j_max_attempts job \<le> 64"
  shows "\<exists>s'. process_loop B f world (pre @ job # post) m s = (Inr (), s') \<and> inv s'
    \<and> outcome_fits f world m pre s'
    \<and> status_of (stored s') (j_id job) =
        Some (failure_status ''TIMEOUT'' (snd (the (map_of m (j_id job)))) (j_max_attempts job))
    \<and> (\<forall>i. i \<notin> j_id ` set pre \<longrightarrow> i \<noteq> j_id job \<longrightarrow> i \<notin> new_id world ` {..<length pre}
         \<longrightarrow> stored s' i = stored s i)"
proof -
  from process_prefix[OF ready pre] obtain m' s1 where
    run: "process_loop B f world (pre @ job # post) m s
        = process_loop B f (\<lambda>k. world (k + length pre)) (job # post) m' s1"
    and r1: "batch_ready f m' (job # post) s1" and fits: "outcome_fits f world m pre s1"
    and m': "map_of m' (j_id job) = map_of m (j_id job)"
    and frame: "\<forall>i. i \<notin> j_id ` set pre \<longrightarrow> i \<notin> new_id world ` {..<length pre} \<longrightarrow> stored s1 i = stored s i"
    by auto
  let ?w = "world (length pre)"
  let ?s2 = "send_heartbeats B f (j_id job) (jr_heartbeats ?w) s1"
  have r: "batch_ready f m' (job # post) ?s2" by (rule heartbeats_ready[OF r1])
  then obtain a n where an: "map_of m' (j_id job) = Some (a, n)" "opened ?s2 a (j_id job)"
    and inv: "inv ?s2" and h: "held ?s2 (qf_worker_id f) (j_id job)"
    by (auto simp: batch_ready_def)
  have "\<exists>x. x \<notin> used ?s2" using finite_law[OF inv] ex_new_if_finite infinite_UNIV_nat by blast
  then obtain x where x: "x \<notin> used ?s2" ..
  have st: "\<exists>s'. handle_failure B f ?w (j_id job) a ''TIMEOUT''
      ''job attempt exceeded timeout_seconds'' n (j_max_attempts job) ?s2 = (Inr (), s')
      \<and> settles ?s2 s' (j_id job) (failure_status ''TIMEOUT'' n (j_max_attempts job)) y" for y
    by (rule failure_settles[OF inv h an(2) cfg])
  obtain s' where s': "handle_failure B f ?w (j_id job) a ''TIMEOUT''
      ''job attempt exceeded timeout_seconds'' n (j_max_attempts job) ?s2 = (Inr (), s')" using st by blast
  have settled: "settles ?s2 s' (j_id job) (failure_status ''TIMEOUT'' n (j_max_attempts job)) y" for y
    using st[of y] s' by auto
  have same: "stored s' i = stored s1 i" if i: "i \<noteq> j_id job" for i
  proof -
    have "stored s' i = stored ?s2 i"
      using settled[of "Suc i"] i by (auto simp: settles_def)
    then show ?thesis using heartbeats_keep[of s1 f "j_id job" "jr_heartbeats ?w"] r1 i
      by (simp add: batch_ready_def)
  qed
  have "j_id job \<notin> j_id ` set pre" using ready by (auto simp: batch_ready_def)
  then have "stored s' (j_id (pre ! k)) = stored s1 (j_id (pre ! k))" if "k < length pre" for k
    using same nth_mem[OF that] by (metis image_eqI)
  then have "outcome_fits f world m pre s'"
    using fits by (simp add: outcome_fits_def status_of_def)
  moreover have "process_loop B f world (pre @ job # post) m s = (Inr (), s')"
    unfolding run using an(1) late s' by (simp add: Let_def)
  moreover have "inv s'" "status_of (stored s') (j_id job) =
      Some (failure_status ''TIMEOUT'' (snd (the (map_of m (j_id job)))) (j_max_attempts job))"
    using settled[of 0] an(1) m' by (simp_all add: settles_def)
  ultimately show ?thesis using same frame by auto
qed

end

text \<open>How many jobs of a batch are processed before the first handler times out.\<close>

fun before_timeout :: "QuickstartFlow \<Rightarrow> (nat \<Rightarrow> JobRun) \<Rightarrow> Job list \<Rightarrow> nat" where
  "before_timeout f world [] = 0"
| "before_timeout f world (job # rest) =
     (if attempt_timed_out f (world 0) job then 0
      else Suc (before_timeout f (\<lambda>k. world (Suc k)) rest))"

lemma before_timeout_le: "before_timeout f world batch \<le> length batch"
  by (induction f world batch rule: before_timeout.induct) auto

lemma before_timeout_live:
  "k < before_timeout f world batch \<Longrightarrow> \<not> attempt_timed_out f (world k) (batch ! k)"
proof (induction f world batch arbitrary: k rule: before_timeout.induct)
  case (2 f world job rest)
  then show ?case by (cases k) (auto split: if_splits)
qed simp

lemma before_timeout_late:
  "before_timeout f world batch < length batch \<Longrightarrow>
     attempt_timed_out f (world (before_timeout f world batch)) (batch ! before_timeout f world batch)"
  by (induction f world batch rule: before_timeout.induct) auto

context worker_storage
begin

lemma process_batch_outcome:
  assumes "inv s" "distinct (map j_id batch)"
    and "\<forall>j \<in> set batch. held s (qf_worker_id f) (j_id j)" "fresh_batch env world (used s)"
    and "\<forall>k < length batch. retry_safe f (world k) (batch ! k)"
    and "\<forall>k < length batch. attempt_timed_out f (world k) (batch ! k) \<longrightarrow>
           sane_retry (qf_retry_cfg f) \<and> j_max_attempts (batch ! k) \<le> 64"
    and "\<forall>j \<in> set batch. located s (j_dataset_id j) (j_id j)"
    and t: "t = before_timeout f world batch"
  shows "\<exists>rs s'. fst (sb_start_attempts_batch B env (map j_dataset_id batch) (map j_id batch)
                        (qf_worker_id f) s) = Inr rs
    \<and> process_batch B f env world batch s = (Inr (), s') \<and> inv s'
    \<and> (\<forall>k < t. status_of (stored s') (j_id (batch ! k)) =
         Some (expected_status f (world k) (batch ! k) (snd (snd (rs ! k)))))
    \<and> (t < length batch \<longrightarrow> status_of (stored s') (j_id (batch ! t)) =
         Some (failure_status ''TIMEOUT'' (snd (snd (rs ! t))) (j_max_attempts (batch ! t))))
    \<and> (\<forall>i. i \<notin> j_id ` set (take (Suc t) batch) \<longrightarrow> i \<notin> range (new_id world) \<longrightarrow> stored s' i = stored s i)"
proof -
  from batch_start[OF assms(1-4,7), of t] obtain rs s1 where st:
    "sb_start_attempts_batch B env (map j_dataset_id batch) (map j_id batch) (qf_worker_id f) s = (Inr rs, s1)"
    "map fst rs = map j_id batch" "stored s1 = stored s" "batch_ready f (attempts_table rs) batch s1"
    "fresh_world world t s1"
    "process_batch B f env world batch s = process_loop B f world batch (attempts_table rs) s1" by blast
  have no: "snd (the (map_of (attempts_table rs) (j_id (batch ! k)))) = snd (snd (rs ! k))"
    if k: "k < length batch" for k
  proof -
    have len: "k < length rs" using st(2) k by (metis length_map)
    have "fst (rs ! k) = j_id (batch ! k)" using st(2) k len by (metis nth_map)
    then show ?thesis using attempts_table_lookup[OF _ nth_mem[OF len]] st(2) assms(2) by simp
  qed
  have le: "t \<le> length batch" unfolding t by (rule before_timeout_le)
  have live: "\<forall>k < t. retry_safe f (world k) (batch ! k)" "\<forall>k < t. \<not> attempt_timed_out f (world k) (batch ! k)"
    using assms(5) le before_timeout_live[of _ f world batch] unfolding t by auto
  have len: "length (take t batch) = t" using le by simp
  show ?thesis
  proof (cases "t < length batch")
    case False
    then have all: "t = length batch" using le by simp
    from process_loop_settles[OF st(4), of world] live st(5) obtain s' where s':
      "process_loop B f world batch (attempts_table rs) s1 = (Inr (), s')" "inv s'"
      "outcome_fits f world (attempts_table rs) batch s'"
      "\<forall>i. i \<notin> j_id ` set batch \<longrightarrow> i \<notin> new_id world ` {..<length batch} \<longrightarrow> stored s' i = stored s1 i"
      unfolding all by blast
    then show ?thesis using st(1,3,6) no all
      by (intro exI[of _ rs] exI[of _ s']) (auto simp: outcome_fits_def)
  next
    case True
    have split: "take t batch @ batch ! t # drop (Suc t) batch = batch" by (rule id_take_nth_drop[OF True, symmetric])
    have late: "attempt_timed_out f (world t) (batch ! t)" using before_timeout_late[of f world batch] True t by simp
    then have cfg: "sane_retry (qf_retry_cfg f)" "j_max_attempts (batch ! t) \<le> 64" using assms(6) True by auto
    have pre: "\<forall>k < length (take t batch). retry_safe f (world k) (take t batch ! k)"
      "\<forall>k < length (take t batch). \<not> attempt_timed_out f (world k) (take t batch ! k)"
      using live by simp_all
    from process_loop_timeout[of f "attempts_table rs" "take t batch" "batch ! t" "drop (Suc t) batch" s1 world,
        unfolded split len, OF st(4) pre[unfolded len] st(5) late cfg]
    obtain s' where s': "process_loop B f world batch (attempts_table rs) s1 = (Inr (), s')" "inv s'"
      "outcome_fits f world (attempts_table rs) (take t batch) s'"
      "status_of (stored s') (j_id (batch ! t)) =
        Some (failure_status ''TIMEOUT'' (snd (the (map_of (attempts_table rs) (j_id (batch ! t))))) (j_max_attempts (batch ! t)))"
      "\<forall>i. i \<notin> j_id ` set (take t batch) \<longrightarrow> i \<noteq> j_id (batch ! t) \<longrightarrow> i \<notin> new_id world ` {..<t}
         \<longrightarrow> stored s' i = stored s1 i" by blast
    have "\<forall>k < t. status_of (stored s') (j_id (batch ! k)) =
         Some (expected_status f (world k) (batch ! k) (snd (snd (rs ! k))))"
      using s'(3) no True by (simp add: outcome_fits_def)
    moreover have "set (take (Suc t) batch) = insert (batch ! t) (set (take t batch))"
      using True by (simp add: take_Suc_conv_app_nth)
    ultimately show ?thesis using st(1,3,6) s' no[OF True]
      by (intro exI[of _ rs] exI[of _ s']) auto
  qed
qed

lemma abandoned_untouched:
  assumes "inv s" "distinct (map j_id batch)"
    and "\<forall>j \<in> set batch. held s (qf_worker_id f) (j_id j)" "fresh_batch env world (used s)"
    and frame: "\<forall>i. i \<notin> j_id ` set (take n batch) \<longrightarrow> i \<notin> range (new_id world) \<longrightarrow> stored s' i = stored s i"
    and j: "j \<in> set (drop n batch)"
  shows "stored s' (j_id j) = stored s (j_id j)" "held s' (qf_worker_id f) (j_id j)"
proof -
  have "set (take n (map j_id batch)) \<inter> set (drop n (map j_id batch)) = {}"
    by (rule set_take_disj_set_drop_if_distinct[OF assms(2) order_refl])
  then have "j_id j \<notin> j_id ` set (take n batch)" using j by (auto simp: take_map drop_map)
  moreover have h: "held s (qf_worker_id f) (j_id j)" using assms(3) j in_set_dropD by fastforce
  then have "j_id j \<in> used s" using used_law[OF assms(1)] by (auto simp: held_by_def)
  then have "j_id j \<notin> range (new_id world)" using assms(4) by (auto simp: fresh_batch_def)
  ultimately show same: "stored s' (j_id j) = stored s (j_id j)" using frame by blast
  then show "held s' (qf_worker_id f) (j_id j)" using h by (simp add: held_by_def)
qed

end

section \<open>Running until the queue is empty\<close>

text \<open>
  A storage whose empty answer to a lease call means that no job of the queue is due.
\<close>

locale job_backend = worker_storage B inv stored opened used located accepts
  for B :: "'s StorageBackend" and inv stored opened used located accepts +
  assumes drained_law: "inv s \<Longrightarrow> accepts ls \<Longrightarrow>
      sb_lease_jobs_batch_with_ordering B env q w ls bs policy s = (Inr [], s') \<Longrightarrow> 0 < bs \<Longrightarrow>
      stored s' k = Some j \<Longrightarrow> j_status j = ''queued'' \<Longrightarrow> j_queue j = q \<Longrightarrow> e_now env < j_run_at j"
begin

text \<open>One round: the leased jobs succeed, the rest of the queue waits or has expired.\<close>

lemma drain_round:
  assumes inv: "inv s" and ok: "all_tasks_ok rounds" and run: "runnable f (stored s)"
    and fresh: "fresh_rounds rounds (used s)"
    and lease: "lease_round B f (rd_lease_env (rounds 0)) s = (Inr batch, s1)" and ne: "batch \<noteq> []"
    and acc: "accepts (qf_lease_seconds f)"
  obtains s2 where
    "process_batch B f (rd_start_env (rounds 0)) (rd_jobs (rounds 0)) batch s1 = (Inr (), s2)"
    "inv s2" "used s2 \<subseteq> used s \<union> round_ids (rounds 0)" "distinct (map j_id batch)"
    "j_id ` set batch \<subseteq> waiting (stored s) (qf_queue f)"
    "\<And>i. i \<in> j_id ` set batch \<Longrightarrow> status_of (stored s2) i = Some ''succeeded''"
    "\<And>i. i \<notin> j_id ` set batch \<Longrightarrow> stored s2 i = stored s i
       \<or> i \<in> waiting (stored s) (qf_queue f) \<and> status_of (stored s2) i = Some ''dlq''"
proof -
  let ?w = "rd_jobs (rounds 0)" and ?env = "rd_start_env (rounds 0)"
  from lease_law[OF inv acc, of "rd_lease_env (rounds 0)" "qf_queue f" "qf_worker_id f"
      32 "qc_ordering (get_queue_config f (qf_queue f))"] lease
  have l: "inv s1" "distinct (map j_id batch)" "used s1 = used s"
    "\<forall>j \<in> set batch. stored s1 (j_id j) = Some j \<and> held s1 (qf_worker_id f) (j_id j)
       \<and> located s1 (j_dataset_id j) (j_id j)
       \<and> (\<exists>old. stored s (j_id j) = Some old \<and> j_status old = ''queued'' \<and> j_queue old = qf_queue f
            \<and> j_job_type j = j_job_type old
            \<and> j_recurring_interval_seconds j = j_recurring_interval_seconds old)"
    "\<forall>k. k \<notin> j_id ` set batch \<longrightarrow> stored s1 k = stored s k
       \<or> k \<in> waiting (stored s) (qf_queue f) \<and> status_of (stored s1) k = Some ''dlq''"
    by (auto simp: lease_round_def)
  have handled: "j_job_type j \<in> set (qf_handlers f)" "j_recurring_interval_seconds j = None"
    if "j \<in> set batch" for j
    using l(4) that run unfolding runnable_def by metis+
  have safe: "\<forall>k < length batch. retry_safe f (?w k) (batch ! k)"
    "\<forall>k < length batch. \<not> attempt_timed_out f (?w k) (batch ! k)"
    using ok handled(1) ok_outcome(1,2) by (simp_all add: all_tasks_ok_def)
  have plain: "plain_jobs batch s1" using l(4) handled(2) by (auto simp: plain_jobs_def)
  have fb: "fresh_batch ?env ?w (used s1)" using fresh l(3) by (simp add: fresh_rounds_def)
  have hb: "\<forall>j \<in> set batch. held s1 (qf_worker_id f) (j_id j)" using l(4) by blast
  have loc: "\<forall>j \<in> set batch. located s1 (j_dataset_id j) (j_id j)" using l(4) by blast
  from process_batch_settles[OF l(1,2) hb fb safe loc] obtain rs :: "(uuid \<times> uuid \<times> int) list" and s2 where s2:
    "process_batch B f ?env ?w batch s1 = (Inr (), s2)" "inv s2"
    "\<forall>k < length batch. status_of (stored s2) (j_id (batch ! k)) =
       Some (expected_status f (?w k) (batch ! k) (snd (snd (rs ! k))))"
    "\<forall>i. i \<notin> j_id ` set batch \<longrightarrow> i \<notin> range (new_id ?w) \<longrightarrow> stored s2 i = stored s1 i"
    "plain_jobs batch s1 \<longrightarrow> used s2 \<subseteq> used s1 \<union> range (e_fresh ?env)"
    by blast
  have used2: "used s2 \<subseteq> used s1 \<union> range (e_fresh ?env)" using s2(5) plain by blast
  have same: "stored s2 i = stored s1 i" if "i \<notin> j_id ` set batch" for i
  proof (cases "i \<in> range (new_id ?w)")
    case True
    then have "i \<notin> used s2" "i \<notin> used s1"
      using fresh_batch_new[OF fb used2] fresh_batch_new[OF fb, of "used s1"] by auto
    then show ?thesis using used_law[OF s2(2)] used_law[OF l(1)] by (metis not_None_eq)
  qed (use s2(4) that in simp)
  have fin: "status_of (stored s2) i = Some ''succeeded''" if "i \<in> j_id ` set batch" for i
  proof -
    from that obtain k where k: "k < length batch" "i = j_id (batch ! k)" by (auto simp: in_set_conv_nth)
    have "expected_status f (?w k) (batch ! k) n = ''succeeded''" for n
      using ok_outcome(3) ok handled(1)[OF nth_mem[OF k(1)]] by (simp add: all_tasks_ok_def)
    then show ?thesis using s2(3) k by simp
  qed
  have "j_id ` set batch \<subseteq> waiting (stored s) (qf_queue f)" using l(4) by (auto simp: waiting_def)
  moreover have "used s2 \<subseteq> used s \<union> round_ids (rounds 0)"
    using used2 l(3) by (auto simp: round_ids_def)
  ultimately show thesis
    using that[OF s2(1,2) _ l(2)] fin same l(5) by (simp add: status_of_def)
qed

lemma waiting_finite: "inv s \<Longrightarrow> finite (waiting (stored s) q)"
  by (rule finite_subset[OF _ finite_law]) (auto simp: waiting_def intro: used_law)

lemma status_of_queued: "i \<in> waiting (stored s) q \<Longrightarrow> status_of (stored s) i = Some ''queued''"
  by (auto simp: waiting_def status_of_def)

lemma waiting_round:
  assumes sub: "I \<subseteq> waiting (stored s) q"
    and fin: "\<And>i. i \<in> I \<Longrightarrow> status_of (stored s2) i = Some ''succeeded''"
    and oth: "\<And>i. i \<notin> I \<Longrightarrow> stored s2 i = stored s i
       \<or> i \<in> waiting (stored s) q \<and> status_of (stored s2) i = Some ''dlq''"
  shows "waiting (stored s2) q \<subseteq> waiting (stored s) q - I"
proof
  fix i assume i: "i \<in> waiting (stored s2) q"
  then have st: "status_of (stored s2) i = Some ''queued''" by (rule status_of_queued)
  then have "i \<notin> I" using fin by fastforce
  moreover have "stored s2 i = stored s i" using oth[OF calculation] st by auto
  ultimately show "i \<in> waiting (stored s) q - I" using i by (simp add: waiting_def)
qed

lemma runnable_round:
  assumes "runnable f (stored s)" "waiting (stored s2) (qf_queue f) \<subseteq> waiting (stored s) (qf_queue f) - I"
    and "\<And>i. i \<notin> I \<Longrightarrow> stored s2 i = stored s i
       \<or> i \<in> waiting (stored s) (qf_queue f) \<and> status_of (stored s2) i = Some ''dlq''"
  shows "runnable f (stored s2)"
  unfolding runnable_def
proof (intro allI impI)
  fix i j assume j: "stored s2 i = Some j" "j_status j = ''queued''" "j_queue j = qf_queue f"
  then have "i \<in> waiting (stored s2) (qf_queue f)" by (simp add: waiting_def)
  then have "i \<notin> I" "status_of (stored s2) i = Some ''queued''" using assms(2) status_of_queued by auto
  then have "stored s i = Some j" using assms(3)[of i] j(1) by auto
  then show "j_job_type j \<in> set (qf_handlers f) \<and> j_recurring_interval_seconds j = None"
    using assms(1) j(2,3) by (simp add: runnable_def)
qed

text \<open>What a finished run leaves behind, relative to the state it started in.\<close>

definition drained :: "QuickstartFlow \<Rightarrow> (nat \<Rightarrow> Round) \<Rightarrow> 's \<Rightarrow> nat \<Rightarrow> 's \<Rightarrow> bool" where
  "drained f rounds s n s' \<longleftrightarrow>
     inv s'
     \<and> n = card {i \<in> waiting (stored s) (qf_queue f). status_of (stored s') i = Some ''succeeded''}
     \<and> (\<forall>i \<in> waiting (stored s) (qf_queue f).
          status_of (stored s') i \<in> {Some ''succeeded'', Some ''dlq'', Some ''queued''})
     \<and> (\<exists>r. \<forall>i j. stored s' i = Some j \<longrightarrow> j_status j = ''queued'' \<longrightarrow> j_queue j = qf_queue f
          \<longrightarrow> e_now (rd_lease_env (rounds r)) < j_run_at j)
     \<and> (\<forall>i. i \<notin> waiting (stored s) (qf_queue f) \<longrightarrow> status_of (stored s') i = status_of (stored s) i)"

lemma drained_empty:
  assumes inv: "inv s" and lease: "lease_round B f (rd_lease_env (rounds 0)) s = (Inr [], s1)"
    and acc: "accepts (qf_lease_seconds f)"
  shows "drained f rounds s 0 s1"
proof -
  let ?W = "waiting (stored s) (qf_queue f)"
  from lease_law[OF inv acc, of "rd_lease_env (rounds 0)" "qf_queue f" "qf_worker_id f"
      32 "qc_ordering (get_queue_config f (qf_queue f))"] lease
  have l: "inv s1" "\<forall>k. stored s1 k = stored s k \<or> k \<in> ?W \<and> status_of (stored s1) k = Some ''dlq''"
    by (auto simp: lease_round_def)
  have due: "\<forall>k j. stored s1 k = Some j \<longrightarrow> j_status j = ''queued'' \<longrightarrow> j_queue j = qf_queue f
       \<longrightarrow> e_now (rd_lease_env (rounds 0)) < j_run_at j"
    using drained_law[OF inv acc lease[unfolded lease_round_def]] by auto
  have out: "status_of (stored s1) i = status_of (stored s) i" if "i \<notin> ?W" for i
    using l(2) that by (metis status_of_def)
  have ins: "status_of (stored s1) i \<in> {Some ''dlq'', Some ''queued''}" if "i \<in> ?W" for i
    using l(2) status_of_queued[OF that] by (metis insertCI status_of_def)
  then have "{i \<in> ?W. status_of (stored s1) i = Some ''succeeded''} = {}" by fastforce
  then have "0 = card {i \<in> ?W. status_of (stored s1) i = Some ''succeeded''}" by (simp only: card.empty)
  moreover have "\<forall>i \<in> ?W. status_of (stored s1) i \<in> {Some ''succeeded'', Some ''dlq'', Some ''queued''}"
    using ins by blast
  ultimately show ?thesis unfolding drained_def using l(1) due out by blast
qed

lemma drained_step:
  assumes inv: "inv s"
    and sub: "I \<subseteq> waiting (stored s) (qf_queue f)"
    and fin: "\<And>i. i \<in> I \<Longrightarrow> status_of (stored s2) i = Some ''succeeded''"
    and oth: "\<And>i. i \<notin> I \<Longrightarrow> stored s2 i = stored s i
       \<or> i \<in> waiting (stored s) (qf_queue f) \<and> status_of (stored s2) i = Some ''dlq''"
    and rest: "drained f (\<lambda>r. rounds (Suc r)) s2 n s'"
  shows "drained f rounds s (card I + n) s'"
proof -
  let ?W = "waiting (stored s) (qf_queue f)" and ?W2 = "waiting (stored s2) (qf_queue f)"
  have W2: "?W2 \<subseteq> ?W - I" by (rule waiting_round[OF sub fin oth])
  have out2: "status_of (stored s') i = status_of (stored s2) i" if "i \<notin> ?W2" for i
    using rest that by (simp add: drained_def)
  have in_I: "status_of (stored s') i = Some ''succeeded''" if "i \<in> I" for i
    using out2[of i] W2 fin that by auto
  have dead: "status_of (stored s') i = Some ''dlq''" if "i \<in> ?W - I - ?W2" for i
  proof -
    have "stored s2 i \<noteq> stored s i" using that by (auto simp: waiting_def)
    then show ?thesis using oth[of i] out2[of i] that by auto
  qed
  let ?S = "{i \<in> ?W2. status_of (stored s') i = Some ''succeeded''}"
  have "i \<in> I \<union> ?W2" if "i \<in> ?W" "status_of (stored s') i = Some ''succeeded''" for i
    using dead[of i] that by fastforce
  then have "{i \<in> ?W. status_of (stored s') i = Some ''succeeded''} = I \<union> ?S"
    using sub W2 in_I by blast
  moreover have "card (I \<union> ?S) = card I + card ?S"
  proof (rule card_Un_disjoint)
    show "finite I" by (rule finite_subset[OF sub waiting_finite[OF inv]])
    have "?S \<subseteq> ?W" using W2 by auto
    then show "finite ?S" by (rule finite_subset[OF _ waiting_finite[OF inv]])
  qed (use W2 in auto)
  moreover have "card ?S = n" using rest by (simp add: drained_def)
  ultimately have count: "card I + n = card {i \<in> ?W. status_of (stored s') i = Some ''succeeded''}"
    by (simp only:)
  have "status_of (stored s') i \<in> {Some ''succeeded'', Some ''dlq'', Some ''queued''}"
    if "i \<in> ?W" for i
    using that in_I dead rest by (cases "i \<in> I"; cases "i \<in> ?W2") (auto simp: drained_def)
  moreover have "status_of (stored s') i = status_of (stored s) i" if "i \<notin> ?W" for i
  proof -
    have "i \<notin> ?W2" "i \<notin> I" using that W2 sub by auto
    then show ?thesis using out2[of i] oth[of i] that by (auto simp: status_of_def)
  qed
  moreover from rest obtain r where
    "\<forall>i j. stored s' i = Some j \<longrightarrow> j_status j = ''queued'' \<longrightarrow> j_queue j = qf_queue f
       \<longrightarrow> e_now (rd_lease_env (rounds (Suc r))) < j_run_at j" unfolding drained_def by blast
  moreover have "inv s'" using rest by (simp add: drained_def)
  ultimately show ?thesis using count unfolding drained_def by blast
qed

lemma run_until_empty_drains:
  assumes "inv s" "all_tasks_ok rounds" "runnable f (stored s)" "fresh_rounds rounds (used s)"
    and "card (waiting (stored s) (qf_queue f)) < fuel" "accepts (qf_lease_seconds f)"
  shows "\<exists>n s'. run_until_empty fuel B f rounds p s = Some (Inr (p + n), s') \<and> drained f rounds s n s'"
  using assms
proof (induction fuel arbitrary: s rounds p)
  case (Suc fuel)
  obtain batch s1 where lease: "lease_round B f (rd_lease_env (rounds 0)) s = (Inr batch, s1)"
    using lease_law[OF Suc.prems(1,6)] by (fastforce simp: lease_round_def)
  show ?case
  proof (cases "batch = []")
    case True
    then show ?thesis using drained_empty[OF Suc.prems(1) _ Suc.prems(6)] lease by (auto simp: Let_def)
  next
    case False
    from drain_round[OF Suc.prems(1-4) lease False Suc.prems(6)] obtain s2 where s2:
      "process_batch B f (rd_start_env (rounds 0)) (rd_jobs (rounds 0)) batch s1 = (Inr (), s2)"
      "inv s2" "used s2 \<subseteq> used s \<union> round_ids (rounds 0)" "distinct (map j_id batch)"
      "j_id ` set batch \<subseteq> waiting (stored s) (qf_queue f)"
      and fin: "\<And>i. i \<in> j_id ` set batch \<Longrightarrow> status_of (stored s2) i = Some ''succeeded''"
      and oth: "\<And>i. i \<notin> j_id ` set batch \<Longrightarrow> stored s2 i = stored s i
         \<or> i \<in> waiting (stored s) (qf_queue f) \<and> status_of (stored s2) i = Some ''dlq''" by metis
    note W2 = waiting_round[OF s2(5) fin oth]
    have "waiting (stored s2) (qf_queue f) \<subset> waiting (stored s) (qf_queue f)"
      using W2 s2(5) False by (cases batch) auto
    from psubset_card_mono[OF waiting_finite[OF Suc.prems(1)] this] Suc.prems(5)
    have "card (waiting (stored s2) (qf_queue f)) < fuel" by linarith
    moreover have "all_tasks_ok (\<lambda>r. rounds (Suc r))" using Suc.prems(2) by (simp add: all_tasks_ok_def)
    ultimately obtain n s' where "run_until_empty fuel B f (\<lambda>r. rounds (Suc r)) (p + length batch) s2 =
        Some (Inr (p + length batch + n), s')" "drained f (\<lambda>r. rounds (Suc r)) s2 n s'"
      using Suc.IH[OF s2(2) _ runnable_round[OF Suc.prems(3) W2 oth] fresh_rounds_step[OF Suc.prems(4) s2(3)] _ Suc.prems(6)]
      by blast
    moreover have "length batch = card (j_id ` set batch)"
      using s2(4) by (metis distinct_card length_map list.set_map)
    ultimately show ?thesis
      using drained_step[OF Suc.prems(1) s2(5) fin oth] lease s2(1) False
      by (auto simp: Let_def add.assoc)
  qed
qed simp

end

end
