(* ===== verification/Memory_Contract.thy ===== *)
theory Memory_Contract
  imports Memory_Runs Backend_Contract
begin

text \<open>
  The in-memory storage satisfies the contract the worker relies on.
\<close>

section \<open>The abstract view\<close>

definition mem_stored :: "MemoryBackend \<Rightarrow> uuid \<Rightarrow> Job option" where
  "mem_stored s = map_of (jobs s)"

definition mem_opened :: "MemoryBackend \<Rightarrow> uuid \<Rightarrow> uuid option" where
  "mem_opened s a =
     (case map_of (attempts s) a of
        None \<Rightarrow> None
      | Some att \<Rightarrow> if at_status att = ''running'' then Some (at_job_id att) else None)"

definition mem_used :: "MemoryBackend \<Rightarrow> uuid set" where
  "mem_used s = dom (map_of (jobs s)) \<union> dom (map_of (archive s)) \<union> dom (map_of (attempts s))"

lemma mem_used_fresh: "i \<notin> mem_used s \<longleftrightarrow> fresh_id i s"
  by (auto simp: mem_used_def fresh_id_def domIff)

lemma mem_opened_Some:
  "mem_opened s a = Some i \<longleftrightarrow>
     (\<exists>att. map_of (attempts s) a = Some att \<and> attempt_open i att)"
  by (auto simp: mem_opened_def split: option.splits)

lemma held_by_mem:
  "held_by (mem_stored s) w i \<longleftrightarrow> (\<exists>j. map_of (jobs s) i = Some j \<and> lease_held w j)"
  by (simp add: held_by_def mem_stored_def)

section \<open>Leasing\<close>

lemma lease_spec_ids:
  assumes "mem_inv s"
  shows "distinct (map j_id (lease_spec now q n s))"
proof -
  have "distinct (map j_id (filter (lease_due now q) (hm_values (jobs s))))"
    using job_ids_distinct(2)[OF assms] by (simp add: distinct_map_filter)
  then have "distinct (map j_id (sort_key from_job (filter (lease_due now q) (hm_values (jobs s)))))"
    by (simp add: distinct_map)
  then show ?thesis by (simp add: lease_spec_def take_map[symmetric] distinct_take)
qed

lemma lease_spec_empty:
  assumes inv: "mem_inv s" and e: "lease_spec now q n s = []" "0 < n"
    and j: "map_of (jobs s) k = Some j"
  shows "\<not> lease_due now q j"
proof
  assume d: "lease_due now q j"
  have "j_id j = k" using jobs_wfD[OF mem_invD(2)[OF inv] j] by simp
  then have "j \<in> set (hm_values (jobs s))" using j job_in_values[OF inv, of j] by simp
  then have "j \<in> set (sort_key from_job (filter (lease_due now q) (hm_values (jobs s))))" using d by simp
  moreover have "sort_key from_job (filter (lease_due now q) (hm_values (jobs s))) = []"
    using e unfolding lease_spec_def by (metis take_eq_Nil less_numeral_extra(3))
  ultimately show False by simp
qed

lemma lock_job_more [simp]:
  "j_job_type (lock_job now w t j) = j_job_type j"
  "j_recurring_interval_seconds (lock_job now w t j) = j_recurring_interval_seconds j"
  "j_run_at (lock_job now w t j) = j_run_at j"
  by (simp_all add: lock_job_def)

lemma memory_lease_law:
  assumes inv: "mem_inv s"
  shows "\<exists>js s'. mem_lease_jobs_batch_with_ordering env q w ls bs policy s = (Inr js, s')
        \<and> mem_inv s' \<and> distinct (map j_id js) \<and> mem_used s' = mem_used s \<and> mem_opened s' = mem_opened s
        \<and> (\<forall>j \<in> set js. mem_stored s' (j_id j) = Some j \<and> held_by (mem_stored s') w (j_id j)
             \<and> (\<exists>old. mem_stored s (j_id j) = Some old \<and> j_status old = ''queued''
                    \<and> j_queue old = q \<and> j_job_type j = j_job_type old
                    \<and> j_recurring_interval_seconds j = j_recurring_interval_seconds old))
        \<and> (\<forall>k. k \<notin> j_id ` set js \<longrightarrow>
             mem_stored s' k = mem_stored s k
             \<or> k \<in> waiting (mem_stored s) q \<and> status_of (mem_stored s') k = Some ''dlq'')
        \<and> (js = [] \<and> 0 < bs \<longrightarrow>
             (\<forall>k j. mem_stored s' k = Some j \<longrightarrow> j_status j = ''queued'' \<longrightarrow> j_queue j = q
                \<longrightarrow> e_now env < j_run_at j))"
proof -
  let ?now = "e_now env" and ?n = "nat (max bs 0)"
  let ?lock = "lock_job ?now w (?now + seconds ls)" and ?spec = "lease_spec (e_now env) q ?n s"
  define s' where "s' = snd (mem_lease_jobs_batch_with_ordering env q w ls bs policy s)"
  have res: "mem_lease_jobs_batch_with_ordering env q w ls bs policy s = (Inr (map ?lock ?spec), s')"
    using lease_result[OF inv, of env q w ls bs policy] by (metis s'_def prod.collapse)
  note after = lease_jobs_after[OF inv, of env q w ls bs policy, folded s'_def]
  have frame: "archive s' = archive s" "attempts s' = attempts s" by (simp_all add: s'_def)
  have "mem_inv s'" using mem_lease_with_ordering_inv[OF inv] by (simp add: s'_def)
  moreover have "distinct (map j_id (map ?lock ?spec))"
    using lease_spec_ids[OF inv] by (simp add: comp_def)
  moreover have "mem_used s' = mem_used s"
    by (auto simp: mem_used_def frame after dom_def split: option.splits)
  moreover have "mem_opened s' = mem_opened s" by (simp add: mem_opened_def frame fun_eq_iff)
  moreover have "mem_stored s' (j_id j) = Some j \<and> held_by (mem_stored s') w (j_id j)
       \<and> (\<exists>old. mem_stored s (j_id j) = Some old \<and> j_status old = ''queued''
              \<and> j_queue old = q \<and> j_job_type j = j_job_type old
              \<and> j_recurring_interval_seconds j = j_recurring_interval_seconds old)"
    if "j \<in> set (map ?lock ?spec)" for j
  proof -
    from that obtain old where old: "old \<in> set ?spec" "j = ?lock old" by auto
    note m = lease_spec_mem[OF inv old(1)]
    have "map_of (jobs s') (j_id j) = Some j"
      using after[of "j_id j"] m old by (simp add: lease_due_def deadline_passed_def)
    then show ?thesis using m old by (simp add: mem_stored_def held_by_def lease_due_def)
  qed
  moreover have "mem_stored s' k = mem_stored s k
      \<or> k \<in> waiting (mem_stored s) q \<and> status_of (mem_stored s') k = Some ''dlq''"
    if k: "k \<notin> j_id ` set (map ?lock ?spec)" for k
  proof (cases "map_of (jobs s) k")
    case (Some j)
    have "j \<notin> set ?spec"
    proof
      assume "j \<in> set ?spec"
      then have "j_id (?lock j) \<in> j_id ` set (map ?lock ?spec)" by (intro imageI) simp
      moreover have "j_id j = k" using jobs_wfD[OF mem_invD(2)[OF inv] Some] by simp
      ultimately show False using k by simp
    qed
    then show ?thesis
      using after[of k] Some
      by (auto simp: mem_stored_def status_of_def waiting_def deadline_passed_def)
  qed (use after[of k] in \<open>simp add: mem_stored_def\<close>)
  moreover have "?now < j_run_at j"
    if "map ?lock ?spec = []" "0 < bs" "mem_stored s' k = Some j" "j_status j = ''queued''" "j_queue j = q"
    for k j
  proof -
    have empty: "?spec = []" "0 < ?n" using that(1,2) by simp_all
    have m: "map_of (jobs s) k = Some j" "\<not> deadline_passed ?now q j"
      using after[of k] that(3,4) empty(1)
      by (auto simp: mem_stored_def split: option.splits if_splits)
    then show ?thesis
      using lease_spec_empty[OF inv empty m(1)] that(4,5) by (auto simp: lease_due_def deadline_passed_def)
  qed
  ultimately show ?thesis using res by blast
qed

section \<open>Starting attempts\<close>

lemma start_loop_ok:
  assumes "\<And>i. i \<in> set is \<Longrightarrow> \<exists>j. map_of (jobs s) i = Some j \<and> lease_held w j" "inj fresh"
  shows "\<exists>rs s'. start_loop now fresh w is s = (Inr rs, s') \<and> map fst rs = is
    \<and> map (fst \<circ> snd) rs = map fresh [0..<length is]
    \<and> (\<forall>a. a \<notin> fresh ` {..<length is} \<longrightarrow> map_of (attempts s') a = map_of (attempts s) a)
    \<and> (\<forall>(i, a, n) \<in> set rs. map_of (attempts s') a = Some (new_attempt now a i n w)
         \<and> attempt_count s i < n)
    \<and> (distinct is \<longrightarrow> (\<forall>(i, a, n) \<in> set rs. n = attempt_count s i + 1))"
  using assms
proof (induction "is" arbitrary: s fresh)
  case Nil
  then show ?case by simp
next
  case (Cons i "is")
  let ?s = "record_attempt (fresh 0) i now w s" and ?fresh = "\<lambda>k. fresh (Suc k)"
  obtain j where j: "map_of (jobs s) i = Some j" "lease_held w j" using Cons.prems(1)[of i] by auto
  have inj: "inj ?fresh" using Cons.prems(2) by (auto intro!: injI dest: injD)
  have held: "\<exists>j. map_of (jobs ?s) i' = Some j \<and> lease_held w j" if "i' \<in> set is" for i'
    using Cons.prems(1)[of i'] that by simp
  from Cons.IH[OF held inj] obtain rs s' where IH: "start_loop now ?fresh w is ?s = (Inr rs, s')"
    "map fst rs = is" "map (fst \<circ> snd) rs = map ?fresh [0..<length is]"
    "\<forall>a. a \<notin> ?fresh ` {..<length is} \<longrightarrow> map_of (attempts s') a = map_of (attempts ?s) a"
    "\<forall>(i, a, n) \<in> set rs. map_of (attempts s') a = Some (new_attempt now a i n w) \<and> attempt_count ?s i < n"
    "distinct is \<longrightarrow> (\<forall>(i, a, n) \<in> set rs. n = attempt_count ?s i + 1)" by blast
  have ids: "fresh ` {..<length (i # is)} = insert (fresh 0) (?fresh ` {..<length is})"
    by (auto simp: lessThan_Suc_eq_insert_0 image_image)
  have "fresh 0 \<notin> ?fresh ` {..<length is}" using Cons.prems(2) by (auto dest: injD)
  then have first: "map_of (attempts s') (fresh 0) =
      Some (new_attempt now (fresh 0) i (attempt_count s i + 1) w)"
    using IH(4) by simp
  have mono: "attempt_count s i' \<le> attempt_count ?s i'" for i' by simp
  have run: "start_loop now fresh w (i # is) s =
      (Inr ((i, fresh 0, attempt_count s i + 1) # rs), s')"
    using j IH(1) by (simp del: start_loop.simps add: start_loop_Cons)
  have others: "n = attempt_count s i' + 1"
    if "distinct (i # is)" "(i', a, n) \<in> set rs" for i' a n
  proof -
    have "i' \<in> set is" using that(2) IH(2) by force
    then have "i' \<noteq> i" using that(1) by auto
    then show ?thesis using IH(6) that by fastforce
  qed
  have all: "map_of (attempts s') a = Some (new_attempt now a i' n w) \<and> attempt_count s i' < n"
    if "(i', a, n) \<in> set ((i, fresh 0, attempt_count s i + 1) # rs)" for i' a n
    using that first IH(5) mono[of i'] by fastforce
  have fresh_ids: "map (fst \<circ> snd) ((i, fresh 0, attempt_count s i + 1) # rs) = map fresh [0..<length (i # is)]"
    using IH(3) by (simp add: upt_conv_Cons map_Suc_upt[symmetric] comp_def del: upt_Suc)
  have keep: "map_of (attempts s') a = map_of (attempts s) a"
    if "a \<notin> fresh ` {..<length (i # is)}" for a
    using that IH(4) unfolding ids by simp
  have nums: "n = attempt_count s i' + 1"
    if "distinct (i # is)" "(i', a, n) \<in> set ((i, fresh 0, attempt_count s i + 1) # rs)" for i' a n
    using that others[OF that(1)] by auto
  show ?case
    by (rule exI[of _ "(i, fresh 0, attempt_count s i + 1) # rs"], rule exI[of _ s'], intro conjI)
       (use run IH(2) fresh_ids keep all nums in \<open>blast | simp\<close>)+
qed

lemma memory_start_law:
  assumes inv: "mem_inv s" and inj: "inj (e_fresh env)" and new: "range (e_fresh env) \<inter> mem_used s = {}"
    and h: "\<forall>i \<in> set is. held_by (mem_stored s) w i"
  shows "\<exists>rs s'. mem_start_attempts_batch env ds is w s = (Inr rs, s')
        \<and> mem_inv s' \<and> map fst rs = is \<and> mem_stored s' = mem_stored s
        \<and> (\<forall>(i, a, n) \<in> set rs. mem_opened s' a = Some i)
        \<and> mem_used s' \<subseteq> mem_used s \<union> range (e_fresh env)"
proof -
  have fresh: "fresh_env env s"
    using inj new mem_used_fresh by (auto simp: fresh_env_def)
  have held: "\<exists>j. map_of (jobs s) i = Some j \<and> lease_held w j" if "i \<in> set is" for i
    using h that by (simp add: held_by_mem)
  from start_loop_ok[OF held inj, of "is" "e_now env"] obtain rs s' where r:
    "start_loop (e_now env) (e_fresh env) w is s = (Inr rs, s')" "map fst rs = is"
    "\<forall>a. a \<notin> e_fresh env ` {..<length is} \<longrightarrow> map_of (attempts s') a = map_of (attempts s) a"
    "\<forall>(i, a, n) \<in> set rs. map_of (attempts s') a = Some (new_attempt (e_now env) a i n w)
         \<and> attempt_count s i < n" by blast
  have run: "mem_start_attempts_batch env ds is w s = (Inr rs, s')"
    using r(1) by (cases "is") (simp_all add: mem_start_attempts_batch_def)
  have tables: "jobs s' = jobs s" "archive s' = archive s"
    using start_jobs_after[of env ds "is" w s] run by simp_all
  have "mem_inv s'" using mem_start_attempts_batch_inv[OF inv fresh, of ds "is" w] run by simp
  moreover have "mem_opened s' a = Some i" if "(i, a, n) \<in> set rs" for i a n
    using r(4) that by (fastforce simp: mem_opened_Some)
  moreover have "a \<in> mem_used s \<union> range (e_fresh env)" if "a \<in> mem_used s'" for a
  proof (cases "a \<in> range (e_fresh env)")
    case False
    then have "map_of (attempts s') a = map_of (attempts s) a" using r(3) by blast
    then show ?thesis using that by (simp add: mem_used_def tables domIff)
  qed simp
  ultimately show ?thesis using run r(2) tables by (auto simp: mem_stored_def)
qed

section \<open>Outcomes\<close>

lemma opened_put_attempt:
  "attempts s' = hm_insert a att (attempts s) \<Longrightarrow> mem_opened s a = Some i \<Longrightarrow> k \<noteq> i \<Longrightarrow>
     mem_opened s a' = Some k \<Longrightarrow> mem_opened s' a' = Some k"
  by (auto simp: mem_opened_Some)

lemma memory_retry_law:
  assumes inv: "mem_inv s" and h: "held_by (mem_stored s) w i" and a: "mem_opened s a = Some i"
  shows "\<exists>s'. mem_reschedule_for_retry env i a w l t c m n s = (Inr (), s') \<and> mem_inv s'
        \<and> status_of (mem_stored s') i = Some ''queued''
        \<and> (\<forall>k. k \<noteq> i \<longrightarrow> mem_stored s' k = mem_stored s k)
        \<and> (\<forall>a' k. k \<noteq> i \<longrightarrow> mem_opened s a' = Some k \<longrightarrow> mem_opened s' a' = Some k)
        \<and> mem_used s' = mem_used s"
proof -
  from h a obtain j att where ja: "map_of (jobs s) i = Some j" "lease_held w j"
    "map_of (attempts s) a = Some att" "attempt_open i att" by (auto simp: held_by_mem mem_opened_Some)
  define s' where "s' = snd (mem_reschedule_for_retry env i a w l t c m n s)"
  have r: "mem_reschedule_for_retry env i a w l t c m n s = (Inr (), s')"
    using ja by (simp add: s'_def mem_reschedule_for_retry_def Let_def)
  have eff: "jobs s' = hm_insert i ((requeue_job (e_now env) j)\<lparr>j_run_at := t\<rparr>) (jobs s)"
    "archive s' = archive s" "attempts s' = hm_insert a (fail_attempt_record (e_now env) l c m att) (attempts s)"
    using ja by (simp_all add: s'_def mem_reschedule_for_retry_def Let_def)
  have "mem_inv s'" using mem_reschedule_for_retry_inv[OF inv] by (simp add: s'_def)
  moreover have "mem_used s' = mem_used s" using ja by (auto simp: mem_used_def eff)
  ultimately show ?thesis
    using r opened_put_attempt[OF eff(3) a] by (auto simp: eff mem_stored_def status_of_def)
qed

lemma memory_dlq_law:
  assumes inv: "mem_inv s" and h: "held_by (mem_stored s) w i" and a: "mem_opened s a = Some i"
  shows "\<exists>s'. mem_mark_dlq env i a w l r c m n s = (Inr (), s') \<and> mem_inv s'
        \<and> status_of (mem_stored s') i = Some ''dlq''
        \<and> (\<forall>k. k \<noteq> i \<longrightarrow> mem_stored s' k = mem_stored s k)
        \<and> (\<forall>a' k. k \<noteq> i \<longrightarrow> mem_opened s a' = Some k \<longrightarrow> mem_opened s' a' = Some k)
        \<and> mem_used s' = mem_used s"
proof -
  from h a obtain j att where ja: "map_of (jobs s) i = Some j" "lease_held w j"
    "map_of (attempts s) a = Some att" "attempt_open i att" by (auto simp: held_by_mem mem_opened_Some)
  define s' where "s' = snd (mem_mark_dlq env i a w l r c m n s)"
  have run: "mem_mark_dlq env i a w l r c m n s = (Inr (), s')"
    using ja by (simp add: s'_def mem_mark_dlq_def Let_def)
  have eff: "jobs s' = hm_insert i (dlq_job_record (e_now env) r j) (jobs s)"
    "archive s' = archive s" "attempts s' = hm_insert a (fail_attempt_record (e_now env) l c m att) (attempts s)"
    using ja by (simp_all add: s'_def mem_mark_dlq_def Let_def)
  have "mem_inv s'" using mem_mark_dlq_inv[OF inv] by (simp add: s'_def)
  moreover have "mem_used s' = mem_used s" using ja by (auto simp: mem_used_def eff)
  ultimately show ?thesis
    using run opened_put_attempt[OF eff(3) a] by (auto simp: eff mem_stored_def status_of_def)
qed

lemma memory_succeed_effect:
  assumes ja: "map_of (jobs s) i = Some j" "lease_held w j"
    "map_of (attempts s) a = Some att" "attempt_open i att"
  shows "fst (mem_mark_succeeded env i a w l s) = Inr ()"
    "map_of (jobs (snd (mem_mark_succeeded env i a w l s))) =
       (case j_recurring_interval_seconds j of
          None \<Rightarrow> (map_of (jobs s))(i \<mapsto> complete_job_record (e_now env) j)
        | Some n \<Rightarrow> (map_of (jobs s))(i \<mapsto> complete_job_record (e_now env) j,
              e_fresh env 0 \<mapsto> next_occurrence (e_now env) (e_fresh env 0) j n))"
    "archive (snd (mem_mark_succeeded env i a w l s)) = archive s"
    "attempts (snd (mem_mark_succeeded env i a w l s)) =
       hm_insert a (succeed_attempt_record (e_now env) l att) (attempts s)"
  using ja by (auto simp: mem_mark_succeeded_def Let_def split: option.splits)

lemma memory_succeed_law:
  assumes inv: "mem_inv s" and h: "held_by (mem_stored s) w i" and a: "mem_opened s a = Some i"
    and fresh: "e_fresh env 0 \<notin> mem_used s"
  shows "\<exists>s'. mem_mark_succeeded env i a w l s = (Inr (), s') \<and> mem_inv s'
        \<and> status_of (mem_stored s') i = Some ''succeeded''
        \<and> (\<forall>k. k \<noteq> i \<longrightarrow> k \<noteq> e_fresh env 0 \<longrightarrow> mem_stored s' k = mem_stored s k)
        \<and> (\<forall>j. mem_stored s i = Some j \<longrightarrow> j_recurring_interval_seconds j = None \<longrightarrow> mem_used s' = mem_used s)
        \<and> (\<forall>a' k. k \<noteq> i \<longrightarrow> mem_opened s a' = Some k \<longrightarrow> mem_opened s' a' = Some k)
        \<and> mem_used s' \<subseteq> insert (e_fresh env 0) (mem_used s)"
proof -
  from h a obtain j att where ja: "map_of (jobs s) i = Some j" "lease_held w j"
    "map_of (attempts s) a = Some att" "attempt_open i att" by (auto simp: held_by_mem mem_opened_Some)
  define s' where "s' = snd (mem_mark_succeeded env i a w l s)"
  note eff = memory_succeed_effect[OF ja, of env l, folded s'_def]
  have run: "mem_mark_succeeded env i a w l s = (Inr (), s')" using eff(1) by (metis s'_def prod.collapse)
  have ne: "i \<noteq> e_fresh env 0" using fresh ja(1) by (auto simp: mem_used_def)
  have "mem_inv s'" using mem_mark_succeeded_inv[OF inv, of env] fresh mem_used_fresh by (simp add: s'_def)
  moreover have "mem_used s' = mem_used s" if "j_recurring_interval_seconds j = None"
    using ja that by (auto simp: mem_used_def eff)
  moreover have "mem_used s' \<subseteq> insert (e_fresh env 0) (mem_used s)"
    using ja by (auto simp: mem_used_def eff split: option.splits if_splits)
  ultimately show ?thesis
    using run opened_put_attempt[OF eff(4) a] ne ja(1)
    by (auto simp: eff mem_stored_def status_of_def split: option.splits)
qed

lemma memory_extend_law:
  assumes inv: "mem_inv s"
  shows "mem_inv (snd (mem_extend_lease env i w ls s))
        \<and> (\<forall>k. k \<noteq> i \<longrightarrow> mem_stored (snd (mem_extend_lease env i w ls s)) k = mem_stored s k)
        \<and> (\<forall>j. mem_stored s i = Some j \<longrightarrow>
             (\<exists>e u. mem_stored (snd (mem_extend_lease env i w ls s)) i =
                 Some (j\<lparr>j_lock_expires_at := e, j_updated_at := u\<rparr>)))
        \<and> mem_opened (snd (mem_extend_lease env i w ls s)) = mem_opened s
        \<and> mem_used (snd (mem_extend_lease env i w ls s)) = mem_used s"
proof -
  let ?s' = "snd (mem_extend_lease env i w ls s)"
  consider "?s' = s"
    | j where "map_of (jobs s) i = Some j"
        "?s' = put_job i (j\<lparr>j_lock_expires_at := Some (e_now env + seconds ls), j_updated_at := e_now env\<rparr>) s"
  proof (cases "map_of (jobs s) i")
    case (Some j)
    then show thesis
      using that by (cases "lease_held w j") (auto simp: mem_extend_lease_def)
  qed (use that in \<open>simp add: mem_extend_lease_def\<close>)
  then show ?thesis
  proof cases
    case 1
    have "\<exists>e u. Some j = Some (j\<lparr>j_lock_expires_at := e, j_updated_at := u\<rparr>)" for j :: Job
      by (intro exI[of _ "j_lock_expires_at j"] exI[of _ "j_updated_at j"]) simp
    then show ?thesis unfolding 1 using inv by simp
  next
    case 2
    then show ?thesis
      using mem_extend_lease_inv[OF inv, of env i w ls]
      by (auto simp: mem_stored_def mem_opened_def mem_used_def fun_eq_iff)
  qed
qed

interpretation mb: job_backend memory_backend mem_inv mem_stored
  "\<lambda>s a i. mem_opened s a = Some i" mem_used "\<lambda>_ _ _. True" "\<lambda>_. True"
proof
  fix s :: MemoryBackend and i j env q w ls bs policy s' k
  assume inv: "mem_inv s"
  show "finite (mem_used s)" by (simp add: mem_used_def finite_dom_map_of)
  show "mem_stored s i = Some j \<Longrightarrow> i \<in> mem_used s" by (auto simp: mem_used_def mem_stored_def)
  show "sb_lease_jobs_batch_with_ordering memory_backend env q w ls bs policy s = (Inr [], s') \<Longrightarrow> 0 < bs \<Longrightarrow>
      mem_stored s' k = Some j \<Longrightarrow> j_status j = ''queued'' \<Longrightarrow> j_queue j = q \<Longrightarrow> e_now env < j_run_at j"
    using memory_lease_law[OF inv, of env q w ls bs policy] by (auto simp: memory_backend_def)
qed (unfold memory_backend_def StorageBackend.simps,
     (drule memory_lease_law, (elim exE conjE)?, (intro exI conjI; (assumption | simp))?),
     (rule memory_start_law; assumption),
     (rule memory_succeed_law memory_retry_law memory_dlq_law; assumption)+,
     simp add: memory_extend_law)

end
