(* ===== verification/Sample_States.thy ===== *)
theory Sample_States
  imports Memory_Runs Memory_Listing Memory_Contract
begin

text \<open>
  Concrete states of the in-memory storage, reached by short sequences of calls: a job is
  enqueued, leased, started, completed. The theorems of the property theories are
  instantiated at these states.
\<close>

definition sample_env :: "datetime \<Rightarrow> nat \<Rightarrow> Env" where
  "sample_env now n = \<lparr>e_now = now, e_fresh = (\<lambda>k. n + k)\<rparr>"

definition sample_job :: "int option \<Rightarrow> NewJob" where
  "sample_job interval =
     \<lparr>nj_queue = ''mail'', nj_job_type = ''send'', nj_payload_json = JNull,
      nj_idempotency_key = Some ''k1'', nj_run_at = 0, nj_deadline_at = None,
      nj_timeout_seconds = Some 30, nj_recurring_interval_seconds = interval, nj_priority = 0,
      nj_max_attempts = 3\<rparr>"

definition state_queued :: "int option \<Rightarrow> MemoryBackend" where
  "state_queued interval = snd (mem_enqueue (sample_env 1 1) (sample_job interval) mem_new)"

definition state_leased :: "int option \<Rightarrow> MemoryBackend" where
  "state_leased interval =
     snd (mem_lease_jobs_batch_with_ordering (sample_env 2 10) ''mail'' ''w1'' 10 5 Fifo
            (state_queued interval))"

definition state_started :: "int option \<Rightarrow> MemoryBackend" where
  "state_started interval =
     snd (mem_start_attempts_batch (sample_env 3 20) [''default''] [1] ''w1'' (state_leased interval))"

definition state_done :: "int option \<Rightarrow> MemoryBackend" where
  "state_done interval = snd (mem_mark_succeeded (sample_env 4 40) 1 20 ''w1'' 7 (state_started interval))"

definition cancelled_sample :: MemoryBackend where
  "cancelled_sample = snd (mem_cancel_job (sample_env 2 2) 1 None (state_queued None))"

definition job_at :: "MemoryBackend \<Rightarrow> uuid \<Rightarrow> Job" where
  "job_at s i = the (map_of (jobs s) i)"

definition attempt_at :: "MemoryBackend \<Rightarrow> uuid \<Rightarrow> MemoryAttempt" where
  "attempt_at s a = the (map_of (attempts s) a)"

definition ids_below :: "nat \<Rightarrow> MemoryBackend \<Rightarrow> bool" where
  "ids_below n s \<longleftrightarrow>
     list_all (\<lambda>i. i < n) (map fst (jobs s) @ map fst (archive s) @ map fst (attempts s))"

lemma ids_below_fresh: "ids_below n s \<Longrightarrow> n \<le> m \<Longrightarrow> fresh_env (sample_env now m) s"
proof -
  assume below: "ids_below n s" and le: "n \<le> m"
  have lt: "i < n" if "i \<in> fst ` set (jobs s) \<union> (fst ` set (archive s) \<union> fst ` set (attempts s))" for i
    using below that by (auto simp: ids_below_def list_all_iff)
  have "m + k \<notin> fst ` set (jobs s) \<union> (fst ` set (archive s) \<union> fst ` set (attempts s))" for k
  proof
    assume "m + k \<in> fst ` set (jobs s) \<union> (fst ` set (archive s) \<union> fst ` set (attempts s))"
    from lt[OF this] le show False by simp
  qed
  then show ?thesis
    by (auto simp: fresh_env_def fresh_id_def sample_env_def inj_def map_of_eq_None_iff)
qed

lemma ids_below_fresh_id: "ids_below n s \<Longrightarrow> n \<le> m \<Longrightarrow> fresh_id (e_fresh (sample_env now m) 0) s"
  using ids_below_fresh[of n s m now] by (simp add: fresh_env_def)

lemma ids_below_envs: "ids_below n s \<Longrightarrow> fresh_envs (\<lambda>k. sample_env now (n + k)) s"
  using ids_below_fresh[of n s] by (simp add: fresh_envs_def) (simp add: sample_env_def)

lemma samples_below:
  "ids_below 1 mem_new"
  "ids_below 2 (state_queued None)" "ids_below 2 (state_queued (Some 60))"
  "ids_below 2 (state_leased None)" "ids_below 2 (state_leased (Some 60))"
  "ids_below 21 (state_started None)" "ids_below 21 (state_started (Some 60))"
  "ids_below 21 (state_done None)" "ids_below 41 (state_done (Some 60))"
  by code_simp+

lemma sample_queued_inv: "mem_inv (state_queued interval)"
  unfolding state_queued_def
  by (rule mem_enqueue_inv[OF mem_inv_new ids_below_fresh_id[OF samples_below(1) order_refl]])

lemma sample_leased_inv: "mem_inv (state_leased interval)"
  unfolding state_leased_def by (rule mem_lease_with_ordering_inv[OF sample_queued_inv])

lemma sample_started_inv: "mem_inv (state_started None)" "mem_inv (state_started (Some 60))"
  unfolding state_started_def
  by (rule mem_start_attempts_batch_inv[OF sample_leased_inv ids_below_fresh[OF samples_below(4)]]
       mem_start_attempts_batch_inv[OF sample_leased_inv ids_below_fresh[OF samples_below(5)]]; simp)+

lemma sample_done_inv: "mem_inv (state_done None)" "mem_inv (state_done (Some 60))"
  unfolding state_done_def
  by (rule mem_mark_succeeded_inv[OF sample_started_inv(1) ids_below_fresh_id[OF samples_below(6)]]
       mem_mark_succeeded_inv[OF sample_started_inv(2) ids_below_fresh_id[OF samples_below(7)]]; simp)+

lemma sample_leased_job:
  "map_of (jobs (state_leased None)) 1 = Some (job_at (state_leased None) 1)"
  "lease_held ''w1'' (job_at (state_leased None) 1)"
  "map_of (jobs (state_started None)) 1 = Some (job_at (state_started None) 1)"
  "lease_held ''w1'' (job_at (state_started None) 1)"
  "map_of (attempts (state_started None)) 20 = Some (attempt_at (state_started None) 20)"
  "attempt_open 1 (attempt_at (state_started None) 20)"
  "map_of (jobs (state_started (Some 60))) 1 = Some (job_at (state_started (Some 60)) 1)"
  "lease_held ''w1'' (job_at (state_started (Some 60)) 1)"
  "map_of (attempts (state_started (Some 60))) 20 = Some (attempt_at (state_started (Some 60)) 20)"
  "attempt_open 1 (attempt_at (state_started (Some 60)) 20)"
  "map_of (jobs (state_done None)) 1 = Some (job_at (state_done None) 1)"
  "j_status (job_at (state_done None) 1) = ''succeeded''"
  by code_simp+

end
