(* ===== verification/Memory_Properties.thy ===== *)
theory Memory_Properties
  imports Sample_States
begin

text \<open>
  What the in-memory storage guarantees to its clients: the invariant in every reachable
  state, leasing against its reference definition, exclusivity of leases, the lifecycle of
  a job along every run, idempotent enqueueing, authority over outcomes, recovery after a
  crash, attempts, listing, replay, cancellation and archiving.
\<close>

section \<open>Reachable states\<close>

text \<open>
  C1: In every state that any sequence of calls reaches from an empty storage, the queue
  index lists exactly the queued jobs in lease order, a job carries a lock exactly when it
  is running and a dead-letter reason exactly when it is dead-lettered, attempts of a job
  have distinct numbers, archived jobs are succeeded and no longer stored, and the stream
  tables are consistent.
\<close>

theorem reachable_invariant:
  assumes "mem_reachable s"
  shows "mem_inv s \<and> stream_inv s"
  using mem_reachable_inv[OF assms] mem_reachable_stream_inv[OF assms] by simp

lemma sample_queued_step:
  "mem_step mem_new (CEnqueue (sample_job interval)) (state_queued interval)"
proof -
  have "fresh_envs (\<lambda>k. sample_env 1 (1 + k)) mem_new" by (rule ids_below_envs[OF samples_below(1)])
  from mem_step.intros[OF this, of "CEnqueue (sample_job interval)"]
  show ?thesis by (simp add: state_queued_def)
qed

lemma sample_queued_reachable: "mem_reachable (state_queued interval)"
  by (rule mem_reachable.next_call[OF mem_reachable.init sample_queued_step])

theorem reachable_invariant_witness:
  "mem_inv (state_queued None) \<and> stream_inv (state_queued None)"
  by (rule reachable_invariant[OF sample_queued_reachable])

section \<open>Leasing\<close>

text \<open>
  C2: A lease call returns exactly what the reference definition says: of the queued jobs of
  the queue that are due and within their deadline, sorted by priority, then scheduled
  time, then creation time, then identifier, the first \<^verbatim>\<open>batch_size\<close>, each marked as running
  and locked by the worker until the lease ends.
\<close>

theorem lease_returns_spec:
  assumes "mem_inv s"
  shows "fst (mem_lease_jobs_batch_with_ordering env q w ls bs policy s) =
    Inr (map (lock_job (e_now env) w (e_now env + seconds ls))
          (take (nat (max bs 0))
            (sort_key from_job
              (filter (\<lambda>j. j_status j = ''queued'' \<and> j_queue j = q \<and> j_run_at j \<le> e_now env
                        \<and> \<not> past_deadline (e_now env) j)
                (hm_values (jobs s))))))"
  using lease_result[OF assms] unfolding lease_spec_def lease_due_def[abs_def] by simp

theorem lease_returns_spec_witness:
  "mem_inv (state_queued None)
   \<and> fst (mem_lease_jobs_batch_with_ordering (sample_env 2 10) ''mail'' ''w1'' 10 5 Fifo (state_queued None))
     = Inr [lock_job 2 ''w1'' (2 + seconds 10) (job_at (state_queued None) 1)]"
proof -
  have "take (nat (max 5 0))
          (sort_key from_job
            (filter (\<lambda>j. j_status j = ''queued'' \<and> j_queue j = ''mail'' \<and> j_run_at j \<le> e_now (sample_env 2 10)
                        \<and> \<not> past_deadline (e_now (sample_env 2 10)) j)
              (hm_values (jobs (state_queued None))))) = [job_at (state_queued None) 1]"
    by (code_simp)
  then show ?thesis
    using lease_returns_spec[OF sample_queued_inv, of "sample_env 2 10" "''mail''" "''w1''" 10 5 Fifo None]
      sample_queued_inv by (simp add: sample_env_def)
qed

text \<open>
  C9: A lease call touches no job but the ones it hands out, which it locks, and the due jobs
  of the queue whose deadline has passed, which it moves to the dead-letter queue with the
  reason \<^verbatim>\<open>DEADLINE_EXCEEDED\<close> instead of running them late. It keeps the invariant, and
  leaves attempts and archive alone.
\<close>

theorem lease_effect:
  assumes "mem_inv s"
    and "mem_lease_jobs_batch_with_ordering env q w ls bs policy s = (Inr leased, s')"
  shows "mem_inv s' \<and> attempts s' = attempts s \<and> archive s' = archive s
    \<and> (\<forall>k. map_of (jobs s') k =
         (case map_of (jobs s) k of
            None \<Rightarrow> None
          | Some j \<Rightarrow> Some
              (if deadline_passed (e_now env) q j then deadline_dlq (e_now env) j
               else if k \<in> j_id ` set leased then lock_job (e_now env) w (e_now env + seconds ls) j
               else j)))"
proof -
  let ?L = "lease_spec (e_now env) q (nat (max bs 0)) s"
  have s': "s' = snd (mem_lease_jobs_batch_with_ordering env q w ls bs policy s)" using assms(2) by simp
  have leased: "leased = map (lock_job (e_now env) w (e_now env + seconds ls)) ?L"
    using lease_result[OF assms(1), of env q w ls bs policy] assms(2) by simp
  have "k \<in> j_id ` set leased \<longleftrightarrow> j \<in> set ?L" if "map_of (jobs s) k = Some j" for k j
  proof -
    have "j_id j = k" using that mem_invD(2)[OF assms(1)] by (simp add: jobs_wf_def)
    moreover have "j' = j" if "j' \<in> set ?L" "j_id j' = k" for j'
      using lease_spec_mem(1)[OF assms(1) that(1)] that(2) \<open>map_of (jobs s) k = Some j\<close> by simp
    ultimately show ?thesis by (auto simp: leased image_image)
  qed
  then show ?thesis
    using mem_lease_with_ordering_inv[OF assms(1)] lease_jobs_after[OF assms(1)]
    by (auto simp: s' split: option.split)
qed

theorem lease_effect_witness:
  "\<exists>leased. mem_lease_jobs_batch_with_ordering (sample_env 2 10) ''mail'' ''w1'' 10 5 Fifo (state_queued None)
      = (Inr leased, state_leased None)
    \<and> map_of (jobs (state_leased None)) 1 = Some (lock_job 2 ''w1'' (2 + seconds 10) (job_at (state_queued None) 1))"
proof -
  let ?r = "fst (mem_lease_jobs_batch_with_ordering (sample_env 2 10) ''mail'' ''w1'' 10 5 Fifo (state_queued None))"
  let ?leased = "[lock_job 2 ''w1'' (2 + seconds 10) (job_at (state_queued None) 1)]"
  have r: "mem_lease_jobs_batch_with_ordering (sample_env 2 10) ''mail'' ''w1'' 10 5 Fifo (state_queued None)
      = (Inr ?leased, state_leased None)"
  proof -
    have "?r = Inr ?leased" by code_simp
    then show ?thesis by (simp add: prod_eq_iff state_leased_def)
  qed
  have "\<not> deadline_passed 2 ''mail'' (job_at (state_queued None) 1)"
    "map_of (jobs (state_queued None)) 1 = Some (job_at (state_queued None) 1)"
    "j_id (job_at (state_queued None) 1) = 1" by code_simp+
  then show ?thesis
    using lease_effect[OF sample_queued_inv r] r by (auto simp: sample_env_def)
qed

section \<open>Exclusive leases and the lifecycle\<close>

text \<open>
  C3: A lease is exclusive: while a worker holds a job, no call made on behalf of anyone else
  changes it, neither another worker's lease, outcome, heartbeat or cancellation nor an
  archive run. The only exception is the reaper, and only once the lease has expired.
\<close>

theorem lease_exclusive:
  assumes "mem_inv s" "fresh_envs envs s"
    and "map_of (jobs s) k = Some j" "lease_held w j"
    and "call_worker c \<noteq> Some w" "\<not> (c = CReap \<and> lease_expired (e_now (envs 0)) j)"
  shows "lookup_job (mem_exec envs c s) k = Some j"
  using exec_stored_job[OF assms(1-3), of c] assms(4-6) by (auto simp: job_touched_def)

theorem lease_exclusive_witness:
  "lookup_job (mem_exec (\<lambda>k. sample_env 5 (2 + k)) (CSucceed 1 20 ''w2'' 3) (state_leased None)) 1 =
     Some (job_at (state_leased None) 1)"
  by (rule lease_exclusive[OF sample_leased_inv ids_below_envs[OF samples_below(4)]
        sample_leased_job(1,2)]) simp_all

text \<open>
  C10: No call loses or rewrites a job: whatever the call, a job that can be looked up before
  it can be looked up after it, with the same queue, type, payload, priority, schedule
  limits and links. Its status changes only by the call meant for the change: a lease call on
  its queue makes a due queued job running, a success, retry or dead-letter report by the holder
  of its lease makes it succeeded, queued again or dead-lettered, a cancellation by the holder
  makes it cancelled, and the reaper gives it back once its lease has expired. A terminal job
  does not change at all. Two more changes happen that the documented transition table does not
  have: a cancel call cancels a queued job, and a lease call dead-letters a due queued job whose
  deadline has passed.
\<close>

theorem call_moves_job:
  assumes "mem_reachable s" "fresh_envs envs s" "lookup_job s k = Some j"
  shows "\<exists>j'. lookup_job (mem_exec envs c s) k = Some j' \<and> same_identity j j'
    \<and> (j_status j' = j_status j \<or> moved_by envs c j (j_status j'))
    \<and> (terminal_status (j_status j) \<longrightarrow> j' = j)"
proof -
  note inv = mem_reachable_inv[OF assms(1)]
  from lookup_some_cases[OF inv assms(3)] show ?thesis
  proof cases
    case 1
    from exec_stored_job[OF inv assms(2) 1, of c] show ?thesis
      by (auto simp: job_touched_def evolves_def same_identity_def)
  next
    case 2
    from exec_archived_job[OF inv assms(2) 2(2), of c] show ?thesis by (auto simp: same_identity_def)
  qed
qed

lemma sample_lease_envs: "fresh_envs (\<lambda>k. sample_env 2 (10 + k)) (state_queued None)"
  using ids_below_fresh[OF samples_below(2), of "10 + _" 2]
  by (simp add: fresh_envs_def) (simp add: sample_env_def)

lemma sample_lease_exec:
  "mem_exec (\<lambda>k. sample_env 2 (10 + k)) (CLease ''mail'' ''w1'' 10 5 Fifo) (state_queued None) = state_leased None"
  by (simp add: state_leased_def)

lemma sample_leased_step:
  "mem_step (state_queued None) (CLease ''mail'' ''w1'' 10 5 Fifo) (state_leased None)"
  using mem_step.intros[OF sample_lease_envs, of "CLease ''mail'' ''w1'' 10 5 Fifo"]
  unfolding sample_lease_exec .

theorem call_moves_job_witness:
  "\<exists>j'. lookup_job (state_leased None) 1 = Some j' \<and> same_identity (job_at (state_queued None) 1) j'
     \<and> (j_status j' = ''queued''
        \<or> j_status j' = ''running'' \<and> lease_due 2 ''mail'' (job_at (state_queued None) 1))"
proof -
  have j: "lookup_job (state_queued None) 1 = Some (job_at (state_queued None) 1)"
    "j_status (job_at (state_queued None) 1) = ''queued''"
    "\<not> deadline_passed 2 ''mail'' (job_at (state_queued None) 1)" by code_simp+
  have "e_now (sample_env 2 (10 + 0)) = 2" by (simp add: sample_env_def)
  then show ?thesis
    using call_moves_job[OF sample_queued_reachable sample_lease_envs j(1),
      of "CLease ''mail'' ''w1'' 10 5 Fifo"] j(2,3) unfolding sample_lease_exec by auto
qed

text \<open>
  C11: A terminal outcome is final: once a job has succeeded, been dead-lettered or been
  cancelled, every later state of every run returns the very same record for it, archived
  or not.
\<close>

theorem terminal_is_final:
  assumes "mem_reachable s" "lookup_job s k = Some j" "terminal_status (j_status j)" "mem_run s s'"
  shows "lookup_job s' k = Some j"
  using run_job[OF assms(4) mem_reachable_inv[OF assms(1)] assms(2)] assms(3) by auto

lemma cancelled_sample_reachable: "mem_reachable cancelled_sample"
proof (rule mem_reachable.next_call[OF sample_queued_reachable])
  show "mem_step (state_queued None) (CCancel 1 None) cancelled_sample"
    using mem_step.intros[OF ids_below_envs[OF samples_below(2), of 2], of "CCancel 1 None"]
    by (simp add: cancelled_sample_def numeral_2_eq_2)
qed

theorem terminal_is_final_witness:
  "lookup_job (mem_exec (\<lambda>k. sample_env 9 (2 + k)) (CLease ''mail'' ''w1'' 10 5 Fifo) cancelled_sample) 1 =
     Some (job_at cancelled_sample 1)"
proof (rule terminal_is_final[OF cancelled_sample_reachable])
  show "lookup_job cancelled_sample 1 = Some (job_at cancelled_sample 1)"
    "terminal_status (j_status (job_at cancelled_sample 1))" by code_simp+
  have "ids_below 2 cancelled_sample" by code_simp
  from mem_step.intros[OF ids_below_envs[OF this, of 9]]
  show "mem_run cancelled_sample
    (mem_exec (\<lambda>k. sample_env 9 (2 + k)) (CLease ''mail'' ''w1'' 10 5 Fifo) cancelled_sample)"
    by (blast intro: mem_run.intros)
qed

section \<open>Enqueueing\<close>

text \<open>
  A job that is enqueued and has no idempotent predecessor can be read back: reading the
  returned identifier gives a queued, unlocked job whose request is exactly the one that was
  enqueued, and a waiting subscriber of the queue is woken.
\<close>

theorem enqueue_read_back:
  assumes "mem_find_idempotent job s = None" "mem_enqueue env job s = (Inr i, s')"
  shows "\<exists>j. mem_get_job i s' = (Inr (Some j), s') \<and> NewJob_from_Job j = job
    \<and> j_id j = i \<and> j_status j = ''queued'' \<and> j_locked_by j = None \<and> j_dlq_at j = None
    \<and> j_created_at j = e_now env \<and> j_replay_of_job_id j = None
    \<and> map_of (notifiers s') (nj_queue job) = map_option Suc (map_of (notifiers s) (nj_queue job))"
  using assms
  by (auto simp: mem_enqueue_def Let_def mem_get_job_def lookup_job_def mem_enqueue_entity_def
      NewJob_from_Job_def notify_queue_def put_job_def index_insert_def)

theorem enqueue_read_back_witness:
  "\<exists>j. mem_get_job 1 (state_queued None) = (Inr (Some j), state_queued None)
     \<and> NewJob_from_Job j = sample_job None \<and> j_status j = ''queued''"
proof -
  have "mem_find_idempotent (sample_job None) mem_new = None"
    "fst (mem_enqueue (sample_env 1 1) (sample_job None) mem_new) = Inr 1" by code_simp+
  moreover from this have "mem_enqueue (sample_env 1 1) (sample_job None) mem_new = (Inr 1, state_queued None)"
    by (simp add: prod_eq_iff state_queued_def)
  ultimately show ?thesis using enqueue_read_back by blast
qed

lemma stored_key_found:
  assumes inv: "mem_inv s" and j: "map_of (jobs s) i = Some j" "j_idempotency_key j = Some key"
    and job: "nj_idempotency_key job = Some key"
  shows "mem_enqueue env job s = (Inr i, s)"
proof -
  have "j \<in> set (hm_values (jobs s))" using mem_invD(1)[OF inv] j(1) by (auto simp: in_values_iff)
  then obtain j' where f: "find (\<lambda>e. j_idempotency_key e = Some key) (hm_values (jobs s)) = Some j'"
    using j(2) by (cases "find (\<lambda>e. j_idempotency_key e = Some key) (hm_values (jobs s))")
      (auto simp: find_None_iff)
  from find_SomeD[OF f] have "map_of (jobs s) (j_id j') = Some j'" "j_idempotency_key j' = Some key"
    using job_in_values[OF inv] by auto
  then have "j_id j' = i" using mem_invD(9)[OF inv] j unfolding keys_unique_def by blast
  then show ?thesis using f job by (simp add: mem_enqueue_def mem_find_idempotent_def)
qed

text \<open>
  C15: Enqueueing is idempotent per key: after a job with an idempotency key was enqueued and
  any further calls were made, another enqueue with the same key, even of a different job,
  returns the first identifier and changes nothing, as long as the first job has not been
  archived.
\<close>

theorem enqueue_idempotent:
  assumes "mem_reachable s" "nj_idempotency_key job = Some key"
    and "mem_enqueue env job s = (Inr i, s1)" "fresh_id (e_fresh env 0) s"
    and "mem_run s1 s2" "map_of (archive s2) i = None" "nj_idempotency_key job' = Some key"
  shows "mem_enqueue env' job' s2 = (Inr i, s2)"
proof -
  have inv: "mem_inv s" by (rule mem_reachable_inv[OF assms(1)])
  have s1: "mem_inv s1" using mem_enqueue_inv[OF inv assms(4), of job] assms(3) by simp
  have "\<exists>j. map_of (jobs s1) i = Some j \<and> j_idempotency_key j = Some key"
  proof (cases "mem_find_idempotent job s")
    case None
    then show ?thesis using assms(2,3) by (auto simp: mem_enqueue_def Let_def)
  next
    case (Some e)
    then have "e \<in> set (hm_values (jobs s))" "j_idempotency_key e = Some key"
      using assms(2) by (auto simp: mem_find_idempotent_def dest: find_SomeD)
    then show ?thesis using Some assms(3) job_in_values[OF inv] by (auto simp: mem_enqueue_def)
  qed
  then obtain j where j: "lookup_job s1 i = Some j" "j_idempotency_key j = Some key"
    by (auto simp: lookup_job_def)
  from run_job[OF assms(5) s1 j(1)] obtain j' where
    "lookup_job s2 i = Some j'" "j_idempotency_key j' = Some key"
    using j(2) by (auto simp: same_identity_def)
  then have "map_of (jobs s2) i = Some j'" using assms(6) by (simp add: lookup_job_def split: option.splits)
  then show ?thesis
    using stored_key_found[OF mem_run_inv[OF assms(5) s1]] \<open>j_idempotency_key j' = Some key\<close> assms(7) by blast
qed

theorem enqueue_idempotent_witness:
  "mem_enqueue (sample_env 7 50) (sample_job (Some 60)) (state_leased None) = (Inr 1, state_leased None)"
proof (rule enqueue_idempotent[OF mem_reachable.init])
  show "nj_idempotency_key (sample_job None) = Some ''k1''" "nj_idempotency_key (sample_job (Some 60)) = Some ''k1''"
    by (simp_all add: sample_job_def)
  have "fst (mem_enqueue (sample_env 1 1) (sample_job None) mem_new) = Inr 1" by code_simp
  then show "mem_enqueue (sample_env 1 1) (sample_job None) mem_new = (Inr 1, state_queued None)"
    by (simp add: prod_eq_iff state_queued_def)
  show "fresh_id (e_fresh (sample_env 1 1) 0) mem_new"
    by (rule ids_below_fresh_id[OF samples_below(1)]) simp
  show "mem_run (state_queued None) (state_leased None)"
    using sample_leased_step by (blast intro: mem_run.intros)
  show "map_of (archive (state_leased None)) 1 = None" by code_simp
qed

end
