(* ===== verification/Recovery_Properties.thy ===== *)
theory Recovery_Properties
  imports Sample_States
begin

text \<open>
  Outcomes, recovery and attempts of the in-memory storage: who may report an outcome and
  what the report does, what the reaper does after a crash, how heartbeats hold a lease,
  how attempts are numbered and when a retried job comes back.
\<close>

section \<open>Reporting an outcome\<close>

definition may_report :: "uuid \<Rightarrow> uuid \<Rightarrow> string \<Rightarrow> MemoryBackend \<Rightarrow> bool" where
  "may_report i a w s \<longleftrightarrow> held_by (mem_stored s) w i \<and> mem_opened s a = Some i"

lemma may_report_iff:
  "may_report i a w s \<longleftrightarrow>
     (\<exists>j att. map_of (jobs s) i = Some j \<and> lease_held w j
        \<and> map_of (attempts s) a = Some att \<and> attempt_open i att)"
  unfolding may_report_def held_by_mem mem_opened_Some by blast

text \<open>
  C16: Success, retry and dead-lettering are accepted exactly from the worker that holds the
  job's running lease and for a running attempt of that very job; in every other case the
  report is refused with an error and the storage is left exactly as it was, so a worker
  whose lease was reaped cannot overwrite a later outcome.
\<close>

theorem outcome_needs_lease:
  "(case mem_mark_succeeded env i a w l s of
      (Inl e, s') \<Rightarrow> \<not> may_report i a w s \<and> s' = s | (Inr _, s') \<Rightarrow> may_report i a w s)
   \<and> (case mem_reschedule_for_retry env i a w l t c m n s of
      (Inl e, s') \<Rightarrow> \<not> may_report i a w s \<and> s' = s | (Inr _, s') \<Rightarrow> may_report i a w s)
   \<and> (case mem_mark_dlq env i a w l r c m n s of
      (Inl e, s') \<Rightarrow> \<not> may_report i a w s \<and> s' = s | (Inr _, s') \<Rightarrow> may_report i a w s)"
  unfolding may_report_iff
  by (intro conjI)
     (auto simp: mem_mark_succeeded_def mem_reschedule_for_retry_def mem_mark_dlq_def Let_def
       split: option.split)

text \<open>
  C17: A success report stores the job as succeeded and unlocked, closes the attempt with its
  latency, and, for a recurring job, stores exactly one next occurrence under a new
  identifier: queued, linked to its predecessor, without idempotency key, scheduled one
  interval after the previous schedule and with the deadline shifted by the same interval.
  No other job or attempt changes.
\<close>

theorem succeed_effect:
  assumes "map_of (jobs s) i = Some j" "lease_held w j"
    and "map_of (attempts s) a = Some att" "attempt_open i att" "e_fresh env 0 \<noteq> i"
    and "mem_mark_succeeded env i a w l s = (r, s')"
  shows "r = Inr ()
    \<and> map_of (jobs s') i = Some (complete_job_record (e_now env) j)
    \<and> map_of (attempts s') = (map_of (attempts s))(a \<mapsto> succeed_attempt_record (e_now env) l att)
    \<and> (\<forall>k. k \<noteq> i \<longrightarrow> k \<noteq> e_fresh env 0 \<longrightarrow> map_of (jobs s') k = map_of (jobs s) k)
    \<and> (case j_recurring_interval_seconds j of
         None \<Rightarrow> map_of (jobs s') (e_fresh env 0) = map_of (jobs s) (e_fresh env 0)
       | Some interval \<Rightarrow>
           (\<exists>next. map_of (jobs s') (e_fresh env 0) = Some next
              \<and> j_status next = ''queued'' \<and> j_replay_of_job_id next = Some (j_id j)
              \<and> j_idempotency_key next = None \<and> j_locked_by next = None
              \<and> j_run_at next = j_run_at j + seconds interval
              \<and> j_deadline_at next = map_option (\<lambda>d. d + seconds interval) (j_deadline_at j)
              \<and> j_queue next = j_queue j \<and> j_payload next = j_payload j
              \<and> j_recurring_interval_seconds next = Some interval))"
  using memory_succeed_effect[OF assms(1-4), of env l] assms(5,6)
  by (auto simp: next_occurrence_def split: option.splits)

theorem succeed_effect_witness:
  "\<exists>next. map_of (jobs (state_done (Some 60))) 40 = Some next \<and> j_status next = ''queued''
     \<and> j_run_at next = seconds 60 \<and> j_replay_of_job_id next = Some 1"
proof -
  let ?s = "state_started (Some 60)"
  have j: "j_recurring_interval_seconds (job_at ?s 1) = Some 60" "j_run_at (job_at ?s 1) = 0"
    "j_id (job_at ?s 1) = 1" by code_simp+
  have "mem_mark_succeeded (sample_env 4 40) 1 20 ''w1'' 7 ?s =
      (fst (mem_mark_succeeded (sample_env 4 40) 1 20 ''w1'' 7 ?s), state_done (Some 60))"
    by (simp add: state_done_def)
  from succeed_effect[OF sample_leased_job(7-10) _ this] j show ?thesis
    by (auto simp: sample_env_def)
qed

section \<open>Recovery after a crash\<close>

text \<open>
  C18: The reaper requeues exactly the running jobs whose lease has expired and reports their
  number, fails exactly the running attempts of those jobs with \<^verbatim>\<open>LEASE_EXPIRED\<close>, and leaves
  every other job and attempt unchanged.
\<close>

theorem reap_exact:
  assumes "mem_inv s" "mem_reap_expired_locks env s = (r, s')"
  shows "mem_inv s'
    \<and> r = Inr (card {i. \<exists>j. map_of (jobs s) i = Some j \<and> lease_expired (e_now env) j})
    \<and> (\<forall>k. map_of (jobs s') k =
         map_option (\<lambda>j. if lease_expired (e_now env) j then requeue_job (e_now env) j else j)
           (map_of (jobs s) k))
    \<and> (\<forall>a. map_of (attempts s') a =
         map_option
           (\<lambda>att. if at_status att = ''running''
                     \<and> (\<exists>j. map_of (jobs s) (at_job_id att) = Some j \<and> lease_expired (e_now env) j)
                   then fail_attempt_record (e_now env) 0 ''LEASE_EXPIRED''
                          ''worker lease expired before ACK'' att
                   else att)
           (map_of (attempts s) a))"
proof -
  have s': "s' = snd (mem_reap_expired_locks env s)" and r: "r = fst (mem_reap_expired_locks env s)"
    using assms(2) by simp_all
  have "set (expired_ids (e_now env) s) = {i. \<exists>j. map_of (jobs s) i = Some j \<and> lease_expired (e_now env) j}"
    using in_expired_ids[OF assms(1)] by auto
  then have "length (expired_ids (e_now env) s) = card {i. \<exists>j. map_of (jobs s) i = Some j \<and> lease_expired (e_now env) j}"
    using distinct_card[OF expired_ids_distinct[OF assms(1)], of "e_now env"] by simp
  moreover have "reap_attempt (e_now env) (set (expired_ids (e_now env) s)) =
      (\<lambda>att. if at_status att = ''running''
                \<and> (\<exists>j. map_of (jobs s) (at_job_id att) = Some j \<and> lease_expired (e_now env) j)
             then fail_attempt_record (e_now env) 0 ''LEASE_EXPIRED''
                    ''worker lease expired before ACK'' att
             else att)"
    using in_expired_ids[OF assms(1)] by (auto simp: reap_attempt_def fun_eq_iff)
  ultimately show ?thesis
    using reap_invariant_count[OF assms(1), of env] reap_jobs_after[OF assms(1), of env]
      reap_attempts_after[of env s]
    by (simp add: s' r map_option_case split: option.split)
qed

theorem reap_exact_witness:
  "map_of (jobs (snd (mem_reap_expired_locks (sample_env (2 + seconds 10) 60) (state_started None)))) 1 =
     Some (requeue_job (2 + seconds 10) (job_at (state_started None) 1))
   \<and> fst (mem_reap_expired_locks (sample_env (2 + seconds 10) 60) (state_started None)) =
       Inr (card {i. \<exists>j. map_of (jobs (state_started None)) i = Some j \<and> lease_expired (2 + seconds 10) j})"
proof -
  let ?op = "mem_reap_expired_locks (sample_env (2 + seconds 10) 60) (state_started None)"
  have "lease_expired (2 + seconds 10) (job_at (state_started None) 1)" by code_simp
  then show ?thesis
    using reap_exact[OF sample_started_inv(1), of "sample_env (2 + seconds 10) 60" "fst ?op" "snd ?op"]
      sample_leased_job(3)
    by (simp add: sample_env_def)
qed

lemma lease_all_due:
  assumes inv: "mem_inv s" and j: "map_of (jobs s) k = Some j" "lease_due (e_now env) q j"
    and n: "int (length (jobs s)) \<le> bs"
    and leased: "mem_lease_jobs_batch_with_ordering env q w ls bs policy s = (Inr js, s')"
  shows "lock_job (e_now env) w (e_now env + seconds ls) j \<in> set js"
proof -
  have "j \<in> set (hm_values (jobs s))" using mem_invD(1)[OF inv] j(1) by (auto simp: in_values_iff)
  moreover have "length (filter (lease_due (e_now env) q) (hm_values (jobs s))) \<le> nat (max bs 0)"
    using n order_trans[OF length_filter_le[of "lease_due (e_now env) q" "hm_values (jobs s)"]]
    by (simp add: hm_values_def)
  ultimately have "j \<in> set (lease_spec (e_now env) q (nat (max bs 0)) s)"
    using j(2) by (simp add: lease_spec_def)
  then show ?thesis using lease_result[OF inv, of env q w ls bs policy] leased by simp
qed

text \<open>
  C19: Work survives a crash: if the worker that holds a job never reports back, then once
  its lease has expired a pass of the reaper followed by a lease call of any other worker,
  with a batch large enough for the table, hands the job to that worker, provided the job
  is due and within its deadline.
\<close>

theorem crash_recovery:
  assumes "mem_inv s" "map_of (jobs s) k = Some j" "lease_expired (e_now env) j"
    and "e_now env \<le> e_now env'" "j_run_at j \<le> e_now env'" "\<not> past_deadline (e_now env') j"
    and "mem_reap_expired_locks env s = (r, s1)" "int (length (jobs s1)) \<le> bs"
    and "mem_lease_jobs_batch_with_ordering env' (j_queue j) w ls bs policy s1 = (Inr js, s2)"
  shows "\<exists>j' \<in> set js. j_id j' = k \<and> lease_held w j' \<and> same_identity j j'
    \<and> j_lock_expires_at j' = Some (e_now env' + seconds ls)"
proof -
  let ?j1 = "requeue_job (e_now env) j"
  have s1: "s1 = snd (mem_reap_expired_locks env s)" using assms(7) by simp
  have "mem_inv s1" unfolding s1 by (rule reap_invariant_count(1)[OF assms(1)])
  moreover have "map_of (jobs s1) k = Some ?j1"
    using reap_jobs_after[OF assms(1), of env k] assms(2,3) by (simp add: s1)
  moreover have "lease_due (e_now env') (j_queue j) ?j1"
    using assms(5,6) by (simp add: lease_due_def past_deadline_def requeue_job_def)
  ultimately have "lock_job (e_now env') w (e_now env' + seconds ls) ?j1 \<in> set js"
    using lease_all_due assms(8,9) by blast
  moreover have "j_id j = k" using mem_invD(2)[OF assms(1)] assms(2) by (simp add: jobs_wf_def)
  ultimately show ?thesis
    by (intro bexI[of _ "lock_job (e_now env') w (e_now env' + seconds ls) ?j1"])
       (simp_all add: same_identity_def lock_job_def requeue_job_def)
qed

theorem crash_recovery_witness:
  "\<exists>js s2. mem_lease_jobs_batch_with_ordering (sample_env (seconds 20) 70) ''mail'' ''w2'' 10 5 Fifo
       (snd (mem_reap_expired_locks (sample_env (seconds 20) 60) (state_leased None))) = (Inr js, s2)
     \<and> (\<exists>j' \<in> set js. j_id j' = 1 \<and> lease_held ''w2'' j')"
proof -
  let ?s1 = "snd (mem_reap_expired_locks (sample_env (seconds 20) 60) (state_leased None))"
  let ?l = "mem_lease_jobs_batch_with_ordering (sample_env (seconds 20) 70) ''mail'' ''w2'' 10 5 Fifo ?s1"
  let ?j = "job_at (state_leased None) 1"
  have f: "lease_expired (seconds 20) ?j" "j_run_at ?j \<le> seconds 20" "\<not> past_deadline (seconds 20) ?j"
    "j_queue ?j = ''mail''" "int (length (jobs ?s1)) \<le> 5" by code_simp+
  have r: "mem_reap_expired_locks (sample_env (seconds 20) 60) (state_leased None) =
      (fst (mem_reap_expired_locks (sample_env (seconds 20) 60) (state_leased None)), ?s1)" by simp
  obtain js s2 where l: "?l = (Inr js, s2)"
    using lease_result[OF reap_invariant_count(1)[OF sample_leased_inv[of None], of "sample_env (seconds 20) 60"],
        of "sample_env (seconds 20) 70" "''mail''" "''w2''" 10 5 Fifo]
    by (metis prod.collapse)
  have e: "e_now (sample_env t n) = t" for t n by (simp add: sample_env_def)
  from crash_recovery[OF sample_leased_inv sample_leased_job(1), of "sample_env (seconds 20) 60"
      "sample_env (seconds 20) 70", unfolded e f(4), OF f(1) order_refl f(2,3) r f(5) l] l
  show ?thesis by blast
qed

text \<open>
  A heartbeat holds the lease: after the holder extends its lease, a reaper pass at any
  moment before the new end of the lease leaves the job running under the same worker.
\<close>

theorem heartbeat_holds:
  assumes "mem_inv s" "map_of (jobs s) k = Some j" "lease_held w j"
    and "mem_extend_lease env k w ls s = (r, s1)" "e_now env' < e_now env + seconds ls"
    and "mem_reap_expired_locks env' s1 = (r', s2)"
  shows "r = Inr True \<and> (\<exists>j'. map_of (jobs s2) k = Some j' \<and> lease_held w j' \<and> same_identity j j')"
proof -
  let ?j1 = "j\<lparr>j_lock_expires_at := Some (e_now env + seconds ls), j_updated_at := e_now env\<rparr>"
  have r: "r = Inr True" and s1: "map_of (jobs s1) k = Some ?j1"
    using assms(2-4) by (auto simp: mem_extend_lease_def)
  have inv: "mem_inv s1" using mem_extend_lease_inv[OF assms(1), of env k w ls] assms(4) by simp
  have "\<not> lease_expired (e_now env') ?j1" using assms(5) by (simp add: lease_expired_def)
  then have "map_of (jobs s2) k = Some ?j1"
    using reap_jobs_after[OF inv, of env' k] s1 assms(6) by simp
  then show ?thesis using r assms(3) by (simp add: same_identity_def)
qed

theorem heartbeat_holds_witness:
  "\<exists>j'. map_of (jobs (snd (mem_reap_expired_locks (sample_env (seconds 12) 60)
        (snd (mem_extend_lease (sample_env (seconds 8) 50) 1 ''w1'' 10 (state_leased None)))))) 1 = Some j'
     \<and> lease_held ''w1'' j'"
proof -
  let ?x = "mem_extend_lease (sample_env (seconds 8) 50) 1 ''w1'' 10 (state_leased None)"
  let ?y = "mem_reap_expired_locks (sample_env (seconds 12) 60) (snd ?x)"
  have "e_now (sample_env (seconds 12) 60) < e_now (sample_env (seconds 8) 50) + seconds 10"
    by (simp add: sample_env_def seconds_def)
  from heartbeat_holds[OF sample_leased_inv sample_leased_job(1,2) prod.collapse[symmetric, of ?x] this
      prod.collapse[symmetric, of ?y]]
  show ?thesis by blast
qed

section \<open>Attempts and retries\<close>

text \<open>
  Starting attempts for a batch of distinct jobs the worker holds succeeds for the whole
  batch: every job gets one new running attempt under a new identifier, numbered one higher
  than the attempts counted so far, and all earlier attempts and all jobs stay as they are.
\<close>

theorem start_numbers_attempts:
  assumes "mem_inv s" "fresh_env env s" "distinct is" "is \<noteq> []"
    and "\<forall>i \<in> set is. \<exists>j. map_of (jobs s) i = Some j \<and> lease_held w j"
  shows "\<exists>rs s'. mem_start_attempts_batch env ds is w s = (Inr rs, s') \<and> map fst rs = is
    \<and> jobs s' = jobs s \<and> mem_inv s'
    \<and> (\<forall>(i, a, n) \<in> set rs. n = attempt_count s i + 1 \<and> map_of (attempts s) a = None
         \<and> map_of (attempts s') a = Some (new_attempt (e_now env) a i n w))
    \<and> (\<forall>a att. map_of (attempts s) a = Some att \<longrightarrow> map_of (attempts s') a = Some att)"
proof -
  have inj: "inj (e_fresh env)" and fresh: "map_of (attempts s) (e_fresh env k) = None" for k
    using assms(2) by (auto simp: fresh_env_def fresh_id_def)
  from start_loop_ok[of "is" s w "e_fresh env" "e_now env"] assms(5) inj
  obtain rs s' where
    loop: "start_loop (e_now env) (e_fresh env) w is s = (Inr rs, s')" "map fst rs = is"
      "map (fst \<circ> snd) rs = map (e_fresh env) [0..<length is]"
    and old: "\<forall>a. a \<notin> e_fresh env ` {..<length is} \<longrightarrow> map_of (attempts s') a = map_of (attempts s) a"
    and new: "\<forall>(i, a, n) \<in> set rs. map_of (attempts s') a = Some (new_attempt (e_now env) a i n w)
         \<and> attempt_count s i < n"
    and num: "\<forall>(i, a, n) \<in> set rs. n = attempt_count s i + 1"
    using assms(3) by auto
  have eq: "mem_start_attempts_batch env ds is w s = (Inr rs, s')"
    using loop(1) assms(4) by (simp add: mem_start_attempts_batch_def)
  have "jobs s' = jobs s" using start_loop_jobs(1)[of "e_now env" "e_fresh env" w "is" s] loop(1) by simp
  moreover have "mem_inv s'" using mem_start_attempts_batch_inv[OF assms(1,2), of ds "is" w] eq by simp
  moreover have "map_of (attempts s) a = None" if "(i, a, n) \<in> set rs" for i a n
  proof -
    have "a \<in> set (map (fst \<circ> snd) rs)" using that by force
    then show ?thesis using loop(3) fresh by auto
  qed
  moreover have "map_of (attempts s') a = Some att" if "map_of (attempts s) a = Some att" for a att
    using old that fresh by (metis imageE option.distinct(1))
  ultimately show ?thesis using eq loop(2) new num by fastforce
qed

theorem start_numbers_attempts_witness:
  "\<exists>rs s'. mem_start_attempts_batch (sample_env 3 20) [''default''] [1] ''w1'' (state_leased None) = (Inr rs, s')
     \<and> map fst rs = [1] \<and> (\<forall>(i, a, n) \<in> set rs. n = attempt_count (state_leased None) i + 1)"
proof -
  have "\<forall>i \<in> set [1]. \<exists>j. map_of (jobs (state_leased None)) i = Some j \<and> lease_held ''w1'' j"
    using sample_leased_job(1,2) by simp
  from start_numbers_attempts[OF sample_leased_inv ids_below_fresh[OF samples_below(4), of 20 3] _ _ this,
      of "[''default'']"]
  show ?thesis by fastforce
qed

text \<open>
  A retried job waits for its time: after the worker reschedules it for \<open>t\<close>, no lease call
  made before \<open>t\<close> hands it out, and one made at or after \<open>t\<close> with a batch large enough and
  within the deadline does. Its failed attempt keeps the reported code and message.
\<close>

theorem retry_waits:
  assumes "mem_inv s" "mem_reschedule_for_retry env i a w l t code msg n s = (Inr (), s1)"
    and "mem_lease_jobs_batch_with_ordering env' q w' ls bs policy s1 = (Inr js, s2)"
  shows "(i \<in> j_id ` set js \<longrightarrow> t \<le> e_now env')
    \<and> (\<exists>j. map_of (jobs s1) i = Some j \<and> j_status j = ''queued'' \<and> j_run_at j = t
         \<and> (t \<le> e_now env' \<and> j_queue j = q \<and> \<not> past_deadline (e_now env') j
              \<and> int (length (jobs s1)) \<le> bs \<longrightarrow> i \<in> j_id ` set js))
    \<and> (\<exists>att. map_of (attempts s1) a = Some att \<and> at_status att = ''failed''
         \<and> at_error_code att = Some code \<and> at_error_message att = Some msg)"
proof -
  have inv: "mem_inv s1" using mem_reschedule_for_retry_inv[OF assms(1), of env i a w l t code msg n]
      assms(2) by simp
  from assms(2) obtain j where
    j: "map_of (jobs s1) i = Some j" "j_status j = ''queued''" "j_run_at j = t"
    and att: "\<exists>att. map_of (attempts s1) a = Some att \<and> at_status att = ''failed''
         \<and> at_error_code att = Some code \<and> at_error_message att = Some msg"
    by (auto simp: mem_reschedule_for_retry_def Let_def fail_attempt_record_def requeue_job_def
        split: option.splits if_splits)
  have id: "j_id j = i" using mem_invD(2)[OF inv] j(1) by (simp add: jobs_wf_def)
  have "t \<le> e_now env'" if "i \<in> j_id ` set js"
  proof -
    from that obtain jl where "jl \<in> set (lease_spec (e_now env') q (nat (max bs 0)) s1)" "j_id jl = i"
      using lease_result[OF inv, of env' q w' ls bs policy] assms(3) by auto
    then show ?thesis using lease_spec_mem[OF inv] j(1,3) by (metis lease_due_def option.inject)
  qed
  moreover have "i \<in> j_id ` set js"
    if "t \<le> e_now env'" "j_queue j = q" "\<not> past_deadline (e_now env') j" "int (length (jobs s1)) \<le> bs"
  proof -
    have "lease_due (e_now env') q j" using that j(2,3) by (simp add: lease_due_def)
    from imageI[OF lease_all_due[OF inv j(1) this that(4) assms(3)], of j_id] show ?thesis
      using id by simp
  qed
  ultimately show ?thesis using j att by blast
qed

theorem retry_waits_witness:
  "\<exists>s1 js s2.
     mem_reschedule_for_retry (sample_env 5 60) 1 20 ''w1'' 3 100 ''TIMEOUT'' ''slow'' 1 (state_started None) = (Inr (), s1)
     \<and> mem_lease_jobs_batch_with_ordering (sample_env 99 70) ''mail'' ''w2'' 10 5 Fifo s1 = (Inr js, s2)
     \<and> 1 \<notin> j_id ` set js"
proof -
  let ?r = "mem_reschedule_for_retry (sample_env 5 60) 1 20 ''w1'' 3 100 ''TIMEOUT'' ''slow'' 1 (state_started None)"
  let ?l = "mem_lease_jobs_batch_with_ordering (sample_env 99 70) ''mail'' ''w2'' 10 5 Fifo (snd ?r)"
  have "fst ?r = Inr ()" by code_simp
  then have r: "?r = (Inr (), snd ?r)" by (metis prod.collapse)
  then have inv: "mem_inv (snd ?r)" by (metis mem_reschedule_for_retry_inv sample_started_inv(1))
  obtain js s2 where l: "?l = (Inr js, s2)"
    using lease_result[OF inv, of "sample_env 99 70" "''mail''" "''w2''" 10 5 Fifo] by (metis prod.collapse)
  have "1 \<notin> j_id ` set js"
    using retry_waits[OF sample_started_inv(1) r l] by (auto simp: sample_env_def)
  then show ?thesis using r l by blast
qed

end
