(* ===== verification/Query_Properties.thy ===== *)
theory Query_Properties
  imports Sample_States
begin

text \<open>
  Listing, replaying, cancelling, archiving and observing jobs of the in-memory storage.
\<close>

definition no_externals :: Externals where
  "no_externals = \<lparr>x_json_get = (\<lambda>_ _. None), x_json_as_str = (\<lambda>_. None), x_show_time = show_int\<rparr>"

section \<open>Listing in pages\<close>

text \<open>
  Following the cursor from page to page enumerates the jobs that match the filter, each
  exactly once and newest first, as soon as there are enough pages for them; the page size
  is the limit clamped to 1..500.
\<close>

theorem pages_enumerate_jobs:
  assumes "mem_inv s" "length (jobs s) \<le> n * page_size limit"
  shows "distinct (map li_id (follow_pages q st limit n None s))
    \<and> set (follow_pages q st limit n None s) =
        list_item ` {j. map_of (jobs s) (j_id j) = Some j \<and> list_filter q st j}
    \<and> sorted (map newest_first (follow_pages q st limit n None s))"
proof -
  let ?L = "listing q st s"
  have len: "length ?L \<le> length (jobs s)"
    using length_filter_le[of "list_filter q st" "hm_values (jobs s)"]
    by (simp add: listing_def hm_values_def)
  have all: "follow_pages q st limit n None s = ?L"
    using follow_pages_all[OF assms(1), of q st limit n] len assms(2) by simp
  have "li_id \<circ> list_item = j_id" by (simp add: fun_eq_iff)
  moreover have "distinct (map j_id (filter (list_filter q st) (hm_values (jobs s))))"
    using job_ids_distinct(2)[OF assms(1)] by (simp add: distinct_map_filter)
  ultimately have "distinct (map li_id (map list_item (filter (list_filter q st) (hm_values (jobs s)))))"
    by simp
  then have "distinct (map li_id ?L)" unfolding listing_def by (simp only: distinct_map distinct_sort set_sort)
  then show ?thesis
    using job_in_values[OF assms(1)] by (auto simp: all listing_def image_iff)
qed

theorem pages_enumerate_jobs_witness:
  "mem_inv (state_done (Some 60)) \<and> length (jobs (state_done (Some 60))) \<le> 2 * page_size 1
   \<and> distinct (map li_id (follow_pages None None 1 2 None (state_done (Some 60))))
   \<and> map li_id (follow_pages None None 1 2 None (state_done (Some 60))) = [40, 1]"
proof -
  have l: "length (jobs (state_done (Some 60))) \<le> 2 * page_size 1"
    "map li_id (follow_pages None None 1 2 None (state_done (Some 60))) = [40, 1]" by code_simp+
  from pages_enumerate_jobs[OF sample_done_inv(2) l(1), of None None] l show ?thesis
    using sample_done_inv(2) by simp
qed

section \<open>Replay and cancellation\<close>

text \<open>
  Replaying a job, stored or archived, creates a new queued job under the fresh identifier
  with the same type, payload, priority, limits and recurrence, linked to the original and
  without its idempotency key, in the overriding queue and at the overriding time when
  given. The original and every other job keep their records; an unknown identifier is an
  error and changes nothing.
\<close>

theorem replay_copies:
  assumes "mem_inv s" "fresh_id (e_fresh env 0) s"
    and "mem_replay_job env i oq ot s = (r, s')"
  shows "case lookup_job s i of
      None \<Rightarrow> r = Inl (job_not_found i) \<and> s' = s
    | Some src \<Rightarrow> r = Inr (e_fresh env 0) \<and> mem_inv s'
        \<and> (\<forall>k. k \<noteq> e_fresh env 0 \<longrightarrow> lookup_job s' k = lookup_job s k)
        \<and> (\<exists>j. lookup_job s' (e_fresh env 0) = Some j \<and> j_status j = ''queued''
             \<and> j_replay_of_job_id j = Some i \<and> j_idempotency_key j = None
             \<and> j_queue j = (case oq of None \<Rightarrow> j_queue src | Some q \<Rightarrow> q)
             \<and> j_run_at j = (case ot of None \<Rightarrow> e_now env | Some t \<Rightarrow> t)
             \<and> j_job_type j = j_job_type src \<and> j_payload j = j_payload src
             \<and> j_priority j = j_priority src \<and> j_max_attempts j = j_max_attempts src
             \<and> j_deadline_at j = j_deadline_at src \<and> j_timeout_seconds j = j_timeout_seconds src
             \<and> j_recurring_interval_seconds j = j_recurring_interval_seconds src)"
proof (cases "lookup_job s i")
  case None
  then show ?thesis using assms(3) by (simp add: mem_replay_job_def)
next
  case (Some src)
  have "mem_inv s'" using mem_replay_inv[OF assms(1,2), of i oq ot] assms(3) by simp
  moreover have "lookup_job s' k = lookup_job s k" if "k \<noteq> e_fresh env 0" for k
    using replay_jobs_after(1)[of k env i oq ot s] replay_jobs_after(2)[of env i oq ot s] that assms(3) by (simp add: lookup_job_def split: option.split)
  ultimately show ?thesis
    using Some assms(3) by (auto simp: mem_replay_job_def Let_def lookup_job_def replay_entity_def)
qed

theorem replay_copies_witness:
  "\<exists>j. lookup_job (snd (mem_replay_job (sample_env 9 21) 1 (Some ''slow'') None (state_done None))) 21 = Some j
     \<and> j_queue j = ''slow'' \<and> j_replay_of_job_id j = Some 1"
proof -
  let ?p = "mem_replay_job (sample_env 9 21) 1 (Some ''slow'') None (state_done None)"
  have j: "lookup_job (state_done None) 1 = Some (job_at (state_done None) 1)" by code_simp
  from replay_copies[OF sample_done_inv(1) ids_below_fresh_id[OF samples_below(8) order_refl]
      prod.collapse[symmetric, of ?p]] j
  show ?thesis by (auto simp: sample_env_def)
qed

text \<open>
  C29: Cancelling succeeds exactly for a queued job and for a running job whose lease the
  named worker holds. On success the job is cancelled and unlocked, no lease call in any later
  state of any run hands it out again, and the latest running attempt of the job is closed as
  failed; otherwise the error says why and the storage is unchanged.
\<close>

theorem cancel_guarded:
  assumes "mem_inv s" "mem_cancel_job env i w s = (r, s')"
  shows "(r = Inr () \<longleftrightarrow> (\<exists>j. map_of (jobs s) i = Some j
            \<and> (j_status j = ''queued'' \<or> j_status j = ''running'' \<and> w \<noteq> None \<and> j_locked_by j = w)))
    \<and> (r \<noteq> Inr () \<longrightarrow> s' = s)
    \<and> (r = Inr () \<longrightarrow> mem_inv s'
         \<and> (\<exists>j. map_of (jobs s) i = Some j \<and> map_of (jobs s') i = Some (cancel_job_record (e_now env) j))
         \<and> (\<forall>s'' env' q w' ls bs policy. mem_run s' s'' \<longrightarrow>
              i \<notin> j_id ` set (projr (fst (mem_lease_jobs_batch_with_ordering env' q w' ls bs policy s'')))))
    \<and> (\<forall>j a att. r = Inr () \<and> map_of (jobs s) i = Some j \<and> j_status j = ''running''
         \<and> latest_open_attempt i s = Some (a, att) \<longrightarrow>
         map_of (attempts s') a = Some (fail_attempt_record (e_now env) 0 ''CANCELLED'' ''job cancelled'' att))
    \<and> (\<forall>k. k \<noteq> i \<longrightarrow> map_of (jobs s') k = map_of (jobs s) k)"
proof -
  have r: "r = fst (mem_cancel_job env i w s)" "s' = snd (mem_cancel_job env i w s)" using assms(2) by simp_all
  have ok: "r = Inr () \<longleftrightarrow> (\<exists>j. map_of (jobs s) i = Some j \<and> cancel_guard i w j = None)"
    by (auto simp: r cancel_stages split: option.split)
  have fail: "s' = s" if "r \<noteq> Inr ()"
    using that by (auto simp: r cancel_stages split: option.splits)
  have stored: "\<exists>j. map_of (jobs s) i = Some j \<and> map_of (jobs s') i = Some (cancel_job_record (e_now env) j)"
    if "r = Inr ()"
    using that by (auto simp: r cancel_stages split: option.splits)
  have inv: "mem_inv s'" unfolding r by (rule mem_cancel_job_inv[OF assms(1)])
  have "i \<notin> j_id ` set (projr (fst (mem_lease_jobs_batch_with_ordering env' q w' ls bs policy s'')))"
    if rr: "r = Inr ()" and run: "mem_run s' s''" for s'' env' q w' ls bs policy
  proof
    note inv'' = mem_run_inv[OF run inv]
    assume "i \<in> j_id ` set (projr (fst (mem_lease_jobs_batch_with_ordering env' q w' ls bs policy s'')))"
    then obtain j' where "j' \<in> set (lease_spec (e_now env') q (nat (max bs 0)) s'')" "j_id j' = i"
      using lease_result[OF inv''] by auto
    then have j': "lookup_job s'' i = Some j'" "j_status j' = ''queued''"
      using lease_spec_mem(1,2)[OF inv''] by (auto simp: lookup_job_def lease_due_def)
    obtain c where c: "lookup_job s' i = Some c" "j_status c = ''canceled''"
      using stored[OF rr] by (auto simp: lookup_job_def record_defs)
    show False using run_job[OF run inv c(1)] j' c(2) by (auto simp: terminal_status_def)
  qed
  moreover have "map_of (jobs s') k = map_of (jobs s) k" if "k \<noteq> i" for k
    using that cancel_jobs_after(1)[of env i w s k] by (simp add: r(2))
  moreover have "map_of (attempts s') a =
      Some (fail_attempt_record (e_now env) 0 ''CANCELLED'' ''job cancelled'' att)"
    if "r = Inr ()" "map_of (jobs s) i = Some j" "j_status j = ''running''"
      "latest_open_attempt i s = Some (a, att)" for j a att
    using that by (auto simp: r cancel_stages close_latest_def split: option.splits)
  ultimately show ?thesis using ok fail stored inv by (auto simp: cancel_guard_None)
qed

theorem cancel_guarded_witness:
  "fst (mem_cancel_job (sample_env 9 60) 1 None (state_leased None)) \<noteq> Inr ()
   \<and> snd (mem_cancel_job (sample_env 9 60) 1 None (state_leased None)) = state_leased None
   \<and> fst (mem_cancel_job (sample_env 9 60) 1 (Some ''w1'') (state_leased None)) = Inr ()"
proof -
  let ?c = "\<lambda>w. mem_cancel_job (sample_env 9 60) 1 w (state_leased None)"
  have f: "fst (?c None) \<noteq> Inr ()" "fst (?c (Some ''w1'')) = Inr ()" by code_simp+
  show ?thesis
    using cancel_guarded[OF sample_leased_inv prod.collapse[symmetric, of "?c None"]] f by simp
qed

section \<open>Archiving\<close>

lemma wf_map_length: "wf_map m \<Longrightarrow> length m = card (dom (map_of m))"
  by (simp add: wf_map_def dom_map_of_conv_image_fst distinct_card flip: set_map)

lemma archive_count:
  assumes "mem_inv s"
  shows "length (jobs (archive_loop (archivable_ids cutoff limit s) s)) + length (archivable_ids cutoff limit s)
    = length (jobs s)"
proof -
  let ?is = "archivable_ids cutoff limit s" and ?s' = "archive_loop (archivable_ids cutoff limit s) s"
  have sub: "set ?is \<subseteq> dom (map_of (jobs s))"
    by (auto elim: archivable_idsD[OF assms])
  have "distinct ?is"
    using job_ids_distinct(2)[OF assms] unfolding archivable_ids_def take_map[symmetric]
    by (intro distinct_take distinct_map_filter)
  moreover have "dom (map_of (jobs ?s')) = dom (map_of (jobs s)) - set ?is"
    by (auto simp: archive_loop_tables split: if_splits)
  moreover have "mem_inv ?s'" using mem_archive_inv[OF assms, of cutoff limit] by (simp add: archive_stages)
  ultimately show ?thesis
    using sub card_mono[OF finite_dom_map_of sub] mem_invD(1)[OF assms] mem_invD(1)[of ?s']
    by (simp add: wf_map_length card_Diff_subset distinct_card finite_dom_map_of)
qed

lemma delete_history_tables:
  "jobs (snd (mem_delete_history_for_succeeded_older_than cutoff limit s)) = jobs s"
  "archive (snd (mem_delete_history_for_succeeded_older_than cutoff limit s)) = archive s"
  by (simp_all add: mem_delete_history_for_succeeded_older_than_def Let_def)

lemma delete_history_removed:
  assumes inv: "mem_inv s" and a: "map_of (attempts s) a = Some att"
    and gone: "map_of (attempts (snd (mem_delete_history_for_succeeded_older_than cutoff limit s))) a = None"
  shows "at_started_at att < cutoff \<and> map_of (archive s) (at_job_id att) \<noteq> None"
proof -
  let ?ids = "map j_id (filter (\<lambda>j. j_updated_at j < cutoff) (hm_values (archive s)))"
  from gone a obtain b where b: "b \<in> set (hm_values (attempts s))" "at_id b = a"
    "at_started_at b < cutoff" "at_job_id b \<in> set ?ids"
    by (auto simp: mem_delete_history_for_succeeded_older_than_def Let_def fold_remove_map
        split: if_splits dest!: in_set_takeD)
  from b(1) obtain k where k: "map_of (attempts s) k = Some b"
    using mem_invD(6)[OF inv] by (auto simp: in_values_iff)
  then have "b = att" using b(2) a mem_invD(5)[OF inv] by (auto simp: attempts_wf_def)
  moreover from b(4) obtain j where "j \<in> set (hm_values (archive s))" "j_id j = at_job_id b" by auto
  then have "map_of (archive s) (at_job_id b) \<noteq> None"
    using mem_invD(7)[OF inv] mem_invD(4)[OF inv] by (auto simp: in_values_iff archive_wf_def)
  ultimately show ?thesis using b(3) by blast
qed

text \<open>
  C30: Archiving moves only succeeded jobs last updated before the cutoff, at most as many as
  the limit, reports how many, and never makes a job unreadable: every identifier returns
  the same record before and after. Deleting history removes only attempts that started
  before the cutoff and belong to an archived job, at most as many as the limit, and no
  other attempt.
\<close>

theorem archive_keeps_jobs:
  assumes "mem_inv s" "0 \<le> limit" "limit < 2 ^ 64"
    and "mem_archive_succeeded_older_than cutoff limit s = (r, s')"
    and "mem_delete_history_for_succeeded_older_than cutoff limit s' = (r', s'')"
  shows "lookup_job s' = lookup_job s
    \<and> (\<exists>n. r = Inr n \<and> int n \<le> limit \<and> length (jobs s') + n = length (jobs s))
    \<and> (\<forall>k j. map_of (jobs s) k = Some j \<and> map_of (jobs s') k = None
         \<longrightarrow> j_status j = ''succeeded'' \<and> j_updated_at j < cutoff)
    \<and> lookup_job s'' = lookup_job s
    \<and> (\<forall>a att. map_of (attempts s) a = Some att \<and> map_of (attempts s'') a = None
         \<longrightarrow> at_started_at att < cutoff \<and> map_of (archive s') (at_job_id att) \<noteq> None)"
proof -
  let ?is = "archivable_ids cutoff limit s"
  have r: "r = Inr (length ?is)" "s' = archive_loop ?is s" using assms(4) by (simp_all add: archive_stages)
  have look: "lookup_job s' = lookup_job s"
    using archive_lookup_after[OF assms(1), of cutoff limit] assms(4) by (simp add: fun_eq_iff)
  have "length ?is \<le> as_usize limit" by (simp add: archivable_ids_def)
  then have "int (length ?is) \<le> limit" using as_usize_nonneg[OF assms(2,3)] assms(2) by linarith
  then have count: "\<exists>n. r = Inr n \<and> int n \<le> limit \<and> length (jobs s') + n = length (jobs s)"
    using archive_count[OF assms(1)] by (simp add: r)
  have moved: "j_status j = ''succeeded'' \<and> j_updated_at j < cutoff"
    if "map_of (jobs s) k = Some j" "map_of (jobs s') k = None" for k j
    using that by (auto simp: r archive_loop_tables split: if_splits elim: archivable_idsD[OF assms(1)])
  have s'': "jobs s'' = jobs s'" "archive s'' = archive s'"
    using delete_history_tables[of cutoff limit s'] assms(5) by simp_all
  have inv': "mem_inv s'" using mem_archive_inv[OF assms(1), of cutoff limit] assms(4) by simp
  have gone: "at_started_at att < cutoff \<and> map_of (archive s') (at_job_id att) \<noteq> None"
    if "map_of (attempts s) a = Some att" "map_of (attempts s'') a = None" for a att
    using that delete_history_removed[OF inv', of a att cutoff limit] assms(5)
    by (simp add: r archive_loop_tables)
  have "lookup_job s'' = lookup_job s'"
    unfolding lookup_job_def[abs_def] s'' ..
  then show ?thesis using look count moved gone by auto
qed

theorem archive_keeps_jobs_witness:
  "lookup_job (snd (mem_archive_succeeded_older_than 10 100 (state_done None))) 1 =
     Some (job_at (state_done None) 1)
   \<and> map_of (jobs (snd (mem_archive_succeeded_older_than 10 100 (state_done None)))) 1 = None"
proof -
  let ?a = "mem_archive_succeeded_older_than 10 100 (state_done None)"
  let ?d = "mem_delete_history_for_succeeded_older_than 10 100 (snd ?a)"
  have f: "map_of (jobs (snd ?a)) 1 = None" "lookup_job (state_done None) 1 = Some (job_at (state_done None) 1)"
    by code_simp+
  show ?thesis
    using archive_keeps_jobs[OF sample_done_inv(1) _ _ prod.collapse[symmetric, of ?a]
        prod.collapse[symmetric, of ?d]] f by simp
qed

section \<open>Observability\<close>

text \<open>
  The explanation of a job reports its stored status and type, lists its creation first
  and then one event per attempt with strictly increasing attempt numbers, and counts as
  retries exactly its failed attempts; an unknown job has no explanation. The storage is
  only read.
\<close>

theorem explain_lists_attempts:
  assumes "mem_inv s" "mem_explain_job x env i s = (r, s')"
  shows "s' = s
    \<and> (case lookup_job s i of
         None \<Rightarrow> r = Inr None
       | Some job \<Rightarrow>
           (\<exists>ex. r = Inr (Some ex) \<and> jx_job_id ex = i \<and> jx_status ex = j_status job
              \<and> jx_job_type ex = j_job_type job
              \<and> oe_at (hd (jx_events ex)) = j_created_at job \<and> oe_attempt (hd (jx_events ex)) = None
              \<and> sorted_wrt (<) (map (the \<circ> oe_attempt) (tl (jx_events ex)))
              \<and> set (map oe_attempt (tl (jx_events ex))) =
                  {Some (at_attempt_no att) | a att. map_of (attempts s) a = Some att \<and> at_job_id att = i}
              \<and> jx_retry_count ex = int (length (filter (\<lambda>e. oe_status e = ''failed'') (jx_events ex)))))"
proof (cases "lookup_job s i")
  case None
  then show ?thesis using assms(2) by (simp add: mem_explain_job_def)
next
  case (Some job)
  let ?as = "sort_key at_attempt_no (filter (\<lambda>a. at_job_id a = i) (hm_values (attempts s)))"
  let ?ev = "map (attempt_event job i (trace_id_from_job x job)) ?as"
  have no: "(the \<circ> oe_attempt) \<circ> attempt_event job i t = at_attempt_no" for t
    by (simp add: fun_eq_iff attempt_event_def)
  have "sorted_wrt (<) (map (the \<circ> oe_attempt) ?ev)"
    using explain_attempts_distinct[OF assms(1), of i] by (simp only: map_map no)
  moreover have "set (map oe_attempt ?ev) =
      {Some (at_attempt_no att) | a att. map_of (attempts s) a = Some att \<and> at_job_id att = i}"
    using in_values_iff[OF mem_invD(6)[OF assms(1)]] by (force simp: attempt_event_def)
  moreover have "length (filter (\<lambda>e. oe_status e = ''failed'') ?ev) =
      length (filter (\<lambda>a. at_status a = ''failed'') ?as)"
    by (simp add: filter_map comp_def attempt_event_def)
  moreover obtain ex e where "s' = s" "r = Inr (Some ex)" "jx_events ex = e # ?ev"
    "jx_retry_count ex = int (length (filter (\<lambda>a. at_status a = ''failed'') ?as))"
    "jx_job_id ex = i" "jx_status ex = j_status job" "jx_job_type ex = j_job_type job"
    "oe_at e = j_created_at job" "oe_attempt e = None" "oe_status e = ''queued''"
    using Some assms(2) by (auto simp: mem_explain_job_def Let_def)
  ultimately show ?thesis
    using Some by (simp del: map_map set_map)
qed

theorem explain_lists_attempts_witness:
  "\<exists>ex. fst (mem_explain_job no_externals (sample_env 9 60) 1 (state_started None)) = Inr (Some ex)
     \<and> jx_status ex = ''running'' \<and> oe_attempt (hd (jx_events ex)) = None"
proof -
  let ?p = "mem_explain_job no_externals (sample_env 9 60) 1 (state_started None)"
  have j: "lookup_job (state_started None) 1 = Some (job_at (state_started None) 1)"
    "j_status (job_at (state_started None) 1) = ''running''" by code_simp+
  show ?thesis
    using explain_lists_attempts[OF sample_started_inv(1) prod.collapse[symmetric, of ?p]] j by auto
qed

text \<open>
  The metrics report one row per queue with stored jobs, their job totals add up to the
  number of stored jobs, and the depth of a queue is exactly the number of jobs that a lease
  call at the same moment with an unlimited batch takes out of it: the ones it hands out and
  the ones it moves to the dead-letter queue because their deadline has passed.
\<close>

theorem metrics_count_jobs:
  assumes "mem_inv s" "mem_queue_metrics env None s = (Inr rows, s')"
  shows "s' = s \<and> (\<Sum>row \<leftarrow> rows. qm_jobs_total row) = length (jobs s)
    \<and> distinct (map qm_queue rows)
    \<and> (\<forall>row \<in> set rows. qm_queue_depth row =
         length (lease_spec (e_now env) (qm_queue row) (length (jobs s)) s)
         + length (filter (deadline_passed (e_now env) (qm_queue row)) (hm_values (jobs s))))"
proof -
  let ?js = "hm_values (jobs s)" and ?qs = "sort (remdups (map j_queue (hm_values (jobs s))))"
  have rows: "rows = map (queue_row s (e_now env)) ?qs" "s' = s"
    using assms(2) by (auto simp: mem_queue_metrics_def)
  have total: "qm_jobs_total (queue_row s now q) = length (filter (\<lambda>x. x = q) (map j_queue ?js))" for now q
    by (simp add: queue_row_def Let_def filter_map comp_def)
  have "(\<Sum>row \<leftarrow> rows. qm_jobs_total row) =
      (\<Sum>q \<leftarrow> ?qs. length (filter (\<lambda>x. x = q) (map j_queue ?js)))"
    by (simp add: rows comp_def total)
  also have "\<dots> = (\<Sum>q \<in> set ?qs. length (filter (\<lambda>x. x = q) (map j_queue ?js)))"
    by (rule sum_list_distinct_conv_sum_set) simp
  also have "\<dots> = length (map j_queue ?js)" by (rule sum_rows) auto
  finally have sum: "(\<Sum>row \<leftarrow> rows. qm_jobs_total row) = length (jobs s)" by (simp add: hm_values_def)
  have name: "qm_queue (queue_row s now q) = q" for now q by (simp add: queue_row_def Let_def)
  have depth: "qm_queue_depth (queue_row s (e_now env) q) =
      length (lease_spec (e_now env) q (length (jobs s)) s)
      + length (filter (deadline_passed (e_now env) q) ?js)" for q
  proof -
    have "qm_queue_depth (queue_row s (e_now env) q) =
        length (filter (\<lambda>j. j_queue j = q \<and> j_status j = ''queued'' \<and> j_run_at j \<le> e_now env) ?js)"
      by (simp add: queue_row_def Let_def conj_commute)
    also have "\<dots> = length (filter (lease_due (e_now env) q) ?js)
        + length (filter (deadline_passed (e_now env) q) ?js)"
      unfolding lease_due_def[abs_def] deadline_passed_def[abs_def]
      by (subst partition_count[where Q = "\<lambda>j. \<not> past_deadline (e_now env) j"]) (simp add: conj_ac)
    also have "length (filter (lease_due (e_now env) q) ?js) = length (lease_spec (e_now env) q (length (jobs s)) s)"
      using length_filter_le[of "lease_due (e_now env) q" ?js] by (simp add: lease_spec_def hm_values_def)
    finally show ?thesis .
  qed
  have "distinct (map qm_queue rows)" by (simp add: rows comp_def name)
  then show ?thesis using sum depth name rows by auto
qed

theorem metrics_count_jobs_witness:
  "\<exists>rows. fst (mem_queue_metrics (sample_env 9 60) None (state_done (Some 60))) = Inr rows
     \<and> (\<Sum>row \<leftarrow> rows. qm_jobs_total row) = 2"
proof -
  let ?p = "mem_queue_metrics (sample_env 9 60) None (state_done (Some 60))"
  obtain rows where r: "fst ?p = Inr rows" by (simp add: mem_queue_metrics_def)
  have "length (jobs (state_done (Some 60))) = 2" by code_simp
  then show ?thesis
    using metrics_count_jobs[OF sample_done_inv(2), of "sample_env 9 60" rows "snd ?p"] r
    by (metis prod.collapse)
qed

end
