(* ===== verification/Stream_Properties.thy ===== *)
theory Stream_Properties
  imports Memory_Runs
begin

text \<open>
  Event streams of the in-memory storage, seen through the stream handle of a client:
  publishing and reading, exactly-once consumption by a group, monotone offsets along every
  run, pruning, and the numbering of events after a prune.
\<close>

definition two_events :: MemoryBackend where
  "two_events =
     publish_all \<lparr>e_now = 1, e_fresh = (\<lambda>k. k)\<rparr> ''orders''
       [NewEvent_new ''created'' (JNumber 1), NewEvent_new ''paid'' (JNumber 2)] mem_new"

definition orders :: StreamHandle where
  "orders = \<lparr>sh_stream_name = ''orders''\<rparr>"

abbreviation clock :: "datetime \<Rightarrow> Env" where
  "clock t \<equiv> \<lparr>e_now = t, e_fresh = (\<lambda>k. k)\<rparr>"

definition one_acked :: MemoryBackend where
  "one_acked = snd (mem_ack (clock 3) ''orders'' ''billing'' 1 two_events)"

definition all_acked :: MemoryBackend where
  "all_acked = snd (mem_ack (clock 3) ''orders'' ''billing'' 2 two_events)"

lemma new_stream_inv: "stream_inv mem_new"
  by (simp add: stream_inv_def mem_new_def)

lemma two_events_facts:
  "stream_inv two_events" "dense (stream_log two_events ''orders'')"
proof -
  show "stream_inv two_events" unfolding two_events_def by (rule publish_all_inv(1)[OF new_stream_inv])
  have "dense (stream_log mem_new ''orders'')" by (simp add: stream_log_def mem_new_def dense_def)
  then show "dense (stream_log two_events ''orders'')"
    unfolding two_events_def by (rule publish_all_log[THEN conjunct1])
qed

section \<open>Publishing and reading\<close>

lemma handle_memory:
  "handle_publish memory_backend h env ty p = mem_publish env (sh_stream_name h) (NewEvent_new ty p)"
  "handle_read_events memory_backend h after limit = mem_read_events (sh_stream_name h) after limit"
  "handle_read_next memory_backend h g limit = read_next memory_stream (sh_stream_name h) g limit"
  "handle_ack memory_backend h env g n = mem_ack env (sh_stream_name h) g n"
  "handle_prune_events memory_backend h n = mem_prune_events (sh_stream_name h) n"
  by (simp_all add: handle_publish_def handle_read_events_def handle_read_next_def handle_ack_def
      handle_prune_events_def with_stream_def[abs_def] stream_backend_def memory_backend_def
      memory_stream_def)

text \<open>
  An event published through the handle of a stream that was never pruned gets the next
  sequence number, one more than the number of events, and reading after the previous number
  returns exactly this event with its type and payload; a consumer group gets it after
  everything it had pending.
\<close>

theorem publish_then_read:
  assumes "stream_inv s" "dense (stream_log s (sh_stream_name h))"
    and "handle_publish memory_backend h env ty payload s = (Inr n, s')"
  shows "n = int (length (stream_log s (sh_stream_name h))) + 1
    \<and> dense (stream_log s' (sh_stream_name h))
    \<and> (\<exists>e. ev_sequence_no e = n \<and> ev_event_type e = ty \<and> ev_payload_json e = payload
         \<and> ev_stream_name e = sh_stream_name h
         \<and> handle_read_events memory_backend h (n - 1) limit s' = (Inr [e], s')
         \<and> (offset_of (mem_acked s (sh_stream_name h) g) < n \<longrightarrow>
              handle_read_next memory_backend h g limit s' =
                (Inr (take (read_limit limit)
                        (unread (mem_acked s (sh_stream_name h) g) (stream_log s (sh_stream_name h)) @ [e])), s')))"
proof -
  let ?st = "sh_stream_name h" and ?l = "stream_log s (sh_stream_name h)"
  let ?e = "\<lparr>ev_sequence_no = int (length ?l) + 1, ev_stream_name = ?st, ev_event_type = ty,
      ev_payload_json = payload, ev_created_at = e_now env\<rparr>"
  have pub: "mem_publish env ?st (NewEvent_new ty payload) s = (Inr n, s')" using assms(3) by (simp add: handle_memory)
  have n: "n = int (length ?l) + 1" and l': "stream_log s' ?st = ?l @ [?e]"
    using mem_publish_effect[of env ?st "NewEvent_new ty payload" s] pub by (simp_all add: NewEvent_new_def)
  have inv': "stream_inv s'" and ack': "mem_acked s' = mem_acked s"
    using memory_publish_law[OF assms(1), of env ?st "NewEvent_new ty payload"] pub by auto
  have dense': "dense (stream_log s' ?st)" using dense_snoc[OF assms(2), of ?e] l' by simp
  have "after_seq (n - 1) (stream_log s' ?st) = [?e]"
    using dense_after[OF dense', of "length ?l"] n l' by simp
  then have read: "mem_read_events ?st (n - 1) limit s' = (Inr [?e], s')"
    using ms.read_law[OF inv', of ?st "n - 1" limit] read_limit_pos(1)[of limit]
    by (simp add: memory_stream_def)
  have nxt: "read_next memory_stream ?st g limit s' =
      (Inr (take (read_limit limit) (unread (mem_acked s ?st g) ?l @ [?e])), s')"
    if "offset_of (mem_acked s ?st g) < n"
    using ms.read_next_pending[OF inv', of ?st g limit] that n
    by (simp add: ack' l' unread_def after_seq_def)
  show ?thesis
    using n dense' read nxt by (intro conjI exI[of _ ?e]) (simp_all add: handle_memory)
qed

theorem publish_then_read_witness:
  "\<exists>e s'. handle_publish memory_backend orders (clock 5) ''shipped'' JNull two_events = (Inr 3, s')
     \<and> handle_read_events memory_backend orders 2 10 s' = (Inr [e], s') \<and> ev_event_type e = ''shipped''"
proof -
  let ?p = "handle_publish memory_backend orders (clock 5) ''shipped'' JNull two_events"
  have "fst ?p = Inr 3" by code_simp
  then have p: "?p = (Inr 3, snd ?p)" by (metis prod.collapse)
  have "dense (stream_log two_events (sh_stream_name orders))" using two_events_facts(2) by (simp add: orders_def)
  from publish_then_read[OF two_events_facts(1) this p, where limit = 10 and g = "[]"] p show ?thesis by auto
qed

section \<open>Consumption\<close>

text \<open>
  On a stream whose numbers ascend, as they do until a prune lets the in-memory storage use
  numbers again, a consumer group that repeatedly reads a batch and acknowledges its last event
  receives exactly the events it had not acknowledged, in order, none twice and none skipped, as
  soon as there are enough rounds for them; a batch holds the limit clamped to 1..1000.
\<close>

theorem consume_delivers_once:
  assumes "stream_inv s" "log_sorted (stream_log s st)"
    and "length (unread (mem_acked s st g) (stream_log s st)) \<le> rounds * read_limit limit"
  shows "fst (consume memory_stream env st g limit rounds s) = unread (mem_acked s st g) (stream_log s st)"
  by (rule ms.consume_all[OF assms])

theorem consume_delivers_once_witness:
  "map ev_event_type (fst (consume memory_stream (clock 7) ''orders'' ''billing'' 1 2 two_events)) =
     [''created'', ''paid'']"
proof -
  have "length (unread (mem_acked two_events ''orders'' ''billing'') (stream_log two_events ''orders'')) \<le> 2 * read_limit 1"
    "map ev_event_type (unread (mem_acked two_events ''orders'' ''billing'') (stream_log two_events ''orders'')) =
       [''created'', ''paid'']"
    by code_simp+
  then show ?thesis
    using consume_delivers_once[OF two_events_facts(1) dense_sorted[OF two_events_facts(2)]] by simp
qed

lemma step_offset:
  assumes "stream_inv s" "mem_step s c s'"
  shows "offset_of (mem_acked s st g) \<le> offset_of (mem_acked s' st g)"
proof -
  from assms(2) obtain envs where s': "s' = mem_exec envs c s" by (auto elim: mem_stepE)
  have frame: ?thesis if "stream_offsets s' = stream_offsets s"
    using that by (simp add: mem_acked_def)
  note job_frames = job_calls_frame[unfolded same_streams_def] succeed_batch_frame[unfolded same_streams_def]
  show ?thesis
  proof (cases c)
    case (CAck st' g' n)
    then show ?thesis
      using mem_ack_monotone[of s st g "envs 0" st' g' n] s' by simp
  next
    case (CPublish st' e)
    then show ?thesis
      using ms.publish_law[OF assms(1), of "envs 0" st' e] s' by (auto simp: memory_stream_def)
  next
    case (CPrune st' n)
    then show ?thesis
      using ms.prune_law[OF assms(1), of n st'] s' by (auto simp: memory_stream_def)
  next
    case (CSubscribeStream st' g' n)
    then show ?thesis
      using frame s' by (simp add: mem_subscribe_stream_def split: option.splits)
  qed (use frame s' job_frames in simp_all)
qed

text \<open>
  Acknowledged offsets never move back: along any sequence of calls of any clients, late
  or repeated acknowledgements included, the offset of every group of every stream only
  grows.
\<close>

theorem offsets_monotone:
  assumes "mem_run s s'" "mem_reachable s"
  shows "offset_of (mem_acked s st g) \<le> offset_of (mem_acked s' st g)"
  using assms
proof (induction rule: mem_run.induct)
  case (call s c s' s'')
  have "mem_reachable s'" using mem_reachable.next_call call.prems call.hyps(1) by blast
  then show ?case
    using call.IH step_offset[OF mem_reachable_stream_inv[OF call.prems] call.hyps(1), of st g] by linarith
qed simp

theorem offsets_monotone_witness:
  "offset_of (mem_acked mem_new ''orders'' ''billing'')
     \<le> offset_of (mem_acked (mem_exec (\<lambda>n. \<lparr>e_now = 4, e_fresh = (\<lambda>k. n + k)\<rparr>) (CAck ''orders'' ''billing'' 2) mem_new)
          ''orders'' ''billing'')"
proof (rule offsets_monotone[OF _ mem_reachable.init])
  have "fresh_envs (\<lambda>n. \<lparr>e_now = 4, e_fresh = (\<lambda>k. n + k)\<rparr>) mem_new"
    by (auto simp: fresh_envs_def fresh_env_def fresh_id_def mem_new_def inj_def)
  from mem_step.intros[OF this] show "mem_run mem_new
      (mem_exec (\<lambda>n. \<lparr>e_now = 4, e_fresh = (\<lambda>k. n + k)\<rparr>) (CAck ''orders'' ''billing'' 2) mem_new)"
    by (blast intro: mem_run.intros)
qed

section \<open>Pruning\<close>

text \<open>
  C26: Pruning is safe for every group that has ever acknowledged: whatever sequence number is
  asked for, the events such a group has still to read are all kept and in the same order,
  every removed event was at most the number asked for, the returned count is the number of
  removed events, and other streams are not touched.
\<close>

theorem prune_spares_unread:
  assumes "stream_inv s" "mem_prune_events st n s = (r, s')"
  shows "(\<forall>g m. mem_acked s st g = Some m \<longrightarrow>
           unread (mem_acked s' st g) (stream_log s' st) = unread (mem_acked s st g) (stream_log s st))
    \<and> (\<forall>e \<in> set (stream_log s st). n < ev_sequence_no e \<longrightarrow> e \<in> set (stream_log s' st))
    \<and> r = Inr (length (stream_log s st) - length (stream_log s' st))
    \<and> (\<forall>st'. st' \<noteq> st \<longrightarrow> stream_log s' st' = stream_log s st')
    \<and> mem_acked s' = mem_acked s"
proof -
  have prune: "sx_prune_events memory_stream st n s = (r, s')" using assms(2) by (simp add: memory_stream_def)
  have pending: "unread (mem_acked s' st g) (stream_log s' st) = unread (mem_acked s st g) (stream_log s st)"
    if "mem_acked s st g = Some m" for g m
    using ms.prune_keeps_pending[OF assms(1) that, of n] prune by simp
  from ms.prune_law[OF assms(1), of n st] prune obtain c where
    "c \<le> n" "stream_log s' = (stream_log s)(st := after_seq c (stream_log s st))"
    "mem_acked s' = mem_acked s" "r = Inr (length (stream_log s st) - length (after_seq c (stream_log s st)))"
    by auto
  then show ?thesis using pending by (auto simp: after_seq_def)
qed

lemma one_acked_inv: "stream_inv one_acked"
  using ms.ack_law[OF two_events_facts(1)] by (simp add: one_acked_def memory_stream_def)

theorem prune_spares_unread_witness:
  "fst (mem_prune_events ''orders'' 100 one_acked) = Inr 1
   \<and> unread (mem_acked (snd (mem_prune_events ''orders'' 100 one_acked)) ''orders'' ''billing'')
        (stream_log (snd (mem_prune_events ''orders'' 100 one_acked)) ''orders'')
     = unread (mem_acked one_acked ''orders'' ''billing'') (stream_log one_acked ''orders'')"
proof -
  let ?p = "mem_prune_events ''orders'' 100 one_acked"
  have "fst ?p = Inr 1" "mem_acked one_acked ''orders'' ''billing'' = Some 1" by code_simp+
  then show ?thesis
    using prune_spares_unread[OF one_acked_inv prod.collapse[symmetric, of ?p]] by auto
qed

text \<open>
  Numbering restarts after a prune and hides events: when a group has acknowledged all of
  a stream and the stream is pruned to the end, the next published event gets the number 1
  again, which the group's offset already covers, so the group's next read does not return
  it.
\<close>

theorem publish_after_prune_hidden:
  assumes "stream_inv s" "dense (stream_log s st)" "stream_log s st \<noteq> []"
    and "\<And>g m. mem_acked s st g = Some m \<Longrightarrow> m = int (length (stream_log s st))"
    and "mem_acked s st g = Some m"
    and "mem_prune_events st m s = (r1, s1)" "mem_publish env st e s1 = (r2, s2)"
  shows "r1 = Inr (length (stream_log s st)) \<and> r2 = Inr 1 \<and> stream_log s2 st \<noteq> []
    \<and> read_next memory_stream st g limit s2 = (Inr [], s2)"
proof -
  have m: "m = int (length (stream_log s st))" using assms(4,5) by blast
  have "stream_log s1 st = after_seq m (stream_log s st)"
    using prune_cutoff_ge[OF assms(1), of st m] assms(4,6) m by auto
  also have "\<dots> = []" using dense_after[OF assms(2), of "length (stream_log s st)"] m by simp
  finally have l1: "stream_log s1 st = []" .
  have prune: "sx_prune_events memory_stream st m s = (r1, s1)" using assms(6) by (simp add: memory_stream_def)
  have r1: "r1 = Inr (length (stream_log s st))" and inv1: "stream_inv s1" and ack1: "mem_acked s1 = mem_acked s"
    using ms.prune_law[OF assms(1), of m st] prune l1 by auto
  have l2: "r2 = Inr 1" "map ev_sequence_no (stream_log s2 st) = [1]"
    using mem_publish_effect[of env st e s1] assms(7) l1 by simp_all
  have inv2: "stream_inv s2" and ack2: "mem_acked s2 = mem_acked s"
    using memory_publish_law[OF inv1, of env st e] assms(7) ack1 by auto
  have "1 \<le> m" using m assms(3) by (simp add: Suc_le_eq)
  moreover obtain x where "stream_log s2 st = [x]" "ev_sequence_no x = 1"
    using l2(2) by (cases "stream_log s2 st") auto
  ultimately show ?thesis
    using ms.read_next_pending[OF inv2, of st g limit] ack2 assms(5) r1 l2(1)
    by (simp add: unread_def offset_of_def after_seq_def)
qed

theorem publish_after_prune_hidden_witness:
  "\<exists>s2. mem_publish (clock 9) ''orders'' (NewEvent_new ''late'' JNull) (snd (mem_prune_events ''orders'' 2 all_acked)) = (Inr 1, s2)
     \<and> read_next memory_stream ''orders'' ''billing'' 10 s2 = (Inr [], s2)"
proof -
  let ?p = "mem_prune_events ''orders'' 2 all_acked"
  let ?q = "mem_publish (clock 9) ''orders'' (NewEvent_new ''late'' JNull) (snd ?p)"
  have inv: "stream_inv all_acked" and log: "stream_log all_acked = stream_log two_events"
    and acks: "\<And>st' g'. (st', g') \<noteq> (''orders'', ''billing'') \<Longrightarrow> mem_acked all_acked st' g' = mem_acked two_events st' g'"
    using ms.ack_law[OF two_events_facts(1), where env = "clock 3" and st = "''orders''" and g = "''billing''" and n = 2]
    by (simp_all add: all_acked_def memory_stream_def)
  have ack: "mem_acked all_acked ''orders'' ''billing'' = Some 2" "length (stream_log two_events ''orders'') = 2"
    by code_simp+
  have none: "mem_acked two_events st' g' = None" for st' g'
    using publish_all_inv(2)[OF new_stream_inv, of "clock 1" "''orders''"
        "[NewEvent_new ''created'' (JNumber 1), NewEvent_new ''paid'' (JNumber 2)]"]
    by (simp add: two_events_def) (simp add: mem_acked_def mem_new_def)
  have only: "m = int (length (stream_log all_acked ''orders''))" if "mem_acked all_acked ''orders'' g' = Some m" for g' m
    using that acks[of "''orders''" g'] none ack log by (cases "g' = ''billing''") auto
  have "stream_log all_acked ''orders'' \<noteq> []" "dense (stream_log all_acked ''orders'')"
    using ack(2) two_events_facts(2) log by auto
  from publish_after_prune_hidden[OF inv this(2,1) only ack(1) prod.collapse[symmetric, of ?p]
      prod.collapse[symmetric, of ?q], where limit = 10]
  have "fst ?q = Inr 1" "read_next memory_stream ''orders'' ''billing'' 10 (snd ?q) = (Inr [], snd ?q)"
    by simp_all
  then show ?thesis by (intro exI[of _ "snd ?q"] conjI) (simp_all add: prod_eq_iff)
qed

end
