(* ===== verification/Client_Properties.thy ===== *)
theory Client_Properties
  imports Sample_States "HOL-Library.Countable"
begin

text \<open>
  The client over the in-memory storage: what a worker leaves behind after a batch, after a
  timeout, and after draining its queue. The lemmas come from the contract between the
  worker and its storage, through its interpretation on the in-memory storage.
\<close>

definition sample_flow :: QuickstartFlow where
  "sample_flow =
     register_handler
       (with_worker_id (with_queue (QuickstartFlow_new None None None) ''mail'') ''w1'') ''send''"

definition sample_run :: "bool \<Rightarrow> task_result \<Rightarrow> nat \<Rightarrow> nat \<Rightarrow> JobRun" where
  "sample_run timed_out res base k =
     \<lparr>jr_timed_out = timed_out, jr_result = res, jr_heartbeats = [], jr_latency_ms = 5,
      jr_env = \<lparr>e_now = 4, e_fresh = (\<lambda>n. base + 2 * (k + n) + 1)\<rparr>, jr_now = 4,
      jr_rng = (\<lambda>lo hi. hi)\<rparr>"

definition even_env :: "datetime \<Rightarrow> nat \<Rightarrow> Env" where
  "even_env now base = \<lparr>e_now = now, e_fresh = (\<lambda>n. base + 2 * n)\<rparr>"

definition two_leased :: MemoryBackend where
  "two_leased =
     snd (mem_lease_jobs_batch_with_ordering (sample_env 2 10) ''mail'' ''w1'' 10 5 Fifo
       (snd (mem_enqueue (sample_env 1 2) ((sample_job None)\<lparr>nj_idempotency_key := None\<rparr>) (state_queued None))))"

definition sample_rounds :: "nat \<Rightarrow> Round" where
  "sample_rounds r =
     \<lparr>rd_lease_env = sample_env 2 0,
      rd_start_env = \<lparr>e_now = 3, e_fresh = (\<lambda>n. 2 * prod_encode (r, n) + 100)\<rparr>,
      rd_jobs = (\<lambda>k. \<lparr>jr_timed_out = False, jr_result = TaskOk, jr_heartbeats = [], jr_latency_ms = 5,
        jr_env = \<lparr>e_now = 4, e_fresh = (\<lambda>n. 2 * prod_encode (r, k + n) + 101)\<rparr>, jr_now = 4,
        jr_rng = (\<lambda>lo hi. hi)\<rparr>)\<rparr>"

lemma used_below: "ids_below n s \<Longrightarrow> mem_used s \<subseteq> {..<n}"
  by (auto simp: mem_used_def ids_below_def list_all_iff dom_map_of_conv_image_fst)

lemma sample_fresh_batch:
  assumes "U \<subseteq> {..<n}" "n \<le> b" "even b"
  shows "fresh_batch (even_env now b) (sample_run t r b) U"
proof -
  have id: "new_id (sample_run t r b) k = b + 2 * k + 1" for k by (simp add: new_id_def sample_run_def)
  have fresh: "e_fresh (even_env now b) k = b + 2 * k" for k by (simp add: even_env_def)
  have "b + 2 * k \<noteq> b + 2 * l + 1" for k l using assms(3) by presburger
  then have "range (e_fresh (even_env now b)) \<inter> range (new_id (sample_run t r b)) = {}"
    by (auto simp: id fresh)
  moreover have "b + k \<notin> U" for k using assms(1,2) by auto
  then have "range (e_fresh (even_env now b)) \<inter> U = {}" "range (new_id (sample_run t r b)) \<inter> U = {}"
    by (auto simp: id fresh) (metis add.assoc add_Suc_right)
  ultimately show ?thesis by (simp add: fresh_batch_def inj_def id fresh)
qed

section \<open>One batch\<close>

text \<open>
  C20: A worker that processes a leased batch settles the jobs of the batch one after the other,
  up to the first whose handler runs into its timeout, each with the status its outcome calls
  for: succeeded when the handler returned normally, dead-lettered when it panicked, failed for
  good or used up its attempts, queued again otherwise; the job that timed out is reported as a
  failure and queued again or dead-lettered. The jobs after it are abandoned: stored exactly as
  before, running and locked by the worker. No other job changes apart from next occurrences
  under new identifiers, and the storage invariant holds afterwards. Jobs that fail have at most
  64 attempts, under a retry configuration without negative numbers.
\<close>

theorem batch_settles:
  assumes "mem_inv s" "distinct (map j_id batch)"
    and "\<forall>j \<in> set batch. held_by (mem_stored s) (qf_worker_id f) (j_id j)"
    and "fresh_batch env world (mem_used s)"
    and "\<forall>k < length batch. retry_safe f (world k) (batch ! k)"
    and "\<forall>k < length batch. attempt_timed_out f (world k) (batch ! k) \<longrightarrow>
           sane_retry (qf_retry_cfg f) \<and> j_max_attempts (batch ! k) \<le> 64"
    and "t = before_timeout f world batch"
  shows "\<exists>rs s'. fst (mem_start_attempts_batch env (map j_dataset_id batch) (map j_id batch)
                        (qf_worker_id f) s) = Inr rs
    \<and> process_batch memory_backend f env world batch s = (Inr (), s') \<and> mem_inv s'
    \<and> (\<forall>k < t. status_of (mem_stored s') (j_id (batch ! k)) =
         Some (expected_status f (world k) (batch ! k) (snd (snd (rs ! k)))))
    \<and> (t < length batch \<longrightarrow> status_of (mem_stored s') (j_id (batch ! t)) =
         Some (failure_status ''TIMEOUT'' (snd (snd (rs ! t))) (j_max_attempts (batch ! t))))
    \<and> (\<forall>j \<in> set (drop (Suc t) batch). mem_stored s' (j_id j) = mem_stored s (j_id j)
         \<and> held_by (mem_stored s') (qf_worker_id f) (j_id j))
    \<and> (\<forall>i. i \<notin> j_id ` set batch \<longrightarrow> i \<notin> range (new_id world) \<longrightarrow> mem_stored s' i = mem_stored s i)"
proof -
  from mb.process_batch_outcome[OF assms(1-6) _ assms(7)] obtain rs s' where o:
    "fst (mem_start_attempts_batch env (map j_dataset_id batch) (map j_id batch) (qf_worker_id f) s) = Inr rs"
    "process_batch memory_backend f env world batch s = (Inr (), s')" "mem_inv s'"
    "\<forall>k < t. status_of (mem_stored s') (j_id (batch ! k)) =
         Some (expected_status f (world k) (batch ! k) (snd (snd (rs ! k))))"
    "t < length batch \<longrightarrow> status_of (mem_stored s') (j_id (batch ! t)) =
         Some (failure_status ''TIMEOUT'' (snd (snd (rs ! t))) (j_max_attempts (batch ! t)))"
    and frame: "\<forall>i. i \<notin> j_id ` set (take (Suc t) batch) \<longrightarrow> i \<notin> range (new_id world) \<longrightarrow> mem_stored s' i = mem_stored s i"
    by (auto simp: memory_backend_def)
  have "\<forall>i. i \<notin> j_id ` set batch \<longrightarrow> i \<notin> range (new_id world) \<longrightarrow> mem_stored s' i = mem_stored s i"
    using frame by (meson image_mono set_take_subset subsetD)
  with o mb.abandoned_untouched[OF assms(1-4) frame] show ?thesis by blast
qed

lemma sample_flow_sel:
  "qf_worker_id sample_flow = ''w1''" "qf_queue sample_flow = ''mail''"
  "qf_handlers sample_flow = [''send'']" "qf_retry_cfg sample_flow = RetryConfig_default"
  "qf_lease_seconds sample_flow = 10"
  by (simp_all add: sample_flow_def register_handler_def with_worker_id_def with_queue_def
      QuickstartFlow_new_def)

lemma two_leased_inv: "mem_inv two_leased"
  unfolding two_leased_def
  by (intro mem_lease_with_ordering_inv mem_enqueue_inv sample_queued_inv
      ids_below_fresh_id[OF samples_below(2)]) simp

theorem batch_settles_witness:
  "\<exists>s'. process_batch memory_backend sample_flow (even_env 3 100) (sample_run True TaskOk 100)
          [job_at two_leased 1, job_at two_leased 2] two_leased = (Inr (), s')
     \<and> status_of (mem_stored s') 1 = Some ''queued'' \<and> held_by (mem_stored s') ''w1'' 2"
proof -
  let ?a = "job_at two_leased 1" and ?b = "job_at two_leased 2" and ?w = "sample_run True TaskOk 100"
  have j: "j_id ?a = 1" "j_id ?b = 2" "j_max_attempts ?a = 3" "j_max_attempts ?b = 3" "ids_below 3 two_leased"
    "map_of (jobs two_leased) 1 = Some ?a" "map_of (jobs two_leased) 2 = Some ?b"
    "lease_held ''w1'' ?a" "lease_held ''w1'' ?b" "j_job_type ?a = ''send''" "j_timeout_seconds ?a = Some 30"
    by code_simp+
  have start: "fst (mem_start_attempts_batch (even_env 3 100) [j_dataset_id ?a, j_dataset_id ?b] [1, 2] ''w1'' two_leased)
      = Inr [(1, 100, 1), (2, 102, 1)]" "failure_status ''TIMEOUT'' 1 3 = ''queued''"
    by code_simp+
  have "fresh_batch (even_env 3 100) ?w (mem_used two_leased)"
    by (rule sample_fresh_batch[OF used_below[OF j(5)]]) simp_all
  moreover have "attempt_timed_out sample_flow (?w 0) ?a"
    using j(10,11) by (simp add: attempt_timed_out_def sample_flow_sel sample_run_def)
  then have "0 = before_timeout sample_flow ?w [?a, ?b]" by simp
  moreover have sane: "sane_retry (qf_retry_cfg sample_flow)" by (simp add: sane_retry_def sample_flow_sel)
  moreover have "retry_safe sample_flow w ?a" "retry_safe sample_flow w ?b" for w
    using j(3,4) sane by (simp_all add: retry_safe_def)
  ultimately show ?thesis
    using batch_settles[OF two_leased_inv, where batch = "[?a, ?b]" and f = sample_flow
        and env = "even_env 3 100" and world = ?w and t = 0] j start
    by (auto simp: sample_flow_sel held_by_mem less_Suc_eq)
qed

section \<open>Draining a queue\<close>

text \<open>
  Draining a queue terminates and does the work: when every handler succeeds, is
  registered and no waiting job recurs, \<^verbatim>\<open>run_until_empty\<close> returns within one more round
  than there are waiting jobs. The count it returns is the number of waiting jobs that are
  now succeeded; every waiting job has succeeded, was dead-lettered because of its deadline,
  or is still queued for a time after the clock of the last round; no other job has changed
  its status.
\<close>

theorem drain_completes:
  assumes "mem_inv s" "all_tasks_ok rounds" "runnable f (mem_stored s)"
    and "fresh_rounds rounds (mem_used s)"
    and "card (waiting (mem_stored s) (qf_queue f)) < fuel"
  shows "\<exists>n s'. run_until_empty fuel memory_backend f rounds 0 s = Some (Inr n, s') \<and> mem_inv s'
    \<and> n = card {i \<in> waiting (mem_stored s) (qf_queue f). status_of (mem_stored s') i = Some ''succeeded''}
    \<and> (\<forall>i \<in> waiting (mem_stored s) (qf_queue f).
         status_of (mem_stored s') i \<in> {Some ''succeeded'', Some ''dlq'', Some ''queued''})
    \<and> (\<exists>r. \<forall>i j. mem_stored s' i = Some j \<longrightarrow> j_status j = ''queued'' \<longrightarrow> j_queue j = qf_queue f
         \<longrightarrow> e_now (rd_lease_env (rounds r)) < j_run_at j)
    \<and> (\<forall>i. i \<notin> waiting (mem_stored s) (qf_queue f) \<longrightarrow>
         status_of (mem_stored s') i = status_of (mem_stored s) i)"
  using mb.run_until_empty_drains[OF assms, of 0] unfolding mb.drained_def by simp

lemma sample_rounds_fresh:
  assumes "U \<subseteq> {..<n}" "n \<le> 100"
  shows "fresh_rounds sample_rounds U"
proof -
  have a: "e_fresh (rd_start_env (sample_rounds r)) k = 2 * prod_encode (r, k) + 100"
    and b: "new_id (rd_jobs (sample_rounds r)) k = 2 * prod_encode (r, k) + 101" for r k
    by (simp_all add: sample_rounds_def new_id_def)
  have odd: "2 * x + 100 \<noteq> 2 * y + 101" for x y :: nat by presburger
  have out: "x + 100 \<notin> U" "x + 101 \<notin> U" for x using assms by auto
  have "fresh_batch (rd_start_env (sample_rounds r)) (rd_jobs (sample_rounds r)) U" for r
    using odd out by (auto simp: fresh_batch_def inj_def a b)
  moreover have "round_ids (sample_rounds r) \<inter> round_ids (sample_rounds r') = {}" if "r \<noteq> r'" for r r'
    using that odd by (auto simp: round_ids_def a b) (metis odd)+
  ultimately show ?thesis by (simp add: fresh_rounds_def)
qed

theorem drain_completes_witness:
  "\<exists>n s'. run_until_empty 2 memory_backend sample_flow sample_rounds 0 (state_queued None) = Some (Inr n, s')
     \<and> status_of (mem_stored s') 1 \<in> {Some ''succeeded'', Some ''dlq'', Some ''queued''}"
proof -
  have jobs: "map fst (jobs (state_queued None)) = [1]" by code_simp
  have j: "j_job_type (job_at (state_queued None) 1) = ''send''"
    "j_recurring_interval_seconds (job_at (state_queued None) 1) = None"
    "j_status (job_at (state_queued None) 1) = ''queued''" "j_queue (job_at (state_queued None) 1) = ''mail''"
    "map_of (jobs (state_queued None)) 1 = Some (job_at (state_queued None) 1)" by code_simp+
  have only: "i = 1" if "map_of (jobs (state_queued None)) i = Some x" for i x
  proof -
    have "i \<in> set (map fst (jobs (state_queued None)))" using map_of_SomeD[OF that] by force
    then show ?thesis by (simp add: jobs del: set_map)
  qed
  have w: "waiting (mem_stored (state_queued None)) ''mail'' = {1}"
    unfolding waiting_def mem_stored_def
  proof (intro equalityI subsetI)
    fix i :: uuid assume "i \<in> {1}"
    then show "i \<in> {i. \<exists>x. map_of (jobs (state_queued None)) i = Some x \<and> j_status x = ''queued'' \<and> j_queue x = ''mail''}"
      using j(3-5) by simp
  qed (use only in blast)
  have "runnable sample_flow (mem_stored (state_queued None))"
    unfolding runnable_def mem_stored_def
  proof (intro allI impI)
    fix i x assume x: "map_of (jobs (state_queued None)) i = Some x"
    then have "x = job_at (state_queued None) 1" using only[OF x] j(5) by simp
    then show "j_job_type x \<in> set (qf_handlers sample_flow) \<and> j_recurring_interval_seconds x = None"
      using j(1,2) by (simp add: sample_flow_sel)
  qed
  moreover have "all_tasks_ok sample_rounds" by (simp add: all_tasks_ok_def sample_rounds_def)
  moreover have "fresh_rounds sample_rounds (mem_used (state_queued None))"
    by (rule sample_rounds_fresh[OF used_below[OF samples_below(2)]]) simp
  moreover have "card (waiting (mem_stored (state_queued None)) (qf_queue sample_flow)) < 2"
    by (simp add: w sample_flow_sel)
  ultimately obtain n s' where
    "run_until_empty 2 memory_backend sample_flow sample_rounds 0 (state_queued None) = Some (Inr n, s')"
    "\<forall>i \<in> waiting (mem_stored (state_queued None)) (qf_queue sample_flow).
       status_of (mem_stored s') i \<in> {Some ''succeeded'', Some ''dlq'', Some ''queued''}"
    using drain_completes[OF sample_queued_inv] by blast
  then show ?thesis using w by (intro exI[of _ n] exI[of _ s']) (simp add: sample_flow_sel)
qed

end
