(* ===== verification/Core_Properties.thy ===== *)
theory Core_Properties
  imports Sample_States
begin

text \<open>
  The data model: status strings and the lifecycle states computed from them, for every job
  the storage can hold, and the capability profiles.
\<close>

text \<open>
  A status survives being stored: parsing the string a status is stored as gives a status
  with the same string and the same answer to whether it is terminal, and parsing accepts no
  string but these and the two spelling variants \<^verbatim>\<open>completed\<close> and \<^verbatim>\<open>cancelled\<close>.
\<close>

theorem status_roundtrip:
  "(\<exists>st'. JobStatus_parse (JobStatus_as_str st) = Inr st' \<and> JobStatus_as_str st' = JobStatus_as_str st
      \<and> JobStatus_is_terminal st' = JobStatus_is_terminal st)
   \<and> ((\<exists>st'. JobStatus_parse t = Inr st') \<longleftrightarrow>
        t \<in> range JobStatus_as_str \<union> {''completed'', ''cancelled''})"
proof
  show "\<exists>st'. JobStatus_parse (JobStatus_as_str st) = Inr st' \<and> JobStatus_as_str st' = JobStatus_as_str st
      \<and> JobStatus_is_terminal st' = JobStatus_is_terminal st"
    by (cases st) (simp_all add: JobStatus_parse_def)
  have "t \<in> range JobStatus_as_str \<longleftrightarrow>
      t \<in> {''queued'', ''running'', ''succeeded'', ''failed'', ''dlq'', ''canceled''}"
  proof
    assume "t \<in> range JobStatus_as_str"
    then obtain st where "t = JobStatus_as_str st" by blast
    then show "t \<in> {''queued'', ''running'', ''succeeded'', ''failed'', ''dlq'', ''canceled''}"
      by (cases st) simp_all
  next
    assume "t \<in> {''queued'', ''running'', ''succeeded'', ''failed'', ''dlq'', ''canceled''}"
    then have "t \<in> {JobStatus_as_str JobStatus.Queued, JobStatus_as_str JobStatus.Running,
      JobStatus_as_str JobStatus.Completed, JobStatus_as_str JobStatus.Failed,
      JobStatus_as_str JobStatus.Dlq, JobStatus_as_str JobStatus.Cancelled}" by simp
    then show "t \<in> range JobStatus_as_str" by blast
  qed
  then show "(\<exists>st'. JobStatus_parse t = Inr st') \<longleftrightarrow>
      t \<in> range JobStatus_as_str \<union> {''completed'', ''cancelled''}"
    by (simp add: JobStatus_parse_def)
qed

text \<open>
  C33: Every job the storage holds has a lifecycle state at every moment: the conversion never
  fails on it, it is terminal exactly when the stored status is, a queued job is reported as
  waiting exactly while its time has not come, and then as a retry exactly when an attempt
  has failed.
\<close>

theorem stored_job_lifecycle:
  assumes "mem_inv s" "map_of (jobs s) k = Some j"
  shows "\<exists>l. lifecycle_state_at j now failed = Inr l
    \<and> (JobLifecycleState_is_terminal l \<longleftrightarrow> terminal_status (j_status j))
    \<and> (l = Scheduled \<or> l = RetryWait \<longleftrightarrow> j_status j = ''queued'' \<and> now < j_run_at j)
    \<and> (l = RetryWait \<longleftrightarrow> j_status j = ''queued'' \<and> now < j_run_at j \<and> 0 < failed)"
proof -
  have "job_ok j" using mem_invD(2)[OF assms(1)] assms(2) by (simp add: jobs_wf_def)
  then show ?thesis
    by (cases rule: job_ok_cases)
       (auto simp: lifecycle_state_at_def JobStatus_parse_def from_persisted_def terminal_status_def)
qed

theorem stored_job_lifecycle_witness:
  "\<exists>l. lifecycle_state_at (job_at (state_started None) 1) 5 0 = Inr l \<and> \<not> JobLifecycleState_is_terminal l"
proof -
  have "\<not> terminal_status (j_status (job_at (state_started None) 1))" by code_simp
  then show ?thesis
    using stored_job_lifecycle[OF sample_started_inv(1) sample_leased_job(3), of 5 0] by auto
qed

text \<open>
  The lifecycle graph is narrower than what the storage does: cancelling a due queued job
  succeeds and takes it from the lifecycle state queued to cancelled, and reaping an expired
  lease takes a due job from running back to queued, although \<^verbatim>\<open>ensure_transition_to\<close>
  rejects both transitions.
\<close>

theorem lifecycle_graph_gap:
  assumes "mem_inv s" "map_of (jobs s) k = Some j" "j_run_at j \<le> e_now env"
  shows "(j_status j = ''queued'' \<longrightarrow>
      (\<exists>j' e. fst (mem_cancel_job env k None s) = Inr ()
         \<and> map_of (jobs (snd (mem_cancel_job env k None s))) k = Some j'
         \<and> lifecycle_state_at j (e_now env) n = Inr JobLifecycleState.Queued
         \<and> lifecycle_state_at j' (e_now env) n = Inr JobLifecycleState.Cancelled
         \<and> ensure_transition_to JobLifecycleState.Queued JobLifecycleState.Cancelled = Inl e))
    \<and> (lease_expired (e_now env) j \<longrightarrow>
      (\<exists>j' e. map_of (jobs (snd (mem_reap_expired_locks env s))) k = Some j'
         \<and> lifecycle_state_at j (e_now env) n = Inr JobLifecycleState.Running
         \<and> lifecycle_state_at j' (e_now env) n = Inr JobLifecycleState.Queued
         \<and> ensure_transition_to JobLifecycleState.Running JobLifecycleState.Queued = Inl e))"
proof -
  note life = lifecycle_state_at_def JobStatus_parse_def from_persisted_def
    ensure_transition_to_def can_transition_to_def
  have "\<exists>e. ensure_transition_to JobLifecycleState.Queued JobLifecycleState.Cancelled = Inl e"
    "\<exists>e. ensure_transition_to JobLifecycleState.Running JobLifecycleState.Queued = Inl e"
    by (simp_all add: life)
  moreover have "fst (mem_cancel_job env k None s) = Inr ()"
    "map_of (jobs (snd (mem_cancel_job env k None s))) k = Some (cancel_job_record (e_now env) j)"
    if "j_status j = ''queued''"
    using that assms(2) by (simp_all add: cancel_stages cancel_guard_def)
  moreover have "map_of (jobs (snd (mem_reap_expired_locks env s))) k = Some (requeue_job (e_now env) j)"
    if "lease_expired (e_now env) j"
    using that assms(2) reap_jobs_after[OF assms(1), of env k] by simp
  moreover have "j_run_at (requeue_job now j) = j_run_at j" for now by (simp add: requeue_job_def)
  ultimately show ?thesis
    using assms(3) by (auto simp: life lease_expired_def)
qed

theorem lifecycle_graph_gap_witness:
  "fst (mem_cancel_job (sample_env 2 2) 1 None (state_queued None)) = Inr ()
   \<and> (\<exists>e. ensure_transition_to JobLifecycleState.Queued JobLifecycleState.Cancelled = Inl e)"
proof -
  have j: "map_of (jobs (state_queued None)) 1 = Some (job_at (state_queued None) 1)"
    "j_run_at (job_at (state_queued None) 1) \<le> e_now (sample_env 2 2)"
    "j_status (job_at (state_queued None) 1) = ''queued''" by code_simp+
  show ?thesis using lifecycle_graph_gap[OF sample_queued_inv j(1,2)] j(3) by auto
qed

text \<open>
  A capability profile has declared semantics exactly when it is one of the four built-in
  profiles, each is mapped to its own semantics, and each of them supports the portable job
  interface.
\<close>

theorem semantics_of_profiles:
  "(semantics c \<noteq> None \<longleftrightarrow> c \<in> {caps_memory, caps_sqlite, caps_postgres, caps_redis})
   \<and> semantics caps_memory = Some sem_memory \<and> semantics caps_sqlite = Some sem_sqlite
   \<and> semantics caps_postgres = Some sem_postgres \<and> semantics caps_redis = Some sem_redis
   \<and> distinct [sem_memory, sem_sqlite, sem_postgres, sem_redis]
   \<and> list_all supports_portable_job_api [caps_memory, caps_sqlite, caps_postgres, caps_redis]"
  by (cases c)
     (simp add: semantics_def caps_memory_def caps_sqlite_def caps_postgres_def caps_redis_def
       sem_memory_def sem_sqlite_def sem_postgres_def sem_redis_def supports_portable_job_api_def Let_def)

end
