(* ===== verification/Mock_Backend.thy ===== *)
theory Mock_Backend
  imports Memory_Contract
begin

text \<open>
  The recording wrapper of \<^verbatim>\<open>azums-core/src/backend/mock.rs\<close>: a backend that logs every
  call and forwards it to an inner backend. Recording is transparent: a wrapped backend
  that satisfies the job contract still satisfies it.
\<close>

section \<open>Call records\<close>

datatype CallRecord =
    RunMigrations
  | HealthCheck
  | Enqueue NewJob
  | Subscribe string
  | PublishStream string NewEvent
  | SubscribeStream string string "int option"
  | AckStream string string int
  | ReadEventsStream string int int
  | PruneEventsStream string int
  | ConsumerGroupInfoStream string
  | LeaseJobsBatch string string int int
  | LeaseJobsBatchWithOrdering string string int int QueueOrdering
  | ReapExpiredLocks
  | StartAttemptsBatch "uuid list" string
  | MarkSucceeded uuid uuid string int
  | MarkSucceededBatch string "(uuid \<times> uuid \<times> int) list" string
  | RescheduleForRetry uuid uuid string int datetime string string int
  | MarkDlq uuid uuid string int string string string int
  | ArchiveSucceededOlderThan datetime int
  | DeleteHistoryForSucceededOlderThan datetime int
  | PerformMaintenance
  | ExtendLease uuid string int
  | CancelJob uuid "string option"
  | GetJob uuid
  | ListJobs "string option" "string option" int
  | ReplayJob uuid "string option" "datetime option"

record 's MockBackend =
  mk_inner :: 's
  mk_calls :: "CallRecord list"

definition MockBackend_new :: "'s \<Rightarrow> 's MockBackend" where
  "MockBackend_new inner = \<lparr>mk_inner = inner, mk_calls = []\<rparr>"

definition MockBackend_with_memory :: "MemoryBackend MockBackend" where
  "MockBackend_with_memory = MockBackend_new mem_new"

definition clear_calls :: "'s MockBackend \<Rightarrow> 's MockBackend" where
  "clear_calls m = m\<lparr>mk_calls := []\<rparr>"

section \<open>Assertions\<close>

text \<open>The conditions the assertion helpers test.\<close>

definition enqueued_job_type :: "'s MockBackend \<Rightarrow> string \<Rightarrow> bool" where
  "enqueued_job_type m job_type \<longleftrightarrow>
     list_ex (\<lambda>c. case c of Enqueue job \<Rightarrow> nj_job_type job = job_type | _ \<Rightarrow> False) (mk_calls m)"

definition marked_succeeded :: "'s MockBackend \<Rightarrow> uuid \<Rightarrow> bool" where
  "marked_succeeded m target \<longleftrightarrow>
     list_ex (\<lambda>c. case c of
                    MarkSucceeded job_id _ _ _ \<Rightarrow> job_id = target
                  | MarkSucceededBatch _ updates _ \<Rightarrow> list_ex (\<lambda>u. fst u = target) updates
                  | _ \<Rightarrow> False) (mk_calls m)"

definition marked_dlq :: "'s MockBackend \<Rightarrow> uuid \<Rightarrow> bool" where
  "marked_dlq m target \<longleftrightarrow>
     list_ex (\<lambda>c. case c of MarkDlq job_id _ _ _ _ _ _ _ \<Rightarrow> job_id = target | _ \<Rightarrow> False) (mk_calls m)"

section \<open>Recording\<close>

definition recorded :: "CallRecord \<Rightarrow> ('s, 'r) op \<Rightarrow> ('s MockBackend, 'r) op" where
  "recorded c f m =
     (let m1 = m\<lparr>mk_calls := mk_calls m @ [c]\<rparr>;
          (r, inner') = f (mk_inner m1)
      in (r, m1\<lparr>mk_inner := inner'\<rparr>))"

lemma recorded_simps [simp]:
  "fst (recorded c f m) = fst (f (mk_inner m))"
  "mk_inner (snd (recorded c f m)) = snd (f (mk_inner m))"
  "mk_calls (snd (recorded c f m)) = mk_calls m @ [c]"
  by (simp_all add: recorded_def Let_def case_prod_unfold)

text \<open>
  \<^verbatim>\<open>impl StreamBackend for MockBackend\<close>: without an inner stream backend, publishing
  answers 1 and reads answer nothing.
\<close>

definition mock_publish ::
  "'s StreamBackend option \<Rightarrow> Env \<Rightarrow> string \<Rightarrow> NewEvent \<Rightarrow> ('s MockBackend, int) op" where
  "mock_publish X env st e =
     recorded (PublishStream st e)
       (case X of Some x \<Rightarrow> sx_publish x env st e | None \<Rightarrow> \<lambda>s. (Inr 1, s))"

definition mock_subscribe_stream ::
  "'s StreamBackend option \<Rightarrow> string \<Rightarrow> string \<Rightarrow> int option \<Rightarrow> ('s MockBackend, unit) op" where
  "mock_subscribe_stream X st g n =
     recorded (SubscribeStream st g n)
       (case X of Some x \<Rightarrow> sx_subscribe_stream x st g n | None \<Rightarrow> \<lambda>s. (Inl no_stream_support, s))"

definition mock_ack ::
  "'s StreamBackend option \<Rightarrow> Env \<Rightarrow> string \<Rightarrow> string \<Rightarrow> int \<Rightarrow> ('s MockBackend, unit) op" where
  "mock_ack X env st g n =
     recorded (AckStream st g n)
       (case X of Some x \<Rightarrow> sx_ack x env st g n | None \<Rightarrow> \<lambda>s. (Inr (), s))"

definition mock_read_events ::
  "'s StreamBackend option \<Rightarrow> string \<Rightarrow> int \<Rightarrow> int \<Rightarrow> ('s MockBackend, Event list) op" where
  "mock_read_events X st n l =
     recorded (ReadEventsStream st n l)
       (case X of Some x \<Rightarrow> sx_read_events x st n l | None \<Rightarrow> \<lambda>s. (Inr [], s))"

definition mock_prune_events ::
  "'s StreamBackend option \<Rightarrow> string \<Rightarrow> int \<Rightarrow> ('s MockBackend, nat) op" where
  "mock_prune_events X st n =
     recorded (PruneEventsStream st n)
       (case X of Some x \<Rightarrow> sx_prune_events x st n | None \<Rightarrow> \<lambda>s. (Inr 0, s))"

definition mock_consumer_group_info ::
  "'s StreamBackend option \<Rightarrow> string \<Rightarrow> ('s MockBackend, ConsumerGroupStatus list) op" where
  "mock_consumer_group_info X st =
     recorded (ConsumerGroupInfoStream st)
       (case X of Some x \<Rightarrow> sx_consumer_group_info x st | None \<Rightarrow> \<lambda>s. (Inr [], s))"

definition mock_stream :: "'s StreamBackend option \<Rightarrow> 's MockBackend StreamBackend" where
  "mock_stream X =
     \<lparr>sx_publish = mock_publish X,
      sx_subscribe_stream = mock_subscribe_stream X,
      sx_ack = mock_ack X,
      sx_read_events = mock_read_events X,
      sx_prune_events = mock_prune_events X,
      sx_consumer_group_info = mock_consumer_group_info X\<rparr>"

definition mock_enqueue ::
  "'s StorageBackend \<Rightarrow> Env \<Rightarrow> NewJob \<Rightarrow> ('s MockBackend, uuid) op" where
  "mock_enqueue B env job =
     recorded (Enqueue job) (sb_enqueue B env job)"

definition mock_subscribe ::
  "'s StorageBackend \<Rightarrow> string \<Rightarrow> ('s MockBackend, unit) op" where
  "mock_subscribe B q =
     recorded (Subscribe q) (sb_subscribe B q)"

definition mock_lease_jobs_batch ::
  "'s StorageBackend \<Rightarrow> Env \<Rightarrow> string \<Rightarrow> string \<Rightarrow> int \<Rightarrow> int \<Rightarrow> ('s MockBackend, Job list) op" where
  "mock_lease_jobs_batch B env q w ls bs =
     recorded (LeaseJobsBatch q w ls bs) (sb_lease_jobs_batch B env q w ls bs)"

definition mock_lease_jobs_batch_with_ordering ::
  "'s StorageBackend \<Rightarrow> Env \<Rightarrow> string \<Rightarrow> string \<Rightarrow> int \<Rightarrow> int \<Rightarrow> QueueOrdering \<Rightarrow> ('s MockBackend, Job list) op" where
  "mock_lease_jobs_batch_with_ordering B env q w ls bs ord =
     recorded (LeaseJobsBatchWithOrdering q w ls bs ord)
       (sb_lease_jobs_batch_with_ordering B env q w ls bs ord)"

definition mock_reap_expired_locks ::
  "'s StorageBackend \<Rightarrow> Env \<Rightarrow> ('s MockBackend, nat) op" where
  "mock_reap_expired_locks B env =
     recorded ReapExpiredLocks (sb_reap_expired_locks B env)"

definition mock_start_attempts_batch ::
  "'s StorageBackend \<Rightarrow> Env \<Rightarrow> string list \<Rightarrow> uuid list \<Rightarrow> string \<Rightarrow> ('s MockBackend, (uuid \<times> uuid \<times> int) list) op" where
  "mock_start_attempts_batch B env ds is w =
     recorded (StartAttemptsBatch is w) (sb_start_attempts_batch B env ds is w)"

definition mock_mark_succeeded ::
  "'s StorageBackend \<Rightarrow> Env \<Rightarrow> uuid \<Rightarrow> uuid \<Rightarrow> string \<Rightarrow> int \<Rightarrow> ('s MockBackend, unit) op" where
  "mock_mark_succeeded B env i a w l =
     recorded (MarkSucceeded i a w l) (sb_mark_succeeded B env i a w l)"

definition mock_mark_succeeded_batch ::
  "'s StorageBackend \<Rightarrow> (nat \<Rightarrow> Env) \<Rightarrow> string \<Rightarrow> (uuid \<times> uuid \<times> int) list \<Rightarrow> string \<Rightarrow> ('s MockBackend, unit) op" where
  "mock_mark_succeeded_batch B envs d us w =
     recorded (MarkSucceededBatch d us w) (sb_mark_succeeded_batch B envs d us w)"

definition mock_reschedule_for_retry ::
  "'s StorageBackend \<Rightarrow> Env \<Rightarrow> uuid \<Rightarrow> uuid \<Rightarrow> string \<Rightarrow> int \<Rightarrow> datetime \<Rightarrow> string \<Rightarrow> string \<Rightarrow> int \<Rightarrow> ('s MockBackend, unit) op" where
  "mock_reschedule_for_retry B env i a w l t c m n =
     recorded (RescheduleForRetry i a w l t c m n) (sb_reschedule_for_retry B env i a w l t c m n)"

definition mock_mark_dlq ::
  "'s StorageBackend \<Rightarrow> Env \<Rightarrow> uuid \<Rightarrow> uuid \<Rightarrow> string \<Rightarrow> int \<Rightarrow> string \<Rightarrow> string \<Rightarrow> string \<Rightarrow> int \<Rightarrow> ('s MockBackend, unit) op" where
  "mock_mark_dlq B env i a w l r c m n =
     recorded (MarkDlq i a w l r c m n) (sb_mark_dlq B env i a w l r c m n)"

definition mock_archive_succeeded_older_than ::
  "'s StorageBackend \<Rightarrow> datetime \<Rightarrow> int \<Rightarrow> ('s MockBackend, nat) op" where
  "mock_archive_succeeded_older_than B t n =
     recorded (ArchiveSucceededOlderThan t n) (sb_archive_succeeded_older_than B t n)"

definition mock_delete_history_for_succeeded_older_than ::
  "'s StorageBackend \<Rightarrow> datetime \<Rightarrow> int \<Rightarrow> ('s MockBackend, nat \<times> nat) op" where
  "mock_delete_history_for_succeeded_older_than B t n =
     recorded (DeleteHistoryForSucceededOlderThan t n)
       (sb_delete_history_for_succeeded_older_than B t n)"

definition mock_perform_maintenance ::
  "'s StorageBackend \<Rightarrow> Env \<Rightarrow> ('s MockBackend, unit) op" where
  "mock_perform_maintenance B env =
     recorded PerformMaintenance (sb_perform_maintenance B env)"

definition mock_extend_lease ::
  "'s StorageBackend \<Rightarrow> Env \<Rightarrow> uuid \<Rightarrow> string \<Rightarrow> int \<Rightarrow> ('s MockBackend, bool) op" where
  "mock_extend_lease B env i w ls =
     recorded (ExtendLease i w ls) (sb_extend_lease B env i w ls)"

definition mock_cancel_job ::
  "'s StorageBackend \<Rightarrow> Env \<Rightarrow> uuid \<Rightarrow> string option \<Rightarrow> ('s MockBackend, unit) op" where
  "mock_cancel_job B env i w =
     recorded (CancelJob i w) (sb_cancel_job B env i w)"

definition mock_get_job ::
  "'s StorageBackend \<Rightarrow> uuid \<Rightarrow> ('s MockBackend, Job option) op" where
  "mock_get_job B i =
     recorded (GetJob i) (sb_get_job B i)"

definition mock_list_jobs ::
  "'s StorageBackend \<Rightarrow> string option \<Rightarrow> string option \<Rightarrow> int \<Rightarrow> datetime option \<Rightarrow> uuid option \<Rightarrow> ('s MockBackend, JobListItem list) op" where
  "mock_list_jobs B q st n c i =
     recorded (ListJobs q st n) (sb_list_jobs B q st n c i)"

definition mock_replay_job ::
  "'s StorageBackend \<Rightarrow> Env \<Rightarrow> uuid \<Rightarrow> string option \<Rightarrow> datetime option \<Rightarrow> ('s MockBackend, uuid) op" where
  "mock_replay_job B env i q t =
     recorded (ReplayJob i q t) (sb_replay_job B env i q t)"

definition mock_backend :: "'s StorageBackend \<Rightarrow> 's MockBackend StorageBackend" where
  "mock_backend B =
     \<lparr>sb_capabilities = (\<lambda>m. sb_capabilities B (mk_inner m)),
      sb_as_stream = Some (mock_stream (sb_as_stream B)),
      sb_run_migrations = recorded RunMigrations (sb_run_migrations B),
      sb_health_check = recorded HealthCheck (sb_health_check B),
      sb_enqueue = mock_enqueue B,
      sb_subscribe = mock_subscribe B,
      sb_lease_jobs_batch = mock_lease_jobs_batch B,
      sb_lease_jobs_batch_with_ordering = mock_lease_jobs_batch_with_ordering B,
      sb_reap_expired_locks = mock_reap_expired_locks B,
      sb_start_attempts_batch = mock_start_attempts_batch B,
      sb_mark_succeeded = mock_mark_succeeded B,
      sb_mark_succeeded_batch = mock_mark_succeeded_batch B,
      sb_reschedule_for_retry = mock_reschedule_for_retry B,
      sb_mark_dlq = mock_mark_dlq B,
      sb_archive_succeeded_older_than = mock_archive_succeeded_older_than B,
      sb_delete_history_for_succeeded_older_than = mock_delete_history_for_succeeded_older_than B,
      sb_perform_maintenance = mock_perform_maintenance B,
      sb_extend_lease = mock_extend_lease B,
      sb_cancel_job = mock_cancel_job B,
      sb_get_job = mock_get_job B,
      sb_list_jobs = mock_list_jobs B,
      sb_replay_job = mock_replay_job B\<rparr>"

lemmas mock_op_defs =
  mock_enqueue_def
  mock_subscribe_def
  mock_lease_jobs_batch_def
  mock_lease_jobs_batch_with_ordering_def
  mock_reap_expired_locks_def
  mock_start_attempts_batch_def
  mock_mark_succeeded_def
  mock_mark_succeeded_batch_def
  mock_reschedule_for_retry_def
  mock_mark_dlq_def
  mock_archive_succeeded_older_than_def
  mock_delete_history_for_succeeded_older_than_def
  mock_perform_maintenance_def
  mock_extend_lease_def
  mock_cancel_job_def
  mock_get_job_def
  mock_list_jobs_def
  mock_replay_job_def

section \<open>Recording keeps the contract\<close>

lemma recorded_result:
  "f (mk_inner m) = (r, s') \<Longrightarrow> recorded c f m = (r, m\<lparr>mk_inner := s', mk_calls := mk_calls m @ [c]\<rparr>)"
  by (simp add: recorded_def Let_def)

lemma recorded_ex:
  assumes "\<exists>r s'. f (mk_inner m) = (Inr r, s') \<and> P r s'"
  shows "\<exists>r m'. recorded c f m = (Inr r, m') \<and> P r (mk_inner m')"
proof -
  from assms obtain r s' where "f (mk_inner m) = (Inr r, s')" "P r s'" by blast
  then show ?thesis using recorded_result[of f m "Inr r" s' c] by auto
qed

lemma recorded_ex_unit:
  assumes "\<exists>s'. f (mk_inner m) = (Inr (), s') \<and> P s'"
  shows "\<exists>m'. recorded c f m = (Inr (), m') \<and> P (mk_inner m')"
  using recorded_ex[of f m "\<lambda>_. P" c] assms by auto

context job_backend
begin

lemma mock_contract:
  "job_backend (mock_backend B) (\<lambda>m. inv (mk_inner m)) (\<lambda>m. stored (mk_inner m))
     (\<lambda>m. opened (mk_inner m)) (\<lambda>m. used (mk_inner m)) (\<lambda>m. located (mk_inner m)) accepts"
proof
  fix m :: "'s MockBackend" and i j and env :: Env and q w :: string and ls bs :: int
    and policy :: QueueOrdering and "is" :: "uuid list" and ds :: "string list"
    and a and l n :: int and t and c msg r :: string
  assume inv: "inv (mk_inner m)"
  show "finite (used (mk_inner m))" by (rule finite_law[OF inv])
  show "stored (mk_inner m) i = Some j \<Longrightarrow> i \<in> used (mk_inner m)" by (rule used_law[OF inv])
  fix m' k
  show "accepts ls \<Longrightarrow> sb_lease_jobs_batch_with_ordering (mock_backend B) env q w ls bs policy m = (Inr [], m') \<Longrightarrow> 0 < bs \<Longrightarrow>
      stored (mk_inner m') k = Some j \<Longrightarrow> j_status j = ''queued'' \<Longrightarrow> j_queue j = q \<Longrightarrow> e_now env < j_run_at j"
    using drained_law[OF inv, of ls env q w bs policy "mk_inner m'" k j]
    by (auto simp: mock_backend_def mock_op_defs recorded_def split: prod.splits)
qed (simp_all only: mock_backend_def mock_op_defs StorageBackend.simps,
     (rule recorded_ex recorded_ex_unit, rule lease_law start_law succeed_law retry_law dlq_law; assumption)+,
     simp add: extend_law)

end

text \<open>The wrapper with an inner in-memory storage, as \<^verbatim>\<open>with_memory\<close> builds it.\<close>

interpretation mk: job_backend "mock_backend memory_backend" "\<lambda>m. mem_inv (mk_inner m)"
  "\<lambda>m. mem_stored (mk_inner m)" "\<lambda>m a i. mem_opened (mk_inner m) a = Some i" "\<lambda>m. mem_used (mk_inner m)"
  "\<lambda>_ _ _. True" "\<lambda>_. True"
  by (rule mb.mock_contract)

section \<open>Recording is invisible to the client\<close>

text \<open>
  A computation on the wrapper mirrors one on the inner backend when it returns the same
  result and leaves the same inner state.
\<close>

definition mirrors :: "('s MockBackend \<Rightarrow> 'r \<times> 's MockBackend) \<Rightarrow> ('s \<Rightarrow> 'r \<times> 's) \<Rightarrow> bool" where
  "mirrors f g \<longleftrightarrow> (\<forall>m. fst (f m) = fst (g (mk_inner m)) \<and> mk_inner (snd (f m)) = snd (g (mk_inner m)))"

lemma mirrorsE:
  assumes "mirrors f g"
  obtains r m' where "f m = (r, m')" "g (mk_inner m) = (r, mk_inner m')"
  using assms unfolding mirrors_def by (metis prod.collapse)

lemma mirrors_recorded [simp]: "mirrors (recorded c f) f"
  by (simp add: mirrors_def)

lemma mirrors_lift: "mirrors f g \<Longrightarrow> mirrors (lift f) (lift g)"
  unfolding mirrors_def[of "lift f"]
proof
  fix m assume "mirrors f g"
  then obtain r m' where "f m = (r, m')" "g (mk_inner m) = (r, mk_inner m')" by (rule mirrorsE)
  then show "fst (lift f m) = fst (lift g (mk_inner m)) \<and> mk_inner (snd (lift f m)) = snd (lift g (mk_inner m))"
    by (simp add: lift_def split: sum.split)
qed

lemma mirrors_lift_recorded [simp]: "mirrors (lift (recorded c f)) (lift f)"
  by (simp add: mirrors_lift)

lemma mock_sel:
  "sb_reschedule_for_retry (mock_backend B) env i a w l t c msg n =
     recorded (RescheduleForRetry i a w l t c msg n) (sb_reschedule_for_retry B env i a w l t c msg n)"
  "sb_mark_dlq (mock_backend B) env i a w l r c msg n =
     recorded (MarkDlq i a w l r c msg n) (sb_mark_dlq B env i a w l r c msg n)"
  "sb_mark_succeeded (mock_backend B) env i a w l =
     recorded (MarkSucceeded i a w l) (sb_mark_succeeded B env i a w l)"
  "sb_extend_lease (mock_backend B) env i w ls =
     recorded (ExtendLease i w ls) (sb_extend_lease B env i w ls)"
  "sb_start_attempts_batch (mock_backend B) env ds is w =
     recorded (StartAttemptsBatch is w) (sb_start_attempts_batch B env ds is w)"
  "sb_lease_jobs_batch_with_ordering (mock_backend B) env q w ls bs ord =
     recorded (LeaseJobsBatchWithOrdering q w ls bs ord)
       (sb_lease_jobs_batch_with_ordering B env q w ls bs ord)"
  by (simp_all add: mock_backend_def mock_op_defs)

lemma mirrors_failure:
  "mirrors (handle_failure (mock_backend B) f w i a code msg n k) (handle_failure B f w i a code msg n k)"
  using mirrors_lift_recorded
  by (auto simp: mirrors_def handle_failure_def mock_sel Let_def split: outcome.split)

lemma mirrors_conclude: "mirrors (conclude_job (mock_backend B) f w job a n) (conclude_job B f w job a n)"
  using mirrors_lift_recorded mirrors_failure[of B f w]
  by (auto simp: mirrors_def conclude_job_def mock_sel Let_def case_prod_unfold split: option.split)

lemma heartbeats_mirror:
  "mk_inner (send_heartbeats (mock_backend B) f i hs m) = send_heartbeats B f i hs (mk_inner m)"
  by (induction hs arbitrary: m) (simp_all add: mock_sel)

lemma mirrors_process_loop:
  "mirrors (process_loop (mock_backend B) f world batch t) (process_loop B f world batch t)"
proof (induction batch arbitrary: world t)
  case (Cons job rest)
  show ?case
    unfolding mirrors_def
  proof
    fix m :: "'a MockBackend"
    let ?h = "\<lambda>B s. send_heartbeats B f (j_id job) (jr_heartbeats (world 0)) s"
    show "fst (process_loop (mock_backend B) f world (job # rest) t m) =
            fst (process_loop B f world (job # rest) t (mk_inner m)) \<and>
          mk_inner (snd (process_loop (mock_backend B) f world (job # rest) t m)) =
            snd (process_loop B f world (job # rest) t (mk_inner m))"
    proof (cases "map_of t (j_id job)")
      case None
      then show ?thesis using Cons unfolding mirrors_def by simp
    next
      case (Some p)
      obtain a n where p: "p = (a, n)" by (cases p)
      obtain r m2 where c: "conclude_job (mock_backend B) f (world 0) job a n (?h (mock_backend B) m) = (r, m2)"
        "conclude_job B f (world 0) job a n (?h B (mk_inner m)) = (r, mk_inner m2)"
        using mirrorsE[OF mirrors_conclude, of B f "world 0" job a n "?h (mock_backend B) m"]
        by (metis heartbeats_mirror)
      show ?thesis
        using Some p c Cons mirrors_failure[of B f "world 0"]
        by (auto simp: mirrors_def heartbeats_mirror Let_def split: sum.split)
    qed
  qed
qed (simp add: mirrors_def)

lemma mirrors_process_batch:
  "mirrors (process_batch (mock_backend B) f env world batch) (process_batch B f env world batch)"
  using mirrors_process_loop[of B f world batch]
  by (auto simp: mirrors_def process_batch_def mock_sel recorded_def Let_def
      split: prod.splits sum.splits)

lemma mirrors_lease_round: "mirrors (lease_round (mock_backend B) f env) (lease_round B f env)"
  by (simp add: lease_round_def mock_sel)

text \<open>
  C28: Recording is transparent: a worker that drains its queue through a recording wrapper
  returns what it returns on the wrapped backend and leaves the wrapped backend in the same
  state, whatever the backend, the handlers and the clock do.
\<close>

theorem mock_transparent:
  "map_option (\<lambda>(r, m'). (r, mk_inner m')) (run_until_empty fuel (mock_backend B) f rounds p m) =
   run_until_empty fuel B f rounds p (mk_inner m)"
proof (induction fuel arbitrary: rounds p m)
  case (Suc fuel)
  let ?r = "rounds 0"
  obtain l m1 where l: "lease_round (mock_backend B) f (rd_lease_env ?r) m = (l, m1)"
    "lease_round B f (rd_lease_env ?r) (mk_inner m) = (l, mk_inner m1)"
    by (rule mirrorsE[OF mirrors_lease_round])
  show ?case
  proof (cases l)
    case (Inr batch)
    obtain q m2 where
      "process_batch (mock_backend B) f (rd_start_env ?r) (rd_jobs ?r) batch m1 = (q, m2)"
      "process_batch B f (rd_start_env ?r) (rd_jobs ?r) batch (mk_inner m1) = (q, mk_inner m2)"
      by (rule mirrorsE[OF mirrors_process_batch])
    then show ?thesis using l Inr Suc by (simp add: Let_def split: sum.split)
  qed (use l in \<open>simp add: Let_def\<close>)
qed simp

end
