(* ===== verification/Semantic_Contract.thy ===== *)
theory Semantic_Contract
  imports Core_Model
begin

text \<open>
  The product contract of \<^verbatim>\<open>azums-core/src/semantics.rs\<close>: the behaviours the project
  classifies, their classification, and the wording of each promise. The behaviours that
  are guaranteed are the ones the storage theories prove of the in-memory backend.
\<close>

datatype SemanticBehavior =
    AtLeastOnceExecution
  | RunAtEligibility
  | LeaseExclusivity
  | CrashRecoveryAfterLeaseExpiry
  | MonotonicConsumerGroupOffsets
  | SafeStreamPruning
  | Durability
  | TransactionalEnqueue
  | DistributedWorkers
  | NotificationDelivery
  | WakeUpLatency
  | Backpressure
  | StreamRetention
  | ExactlyOnceExecution
  | ExactlyOnceExternalSideEffects
  | ExactRunAtExecution
  | CompletionOrdering
  | GlobalOrdering
  | WorkerFairness
  | ArbitraryExternalTransactions
  | PermanentRetention
  | AutomaticScaling
  | ConsumerGroupWorkBalancing

definition SemanticBehavior_ALL :: "SemanticBehavior list" where
  "SemanticBehavior_ALL =
     [AtLeastOnceExecution,
      RunAtEligibility,
      LeaseExclusivity,
      CrashRecoveryAfterLeaseExpiry,
      MonotonicConsumerGroupOffsets,
      SafeStreamPruning,
      Durability,
      TransactionalEnqueue,
      DistributedWorkers,
      NotificationDelivery,
      WakeUpLatency,
      Backpressure,
      StreamRetention,
      ExactlyOnceExecution,
      ExactlyOnceExternalSideEffects,
      ExactRunAtExecution,
      CompletionOrdering,
      GlobalOrdering,
      WorkerFairness,
      ArbitraryExternalTransactions,
      PermanentRetention,
      AutomaticScaling,
      ConsumerGroupWorkBalancing]"

datatype SemanticClassification = Guaranteed | BackendDependent | Unspecified

record SemanticContract =
  sc_behavior :: SemanticBehavior
  sc_classification :: SemanticClassification
  sc_contract :: string
  sc_supported_alternative :: "string option"

primrec contract_entry :: "SemanticBehavior \<Rightarrow> SemanticClassification \<times> string \<times> string option" where
  "contract_entry AtLeastOnceExecution =
     (Guaranteed,
      ''A committed runnable job may execute more than once but is not silently discarded.'',
      None)"
| "contract_entry RunAtEligibility =
     (Guaranteed,
      ''A scheduled job is not eligible for leasing before its backend clock reaches run_at.'',
      None)"
| "contract_entry LeaseExclusivity =
     (Guaranteed,
      ''A job has at most one unexpired worker lease at a time.'',
      None)"
| "contract_entry CrashRecoveryAfterLeaseExpiry =
     (Guaranteed,
      ''Abandoned work becomes runnable after lease expiry and recovery.'',
      None)"
| "contract_entry MonotonicConsumerGroupOffsets =
     (Guaranteed,
      ''Acknowledgement never moves a consumer-group offset backward.'',
      None)"
| "contract_entry SafeStreamPruning =
     (Guaranteed,
      ''Explicit pruning does not pass the lowest known consumer-group offset.'',
      None)"
| "contract_entry Durability =
     (BackendDependent,
      ''Persistence strength is declared by StorageBackend::semantic_capabilities().durability.'',
      None)"
| "contract_entry TransactionalEnqueue =
     (BackendDependent,
      ''Atomicity scope is declared by StorageBackend::semantic_capabilities().transactional_enqueue_scope.'',
      None)"
| "contract_entry DistributedWorkers =
     (BackendDependent,
      ''Multi-process lease coordination requires distributed_workers = true.'',
      None)"
| "contract_entry NotificationDelivery =
     (BackendDependent,
      ''Notifications are hints with behavior declared by StorageBackend::semantic_capabilities().notification_delivery.'',
      Some ''Read or lease durable backend state after every wake-up and on a polling fallback.'')"
| "contract_entry WakeUpLatency =
     (BackendDependent,
      ''Azums provides no backend-independent notification latency bound.'',
      Some ''Configure worker polling and measure queue claim latency.'')"
| "contract_entry Backpressure =
     (BackendDependent,
      ''Overload behavior is declared by BackendCapabilities::backpressure.'',
      None)"
| "contract_entry StreamRetention =
     (BackendDependent,
      ''Retention is declared by StorageBackend::semantic_capabilities().stream_retention and backend configuration.'',
      None)"
| "contract_entry ExactlyOnceExecution =
     (Unspecified,
      ''Handlers may execute more than once after retries, crashes, lease expiry, or replay.'',
      Some ''Use idempotent handlers and an application deduplication record.'')"
| "contract_entry ExactlyOnceExternalSideEffects =
     (Unspecified,
      ''Azums cannot atomically control arbitrary external side effects.'',
      Some ''Use provider idempotency keys or a transactional outbox in the same database.'')"
| "contract_entry ExactRunAtExecution =
     (Unspecified,
      ''run_at is an eligibility boundary, not an exact execution timestamp.'',
      Some ''Use deadline_at for a latest-start bound and observe scheduling latency.'')"
| "contract_entry CompletionOrdering =
     (Unspecified,
      ''Parallel workers may complete jobs in any order.'',
      Some ''Use one worker with batch size one when serial completion is required.'')"
| "contract_entry GlobalOrdering =
     (Unspecified,
      ''Azums defines no total order across queues or streams.'',
      Some ''Route related work through one FIFO queue or one stream.'')"
| "contract_entry WorkerFairness =
     (Unspecified,
      ''Azums does not guarantee equal or fair work distribution among workers.'',
      Some ''Observe worker throughput and enforce deployment-level limits.'')"
| "contract_entry ArbitraryExternalTransactions =
     (Unspecified,
      ''Azums does not provide atomic transactions across unrelated services.'',
      Some ''Use same-database enqueue, an outbox, or an application saga.'')"
| "contract_entry PermanentRetention =
     (Unspecified,
      ''No backend can promise retention independent of operator deletion, media loss, or configuration.'',
      Some ''Use backups, replication, archival, and explicit retention policy.'')"
| "contract_entry AutomaticScaling =
     (Unspecified,
      ''Azums does not provision or remove worker processes.'',
      Some ''Scale from exported queue-depth and latency metrics.'')"
| "contract_entry ConsumerGroupWorkBalancing =
     (Unspecified,
      ''Consumer groups persist offsets but do not assign events to members.'',
      Some ''Add application-owned partition assignment or use distinct groups.'')"

definition semantic_contract :: "SemanticBehavior \<Rightarrow> SemanticContract" where
  "semantic_contract behavior =
     (let (classification, contract, supported_alternative) = contract_entry behavior
      in \<lparr>sc_behavior = behavior, sc_classification = classification, sc_contract = contract,
          sc_supported_alternative = supported_alternative\<rparr>)"

lemma all_behaviors: "b \<in> set SemanticBehavior_ALL"
  by (cases b) (simp_all add: SemanticBehavior_ALL_def)

text \<open>
  The inventory of behaviours lists every behaviour exactly once; a behaviour that is
  not specified always names a supported alternative, and a guaranteed one needs none.
\<close>

theorem contract_inventory:
  "distinct SemanticBehavior_ALL \<and> set SemanticBehavior_ALL = UNIV
   \<and> (sc_classification (semantic_contract b) = Unspecified
        \<longrightarrow> sc_supported_alternative (semantic_contract b) \<noteq> None)
   \<and> (sc_classification (semantic_contract b) = Guaranteed
        \<longrightarrow> sc_supported_alternative (semantic_contract b) = None)"
proof (intro conjI)
  show "distinct SemanticBehavior_ALL" by (simp add: SemanticBehavior_ALL_def)
  show "set SemanticBehavior_ALL = UNIV" using all_behaviors by auto
  show "sc_classification (semantic_contract b) = Unspecified
      \<longrightarrow> sc_supported_alternative (semantic_contract b) \<noteq> None"
    by (cases b) (simp_all add: semantic_contract_def)
  show "sc_classification (semantic_contract b) = Guaranteed
      \<longrightarrow> sc_supported_alternative (semantic_contract b) = None"
    by (cases b) (simp_all add: semantic_contract_def)
qed

theorem contract_inventory_witness:
  "sc_supported_alternative (semantic_contract LeaseExclusivity) = None
   \<and> sc_supported_alternative (semantic_contract WorkerFairness) \<noteq> None"
  using contract_inventory[of LeaseExclusivity] contract_inventory[of WorkerFairness]
  by (simp add: semantic_contract_def)

end
