(* ===== verification/Sql_Tables.thy ===== *)
theory Sql_Tables
  imports Backend_Api
begin

text \<open>
  The fragment of SQL that the relational storages use. A table is the list of its rows in
  the order of a scan; a theorem about all lists is a theorem about all scan orders. A
  statement is a function on tables: a predicate for its WHERE clause, a row function for
  its SET clause, a key for its ORDER BY clause. INSERT statements keep their column list
  and their value list apart, because the database compares the two before it runs them.
\<close>

section \<open>Statements\<close>

text \<open>UPDATE t SET f WHERE P, and the number of rows it affects.\<close>

definition sql_update :: "('r \<Rightarrow> bool) \<Rightarrow> ('r \<Rightarrow> 'r) \<Rightarrow> 'r list \<Rightarrow> 'r list" where
  "sql_update P f t = map (\<lambda>r. if P r then f r else r) t"

definition rows_affected :: "('r \<Rightarrow> bool) \<Rightarrow> 'r list \<Rightarrow> nat" where
  "rows_affected P t = length (filter P t)"

definition sql_delete :: "('r \<Rightarrow> bool) \<Rightarrow> 'r list \<Rightarrow> 'r list" where
  "sql_delete P t = filter (\<lambda>r. \<not> P r) t"

text \<open>LIMIT n: a negative limit is no limit in SQLite.\<close>

definition sql_limit :: "int \<Rightarrow> 'r list \<Rightarrow> 'r list" where
  "sql_limit n xs = (if n < 0 then xs else take (nat n) xs)"

text \<open>The row with a given key.\<close>

definition row_at :: "('r \<Rightarrow> 'k) \<Rightarrow> 'r list \<Rightarrow> 'k \<Rightarrow> 'r option" where
  "row_at key t = map_of (map (\<lambda>r. (key r, r)) t)"

section \<open>Facts\<close>

lemma row_at_Nil [simp]: "row_at key [] i = None"
  by (simp add: row_at_def)

lemma row_at_Cons: "row_at key (r # t) i = (if key r = i then Some r else row_at key t i)"
  by (simp add: row_at_def)

lemma row_at_update:
  assumes "\<And>r. key (f r) = key r"
  shows "row_at key (sql_update P f t) i = map_option (\<lambda>r. if P r then f r else r) (row_at key t i)"
  by (induction t) (simp_all add: sql_update_def row_at_Cons assms)

lemma row_at_snoc:
  "row_at key (t @ [r]) i = (case row_at key t i of Some x \<Rightarrow> Some x | None \<Rightarrow> if key r = i then Some r else None)"
  by (induction t) (simp_all add: row_at_Cons)

lemma row_at_SomeD: "row_at key t i = Some r \<Longrightarrow> r \<in> set t \<and> key r = i"
  by (induction t) (auto simp: row_at_Cons split: if_splits)

lemma row_at_None: "row_at key t i = None \<longleftrightarrow> i \<notin> key ` set t"
  by (induction t) (auto simp: row_at_Cons)

lemma dom_row_at: "dom (row_at key t) = key ` set t"
  by (rule set_eqI) (simp only: domIff row_at_None not_not)

lemma row_at_absent: "i \<notin> key ` set t \<Longrightarrow> row_at key t i = None"
  by (simp add: row_at_None)

lemma row_at_mem: "distinct (map key t) \<Longrightarrow> r \<in> set t \<longleftrightarrow> row_at key t (key r) = Some r"
proof (induction t)
  case (Cons x t)
  then show ?case by (auto simp: row_at_Cons image_iff)
qed simp

lemma row_at_unique: "distinct (map key t) \<Longrightarrow> r \<in> set t \<Longrightarrow> key r = i \<Longrightarrow> row_at key t i = Some r"
  using row_at_mem[of key t r] by simp

lemma row_at_filter:
  "distinct (map key t) \<Longrightarrow>
     row_at key (filter P t) i = (case row_at key t i of Some r \<Rightarrow> if P r then Some r else None | None \<Rightarrow> None)"
  by (induction t) (auto simp: row_at_Cons row_at_absent)

lemma map_key_update [simp]:
  "(\<And>r. key (f r) = key r) \<Longrightarrow> map key (sql_update P f t) = map key t"
  by (simp add: sql_update_def)

lemma set_update: "set (sql_update P f t) = f ` {r \<in> set t. P r} \<union> {r \<in> set t. \<not> P r}"
  by (auto simp: sql_update_def)

lemma distinct_filter_key [simp]: "distinct (map key t) \<Longrightarrow> distinct (map key (filter P t))"
  by (rule distinct_map_filter)

lemma affected_key:
  assumes "distinct (map key t)"
  shows "rows_affected (\<lambda>r. key r = i \<and> Q r) t =
    (case row_at key t i of None \<Rightarrow> 0 | Some r \<Rightarrow> if Q r then 1 else 0)"
  using assms
proof (induction t)
  case (Cons x t)
  then show ?case
    by (auto simp: rows_affected_def row_at_Cons row_at_absent)
qed (simp add: rows_affected_def)

lemma update_twice:
  assumes "\<And>r. key (f r) = key r" "\<And>r. f (f r) = f r"
  shows "sql_update (\<lambda>r. key r = i) f (sql_update (\<lambda>r. key r \<in> I) f t) = sql_update (\<lambda>r. key r \<in> insert i I) f t"
  using assms by (auto simp: sql_update_def)

lemma fold_update:
  assumes "\<And>r. key (f r) = key r" "\<And>r. f (f r) = f r"
  shows "fold (\<lambda>x. sql_update (\<lambda>r. key r = k x) f) xs (sql_update (\<lambda>r. key r \<in> I) f t) =
    sql_update (\<lambda>r. key r \<in> I \<union> k ` set xs) f t"
proof (induction xs arbitrary: I)
  case (Cons x xs)
  have "fold (\<lambda>x. sql_update (\<lambda>r. key r = k x) f) (x # xs) (sql_update (\<lambda>r. key r \<in> I) f t) =
      fold (\<lambda>x. sql_update (\<lambda>r. key r = k x) f) xs (sql_update (\<lambda>r. key r \<in> insert (k x) I) f t)"
    using update_twice[where key = key and f = f, OF assms] by simp
  also have "\<dots> = sql_update (\<lambda>r. key r \<in> insert (k x) I \<union> k ` set xs) f t" by (rule Cons.IH)
  finally show ?case by (simp add: insert_commute)
qed simp

lemma update_keyed:
  assumes "distinct (map key t)" "C \<subseteq> set t"
  shows "sql_update (\<lambda>r. key r \<in> key ` C) f t = sql_update (\<lambda>r. r \<in> C) f t"
proof -
  have "r \<in> C" if "r \<in> set t" "key r \<in> key ` C" for r
    using that assms by (auto simp: distinct_map dest: inj_onD)
  then show ?thesis by (auto simp: sql_update_def)
qed

lemma update_row:
  assumes "distinct (map key t)" "row_at key t i = Some x"
  shows "sql_update (\<lambda>r. key r = i) f t = sql_update (\<lambda>r. r = x) f t"
proof -
  have x: "x \<in> set t" "key x = i" using row_at_SomeD[OF assms(2)] by auto
  have "sql_update (\<lambda>r. key r \<in> key ` {x}) f t = sql_update (\<lambda>r. r \<in> {x}) f t"
    using x(1) by (intro update_keyed[OF assms(1)]) simp
  then show ?thesis using x(2) by simp
qed

lemma update_none: "sql_update (\<lambda>r. False) f t = t"
  by (simp add: sql_update_def)

text \<open>Sorting by keys that order the rows in the same way gives the same list.\<close>

lemma sort_key_same_order:
  fixes f :: "'r \<Rightarrow> 'a::linorder" and g :: "'r \<Rightarrow> 'b::linorder"
  assumes "\<And>x y. x \<in> set xs \<Longrightarrow> y \<in> set xs \<Longrightarrow> f x \<le> f y \<longleftrightarrow> g x \<le> g y"
  shows "sort_key f xs = sort_key g xs"
  using assms
proof (induction xs)
  case (Cons x xs)
  have "insort_key f x ys = insort_key g x ys" if "set ys \<subseteq> set xs" for ys
    using that Cons.prems by (induction ys) auto
  then show ?case using Cons by simp
qed simp

lemma set_sql_limit: "set (sql_limit n xs) \<subseteq> set xs"
  by (auto simp: sql_limit_def dest: in_set_takeD)

lemma map_sql_limit: "map f (sql_limit n xs) = sql_limit n (map f xs)"
  by (simp add: sql_limit_def take_map)

lemma distinct_sql_limit: "distinct xs \<Longrightarrow> distinct (sql_limit n xs)"
  by (simp add: sql_limit_def)

lemma sql_limit_Nil: "0 < n \<Longrightarrow> sql_limit n xs = [] \<longleftrightarrow> xs = []"
  by (auto simp: sql_limit_def)

lemma find_append: "find P (xs @ ys) = (case find P xs of Some x \<Rightarrow> Some x | None \<Rightarrow> find P ys)"
  by (induction xs) auto

lemma find_update:
  assumes "\<And>r. Q (f r) = Q r"
  shows "find Q (sql_update P f t) = map_option (\<lambda>r. if P r then f r else r) (find Q t)"
  by (induction t) (auto simp: sql_update_def assms)

text \<open>Rows that are in the order of their keys already.\<close>

lemma sort_key_strict:
  assumes "sorted_wrt (\<lambda>a b. f a < f b) xs"
  shows "sort_key f xs = xs"
proof (rule sort_key_id_if_sorted)
  show "sorted (map f xs)"
    using assms unfolding sorted_wrt_map[symmetric] by (metis sorted_wrt_map strict_sorted_imp_sorted)
qed

section \<open>Transactions\<close>

text \<open>\<^verbatim>\<open>pool.begin()\<close> ... \<^verbatim>\<open>tx.commit()\<close>: an error rolls the statements back.\<close>

definition transaction :: "('s, 'r) op \<Rightarrow> ('s, 'r) op" where
  "transaction body s = (case body s of (Inl e, _) \<Rightarrow> (Inl e, s) | (Inr r, s') \<Rightarrow> (Inr r, s'))"

lemma transaction_cases:
  obtains e where "transaction body s = (Inl e, s)"
  | r s' where "transaction body s = (Inr r, s')" "body s = (Inr r, s')"
proof (cases "body s")
  case (Pair r s')
  then show ?thesis using that by (cases r) (simp_all add: transaction_def)
qed

lemma transaction_keeps:
  assumes "P s" "\<And>r s'. body s = (Inr r, s') \<Longrightarrow> P s'"
  shows "P (snd (transaction body s))"
  using assms by (cases rule: transaction_cases[of body s]) auto

lemma transaction_atomic: "fst (transaction body s) = Inl e \<Longrightarrow> snd (transaction body s) = s"
  by (cases rule: transaction_cases[of body s]) auto

section \<open>Values and rows of the jobs table\<close>

datatype sqlval = SNull | SText string | SInt int | STime datetime | SUuid uuid | SJson json

fun opt_text :: "string option \<Rightarrow> sqlval" where
  "opt_text None = SNull" | "opt_text (Some t) = SText t"

fun opt_int :: "int option \<Rightarrow> sqlval" where
  "opt_int None = SNull" | "opt_int (Some n) = SInt n"

fun opt_time :: "datetime option \<Rightarrow> sqlval" where
  "opt_time None = SNull" | "opt_time (Some t) = STime t"

type_synonym sqlrow = "(string \<times> sqlval) list"

text \<open>A statement whose value list is not as long as its column list is refused.\<close>

definition bind_columns :: "string list \<Rightarrow> sqlval list \<Rightarrow> sqlrow option" where
  "bind_columns columns values = (if length columns = length values then Some (zip columns values) else None)"

definition col_text :: "sqlrow \<Rightarrow> string \<Rightarrow> string option" where
  "col_text r c = (case map_of r c of Some (SText t) \<Rightarrow> Some t | _ \<Rightarrow> None)"

definition col_int :: "sqlrow \<Rightarrow> string \<Rightarrow> int option" where
  "col_int r c = (case map_of r c of Some (SInt n) \<Rightarrow> Some n | _ \<Rightarrow> None)"

definition col_time :: "sqlrow \<Rightarrow> string \<Rightarrow> datetime option" where
  "col_time r c = (case map_of r c of Some (STime t) \<Rightarrow> Some t | _ \<Rightarrow> None)"

definition col_uuid :: "sqlrow \<Rightarrow> string \<Rightarrow> uuid option" where
  "col_uuid r c = (case map_of r c of Some (SUuid u) \<Rightarrow> Some u | _ \<Rightarrow> None)"

definition col_json :: "sqlrow \<Rightarrow> string \<Rightarrow> json option" where
  "col_json r c = (case map_of r c of Some (SJson j) \<Rightarrow> Some j | _ \<Rightarrow> None)"

definition or_else :: "'a option \<Rightarrow> 'a \<Rightarrow> 'a" where
  "or_else x d = (case x of None \<Rightarrow> d | Some v \<Rightarrow> v)"

text \<open>
  A row of the jobs table from the columns an INSERT names: columns it does not name take
  the default of the table, NULL or a constant.
\<close>

definition job_row :: "sqlrow \<Rightarrow> Job" where
  "job_row r =
     \<lparr>j_dataset_id = or_else (col_text r ''dataset_id'') ''default'',
      j_replay_of_job_id = col_uuid r ''replay_of_job_id'',
      j_idempotency_key = col_text r ''idempotency_key'',
      j_id = or_else (col_uuid r ''id'') 0,
      j_queue = or_else (col_text r ''queue'') ''default'',
      j_job_type = or_else (col_text r ''job_type'') [],
      j_payload = or_else (col_json r ''payload_json'') (JObject []),
      j_run_at = or_else (col_time r ''run_at'') 0,
      j_deadline_at = col_time r ''deadline_at'',
      j_timeout_seconds = col_int r ''timeout_seconds'',
      j_recurring_interval_seconds = col_int r ''recurring_interval_seconds'',
      j_status = or_else (col_text r ''status'') ''queued'',
      j_priority = or_else (col_int r ''priority'') 0,
      j_max_attempts = or_else (col_int r ''max_attempts'') 25,
      j_locked_at = col_time r ''locked_at'', j_locked_by = col_text r ''locked_by'',
      j_lock_expires_at = col_time r ''lock_expires_at'',
      j_dlq_reason_code = col_text r ''dlq_reason_code'', j_dlq_at = col_time r ''dlq_at'',
      j_created_at = or_else (col_time r ''created_at'') 0,
      j_updated_at = or_else (col_time r ''updated_at'') 0\<rparr>"

lemma opt_cases:
  "(case opt_text a of SText t \<Rightarrow> Some t | _ \<Rightarrow> None) = a"
  "(case opt_int b of SInt n \<Rightarrow> Some n | _ \<Rightarrow> None) = b"
  "(case opt_time c of STime t \<Rightarrow> Some t | _ \<Rightarrow> None) = c"
proof -
  show "(case opt_text a of SText t \<Rightarrow> Some t | _ \<Rightarrow> None) = a" by (cases a) simp_all
  show "(case opt_int b of SInt n \<Rightarrow> Some n | _ \<Rightarrow> None) = b" by (cases b) simp_all
  show "(case opt_time c of STime t \<Rightarrow> Some t | _ \<Rightarrow> None) = c" by (cases c) simp_all
qed

lemmas column_defs =
  bind_columns_def col_text_def col_int_def col_time_def col_uuid_def col_json_def or_else_def opt_cases

end
