(* ===== verification/Sqlite_Schema.thy ===== *)
theory Sqlite_Schema
  imports Backend_Api
begin

text \<open>
  The schema of the SQLite storage and its migration, \<^verbatim>\<open>run_migrations\<close> of
  \<^verbatim>\<open>azums/src/backend/sqlite.rs\<close>. A schema is the columns of each table and the names of
  the indexes. The statements of one query string run one after the other, each in a
  transaction of its own: the first error ends the query and keeps what ran before it.
\<close>

section \<open>Data definition statements\<close>

record Schema =
  sc_tables :: "(string, string list) hashmap"
  sc_indexes :: "string list"

definition no_schema :: Schema where
  "no_schema = \<lparr>sc_tables = [], sc_indexes = []\<rparr>"

datatype ddl =
    CreateTable string "string list"
  | CreateIndex string string "string list"
  | AddColumn string string

text \<open>CREATE TABLE IF NOT EXISTS, CREATE INDEX IF NOT EXISTS, ALTER TABLE ... ADD COLUMN.\<close>

fun run_ddl :: "ddl \<Rightarrow> Schema \<Rightarrow> anyhow + Schema" where
  "run_ddl (CreateTable t cols) sc =
     (case map_of (sc_tables sc) t of
        Some _ \<Rightarrow> Inr sc
      | None \<Rightarrow> Inr (sc\<lparr>sc_tables := hm_insert t cols (sc_tables sc)\<rparr>))"
| "run_ddl (CreateIndex i t cols) sc =
     (if i \<in> set (sc_indexes sc) then Inr sc
      else case map_of (sc_tables sc) t of
             None \<Rightarrow> Inl (sql_error ''no such table'')
           | Some have_cols \<Rightarrow>
               if set cols \<subseteq> set have_cols then Inr (sc\<lparr>sc_indexes := i # sc_indexes sc\<rparr>)
               else Inl (sql_error ''table has no such column''))"
| "run_ddl (AddColumn t c) sc =
     (case map_of (sc_tables sc) t of
        None \<Rightarrow> Inl (sql_error ''no such table'')
      | Some cols \<Rightarrow>
          if c \<in> set cols then Inl (sql_error ''duplicate column name'')
          else Inr (sc\<lparr>sc_tables := hm_insert t (cols @ [c]) (sc_tables sc)\<rparr>))"

fun run_script :: "ddl list \<Rightarrow> (Schema, unit) op" where
  "run_script [] sc = (Inr (), sc)"
| "run_script (d # ds) sc =
     (case run_ddl d sc of Inl e \<Rightarrow> (Inl e, sc) | Inr sc' \<Rightarrow> run_script ds sc')"

text \<open>\<^verbatim>\<open>let _ = sqlx::query(...).execute(...).await;\<close>\<close>

definition run_ignoring :: "ddl \<Rightarrow> Schema \<Rightarrow> Schema" where
  "run_ignoring d sc = (case run_ddl d sc of Inl _ \<Rightarrow> sc | Inr sc' \<Rightarrow> sc')"

section \<open>The migration\<close>

definition jobs_columns :: "string list" where
  "jobs_columns =
     [''id'', ''dataset_id'', ''replay_of_job_id'', ''idempotency_key'', ''queue'', ''job_type'',
      ''payload_json'', ''run_at'', ''deadline_at'', ''timeout_seconds'',
      ''recurring_interval_seconds'', ''status'', ''priority'', ''max_attempts'', ''locked_at'',
      ''locked_by'', ''lock_expires_at'', ''dlq_reason_code'', ''dlq_at'', ''created_at'',
      ''updated_at'']"

definition attempts_columns :: "string list" where
  "attempts_columns =
     [''id'', ''dataset_id'', ''job_id'', ''attempt_no'', ''status'', ''worker_id'',
      ''started_at'', ''finished_at'', ''latency_ms'', ''error_code'', ''error_message'']"

definition jobs_archive_columns :: "string list" where
  "jobs_archive_columns =
     [''id'', ''dataset_id'', ''replay_of_job_id'', ''queue'', ''job_type'', ''payload_json'',
      ''run_at'', ''deadline_at'', ''timeout_seconds'', ''recurring_interval_seconds'',
      ''status'', ''priority'', ''max_attempts'', ''dlq_reason_code'', ''dlq_at'',
      ''created_at'', ''updated_at'']"

definition create_script :: "ddl list" where
  "create_script =
     [CreateTable ''jobs'' jobs_columns,
      CreateIndex ''idx_jobs_runnable'' ''jobs''
        [''queue'', ''status'', ''run_at'', ''priority'', ''created_at''],
      CreateIndex ''idx_jobs_fifo'' ''jobs''
        [''queue'', ''status'', ''run_at'', ''priority'', ''created_at'', ''id''],
      CreateIndex ''idx_jobs_deadline'' ''jobs'' [''queue'', ''status'', ''deadline_at''],
      CreateIndex ''idx_jobs_idempotency_key'' ''jobs'' [''idempotency_key''],
      CreateTable ''job_attempts'' attempts_columns,
      CreateTable ''jobs_archive'' jobs_archive_columns,
      CreateTable ''stream_events''
        [''sequence_no'', ''stream_name'', ''event_type'', ''payload_json'', ''created_at''],
      CreateIndex ''idx_stream_events_lookup'' ''stream_events'' [''stream_name'', ''sequence_no''],
      CreateTable ''stream_offsets''
        [''consumer_group'', ''stream_name'', ''last_acked_seq'', ''updated_at'']]"

text \<open>The schema a new database ends up with.\<close>

definition migrated_schema :: Schema where
  "migrated_schema =
     \<lparr>sc_tables =
        [(''jobs'', jobs_columns), (''job_attempts'', attempts_columns),
         (''jobs_archive'', jobs_archive_columns),
         (''stream_events'',
           [''sequence_no'', ''stream_name'', ''event_type'', ''payload_json'', ''created_at'']),
         (''stream_offsets'',
           [''consumer_group'', ''stream_name'', ''last_acked_seq'', ''updated_at''])],
      sc_indexes =
        [''idx_stream_events_lookup'', ''idx_jobs_idempotency_key'', ''idx_jobs_deadline'',
         ''idx_jobs_fifo'', ''idx_jobs_runnable'']\<rparr>"

definition upgrade_columns :: "ddl list" where
  "upgrade_columns =
     [AddColumn ''jobs'' ''idempotency_key'', AddColumn ''jobs'' ''deadline_at'',
      AddColumn ''jobs'' ''timeout_seconds'', AddColumn ''jobs'' ''recurring_interval_seconds'',
      AddColumn ''jobs_archive'' ''deadline_at'', AddColumn ''jobs_archive'' ''timeout_seconds'',
      AddColumn ''jobs_archive'' ''recurring_interval_seconds'']"

definition run_migrations :: "(Schema, unit) op" where
  "run_migrations sc =
     (case run_script create_script sc of
        (Inl e, sc1) \<Rightarrow> (Inl e, sc1)
      | (Inr _, sc1) \<Rightarrow>
          (let sc2 = fold run_ignoring upgrade_columns sc1
           in case run_script
                     [CreateIndex ''idx_jobs_idempotency_key'' ''jobs'' [''idempotency_key'']] sc2 of
                (Inl e, sc3) \<Rightarrow> (Inl e, sc3)
              | (Inr _, sc3) \<Rightarrow>
                  run_script
                    [CreateIndex ''idx_jobs_deadline'' ''jobs'' [''queue'', ''status'', ''deadline_at'']] sc3))"

section \<open>What the migration does\<close>

text \<open>The columns the operations of the storage read and write.\<close>

definition schema_ready :: "Schema \<Rightarrow> bool" where
  "schema_ready sc \<longleftrightarrow>
     (\<forall>(t, cols) \<in> set [(''jobs'', jobs_columns), (''job_attempts'', attempts_columns),
        (''jobs_archive'', jobs_archive_columns),
        (''stream_events'', [''sequence_no'', ''stream_name'', ''event_type'', ''payload_json'', ''created_at'']),
        (''stream_offsets'', [''consumer_group'', ''stream_name'', ''last_acked_seq'', ''updated_at''])].
        case map_of (sc_tables sc) t of None \<Rightarrow> False | Some present \<Rightarrow> set cols \<subseteq> set present)"

text \<open>An upgrade never takes a table or a column away.\<close>

definition schema_le :: "Schema \<Rightarrow> Schema \<Rightarrow> bool" where
  "schema_le a b \<longleftrightarrow>
     (\<forall>t cols. map_of (sc_tables a) t = Some cols \<longrightarrow>
        (\<exists>more. map_of (sc_tables b) t = Some (cols @ more)))"

lemma schema_le_refl: "schema_le a a"
  by (auto simp: schema_le_def)

lemma schema_le_trans: "schema_le a b \<Longrightarrow> schema_le b c \<Longrightarrow> schema_le a c"
  unfolding schema_le_def by (metis append_assoc)

lemma run_ddl_le: "run_ddl d sc = Inr sc' \<Longrightarrow> schema_le sc sc'"
  by (cases d) (auto simp: schema_le_def split: option.splits if_splits)

lemma run_script_le: "schema_le sc (snd (run_script ds sc))"
  by (induction ds arbitrary: sc)
     (auto simp: schema_le_refl split: sum.split intro: schema_le_trans run_ddl_le)

lemma run_ignoring_le: "schema_le sc (fold run_ignoring ds sc)"
proof (induction ds arbitrary: sc)
  case (Cons d ds)
  have "schema_le sc (run_ignoring d sc)"
    by (auto simp: run_ignoring_def schema_le_refl split: sum.split intro: run_ddl_le)
  then show ?case using Cons[of "run_ignoring d sc"] by (auto intro: schema_le_trans)
qed (simp add: schema_le_refl)

text \<open>What a statement is for, and that a statement whose purpose is met changes nothing.\<close>

fun ddl_done :: "Schema \<Rightarrow> ddl \<Rightarrow> bool" where
  "ddl_done sc (CreateTable t cols) \<longleftrightarrow> map_of (sc_tables sc) t \<noteq> None"
| "ddl_done sc (CreateIndex i t cols) \<longleftrightarrow> i \<in> set (sc_indexes sc)"
| "ddl_done sc (AddColumn t c) \<longleftrightarrow> (\<exists>cols. map_of (sc_tables sc) t = Some cols \<and> c \<in> set cols)"

fun is_create :: "ddl \<Rightarrow> bool" where
  "is_create (AddColumn t c) = False"
| "is_create d = True"

lemma done_again: "ddl_done sc d \<Longrightarrow> is_create d \<Longrightarrow> run_ddl d sc = Inr sc"
  by (cases d) auto

lemma done_ignoring: "ddl_done sc d \<Longrightarrow> run_ignoring d sc = sc"
  by (cases d) (auto simp: run_ignoring_def)

lemma run_ddl_done: "run_ddl d sc = Inr sc' \<Longrightarrow> ddl_done sc' d"
  by (cases d) (auto split: option.splits if_splits)

lemma run_ddl_keeps: "run_ddl d sc = Inr sc' \<Longrightarrow> ddl_done sc x \<Longrightarrow> ddl_done sc' x"
  by (cases d; cases x) (auto split: option.splits if_splits)

lemma run_script_keeps: "ddl_done sc x \<Longrightarrow> ddl_done (snd (run_script ds sc)) x"
  by (induction ds arbitrary: sc) (auto split: sum.split intro: run_ddl_keeps)

lemma run_ignoring_keeps: "ddl_done sc x \<Longrightarrow> ddl_done (fold run_ignoring ds sc) x"
  by (induction ds arbitrary: sc) (auto simp: run_ignoring_def split: sum.split intro: run_ddl_keeps)

lemma run_script_done:
  "fst (run_script ds sc) = Inr () \<Longrightarrow> d \<in> set ds \<Longrightarrow> ddl_done (snd (run_script ds sc)) d"
proof (induction ds arbitrary: sc)
  case (Cons x ds)
  then obtain sc' where sc': "run_ddl x sc = Inr sc'" by (auto split: sum.splits)
  then show ?case using Cons run_script_keeps[OF run_ddl_done[OF sc'], of ds] by auto
qed simp

lemma run_script_again:
  "\<forall>d \<in> set ds. ddl_done sc d \<and> is_create d \<Longrightarrow> run_script ds sc = (Inr (), sc)"
  by (induction ds) (simp_all add: done_again)

lemma ignoring_again: "\<forall>d \<in> set ds. ddl_done sc d \<Longrightarrow> fold run_ignoring ds sc = sc"
  by (induction ds) (simp_all add: done_ignoring)

lemma add_column_done: "map_of (sc_tables sc) t \<noteq> None \<Longrightarrow> ddl_done (run_ignoring (AddColumn t c) sc) (AddColumn t c)"
  by (auto simp: run_ignoring_def)

lemma ignoring_done:
  assumes "\<forall>d \<in> set ds. \<exists>t c. d = AddColumn t c \<and> map_of (sc_tables sc) t \<noteq> None" "d \<in> set ds"
  shows "ddl_done (fold run_ignoring ds sc) d"
  using assms
proof (induction ds arbitrary: sc)
  case (Cons x ds)
  obtain t c where x: "x = AddColumn t c" "map_of (sc_tables sc) t \<noteq> None" using Cons.prems(1) by auto
  have "map_of (sc_tables (run_ignoring x sc)) u \<noteq> None" if "map_of (sc_tables sc) u \<noteq> None" for u
    using that x by (auto simp: run_ignoring_def)
  then have "\<forall>d \<in> set ds. \<exists>t c. d = AddColumn t c \<and> map_of (sc_tables (run_ignoring x sc)) t \<noteq> None"
    using Cons.prems(1) by auto
  then show ?case
    using Cons.IH Cons.prems(2) run_ignoring_keeps[of _ x ds] add_column_done[OF x(2)] x(1) by auto
qed simp

definition deadline_index :: ddl where
  "deadline_index = CreateIndex ''idx_jobs_deadline'' ''jobs'' [''queue'', ''status'', ''deadline_at'']"

definition key_index :: ddl where
  "key_index = CreateIndex ''idx_jobs_idempotency_key'' ''jobs'' [''idempotency_key'']"

lemma run_migrations_cases:
  obtains e where "run_migrations sc = (Inl e, snd (run_migrations sc))"
  | sc1 sc3 where "run_script create_script sc = (Inr (), sc1)"
      "run_script [key_index] (fold run_ignoring upgrade_columns sc1) = (Inr (), sc3)"
      "run_migrations sc = run_script [deadline_index] sc3"
proof (cases "fst (run_migrations sc)")
  case (Inl e)
  then show ?thesis using that(1) by (metis prod.collapse)
next
  case (Inr u)
  then show ?thesis using that(2)
    by (auto simp: run_migrations_def Let_def key_index_def deadline_index_def
        simp del: run_script.simps split: prod.splits sum.splits)
qed

lemma create_script_kinds: "\<forall>d \<in> set create_script. is_create d"
  by (simp add: create_script_def)

lemma run_migrations_done:
  assumes "run_migrations sc = (Inr (), sc')" "d \<in> set (create_script @ upgrade_columns @ [key_index, deadline_index])"
  shows "ddl_done sc' d"
proof (cases rule: run_migrations_cases[of sc])
  case (2 sc1 sc3)
  let ?sc2 = "fold run_ignoring upgrade_columns sc1"
  have sc': "sc' = snd (run_script [deadline_index] sc3)" "fst (run_script [deadline_index] sc3) = Inr ()"
    using 2(3) assms(1) by (simp_all add: prod_eq_iff)
  have sc3: "sc3 = snd (run_script [key_index] ?sc2)" "fst (run_script [key_index] ?sc2) = Inr ()"
    using 2(2) by (simp_all add: prod_eq_iff)
  have sc1: "fst (run_script create_script sc) = Inr ()" "sc1 = snd (run_script create_script sc)"
    using 2(1) by (simp_all add: prod_eq_iff)
  have keep: "ddl_done ?sc2 x \<Longrightarrow> ddl_done sc' x" for x
    unfolding sc'(1) sc3(1) by (intro run_script_keeps)
  have "CreateTable ''jobs'' jobs_columns \<in> set create_script"
    "CreateTable ''jobs_archive'' jobs_archive_columns \<in> set create_script"
    by (simp_all add: create_script_def)
  from this[THEN run_script_done[OF sc1(1)], folded sc1(2)] have tables: "\<forall>d \<in> set upgrade_columns. \<exists>t c. d = AddColumn t c \<and> map_of (sc_tables sc1) t \<noteq> None"
    by (auto simp: upgrade_columns_def)
  consider "d \<in> set create_script" | "d \<in> set upgrade_columns" | "d = key_index" | "d = deadline_index"
    using assms(2) by auto
  then show ?thesis
  proof cases
    case 1
    from run_script_done[OF sc1(1) 1, folded sc1(2)] show ?thesis by (intro keep run_ignoring_keeps)
  next
    case 2
    from ignoring_done[OF tables 2] show ?thesis by (rule keep)
  next
    case 3
    have "ddl_done sc3 key_index" unfolding sc3(1) by (rule run_script_done[OF sc3(2)]) simp
    then show ?thesis unfolding sc'(1) 3 by (rule run_script_keeps)
  next
    case 4
    show ?thesis unfolding sc'(1) 4 by (rule run_script_done[OF sc'(2)]) simp
  qed
qed (use assms(1) in simp)

text \<open>Running the migration again changes nothing.\<close>

lemma run_migrations_again:
  assumes "run_migrations sc = (Inr (), sc')"
  shows "run_migrations sc' = (Inr (), sc')"
proof -
  note d = run_migrations_done[OF assms]
  have "run_script create_script sc' = (Inr (), sc')"
    using d create_script_kinds by (intro run_script_again) simp
  moreover have "fold run_ignoring upgrade_columns sc' = sc'" using d by (intro ignoring_again) simp
  moreover have "run_script [key_index] sc' = (Inr (), sc')" "run_script [deadline_index] sc' = (Inr (), sc')"
    using d[of key_index] d[of deadline_index]
    by (intro run_script_again; simp add: key_index_def deadline_index_def)+
  ultimately show ?thesis
    unfolding run_migrations_def key_index_def[symmetric] deadline_index_def[symmetric] Let_def
    by (simp del: run_script.simps)
qed

lemma run_migrations_le:
  assumes "run_migrations sc = (Inr (), sc')"
  shows "schema_le sc sc'"
proof (cases rule: run_migrations_cases[of sc])
  case (2 sc1 sc3)
  have "schema_le sc sc1" using run_script_le[of sc create_script] 2(1) by simp
  moreover have "schema_le sc1 (fold run_ignoring upgrade_columns sc1)" by (rule run_ignoring_le)
  moreover have "schema_le (fold run_ignoring upgrade_columns sc1) sc3"
    using run_script_le[of "fold run_ignoring upgrade_columns sc1" "[key_index]"] unfolding 2(2) by simp
  moreover have "schema_le sc3 sc'"
    using run_script_le[of sc3 "[deadline_index]"] unfolding 2(3)[symmetric] assms by simp
  ultimately show ?thesis by (blast intro: schema_le_trans)
qed (use assms in simp)

text \<open>
  The indexes of the first script mention the columns that only the later statements add, so
  a table without such a column stops the migration before it is upgraded.
\<close>

definition stuck :: "(Schema \<Rightarrow> bool) \<Rightarrow> ddl list \<Rightarrow> bool" where
  "stuck Q ds \<longleftrightarrow> (\<forall>sc. Q sc \<longrightarrow> (\<exists>e. fst (run_script ds sc) = Inl e) \<and> Q (snd (run_script ds sc)))"

lemma stuck_here: "(\<And>sc. Q sc \<Longrightarrow> \<exists>e. run_ddl d sc = Inl e) \<Longrightarrow> stuck Q (d # ds)"
  by (fastforce simp: stuck_def)

lemma stuck_later:
  assumes "\<And>sc sc'. Q sc \<Longrightarrow> run_ddl d sc = Inr sc' \<Longrightarrow> Q sc'" "stuck Q ds"
  shows "stuck Q (d # ds)"
  using assms by (auto simp: stuck_def split: sum.split)

definition old_jobs :: "string list \<Rightarrow> Schema \<Rightarrow> bool" where
  "old_jobs cols sc \<longleftrightarrow>
     map_of (sc_tables sc) ''jobs'' = Some cols \<and> ''deadline_at'' \<notin> set cols
     \<and> ''idx_jobs_deadline'' \<notin> set (sc_indexes sc)"

lemma create_script_stuck: "stuck (old_jobs cols) create_script"
  unfolding create_script_def
  apply (rule stuck_later, simp add: old_jobs_def)
  apply (rule stuck_later, simp add: old_jobs_def split: option.splits if_splits)
   apply force
  apply (rule stuck_later, simp add: old_jobs_def split: option.splits if_splits)
   apply force
  apply (rule stuck_here, simp add: old_jobs_def)
  done

lemma old_jobs_stuck:
  assumes "old_jobs cols sc"
  shows "\<exists>e. fst (run_migrations sc) = Inl e" "old_jobs cols (snd (run_migrations sc))"
proof -
  from create_script_stuck[of cols] assms obtain e where
    "fst (run_script create_script sc) = Inl e" "old_jobs cols (snd (run_script create_script sc))"
    unfolding stuck_def by blast
  then show "\<exists>e. fst (run_migrations sc) = Inl e" "old_jobs cols (snd (run_migrations sc))"
    by (auto simp: run_migrations_def split: prod.split)
qed

text \<open>A new database gets the whole schema at once.\<close>

lemma create_fresh:
  "run_script create_script no_schema = (Inr (), migrated_schema)"
  by (simp add: no_schema_def create_script_def jobs_columns_def migrated_schema_def hm_insert_def)

lemma migrated_tables:
  "map_of (sc_tables migrated_schema) ''jobs'' = Some jobs_columns"
  "map_of (sc_tables migrated_schema) ''jobs_archive'' = Some jobs_archive_columns"
  by (simp_all add: migrated_schema_def)

lemma migrate_fresh: "run_migrations no_schema = (Inr (), migrated_schema)"
proof -
  note finished = run_script_done[of create_script no_schema, unfolded create_fresh fst_conv snd_conv, OF refl]
  have "fold run_ignoring upgrade_columns migrated_schema = migrated_schema"
    by (rule ignoring_again) (simp add: upgrade_columns_def migrated_tables jobs_columns_def jobs_archive_columns_def)
  moreover have "key_index \<in> set create_script" "deadline_index \<in> set create_script"
    by (simp_all add: create_script_def key_index_def deadline_index_def)
  then have "run_script [key_index] migrated_schema = (Inr (), migrated_schema)" "run_script [deadline_index] migrated_schema = (Inr (), migrated_schema)"
    using finished create_script_kinds by (intro run_script_again; simp)+
  ultimately show ?thesis
    unfolding run_migrations_def key_index_def[symmetric] deadline_index_def[symmetric] Let_def create_fresh
    by (simp del: run_script.simps)
qed

lemma migrated_ready: "schema_ready migrated_schema"
  by (simp add: schema_ready_def migrated_schema_def)

end
