(* ===== verification/Sqlite_Store.thy ===== *)
theory Sqlite_Store
  imports Sql_Tables Sqlite_Schema Memory_Store
begin

text \<open>
  The SQLite storage of \<^verbatim>\<open>azums/src/backend/sqlite.rs\<close>: its tables, its in-process
  channels and counters, and every operation of its two trait implementations. A method that
  opens a transaction is a \<open>transaction\<close>: the statements run on the tables in
  order, and an error from any of them, or an early \<^verbatim>\<open>bail!\<close>, drops the transaction and
  leaves the tables as they were. A method without a transaction is a single statement.

  Timestamps are stored as RFC 3339 text with a fixed offset, whose order is the order of
  the instants, so they stay integers here. Where SQL leaves the order of rows open the
  model takes the order of insertion. \<^verbatim>\<open>PRAGMA incremental_vacuum\<close> gives pages back and
  changes no row: the model counts how often it is started. The tables are those of a
  migrated database; the migration itself is in \<^verbatim>\<open>Sqlite_Schema\<close>.
\<close>

section \<open>State\<close>

record SqliteBackend =
  sq_schema :: Schema
  sq_jobs :: "Job list"
  sq_attempts :: "MemoryAttempt list"
  sq_archive :: "Job list"
  sq_events :: "Event list"
  sq_sequence :: int
  sq_offsets :: "ConsumerGroupStatus list"
  sq_notifiers :: "(string, nat) hashmap"
  sq_stream_notifiers :: "(string, nat) hashmap"
  sq_dequeue_count :: int
  sq_incremental_vacuum_n :: int
  sq_vacuums :: nat

definition sq_with_vacuum_n :: "int \<Rightarrow> SqliteBackend" where
  "sq_with_vacuum_n n =
     \<lparr>sq_schema = migrated_schema, sq_jobs = [], sq_attempts = [], sq_archive = [], sq_events = [], sq_sequence = 0,
      sq_offsets = [], sq_notifiers = [], sq_stream_notifiers = [], sq_dequeue_count = 0,
      sq_incremental_vacuum_n = max n 1, sq_vacuums = 0\<rparr>"

definition sq_new :: SqliteBackend where
  "sq_new = sq_with_vacuum_n 100"

definition sq_notify_queue :: "string \<Rightarrow> SqliteBackend \<Rightarrow> SqliteBackend" where
  "sq_notify_queue queue s = s\<lparr>sq_notifiers := hm_modify queue Suc (sq_notifiers s)\<rparr>"

definition sq_notify_stream :: "string \<Rightarrow> SqliteBackend \<Rightarrow> SqliteBackend" where
  "sq_notify_stream stream s =
     s\<lparr>sq_stream_notifiers := hm_modify stream Suc (sq_stream_notifiers s)\<rparr>"

definition sq_run_migrations :: "(SqliteBackend, unit) op" where
  "sq_run_migrations s =
     (case run_migrations (sq_schema s) of (r, sc) \<Rightarrow> (r, s\<lparr>sq_schema := sc\<rparr>))"

text \<open>INSERT INTO jobs, with the primary key and the unique index on idempotency keys.\<close>

definition key_taken :: "string option \<Rightarrow> Job list \<Rightarrow> bool" where
  "key_taken key t \<longleftrightarrow> key \<noteq> None \<and> key \<in> j_idempotency_key ` set t"

definition insert_job :: "string list \<Rightarrow> sqlval list \<Rightarrow> Job list \<Rightarrow> anyhow + Job list" where
  "insert_job columns values t =
     (case bind_columns columns values of
        None \<Rightarrow> Inl (sql_error ''number of values does not match number of columns'')
      | Some r \<Rightarrow>
          (let row = job_row r
           in if j_id row \<in> j_id ` set t
              then Inl (sql_error ''UNIQUE constraint failed: jobs.id'')
              else if key_taken (j_idempotency_key row) t
              then Inl (sql_error ''UNIQUE constraint failed: jobs.idempotency_key'')
              else Inr (t @ [row])))"

text \<open>
  ON CONFLICT(idempotency_key) DO UPDATE SET idempotency_key = excluded.idempotency_key
  RETURNING id: the row that has the key stays as it is and its id comes back.
\<close>

definition upsert_job ::
  "string list \<Rightarrow> sqlval list \<Rightarrow> uuid \<Rightarrow> string option \<Rightarrow> Job list \<Rightarrow> anyhow + (uuid \<times> Job list)" where
  "upsert_job columns values job_id key t =
     (case find (\<lambda>row. key \<noteq> None \<and> j_idempotency_key row = key) t of
        Some existing \<Rightarrow> Inr (j_id existing, t)
      | None \<Rightarrow>
          (case insert_job columns values t of
             Inl e \<Rightarrow> Inl e
           | Inr t' \<Rightarrow> Inr (job_id, t')))"

section \<open>Enqueue and subscribe\<close>

definition sq_enqueue_in_tx :: "Env \<Rightarrow> NewJob \<Rightarrow> (SqliteBackend, uuid) op" where
  "sq_enqueue_in_tx env job s =
     (case upsert_job
             [''id'', ''dataset_id'', ''replay_of_job_id'', ''idempotency_key'', ''queue'',
              ''job_type'', ''payload_json'', ''run_at'', ''deadline_at'', ''timeout_seconds'',
              ''recurring_interval_seconds'', ''status'', ''priority'', ''max_attempts'',
              ''created_at'', ''updated_at'']
             [SUuid (e_fresh env 0), SText ''default'', SNull, opt_text (nj_idempotency_key job),
              SText (nj_queue job), SText (nj_job_type job), SJson (nj_payload_json job),
              STime (nj_run_at job), opt_time (nj_deadline_at job),
              opt_int (nj_timeout_seconds job), opt_int (nj_recurring_interval_seconds job),
              SText ''queued'', SInt (nj_priority job), SInt (nj_max_attempts job),
              STime (e_now env), STime (e_now env)]
             (e_fresh env 0) (nj_idempotency_key job) (sq_jobs s) of
        Inl e \<Rightarrow> (Inl e, s)
      | Inr (i, t) \<Rightarrow> (Inr i, s\<lparr>sq_jobs := t\<rparr>))"

definition sq_enqueue :: "Env \<Rightarrow> NewJob \<Rightarrow> (SqliteBackend, uuid) op" where
  "sq_enqueue env job s =
     (case upsert_job
             [''id'', ''dataset_id'', ''replay_of_job_id'', ''idempotency_key'', ''queue'',
              ''job_type'', ''payload_json'', ''run_at'', ''status'', ''priority'',
              ''max_attempts'', ''created_at'', ''updated_at'']
             [SUuid (e_fresh env 0), SText ''default'', SNull, opt_text (nj_idempotency_key job),
              SText (nj_queue job), SText (nj_job_type job), SJson (nj_payload_json job),
              STime (nj_run_at job), SText ''queued'', SInt (nj_priority job),
              SInt (nj_max_attempts job), STime (e_now env), STime (e_now env)]
             (e_fresh env 0) (nj_idempotency_key job) (sq_jobs s) of
        Inl e \<Rightarrow> (Inl e, s)
      | Inr (i, t) \<Rightarrow> (Inr i, sq_notify_queue (nj_queue job) (s\<lparr>sq_jobs := t\<rparr>)))"

definition sq_subscribe :: "string \<Rightarrow> (SqliteBackend, unit) op" where
  "sq_subscribe queue s =
     (case map_of (sq_notifiers s) queue of
        Some _ \<Rightarrow> (Inr (), s)
      | None \<Rightarrow> (Inr (), s\<lparr>sq_notifiers := hm_insert queue 0 (sq_notifiers s)\<rparr>))"

section \<open>Leasing\<close>

fun order_sql :: "QueueOrdering \<Rightarrow> Job list \<Rightarrow> Job list" where
  "order_sql Fifo t =
     sort_key (\<lambda>r. (- j_priority r, j_run_at r, j_created_at r, j_id r)) t"
| "order_sql Fastest t = sort_key (\<lambda>r. (- j_priority r, j_run_at r)) t"

definition sq_expire_deadlines :: "datetime \<Rightarrow> string \<Rightarrow> Job list \<Rightarrow> Job list" where
  "sq_expire_deadlines now queue =
     sql_update
       (\<lambda>r. j_queue r = queue \<and> j_status r = ''queued'' \<and> j_run_at r \<le> now \<and> past_deadline now r)
       (deadline_dlq now)"

definition sq_candidates ::
  "datetime \<Rightarrow> string \<Rightarrow> int \<Rightarrow> QueueOrdering \<Rightarrow> Job list \<Rightarrow> Job list" where
  "sq_candidates now queue batch_size policy t =
     sql_limit batch_size
       (order_sql policy
         (filter (\<lambda>r. j_queue r = queue \<and> j_status r = ''queued'' \<and> j_run_at r \<le> now) t))"

definition count_dequeue :: "SqliteBackend \<Rightarrow> SqliteBackend" where
  "count_dequeue s =
     (let prev = sq_dequeue_count s
      in s\<lparr>sq_dequeue_count := (prev + 1) mod 2 ^ 64,
           sq_vacuums := (if (prev + 1) mod sq_incremental_vacuum_n s = 0
                          then Suc (sq_vacuums s) else sq_vacuums s)\<rparr>)"

definition sq_lease_jobs_batch_with_ordering ::
  "Env \<Rightarrow> string \<Rightarrow> string \<Rightarrow> int \<Rightarrow> int \<Rightarrow> QueueOrdering \<Rightarrow> (SqliteBackend, Job list) op" where
  "sq_lease_jobs_batch_with_ordering env queue worker_id lease_seconds batch_size policy s =
     (let now = e_now env;
          t1 = sq_expire_deadlines now queue (sq_jobs s);
          candidates = sq_candidates now queue batch_size policy t1
      in if candidates = [] then (Inr [], s\<lparr>sq_jobs := t1\<rparr>)
         else
           (let lock_expires_at = now + seconds lease_seconds;
                lock = lock_job now worker_id lock_expires_at;
                t2 = fold (\<lambda>job. sql_update (\<lambda>r. j_id r = j_id job) lock) candidates t1;
                leased_jobs = map lock candidates
            in (Inr leased_jobs, count_dequeue (s\<lparr>sq_jobs := t2\<rparr>))))"

definition sq_lease_jobs_batch ::
  "Env \<Rightarrow> string \<Rightarrow> string \<Rightarrow> int \<Rightarrow> int \<Rightarrow> (SqliteBackend, Job list) op" where
  "sq_lease_jobs_batch env queue worker_id lease_seconds batch_size =
     sq_lease_jobs_batch_with_ordering env queue worker_id lease_seconds batch_size Fifo"

definition sq_perform_maintenance :: "Env \<Rightarrow> (SqliteBackend, unit) op" where
  "sq_perform_maintenance env s = (Inr (), s\<lparr>sq_vacuums := Suc (sq_vacuums s)\<rparr>)"

definition sq_extend_lease :: "Env \<Rightarrow> uuid \<Rightarrow> string \<Rightarrow> int \<Rightarrow> (SqliteBackend, bool) op" where
  "sq_extend_lease env job_id worker_id lease_seconds s =
     (let P = (\<lambda>r. j_id r = job_id \<and> j_locked_by r = Some worker_id \<and> j_status r = ''running'')
      in (Inr (rows_affected P (sq_jobs s) > 0),
          s\<lparr>sq_jobs :=
              sql_update P
                (\<lambda>r. r\<lparr>j_lock_expires_at := Some (e_now env + seconds lease_seconds),
                      j_updated_at := e_now env\<rparr>) (sq_jobs s)\<rparr>))"

section \<open>Cancellation and recovery\<close>

text \<open>SET status = 'failed', ..., latency_ms = COALESCE(latency_ms, 0), ...\<close>

definition sq_fail_attempt ::
  "datetime \<Rightarrow> string \<Rightarrow> string \<Rightarrow> MemoryAttempt \<Rightarrow> MemoryAttempt" where
  "sq_fail_attempt now code msg a =
     a\<lparr>at_status := ''failed'', at_finished_at := Some now,
       at_latency_ms := Some (case at_latency_ms a of None \<Rightarrow> 0 | Some l \<Rightarrow> l),
       at_error_code := Some code, at_error_message := Some msg\<rparr>"

text \<open>SELECT id ... WHERE job_id = ? AND status = 'running' ORDER BY attempt_no DESC LIMIT 1\<close>

definition sq_latest_running :: "uuid \<Rightarrow> MemoryAttempt list \<Rightarrow> MemoryAttempt list" where
  "sq_latest_running job_id t =
     sql_limit 1 (sort_key (\<lambda>a. - at_attempt_no a)
       (filter (\<lambda>a. at_job_id a = job_id \<and> at_status a = ''running'') t))"

definition sq_cancel_job :: "Env \<Rightarrow> uuid \<Rightarrow> string option \<Rightarrow> (SqliteBackend, unit) op" where
  "sq_cancel_job env job_id worker_id =
     transaction (\<lambda>s.
       let now = e_now env
       in case row_at j_id (sq_jobs s) job_id of
            None \<Rightarrow> (Inl (job_not_found job_id), s)
          | Some job \<Rightarrow>
              (case cancel_guard job_id worker_id job of
                 Some e \<Rightarrow> (Inl e, s)
               | None \<Rightarrow>
                   (let s1 = (if j_status job = ''running'' then
                                s\<lparr>sq_attempts :=
                                    sql_update
                                      (\<lambda>a. at_id a \<in> at_id ` set (sq_latest_running job_id (sq_attempts s)))
                                      (sq_fail_attempt now ''CANCELLED'' ''job cancelled'')
                                      (sq_attempts s)\<rparr>
                              else s)
                    in (Inr (),
                        s1\<lparr>sq_jobs :=
                            sql_update (\<lambda>r. j_id r = job_id) (cancel_job_record now) (sq_jobs s1)\<rparr>))))"

definition sq_reap_expired_locks :: "Env \<Rightarrow> (SqliteBackend, nat) op" where
  "sq_reap_expired_locks env =
     transaction (\<lambda>s.
       let now = e_now env;
           expired = map (\<lambda>r. (j_dataset_id r, j_id r)) (filter (lease_expired now) (sq_jobs s));
           attempts' =
             fold (\<lambda>(dataset_id, job_id).
                     sql_update
                       (\<lambda>a. at_dataset_id a = dataset_id \<and> at_job_id a = job_id
                            \<and> at_status a = ''running'')
                       (sq_fail_attempt now ''LEASE_EXPIRED'' ''worker lease expired before ACK''))
               expired (sq_attempts s)
       in (Inr (rows_affected (lease_expired now) (sq_jobs s)),
           s\<lparr>sq_attempts := attempts',
             sq_jobs := sql_update (lease_expired now) (requeue_job now) (sq_jobs s)\<rparr>))"

section \<open>Attempts\<close>

definition sq_next_attempt_no :: "uuid \<Rightarrow> MemoryAttempt list \<Rightarrow> int" where
  "sq_next_attempt_no job_id t =
     (let numbers = map at_attempt_no (filter (\<lambda>a. at_job_id a = job_id) t)
      in (if numbers = [] then 0 else Max (set numbers)) + 1)"

fun sq_start_loop ::
  "datetime \<Rightarrow> (nat \<Rightarrow> uuid) \<Rightarrow> string \<Rightarrow> uuid list
     \<Rightarrow> (SqliteBackend, (uuid \<times> uuid \<times> int) list) op" where
  "sq_start_loop now fresh worker_id [] s = (Inr [], s)"
| "sq_start_loop now fresh worker_id (job_id # rest) s =
     (let claim_count =
            rows_affected
              (\<lambda>r. j_id r = job_id \<and> j_status r = ''running'' \<and> j_locked_by r = Some worker_id)
              (sq_jobs s)
      in if claim_count \<noteq> 1 then (Inl (cannot_start_attempt job_id worker_id), s)
         else
           (let next_attempt_no = sq_next_attempt_no job_id (sq_attempts s);
                attempt_id = fresh 0
            in if attempt_id \<in> at_id ` set (sq_attempts s)
               then (Inl (sql_error ''UNIQUE constraint failed: job_attempts.id''), s)
               else
                 (case sq_start_loop now (\<lambda>k. fresh (Suc k)) worker_id rest
                         (s\<lparr>sq_attempts :=
                             sq_attempts s
                               @ [new_attempt now attempt_id job_id next_attempt_no worker_id]\<rparr>) of
                    (Inl e, s') \<Rightarrow> (Inl e, s')
                  | (Inr results, s') \<Rightarrow>
                      (Inr ((job_id, attempt_id, next_attempt_no) # results), s'))))"

definition sq_start_attempts_batch ::
  "Env \<Rightarrow> string list \<Rightarrow> uuid list \<Rightarrow> string
     \<Rightarrow> (SqliteBackend, (uuid \<times> uuid \<times> int) list) op" where
  "sq_start_attempts_batch env dataset_ids job_ids worker_id s =
     (if job_ids = [] then (Inr [], s)
      else transaction (sq_start_loop (e_now env) (e_fresh env) worker_id job_ids) s)"

text \<open>UPDATE job_attempts ... WHERE id = ? AND job_id = ? AND status = 'running'\<close>

definition sq_close_attempt ::
  "uuid \<Rightarrow> uuid \<Rightarrow> (MemoryAttempt \<Rightarrow> MemoryAttempt) \<Rightarrow> anyhow \<Rightarrow> (SqliteBackend, unit) op" where
  "sq_close_attempt attempt_id job_id f err s =
     (let P = (\<lambda>a. at_id a = attempt_id \<and> at_job_id a = job_id \<and> at_status a = ''running'')
      in if rows_affected P (sq_attempts s) \<noteq> 1 then (Inl err, s)
         else (Inr (), s\<lparr>sq_attempts := sql_update P f (sq_attempts s)\<rparr>))"

definition sq_claim :: "uuid \<Rightarrow> string \<Rightarrow> Job \<Rightarrow> bool" where
  "sq_claim job_id worker_id r \<longleftrightarrow>
     j_id r = job_id \<and> j_status r = ''running'' \<and> j_locked_by r = Some worker_id"

definition sq_insert_next :: "Env \<Rightarrow> Job \<Rightarrow> int \<Rightarrow> Job list \<Rightarrow> anyhow + Job list" where
  "sq_insert_next env job interval t =
     (let interval_seconds = max interval 1;
          next_run_at = j_run_at job + seconds interval_seconds;
          next_deadline_at =
            map_option (\<lambda>deadline. deadline + seconds interval_seconds) (j_deadline_at job)
      in insert_job
           [''id'', ''dataset_id'', ''replay_of_job_id'', ''idempotency_key'', ''queue'',
            ''job_type'', ''payload_json'', ''run_at'', ''deadline_at'', ''timeout_seconds'',
            ''recurring_interval_seconds'', ''status'', ''priority'', ''max_attempts'',
            ''created_at'', ''updated_at'']
           [SUuid (e_fresh env 0), SText ''default'', SUuid (j_id job), SNull,
            SText (j_queue job), SText (j_job_type job), SJson (j_payload job),
            STime next_run_at, opt_time next_deadline_at, opt_int (j_timeout_seconds job),
            opt_int (j_recurring_interval_seconds job), SText ''queued'', SInt (j_priority job),
            SInt (j_max_attempts job), STime (e_now env), STime (e_now env)] t)"

definition sq_mark_succeeded ::
  "Env \<Rightarrow> uuid \<Rightarrow> uuid \<Rightarrow> string \<Rightarrow> int \<Rightarrow> (SqliteBackend, unit) op" where
  "sq_mark_succeeded env job_id attempt_id worker_id latency_ms =
     transaction (\<lambda>s.
       case sq_close_attempt attempt_id job_id (succeed_attempt_record (e_now env) latency_ms)
              (cannot_complete_attempt attempt_id job_id) s of
         (Inl e, s1) \<Rightarrow> (Inl e, s1)
       | (Inr _, s1) \<Rightarrow>
           (case filter (sq_claim job_id worker_id) (sq_jobs s1) of
              [] \<Rightarrow> (Inl (illegal_transition ''completed'' job_id worker_id), s1)
            | claimed # _ \<Rightarrow>
                (let completed_job = complete_job_record (e_now env) claimed;
                     t2 = sql_update (sq_claim job_id worker_id)
                            (complete_job_record (e_now env)) (sq_jobs s1)
                 in case j_recurring_interval_seconds completed_job of
                      None \<Rightarrow> (Inr (), s1\<lparr>sq_jobs := t2\<rparr>)
                    | Some interval \<Rightarrow>
                        (case sq_insert_next env completed_job interval t2 of
                           Inl e \<Rightarrow> (Inl e, s1)
                         | Inr t3 \<Rightarrow> (Inr (), s1\<lparr>sq_jobs := t3\<rparr>)))))"

definition sq_mark_succeeded_batch ::
  "(nat \<Rightarrow> Env) \<Rightarrow> string \<Rightarrow> (uuid \<times> uuid \<times> int) list \<Rightarrow> string \<Rightarrow> (SqliteBackend, unit) op" where
  "sq_mark_succeeded_batch envs dataset_id updates worker_id s =
     for_each
       (\<lambda>env (job_id, attempt_id, latency_ms).
          sq_mark_succeeded env job_id attempt_id worker_id latency_ms)
       envs updates s"

text \<open>UPDATE jobs ... WHERE id = ? AND status = 'running' AND locked_by = ?\<close>

definition sq_settle_job ::
  "uuid \<Rightarrow> string \<Rightarrow> (Job \<Rightarrow> Job) \<Rightarrow> anyhow \<Rightarrow> (SqliteBackend, unit) op" where
  "sq_settle_job job_id worker_id f err s =
     (if rows_affected (sq_claim job_id worker_id) (sq_jobs s) \<noteq> 1 then (Inl err, s)
      else (Inr (), s\<lparr>sq_jobs := sql_update (sq_claim job_id worker_id) f (sq_jobs s)\<rparr>))"

definition sq_reschedule_for_retry ::
  "Env \<Rightarrow> uuid \<Rightarrow> uuid \<Rightarrow> string \<Rightarrow> int \<Rightarrow> datetime \<Rightarrow> string \<Rightarrow> string \<Rightarrow> int
     \<Rightarrow> (SqliteBackend, unit) op" where
  "sq_reschedule_for_retry env job_id attempt_id worker_id latency_ms next_run_at
     error_code error_message attempt_no =
     transaction (\<lambda>s.
       case sq_close_attempt attempt_id job_id
              (fail_attempt_record (e_now env) latency_ms error_code error_message)
              (cannot_fail_attempt attempt_id job_id) s of
         (Inl e, s1) \<Rightarrow> (Inl e, s1)
       | (Inr _, s1) \<Rightarrow>
           sq_settle_job job_id worker_id
             (\<lambda>r. (requeue_job (e_now env) r)\<lparr>j_run_at := next_run_at\<rparr>)
             (illegal_transition ''retry_wait'' job_id worker_id) s1)"

definition sq_mark_dlq ::
  "Env \<Rightarrow> uuid \<Rightarrow> uuid \<Rightarrow> string \<Rightarrow> int \<Rightarrow> string \<Rightarrow> string \<Rightarrow> string \<Rightarrow> int
     \<Rightarrow> (SqliteBackend, unit) op" where
  "sq_mark_dlq env job_id attempt_id worker_id latency_ms reason_code
     error_code error_message attempt_no =
     transaction (\<lambda>s.
       case sq_close_attempt attempt_id job_id
              (fail_attempt_record (e_now env) latency_ms error_code error_message)
              (cannot_fail_attempt attempt_id job_id) s of
         (Inl e, s1) \<Rightarrow> (Inl e, s1)
       | (Inr _, s1) \<Rightarrow>
           sq_settle_job job_id worker_id (dlq_job_record (e_now env) reason_code)
             (illegal_transition ''dlq'' job_id worker_id) s1)"

section \<open>Archiving\<close>

definition archive_columns :: "string list" where
  "archive_columns =
     [''id'', ''dataset_id'', ''replay_of_job_id'', ''queue'', ''job_type'', ''payload_json'',
      ''run_at'', ''deadline_at'', ''timeout_seconds'', ''recurring_interval_seconds'',
      ''status'', ''priority'', ''max_attempts'', ''dlq_reason_code'', ''dlq_at'',
      ''created_at'', ''updated_at'']"

fun opt_uuid :: "uuid option \<Rightarrow> sqlval" where
  "opt_uuid None = SNull" | "opt_uuid (Some i) = SUuid i"

definition archive_values :: "Job \<Rightarrow> sqlval list" where
  "archive_values j =
     [SUuid (j_id j), SText (j_dataset_id j), opt_uuid (j_replay_of_job_id j),
      SText (j_queue j), SText (j_job_type j), SJson (j_payload j), STime (j_run_at j),
      opt_time (j_deadline_at j), opt_int (j_timeout_seconds j),
      opt_int (j_recurring_interval_seconds j), SText (j_status j), SInt (j_priority j),
      SInt (j_max_attempts j), opt_text (j_dlq_reason_code j), opt_time (j_dlq_at j),
      STime (j_created_at j), STime (j_updated_at j)]"

text \<open>INSERT INTO jobs_archive, then DELETE FROM jobs, which cascades to the attempts.\<close>

fun sq_archive_loop :: "Job list \<Rightarrow> (SqliteBackend, unit) op" where
  "sq_archive_loop [] s = (Inr (), s)"
| "sq_archive_loop (j # rest) s =
     (case insert_job archive_columns (archive_values j) (sq_archive s) of
        Inl e \<Rightarrow> (Inl e, s)
      | Inr archive' \<Rightarrow>
          sq_archive_loop rest
            (s\<lparr>sq_archive := archive',
               sq_jobs := sql_delete (\<lambda>r. j_id r = j_id j) (sq_jobs s),
               sq_attempts := sql_delete (\<lambda>a. at_job_id a = j_id j) (sq_attempts s)\<rparr>))"

definition sq_archive_succeeded_older_than :: "datetime \<Rightarrow> int \<Rightarrow> (SqliteBackend, nat) op" where
  "sq_archive_succeeded_older_than cutoff limit =
     transaction (\<lambda>s.
       let found = sql_limit limit
             (filter (\<lambda>r. j_status r = ''succeeded'' \<and> j_updated_at r < cutoff) (sq_jobs s))
       in case sq_archive_loop found s of
            (Inl e, s') \<Rightarrow> (Inl e, s')
          | (Inr _, s') \<Rightarrow> (Inr (length found), s'))"

definition sq_delete_history_for_succeeded_older_than ::
  "datetime \<Rightarrow> int \<Rightarrow> (SqliteBackend, nat \<times> nat) op" where
  "sq_delete_history_for_succeeded_older_than cutoff limit s =
     (let archived = sql_limit limit (filter (\<lambda>r. j_updated_at r < cutoff) (sq_archive s));
          P = (\<lambda>a. at_started_at a < cutoff \<and> at_job_id a \<in> j_id ` set archived)
      in (Inr (rows_affected P (sq_attempts s), 0),
          s\<lparr>sq_attempts := sql_delete P (sq_attempts s)\<rparr>))"

section \<open>Reads and replay\<close>

definition sq_get_job :: "uuid \<Rightarrow> (SqliteBackend, Job option) op" where
  "sq_get_job job_id s = (Inr (row_at j_id (sq_jobs s) job_id), s)"

definition sq_list_jobs ::
  "string option \<Rightarrow> string option \<Rightarrow> int \<Rightarrow> datetime option \<Rightarrow> uuid option
     \<Rightarrow> (SqliteBackend, JobListItem list) op" where
  "sq_list_jobs queue status limit cursor_created_at cursor_id s =
     (Inr (sql_limit (clamp 1 500 limit)
        (sort_key newest_first
          (map list_item
            (case (queue, status) of
               (Some q, Some st) \<Rightarrow> filter (\<lambda>r. j_queue r = q \<and> j_status r = st) (sq_jobs s)
             | (Some q, None) \<Rightarrow> filter (\<lambda>r. j_queue r = q) (sq_jobs s)
             | (None, Some st) \<Rightarrow> filter (\<lambda>r. j_status r = st) (sq_jobs s)
             | (None, None) \<Rightarrow> sq_jobs s)))), s)"

definition sq_replay_job ::
  "Env \<Rightarrow> uuid \<Rightarrow> string option \<Rightarrow> datetime option \<Rightarrow> (SqliteBackend, uuid) op" where
  "sq_replay_job env job_id override_queue override_run_at s =
     (case transaction (\<lambda>s.
             case row_at j_id (sq_jobs s) job_id of
               None \<Rightarrow> (Inl (sql_error ''no rows returned by a query that expected one''), s)
             | Some src \<Rightarrow>
                 (let new_id = e_fresh env 0;
                      target_queue = (case override_queue of Some q \<Rightarrow> q | None \<Rightarrow> j_queue src);
                      target_run_at = (case override_run_at of Some t \<Rightarrow> t | None \<Rightarrow> e_now env)
                  in case insert_job
                           [''id'', ''dataset_id'', ''replay_of_job_id'', ''queue'', ''job_type'',
                            ''payload_json'', ''run_at'', ''deadline_at'', ''timeout_seconds'',
                            ''recurring_interval_seconds'', ''status'', ''priority'',
                            ''max_attempts'', ''created_at'', ''updated_at'']
                           [SUuid new_id, SText ''default'', SUuid job_id, SText target_queue,
                            SText (j_job_type src), SJson (j_payload src), STime target_run_at,
                            SText ''queued'', SInt (j_priority src), SInt (j_max_attempts src),
                            STime (e_now env), STime (e_now env)] (sq_jobs s) of
                       Inl e \<Rightarrow> (Inl e, s)
                     | Inr t \<Rightarrow> (Inr (new_id, target_queue), s\<lparr>sq_jobs := t\<rparr>))) s of
        (Inl e, s') \<Rightarrow> (Inl e, s')
      | (Inr (new_id, target_queue), s') \<Rightarrow> (Inr new_id, sq_notify_queue target_queue s'))"

section \<open>Streams\<close>

definition sq_publish :: "Env \<Rightarrow> string \<Rightarrow> NewEvent \<Rightarrow> (SqliteBackend, int) op" where
  "sq_publish env stream event s =
     (let n = sq_sequence s + 1;
          row = \<lparr>ev_sequence_no = n, ev_stream_name = stream,
                 ev_event_type = ne_event_type event, ev_payload_json = ne_payload_json event,
                 ev_created_at = e_now env\<rparr>
      in (Inr n, sq_notify_stream stream
                   (s\<lparr>sq_events := sq_events s @ [row], sq_sequence := n\<rparr>)))"

definition sq_subscribe_stream ::
  "string \<Rightarrow> string \<Rightarrow> int option \<Rightarrow> (SqliteBackend, unit) op" where
  "sq_subscribe_stream stream consumer_group last_seq s =
     (case map_of (sq_stream_notifiers s) stream of
        Some _ \<Rightarrow> (Inr (), s)
      | None \<Rightarrow>
          (Inr (), s\<lparr>sq_stream_notifiers := hm_insert stream 0 (sq_stream_notifiers s)\<rparr>))"

definition offset_row :: "string \<Rightarrow> string \<Rightarrow> ConsumerGroupStatus \<Rightarrow> bool" where
  "offset_row stream consumer_group r \<longleftrightarrow>
     cg_stream_name r = stream \<and> cg_consumer_group r = consumer_group"

definition sq_ack :: "Env \<Rightarrow> string \<Rightarrow> string \<Rightarrow> int \<Rightarrow> (SqliteBackend, unit) op" where
  "sq_ack env stream consumer_group n s =
     (if find (offset_row stream consumer_group) (sq_offsets s) = None
      then (Inr (), s\<lparr>sq_offsets := sq_offsets s
               @ [\<lparr>cg_consumer_group = consumer_group, cg_stream_name = stream,
                   cg_last_acked_seq = n, cg_updated_at = e_now env\<rparr>]\<rparr>)
      else (Inr (), s\<lparr>sq_offsets :=
               sql_update (offset_row stream consumer_group)
                 (\<lambda>r. r\<lparr>cg_last_acked_seq := max (cg_last_acked_seq r) n,
                       cg_updated_at := e_now env\<rparr>) (sq_offsets s)\<rparr>))"

definition sq_read_events :: "string \<Rightarrow> int \<Rightarrow> int \<Rightarrow> (SqliteBackend, Event list) op" where
  "sq_read_events stream after limit s =
     (Inr (sql_limit (clamp 1 1000 limit)
        (sort_key ev_sequence_no
          (filter (\<lambda>r. ev_stream_name r = stream \<and> ev_sequence_no r > after) (sq_events s)))), s)"

definition sq_prune_cutoff :: "string \<Rightarrow> int \<Rightarrow> SqliteBackend \<Rightarrow> int" where
  "sq_prune_cutoff stream through_seq s =
     (let offsets =
            map cg_last_acked_seq (filter (\<lambda>r. cg_stream_name r = stream) (sq_offsets s))
      in min through_seq (if offsets = [] then through_seq else Min (set offsets)))"

text \<open>
  The SELECT of the smallest offset and the DELETE are two statements without a transaction, here
  one step: a group whose first acknowledgement comes between them is not seen by the DELETE.
\<close>

definition sq_prune_events :: "string \<Rightarrow> int \<Rightarrow> (SqliteBackend, nat) op" where
  "sq_prune_events stream through_seq s =
     (let cutoff = sq_prune_cutoff stream through_seq s;
          P = (\<lambda>r. ev_stream_name r = stream \<and> ev_sequence_no r \<le> cutoff)
      in (Inr (rows_affected P (sq_events s)),
          s\<lparr>sq_events := sql_delete P (sq_events s)\<rparr>))"

definition sq_consumer_group_info :: "string \<Rightarrow> (SqliteBackend, ConsumerGroupStatus list) op" where
  "sq_consumer_group_info stream s =
     (Inr (filter (\<lambda>r. cg_stream_name r = stream) (sq_offsets s)), s)"

end
