(* ===== verification/Sqlite_Invariant.thy ===== *)
theory Sqlite_Invariant
  imports Sqlite_Store Memory_Backend
begin

text \<open>
  What the tables of the SQLite storage satisfy after every sequence of calls: keys are
  unique, every attempt belongs to a stored job and has a number of its own, jobs and
  attempts are well formed. Uniqueness needs no assumption on the identifier generator: the
  database refuses a duplicate key and the transaction is rolled back. The second part shows
  that a call that fails changes nothing, and what the two calls that are not one transaction leave.
\<close>

section \<open>Invariants of the tables\<close>

definition keys_of :: "Job list \<Rightarrow> string option list" where
  "keys_of t = filter (\<lambda>k. k \<noteq> None) (map j_idempotency_key t)"

definition job_table :: "Job list \<Rightarrow> bool" where
  "job_table t \<longleftrightarrow>
     distinct (map j_id t) \<and> distinct (keys_of t)
     \<and> list_all (\<lambda>r. job_ok r \<and> j_dataset_id r = ''default'') t"

definition attempt_table :: "Job list \<Rightarrow> MemoryAttempt list \<Rightarrow> bool" where
  "attempt_table t as \<longleftrightarrow>
     distinct (map at_id as) \<and> distinct (map (\<lambda>a. (at_job_id a, at_attempt_no a)) as)
     \<and> list_all (\<lambda>a. attempt_ok a \<and> at_dataset_id a = ''default'' \<and> 1 \<le> at_attempt_no a
                      \<and> at_job_id a \<in> j_id ` set t) as"

definition event_tables :: "SqliteBackend \<Rightarrow> bool" where
  "event_tables s \<longleftrightarrow>
     log_sorted (sq_events s) \<and> list_all (\<lambda>e. 1 \<le> seq e \<and> seq e \<le> sq_sequence s) (sq_events s)
     \<and> 0 \<le> sq_sequence s
     \<and> distinct (map (\<lambda>c. (cg_stream_name c, cg_consumer_group c)) (sq_offsets s))"

definition archive_table :: "Job list \<Rightarrow> bool" where
  "archive_table t \<longleftrightarrow>
     distinct (map j_id t) \<and> list_all (\<lambda>r. j_status r = ''succeeded'') t"

definition sq_inv :: "SqliteBackend \<Rightarrow> bool" where
  "sq_inv s \<longleftrightarrow>
     job_table (sq_jobs s) \<and> attempt_table (sq_jobs s) (sq_attempts s)
     \<and> archive_table (sq_archive s) \<and> event_tables s \<and> 1 \<le> sq_incremental_vacuum_n s"

section \<open>Calls\<close>

definition forget :: "('s, 'r) op \<Rightarrow> ('s, unit) op" where
  "forget f s = (case f s of (Inl e, s') \<Rightarrow> (Inl e, s') | (Inr _, s') \<Rightarrow> (Inr (), s'))"

datatype sq_call = Trait mem_call | EnqueueInTx NewJob | Maintain | Migrate

fun sq_exec :: "(nat \<Rightarrow> Env) \<Rightarrow> sq_call \<Rightarrow> (SqliteBackend, unit) op" where
  "sq_exec envs (EnqueueInTx job) = forget (sq_enqueue_in_tx (envs 0) job)"
| "sq_exec envs Maintain = sq_perform_maintenance (envs 0)"
| "sq_exec envs Migrate = sq_run_migrations"
| "sq_exec envs (Trait (CEnqueue job)) = forget (sq_enqueue (envs 0) job)"
| "sq_exec envs (Trait (CLease q w ls bs policy)) =
     forget (sq_lease_jobs_batch_with_ordering (envs 0) q w ls bs policy)"
| "sq_exec envs (Trait CReap) = forget (sq_reap_expired_locks (envs 0))"
| "sq_exec envs (Trait (CStart ds is w)) = forget (sq_start_attempts_batch (envs 0) ds is w)"
| "sq_exec envs (Trait (CSucceed i a w l)) = sq_mark_succeeded (envs 0) i a w l"
| "sq_exec envs (Trait (CSucceedBatch d us w)) = sq_mark_succeeded_batch envs d us w"
| "sq_exec envs (Trait (CRetry i a w l t c m n)) =
     sq_reschedule_for_retry (envs 0) i a w l t c m n"
| "sq_exec envs (Trait (CDlq i a w l r c m n)) = sq_mark_dlq (envs 0) i a w l r c m n"
| "sq_exec envs (Trait (CArchive cutoff limit)) =
     forget (sq_archive_succeeded_older_than cutoff limit)"
| "sq_exec envs (Trait (CDeleteHistory cutoff limit)) =
     forget (sq_delete_history_for_succeeded_older_than cutoff limit)"
| "sq_exec envs (Trait (CExtend i w ls)) = forget (sq_extend_lease (envs 0) i w ls)"
| "sq_exec envs (Trait (CCancel i w)) = sq_cancel_job (envs 0) i w"
| "sq_exec envs (Trait (CReplay i q t)) = forget (sq_replay_job (envs 0) i q t)"
| "sq_exec envs (Trait (CSubscribe q)) = sq_subscribe q"
| "sq_exec envs (Trait (CPublish st e)) = forget (sq_publish (envs 0) st e)"
| "sq_exec envs (Trait (CSubscribeStream st g n)) = sq_subscribe_stream st g n"
| "sq_exec envs (Trait (CAck st g n)) = sq_ack (envs 0) st g n"
| "sq_exec envs (Trait (CPrune st n)) = forget (sq_prune_events st n)"
| "sq_exec envs (Trait CRead) = (\<lambda>s. (Inr (), s))"

inductive sq_reachable :: "int \<Rightarrow> SqliteBackend \<Rightarrow> bool" for n where
  init: "sq_reachable n (sq_with_vacuum_n n)"
| next_call: "sq_reachable n s \<Longrightarrow> sq_reachable n (snd (sq_exec envs c s))"

section \<open>Statements keep the tables\<close>

lemma snd_forget [simp]: "snd (forget f s) = snd (f s)"
  by (auto simp: forget_def split: prod.split sum.split)

lemma fst_forget: "fst (forget f s) = (case fst (f s) of Inl e \<Rightarrow> Inl e | Inr _ \<Rightarrow> Inr ())"
  by (auto simp: forget_def split: prod.split sum.split)

lemma keys_of_update [simp]:
  "(\<And>r. j_idempotency_key (f r) = j_idempotency_key r) \<Longrightarrow> keys_of (sql_update P f t) = keys_of t"
  by (simp add: keys_of_def)

lemma list_all_update:
  "list_all Q t \<Longrightarrow> (\<And>r. P r \<Longrightarrow> Q r \<Longrightarrow> Q (f r)) \<Longrightarrow> list_all Q (sql_update P f t)"
  by (auto simp: sql_update_def list_all_iff)

lemma job_table_update:
  assumes "job_table t" "\<And>r. j_id (f r) = j_id r"
    "\<And>r. j_idempotency_key (f r) = j_idempotency_key r" "\<And>r. j_dataset_id (f r) = j_dataset_id r"
    "\<And>r. P r \<Longrightarrow> job_ok r \<Longrightarrow> job_ok (f r)"
  shows "job_table (sql_update P f t)"
  using assms list_all_update[where P = P and f = f and t = t and Q = "\<lambda>r. job_ok r \<and> j_dataset_id r = ''default''"]
  by (simp add: job_table_def)

lemma ids_update [simp]:
  "(\<And>r. j_id (f r) = j_id r) \<Longrightarrow> j_id ` set (sql_update P f t) = j_id ` set t"
  by (metis list.set_map map_key_update)

lemma attempt_table_jobs:
  "attempt_table t as \<Longrightarrow> j_id ` set t \<subseteq> j_id ` set t' \<Longrightarrow> attempt_table t' as"
  by (auto simp: attempt_table_def list_all_iff)

lemma attempt_table_update:
  assumes "attempt_table t as" "\<And>a. at_id (f a) = at_id a" "\<And>a. at_job_id (f a) = at_job_id a"
    "\<And>a. at_attempt_no (f a) = at_attempt_no a" "\<And>a. at_dataset_id (f a) = at_dataset_id a"
    "\<And>a. P a \<Longrightarrow> attempt_ok a \<Longrightarrow> attempt_ok (f a)"
  shows "attempt_table t (sql_update P f as)"
  using assms list_all_update[where P = P and f = f and t = as
      and Q = "\<lambda>a. attempt_ok a \<and> at_dataset_id a = ''default'' \<and> 1 \<le> at_attempt_no a \<and> at_job_id a \<in> j_id ` set t"]
  by (simp add: attempt_table_def)

lemma job_table_delete: "job_table t \<Longrightarrow> job_table (sql_delete P t)"
proof -
  assume t: "job_table t"
  have "keys_of (filter Q t) = filter (\<lambda>k. k \<noteq> None) (map j_idempotency_key (filter Q t))" for Q
    by (simp add: keys_of_def)
  moreover have "distinct (keys_of (filter Q t))" if "distinct (keys_of t)" for Q
    using that by (induction t) (auto simp: keys_of_def image_iff, metis)
  ultimately show ?thesis using t
    by (auto simp: job_table_def sql_delete_def list_all_iff)
qed

lemma attempt_table_delete: "attempt_table t as \<Longrightarrow> attempt_table t (sql_delete P as)"
  by (auto simp: attempt_table_def sql_delete_def list_all_iff distinct_map_filter)

lemma insert_job_cases:
  assumes "insert_job cols vals t = Inr t'"
  obtains r where "bind_columns cols vals = Some r" "t' = t @ [job_row r]"
    "j_id (job_row r) \<notin> j_id ` set t" "\<not> key_taken (j_idempotency_key (job_row r)) t"
  using assms by (auto simp: insert_job_def Let_def split: option.splits if_splits)

lemma job_table_snoc:
  assumes "job_table t" "j_id r \<notin> j_id ` set t" "\<not> key_taken (j_idempotency_key r) t"
    "job_ok r" "j_dataset_id r = ''default''"
  shows "job_table (t @ [r])"
  using assms by (auto simp: job_table_def keys_of_def key_taken_def)

lemma upsert_job_cases:
  assumes "upsert_job cols vals i key t = Inr (i', t')"
  obtains r where "t' = t" "r \<in> set t" "i' = j_id r" "key \<noteq> None" "j_idempotency_key r = key"
  | "insert_job cols vals t = Inr t'" "i' = i" "key = None \<or> key \<notin> j_idempotency_key ` set t"
proof (cases "find (\<lambda>row. key \<noteq> None \<and> j_idempotency_key row = key) t")
  case None
  then have "key = None \<or> key \<notin> j_idempotency_key ` set t"
    by (auto simp: find_None_iff image_iff)
  then show ?thesis using None assms that(2) by (auto simp: upsert_job_def split: sum.splits)
next
  case (Some r)
  then show ?thesis using assms that(1)[of r] find_SomeD[OF Some] by (auto simp: upsert_job_def)
qed

section \<open>Operations keep the invariant\<close>

lemma record_dataset [simp]:
  "j_dataset_id (deadline_dlq now j) = j_dataset_id j"
  "j_dataset_id (lock_job now w t j) = j_dataset_id j"
  "j_dataset_id (requeue_job now j) = j_dataset_id j"
  "j_dataset_id (complete_job_record now j) = j_dataset_id j"
  "j_dataset_id (dlq_job_record now c j) = j_dataset_id j"
  "j_dataset_id (cancel_job_record now j) = j_dataset_id j"
  "at_dataset_id (fail_attempt_record now l c m a) = at_dataset_id a"
  "at_dataset_id (succeed_attempt_record now l a) = at_dataset_id a"
  by (simp_all add: record_defs attempt_record_defs)

lemma sq_fail_attempt_sel [simp]:
  "at_id (sq_fail_attempt now c m a) = at_id a" "at_job_id (sq_fail_attempt now c m a) = at_job_id a"
  "at_attempt_no (sq_fail_attempt now c m a) = at_attempt_no a"
  "at_dataset_id (sq_fail_attempt now c m a) = at_dataset_id a"
  "at_status (sq_fail_attempt now c m a) = ''failed''"
  "attempt_ok a \<Longrightarrow> attempt_ok (sq_fail_attempt now c m a)"
  by (simp_all add: sq_fail_attempt_def attempt_ok_def)

lemma sq_notify_simps [simp]:
  "sq_jobs (sq_notify_queue q s) = sq_jobs s" "sq_attempts (sq_notify_queue q s) = sq_attempts s"
  "sq_archive (sq_notify_queue q s) = sq_archive s" "sq_events (sq_notify_queue q s) = sq_events s"
  "sq_sequence (sq_notify_queue q s) = sq_sequence s" "sq_offsets (sq_notify_queue q s) = sq_offsets s"
  "sq_jobs (sq_notify_stream q s) = sq_jobs s" "sq_attempts (sq_notify_stream q s) = sq_attempts s"
  "sq_archive (sq_notify_stream q s) = sq_archive s" "sq_events (sq_notify_stream q s) = sq_events s"
  "sq_sequence (sq_notify_stream q s) = sq_sequence s" "sq_offsets (sq_notify_stream q s) = sq_offsets s"
  "sq_incremental_vacuum_n (sq_notify_queue q s) = sq_incremental_vacuum_n s"
  "sq_incremental_vacuum_n (sq_notify_stream q s) = sq_incremental_vacuum_n s"
  by (simp_all add: sq_notify_queue_def sq_notify_stream_def)

lemma count_dequeue_simps [simp]:
  "sq_jobs (count_dequeue s) = sq_jobs s" "sq_attempts (count_dequeue s) = sq_attempts s"
  "sq_archive (count_dequeue s) = sq_archive s" "sq_events (count_dequeue s) = sq_events s"
  "sq_sequence (count_dequeue s) = sq_sequence s" "sq_offsets (count_dequeue s) = sq_offsets s"
  "sq_incremental_vacuum_n (count_dequeue s) = sq_incremental_vacuum_n s"
  by (simp_all add: count_dequeue_def Let_def)

lemma sq_invD:
  assumes "sq_inv s"
  shows "job_table (sq_jobs s)" "attempt_table (sq_jobs s) (sq_attempts s)"
    "archive_table (sq_archive s)" "event_tables s" "1 \<le> sq_incremental_vacuum_n s"
  using assms by (simp_all add: sq_inv_def)

lemma sq_inv_tables:
  assumes "sq_inv s" "job_table t" "attempt_table t as"
  shows "sq_inv (s\<lparr>sq_jobs := t, sq_attempts := as\<rparr>)"
  using assms by (simp add: sq_inv_def event_tables_def)

lemma sq_inv_jobs:
  assumes "sq_inv s" "job_table t" "j_id ` set (sq_jobs s) \<subseteq> j_id ` set t"
  shows "sq_inv (s\<lparr>sq_jobs := t\<rparr>)"
  using assms attempt_table_jobs[OF sq_invD(2)[OF assms(1)] assms(3)]
  by (simp add: sq_inv_def event_tables_def)

lemma sq_inv_attempts:
  assumes "sq_inv s" "attempt_table (sq_jobs s) as"
  shows "sq_inv (s\<lparr>sq_attempts := as\<rparr>)"
  using assms by (simp add: sq_inv_def event_tables_def)

lemma sq_inv_notify [simp]:
  "sq_inv (sq_notify_queue q s) = sq_inv s" "sq_inv (sq_notify_stream q s) = sq_inv s"
  "sq_inv (count_dequeue s) = sq_inv s"
  by (simp_all add: sq_inv_def event_tables_def)

text \<open>The row an enqueue stores; \<open>limits\<close> tells which of the two statements runs.\<close>

definition sq_entity :: "bool \<Rightarrow> Env \<Rightarrow> NewJob \<Rightarrow> Job" where
  "sq_entity limits env job =
     (if limits then mem_enqueue_entity env job
      else (mem_enqueue_entity env job)\<lparr>j_deadline_at := None, j_timeout_seconds := None,
             j_recurring_interval_seconds := None\<rparr>)"

definition sq_store ::
  "bool \<Rightarrow> Env \<Rightarrow> NewJob \<Rightarrow> Job list \<Rightarrow> anyhow + (uuid \<times> Job list)" where
  "sq_store limits env job t =
     (case find (\<lambda>row. nj_idempotency_key job \<noteq> None \<and> j_idempotency_key row = nj_idempotency_key job) t of
        Some existing \<Rightarrow> Inr (j_id existing, t)
      | None \<Rightarrow>
          if e_fresh env 0 \<in> j_id ` set t
          then Inl (sql_error ''UNIQUE constraint failed: jobs.id'')
          else Inr (e_fresh env 0, t @ [sq_entity limits env job]))"

lemma no_key_taken:
  "find (\<lambda>row. key \<noteq> None \<and> j_idempotency_key row = key) t = None \<Longrightarrow> \<not> key_taken key t"
  by (auto simp: find_None_iff key_taken_def)

lemma sq_enqueue_stages:
  "sq_enqueue env job s =
     (case sq_store False env job (sq_jobs s) of
        Inl e \<Rightarrow> (Inl e, s)
      | Inr (i, t) \<Rightarrow> (Inr i, sq_notify_queue (nj_queue job) (s\<lparr>sq_jobs := t\<rparr>)))"
  by (simp add: sq_enqueue_def upsert_job_def sq_store_def insert_job_def column_defs job_row_def
      sq_entity_def mem_enqueue_entity_def no_key_taken Let_def split: option.split)

lemma sq_enqueue_in_tx_stages:
  "sq_enqueue_in_tx env job s =
     (case sq_store True env job (sq_jobs s) of
        Inl e \<Rightarrow> (Inl e, s) | Inr (i, t) \<Rightarrow> (Inr i, s\<lparr>sq_jobs := t\<rparr>))"
  by (simp add: sq_enqueue_in_tx_def upsert_job_def sq_store_def insert_job_def column_defs job_row_def
      sq_entity_def mem_enqueue_entity_def no_key_taken Let_def split: option.split)

lemma sq_entity_sel [simp]:
  "j_id (sq_entity l env job) = e_fresh env 0" "j_status (sq_entity l env job) = ''queued''"
  "j_idempotency_key (sq_entity l env job) = nj_idempotency_key job"
  "j_queue (sq_entity l env job) = nj_queue job"
  "j_dataset_id (sq_entity l env job) = ''default''" "job_ok (sq_entity l env job)"
  by (simp_all add: sq_entity_def mem_enqueue_entity_def job_ok_def)

lemma sq_store_table:
  assumes "sq_store l env job t = Inr (i, t')" "job_table t"
  shows "job_table t' \<and> j_id ` set t \<subseteq> j_id ` set t'"
  using assms
  by (auto simp: sq_store_def no_key_taken intro!: job_table_snoc split: option.splits if_splits)

lemma sq_enqueue_inv: "sq_inv s \<Longrightarrow> sq_inv (snd (sq_enqueue env job s))"
  by (auto simp: sq_enqueue_stages split: sum.split dest!: sq_store_table
      intro!: sq_inv_jobs sq_invD(1))

lemma sq_enqueue_in_tx_inv: "sq_inv s \<Longrightarrow> sq_inv (snd (sq_enqueue_in_tx env job s))"
  by (auto simp: sq_enqueue_in_tx_stages split: sum.split dest!: sq_store_table
      intro!: sq_inv_jobs sq_invD(1))

lemma job_table_expire: "job_table t \<Longrightarrow> job_table (sq_expire_deadlines now q t)"
  unfolding sq_expire_deadlines_def by (rule job_table_update) auto

lemma ids_expire [simp]: "map j_id (sq_expire_deadlines now q t) = map j_id t"
  by (simp add: sq_expire_deadlines_def)

lemma set_order_sql [simp]: "set (order_sql policy t) = set t"
  by (cases policy) simp_all

lemma distinct_order_sql: "distinct (map j_id t) \<Longrightarrow> distinct (map j_id (order_sql policy t))"
  by (cases policy) (auto simp: distinct_map)

lemma set_candidates:
  "r \<in> set (sq_candidates now q bs policy t) \<Longrightarrow>
     r \<in> set t \<and> j_queue r = q \<and> j_status r = ''queued'' \<and> j_run_at r \<le> now"
  unfolding sq_candidates_def using set_sql_limit by fastforce

text \<open>The updates of the candidates, one by one, are one update of all of them.\<close>

lemma lease_updates:
  "fold (\<lambda>job. sql_update (\<lambda>r. j_id r = j_id job) (lock_job now w e)) cs t =
     sql_update (\<lambda>r. j_id r \<in> j_id ` set cs) (lock_job now w e) t"
  using fold_update[where key = j_id and f = "lock_job now w e" and k = j_id and I = "{}" and t = t and xs = cs]
  by (simp add: update_none)

lemma job_table_lock:
  assumes t: "job_table t" and cs: "set cs \<subseteq> set t" "\<And>r. r \<in> set cs \<Longrightarrow> j_status r = ''queued''"
  shows "job_table (sql_update (\<lambda>r. j_id r \<in> j_id ` set cs) (lock_job now w e) t)"
proof -
  have "distinct (map j_id t)" using t by (simp add: job_table_def)
  then show ?thesis
    using cs(2) by (subst update_keyed[OF _ cs(1)]) (auto intro!: job_table_update[OF t])
qed

lemma sq_lease_inv:
  assumes "sq_inv s"
  shows "sq_inv (snd (sq_lease_jobs_batch_with_ordering env q w ls bs policy s))"
proof -
  let ?t = "sq_expire_deadlines (e_now env) q (sq_jobs s)"
  let ?cs = "sq_candidates (e_now env) q bs policy ?t"
  have t: "job_table ?t" using job_table_expire[OF sq_invD(1)[OF assms]] .
  have ids: "j_id ` set ?t = j_id ` set (sq_jobs s)" by (simp only: list.set_map[symmetric] ids_expire)
  have "job_table (sql_update (\<lambda>r. j_id r \<in> j_id ` set ?cs) (lock_job (e_now env) w (e_now env + seconds ls)) ?t)"
    using set_candidates by (intro job_table_lock[OF t]) blast+
  then show ?thesis
    using assms t ids
    by (auto simp: sq_lease_jobs_batch_with_ordering_def Let_def lease_updates intro!: sq_inv_jobs)
qed

lemma sq_extend_lease_inv: "sq_inv s \<Longrightarrow> sq_inv (snd (sq_extend_lease env i w ls s))"
  by (auto simp: sq_extend_lease_def Let_def job_ok_def intro!: sq_inv_jobs job_table_update sq_invD(1))

definition cancel_attempts :: "datetime \<Rightarrow> uuid \<Rightarrow> Job \<Rightarrow> MemoryAttempt list \<Rightarrow> MemoryAttempt list" where
  "cancel_attempts now i job as =
     (if j_status job = ''running''
      then sql_update (\<lambda>a. at_id a \<in> at_id ` set (sq_latest_running i as))
             (sq_fail_attempt now ''CANCELLED'' ''job cancelled'') as
      else as)"

lemma sq_cancel_stages:
  "sq_cancel_job env i w s =
     (case row_at j_id (sq_jobs s) i of
        None \<Rightarrow> (Inl (job_not_found i), s)
      | Some job \<Rightarrow>
          (case cancel_guard i w job of
             Some e \<Rightarrow> (Inl e, s)
           | None \<Rightarrow>
               (Inr (), s\<lparr>sq_jobs := sql_update (\<lambda>r. j_id r = i) (cancel_job_record (e_now env)) (sq_jobs s),
                          sq_attempts := cancel_attempts (e_now env) i job (sq_attempts s)\<rparr>)))"
  by (simp add: sq_cancel_job_def transaction_def cancel_attempts_def Let_def split: option.split)

lemma cancel_attempts_table:
  "attempt_table t as \<Longrightarrow> attempt_table t (cancel_attempts now i job as)"
  by (auto simp: cancel_attempts_def intro!: attempt_table_update)

lemma sq_cancel_job_inv:
  assumes "sq_inv s"
  shows "sq_inv (snd (sq_cancel_job env i w s))"
proof -
  note t = sq_invD(1)[OF assms]
  have "sq_inv (s\<lparr>sq_jobs := sql_update (\<lambda>r. j_id r = i) (cancel_job_record (e_now env)) (sq_jobs s),
                  sq_attempts := cancel_attempts (e_now env) i job (sq_attempts s)\<rparr>)" (is "sq_inv (s\<lparr>sq_jobs := ?t, sq_attempts := _\<rparr>)")
    if job: "row_at j_id (sq_jobs s) i = Some job" "cancel_guard i w job = None" for job
  proof (rule sq_inv_tables[OF assms])
    have "j_status job \<noteq> ''dlq''" using job(2) by (auto simp: cancel_guard_def split: if_splits option.splits)
    moreover have "distinct (map j_id (sq_jobs s))" using t by (simp add: job_table_def)
    ultimately show "job_table ?t"
      by (subst update_row[OF _ job(1)]) (auto intro!: job_table_update[OF t])
    show "attempt_table ?t (cancel_attempts (e_now env) i job (sq_attempts s))"
      by (rule attempt_table_jobs[OF cancel_attempts_table[OF sq_invD(2)[OF assms]]]) simp
  qed
  then show ?thesis using assms by (simp add: sq_cancel_stages split: option.split)
qed

text \<open>
  The updates of the attempts of the expired jobs are one update: all jobs are in the same
  data set, and an attempt that was closed is not running any more.
\<close>

definition close_running :: "datetime \<Rightarrow> uuid set \<Rightarrow> MemoryAttempt list \<Rightarrow> MemoryAttempt list" where
  "close_running now I =
     sql_update (\<lambda>a. at_job_id a \<in> I \<and> at_status a = ''running'')
       (sq_fail_attempt now ''LEASE_EXPIRED'' ''worker lease expired before ACK'')"

lemma reap_updates:
  assumes "\<forall>a \<in> set as. at_dataset_id a = ''default''" "\<forall>p \<in> set ps. fst p = ''default''"
  shows "fold (\<lambda>(d, i). sql_update (\<lambda>a. at_dataset_id a = d \<and> at_job_id a = i \<and> at_status a = ''running'')
             (sq_fail_attempt now ''LEASE_EXPIRED'' ''worker lease expired before ACK'')) ps (close_running now I as) =
         close_running now (I \<union> snd ` set ps) as"
  using assms(2)
proof (induction ps arbitrary: I)
  case (Cons p ps)
  have "sql_update (\<lambda>a. at_dataset_id a = fst p \<and> at_job_id a = snd p \<and> at_status a = ''running'')
      (sq_fail_attempt now ''LEASE_EXPIRED'' ''worker lease expired before ACK'') (close_running now I as) =
      close_running now (insert (snd p) I) as"
    using assms(1) Cons.prems by (auto simp: close_running_def sql_update_def)
  then show ?case using Cons.IH[of "insert (snd p) I"] Cons.prems by (simp add: case_prod_unfold)
qed simp

lemma close_running_none: "close_running now {} as = as"
  by (simp add: close_running_def update_none)

lemma sq_reap_stages:
  assumes "sq_inv s"
  shows "sq_reap_expired_locks env s =
    (let expired = filter (lease_expired (e_now env)) (sq_jobs s)
     in (Inr (length expired),
         s\<lparr>sq_jobs := sql_update (lease_expired (e_now env)) (requeue_job (e_now env)) (sq_jobs s),
           sq_attempts := close_running (e_now env) (j_id ` set expired) (sq_attempts s)\<rparr>))"
proof -
  have d: "\<forall>a \<in> set (sq_attempts s). at_dataset_id a = ''default''"
    "\<forall>p \<in> set (map (\<lambda>r. (j_dataset_id r, j_id r)) (filter (lease_expired (e_now env)) (sq_jobs s))). fst p = ''default''"
    using assms by (auto simp: sq_inv_def attempt_table_def job_table_def list_all_iff)
  show ?thesis
    using reap_updates[OF d, where now = "e_now env" and I = "{}"]
    by (simp add: sq_reap_expired_locks_def transaction_def Let_def close_running_none image_image
        rows_affected_def)
qed

lemma close_running_table: "attempt_table t as \<Longrightarrow> attempt_table t (close_running now I as)"
  unfolding close_running_def by (rule attempt_table_update) auto

lemma sq_reap_inv:
  assumes "sq_inv s"
  shows "sq_inv (snd (sq_reap_expired_locks env s))"
proof -
  have "job_table (sql_update (lease_expired (e_now env)) (requeue_job (e_now env)) (sq_jobs s))" (is "job_table ?t")
    by (rule job_table_update[OF sq_invD(1)[OF assms]]) (auto simp: lease_expired_def)
  moreover have "attempt_table ?t (close_running (e_now env) I (sq_attempts s))" for I
    by (rule attempt_table_jobs[OF close_running_table[OF sq_invD(2)[OF assms]]]) simp
  ultimately show ?thesis
    unfolding sq_reap_stages[OF assms] Let_def snd_conv by (rule sq_inv_tables[OF assms])
qed

lemma next_no_new:
  assumes "attempt_table t as"
  shows "at_job_id a = i \<Longrightarrow> a \<in> set as \<Longrightarrow> at_attempt_no a < sq_next_attempt_no i as"
    "1 \<le> sq_next_attempt_no i as"
proof -
  let ?ns = "map at_attempt_no (filter (\<lambda>a. at_job_id a = i) as)"
  have le: "n < sq_next_attempt_no i as" if n: "n \<in> set ?ns" for n
  proof -
    have "n \<le> Max (set ?ns)" "?ns \<noteq> []" using n by (auto simp del: set_map intro!: Max_ge)
    then show ?thesis unfolding sq_next_attempt_no_def Let_def by simp
  qed
  then show "at_job_id a = i \<Longrightarrow> a \<in> set as \<Longrightarrow> at_attempt_no a < sq_next_attempt_no i as" by auto
  have "1 \<le> n" if "n \<in> set ?ns" for n
    using that assms by (auto simp: attempt_table_def list_all_iff)
  then have "?ns \<noteq> [] \<Longrightarrow> 1 < sq_next_attempt_no i as" using le by (meson le_less_trans last_in_set)
  then show "1 \<le> sq_next_attempt_no i as" by (cases "?ns = []") (auto simp: sq_next_attempt_no_def)
qed

lemma attempt_table_snoc:
  assumes "attempt_table t as" "x \<notin> at_id ` set as" "i \<in> j_id ` set t"
  shows "attempt_table t (as @ [new_attempt now x i (sq_next_attempt_no i as) w])"
proof -
  have "(i, sq_next_attempt_no i as) \<notin> (\<lambda>a. (at_job_id a, at_attempt_no a)) ` set as"
    using next_no_new(1)[OF assms(1)] by fastforce
  moreover have "at_dataset_id (new_attempt now x i n w) = ''default''" for n by (simp add: new_attempt_def)
  ultimately show ?thesis
    using assms next_no_new(2)[OF assms(1), of i] by (simp add: attempt_table_def)
qed

lemma claim_one:
  assumes "job_table t"
  shows "rows_affected (\<lambda>r. j_id r = i \<and> j_status r = ''running'' \<and> j_locked_by r = Some w) t =
    (case row_at j_id t i of None \<Rightarrow> 0 | Some j \<Rightarrow> if lease_held w j then 1 else 0)"
  using affected_key[of j_id t i "\<lambda>r. j_status r = ''running'' \<and> j_locked_by r = Some w"] assms
  by (simp add: job_table_def split: option.split)

lemma start_loop_step:
  assumes "job_table (sq_jobs s)"
  shows "sq_start_loop now fresh w (i # is) s =
    (case row_at j_id (sq_jobs s) i of
       None \<Rightarrow> (Inl (cannot_start_attempt i w), s)
     | Some j \<Rightarrow>
         if \<not> lease_held w j then (Inl (cannot_start_attempt i w), s)
         else if fresh 0 \<in> at_id ` set (sq_attempts s)
         then (Inl (sql_error ''UNIQUE constraint failed: job_attempts.id''), s)
         else let n = sq_next_attempt_no i (sq_attempts s) in
           (case sq_start_loop now (\<lambda>k. fresh (Suc k)) w is
                   (s\<lparr>sq_attempts := sq_attempts s @ [new_attempt now (fresh 0) i n w]\<rparr>) of
              (Inl e, s') \<Rightarrow> (Inl e, s')
            | (Inr rs, s') \<Rightarrow> (Inr ((i, fresh 0, n) # rs), s')))"
  unfolding sq_start_loop.simps Let_def claim_one[OF assms] by (auto split: option.split)

lemma sq_start_loop_inv:
  "sq_inv s \<Longrightarrow> sq_start_loop now fresh w is s = (Inr rs, s') \<Longrightarrow> sq_inv s' \<and> sq_jobs s' = sq_jobs s"
proof (induction "is" arbitrary: s fresh rs)
  case (Cons i "is")
  let ?s = "s\<lparr>sq_attempts := sq_attempts s @
      [new_attempt now (fresh 0) i (sq_next_attempt_no i (sq_attempts s)) w]\<rparr>"
  note t = sq_invD(1)[OF Cons.prems(1)]
  obtain j where j: "row_at j_id (sq_jobs s) i = Some j" "lease_held w j" "fresh 0 \<notin> at_id ` set (sq_attempts s)"
    using Cons.prems(2) unfolding start_loop_step[OF t] by (auto split: option.splits if_splits)
  then obtain rs' where rec: "sq_start_loop now (\<lambda>k. fresh (Suc k)) w is ?s = (Inr rs', s')"
    using Cons.prems(2) unfolding start_loop_step[OF t] by (auto simp: Let_def split: prod.splits sum.splits)
  have "i \<in> j_id ` set (sq_jobs s)" using row_at_SomeD[OF j(1)] by auto
  then have "sq_inv ?s"
    by (rule sq_inv_attempts[OF Cons.prems(1) attempt_table_snoc[OF sq_invD(2)[OF Cons.prems(1)] j(3)]])
  then show ?case using Cons.IH[OF _ rec] by simp
qed simp

lemma sq_start_inv: "sq_inv s \<Longrightarrow> sq_inv (snd (sq_start_attempts_batch env ds is w s))"
  by (auto simp: sq_start_attempts_batch_def intro!: transaction_keeps[where P = sq_inv]
      dest: sq_start_loop_inv)

section \<open>Outcomes\<close>

lemma sq_close_stages:
  assumes "attempt_table t (sq_attempts s)"
  shows "sq_close_attempt x i f err s =
    (case row_at at_id (sq_attempts s) x of
       None \<Rightarrow> (Inl err, s)
     | Some a \<Rightarrow>
         if attempt_open i a
         then (Inr (), s\<lparr>sq_attempts := sql_update (\<lambda>r. r = a) f (sq_attempts s)\<rparr>) else (Inl err, s))"
proof -
  have d: "distinct (map at_id (sq_attempts s))" using assms by (simp add: attempt_table_def)
  note aff = affected_key[OF d, of x "\<lambda>r. at_job_id r = i \<and> at_status r = ''running''"]
  have "sql_update (\<lambda>r. at_id r = x \<and> at_job_id r = i \<and> at_status r = ''running'') f (sq_attempts s) =
      sql_update (\<lambda>r. r = a) f (sq_attempts s)"
    if a: "row_at at_id (sq_attempts s) x = Some a" "attempt_open i a" for a
  proof -
    have "(at_id r = x \<and> at_job_id r = i \<and> at_status r = ''running'') = (r = a)"
      if r: "r \<in> set (sq_attempts s)" for r
    proof -
      have "at_id r = x \<Longrightarrow> r = a" using row_at_unique[OF d r, of x] a(1) by simp
      then show ?thesis using row_at_SomeD[OF a(1)] a(2) by auto
    qed
    then show ?thesis unfolding sql_update_def by (intro map_cong) simp_all
  qed
  then show ?thesis using aff by (auto simp: sq_close_attempt_def Let_def split: option.split)
qed

lemma filter_single_row: "distinct t \<Longrightarrow> j \<in> set t \<Longrightarrow> filter (\<lambda>r. r = j) t = [j]"
  by (induction t) (auto simp: filter_empty_conv)

lemma sq_claim_update:
  assumes "job_table t" "row_at j_id t i = Some j" "lease_held w j"
  shows "sql_update (sq_claim i w) f t = sql_update (\<lambda>r. r = j) f t"
    "filter (sq_claim i w) t = [j]"
proof -
  have d: "distinct (map j_id t)" using assms(1) by (simp add: job_table_def)
  have eq: "sq_claim i w r = (r = j)" if r: "r \<in> set t" for r
  proof -
    have "j_id r = i \<Longrightarrow> r = j" using row_at_unique[OF d r, of i] assms(2) by simp
    then show ?thesis using row_at_SomeD[OF assms(2)] assms(3) by (auto simp: sq_claim_def)
  qed
  then show "sql_update (sq_claim i w) f t = sql_update (\<lambda>r. r = j) f t"
    unfolding sql_update_def by (intro map_cong) simp_all
  have "filter (sq_claim i w) t = filter (\<lambda>r. r = j) t" using eq by (intro filter_cong) simp_all
  moreover have "distinct t" "j \<in> set t" using d row_at_SomeD[OF assms(2)] by (auto simp: distinct_map)
  ultimately show "filter (sq_claim i w) t = [j]" by (simp add: filter_single_row)
qed

lemma sq_settle_stages:
  assumes "job_table (sq_jobs s)"
  shows "sq_settle_job i w f err s =
    (case row_at j_id (sq_jobs s) i of
       None \<Rightarrow> (Inl err, s)
     | Some j \<Rightarrow>
         if lease_held w j
         then (Inr (), s\<lparr>sq_jobs := sql_update (\<lambda>r. r = j) f (sq_jobs s)\<rparr>) else (Inl err, s))"
  using sq_claim_update[OF assms] claim_one[OF assms, of i w, folded sq_claim_def]
  by (simp add: sq_settle_job_def split: option.split)

text \<open>
  An outcome closes the attempt and settles the job, or does nothing: the attempt must be
  running and belong to the job, the job must be running and leased to the worker.
\<close>

definition sq_outcome ::
  "uuid \<Rightarrow> uuid \<Rightarrow> string \<Rightarrow> (MemoryAttempt \<Rightarrow> MemoryAttempt) \<Rightarrow> (Job \<Rightarrow> Job list \<Rightarrow> anyhow + Job list)
     \<Rightarrow> anyhow \<Rightarrow> anyhow \<Rightarrow> (SqliteBackend, unit) op" where
  "sq_outcome x i w f g e1 e2 s =
     (case row_at at_id (sq_attempts s) x of
        None \<Rightarrow> (Inl e1, s)
      | Some a \<Rightarrow>
          if \<not> attempt_open i a then (Inl e1, s)
          else (case row_at j_id (sq_jobs s) i of
                  None \<Rightarrow> (Inl e2, s)
                | Some j \<Rightarrow>
                    if \<not> lease_held w j then (Inl e2, s)
                    else (case g j (sq_jobs s) of
                            Inl e \<Rightarrow> (Inl e, s)
                          | Inr t \<Rightarrow>
                              (Inr (), s\<lparr>sq_jobs := t,
                                         sq_attempts := sql_update (\<lambda>r. r = a) f (sq_attempts s)\<rparr>))))"

lemma sq_retry_stages:
  assumes "sq_inv s"
  shows "sq_reschedule_for_retry env i x w l t c m n s =
    sq_outcome x i w (fail_attempt_record (e_now env) l c m)
      (\<lambda>j u. Inr (sql_update (\<lambda>r. r = j) (\<lambda>r. (requeue_job (e_now env) r)\<lparr>j_run_at := t\<rparr>) u))
      (cannot_fail_attempt x i) (illegal_transition ''retry_wait'' i w) s"
  using sq_invD(1)[OF assms]
  by (simp add: sq_reschedule_for_retry_def sq_outcome_def transaction_def
      sq_close_stages[OF sq_invD(2)[OF assms]] sq_settle_stages split: option.split)

lemma sq_dlq_stages:
  assumes "sq_inv s"
  shows "sq_mark_dlq env i x w l rc c m n s =
    sq_outcome x i w (fail_attempt_record (e_now env) l c m)
      (\<lambda>j u. Inr (sql_update (\<lambda>r. r = j) (dlq_job_record (e_now env) rc) u))
      (cannot_fail_attempt x i) (illegal_transition ''dlq'' i w) s"
  using sq_invD(1)[OF assms]
  by (simp add: sq_mark_dlq_def sq_outcome_def transaction_def
      sq_close_stages[OF sq_invD(2)[OF assms]] sq_settle_stages split: option.split)

definition sq_complete :: "Env \<Rightarrow> Job \<Rightarrow> Job list \<Rightarrow> anyhow + Job list" where
  "sq_complete env j u =
     (let u' = sql_update (\<lambda>r. r = j) (complete_job_record (e_now env)) u
      in case j_recurring_interval_seconds j of
           None \<Rightarrow> Inr u'
         | Some n \<Rightarrow>
             if e_fresh env 0 \<in> j_id ` set u
             then Inl (sql_error ''UNIQUE constraint failed: jobs.id'')
             else Inr (u' @ [next_occurrence (e_now env) (e_fresh env 0) j (max n 1)]))"

lemma sq_insert_next_row:
  assumes "j_dataset_id j = ''default''"
  shows "sq_insert_next env (complete_job_record now j) n u =
    (if e_fresh env 0 \<in> j_id ` set u then Inl (sql_error ''UNIQUE constraint failed: jobs.id'')
     else Inr (u @ [next_occurrence (e_now env) (e_fresh env 0) j (max n 1)]))"
proof -
  have "next_occurrence t k j m =
    \<lparr>j_dataset_id = ''default'', j_replay_of_job_id = Some (j_id j), j_idempotency_key = None,
     j_id = k, j_queue = j_queue j, j_job_type = j_job_type j, j_payload = j_payload j,
     j_run_at = j_run_at j + seconds m, j_deadline_at = map_option (\<lambda>d. d + seconds m) (j_deadline_at j),
     j_timeout_seconds = j_timeout_seconds j,
     j_recurring_interval_seconds = j_recurring_interval_seconds j, j_status = ''queued'',
     j_priority = j_priority j, j_max_attempts = j_max_attempts j, j_locked_at = None,
     j_locked_by = None, j_lock_expires_at = None, j_dlq_reason_code = None, j_dlq_at = None,
     j_created_at = t, j_updated_at = t\<rparr>" for t k m
    using assms by (simp add: next_occurrence_def)
  then show ?thesis
    by (simp add: sq_insert_next_def Let_def insert_job_def column_defs job_row_def key_taken_def
        complete_job_record_def)
qed

lemma sq_succeed_stages:
  assumes "sq_inv s"
  shows "sq_mark_succeeded env i x w l s =
    sq_outcome x i w (succeed_attempt_record (e_now env) l) (sq_complete env)
      (cannot_complete_attempt x i) (illegal_transition ''completed'' i w) s"
proof -
  note t = sq_invD(1)[OF assms]
  have none: "filter (sq_claim i w) (sq_jobs s) = []"
    if "row_at j_id (sq_jobs s) i = None \<or> (\<exists>j. row_at j_id (sq_jobs s) i = Some j \<and> \<not> lease_held w j)"
    using that claim_one[OF t, of i w, folded sq_claim_def] by (auto simp: rows_affected_def)
  have "j_dataset_id j = ''default''" if "row_at j_id (sq_jobs s) i = Some j" for j
    using row_at_SomeD[OF that] t by (auto simp: job_table_def list_all_iff)
  then show ?thesis
    using sq_claim_update[OF t] none
    by (simp add: sq_mark_succeeded_def sq_outcome_def transaction_def sq_complete_def Let_def
        sq_close_stages[OF sq_invD(2)[OF assms]] sq_insert_next_row split: option.split)
qed

lemma sq_outcome_inv:
  assumes inv: "sq_inv s"
    and f: "\<And>a. at_id (f a) = at_id a" "\<And>a. at_job_id (f a) = at_job_id a"
      "\<And>a. at_attempt_no (f a) = at_attempt_no a" "\<And>a. at_dataset_id (f a) = at_dataset_id a"
      "\<And>a. attempt_ok a \<Longrightarrow> at_status a = ''running'' \<Longrightarrow> attempt_ok (f a)"
    and g: "\<And>j t. j \<in> set (sq_jobs s) \<Longrightarrow> lease_held w j \<Longrightarrow> g j (sq_jobs s) = Inr t
      \<Longrightarrow> job_table t \<and> j_id ` set (sq_jobs s) \<subseteq> j_id ` set t"
  shows "sq_inv (snd (sq_outcome x i w f g e1 e2 s))"
proof -
  have "sq_inv (s\<lparr>sq_jobs := t, sq_attempts := sql_update (\<lambda>r. r = a) f (sq_attempts s)\<rparr>)"
    if "attempt_open i a" "row_at j_id (sq_jobs s) i = Some j" "lease_held w j" "g j (sq_jobs s) = Inr t" for a j t
  proof (rule sq_inv_tables[OF inv])
    have "j \<in> set (sq_jobs s)" using row_at_SomeD[OF that(2)] by simp
    then have t: "job_table t" "j_id ` set (sq_jobs s) \<subseteq> j_id ` set t" using g that(3,4) by blast+
    show "job_table t" by (rule t)
    have "attempt_table (sq_jobs s) (sql_update (\<lambda>r. r = a) f (sq_attempts s))"
      using that(1) by (intro attempt_table_update[OF sq_invD(2)[OF inv]]) (simp_all add: f)
    then show "attempt_table t (sql_update (\<lambda>r. r = a) f (sq_attempts s))"
      using t(2) by (rule attempt_table_jobs)
  qed
  then show ?thesis using inv by (auto simp: sq_outcome_def split: option.split sum.split)
qed

lemma job_table_settle:
  assumes "job_table t" "lease_held w j" "\<And>r. j_id (g r) = j_id r"
    "\<And>r. j_idempotency_key (g r) = j_idempotency_key r" "\<And>r. j_dataset_id (g r) = j_dataset_id r"
    "\<And>r. job_ok r \<Longrightarrow> j_status r = ''running'' \<Longrightarrow> job_ok (g r)"
  shows "job_table (sql_update (\<lambda>r. r = j) g t)" "j_id ` set (sql_update (\<lambda>r. r = j) g t) = j_id ` set t"
  using assms by (auto intro!: job_table_update)

lemma sq_retry_inv: "sq_inv s \<Longrightarrow> sq_inv (snd (sq_reschedule_for_retry env i x w l t c m n s))"
  unfolding sq_retry_stages
  by (rule sq_outcome_inv) (auto intro!: job_table_settle sq_invD(1))

lemma sq_dlq_inv: "sq_inv s \<Longrightarrow> sq_inv (snd (sq_mark_dlq env i x w l rc c m n s))"
  unfolding sq_dlq_stages
  by (rule sq_outcome_inv) (auto intro!: job_table_settle sq_invD(1))

lemma sq_complete_table:
  assumes t: "job_table t" and "sq_complete env j t = Inr t'" "j \<in> set t" "lease_held w j"
  shows "job_table t' \<and> j_id ` set t \<subseteq> j_id ` set t'"
proof -
  let ?u = "sql_update (\<lambda>r. r = j) (complete_job_record (e_now env)) t"
  have u: "job_table ?u" "j_id ` set ?u = j_id ` set t"
    using job_table_settle[OF t assms(4)] by auto
  have "j_dataset_id j = ''default''" using t assms(3) by (auto simp: job_table_def list_all_iff)
  then have "job_table (?u @ [next_occurrence now k j m])" if "k \<notin> j_id ` set t" for k now m
    using that u by (intro job_table_snoc) (auto simp: key_taken_def next_occurrence_def job_ok_def)
  then show ?thesis using assms(2) u by (auto simp: sq_complete_def Let_def split: option.splits if_splits)
qed

lemma sq_succeed_inv:
  assumes "sq_inv s"
  shows "sq_inv (snd (sq_mark_succeeded env i x w l s))"
  unfolding sq_succeed_stages[OF assms]
proof (rule sq_outcome_inv[OF assms])
  fix j t assume "j \<in> set (sq_jobs s)" "lease_held w j" "sq_complete env j (sq_jobs s) = Inr t"
  then show "job_table t \<and> j_id ` set (sq_jobs s) \<subseteq> j_id ` set t"
    by (intro sq_complete_table[OF sq_invD(1)[OF assms]])
qed simp_all

lemma sq_succeed_batch_inv: "sq_inv s \<Longrightarrow> sq_inv (snd (sq_mark_succeeded_batch envs d us w s))"
  unfolding sq_mark_succeeded_batch_def
  by (rule for_each_invariant) (auto intro: sq_succeed_inv)

section \<open>Archiving, replay and streams\<close>

definition archived :: "Job \<Rightarrow> Job" where
  "archived j =
     j\<lparr>j_idempotency_key := None, j_locked_at := None, j_locked_by := None, j_lock_expires_at := None\<rparr>"

lemma archived_sel [simp]:
  "j_id (archived j) = j_id j" "j_status (archived j) = j_status j"
  "j_updated_at (archived j) = j_updated_at j"
  by (simp_all add: archived_def)

lemma col_opt_uuid: "(case opt_uuid a of SUuid u \<Rightarrow> Some u | _ \<Rightarrow> None) = a"
  by (cases a) simp_all

lemma insert_archive:
  "insert_job archive_columns (archive_values j) t =
     (if j_id j \<in> j_id ` set t then Inl (sql_error ''UNIQUE constraint failed: jobs.id'')
      else Inr (t @ [archived j]))"
  by (simp add: insert_job_def archive_columns_def archive_values_def column_defs col_opt_uuid
      job_row_def archived_def key_taken_def Let_def)

definition archive_one :: "Job \<Rightarrow> SqliteBackend \<Rightarrow> SqliteBackend" where
  "archive_one j s =
     s\<lparr>sq_archive := sq_archive s @ [archived j],
       sq_jobs := sql_delete (\<lambda>r. j_id r = j_id j) (sq_jobs s),
       sq_attempts := sql_delete (\<lambda>a. at_job_id a = j_id j) (sq_attempts s)\<rparr>"

lemma sq_archive_loop_Cons:
  "sq_archive_loop (j # js) s =
     (if j_id j \<in> j_id ` set (sq_archive s)
      then (Inl (sql_error ''UNIQUE constraint failed: jobs.id''), s)
      else sq_archive_loop js (archive_one j s))"
  by (simp add: insert_archive archive_one_def)

lemma archive_one_inv:
  assumes "sq_inv s" "j_id j \<notin> j_id ` set (sq_archive s)" "j_status j = ''succeeded''"
  shows "sq_inv (archive_one j s)"
proof -
  have "attempt_table (sql_delete (\<lambda>r. j_id r = j_id j) (sq_jobs s))
      (sql_delete (\<lambda>a. at_job_id a = j_id j) (sq_attempts s))"
    using sq_invD(2)[OF assms(1)]
    by (auto simp: attempt_table_def sql_delete_def list_all_iff distinct_map_filter)
  then show ?thesis
    using assms job_table_delete[OF sq_invD(1)[OF assms(1)]]
    by (auto simp: sq_inv_def archive_one_def archive_table_def event_tables_def)
qed

lemma sq_archive_loop_inv:
  "sq_inv s \<Longrightarrow> \<forall>j \<in> set js. j_status j = ''succeeded'' \<Longrightarrow> sq_archive_loop js s = (Inr r, s') \<Longrightarrow> sq_inv s'"
proof (induction js arbitrary: s)
  case (Cons j js)
  then show ?case unfolding sq_archive_loop_Cons using archive_one_inv[of s j]
    by (auto split: if_splits)
qed simp

lemma sq_archive_inv:
  assumes "sq_inv s"
  shows "sq_inv (snd (sq_archive_succeeded_older_than cutoff limit s))"
  unfolding sq_archive_succeeded_older_than_def
proof (rule transaction_keeps[where P = sq_inv, OF assms])
  fix r s'
  let ?found = "sql_limit limit (filter (\<lambda>r. j_status r = ''succeeded'' \<and> j_updated_at r < cutoff) (sq_jobs s))"
  assume "(let found = ?found in case sq_archive_loop found s of
      (Inl e, s') \<Rightarrow> (Inl e, s') | (Inr _, s') \<Rightarrow> (Inr (length found), s')) = (Inr r, s')"
  then have "sq_archive_loop ?found s = (Inr (), s')"
    by (auto simp: Let_def split: prod.splits sum.splits)
  moreover have "\<forall>j \<in> set ?found. j_status j = ''succeeded''" using set_sql_limit by fastforce
  ultimately show "sq_inv s'" using sq_archive_loop_inv[OF assms] by blast
qed

lemma sq_delete_history_inv:
  "sq_inv s \<Longrightarrow> sq_inv (snd (sq_delete_history_for_succeeded_older_than cutoff limit s))"
  by (auto simp: sq_delete_history_for_succeeded_older_than_def Let_def
      intro!: sq_inv_attempts attempt_table_delete sq_invD(2))

lemma sq_replay_fails:
  "sq_replay_job env i q t s =
     (case row_at j_id (sq_jobs s) i of
        None \<Rightarrow> (Inl (sql_error ''no rows returned by a query that expected one''), s)
      | Some _ \<Rightarrow> (Inl (sql_error ''number of values does not match number of columns''), s))"
  by (simp add: sq_replay_job_def transaction_def insert_job_def bind_columns_def Let_def split: option.split)

lemma sq_replay_inv: "sq_inv s \<Longrightarrow> sq_inv (snd (sq_replay_job env i q t s))"
  by (simp add: sq_replay_fails split: option.split)

lemma sq_publish_inv: "sq_inv s \<Longrightarrow> sq_inv (snd (sq_publish env st e s))"
  by (auto simp: sq_publish_def Let_def sq_inv_def event_tables_def log_sorted_def sorted_wrt_append
      list_all_iff)

lemma sq_prune_inv: "sq_inv s \<Longrightarrow> sq_inv (snd (sq_prune_events st n s))"
  by (auto simp: sq_prune_events_def Let_def sq_inv_def event_tables_def log_sorted_def sql_delete_def
      sorted_wrt_filter list_all_iff)

lemma sq_ack_inv: "sq_inv s \<Longrightarrow> sq_inv (snd (sq_ack env st g n s))"
  by (auto simp: sq_ack_def sq_inv_def event_tables_def find_None_iff offset_row_def)

lemma sq_channel_inv:
  "sq_inv s \<Longrightarrow> sq_inv (snd (sq_subscribe q s))"
  "sq_inv s \<Longrightarrow> sq_inv (snd (sq_subscribe_stream st g m s))"
  "sq_inv s \<Longrightarrow> sq_inv (snd (sq_perform_maintenance env s))"
  by (auto simp: sq_subscribe_def sq_subscribe_stream_def sq_perform_maintenance_def sq_inv_def
      event_tables_def split: option.split)

lemma sq_run_migrations_schema: "\<exists>sc. snd (sq_run_migrations s) = s\<lparr>sq_schema := sc\<rparr>"
  by (auto simp: sq_run_migrations_def split: prod.split)

lemma sq_run_migrations_inv: "sq_inv s \<Longrightarrow> sq_inv (snd (sq_run_migrations s))"
  using sq_run_migrations_schema[of s] by (auto simp: sq_inv_def event_tables_def)

lemmas sq_inv_ops =
  sq_run_migrations_inv
  sq_enqueue_inv sq_enqueue_in_tx_inv sq_lease_inv sq_extend_lease_inv sq_cancel_job_inv
  sq_reap_inv sq_start_inv sq_succeed_inv sq_succeed_batch_inv sq_retry_inv sq_dlq_inv
  sq_archive_inv sq_delete_history_inv sq_replay_inv sq_publish_inv sq_prune_inv sq_ack_inv
  sq_channel_inv

lemma sq_exec_inv: "sq_inv s \<Longrightarrow> sq_inv (snd (sq_exec envs c s))"
proof (cases c)
  case (Trait m)
  assume "sq_inv s"
  then show ?thesis unfolding Trait by (cases m) (simp_all add: sq_inv_ops)
qed (simp_all add: sq_inv_ops)

lemma sq_inv_init [simp]: "sq_inv (sq_with_vacuum_n n)"
  by (simp add: sq_inv_def sq_with_vacuum_n_def job_table_def attempt_table_def archive_table_def
      event_tables_def keys_of_def log_sorted_def)

lemma sq_reachable_inv: "sq_reachable n s \<Longrightarrow> sq_inv s"
  by (induction rule: sq_reachable.induct) (simp_all add: sq_exec_inv)

section \<open>Failed calls change nothing\<close>

text \<open>
  Two calls are not one transaction: the batch of success reports is a loop of single reports,
  and the migration runs its scripts statement by statement.
\<close>

fun single_transaction :: "sq_call \<Rightarrow> bool" where
  "single_transaction (Trait (CSucceedBatch d us w)) = False"
| "single_transaction Migrate = False"
| "single_transaction c = True"

lemma sq_replay_atomic: "snd (sq_replay_job env i q t s) = s"
  by (simp add: sq_replay_fails split: option.split)

lemma forget_Inl: "fst (forget f s) = Inl e \<longleftrightarrow> fst (f s) = Inl e"
  by (auto simp: fst_forget split: sum.split)

lemma statement_results:
  "fst (sq_lease_jobs_batch_with_ordering env q w ls bs policy s) \<noteq> Inl e"
  "fst (sq_extend_lease env i w ls s) \<noteq> Inl e"
  "fst (sq_delete_history_for_succeeded_older_than cutoff limit s) \<noteq> Inl e"
  "fst (sq_subscribe q s) \<noteq> Inl e" "fst (sq_subscribe_stream st g m s) \<noteq> Inl e"
  "fst (sq_publish env st ne s) \<noteq> Inl e" "fst (sq_prune_events st k s) \<noteq> Inl e"
  "fst (sq_ack env st g k s) \<noteq> Inl e" "fst (sq_perform_maintenance env s) \<noteq> Inl e"
  by (auto simp: sq_lease_jobs_batch_with_ordering_def sq_extend_lease_def sq_subscribe_def
      sq_delete_history_for_succeeded_older_than_def sq_subscribe_stream_def sq_publish_def
      sq_prune_events_def sq_ack_def sq_perform_maintenance_def Let_def split: option.split)

lemma statement_atomic:
  "fst (sq_enqueue env job s) = Inl e \<Longrightarrow> snd (sq_enqueue env job s) = s"
  "fst (sq_enqueue_in_tx env job s) = Inl e \<Longrightarrow> snd (sq_enqueue_in_tx env job s) = s"
  "fst (sq_start_attempts_batch env ds is w s) = Inl e \<Longrightarrow> snd (sq_start_attempts_batch env ds is w s) = s"
  by (auto simp: sq_enqueue_stages sq_enqueue_in_tx_stages sq_start_attempts_batch_def
      intro: transaction_atomic split: sum.splits if_splits)

lemmas transaction_defs =
  sq_cancel_job_def sq_reap_expired_locks_def sq_mark_succeeded_def sq_reschedule_for_retry_def
  sq_mark_dlq_def sq_archive_succeeded_older_than_def

lemma sq_exec_atomic:
  assumes "single_transaction c" "fst (sq_exec envs c s) = Inl e"
  shows "snd (sq_exec envs c s) = s"
proof (cases c)
  case (Trait m)
  then show ?thesis
    using assms
    by (cases m)
       (auto simp: forget_Inl statement_results statement_atomic sq_replay_atomic transaction_defs
         intro: transaction_atomic)
qed (use assms in \<open>auto simp: forget_Inl statement_results statement_atomic\<close>)

text \<open>A loop of steps that fail without effect stops in the state after the steps before the failure.\<close>

lemma for_each_fails:
  assumes "\<And>env x s e. fst (step env x s) = Inl e \<Longrightarrow> snd (step env x s) = s"
    and "fst (for_each step envs xs s) = Inl e"
  shows "\<exists>pre x post. xs = pre @ x # post \<and> fst (for_each step envs pre s) = Inr ()
    \<and> snd (for_each step envs xs s) = snd (for_each step envs pre s)"
  using assms(2)
proof (induction xs arbitrary: envs s)
  case (Cons x xs)
  obtain r t where r: "step (envs 0) x s = (r, t)" by fastforce
  show ?case
  proof (cases r)
    case (Inl e')
    then have "t = s" using assms(1)[of "envs 0" x s e'] r by simp
    then show ?thesis using Inl r by (intro exI[of _ "[]"] exI[of _ x] exI[of _ xs]) simp
  next
    case (Inr u)
    then have "fst (for_each step (\<lambda>k. envs (Suc k)) xs t) = Inl e" using Cons.prems r by simp
    from Cons.IH[OF this] obtain pre y post where
      "xs = pre @ y # post" "fst (for_each step (\<lambda>k. envs (Suc k)) pre t) = Inr ()"
      "snd (for_each step (\<lambda>k. envs (Suc k)) xs t) = snd (for_each step (\<lambda>k. envs (Suc k)) pre t)"
      by blast
    then show ?thesis using Inr r by (intro exI[of _ "x # pre"] exI[of _ y] exI[of _ post]) simp
  qed
qed simp

lemma succeed_batch_fails:
  assumes "fst (sq_mark_succeeded_batch envs d us w s) = Inl e"
  shows "\<exists>pre u post. us = pre @ u # post \<and> fst (sq_mark_succeeded_batch envs d pre w s) = Inr ()
    \<and> snd (sq_mark_succeeded_batch envs d us w s) = snd (sq_mark_succeeded_batch envs d pre w s)"
  using assms unfolding sq_mark_succeeded_batch_def
  by (rule for_each_fails[rotated])
     (auto simp: sq_mark_succeeded_def intro: transaction_atomic split: prod.splits)

end
