(* ===== verification/Sqlite_Contract.thy ===== *)
theory Sqlite_Contract
  imports Sqlite_Invariant Memory_Contract
begin

text \<open>
  The SQLite storage satisfies the contract the worker relies on, so what was proved of the
  client once holds for it too.
\<close>

section \<open>The trait object\<close>

definition sqlite_stream :: "SqliteBackend StreamBackend" where
  "sqlite_stream =
     \<lparr>sx_publish = sq_publish, sx_subscribe_stream = sq_subscribe_stream, sx_ack = sq_ack,
      sx_read_events = sq_read_events, sx_prune_events = sq_prune_events,
      sx_consumer_group_info = sq_consumer_group_info\<rparr>"

definition sqlite_backend :: "SqliteBackend StorageBackend" where
  "sqlite_backend =
     \<lparr>sb_capabilities = (\<lambda>_. caps_sqlite),
      sb_as_stream = Some sqlite_stream,
      sb_run_migrations = sq_run_migrations,
      sb_health_check = (\<lambda>s. (Inr (), s)),
      sb_enqueue = sq_enqueue,
      sb_subscribe = sq_subscribe,
      sb_lease_jobs_batch = sq_lease_jobs_batch,
      sb_lease_jobs_batch_with_ordering = sq_lease_jobs_batch_with_ordering,
      sb_reap_expired_locks = sq_reap_expired_locks,
      sb_start_attempts_batch = sq_start_attempts_batch,
      sb_mark_succeeded = sq_mark_succeeded,
      sb_mark_succeeded_batch = sq_mark_succeeded_batch,
      sb_reschedule_for_retry = sq_reschedule_for_retry,
      sb_mark_dlq = sq_mark_dlq,
      sb_archive_succeeded_older_than = sq_archive_succeeded_older_than,
      sb_delete_history_for_succeeded_older_than = sq_delete_history_for_succeeded_older_than,
      sb_perform_maintenance = sq_perform_maintenance,
      sb_extend_lease = sq_extend_lease,
      sb_cancel_job = sq_cancel_job,
      sb_get_job = sq_get_job,
      sb_list_jobs = sq_list_jobs,
      sb_replay_job = sq_replay_job\<rparr>"

section \<open>The abstract view\<close>

definition sq_stored :: "SqliteBackend \<Rightarrow> uuid \<Rightarrow> Job option" where
  "sq_stored s = row_at j_id (sq_jobs s)"

definition sq_opened :: "SqliteBackend \<Rightarrow> uuid \<Rightarrow> uuid option" where
  "sq_opened s x =
     (case row_at at_id (sq_attempts s) x of
        None \<Rightarrow> None
      | Some a \<Rightarrow> if at_status a = ''running'' then Some (at_job_id a) else None)"

definition sq_used :: "SqliteBackend \<Rightarrow> uuid set" where
  "sq_used s = j_id ` set (sq_jobs s) \<union> at_id ` set (sq_attempts s)"

lemma sq_opened_Some:
  "sq_opened s x = Some i \<longleftrightarrow> (\<exists>a. row_at at_id (sq_attempts s) x = Some a \<and> attempt_open i a)"
  by (auto simp: sq_opened_def split: option.splits)

lemma held_by_sq:
  "held_by (sq_stored s) w i \<longleftrightarrow> (\<exists>j. row_at j_id (sq_jobs s) i = Some j \<and> lease_held w j)"
  by (simp add: held_by_def sq_stored_def)

lemma sq_row:
  assumes "sq_inv s" "row_at j_id (sq_jobs s) k = Some j"
  shows "j \<in> set (sq_jobs s)" "j_id j = k" "job_ok j"
  using row_at_SomeD[OF assms(2)] sq_invD(1)[OF assms(1)] by (auto simp: job_table_def list_all_iff)

lemma sq_distinct:
  assumes "sq_inv s"
  shows "distinct (map j_id (sq_jobs s))" "distinct (map at_id (sq_attempts s))"
  using assms by (simp_all add: sq_inv_def job_table_def attempt_table_def)

lemma row_at_set: "sq_inv s \<Longrightarrow> j \<in> set (sq_jobs s) \<Longrightarrow> row_at j_id (sq_jobs s) (j_id j) = Some j"
  using row_at_unique[OF sq_distinct(1)] by simp

text \<open>A lookup after the update of one row.\<close>

lemma row_at_one:
  assumes "distinct (map key t)" "row_at key t i = Some x" "\<And>r. key (f r) = key r"
  shows "row_at key (sql_update (\<lambda>r. r = x) f t) k = (if k = i then Some (f x) else row_at key t k)"
  unfolding update_row[OF assms(1,2), symmetric] row_at_update[where key = key, OF assms(3)]
  using assms(2) by (auto simp: map_option_case dest: row_at_SomeD split: option.split)

section \<open>Leasing\<close>

definition sq_lease_spec ::
  "datetime \<Rightarrow> string \<Rightarrow> int \<Rightarrow> QueueOrdering \<Rightarrow> SqliteBackend \<Rightarrow> Job list" where
  "sq_lease_spec now q bs policy s =
     sql_limit bs (order_sql policy (filter (lease_due now q) (sq_jobs s)))"

lemma candidates_lease_spec:
  "sq_candidates now q bs policy (sq_expire_deadlines now q (sq_jobs s)) = sq_lease_spec now q bs policy s"
proof -
  have "filter (\<lambda>r. j_queue r = q \<and> j_status r = ''queued'' \<and> j_run_at r \<le> now)
      (sq_expire_deadlines now q t) = filter (lease_due now q) t" for t
    by (induction t) (auto simp: sq_expire_deadlines_def sql_update_def lease_due_def deadline_dlq_def)
  then show ?thesis by (simp add: sq_candidates_def sq_lease_spec_def)
qed

lemma sq_lease_spec_mem:
  assumes "j \<in> set (sq_lease_spec now q bs policy s)"
  shows "j \<in> set (sq_jobs s)" "lease_due now q j"
  using assms set_sql_limit unfolding sq_lease_spec_def by fastforce+

lemma sq_lease_spec_ids:
  assumes "sq_inv s"
  shows "distinct (map j_id (sq_lease_spec now q bs policy s))"
proof -
  have "distinct (map j_id (order_sql policy (filter (lease_due now q) (sq_jobs s))))"
    by (rule distinct_order_sql) (simp add: sq_distinct[OF assms])
  then show ?thesis by (simp add: sq_lease_spec_def map_sql_limit distinct_sql_limit)
qed

lemma sq_lease_result:
  "fst (sq_lease_jobs_batch_with_ordering env q w ls bs policy s) =
     Inr (map (lock_job (e_now env) w (e_now env + seconds ls)) (sq_lease_spec (e_now env) q bs policy s))"
  by (simp add: sq_lease_jobs_batch_with_ordering_def Let_def candidates_lease_spec)

lemma sq_lease_table:
  "sq_jobs (snd (sq_lease_jobs_batch_with_ordering env q w ls bs policy s)) =
     sql_update (\<lambda>r. j_id r \<in> j_id ` set (sq_lease_spec (e_now env) q bs policy s))
       (lock_job (e_now env) w (e_now env + seconds ls))
       (sq_expire_deadlines (e_now env) q (sq_jobs s))"
  "sq_attempts (snd (sq_lease_jobs_batch_with_ordering env q w ls bs policy s)) = sq_attempts s"
  by (simp_all add: sq_lease_jobs_batch_with_ordering_def Let_def candidates_lease_spec lease_updates
      sql_update_def)

lemma sq_lease_jobs_after:
  assumes inv: "sq_inv s"
  shows "row_at j_id (sq_jobs (snd (sq_lease_jobs_batch_with_ordering env q w ls bs policy s))) k =
    (case row_at j_id (sq_jobs s) k of
       None \<Rightarrow> None
     | Some j \<Rightarrow> Some
         (if deadline_passed (e_now env) q j then deadline_dlq (e_now env) j
          else if j \<in> set (sq_lease_spec (e_now env) q bs policy s)
            then lock_job (e_now env) w (e_now env + seconds ls) j
          else j))"
proof (cases "row_at j_id (sq_jobs s) k")
  case (Some j)
  let ?js = "sq_lease_spec (e_now env) q bs policy s"
  have in_spec: "j_id j \<in> j_id ` set ?js \<longleftrightarrow> j \<in> set ?js"
  proof
    assume "j_id j \<in> j_id ` set ?js"
    then obtain j' where j': "j' \<in> set ?js" "j_id j = j_id j'" by auto
    then have "row_at j_id (sq_jobs s) (j_id j) = Some j'"
      using row_at_set[OF inv sq_lease_spec_mem(1)[OF j'(1)]] by simp
    then show "j \<in> set ?js" using Some sq_row(2)[OF inv Some] j'(1) by simp
  qed simp
  have not_both: "j \<in> set ?js \<Longrightarrow> \<not> deadline_passed (e_now env) q j"
    using sq_lease_spec_mem(2) by (auto simp: lease_due_def deadline_passed_def)
  have "row_at j_id (sq_expire_deadlines (e_now env) q (sq_jobs s)) k =
      Some (if deadline_passed (e_now env) q j then deadline_dlq (e_now env) j else j)"
    using Some by (auto simp: sq_expire_deadlines_def row_at_update deadline_passed_def)
  then show ?thesis using Some in_spec not_both
    by (auto simp: sq_lease_table row_at_update)
qed (simp add: sq_lease_table row_at_update sq_expire_deadlines_def)

lemma sq_lease_spec_empty:
  assumes "sq_lease_spec now q bs policy s = []" "0 < bs" "j \<in> set (sq_jobs s)"
  shows "\<not> lease_due now q j"
proof -
  have "order_sql policy (filter (lease_due now q) (sq_jobs s)) = []"
    using assms(1,2) by (simp add: sq_lease_spec_def sql_limit_Nil)
  then have "set (filter (lease_due now q) (sq_jobs s)) = {}" by (metis set_order_sql list.set(1))
  then show ?thesis using assms(3) by auto
qed

lemma sq_used_lease:
  "sq_used (snd (sq_lease_jobs_batch_with_ordering env q w ls bs policy s)) = sq_used s"
proof -
  have "j_id ` set (sq_expire_deadlines now q t) = j_id ` set t" for now t
    by (simp only: list.set_map[symmetric] ids_expire)
  then show ?thesis by (simp add: sq_used_def sq_lease_table)
qed

lemma sqlite_lease_law:
  assumes inv: "sq_inv s"
  shows "\<exists>js s'. sq_lease_jobs_batch_with_ordering env q w ls bs policy s = (Inr js, s')
        \<and> sq_inv s' \<and> distinct (map j_id js) \<and> sq_used s' = sq_used s \<and> sq_opened s' = sq_opened s
        \<and> (\<forall>j \<in> set js. sq_stored s' (j_id j) = Some j \<and> held_by (sq_stored s') w (j_id j)
             \<and> (\<exists>old. sq_stored s (j_id j) = Some old \<and> j_status old = ''queued''
                    \<and> j_queue old = q \<and> j_job_type j = j_job_type old
                    \<and> j_recurring_interval_seconds j = j_recurring_interval_seconds old))
        \<and> (\<forall>k. k \<notin> j_id ` set js \<longrightarrow>
             sq_stored s' k = sq_stored s k
             \<or> k \<in> waiting (sq_stored s) q \<and> status_of (sq_stored s') k = Some ''dlq'')
        \<and> (js = [] \<and> 0 < bs \<longrightarrow>
             (\<forall>k j. sq_stored s' k = Some j \<longrightarrow> j_status j = ''queued'' \<longrightarrow> j_queue j = q
                \<longrightarrow> e_now env < j_run_at j))"
proof -
  let ?now = "e_now env"
  let ?lock = "lock_job ?now w (?now + seconds ls)" and ?spec = "sq_lease_spec ?now q bs policy s"
  define s' where "s' = snd (sq_lease_jobs_batch_with_ordering env q w ls bs policy s)"
  have res: "sq_lease_jobs_batch_with_ordering env q w ls bs policy s = (Inr (map ?lock ?spec), s')"
    using sq_lease_result[of env q w ls bs policy s] by (metis s'_def prod.collapse)
  note after = sq_lease_jobs_after[OF inv, of env q w ls bs policy, folded s'_def]
  have "sq_inv s'" using sq_lease_inv[OF inv] by (simp add: s'_def)
  moreover have "distinct (map j_id (map ?lock ?spec))"
    using sq_lease_spec_ids[OF inv] by (simp add: comp_def)
  moreover have "sq_used s' = sq_used s" by (simp add: s'_def sq_used_lease)
  moreover have "sq_opened s' = sq_opened s"
    by (simp add: sq_opened_def s'_def sq_lease_table fun_eq_iff)
  moreover have "sq_stored s' (j_id j) = Some j \<and> held_by (sq_stored s') w (j_id j)
       \<and> (\<exists>old. sq_stored s (j_id j) = Some old \<and> j_status old = ''queued''
              \<and> j_queue old = q \<and> j_job_type j = j_job_type old
              \<and> j_recurring_interval_seconds j = j_recurring_interval_seconds old)"
    if "j \<in> set (map ?lock ?spec)" for j
  proof -
    from that obtain old where old: "old \<in> set ?spec" "j = ?lock old" by auto
    note m = row_at_set[OF inv sq_lease_spec_mem(1)[OF old(1)]] sq_lease_spec_mem(2)[OF old(1)]
    have "row_at j_id (sq_jobs s') (j_id j) = Some j"
      using after[of "j_id j"] m old by (simp add: lease_due_def deadline_passed_def)
    then show ?thesis using m old by (simp add: sq_stored_def held_by_def lease_due_def)
  qed
  moreover have "sq_stored s' k = sq_stored s k
      \<or> k \<in> waiting (sq_stored s) q \<and> status_of (sq_stored s') k = Some ''dlq''"
    if k: "k \<notin> j_id ` set (map ?lock ?spec)" for k
  proof (cases "row_at j_id (sq_jobs s) k")
    case (Some j)
    have "j \<notin> set ?spec"
    proof
      assume "j \<in> set ?spec"
      then have "j_id (?lock j) \<in> j_id ` set (map ?lock ?spec)" by (intro imageI) simp
      then show False using k sq_row(2)[OF inv Some] by simp
    qed
    then show ?thesis
      using after[of k] Some
      by (auto simp: sq_stored_def status_of_def waiting_def deadline_passed_def)
  qed (use after[of k] in \<open>simp add: sq_stored_def\<close>)
  moreover have "?now < j_run_at j"
    if "map ?lock ?spec = []" "0 < bs" "sq_stored s' k = Some j" "j_status j = ''queued''" "j_queue j = q"
    for k j
  proof -
    have empty: "?spec = []" using that(1) by simp
    have m: "row_at j_id (sq_jobs s) k = Some j" "\<not> deadline_passed ?now q j"
      using after[of k] that(3,4) empty
      by (auto simp: sq_stored_def split: option.splits if_splits)
    then show ?thesis
      using sq_lease_spec_empty[OF empty that(2) sq_row(1)[OF inv m(1)]] that(4,5)
      by (auto simp: lease_due_def deadline_passed_def)
  qed
  ultimately show ?thesis using res by blast
qed

section \<open>Starting attempts\<close>

lemma sq_start_loop_ok:
  assumes "sq_inv s" "\<And>i. i \<in> set is \<Longrightarrow> \<exists>j. row_at j_id (sq_jobs s) i = Some j \<and> lease_held w j"
    "inj fresh" "range fresh \<inter> at_id ` set (sq_attempts s) = {}"
  shows "\<exists>rs s'. sq_start_loop now fresh w is s = (Inr rs, s') \<and> map fst rs = is
    \<and> (\<forall>a. row_at at_id (sq_attempts s) a \<noteq> None \<longrightarrow> row_at at_id (sq_attempts s') a = row_at at_id (sq_attempts s) a)
    \<and> (\<forall>(i, a, n) \<in> set rs. row_at at_id (sq_attempts s') a = Some (new_attempt now a i n w))
    \<and> at_id ` set (sq_attempts s') \<subseteq> at_id ` set (sq_attempts s) \<union> range fresh"
  using assms
proof (induction "is" arbitrary: s fresh)
  case Nil
  then show ?case by simp
next
  case (Cons i "is")
  note inv = Cons.prems(1)
  let ?n = "sq_next_attempt_no i (sq_attempts s)" and ?fresh = "\<lambda>k. fresh (Suc k)"
  let ?a = "new_attempt now (fresh 0) i ?n w"
  let ?s = "s\<lparr>sq_attempts := sq_attempts s @ [?a]\<rparr>"
  obtain j where j: "row_at j_id (sq_jobs s) i = Some j" "lease_held w j" using Cons.prems(2)[of i] by auto
  have new: "fresh 0 \<notin> at_id ` set (sq_attempts s)" using Cons.prems(4) by (auto simp: disjoint_iff)
  have "i \<in> j_id ` set (sq_jobs s)" using row_at_SomeD[OF j(1)] by auto
  then have inv': "sq_inv ?s"
    using sq_inv_attempts[OF inv attempt_table_snoc[OF sq_invD(2)[OF inv] new]] by blast
  have held: "\<exists>j. row_at j_id (sq_jobs ?s) i' = Some j \<and> lease_held w j" if "i' \<in> set is" for i'
    using Cons.prems(2)[of i'] that by simp
  have inj: "inj ?fresh" using Cons.prems(3) by (auto intro!: injI dest: injD)
  have "fresh 0 \<notin> range ?fresh" using Cons.prems(3) by (auto dest: injD)
  then have disj: "range ?fresh \<inter> at_id ` set (sq_attempts ?s) = {}"
    using Cons.prems(4) by (auto simp: disjoint_iff)
  from Cons.IH[OF inv' held inj disj] obtain rs s' where IH:
    "sq_start_loop now ?fresh w is ?s = (Inr rs, s')" "map fst rs = is"
    "\<forall>a. row_at at_id (sq_attempts ?s) a \<noteq> None \<longrightarrow> row_at at_id (sq_attempts s') a = row_at at_id (sq_attempts ?s) a"
    "\<forall>(i, a, n) \<in> set rs. row_at at_id (sq_attempts s') a = Some (new_attempt now a i n w)"
    "at_id ` set (sq_attempts s') \<subseteq> at_id ` set (sq_attempts ?s) \<union> range ?fresh" by blast
  have run: "sq_start_loop now fresh w (i # is) s = (Inr ((i, fresh 0, ?n) # rs), s')"
    unfolding start_loop_step[OF sq_invD(1)[OF inv]] using j new IH(1) by (simp add: Let_def)
  have "row_at at_id (sq_attempts ?s) (fresh 0) = Some ?a"
    using row_at_absent[OF new] by (simp add: row_at_snoc)
  then have first: "row_at at_id (sq_attempts s') (fresh 0) = Some ?a" using IH(3) by simp
  have keep: "row_at at_id (sq_attempts s') a = row_at at_id (sq_attempts s) a"
    if "row_at at_id (sq_attempts s) a \<noteq> None" for a
    using that IH(3)[rule_format, of a] by (auto simp: row_at_snoc)
  have ids: "at_id ` set (sq_attempts s') \<subseteq> at_id ` set (sq_attempts s) \<union> range fresh"
    using IH(5) by auto
  have all: "\<forall>(i', a, n) \<in> set ((i, fresh 0, ?n) # rs). row_at at_id (sq_attempts s') a = Some (new_attempt now a i' n w)"
    using first IH(4) by simp
  have fst_ids: "map fst ((i, fresh 0, ?n) # rs) = i # is" using IH(2) by simp
  show ?case
  proof (rule exI[of _ "(i, fresh 0, ?n) # rs"], rule exI[of _ s'], intro conjI)
    show "\<forall>a. row_at at_id (sq_attempts s) a \<noteq> None \<longrightarrow>
        row_at at_id (sq_attempts s') a = row_at at_id (sq_attempts s) a"
      using keep by blast
  qed (rule run fst_ids all ids)+
qed

lemma sqlite_start_law:
  assumes inv: "sq_inv s" and inj: "inj (e_fresh env)" and new: "range (e_fresh env) \<inter> sq_used s = {}"
    and h: "\<forall>i \<in> set is. held_by (sq_stored s) w i"
  shows "\<exists>rs s'. sq_start_attempts_batch env ds is w s = (Inr rs, s')
        \<and> sq_inv s' \<and> map fst rs = is \<and> sq_stored s' = sq_stored s
        \<and> (\<forall>(i, a, n) \<in> set rs. sq_opened s' a = Some i)
        \<and> sq_used s' \<subseteq> sq_used s \<union> range (e_fresh env)"
proof -
  have held: "\<exists>j. row_at j_id (sq_jobs s) i = Some j \<and> lease_held w j" if "i \<in> set is" for i
    using h that by (simp add: held_by_sq)
  have "range (e_fresh env) \<inter> at_id ` set (sq_attempts s) = {}" using new by (auto simp: sq_used_def)
  from sq_start_loop_ok[OF inv held inj this, of "is" "e_now env"] obtain rs s' where r:
    "sq_start_loop (e_now env) (e_fresh env) w is s = (Inr rs, s')" "map fst rs = is"
    "\<forall>(i, a, n) \<in> set rs. row_at at_id (sq_attempts s') a = Some (new_attempt (e_now env) a i n w)"
    "at_id ` set (sq_attempts s') \<subseteq> at_id ` set (sq_attempts s) \<union> range (e_fresh env)" by blast
  have run: "sq_start_attempts_batch env ds is w s = (Inr rs, s')"
    using r(1) by (cases "is") (simp_all add: sq_start_attempts_batch_def transaction_def)
  have s': "sq_inv s'" "sq_jobs s' = sq_jobs s" using sq_start_loop_inv[OF inv r(1)] by simp_all
  have "sq_opened s' a = Some i" if "(i, a, n) \<in> set rs" for i a n
  proof -
    have "row_at at_id (sq_attempts s') a = Some (new_attempt (e_now env) a i n w)" using r(3) that by fast
    then show ?thesis by (simp add: sq_opened_Some)
  qed
  moreover have "sq_used s' \<subseteq> sq_used s \<union> range (e_fresh env)" using r(4) s'(2) by (auto simp: sq_used_def)
  ultimately show ?thesis using run r(2) s' by (auto simp: sq_stored_def)
qed

section \<open>Outcomes\<close>

lemma sq_outcome_runs:
  assumes inv: "sq_inv s" and h: "held_by (sq_stored s) w i" and a: "sq_opened s x = Some i"
  obtains j att where "row_at j_id (sq_jobs s) i = Some j" "lease_held w j"
    "row_at at_id (sq_attempts s) x = Some att" "attempt_open i att"
    "\<And>f g e1 e2 t. g j (sq_jobs s) = Inr t \<Longrightarrow> sq_outcome x i w f g e1 e2 s =
       (Inr (), s\<lparr>sq_jobs := t, sq_attempts := sql_update (\<lambda>r. r = att) f (sq_attempts s)\<rparr>)"
  using h a by (auto simp: held_by_sq sq_opened_Some sq_outcome_def)

text \<open>What an outcome leaves alone.\<close>

lemma sq_outcome_frame:
  assumes inv: "sq_inv s" and att: "row_at at_id (sq_attempts s) x = Some a" "attempt_open i a"
    and f: "\<And>r. at_id (f r) = at_id r"
    and s': "sq_attempts s' = sql_update (\<lambda>r. r = a) f (sq_attempts s)"
  shows "at_id ` set (sq_attempts s') = at_id ` set (sq_attempts s)"
    "k \<noteq> i \<Longrightarrow> sq_opened s x' = Some k \<Longrightarrow> sq_opened s' x' = Some k"
proof -
  show "at_id ` set (sq_attempts s') = at_id ` set (sq_attempts s)"
    unfolding s' by (metis f list.set_map map_key_update)
  have "row_at at_id (sq_attempts s') x' =
      (if x' = x then Some (f a) else row_at at_id (sq_attempts s) x')" for x'
    unfolding s' by (rule row_at_one[OF sq_distinct(2)[OF inv] att(1) f])
  then show "k \<noteq> i \<Longrightarrow> sq_opened s x' = Some k \<Longrightarrow> sq_opened s' x' = Some k"
    using att by (auto simp: sq_opened_def)
qed

lemma sqlite_settle_law:
  assumes inv: "sq_inv s" and h: "held_by (sq_stored s) w i" and a: "sq_opened s x = Some i"
    and f: "\<And>r. at_id (f r) = at_id r" and g: "\<And>r. j_id (g r) = j_id r" "\<And>r. j_status (g r) = st"
    and res: "res = sq_outcome x i w f (\<lambda>j u. Inr (sql_update (\<lambda>r. r = j) g u)) e1 e2 s"
    and keeps: "sq_inv (snd res)"
  shows "\<exists>s'. res = (Inr (), s') \<and> sq_inv s' \<and> status_of (sq_stored s') i = Some st
        \<and> (\<forall>k. k \<noteq> i \<longrightarrow> sq_stored s' k = sq_stored s k)
        \<and> (\<forall>a' k. k \<noteq> i \<longrightarrow> sq_opened s a' = Some k \<longrightarrow> sq_opened s' a' = Some k)
        \<and> sq_used s' = sq_used s"
proof -
  from sq_outcome_runs[OF inv h a] obtain j att where ja: "row_at j_id (sq_jobs s) i = Some j"
    "row_at at_id (sq_attempts s) x = Some att" "attempt_open i att"
    and run: "\<And>f g e1 e2 t. g j (sq_jobs s) = Inr t \<Longrightarrow> sq_outcome x i w f g e1 e2 s =
       (Inr (), s\<lparr>sq_jobs := t, sq_attempts := sql_update (\<lambda>r. r = att) f (sq_attempts s)\<rparr>)" by metis
  define s' where "s' = s\<lparr>sq_jobs := sql_update (\<lambda>r. r = j) g (sq_jobs s),
      sq_attempts := sql_update (\<lambda>r. r = att) f (sq_attempts s)\<rparr>"
  have r: "res = (Inr (), s')" unfolding res s'_def by (rule run) simp
  have jobs: "sq_stored s' k = (if k = i then Some (g j) else sq_stored s k)" for k
    unfolding sq_stored_def s'_def using row_at_one[OF sq_distinct(1)[OF inv] ja(1) g(1)] by simp
  have att: "sq_attempts s' = sql_update (\<lambda>r. r = att) f (sq_attempts s)" by (simp add: s'_def)
  note frame = sq_outcome_frame[OF inv ja(2,3) f att]
  have "sq_used s' = sq_used s" unfolding sq_used_def frame(1) by (simp add: s'_def g(1))
  then show ?thesis using r keeps jobs frame(2) g(2) by (auto simp: status_of_def)
qed

lemma sqlite_retry_law:
  assumes "sq_inv s" "held_by (sq_stored s) w i" "sq_opened s a = Some i"
  shows "\<exists>s'. sq_reschedule_for_retry env i a w l t c m n s = (Inr (), s') \<and> sq_inv s'
        \<and> status_of (sq_stored s') i = Some ''queued''
        \<and> (\<forall>k. k \<noteq> i \<longrightarrow> sq_stored s' k = sq_stored s k)
        \<and> (\<forall>a' k. k \<noteq> i \<longrightarrow> sq_opened s a' = Some k \<longrightarrow> sq_opened s' a' = Some k)
        \<and> sq_used s' = sq_used s"
  by (rule sqlite_settle_law[OF assms _ _ _ sq_retry_stages[OF assms(1)] sq_retry_inv[OF assms(1)]]) simp_all

lemma sqlite_dlq_law:
  assumes "sq_inv s" "held_by (sq_stored s) w i" "sq_opened s a = Some i"
  shows "\<exists>s'. sq_mark_dlq env i a w l r c m n s = (Inr (), s') \<and> sq_inv s'
        \<and> status_of (sq_stored s') i = Some ''dlq''
        \<and> (\<forall>k. k \<noteq> i \<longrightarrow> sq_stored s' k = sq_stored s k)
        \<and> (\<forall>a' k. k \<noteq> i \<longrightarrow> sq_opened s a' = Some k \<longrightarrow> sq_opened s' a' = Some k)
        \<and> sq_used s' = sq_used s"
  by (rule sqlite_settle_law[OF assms _ _ _ sq_dlq_stages[OF assms(1)] sq_dlq_inv[OF assms(1)]]) simp_all

lemma sq_complete_rows:
  assumes inv: "sq_inv s" and j: "row_at j_id (sq_jobs s) i = Some j" and new: "e_fresh env 0 \<notin> j_id ` set (sq_jobs s)"
  shows "\<exists>t. sq_complete env j (sq_jobs s) = Inr t
    \<and> (\<forall>k. row_at j_id t k =
         (if k = i then Some (complete_job_record (e_now env) j)
          else if k = e_fresh env 0
            then map_option (\<lambda>n. next_occurrence (e_now env) (e_fresh env 0) j (max n 1)) (j_recurring_interval_seconds j)
          else row_at j_id (sq_jobs s) k))
    \<and> j_id ` set t = (if j_recurring_interval_seconds j = None then j_id ` set (sq_jobs s)
                      else insert (e_fresh env 0) (j_id ` set (sq_jobs s)))"
proof -
  let ?u = "sql_update (\<lambda>r. r = j) (complete_job_record (e_now env)) (sq_jobs s)"
  have u: "row_at j_id ?u k = (if k = i then Some (complete_job_record (e_now env) j) else row_at j_id (sq_jobs s) k)" for k
    by (rule row_at_one[OF sq_distinct(1)[OF inv] j]) simp
  have ne: "i \<noteq> e_fresh env 0" "row_at j_id (sq_jobs s) (e_fresh env 0) = None"
    using new row_at_SomeD[OF j] by (auto simp: row_at_None image_iff)
  show ?thesis
    using new ne u by (auto simp: sq_complete_def Let_def row_at_snoc split: option.split)
qed

lemma sqlite_succeed_law:
  assumes inv: "sq_inv s" and h: "held_by (sq_stored s) w i" and a: "sq_opened s x = Some i"
    and fresh: "e_fresh env 0 \<notin> sq_used s"
  shows "\<exists>s'. sq_mark_succeeded env i x w l s = (Inr (), s') \<and> sq_inv s'
        \<and> status_of (sq_stored s') i = Some ''succeeded''
        \<and> (\<forall>k. k \<noteq> i \<longrightarrow> k \<noteq> e_fresh env 0 \<longrightarrow> sq_stored s' k = sq_stored s k)
        \<and> (\<forall>j. sq_stored s i = Some j \<longrightarrow> j_recurring_interval_seconds j = None \<longrightarrow> sq_used s' = sq_used s)
        \<and> (\<forall>a' k. k \<noteq> i \<longrightarrow> sq_opened s a' = Some k \<longrightarrow> sq_opened s' a' = Some k)
        \<and> sq_used s' \<subseteq> insert (e_fresh env 0) (sq_used s)"
proof -
  from sq_outcome_runs[OF inv h a] obtain j att where ja: "row_at j_id (sq_jobs s) i = Some j"
    "row_at at_id (sq_attempts s) x = Some att" "attempt_open i att"
    and run: "\<And>f g e1 e2 t. g j (sq_jobs s) = Inr t \<Longrightarrow> sq_outcome x i w f g e1 e2 s =
       (Inr (), s\<lparr>sq_jobs := t, sq_attempts := sql_update (\<lambda>r. r = att) f (sq_attempts s)\<rparr>)" by metis
  have "e_fresh env 0 \<notin> j_id ` set (sq_jobs s)" using fresh by (simp add: sq_used_def)
  from sq_complete_rows[OF inv ja(1) this] obtain t where t: "sq_complete env j (sq_jobs s) = Inr t"
    "\<And>k. row_at j_id t k =
         (if k = i then Some (complete_job_record (e_now env) j)
          else if k = e_fresh env 0
            then map_option (\<lambda>n. next_occurrence (e_now env) (e_fresh env 0) j (max n 1)) (j_recurring_interval_seconds j)
          else row_at j_id (sq_jobs s) k)"
    "j_id ` set t = (if j_recurring_interval_seconds j = None then j_id ` set (sq_jobs s)
                      else insert (e_fresh env 0) (j_id ` set (sq_jobs s)))" by metis
  define s' where "s' = s\<lparr>sq_jobs := t,
      sq_attempts := sql_update (\<lambda>r. r = att) (succeed_attempt_record (e_now env) l) (sq_attempts s)\<rparr>"
  have r: "sq_mark_succeeded env i x w l s = (Inr (), s')"
    unfolding sq_succeed_stages[OF inv] s'_def by (rule run[where g = "sq_complete env", OF t(1)])
  have keeps: "sq_inv s'" using sq_succeed_inv[OF inv, of env i x w l] r by simp
  have att: "sq_attempts s' = sql_update (\<lambda>r. r = att) (succeed_attempt_record (e_now env) l) (sq_attempts s)"
    by (simp add: s'_def)
  have f: "at_id (succeed_attempt_record (e_now env) l r) = at_id r" for r by simp
  note frame = sq_outcome_frame[OF inv ja(2,3) f att]
  have jobs: "sq_jobs s' = t" by (simp add: s'_def)
  have "sq_used s' = (if j_recurring_interval_seconds j = None then sq_used s
      else insert (e_fresh env 0) (sq_used s))"
    unfolding sq_used_def frame(1) jobs t(3) by simp
  then show ?thesis
    using r keeps frame(2) t(2) ja(1) by (auto simp: status_of_def sq_stored_def jobs)
qed

lemma sqlite_extend_law:
  assumes inv: "sq_inv s"
  shows "sq_inv (snd (sq_extend_lease env i w ls s))
        \<and> (\<forall>k. k \<noteq> i \<longrightarrow> sq_stored (snd (sq_extend_lease env i w ls s)) k = sq_stored s k)
        \<and> (\<forall>j. sq_stored s i = Some j \<longrightarrow>
             (\<exists>e u. sq_stored (snd (sq_extend_lease env i w ls s)) i =
                 Some (j\<lparr>j_lock_expires_at := e, j_updated_at := u\<rparr>)))
        \<and> sq_opened (snd (sq_extend_lease env i w ls s)) = sq_opened s
        \<and> sq_used (snd (sq_extend_lease env i w ls s)) = sq_used s"
proof -
  let ?s = "snd (sq_extend_lease env i w ls s)"
  have stored: "sq_stored ?s k = map_option (\<lambda>r. if j_id r = i \<and> j_locked_by r = Some w \<and> j_status r = ''running''
      then r\<lparr>j_lock_expires_at := Some (e_now env + seconds ls), j_updated_at := e_now env\<rparr> else r) (sq_stored s k)" for k
    by (simp add: sq_stored_def sq_extend_lease_def Let_def row_at_update)
  have other: "sq_stored ?s k = sq_stored s k" if "k \<noteq> i" for k
  proof (cases "sq_stored s k")
    case (Some j)
    then have "j_id j = k" using sq_row(2)[OF inv] by (simp add: sq_stored_def)
    then show ?thesis using Some that by (simp add: stored)
  qed (simp add: stored)
  have same: "\<exists>e u. sq_stored ?s i = Some (j\<lparr>j_lock_expires_at := e, j_updated_at := u\<rparr>)"
    if "sq_stored s i = Some j" for j
  proof (cases "j_id j = i \<and> j_locked_by j = Some w \<and> j_status j = ''running''")
    case True
    then show ?thesis using that by (auto simp: stored)
  next
    case False
    then have "sq_stored ?s i = Some j" using that by (auto simp: stored)
    then show ?thesis by (intro exI[of _ "j_lock_expires_at j"] exI[of _ "j_updated_at j"]) simp
  qed
  have "sq_opened ?s = sq_opened s" "sq_used ?s = sq_used s"
    by (simp_all add: sq_opened_def sq_used_def sq_extend_lease_def Let_def fun_eq_iff)
  then show ?thesis using sq_extend_lease_inv[OF inv] other same by blast
qed

section \<open>The contract holds\<close>

interpretation sb: job_backend sqlite_backend sq_inv sq_stored
  "\<lambda>s a i. sq_opened s a = Some i" sq_used "\<lambda>_ _ _. True" "\<lambda>_. True"
proof
  fix s i j env q w ls bs policy s' k
  assume inv: "sq_inv s"
  show "sq_stored s i = Some j \<Longrightarrow> i \<in> sq_used s"
    by (auto simp: sq_stored_def sq_used_def dest: row_at_SomeD)
  show "finite (sq_used s)" by (simp add: sq_used_def)
  show "sb_lease_jobs_batch_with_ordering sqlite_backend env q w ls bs policy s = (Inr [], s') \<Longrightarrow> 0 < bs \<Longrightarrow>
      sq_stored s' k = Some j \<Longrightarrow> j_status j = ''queued'' \<Longrightarrow> j_queue j = q \<Longrightarrow> e_now env < j_run_at j"
    using sqlite_lease_law[OF inv, of env q w ls bs policy] by (auto simp: sqlite_backend_def)
qed (unfold sqlite_backend_def StorageBackend.simps,
     (drule sqlite_lease_law, (elim exE conjE)?, (intro exI conjI; (assumption | simp))?),
     (rule sqlite_start_law sqlite_succeed_law sqlite_retry_law sqlite_dlq_law; assumption)+,
     simp add: sqlite_extend_law)

end
