(* ===== verification/Storage_Agreement.thy ===== *)
theory Storage_Agreement
  imports Sqlite_Contract "HOL-Library.Multiset"
begin

text \<open>
  The in-memory and the SQLite storage side by side. Two states agree when they hold the same
  jobs and the same attempts and will hand out the same attempt numbers. A call of the job
  protocol then gives the same answer on both sides and keeps them in agreement, or fails on
  both sides and changes nothing.
\<close>

section \<open>Answers\<close>

datatype answer =
    ADone
  | AId uuid
  | AFlag bool
  | ACount nat
  | AJobs "Job list"
  | AStarted "(uuid \<times> uuid \<times> int) list"

definition answering :: "('r \<Rightarrow> answer) \<Rightarrow> ('s, 'r) op \<Rightarrow> ('s, answer) op" where
  "answering f body s =
     (case body s of (Inl e, s') \<Rightarrow> (Inl e, s') | (Inr r, s') \<Rightarrow> (Inr (f r), s'))"

datatype job_call =
    JEnqueue NewJob
  | JLease string string int int
  | JReap
  | JStart "string list" "uuid list" string
  | JSucceed uuid uuid string int
  | JRetry uuid uuid string int datetime string string int
  | JDlq uuid uuid string int string string string int
  | JExtend uuid string int
  | JCancel uuid "string option"

text \<open>The call, as a client makes it through the trait object.\<close>

fun call_backend :: "'s StorageBackend \<Rightarrow> Env \<Rightarrow> job_call \<Rightarrow> ('s, answer) op" where
  "call_backend B env (JEnqueue job) = answering AId (sb_enqueue B env job)"
| "call_backend B env (JLease q w ls bs) = answering AJobs (sb_lease_jobs_batch B env q w ls bs)"
| "call_backend B env JReap = answering ACount (sb_reap_expired_locks B env)"
| "call_backend B env (JStart ds is w) = answering AStarted (sb_start_attempts_batch B env ds is w)"
| "call_backend B env (JSucceed i a w l) = answering (\<lambda>_. ADone) (sb_mark_succeeded B env i a w l)"
| "call_backend B env (JRetry i a w l t c m n) =
     answering (\<lambda>_. ADone) (sb_reschedule_for_retry B env i a w l t c m n)"
| "call_backend B env (JDlq i a w l r c m n) =
     answering (\<lambda>_. ADone) (sb_mark_dlq B env i a w l r c m n)"
| "call_backend B env (JExtend i w ls) = answering AFlag (sb_extend_lease B env i w ls)"
| "call_backend B env (JCancel i w) = answering (\<lambda>_. ADone) (sb_cancel_job B env i w)"

text \<open>
  Calls on which the two storages are meant to behave alike: jobs without deadline, timeout
  and recurrence, which SQLite does not store, and batch sizes that are not negative, which
  SQLite reads as no limit.
\<close>

fun shared_call :: "job_call \<Rightarrow> bool" where
  "shared_call (JEnqueue job) \<longleftrightarrow>
     nj_deadline_at job = None \<and> nj_timeout_seconds job = None
     \<and> nj_recurring_interval_seconds job = None"
| "shared_call (JLease q w ls bs) \<longleftrightarrow> 0 \<le> bs"
| "shared_call c \<longleftrightarrow> True"

section \<open>Agreement\<close>

definition running_open :: "MemoryAttempt \<Rightarrow> bool" where
  "running_open a \<longleftrightarrow> (at_status a = ''running'' \<longrightarrow> at_latency_ms a = None)"

definition interval_ok :: "Job \<Rightarrow> bool" where
  "interval_ok j \<longleftrightarrow> (\<forall>n. j_recurring_interval_seconds j = Some n \<longrightarrow> 1 \<le> n)"

definition agree :: "MemoryBackend \<Rightarrow> SqliteBackend \<Rightarrow> bool" where
  "agree m s \<longleftrightarrow>
     mem_inv m \<and> sq_inv s
     \<and> map_of (jobs m) = row_at j_id (sq_jobs s)
     \<and> map_of (attempts m) = row_at at_id (sq_attempts s)
     \<and> (\<forall>i. attempt_count m i + 1 = sq_next_attempt_no i (sq_attempts s))
     \<and> (\<forall>a \<in> set (sq_attempts s). running_open a)
     \<and> (\<forall>j \<in> set (sq_jobs s). interval_ok j)"

text \<open>What one call may do to two states that agree.\<close>

definition step_agrees ::
  "MemoryBackend \<Rightarrow> SqliteBackend \<Rightarrow> (anyhow + 'r) \<times> MemoryBackend \<Rightarrow> (anyhow + 'r) \<times> SqliteBackend \<Rightarrow> bool" where
  "step_agrees m s rm rs \<longleftrightarrow>
     (case (fst rm, fst rs) of
        (Inr a, Inr b) \<Rightarrow> a = b \<and> agree (snd rm) (snd rs)
      | (Inl _, Inl _) \<Rightarrow> snd rs = s \<and> snd rm = m
      | _ \<Rightarrow> False)"

lemma answering_agrees:
  "step_agrees m s (f m) (g s) \<Longrightarrow> step_agrees m s (answering h f m) (answering h g s)"
  by (auto simp: step_agrees_def answering_def split: prod.splits sum.splits)

lemma agreeD:
  assumes "agree m s"
  shows "mem_inv m" "sq_inv s" "map_of (jobs m) k = row_at j_id (sq_jobs s) k"
    "map_of (attempts m) k = row_at at_id (sq_attempts s) k"
    "attempt_count m k + 1 = sq_next_attempt_no k (sq_attempts s)"
    "a \<in> set (sq_attempts s) \<Longrightarrow> running_open a" "j \<in> set (sq_jobs s) \<Longrightarrow> interval_ok j"
  using assms by (simp_all add: agree_def)

lemma agreeI:
  assumes "mem_inv m" "sq_inv s" "\<And>k. map_of (jobs m) k = row_at j_id (sq_jobs s) k"
    "\<And>k. map_of (attempts m) k = row_at at_id (sq_attempts s) k"
    "\<And>k. attempt_count m k + 1 = sq_next_attempt_no k (sq_attempts s)"
    "\<And>a. a \<in> set (sq_attempts s) \<Longrightarrow> running_open a" "\<And>j. j \<in> set (sq_jobs s) \<Longrightarrow> interval_ok j"
  shows "agree m s"
  using assms by (auto simp: agree_def)

lemma next_no_update:
  assumes "\<And>a. at_job_id (f a) = at_job_id a" "\<And>a. at_attempt_no (f a) = at_attempt_no a"
  shows "sq_next_attempt_no i (sql_update P f as) = sq_next_attempt_no i as"
proof -
  have "map at_attempt_no (filter (\<lambda>a. at_job_id a = i) (sql_update P f as)) =
      map at_attempt_no (filter (\<lambda>a. at_job_id a = i) as)"
    by (induction as) (simp_all add: sql_update_def assms)
  then show ?thesis by (simp only: sq_next_attempt_no_def)
qed

lemma next_no_snoc:
  assumes "attempt_table t as"
  shows "sq_next_attempt_no k (as @ [new_attempt now x i (sq_next_attempt_no i as) w]) =
    (if k = i then sq_next_attempt_no i as + 1 else sq_next_attempt_no k as)"
proof (cases "k = i")
  case True
  let ?ns = "map at_attempt_no (filter (\<lambda>a. at_job_id a = i) as)"
  have "n \<le> sq_next_attempt_no i as" if "n \<in> set ?ns" for n
    using that next_no_new(1)[OF assms] by fastforce
  then have "Max (set (?ns @ [sq_next_attempt_no i as])) = sq_next_attempt_no i as"
    by (intro Max_eqI) (auto simp del: set_map)
  then show ?thesis using True by (simp add: sq_next_attempt_no_def[of i "as @ _"])
qed (simp add: sq_next_attempt_no_def)

text \<open>The jobs of the two states, up to order.\<close>

lemma agree_jobs_mset:
  assumes "agree m s"
  shows "mset (hm_values (jobs m)) = mset (sq_jobs s)"
proof -
  have "distinct (hm_values (jobs m))" "distinct (sq_jobs s)"
    using job_ids_distinct(2)[OF agreeD(1)[OF assms]] sq_distinct(1)[OF agreeD(2)[OF assms]]
    by (simp_all add: distinct_map)
  moreover have "j \<in> set (hm_values (jobs m)) \<longleftrightarrow> j \<in> set (sq_jobs s)" for j
    using job_in_values[OF agreeD(1)[OF assms], of j] row_at_mem[OF sq_distinct(1)[OF agreeD(2)[OF assms]], of j]
    by (simp add: agreeD(3)[OF assms])
  ultimately show ?thesis by (subst set_eq_iff_mset_eq_distinct[symmetric]) auto
qed

lemma fifo_order:
  "order_sql Fifo t = sort_key from_job t"
  unfolding order_sql.simps
  by (rule sort_key_same_order)
     (auto simp: less_eq_QueueEntry_def entry_cmp_less_def from_job_def)

lemma agree_lease_spec:
  assumes "agree m s" "0 \<le> bs"
  shows "lease_spec now q (nat (max bs 0)) m = sq_lease_spec now q bs Fifo s"
proof -
  let ?P = "lease_due now q"
  have "mset (filter ?P (hm_values (jobs m))) = mset (filter ?P (sq_jobs s))"
    using agree_jobs_mset[OF assms(1)] by simp
  moreover have "inj_on from_job (set (filter ?P (hm_values (jobs m))))"
  proof (rule inj_onI)
    fix x y assume xy: "x \<in> set (filter ?P (hm_values (jobs m)))" "y \<in> set (filter ?P (hm_values (jobs m)))"
      and "from_job x = from_job y"
    then have "j_id x = j_id y" by (simp add: from_job_def)
    then show "x = y" using xy job_ids_distinct(2)[OF agreeD(1)[OF assms(1)]]
      by (auto simp: distinct_map dest: inj_onD)
  qed
  ultimately have "sort_key from_job (filter ?P (hm_values (jobs m))) = sort_key from_job (filter ?P (sq_jobs s))"
    by (intro sort_key_inj_key_eq) simp_all
  then show ?thesis using assms(2)
    by (simp add: lease_spec_def sq_lease_spec_def sql_limit_def fifo_order del: order_sql.simps)
qed

lemma interval_ok_records [simp]:
  "interval_ok (deadline_dlq now j) = interval_ok j" "interval_ok (lock_job now w e j) = interval_ok j"
  "interval_ok (requeue_job now j) = interval_ok j" "interval_ok ((requeue_job now j)\<lparr>j_run_at := t\<rparr>) = interval_ok j"
  "interval_ok (complete_job_record now j) = interval_ok j" "interval_ok (dlq_job_record now c j) = interval_ok j"
  "interval_ok (cancel_job_record now j) = interval_ok j" "interval_ok (next_occurrence now i j n) = interval_ok j"
  "interval_ok (j\<lparr>j_lock_expires_at := x, j_updated_at := u\<rparr>) = interval_ok j"
  by (simp_all add: interval_ok_def record_defs)

lemma interval_update:
  "\<forall>j \<in> set t. interval_ok j \<Longrightarrow> (\<And>j. interval_ok (f j) = interval_ok j) \<Longrightarrow> \<forall>j \<in> set (sql_update P f t). interval_ok j"
  by (auto simp: sql_update_def)

lemma open_update:
  "\<forall>a \<in> set t. running_open a \<Longrightarrow> (\<And>a. at_status (f a) \<noteq> ''running'') \<Longrightarrow> \<forall>a \<in> set (sql_update P f t). running_open a"
  by (auto simp: sql_update_def running_open_def)

section \<open>Leasing\<close>

lemma agree_lease:
  assumes "agree m s" "0 \<le> bs"
  shows "step_agrees m s (mem_lease_jobs_batch env q w ls bs m) (sq_lease_jobs_batch env q w ls bs s)"
proof -
  note inv = agreeD(1,2)[OF assms(1)]
  let ?m = "mem_lease_jobs_batch_with_ordering env q w ls bs Fifo m"
  let ?s = "sq_lease_jobs_batch_with_ordering env q w ls bs Fifo s"
  have "agree (snd ?m) (snd ?s)"
  proof (rule agreeI)
    show "mem_inv (snd ?m)" using mem_lease_with_ordering_inv[OF inv(1)] .
    show "sq_inv (snd ?s)" using sq_lease_inv[OF inv(2)] .
    show "map_of (jobs (snd ?m)) k = row_at j_id (sq_jobs (snd ?s)) k" for k
      unfolding lease_jobs_after[OF inv(1)] sq_lease_jobs_after[OF inv(2)] agreeD(3)[OF assms(1)]
        agree_lease_spec[OF assms] ..
    show "map_of (attempts (snd ?m)) k = row_at at_id (sq_attempts (snd ?s)) k" for k
      by (simp add: sq_lease_table agreeD(4)[OF assms(1)])
    show "attempt_count (snd ?m) k + 1 = sq_next_attempt_no k (sq_attempts (snd ?s))" for k
      using agreeD(5)[OF assms(1), of k] by (simp add: attempt_count_def sq_lease_table)
    show "running_open a" if "a \<in> set (sq_attempts (snd ?s))" for a
      using that agreeD(6)[OF assms(1)] by (simp add: sq_lease_table)
    have "\<forall>j \<in> set (sq_jobs (snd ?s)). interval_ok j"
      unfolding sq_lease_table sq_expire_deadlines_def
      using agreeD(7)[OF assms(1)] by (intro interval_update) auto
    then show "interval_ok j" if "j \<in> set (sq_jobs (snd ?s))" for j using that by blast
  qed
  then show ?thesis
    by (simp add: step_agrees_def mem_lease_jobs_batch_def sq_lease_jobs_batch_def lease_result[OF inv(1)]
        sq_lease_result agree_lease_spec[OF assms])
qed

section \<open>Enqueue, heartbeat and recovery\<close>

lemma agree_find_key:
  assumes "agree m s" "nj_idempotency_key job = Some key"
  shows "mem_find_idempotent job m = find (\<lambda>r. j_idempotency_key r = Some key) (sq_jobs s)"
proof -
  let ?P = "\<lambda>r. j_idempotency_key r = Some key"
  have same: "set (hm_values (jobs m)) = set (sq_jobs s)"
    using agree_jobs_mset[OF assms(1)] by (metis set_mset_mset)
  have unique: "r = r'" if "r \<in> set (sq_jobs s)" "?P r" "r' \<in> set (sq_jobs s)" "?P r'" for r r'
  proof -
    have "map_of (jobs m) (j_id r) = Some r" "map_of (jobs m) (j_id r') = Some r'"
      using that(1,3) job_in_values[OF agreeD(1)[OF assms(1)]] same by blast+
    then have "j_id r = j_id r'"
      using mem_invD(9)[OF agreeD(1)[OF assms(1)]] that(2,4) unfolding keys_unique_def by blast
    then show ?thesis using \<open>map_of (jobs m) (j_id r) = Some r\<close> \<open>map_of (jobs m) (j_id r') = Some r'\<close>
      by (metis option.inject)
  qed
  show ?thesis
  proof (cases "find ?P (sq_jobs s)")
    case None
    moreover have "find ?P (hm_values (jobs m)) = None" using None by (simp add: find_None_iff same)
    ultimately show ?thesis using assms(2) by (simp add: mem_find_idempotent_def)
  next
    case (Some r)
    note r = find_SomeD[OF Some]
    have "find ?P (hm_values (jobs m)) \<noteq> None" using r by (auto simp: find_None_iff same)
    then obtain r' where r': "find ?P (hm_values (jobs m)) = Some r'" by blast
    then show ?thesis using unique[of r r'] r find_SomeD[OF r'] same Some assms(2)
      by (simp add: mem_find_idempotent_def)
  qed
qed

lemma agree_find:
  assumes "agree m s"
  shows "mem_find_idempotent job m =
    find (\<lambda>r. nj_idempotency_key job \<noteq> None \<and> j_idempotency_key r = nj_idempotency_key job) (sq_jobs s)"
proof (cases "nj_idempotency_key job")
  case None
  have "find (\<lambda>r. False) t = None" for t :: "Job list" by (induction t) simp_all
  then show ?thesis using None by (simp add: mem_find_idempotent_def)
next
  case (Some key)
  then show ?thesis using agree_find_key[OF assms Some] by simp
qed

lemma agree_enqueue:
  assumes a: "agree m s" and fresh: "fresh_env env m" and "shared_call (JEnqueue job)"
  shows "step_agrees m s (mem_enqueue env job m) (sq_enqueue env job s)"
proof (cases "mem_find_idempotent job m")
  case (Some r)
  have "agree m (sq_notify_queue q (s\<lparr>sq_jobs := sq_jobs s\<rparr>))" for q using a by (simp add: agree_def)
  then show ?thesis
    using Some agree_find[OF a, of job]
    by (simp add: step_agrees_def mem_enqueue_def sq_enqueue_stages sq_store_def)
next
  case None
  let ?e = "mem_enqueue_entity env job"
  let ?s = "sq_notify_queue (nj_queue job) (s\<lparr>sq_jobs := sq_jobs s @ [?e]\<rparr>)"
  let ?m = "snd (mem_enqueue env job m)"
  have e: "sq_entity False env job = ?e" using assms(3) by (simp add: sq_entity_def mem_enqueue_entity_def)
  have id: "fresh_id (e_fresh env 0) m" using fresh by (simp add: fresh_env_def)
  then have new: "row_at j_id (sq_jobs s) (e_fresh env 0) = None"
    using agreeD(3)[OF a, of "e_fresh env 0"] by (simp add: fresh_id_def)
  then have run: "sq_enqueue env job s = (Inr (e_fresh env 0), ?s)"
    using agree_find[OF a, of job] None e
    by (simp add: sq_enqueue_stages sq_store_def row_at_None)
  have "agree ?m ?s"
  proof (rule agreeI)
    show "mem_inv ?m" by (rule mem_enqueue_inv[OF agreeD(1)[OF a] id])
    show "sq_inv ?s" using sq_enqueue_inv[OF agreeD(2)[OF a], of env job] run by simp
    show "map_of (jobs ?m) k = row_at j_id (sq_jobs ?s) k" for k
      using None new agreeD(3)[OF a, of k]
      by (auto simp: mem_enqueue_def Let_def row_at_snoc split: option.split)
    show "map_of (attempts ?m) k = row_at at_id (sq_attempts ?s) k" for k
      using None agreeD(4)[OF a, of k] by (simp add: mem_enqueue_def Let_def)
    show "attempt_count ?m k + 1 = sq_next_attempt_no k (sq_attempts ?s)" for k
      using None agreeD(5)[OF a, of k] by (simp add: mem_enqueue_def Let_def attempt_count_def)
    show "interval_ok j" if "j \<in> set (sq_jobs ?s)" for j
      using that agreeD(7)[OF a] assms(3) by (auto simp: interval_ok_def mem_enqueue_entity_def)
  qed (use agreeD(6)[OF a] in simp)
  then show ?thesis using run None by (simp add: step_agrees_def mem_enqueue_def Let_def)
qed

lemma agree_extend:
  assumes a: "agree m s"
  shows "step_agrees m s (mem_extend_lease env i w ls m) (sq_extend_lease env i w ls s)"
proof -
  let ?m = "mem_extend_lease env i w ls m" and ?s = "sq_extend_lease env i w ls s"
  let ?P = "\<lambda>r. j_id r = i \<and> j_locked_by r = Some w \<and> j_status r = ''running''"
  have "rows_affected ?P (sq_jobs s) =
      (case row_at j_id (sq_jobs s) i of None \<Rightarrow> 0 | Some r \<Rightarrow> if j_locked_by r = Some w \<and> j_status r = ''running'' then 1 else 0)"
    by (rule affected_key[OF sq_distinct(1)[OF agreeD(2)[OF a]]])
  then have same: "fst ?m = fst ?s"
    using agreeD(3)[OF a, of i]
    by (auto simp: mem_extend_lease_def sq_extend_lease_def Let_def split: option.split)
  have "agree (snd ?m) (snd ?s)"
  proof (rule agreeI)
    show "mem_inv (snd ?m)" by (rule mem_extend_lease_inv[OF agreeD(1)[OF a]])
    show "sq_inv (snd ?s)" by (rule sq_extend_lease_inv[OF agreeD(2)[OF a]])
    show "map_of (jobs (snd ?m)) k = row_at j_id (sq_jobs (snd ?s)) k" for k
      using agreeD(3)[OF a, of k] agreeD(3)[OF a, of i] sq_row(2)[OF agreeD(2)[OF a]]
      by (auto simp: mem_extend_lease_def sq_extend_lease_def Let_def row_at_update map_option_case split: option.splits)
    show "map_of (attempts (snd ?m)) k = row_at at_id (sq_attempts (snd ?s)) k" for k
      using agreeD(4)[OF a, of k]
      by (simp add: mem_extend_lease_def sq_extend_lease_def Let_def split: option.split)
    have "attempt_counts (snd ?m) = attempt_counts m" "sq_attempts (snd ?s) = sq_attempts s"
      by (simp_all add: mem_extend_lease_def sq_extend_lease_def Let_def split: option.split)
    then show "attempt_count (snd ?m) k + 1 = sq_next_attempt_no k (sq_attempts (snd ?s))" for k
      using agreeD(5)[OF a, of k] by (simp add: attempt_count_def)
    have "\<forall>j \<in> set (sq_jobs (snd ?s)). interval_ok j"
      unfolding sq_extend_lease_def Let_def using agreeD(7)[OF a] by (auto simp: sql_update_def)
    then show "interval_ok j" if "j \<in> set (sq_jobs (snd ?s))" for j using that by blast
  qed (use agreeD(6)[OF a] in \<open>simp add: sq_extend_lease_def Let_def\<close>)
  moreover have "\<exists>b. fst ?s = Inr b" by (simp add: sq_extend_lease_def Let_def)
  ultimately show ?thesis using same by (auto simp: step_agrees_def)
qed

lemma agree_expired:
  assumes "agree m s"
  shows "set (expired_ids now m) = j_id ` set (filter (lease_expired now) (sq_jobs s))"
    "length (expired_ids now m) = length (filter (lease_expired now) (sq_jobs s))"
proof -
  have ms: "mset (filter (lease_expired now) (hm_values (jobs m))) = mset (filter (lease_expired now) (sq_jobs s))"
    using agree_jobs_mset[OF assms] by simp
  from mset_eq_length[OF ms] show "length (expired_ids now m) = length (filter (lease_expired now) (sq_jobs s))"
    by (simp add: expired_ids_def)
  from mset_eq_setD[OF ms] show "set (expired_ids now m) = j_id ` set (filter (lease_expired now) (sq_jobs s))"
    unfolding expired_ids_def set_map by (simp only:)
qed

lemma fail_running:
  "running_open a \<Longrightarrow> at_status a = ''running'' \<Longrightarrow> sq_fail_attempt now c m a = fail_attempt_record now 0 c m a"
  by (simp add: running_open_def sq_fail_attempt_def fail_attempt_record_def)

lemma agree_reap:
  assumes a: "agree m s"
  shows "step_agrees m s (mem_reap_expired_locks env m) (sq_reap_expired_locks env s)"
proof -
  let ?now = "e_now env" and ?m = "mem_reap_expired_locks env m" and ?s = "sq_reap_expired_locks env s"
  note inv = agreeD(1,2)[OF a]
  note sq = sq_reap_stages[OF inv(2), of env, unfolded Let_def]
  have "agree (snd ?m) (snd ?s)"
  proof (rule agreeI)
    show "mem_inv (snd ?m)" by (rule reap_invariant_count(1)[OF inv(1)])
    show "sq_inv (snd ?s)" by (rule sq_reap_inv[OF inv(2)])
    show "map_of (jobs (snd ?m)) k = row_at j_id (sq_jobs (snd ?s)) k" for k
      using agreeD(3)[OF a, of k]
      by (simp add: sq reap_jobs_after[OF inv(1)] row_at_update map_option_case split: option.split)
    show "map_of (attempts (snd ?m)) k = row_at at_id (sq_attempts (snd ?s)) k" for k
    proof (cases "row_at at_id (sq_attempts s) k")
      case (Some x)
      then have "running_open x" using agreeD(6)[OF a] row_at_SomeD[OF Some] by simp
      then show ?thesis using Some agreeD(4)[OF a, of k]
        by (auto simp: sq close_running_def reap_attempts_after row_at_update agree_expired[OF a]
            reap_attempt_def fail_running)
    qed (use agreeD(4)[OF a, of k] in \<open>simp add: sq close_running_def reap_attempts_after row_at_update\<close>)
    have counts: "attempt_counts (snd ?m) = attempt_counts m"
      by (simp add: reap_stages Let_def case_prod_unfold)
    show "attempt_count (snd ?m) k + 1 = sq_next_attempt_no k (sq_attempts (snd ?s))" for k
      using agreeD(5)[OF a, of k] counts by (simp add: sq close_running_def next_no_update attempt_count_def)
    have "\<forall>x \<in> set (sq_attempts (snd ?s)). running_open x"
      unfolding sq snd_conv close_running_def using agreeD(6)[OF a]
      by (simp add: close_running_def) (intro open_update; simp)
    then show "running_open x" if "x \<in> set (sq_attempts (snd ?s))" for x using that by blast
    have "\<forall>j \<in> set (sq_jobs (snd ?s)). interval_ok j"
      using agreeD(7)[OF a] by (simp add: sq) (intro interval_update; simp)
    then show "interval_ok j" if "j \<in> set (sq_jobs (snd ?s))" for j using that by blast
  qed
  then show ?thesis
    by (simp add: step_agrees_def reap_invariant_count(2)[OF inv(1)] sq agree_expired[OF a])
qed

section \<open>Attempts and their outcomes\<close>

lemma agree_record_attempt:
  assumes a: "agree m s" and j: "row_at j_id (sq_jobs s) i = Some j" and new: "map_of (attempts m) x = None"
  shows "agree (record_attempt x i now w m)
    (s\<lparr>sq_attempts := sq_attempts s @ [new_attempt now x i (sq_next_attempt_no i (sq_attempts s)) w]\<rparr>)"
    (is "agree ?m ?s")
proof (rule agreeI)
  note inv = agreeD(1,2)[OF a]
  have x: "row_at at_id (sq_attempts s) x = None" using new agreeD(4)[OF a, of x] by simp
  then have x': "x \<notin> at_id ` set (sq_attempts s)" by (simp add: row_at_None)
  have i: "i \<in> j_id ` set (sq_jobs s)" using row_at_SomeD[OF j] by auto
  show "mem_inv ?m" by (rule mem_inv_record_attempt[OF inv(1) new])
  show "sq_inv ?s" by (rule sq_inv_attempts[OF inv(2) attempt_table_snoc[OF sq_invD(2)[OF inv(2)] x' i]])
  show "map_of (attempts ?m) k = row_at at_id (sq_attempts ?s) k" for k
    using x agreeD(4)[OF a, of k] agreeD(5)[OF a, of i] by (auto simp: row_at_snoc split: option.split)
  show "attempt_count ?m k + 1 = sq_next_attempt_no k (sq_attempts ?s)" for k
    using agreeD(5)[OF a, of k] by (auto simp: next_no_snoc[OF sq_invD(2)[OF inv(2)]])
  show "running_open b" if "b \<in> set (sq_attempts ?s)" for b
    using that agreeD(6)[OF a] by (auto simp: running_open_def new_attempt_def)
qed (use agreeD(3,7)[OF a] in simp_all)

lemma agree_start_loop:
  assumes "agree m s" "inj fresh" "\<And>k. map_of (attempts m) (fresh k) = None"
  shows "case (start_loop now fresh w is m, sq_start_loop now fresh w is s) of
    ((Inr a, m'), (Inr b, s')) \<Rightarrow> a = b \<and> agree m' s'
  | ((Inl _, _), (Inl _, _)) \<Rightarrow> True
  | _ \<Rightarrow> False"
  using assms
proof (induction "is" arbitrary: m s fresh)
  case Nil
  then show ?case by simp
next
  case (Cons i "is")
  note a = Cons.prems(1)
  show ?case
  proof (cases "\<exists>j. row_at j_id (sq_jobs s) i = Some j \<and> lease_held w j")
    case False
    then show ?thesis
      unfolding start_loop_Cons start_loop_step[OF sq_invD(1)[OF agreeD(2)[OF a]]] agreeD(3)[OF a]
      by (auto split: option.split)
  next
    case True
    then obtain j where j: "row_at j_id (sq_jobs s) i = Some j" "lease_held w j" by blast
    let ?m = "record_attempt (fresh 0) i now w m"
    let ?n = "sq_next_attempt_no i (sq_attempts s)"
    let ?s = "s\<lparr>sq_attempts := sq_attempts s @ [new_attempt now (fresh 0) i ?n w]\<rparr>"
    have new: "fresh 0 \<notin> at_id ` set (sq_attempts s)"
      using Cons.prems(3)[of 0] agreeD(4)[OF a, of "fresh 0"] by (simp add: row_at_None)
    have ag: "agree ?m ?s" by (rule agree_record_attempt[OF a j(1) Cons.prems(3)])
    have inj: "inj (\<lambda>k. fresh (Suc k))" using Cons.prems(2) by (auto intro!: injI dest: injD)
    have "map_of (attempts ?m) (fresh (Suc k)) = None" for k
      using Cons.prems(3) injD[OF Cons.prems(2), of "Suc k" 0] by auto
    note IH = Cons.IH[OF ag inj this]
    have n: "attempt_count m i + 1 = ?n" by (rule agreeD(5)[OF a])
    show ?thesis
      using IH j new
      unfolding start_loop_Cons start_loop_step[OF sq_invD(1)[OF agreeD(2)[OF a]]] agreeD(3)[OF a] Let_def n
      by (auto split: prod.splits sum.splits)
  qed
qed

lemma agree_outcome:
  assumes a: "agree m s" and att: "row_at at_id (sq_attempts s) x = Some b"
    and f: "\<And>r. at_id (f r) = at_id r" "\<And>r. at_job_id (f r) = at_job_id r"
      "\<And>r. at_attempt_no (f r) = at_attempt_no r" "\<And>r. at_status (f r) \<noteq> ''running''"
    and m': "mem_inv m'" "\<And>k. map_of (jobs m') k = row_at j_id t k"
      "map_of (attempts m') = (map_of (attempts m))(x \<mapsto> f b)" "attempt_counts m' = attempt_counts m"
    and s': "sq_inv (s\<lparr>sq_jobs := t, sq_attempts := sql_update (\<lambda>r. r = b) f (sq_attempts s)\<rparr>)"
    and t: "\<And>j. j \<in> set t \<Longrightarrow> interval_ok j"
  shows "agree m' (s\<lparr>sq_jobs := t, sq_attempts := sql_update (\<lambda>r. r = b) f (sq_attempts s)\<rparr>)"
proof (rule agreeI)
  show "map_of (attempts m') k = row_at at_id (sq_attempts (s\<lparr>sq_jobs := t,
      sq_attempts := sql_update (\<lambda>r. r = b) f (sq_attempts s)\<rparr>)) k" for k
    using row_at_one[OF sq_distinct(2)[OF agreeD(2)[OF a]] att f(1)] agreeD(4)[OF a, of k] m'(3) by simp
  show "attempt_count m' k + 1 = sq_next_attempt_no k (sq_attempts (s\<lparr>sq_jobs := t,
      sq_attempts := sql_update (\<lambda>r. r = b) f (sq_attempts s)\<rparr>))" for k
    using agreeD(5)[OF a, of k] m'(4) by (simp add: attempt_count_def next_no_update f)
  have "\<forall>r \<in> set (sql_update (\<lambda>r. r = b) f (sq_attempts s)). running_open r"
    using agreeD(6)[OF a] f(4) by (intro open_update) auto
  then show "running_open r" if "r \<in> set (sq_attempts (s\<lparr>sq_jobs := t,
      sq_attempts := sql_update (\<lambda>r. r = b) f (sq_attempts s)\<rparr>))" for r using that by simp
qed (use m' s' t in simp_all)

text \<open>A failed outcome fails on both sides and changes nothing.\<close>

definition outcome_ok :: "SqliteBackend \<Rightarrow> uuid \<Rightarrow> uuid \<Rightarrow> string \<Rightarrow> Job \<Rightarrow> MemoryAttempt \<Rightarrow> bool" where
  "outcome_ok s i x w j b \<longleftrightarrow>
     row_at j_id (sq_jobs s) i = Some j \<and> lease_held w j
     \<and> row_at at_id (sq_attempts s) x = Some b \<and> attempt_open i b"

lemma outcome_fails:
  assumes a: "agree m s" and no: "\<nexists>j b. outcome_ok s i x w j b"
  shows "step_agrees m s (mem_mark_succeeded env i x w l m) (sq_mark_succeeded env i x w l s)"
    "step_agrees m s (mem_reschedule_for_retry env i x w l t c e n m) (sq_reschedule_for_retry env i x w l t c e n s)"
    "step_agrees m s (mem_mark_dlq env i x w l r c e n m) (sq_mark_dlq env i x w l r c e n s)"
proof -
  have sq: "\<exists>err. sq_outcome x i w f g e1 e2 s = (Inl err, s)" for f g e1 e2
    using no by (auto simp: sq_outcome_def outcome_ok_def split: option.split)
  have mem: "\<exists>err. mem_mark_succeeded env i x w l m = (Inl err, m)"
    "\<exists>err. mem_reschedule_for_retry env i x w l t c e n m = (Inl err, m)"
    "\<exists>err. mem_mark_dlq env i x w l r c e n m = (Inl err, m)"
    using no agreeD(3)[OF a, of i] agreeD(4)[OF a, of x]
    by (auto simp: mem_mark_succeeded_def mem_reschedule_for_retry_def mem_mark_dlq_def outcome_ok_def
        Let_def split: option.split)
  note stages = sq_succeed_stages[OF agreeD(2)[OF a]] sq_retry_stages[OF agreeD(2)[OF a]] sq_dlq_stages[OF agreeD(2)[OF a]]
  have both: "step_agrees m s rm rs" if "\<exists>err. rm = (Inl err, m)" "\<exists>err. rs = (Inl err, s)" for rm rs
    using that by (auto simp: step_agrees_def)
  show "step_agrees m s (mem_mark_succeeded env i x w l m) (sq_mark_succeeded env i x w l s)"
    "step_agrees m s (mem_reschedule_for_retry env i x w l t c e n m) (sq_reschedule_for_retry env i x w l t c e n s)"
    "step_agrees m s (mem_mark_dlq env i x w l r c e n m) (sq_mark_dlq env i x w l r c e n s)"
    unfolding stages by (rule both[OF mem(1) sq] both[OF mem(2) sq] both[OF mem(3) sq])+
qed

lemma agree_settled:
  assumes a: "agree m s" and ok: "outcome_ok s i x w j b"
    and f: "\<And>r. at_id (f r) = at_id r" "\<And>r. at_job_id (f r) = at_job_id r"
      "\<And>r. at_attempt_no (f r) = at_attempt_no r" "\<And>r. at_status (f r) \<noteq> ''running''"
    and g: "\<And>r. j_id (g r) = j_id r" "\<And>r. interval_ok (g r) = interval_ok r"
    and m': "mem_inv m'" "map_of (jobs m') = (map_of (jobs m))(i \<mapsto> g j)"
      "map_of (attempts m') = (map_of (attempts m))(x \<mapsto> f b)" "attempt_counts m' = attempt_counts m"
    and rs: "rs = sq_outcome x i w f (\<lambda>j u. Inr (sql_update (\<lambda>r. r = j) g u)) e1 e2 s" "sq_inv (snd rs)"
  shows "step_agrees m s (Inr (), m') rs"
proof -
  let ?s = "s\<lparr>sq_jobs := sql_update (\<lambda>r. r = j) g (sq_jobs s),
              sq_attempts := sql_update (\<lambda>r. r = b) f (sq_attempts s)\<rparr>"
  have run: "rs = (Inr (), ?s)" using ok unfolding rs(1) by (simp add: sq_outcome_def outcome_ok_def)
  have j: "row_at j_id (sq_jobs s) i = Some j" and b: "row_at at_id (sq_attempts s) x = Some b"
    using ok by (simp_all add: outcome_ok_def)
  have "agree m' ?s"
  proof (rule agree_outcome[OF a b f m'(1) _ m'(3,4)])
    show "map_of (jobs m') k = row_at j_id (sql_update (\<lambda>r. r = j) g (sq_jobs s)) k" for k
      using row_at_one[OF sq_distinct(1)[OF agreeD(2)[OF a]] j g(1)] agreeD(3)[OF a, of k] m'(2) by simp
    show "sq_inv ?s" using rs(2) run by simp
    have "\<forall>r \<in> set (sql_update (\<lambda>r. r = j) g (sq_jobs s)). interval_ok r"
      using agreeD(7)[OF a] g(2) by (intro interval_update) auto
    then show "interval_ok r" if "r \<in> set (sql_update (\<lambda>r. r = j) g (sq_jobs s))" for r using that by blast
  qed
  then show ?thesis by (simp add: run step_agrees_def)
qed

lemma agree_retry:
  assumes a: "agree m s"
  shows "step_agrees m s (mem_reschedule_for_retry env i x w l t c e n m) (sq_reschedule_for_retry env i x w l t c e n s)"
proof (cases "\<exists>j b. outcome_ok s i x w j b")
  case True
  then obtain j b where ok: "outcome_ok s i x w j b" by blast
  then have rows: "map_of (jobs m) i = Some j" "map_of (attempts m) x = Some b" "lease_held w j" "attempt_open i b"
    using agreeD(3)[OF a, of i] agreeD(4)[OF a, of x] by (simp_all add: outcome_ok_def)
  define m' where "m' = snd (mem_reschedule_for_retry env i x w l t c e n m)"
  have run: "mem_reschedule_for_retry env i x w l t c e n m = (Inr (), m')"
    and eff: "map_of (jobs m') = (map_of (jobs m))(i \<mapsto> (requeue_job (e_now env) j)\<lparr>j_run_at := t\<rparr>)"
      "map_of (attempts m') = (map_of (attempts m))(x \<mapsto> fail_attempt_record (e_now env) l c e b)"
      "attempt_counts m' = attempt_counts m"
    using rows by (simp_all add: m'_def mem_reschedule_for_retry_def Let_def)
  have "mem_inv m'" unfolding m'_def by (rule mem_reschedule_for_retry_inv[OF agreeD(1)[OF a]])
  then show ?thesis
    unfolding run
    using agree_settled[OF a ok, where f = "fail_attempt_record (e_now env) l c e"
        and g = "\<lambda>r. (requeue_job (e_now env) r)\<lparr>j_run_at := t\<rparr>" and m' = m']
      sq_retry_stages[OF agreeD(2)[OF a]] sq_retry_inv[OF agreeD(2)[OF a]] eff by simp
qed (rule outcome_fails(2)[OF a])

lemma agree_dlq:
  assumes a: "agree m s"
  shows "step_agrees m s (mem_mark_dlq env i x w l r c e n m) (sq_mark_dlq env i x w l r c e n s)"
proof (cases "\<exists>j b. outcome_ok s i x w j b")
  case True
  then obtain j b where ok: "outcome_ok s i x w j b" by blast
  then have rows: "map_of (jobs m) i = Some j" "map_of (attempts m) x = Some b" "lease_held w j" "attempt_open i b"
    using agreeD(3)[OF a, of i] agreeD(4)[OF a, of x] by (simp_all add: outcome_ok_def)
  define m' where "m' = snd (mem_mark_dlq env i x w l r c e n m)"
  have run: "mem_mark_dlq env i x w l r c e n m = (Inr (), m')"
    and eff: "map_of (jobs m') = (map_of (jobs m))(i \<mapsto> dlq_job_record (e_now env) r j)"
      "map_of (attempts m') = (map_of (attempts m))(x \<mapsto> fail_attempt_record (e_now env) l c e b)"
      "attempt_counts m' = attempt_counts m"
    using rows by (simp_all add: m'_def mem_mark_dlq_def Let_def)
  have "mem_inv m'" unfolding m'_def by (rule mem_mark_dlq_inv[OF agreeD(1)[OF a]])
  then show ?thesis
    unfolding run
    using agree_settled[OF a ok, where f = "fail_attempt_record (e_now env) l c e"
        and g = "dlq_job_record (e_now env) r" and m' = m']
      sq_dlq_stages[OF agreeD(2)[OF a]] sq_dlq_inv[OF agreeD(2)[OF a]] eff by simp
qed (rule outcome_fails(3)[OF a])

lemma agree_succeed:
  assumes a: "agree m s" and fresh: "fresh_id (e_fresh env 0) m"
  shows "step_agrees m s (mem_mark_succeeded env i x w l m) (sq_mark_succeeded env i x w l s)"
proof (cases "\<exists>j b. outcome_ok s i x w j b")
  case True
  then obtain j b where ok: "outcome_ok s i x w j b" by blast
  then have rows: "map_of (jobs m) i = Some j" "lease_held w j" "map_of (attempts m) x = Some b" "attempt_open i b"
    using agreeD(3)[OF a, of i] agreeD(4)[OF a, of x] by (simp_all add: outcome_ok_def)
  have j: "row_at j_id (sq_jobs s) i = Some j" and b: "row_at at_id (sq_attempts s) x = Some b"
    using ok by (simp_all add: outcome_ok_def)
  define m' where "m' = snd (mem_mark_succeeded env i x w l m)"
  note eff = memory_succeed_effect[OF rows, of env l, folded m'_def]
  have run: "mem_mark_succeeded env i x w l m = (Inr (), m')" using eff(1) by (metis m'_def prod.collapse)
  have counts: "attempt_counts m' = attempt_counts m"
    using rows by (simp add: m'_def mem_mark_succeeded_def Let_def split: option.split)
  have new: "e_fresh env 0 \<notin> j_id ` set (sq_jobs s)"
    using fresh agreeD(3)[OF a, of "e_fresh env 0"] by (simp add: fresh_id_def row_at_None)
  from sq_complete_rows[OF agreeD(2)[OF a] j new] obtain t where t: "sq_complete env j (sq_jobs s) = Inr t"
    "\<And>k. row_at j_id t k =
         (if k = i then Some (complete_job_record (e_now env) j)
          else if k = e_fresh env 0
            then map_option (\<lambda>n. next_occurrence (e_now env) (e_fresh env 0) j (max n 1)) (j_recurring_interval_seconds j)
          else row_at j_id (sq_jobs s) k)" by metis
  let ?s = "s\<lparr>sq_jobs := t, sq_attempts := sql_update (\<lambda>r. r = b) (succeed_attempt_record (e_now env) l) (sq_attempts s)\<rparr>"
  have srun: "sq_mark_succeeded env i x w l s = (Inr (), ?s)"
    unfolding sq_succeed_stages[OF agreeD(2)[OF a]] using ok t(1) by (simp add: sq_outcome_def outcome_ok_def)
  have iv: "interval_ok j" using agreeD(7)[OF a] row_at_SomeD[OF j] by simp
  have absent: "row_at j_id (sq_jobs s) (e_fresh env 0) = None" using new by (simp add: row_at_None)
  have ne: "i \<noteq> e_fresh env 0" using j absent by auto
  have "agree m' ?s"
  proof (rule agree_outcome[OF a b])
    show "mem_inv m'" unfolding m'_def by (rule mem_mark_succeeded_inv[OF agreeD(1)[OF a] fresh])
    show "map_of (attempts m') = (map_of (attempts m))(x \<mapsto> succeed_attempt_record (e_now env) l b)"
      by (simp add: eff)
    show "map_of (jobs m') k = row_at j_id t k" for k
      using iv absent ne agreeD(3)[OF a, of k] agreeD(3)[OF a, of "e_fresh env 0"]
      by (auto simp: eff t(2) interval_ok_def max_def split: option.split)
    show "sq_inv ?s" using sq_succeed_inv[OF agreeD(2)[OF a], of env i x w l] srun by simp
    show "interval_ok r" if "r \<in> set t" for r
      using that t(1) iv agreeD(7)[OF a]
      by (auto simp: sq_complete_def Let_def sql_update_def split: option.splits if_splits)
  qed (simp_all add: counts)
  then show ?thesis by (simp add: run srun step_agrees_def)
qed (rule outcome_fails(1)[OF a])

section \<open>Cancellation\<close>

lemma sort_key_head:
  assumes "sort_key f xs = y # ys"
  shows "y \<in> set xs" "\<And>z. z \<in> set xs \<Longrightarrow> f y \<le> f z"
proof -
  have "set (sort_key f xs) = set xs" "sorted (map f (sort_key f xs))" by simp_all
  then show "y \<in> set xs" "\<And>z. z \<in> set xs \<Longrightarrow> f y \<le> f z" unfolding assms by auto
qed

lemma latest_running_cases:
  obtains "sq_latest_running i as = []" "\<And>b. b \<in> set as \<Longrightarrow> at_job_id b = i \<Longrightarrow> at_status b \<noteq> ''running''"
  | b where "sq_latest_running i as = [b]" "b \<in> set as" "at_job_id b = i" "at_status b = ''running''"
    "\<And>c. c \<in> set as \<Longrightarrow> at_job_id c = i \<Longrightarrow> at_status c = ''running'' \<Longrightarrow> at_attempt_no c \<le> at_attempt_no b"
proof (cases "sort_key (\<lambda>a. - at_attempt_no a) (filter (\<lambda>a. at_job_id a = i \<and> at_status a = ''running'') as)")
  case Nil
  from arg_cong[OF Nil, of set]
  have "set (filter (\<lambda>a. at_job_id a = i \<and> at_status a = ''running'') as) = {}" by (simp only: set_sort list.set(1))
  then show ?thesis using that(1) Nil by (auto simp: sq_latest_running_def sql_limit_def)
next
  case (Cons b bs)
  note head = sort_key_head[OF Cons]
  show ?thesis
  proof (rule that(2)[of b])
    show "sq_latest_running i as = [b]" using Cons by (simp add: sq_latest_running_def sql_limit_def)
    show "at_attempt_no c \<le> at_attempt_no b"
      if "c \<in> set as" "at_job_id c = i" "at_status c = ''running''" for c
      using head(2)[of c] that by simp
  qed (use head(1) in simp_all)
qed

lemma agree_attempt_unique:
  assumes "sq_inv s" "b \<in> set (sq_attempts s)" "c \<in> set (sq_attempts s)"
    "at_job_id b = at_job_id c" "at_attempt_no b = at_attempt_no c"
  shows "b = c"
  using sq_invD(2)[OF assms(1)] assms(2-)
  by (auto simp: attempt_table_def distinct_map dest: inj_onD)

lemma agree_latest:
  assumes a: "agree m s"
  shows "sq_latest_running i (sq_attempts s) =
    (case latest_open_attempt i m of None \<Rightarrow> [] | Some (k, b) \<Rightarrow> [b])"
    "latest_open_attempt i m = Some (k, b) \<Longrightarrow> row_at at_id (sq_attempts s) k = Some b"
proof -
  note wf = mem_invD(6)[OF agreeD(1)[OF a]]
  have row: "b \<in> set (sq_attempts s) \<longleftrightarrow> map_of (attempts m) (at_id b) = Some b" for b
    using row_at_mem[OF sq_distinct(2)[OF agreeD(2)[OF a]], of b] agreeD(4)[OF a] by simp
  have mem: "map_of (attempts m) k = Some b \<Longrightarrow> b \<in> set (sq_attempts s)" for k b
    using agreeD(4)[OF a, of k] row_at_SomeD[of at_id "sq_attempts s" k b] by simp
  show "latest_open_attempt i m = Some (k, b) \<Longrightarrow> row_at at_id (sq_attempts s) k = Some b"
    using latest_open_attempt_Some(1)[OF wf] agreeD(4)[OF a, of k] by simp
  show "sq_latest_running i (sq_attempts s) = (case latest_open_attempt i m of None \<Rightarrow> [] | Some (k, b) \<Rightarrow> [b])"
  proof (cases "latest_open_attempt i m")
    case None
    then have "at_status b \<noteq> ''running''" if "b \<in> set (sq_attempts s)" "at_job_id b = i" for b
      using that row latest_open_attempt_None[OF wf, of i] by blast
    then show ?thesis using None by (cases rule: latest_running_cases[of i "sq_attempts s"]) auto
  next
    case (Some kb)
    then obtain k b where kb: "latest_open_attempt i m = Some (k, b)" by (cases kb) simp
    note l = latest_open_attempt_Some[OF wf kb]
    show ?thesis
    proof (cases rule: latest_running_cases[of i "sq_attempts s"])
      case 1
      then show ?thesis using l mem by blast
    next
      case (2 c)
      have "at_attempt_no b \<le> at_attempt_no c" using 2(5)[OF mem[OF l(1)] l(2,3)] .
      moreover have "at_attempt_no c \<le> at_attempt_no b" using l(4)[of "at_id c" c] row[of c] 2 by simp
      ultimately have "b = c"
        using agree_attempt_unique[OF agreeD(2)[OF a] mem[OF l(1)] 2(2)] l(2) 2(3) by simp
      then show ?thesis using 2(1) kb by simp
    qed
  qed
qed

lemma agree_cancel:
  assumes a: "agree m s"
  shows "step_agrees m s (mem_cancel_job env i w m) (sq_cancel_job env i w s)"
proof (cases "row_at j_id (sq_jobs s) i")
  case None
  then show ?thesis using agreeD(3)[OF a, of i] by (simp add: step_agrees_def cancel_stages sq_cancel_stages)
next
  case (Some j)
  show ?thesis
  proof (cases "cancel_guard i w j")
    case None
    let ?m = "snd (mem_cancel_job env i w m)" and ?s = "snd (sq_cancel_job env i w s)"
    note unfold = cancel_stages sq_cancel_stages agreeD(3)[OF a] Some None
    have st: "j_status j = ''queued'' \<or> j_status j = ''running''" using None by (auto simp: cancel_guard_None)
    have "agree ?m ?s"
    proof (rule agreeI)
      show "mem_inv ?m" by (rule mem_cancel_job_inv[OF agreeD(1)[OF a]])
      show "sq_inv ?s" by (rule sq_cancel_job_inv[OF agreeD(2)[OF a]])
      show "map_of (jobs ?m) k = row_at j_id (sq_jobs ?s) k" for k
        using agreeD(3)[OF a, of k] sq_row(2)[OF agreeD(2)[OF a], of k] Some
        by (auto simp: unfold row_at_update map_option_case split: option.split)
      have latest: "cancel_attempts (e_now env) i j (sq_attempts s) =
          (case latest_open_attempt i m of
             Some (k, b) \<Rightarrow> if j_status j = ''running''
               then sql_update (\<lambda>r. r = b) (fail_attempt_record (e_now env) 0 ''CANCELLED'' ''job cancelled'') (sq_attempts s)
               else sq_attempts s
           | None \<Rightarrow> sq_attempts s)"
      proof (cases "latest_open_attempt i m")
        case None
        then show ?thesis by (simp add: cancel_attempts_def agree_latest(1)[OF a] update_none)
      next
        case (Some kb)
        then obtain k b where kb: "latest_open_attempt i m = Some (k, b)" by (cases kb) simp
        note row = agree_latest(2)[OF a kb]
        have "running_open b" "at_status b = ''running''" "at_id b = k"
          using agreeD(6)[OF a] row_at_SomeD[OF row] latest_open_attempt_Some(3)[OF mem_invD(6)[OF agreeD(1)[OF a]] kb] by auto
        then show ?thesis
          using kb update_row[OF sq_distinct(2)[OF agreeD(2)[OF a]] row]
          by (simp add: cancel_attempts_def agree_latest(1)[OF a]) (simp add: sql_update_def fail_running)
      qed
      show "map_of (attempts ?m) k = row_at at_id (sq_attempts ?s) k" for k
      proof (cases "j_status j = ''running''")
        case False
        then show ?thesis using st agreeD(4)[OF a, of k] by (simp add: unfold cancel_attempts_def)
      next
        case True
        show ?thesis
        proof (cases "latest_open_attempt i m")
          case None
          then show ?thesis using True agreeD(4)[OF a, of k] by (simp add: unfold latest close_latest_def)
        next
          case (Some kb)
          then obtain k' b where kb: "latest_open_attempt i m = Some (k', b)" by (cases kb) simp
          have "row_at at_id (sql_update (\<lambda>r. r = b) (fail_attempt_record (e_now env) 0 ''CANCELLED'' ''job cancelled'')
              (sq_attempts s)) k = (if k = k' then Some (fail_attempt_record (e_now env) 0 ''CANCELLED'' ''job cancelled'' b)
                else row_at at_id (sq_attempts s) k)"
            by (rule row_at_one[OF sq_distinct(2)[OF agreeD(2)[OF a]] agree_latest(2)[OF a kb]]) simp
          then show ?thesis using True kb agreeD(4)[OF a, of k] by (simp add: unfold latest close_latest_def)
        qed
      qed
      have "attempt_counts ?m = attempt_counts m"
        by (simp add: unfold close_latest_def split: option.split)
      then show "attempt_count ?m k + 1 = sq_next_attempt_no k (sq_attempts ?s)" for k
        using agreeD(5)[OF a, of k]
        by (simp add: unfold attempt_count_def cancel_attempts_def next_no_update)
      show "running_open b" if "b \<in> set (sq_attempts ?s)" for b
        using that agreeD(6)[OF a] by (auto simp: unfold cancel_attempts_def sql_update_def running_open_def split: if_splits)
      show "interval_ok r" if "r \<in> set (sq_jobs ?s)" for r
        using that agreeD(7)[OF a] by (auto simp: unfold sql_update_def)
    qed
    then show ?thesis using Some None agreeD(3)[OF a, of i]
      by (simp add: step_agrees_def cancel_stages sq_cancel_stages)
  next
    case (Some e)
    then show ?thesis using \<open>row_at j_id (sq_jobs s) i = Some j\<close> agreeD(3)[OF a, of i]
      by (simp add: step_agrees_def cancel_stages sq_cancel_stages)
  qed
qed

section \<open>Steps and runs\<close>

text \<open>
  A batch of attempts that cannot all start is the one exception: SQLite rolls the whole batch
  back, the in-memory storage keeps the attempts it started before the failure.
\<close>

fun starts :: "job_call \<Rightarrow> bool" where
  "starts (JStart ds is w) = True"
| "starts c = False"

lemma agree_start:
  assumes a: "agree m s" and fresh: "fresh_env env m"
    and ok: "\<exists>r. fst (mem_start_attempts_batch env ds is w m) = Inr r"
  shows "step_agrees m s (mem_start_attempts_batch env ds is w m) (sq_start_attempts_batch env ds is w s)"
proof (cases "is = []")
  case True
  then show ?thesis using a by (simp add: step_agrees_def mem_start_attempts_batch_def sq_start_attempts_batch_def)
next
  case False
  have "inj (e_fresh env)" "\<And>k. map_of (attempts m) (e_fresh env k) = None"
    using fresh by (simp_all add: fresh_env_def fresh_id_def)
  from agree_start_loop[OF a this, of "e_now env" w "is"] ok False show ?thesis
    by (auto simp: step_agrees_def mem_start_attempts_batch_def sq_start_attempts_batch_def transaction_def
        split: prod.splits sum.splits)
qed

lemma agree_start_error:
  assumes a: "agree m s" and fresh: "fresh_env env m"
    and err: "fst (mem_start_attempts_batch env ds is w m) = Inl e"
  shows "\<exists>e'. sq_start_attempts_batch env ds is w s = (Inl e', s)"
proof -
  have ne: "is \<noteq> []" using err by (auto simp: mem_start_attempts_batch_def)
  have "inj (e_fresh env)" "\<And>k. map_of (attempts m) (e_fresh env k) = None"
    using fresh by (simp_all add: fresh_env_def fresh_id_def)
  from agree_start_loop[OF a this, of "e_now env" w "is"] err ne show ?thesis
    by (auto simp: mem_start_attempts_batch_def sq_start_attempts_batch_def transaction_def
        split: prod.splits sum.splits)
qed

lemma backend_simps:
  "sb_enqueue memory_backend = mem_enqueue" "sb_enqueue sqlite_backend = sq_enqueue"
  "sb_lease_jobs_batch memory_backend = mem_lease_jobs_batch"
  "sb_lease_jobs_batch sqlite_backend = sq_lease_jobs_batch"
  "sb_reap_expired_locks memory_backend = mem_reap_expired_locks"
  "sb_reap_expired_locks sqlite_backend = sq_reap_expired_locks"
  "sb_start_attempts_batch memory_backend = mem_start_attempts_batch"
  "sb_start_attempts_batch sqlite_backend = sq_start_attempts_batch"
  "sb_mark_succeeded memory_backend = mem_mark_succeeded"
  "sb_mark_succeeded sqlite_backend = sq_mark_succeeded"
  "sb_reschedule_for_retry memory_backend = mem_reschedule_for_retry"
  "sb_reschedule_for_retry sqlite_backend = sq_reschedule_for_retry"
  "sb_mark_dlq memory_backend = mem_mark_dlq" "sb_mark_dlq sqlite_backend = sq_mark_dlq"
  "sb_extend_lease memory_backend = mem_extend_lease"
  "sb_extend_lease sqlite_backend = sq_extend_lease"
  "sb_cancel_job memory_backend = mem_cancel_job" "sb_cancel_job sqlite_backend = sq_cancel_job"
  by (simp_all add: memory_backend_def sqlite_backend_def)

lemma call_agrees:
  assumes a: "agree m s" and fresh: "fresh_env env m" and c: "shared_call c"
    and ok: "starts c \<Longrightarrow> \<exists>r. fst (call_backend memory_backend env c m) = Inr r"
  shows "step_agrees m s (call_backend memory_backend env c m) (call_backend sqlite_backend env c s)"
proof (cases c)
  case (JStart ds "is" w)
  have "\<exists>r. fst (mem_start_attempts_batch env ds is w m) = Inr r"
    using ok unfolding JStart by (auto simp: answering_def backend_simps split: prod.splits sum.splits)
  then show ?thesis unfolding JStart call_backend.simps backend_simps
    by (intro answering_agrees agree_start[OF a fresh])
next
  case (JLease q w ls bs)
  then show ?thesis using c agree_lease[OF a] by (simp add: backend_simps answering_agrees)
next
  case (JEnqueue job)
  then show ?thesis using c agree_enqueue[OF a fresh] by (simp add: backend_simps answering_agrees)
qed (use agree_reap[OF a] agree_extend[OF a] agree_cancel[OF a] agree_retry[OF a] agree_dlq[OF a]
      agree_succeed[OF a] fresh in \<open>simp_all add: backend_simps answering_agrees fresh_env_def\<close>)

text \<open>A run of calls, and the answers it gives; an error is reported as no answer.\<close>

fun answers :: "'s StorageBackend \<Rightarrow> (Env \<times> job_call) list \<Rightarrow> 's \<Rightarrow> answer option list" where
  "answers B [] s = []"
| "answers B ((env, c) # cs) s =
     (case call_backend B env c s of
        (Inl _, s') \<Rightarrow> None # answers B cs s'
      | (Inr r, s') \<Rightarrow> Some r # answers B cs s')"

fun final :: "'s StorageBackend \<Rightarrow> (Env \<times> job_call) list \<Rightarrow> 's \<Rightarrow> 's" where
  "final B [] s = s"
| "final B ((env, c) # cs) s = final B cs (snd (call_backend B env c s))"

text \<open>Fresh identifiers at every call, shared calls only, and no batch of attempts that fails.\<close>

fun regular_run :: "(Env \<times> job_call) list \<Rightarrow> MemoryBackend \<Rightarrow> bool" where
  "regular_run [] m \<longleftrightarrow> True"
| "regular_run ((env, c) # cs) m \<longleftrightarrow>
     fresh_env env m \<and> shared_call c
     \<and> (starts c \<longrightarrow> \<not> isl (fst (call_backend memory_backend env c m)))
     \<and> regular_run cs (snd (call_backend memory_backend env c m))"

lemma run_agrees:
  assumes "agree m s" "regular_run cs m"
  shows "answers memory_backend cs m = answers sqlite_backend cs s
    \<and> agree (final memory_backend cs m) (final sqlite_backend cs s)"
  using assms
proof (induction cs arbitrary: m s)
  case (Cons ec cs)
  obtain env c where ec: "ec = (env, c)" by (cases ec)
  have reg: "fresh_env env m" "shared_call c" "regular_run cs (snd (call_backend memory_backend env c m))"
    using Cons.prems(2) ec by simp_all
  have "\<exists>r. fst (call_backend memory_backend env c m) = Inr r" if "starts c"
    using Cons.prems(2) ec that by (cases "fst (call_backend memory_backend env c m)") auto
  from call_agrees[OF Cons.prems(1) reg(1,2) this]
  have step: "step_agrees m s (call_backend memory_backend env c m) (call_backend sqlite_backend env c s)" .
  have "agree (snd (call_backend memory_backend env c m)) (snd (call_backend sqlite_backend env c s))"
    using step Cons.prems(1) by (auto simp: step_agrees_def split: sum.splits)
  from Cons.IH[OF this reg(3)] step show ?case
    unfolding ec by (auto simp: step_agrees_def split: prod.splits sum.splits)
qed simp

lemma agree_new: "agree mem_new (sq_with_vacuum_n n)"
proof (rule agreeI)
  show "map_of (jobs mem_new) k = row_at j_id (sq_jobs (sq_with_vacuum_n n)) k"
    "map_of (attempts mem_new) k = row_at at_id (sq_attempts (sq_with_vacuum_n n)) k"
    "attempt_count mem_new k + 1 = sq_next_attempt_no k (sq_attempts (sq_with_vacuum_n n))" for k
    by (simp_all add: mem_new_def sq_with_vacuum_n_def attempt_count_def sq_next_attempt_no_def)
qed (simp_all, simp_all add: sq_with_vacuum_n_def)

end
