(* ===== verification/Sql_Streams.thy ===== *)
theory Sql_Streams
  imports Sql_Tables Stream_Contract
begin

text \<open>
  Event streams in two tables, one for the events of all streams and one for the offsets of
  consumer groups: what the statements of the relational storages on them mean for the log of
  a stream and for the offset of a group.
\<close>

definition log_of :: "Event list \<Rightarrow> string \<Rightarrow> Event list" where
  "log_of events st = filter (\<lambda>e. ev_stream_name e = st) events"

definition offset_entry :: "string \<Rightarrow> string \<Rightarrow> ConsumerGroupStatus \<Rightarrow> bool" where
  "offset_entry st g r \<longleftrightarrow> cg_stream_name r = st \<and> cg_consumer_group r = g"

definition acked_of :: "ConsumerGroupStatus list \<Rightarrow> string \<Rightarrow> string \<Rightarrow> int option" where
  "acked_of offsets st g = map_option cg_last_acked_seq (find (offset_entry st g) offsets)"

definition raise_offset ::
  "datetime \<Rightarrow> string \<Rightarrow> string \<Rightarrow> int \<Rightarrow> ConsumerGroupStatus list \<Rightarrow> ConsumerGroupStatus list" where
  "raise_offset now st g n offsets =
     (if find (offset_entry st g) offsets = None
      then offsets @ [\<lparr>cg_consumer_group = g, cg_stream_name = st, cg_last_acked_seq = n, cg_updated_at = now\<rparr>]
      else sql_update (offset_entry st g)
        (\<lambda>r. r\<lparr>cg_last_acked_seq := max (cg_last_acked_seq r) n, cg_updated_at := now\<rparr>) offsets)"

definition lowest_offset :: "string \<Rightarrow> int \<Rightarrow> ConsumerGroupStatus list \<Rightarrow> int" where
  "lowest_offset st n offsets =
     (let acked = map cg_last_acked_seq (filter (\<lambda>r. cg_stream_name r = st) offsets)
      in min n (if acked = [] then n else Min (set acked)))"

section \<open>Reading\<close>

lemma log_of_sorted:
  "sorted_wrt (\<lambda>a b. ev_sequence_no a < ev_sequence_no b) events \<Longrightarrow> log_sorted (log_of events st)"
  by (simp add: log_of_def log_sorted_def sorted_wrt_filter)

text \<open>The result of the query is in the order of the sequence numbers already.\<close>

lemma read_query:
  assumes "log_sorted (log_of events st)"
  shows "sql_limit (clamp 1 1000 limit)
      (sort_key ev_sequence_no (filter (\<lambda>r. ev_stream_name r = st \<and> ev_sequence_no r > n) events)) =
    take (read_limit limit) (after_seq n (log_of events st))"
proof -
  have eq: "filter (\<lambda>r. ev_stream_name r = st \<and> n < seq r) events = after_seq n (log_of events st)"
    by (simp add: after_seq_def log_of_def conj_commute)
  have "log_sorted (after_seq n (log_of events st))" using assms by simp
  then have "sort_key seq (after_seq n (log_of events st)) = after_seq n (log_of events st)"
    unfolding log_sorted_def by (rule sort_key_strict)
  then show ?thesis
    using clamp_range[of 1 1000 limit] by (simp add: eq sql_limit_def read_limit_def)
qed

lemma info_query:
  "map_option cg_last_acked_seq (find (\<lambda>c. cg_consumer_group c = g)
      (filter (\<lambda>r. cg_stream_name r = st) offsets)) = acked_of offsets st g"
proof -
  have "find (\<lambda>c. cg_consumer_group c = g) (filter (\<lambda>r. cg_stream_name r = st) cs) = find (offset_entry st g) cs" for cs
    by (induction cs) (auto simp: offset_entry_def)
  then show ?thesis by (simp add: acked_of_def)
qed

section \<open>Acknowledging\<close>

lemma find_raised:
  "find (offset_entry st' g') (sql_update (offset_entry st g)
      (\<lambda>r. r\<lparr>cg_last_acked_seq := max (cg_last_acked_seq r) n, cg_updated_at := now\<rparr>) offsets) =
   map_option (\<lambda>r. if offset_entry st g r then r\<lparr>cg_last_acked_seq := max (cg_last_acked_seq r) n,
      cg_updated_at := now\<rparr> else r) (find (offset_entry st' g') offsets)"
  by (rule find_update) (simp add: offset_entry_def)

lemma offset_entry_new:
  "offset_entry st' g' \<lparr>cg_consumer_group = g, cg_stream_name = st, cg_last_acked_seq = n, cg_updated_at = now\<rparr>
   \<longleftrightarrow> (st', g') = (st, g)"
  by (auto simp: offset_entry_def)

lemma acked_raised:
  "acked_of (raise_offset now st g n offsets) st g =
     Some (case acked_of offsets st g of None \<Rightarrow> n | Some m \<Rightarrow> max m n)"
proof (cases "find (offset_entry st g) offsets")
  case None
  then show ?thesis by (simp add: raise_offset_def acked_of_def find_append offset_entry_new)
next
  case (Some r)
  then show ?thesis using find_SomeD[OF Some] by (simp add: raise_offset_def acked_of_def find_raised)
qed

lemma acked_raised_other:
  assumes ne: "(st', g') \<noteq> (st, g)"
  shows "acked_of (raise_offset now st g n offsets) st' g' = acked_of offsets st' g'"
proof (cases "find (offset_entry st g) offsets")
  case None
  then show ?thesis using ne
    by (auto simp: raise_offset_def acked_of_def find_append offset_entry_new split: option.split)
next
  case (Some r)
  have "\<not> offset_entry st g c" if "find (offset_entry st' g') offsets = Some c" for c
    using find_SomeD[OF that] ne by (auto simp: offset_entry_def)
  then show ?thesis
    using Some by (auto simp: raise_offset_def acked_of_def find_raised map_option_case split: option.split)
qed

section \<open>Publishing and pruning\<close>

lemma log_of_publish:
  "log_of (events @ [e]) = (log_of events)(ev_stream_name e := log_of events (ev_stream_name e) @ [e])"
  by (auto simp: log_of_def fun_eq_iff)

lemma lowest_offset_le: "lowest_offset st n offsets \<le> n"
  by (simp add: lowest_offset_def Let_def)

lemma lowest_offset_acked:
  assumes "acked_of offsets st g = Some m"
  shows "lowest_offset st n offsets \<le> m"
proof -
  from assms obtain c where c: "find (offset_entry st g) offsets = Some c" "cg_last_acked_seq c = m"
    by (auto simp: acked_of_def)
  then have "c \<in> set (filter (\<lambda>r. cg_stream_name r = st) offsets)"
    using find_SomeD[OF c(1)] by (simp add: offset_entry_def)
  then show ?thesis
    using c(2) by (auto simp: lowest_offset_def Let_def filter_empty_conv intro!: min.coboundedI2 Min_le)
qed

lemma log_of_prune:
  "log_of (sql_delete (\<lambda>r. ev_stream_name r = st \<and> ev_sequence_no r \<le> c) events) =
     (log_of events)(st := after_seq c (log_of events st))"
  by (auto simp: log_of_def sql_delete_def after_seq_def fun_eq_iff intro!: filter_cong)

lemma prune_count:
  "rows_affected (\<lambda>r. ev_stream_name r = st \<and> ev_sequence_no r \<le> c) events =
     length (log_of events st) - length (after_seq c (log_of events st))"
proof -
  have "length (filter (\<lambda>r. ev_stream_name r = st \<and> seq r \<le> c) es)
      + length (after_seq c (filter (\<lambda>r. ev_stream_name r = st) es)) =
      length (filter (\<lambda>r. ev_stream_name r = st) es)" for es
    unfolding after_seq_def by (induction es) auto
  from this[of events] show ?thesis unfolding rows_affected_def log_of_def by linarith
qed

end
