(* ===== verification/Sqlite_Streams.thy ===== *)
theory Sqlite_Streams
  imports Sqlite_Contract Sql_Streams
begin

text \<open>
  The event streams of the SQLite storage satisfy the stream contract. One sequence numbers
  the events of all streams and never goes back, so the events of a stream are always in
  the order of their numbers, and an event published after a prune is not mistaken for one
  that was acknowledged.
\<close>

definition sq_log :: "SqliteBackend \<Rightarrow> string \<Rightarrow> Event list" where
  "sq_log s = log_of (sq_events s)"

definition sq_acked :: "SqliteBackend \<Rightarrow> string \<Rightarrow> string \<Rightarrow> int option" where
  "sq_acked s = acked_of (sq_offsets s)"

lemma sq_log_sorted: "sq_inv s \<Longrightarrow> log_sorted (sq_log s st)"
  by (simp add: sq_inv_def event_tables_def sq_log_def log_sorted_def log_of_def sorted_wrt_filter)

lemma sq_offset_rows: "offset_row = offset_entry"
  by (simp add: fun_eq_iff offset_row_def offset_entry_def)

lemma sq_publish_effect:
  "fst (sq_publish env st ne s) = Inr (sq_sequence s + 1)"
  "sq_log (snd (sq_publish env st ne s)) =
     (sq_log s)(st := sq_log s st @
       [\<lparr>ev_sequence_no = sq_sequence s + 1, ev_stream_name = st, ev_event_type = ne_event_type ne,
         ev_payload_json = ne_payload_json ne, ev_created_at = e_now env\<rparr>])"
  "sq_acked (snd (sq_publish env st ne s)) = sq_acked s"
  by (simp_all add: sq_publish_def Let_def sq_notify_stream_def sq_log_def sq_acked_def log_of_publish)

lemma sq_ack_effect:
  "sq_ack env st g n s = (Inr (), s\<lparr>sq_offsets := raise_offset (e_now env) st g n (sq_offsets s)\<rparr>)"
  by (simp add: sq_ack_def raise_offset_def sq_offset_rows)

lemma sq_prune_effect:
  "sq_log (snd (sq_prune_events st n s)) = (sq_log s)(st := after_seq (sq_prune_cutoff st n s) (sq_log s st))"
  "sq_acked (snd (sq_prune_events st n s)) = sq_acked s"
  "fst (sq_prune_events st n s) =
     Inr (length (sq_log s st) - length (after_seq (sq_prune_cutoff st n s) (sq_log s st)))"
  by (simp_all add: sq_prune_events_def Let_def sq_log_def sq_acked_def log_of_prune prune_count)

lemma sq_cutoff:
  "sq_prune_cutoff st n s \<le> n"
  "sq_acked s st g = Some m \<Longrightarrow> sq_prune_cutoff st n s \<le> m"
proof -
  have "sq_prune_cutoff st n s = lowest_offset st n (sq_offsets s)"
    by (simp add: sq_prune_cutoff_def lowest_offset_def)
  then show "sq_prune_cutoff st n s \<le> n" "sq_acked s st g = Some m \<Longrightarrow> sq_prune_cutoff st n s \<le> m"
    by (simp_all add: lowest_offset_le lowest_offset_acked sq_acked_def)
qed

interpretation ss: ordered_stream sqlite_stream sq_inv sq_log sq_acked
proof
  fix s st n limit env g ne
  assume inv: "sq_inv s"
  show sorted: "log_sorted (sq_log s st)" by (rule sq_log_sorted[OF inv])
  show "sx_read_events sqlite_stream st n limit s =
      (Inr (take (read_limit limit) (after_seq n (sq_log s st))), s)"
    using read_query[OF sorted[unfolded sq_log_def]] by (simp add: sqlite_stream_def sq_read_events_def sq_log_def)
  show "\<exists>infos. sx_consumer_group_info sqlite_stream st s = (Inr infos, s)
      \<and> map_option cg_last_acked_seq (find (\<lambda>c. cg_consumer_group c = g) infos) = sq_acked s st g"
    by (simp add: sqlite_stream_def sq_consumer_group_info_def info_query sq_acked_def)
  show "fst (sx_ack sqlite_stream env st g n s) = Inr ()
      \<and> sq_inv (snd (sx_ack sqlite_stream env st g n s))
      \<and> sq_log (snd (sx_ack sqlite_stream env st g n s)) = sq_log s
      \<and> (\<exists>m. sq_acked (snd (sx_ack sqlite_stream env st g n s)) st g = Some m
           \<and> (case sq_acked s st g of None \<Rightarrow> 0 < n \<longrightarrow> m = n | Some k \<Rightarrow> m = max k n))
      \<and> (\<forall>st' g'. (st', g') \<noteq> (st, g) \<longrightarrow>
           sq_acked (snd (sx_ack sqlite_stream env st g n s)) st' g' = sq_acked s st' g')"
    using sq_ack_inv[OF inv, of env st g n]
    by (simp add: sqlite_stream_def sq_ack_effect sq_log_def sq_acked_def acked_raised acked_raised_other
        split: option.split)
  show "\<exists>m e. fst (sx_publish sqlite_stream env st ne s) = Inr m
      \<and> sq_inv (snd (sx_publish sqlite_stream env st ne s))
      \<and> seq e = m \<and> ev_event_type e = ne_event_type ne \<and> ev_payload_json e = ne_payload_json ne
      \<and> ev_stream_name e = st
      \<and> sq_log (snd (sx_publish sqlite_stream env st ne s)) = (sq_log s)(st := sq_log s st @ [e])
      \<and> sq_acked (snd (sx_publish sqlite_stream env st ne s)) = sq_acked s"
    using sq_publish_inv[OF inv]
    by (intro exI[of _ "sq_sequence s + 1"]
        exI[of _ "\<lparr>ev_sequence_no = sq_sequence s + 1, ev_stream_name = st, ev_event_type = ne_event_type ne,
          ev_payload_json = ne_payload_json ne, ev_created_at = e_now env\<rparr>"])
       (simp add: sqlite_stream_def sq_publish_effect)
  show "\<exists>c. c \<le> n \<and> (\<forall>g m. sq_acked s st g = Some m \<longrightarrow> c \<le> m)
      \<and> sq_inv (snd (sx_prune_events sqlite_stream st n s))
      \<and> sq_log (snd (sx_prune_events sqlite_stream st n s)) = (sq_log s)(st := after_seq c (sq_log s st))
      \<and> sq_acked (snd (sx_prune_events sqlite_stream st n s)) = sq_acked s
      \<and> fst (sx_prune_events sqlite_stream st n s) =
          Inr (length (sq_log s st) - length (after_seq c (sq_log s st)))"
    using sq_prune_inv[OF inv] sq_cutoff
    by (intro exI[of _ "sq_prune_cutoff st n s"])
       (simp add: sqlite_stream_def sq_prune_effect)
qed

end
