(* ===== verification/Sqlite_Properties.thy ===== *)
theory Sqlite_Properties
  imports Storage_Agreement Sqlite_Streams Client_Properties Stream_Properties
begin

text \<open>
  The SQLite storage: integrity of its tables, atomicity of its calls, agreement with the
  in-memory storage on the job protocol, the worker over it, its streams, its migration, and
  where it departs from what the other storages do.
\<close>

definition sq_sample_job :: "string option \<Rightarrow> NewJob" where
  "sq_sample_job key =
     \<lparr>nj_queue = ''mail'', nj_job_type = ''send'', nj_payload_json = JNull,
      nj_idempotency_key = key, nj_run_at = 0, nj_deadline_at = None,
      nj_timeout_seconds = None, nj_recurring_interval_seconds = None, nj_priority = 0,
      nj_max_attempts = 3\<rparr>"

definition sq_queued :: SqliteBackend where
  "sq_queued = snd (sq_enqueue (sample_env 1 1) (sq_sample_job (Some ''k1'')) sq_new)"

definition sq_leased :: SqliteBackend where
  "sq_leased = snd (sq_lease_jobs_batch (sample_env 2 10) ''mail'' ''w1'' 10 5 sq_queued)"

definition sq_started :: SqliteBackend where
  "sq_started = snd (sq_start_attempts_batch (sample_env 3 20) [''default''] [1] ''w1'' sq_leased)"

definition sq_done :: SqliteBackend where
  "sq_done = snd (sq_mark_succeeded (sample_env 4 40) 1 20 ''w1'' 7 sq_started)"

lemma sq_exec_trait:
  "snd (sq_exec envs (Trait (CEnqueue job)) s) = snd (sq_enqueue (envs 0) job s)"
  "snd (sq_exec envs (Trait (CLease q w ls bs policy)) s) =
     snd (sq_lease_jobs_batch_with_ordering (envs 0) q w ls bs policy s)"
  "snd (sq_exec envs (Trait (CStart ds is w)) s) = snd (sq_start_attempts_batch (envs 0) ds is w s)"
  "snd (sq_exec envs (Trait (CSucceed i a w l)) s) = snd (sq_mark_succeeded (envs 0) i a w l s)"
  by simp_all

lemma samples_reachable:
  "sq_reachable 100 sq_queued" "sq_reachable 100 sq_leased" "sq_reachable 100 sq_started"
  "sq_reachable 100 sq_done"
proof -
  note next_call = sq_reachable.next_call[where envs = "\<lambda>_. e" for e]
  show q: "sq_reachable 100 sq_queued"
    using next_call[OF sq_reachable.init, of 100 "sample_env 1 1" "Trait (CEnqueue (sq_sample_job (Some ''k1'')))"]
    by (simp only: sq_exec_trait sq_queued_def sq_new_def)
  show l: "sq_reachable 100 sq_leased"
    using next_call[OF q, of "sample_env 2 10" "Trait (CLease ''mail'' ''w1'' 10 5 Fifo)"]
    by (simp only: sq_exec_trait sq_leased_def sq_lease_jobs_batch_def)
  show st: "sq_reachable 100 sq_started"
    using next_call[OF l, of "sample_env 3 20" "Trait (CStart [''default''] [1] ''w1'')"]
    by (simp only: sq_exec_trait sq_started_def)
  show "sq_reachable 100 sq_done"
    using next_call[OF st, of "sample_env 4 40" "Trait (CSucceed 1 20 ''w1'' 7)"]
    by (simp only: sq_exec_trait sq_done_def)
qed

lemmas samples_inv = samples_reachable[THEN sq_reachable_inv]

section \<open>Integrity\<close>

text \<open>
  C13: The tables of the SQLite storage after any sequence of calls, whatever identifiers the
  generator draws: job and attempt identifiers are unique, an idempotency key belongs to one
  job, every attempt belongs to a stored job and its number is its own among the attempts of
  that job, a job is running exactly when it is locked, and event numbers ascend in the order
  of publication.
\<close>

theorem sqlite_tables_sound:
  assumes "sq_reachable n s"
  shows "distinct (map j_id (sq_jobs s)) \<and> distinct (map at_id (sq_attempts s))
    \<and> (\<forall>i \<in> set (sq_jobs s). \<forall>j \<in> set (sq_jobs s).
         j_idempotency_key i = j_idempotency_key j \<longrightarrow> j_idempotency_key i \<noteq> None \<longrightarrow> i = j)
    \<and> (\<forall>a \<in> set (sq_attempts s). \<exists>j \<in> set (sq_jobs s). j_id j = at_job_id a)
    \<and> (\<forall>a \<in> set (sq_attempts s). \<forall>b \<in> set (sq_attempts s).
         at_job_id a = at_job_id b \<longrightarrow> at_attempt_no a = at_attempt_no b \<longrightarrow> a = b)
    \<and> (\<forall>j \<in> set (sq_jobs s). j_status j = ''running'' \<longleftrightarrow> j_locked_by j \<noteq> None)
    \<and> sorted_wrt (\<lambda>a b. ev_sequence_no a < ev_sequence_no b) (sq_events s)"
proof -
  note inv = sq_reachable_inv[OF assms]
  have key: "i = j" if "i \<in> set t" "j \<in> set t" "j_idempotency_key i = j_idempotency_key j"
    "j_idempotency_key i \<noteq> None" "distinct (keys_of t)" for i j t
    using that
  proof (induction t)
    case (Cons r t)
    have rest: "distinct (keys_of t)" using Cons.prems(5) by (cases "j_idempotency_key r") (simp_all add: keys_of_def)
    have "j_idempotency_key x \<noteq> j_idempotency_key r" if "x \<in> set t" "j_idempotency_key r \<noteq> None" for x
      using Cons.prems(5) that by (auto simp: keys_of_def image_iff)
    then show ?case using Cons.IH rest Cons.prems(1-4) by (metis set_ConsD)
  qed simp
  have keys: "distinct (keys_of (sq_jobs s))"
    and locks: "\<forall>j \<in> set (sq_jobs s). j_status j = ''running'' \<longleftrightarrow> j_locked_by j \<noteq> None"
    using sq_invD(1)[OF inv] by (auto simp: job_table_def list_all_iff job_ok_def)
  have "\<forall>a \<in> set (sq_attempts s). at_job_id a \<in> j_id ` set (sq_jobs s)"
    using sq_invD(2)[OF inv] by (simp add: attempt_table_def list_all_iff)
  then have "\<forall>a \<in> set (sq_attempts s). \<exists>j \<in> set (sq_jobs s). j_id j = at_job_id a" by fastforce
  moreover have "sorted_wrt (\<lambda>a b. ev_sequence_no a < ev_sequence_no b) (sq_events s)"
    using sq_invD(4)[OF inv] by (simp add: event_tables_def log_sorted_def)
  ultimately show ?thesis
    using sq_distinct[OF inv] agree_attempt_unique[OF inv] key[OF _ _ _ _ keys] locks by blast
qed

theorem sqlite_tables_sound_witness:
  "\<exists>a j. sq_attempts sq_started = [a] \<and> j \<in> set (sq_jobs sq_started) \<and> j_id j = at_job_id a"
proof -
  have "length (sq_attempts sq_started) = 1" by code_simp
  then obtain a where a: "sq_attempts sq_started = [a]" by (auto simp: length_Suc_conv)
  have "\<forall>a \<in> set (sq_attempts sq_started). \<exists>j \<in> set (sq_jobs sq_started). j_id j = at_job_id a"
    using sqlite_tables_sound[OF samples_reachable(3)] by blast
  then show ?thesis using a by auto
qed

section \<open>Atomicity\<close>

text \<open>
  C14: A call of the SQLite storage that fails leaves the whole state as it was: the
  transaction is rolled back, nobody is notified. Two calls are excepted. The batch of success
  reports is a loop of single reports: when it fails, the reports before the failure stay, and
  nothing else has happened. The migration is a script that can fail half way: what changes then
  is the schema only, no job, attempt or event. The failures are those of checks, keys and
  statements; a broken disk or connection is not modelled.
\<close>

theorem sqlite_failure_changes_nothing:
  assumes "fst (sq_exec envs c s) = Inl e"
  shows "(single_transaction c \<longrightarrow> snd (sq_exec envs c s) = s)
    \<and> (\<forall>d us w. c = Trait (CSucceedBatch d us w) \<longrightarrow>
         (\<exists>pre u post. us = pre @ u # post
            \<and> fst (sq_exec envs (Trait (CSucceedBatch d pre w)) s) = Inr ()
            \<and> snd (sq_exec envs c s) = snd (sq_exec envs (Trait (CSucceedBatch d pre w)) s)))
    \<and> (c = Migrate \<longrightarrow> (\<exists>schema. snd (sq_exec envs c s) = s\<lparr>sq_schema := schema\<rparr>))
    \<and> (single_transaction c \<or> c = Migrate \<or> (\<exists>d us w. c = Trait (CSucceedBatch d us w)))"
proof (intro conjI impI allI)
  show "snd (sq_exec envs c s) = s" if "single_transaction c" by (rule sq_exec_atomic[OF that assms])
  show "\<exists>pre u post. us = pre @ u # post
      \<and> fst (sq_exec envs (Trait (CSucceedBatch d pre w)) s) = Inr ()
      \<and> snd (sq_exec envs c s) = snd (sq_exec envs (Trait (CSucceedBatch d pre w)) s)"
    if "c = Trait (CSucceedBatch d us w)" for d us w
    using succeed_batch_fails[of envs d us w s e] assms unfolding that by simp
  show "\<exists>schema. snd (sq_exec envs c s) = s\<lparr>sq_schema := schema\<rparr>" if "c = Migrate"
    unfolding that using sq_run_migrations_schema by simp
  show "single_transaction c \<or> c = Migrate \<or> (\<exists>d us w. c = Trait (CSucceedBatch d us w))"
    by (cases c rule: single_transaction.cases) simp_all
qed

theorem sqlite_failure_changes_nothing_witness:
  "fst (sq_exec (\<lambda>_. sample_env 3 30) (Trait (CStart [''default'', ''default''] [1, 7] ''w1'')) sq_leased)
     = Inl (cannot_start_attempt 7 ''w1'')
   \<and> snd (sq_exec (\<lambda>_. sample_env 3 30) (Trait (CStart [''default'', ''default''] [1, 7] ''w1'')) sq_leased) = sq_leased"
proof -
  have e: "fst (sq_exec (\<lambda>_. sample_env 3 30) (Trait (CStart [''default'', ''default''] [1, 7] ''w1'')) sq_leased)
     = Inl (cannot_start_attempt 7 ''w1'')" by code_simp
  have "single_transaction (Trait (CStart [''default'', ''default''] [1, 7] ''w1''))" by simp
  with sqlite_failure_changes_nothing[OF e] e show ?thesis by blast
qed

section \<open>Agreement of the two storages\<close>

text \<open>
  C8: The SQLite storage behaves like the in-memory storage: any sequence of enqueue, lease,
  start, success, retry, dead-letter, heartbeat, cancel and reaper calls gives the same
  answers on both, call by call, from empty storages, with an error on one side exactly when
  there is one on the other. Excepted are jobs with a deadline, a timeout or a recurrence,
  negative batch sizes and batches of attempts that fail half way.
\<close>

theorem storages_agree:
  assumes "regular_run cs mem_new"
  shows "answers sqlite_backend cs (sq_with_vacuum_n n) = answers memory_backend cs mem_new
    \<and> row_at j_id (sq_jobs (final sqlite_backend cs (sq_with_vacuum_n n))) =
        map_of (jobs (final memory_backend cs mem_new))"
  using run_agrees[OF agree_new assms, of n] by (auto simp: agree_def)

definition sample_calls :: "(Env \<times> job_call) list" where
  "sample_calls =
     [(sample_env 1 1, JEnqueue (sq_sample_job None)), (sample_env 2 30, JLease ''mail'' ''w1'' 10 5),
      (sample_env 3 30, JStart [''default''] [1] ''w1''), (sample_env 4 40, JSucceed 1 30 ''w1'' 7),
      (sample_env 5 50, JCancel 1 None)]"

fun states_along :: "(Env \<times> job_call) list \<Rightarrow> MemoryBackend \<Rightarrow> MemoryBackend list" where
  "states_along [] m = []"
| "states_along ((env, c) # cs) m = m # states_along cs (snd (call_backend memory_backend env c m))"

definition calls_ok :: "(Env \<times> job_call) list \<Rightarrow> nat list \<Rightarrow> MemoryBackend \<Rightarrow> bool" where
  "calls_ok cs bs m \<longleftrightarrow>
     length bs = length cs
     \<and> list_all2 (\<lambda>(env, c) (b, s). ids_below b s \<and> shared_call c
          \<and> (starts c \<longrightarrow> \<not> isl (fst (call_backend memory_backend env c s))))
         cs (zip bs (states_along cs m))"

lemma states_along_length [simp]: "length (states_along cs m) = length cs"
  by (induction cs m rule: states_along.induct) simp_all

lemma regular_calls:
  assumes "calls_ok cs bs m" "list_all2 (\<lambda>(env, c) b. \<exists>now k. b \<le> k \<and> env = sample_env now k) cs bs"
  shows "regular_run cs m"
  using assms
proof (induction cs m arbitrary: bs rule: regular_run.induct)
  case (2 env c cs m)
  then obtain b bs' where bs: "bs = b # bs'" by (cases bs) (auto simp: calls_ok_def)
  obtain now k where env: "b \<le> k" "env = sample_env now k" using 2(3) unfolding bs by auto
  have "fresh_env env m" using 2(2) env ids_below_fresh[of b m k now] unfolding bs by (simp add: calls_ok_def)
  moreover have "regular_run cs (snd (call_backend memory_backend env c m))"
    using 2(1)[of bs'] 2(2,3) unfolding bs by (simp add: calls_ok_def)
  ultimately show ?case using 2(2) unfolding bs by (simp add: calls_ok_def)
qed simp

theorem storages_agree_witness:
  "length (answers memory_backend sample_calls mem_new) = 5
   \<and> answers memory_backend sample_calls mem_new ! 4 = None
   \<and> answers sqlite_backend sample_calls (sq_with_vacuum_n 100) = answers memory_backend sample_calls mem_new"
proof -
  have "calls_ok sample_calls [1, 2, 2, 31, 31] mem_new" by code_simp
  moreover have from_env: "\<exists>now' k'. b \<le> k' \<and> sample_env now k = sample_env now' k'" if "b \<le> k" for b now k
    using that by blast
  have "list_all2 (\<lambda>(env, c) b. \<exists>now k. b \<le> k \<and> env = sample_env now k) sample_calls [1, 2, 2, 31, 31]"
    by (simp add: sample_calls_def from_env)
  ultimately have "regular_run sample_calls mem_new" by (rule regular_calls)
  moreover have "length (answers memory_backend sample_calls mem_new) = 5"
    "answers memory_backend sample_calls mem_new ! 4 = None" by code_simp+
  ultimately show ?thesis using storages_agree[of sample_calls 100] by simp
qed

section \<open>The worker over SQLite\<close>

text \<open>
  A worker over the SQLite storage that processes a leased batch in which no handler times
  out settles every job of the batch with the status its outcome calls for and changes no
  other job apart from next occurrences under new identifiers.
\<close>

theorem sqlite_batch_settles:
  assumes "sq_inv s" "distinct (map j_id batch)"
    and "\<forall>j \<in> set batch. held_by (sq_stored s) (qf_worker_id f) (j_id j)"
    and "fresh_batch env world (sq_used s)"
    and "\<forall>k < length batch. retry_safe f (world k) (batch ! k)"
    and "\<forall>k < length batch. \<not> attempt_timed_out f (world k) (batch ! k)"
  shows "\<exists>rs s'. fst (sq_start_attempts_batch env (map j_dataset_id batch) (map j_id batch)
                        (qf_worker_id f) s) = Inr rs
    \<and> process_batch sqlite_backend f env world batch s = (Inr (), s') \<and> sq_inv s'
    \<and> (\<forall>k < length batch. status_of (sq_stored s') (j_id (batch ! k)) =
         Some (expected_status f (world k) (batch ! k) (snd (snd (rs ! k)))))
    \<and> (\<forall>i. i \<notin> j_id ` set batch \<longrightarrow> i \<notin> range (new_id world) \<longrightarrow> sq_stored s' i = sq_stored s i)"
  using sb.process_batch_settles[OF assms] by (auto simp: sqlite_backend_def)

lemma sq_used_below: "list_all (\<lambda>i. i < n) (map j_id (sq_jobs s) @ map at_id (sq_attempts s)) \<Longrightarrow> sq_used s \<subseteq> {..<n}"
  by (auto simp: sq_used_def list_all_iff)

theorem sqlite_batch_settles_witness:
  "\<exists>s'. process_batch sqlite_backend sample_flow (even_env 3 100) (sample_run False (TaskErr ''TIMEOUT: slow'') 100)
          (sq_jobs sq_leased) sq_leased = (Inr (), s')
     \<and> status_of (sq_stored s') 1 = Some ''queued''"
proof -
  let ?w = "sample_run False (TaskErr ''TIMEOUT: slow'') 100"
  define j where "j = hd (sq_jobs sq_leased)"
  have j: "sq_jobs sq_leased = [j]" "j_id j = 1" "j_max_attempts j = 3" "lease_held ''w1'' j"
    "fst (sq_start_attempts_batch (even_env 3 100) [j_dataset_id j] [1] ''w1'' sq_leased) = Inr [(1, 100, 1)]"
    "expected_status sample_flow (?w 0) j 1 = ''queued''"
    "list_all (\<lambda>i. i < 2) (map j_id (sq_jobs sq_leased) @ map at_id (sq_attempts sq_leased))"
    unfolding j_def by code_simp+
  have "fresh_batch (even_env 3 100) ?w (sq_used sq_leased)"
    by (rule sample_fresh_batch[OF sq_used_below[OF j(7)]]) simp_all
  moreover have "retry_safe sample_flow (?w 0) j"
    using j(3) by (simp add: retry_safe_def sane_retry_def sample_flow_sel)
  moreover have "\<not> attempt_timed_out sample_flow (?w 0) j" by (simp add: attempt_timed_out_def sample_run_def)
  moreover have "held_by (sq_stored sq_leased) ''w1'' 1"
    using j(1,2,4) by (simp add: held_by_sq row_at_Cons)
  ultimately show ?thesis
    using sqlite_batch_settles[OF samples_inv(2), where batch = "[j]" and f = sample_flow
        and env = "even_env 3 100" and world = ?w] j
    by (auto simp: sample_flow_sel)
qed

section \<open>Streams\<close>

text \<open>
  On SQLite the numbering of events survives pruning: an event published after any prune
  carries a number above all numbers handed out before, and a consumer group whose offset is
  one of those numbers gets it as the last of its unread events.
\<close>

theorem sqlite_publish_after_prune_seen:
  assumes "sq_inv s" "offset_of (sq_acked s st g) \<le> sq_sequence s"
  shows "let p = sq_prune_events st n s; q = sq_publish env st ne (snd p)
    in fst q = Inr (sq_sequence s + 1)
       \<and> (\<exists>e. unread (sq_acked (snd q) st g) (sq_log (snd q) st) =
              unread (sq_acked (snd p) st g) (sq_log (snd p) st) @ [e]
            \<and> ev_sequence_no e = sq_sequence s + 1 \<and> ev_event_type e = ne_event_type ne
            \<and> ev_payload_json e = ne_payload_json ne)"
proof -
  let ?p = "snd (sq_prune_events st n s)"
  have same: "sq_sequence ?p = sq_sequence s" "sq_acked ?p = sq_acked s"
    by (simp_all add: sq_prune_events_def Let_def sq_prune_effect(2)[unfolded sq_prune_events_def Let_def snd_conv])
  show ?thesis
    using assms(2)
    by (simp add: Let_def sq_publish_effect same unread_def)
       (simp add: after_seq_def)
qed

definition sq_two_events :: SqliteBackend where
  "sq_two_events =
     snd (sq_ack (clock 3) ''orders'' ''billing'' 2
       (snd (sq_publish (clock 2) ''orders'' (NewEvent_new ''paid'' (JNumber 2))
         (snd (sq_publish (clock 1) ''orders'' (NewEvent_new ''created'' (JNumber 1)) sq_new)))))"

lemma sq_two_events_inv: "sq_inv sq_two_events"
  unfolding sq_two_events_def sq_new_def by (intro sq_ack_inv sq_publish_inv sq_inv_init)

theorem sqlite_publish_after_prune_seen_witness:
  "fst (sq_prune_events ''orders'' 2 sq_two_events) = Inr 2
   \<and> fst (sq_publish (clock 9) ''orders'' (NewEvent_new ''late'' JNull)
            (snd (sq_prune_events ''orders'' 2 sq_two_events))) = Inr 3"
proof -
  have "offset_of (sq_acked sq_two_events ''orders'' ''billing'') \<le> sq_sequence sq_two_events"
    "fst (sq_prune_events ''orders'' 2 sq_two_events) = Inr 2" "sq_sequence sq_two_events = 2" by code_simp+
  then show ?thesis
    using sqlite_publish_after_prune_seen[OF sq_two_events_inv, of "''orders''" "''billing''" 2 "clock 9"
        "NewEvent_new ''late'' JNull"] by (simp add: Let_def)
qed

section \<open>Departures\<close>

text \<open>
  Replaying a job on SQLite never succeeds: for a job that exists the INSERT names fifteen
  columns and gives twelve values, which the database refuses, so the call fails and changes
  nothing, while the in-memory storage makes the copy.
\<close>

theorem sqlite_replay_never_succeeds:
  "\<exists>e. sq_replay_job env i queue run_at s = (Inl (sql_error e), s)"
  by (simp add: sq_replay_fails split: option.split)

text \<open>
  What enqueueing on SQLite stores: under a new identifier and an unused key, the plain
  call stores the job without its deadline, timeout and recurrence interval and wakes the
  queue, the call inside a transaction of the client stores all of the request and wakes
  nobody. A key that is in use gives the identifier of its job and stores nothing.
\<close>

theorem sqlite_enqueue_rows:
  assumes "e_fresh env 0 \<notin> j_id ` set (sq_jobs s)"
  shows "if nj_idempotency_key job \<noteq> None \<and> nj_idempotency_key job \<in> j_idempotency_key ` set (sq_jobs s)
    then (\<exists>r \<in> set (sq_jobs s). j_idempotency_key r = nj_idempotency_key job
            \<and> sq_enqueue env job s = (Inr (j_id r), sq_notify_queue (nj_queue job) s)
            \<and> sq_enqueue_in_tx env job s = (Inr (j_id r), s))
    else sq_enqueue env job s =
           (Inr (e_fresh env 0),
            sq_notify_queue (nj_queue job)
              (s\<lparr>sq_jobs := sq_jobs s @ [(mem_enqueue_entity env job)
                   \<lparr>j_deadline_at := None, j_timeout_seconds := None, j_recurring_interval_seconds := None\<rparr>]\<rparr>))
         \<and> sq_enqueue_in_tx env job s =
           (Inr (e_fresh env 0), s\<lparr>sq_jobs := sq_jobs s @ [mem_enqueue_entity env job]\<rparr>)"
proof (cases "find (\<lambda>r. nj_idempotency_key job \<noteq> None \<and> j_idempotency_key r = nj_idempotency_key job) (sq_jobs s)")
  case None
  then have no: "\<not> (nj_idempotency_key job \<noteq> None \<and> nj_idempotency_key job \<in> j_idempotency_key ` set (sq_jobs s))"
    by (auto simp: find_None_iff)
  show ?thesis
    unfolding if_not_P[OF no] using None assms by (simp add: sq_enqueue_stages sq_enqueue_in_tx_stages sq_store_def sq_entity_def)
next
  case (Some r)
  have r: "r \<in> set (sq_jobs s)" "nj_idempotency_key job \<noteq> None" "j_idempotency_key r = nj_idempotency_key job"
    using find_SomeD[OF Some] by simp_all
  then have c: "nj_idempotency_key job \<noteq> None \<and> nj_idempotency_key job \<in> j_idempotency_key ` set (sq_jobs s)"
    by (metis imageI)
  have "s\<lparr>sq_jobs := sq_jobs s\<rparr> = s" by simp
  then have "sq_enqueue env job s = (Inr (j_id r), sq_notify_queue (nj_queue job) s)"
    "sq_enqueue_in_tx env job s = (Inr (j_id r), s)"
    unfolding sq_enqueue_stages sq_enqueue_in_tx_stages sq_store_def Some by simp_all
  then show ?thesis using r c by auto
qed

definition limited_job :: NewJob where
  "limited_job = (sq_sample_job None)\<lparr>nj_deadline_at := Some 100, nj_timeout_seconds := Some 30\<rparr>"

theorem sqlite_enqueue_rows_witness:
  "map j_deadline_at (sq_jobs (snd (sq_enqueue (sample_env 1 1) limited_job sq_new))) = [None]
   \<and> map j_deadline_at (sq_jobs (snd (sq_enqueue_in_tx (sample_env 1 1) limited_job sq_new))) = [Some 100]"
proof -
  have "e_fresh (sample_env 1 1) 0 \<notin> j_id ` set (sq_jobs sq_new)" "sq_jobs sq_new = []"
    by (simp_all add: sq_new_def sq_with_vacuum_n_def)
  then show ?thesis
    using sqlite_enqueue_rows[of "sample_env 1 1" sq_new limited_job]
    by (simp add: limited_job_def sq_sample_job_def mem_enqueue_entity_def)
qed

text \<open>
  On SQLite the deletion of attempt history finds nothing to delete: archiving a job
  deletes its row, and with it, through the foreign key, its attempts. As long as no
  identifier is both in the table of jobs and in the archive, which archiving keeps so, the
  deletion reports zero rows and changes nothing.
\<close>

lemma sq_archive_loop_disjoint:
  assumes "j_id ` set (sq_jobs s) \<inter> j_id ` set (sq_archive s) = {}" "sq_archive_loop js s = (Inr r, s')"
  shows "j_id ` set (sq_jobs s') \<inter> j_id ` set (sq_archive s') = {}"
  using assms
proof (induction js arbitrary: s)
  case (Cons j js)
  have "j_id ` set (sq_jobs (archive_one j s)) \<inter> j_id ` set (sq_archive (archive_one j s)) = {}"
    using Cons.prems(1) by (auto simp: archive_one_def sql_delete_def disjoint_iff)
  then show ?case using Cons.IH Cons.prems(2) unfolding sq_archive_loop_Cons by (auto split: if_splits)
qed simp

theorem sqlite_history_already_gone:
  assumes "sq_inv s" "j_id ` set (sq_jobs s) \<inter> j_id ` set (sq_archive s) = {}"
  shows "sq_delete_history_for_succeeded_older_than cutoff limit s = (Inr (0, 0), s)
    \<and> j_id ` set (sq_jobs (snd (sq_archive_succeeded_older_than c l s)))
        \<inter> j_id ` set (sq_archive (snd (sq_archive_succeeded_older_than c l s))) = {}"
proof
  let ?old = "sql_limit limit (filter (\<lambda>r. j_updated_at r < cutoff) (sq_archive s))"
  let ?P = "\<lambda>a. at_started_at a < cutoff \<and> at_job_id a \<in> j_id ` set ?old"
  have "set ?old \<subseteq> set (sq_archive s)" using set_sql_limit by fastforce
  then have "\<not> ?P a" if "a \<in> set (sq_attempts s)" for a
    using that sq_invD(2)[OF assms(1)] assms(2)
    by (fastforce simp: attempt_table_def list_all_iff disjoint_iff)
  then have none: "filter ?P (sq_attempts s) = []" "filter (\<lambda>a. \<not> ?P a) (sq_attempts s) = sq_attempts s"
    unfolding filter_empty_conv filter_id_conv by blast+
  show "sq_delete_history_for_succeeded_older_than cutoff limit s = (Inr (0, 0), s)"
    unfolding sq_delete_history_for_succeeded_older_than_def Let_def rows_affected_def sql_delete_def none by simp
  show "j_id ` set (sq_jobs (snd (sq_archive_succeeded_older_than c l s)))
        \<inter> j_id ` set (sq_archive (snd (sq_archive_succeeded_older_than c l s))) = {}"
    unfolding sq_archive_succeeded_older_than_def
    by (rule transaction_keeps[where P = "\<lambda>s. j_id ` set (sq_jobs s) \<inter> j_id ` set (sq_archive s) = {}", OF assms(2)])
       (auto simp: Let_def split: prod.splits sum.splits dest: sq_archive_loop_disjoint[OF assms(2)])
qed

theorem sqlite_history_already_gone_witness:
  "length (sq_attempts sq_done) = 1 \<and> sq_delete_history_for_succeeded_older_than 100 10 sq_done = (Inr (0, 0), sq_done)"
proof -
  have "length (sq_attempts sq_done) = 1" "sq_archive sq_done = []" by code_simp+
  then show ?thesis using sqlite_history_already_gone[OF samples_inv(4)] by simp
qed

section \<open>Migration\<close>

text \<open>
  Running the migration of SQLite on a new database succeeds and creates every column the
  storage uses; on any database on which it succeeds, no table or column is lost and running
  it again changes nothing.
\<close>

theorem migration_idempotent:
  assumes "run_migrations sc = (Inr (), sc')"
  shows "run_migrations sc' = (Inr (), sc') \<and> schema_le sc sc'
    \<and> run_migrations no_schema = (Inr (), migrated_schema) \<and> schema_ready migrated_schema"
  using run_migrations_again[OF assms] run_migrations_le[OF assms] migrate_fresh migrated_ready by blast

theorem migration_idempotent_witness:
  "run_migrations migrated_schema = (Inr (), migrated_schema)"
  using migration_idempotent[OF migrate_fresh] by blast

text \<open>
  The migration cannot upgrade the databases it adds columns for: when the table of jobs
  exists without the column \<^verbatim>\<open>deadline_at\<close> (and the index on it), the first script fails at
  that index, before the statements that add columns, and the table stays as it was; so does
  every later attempt.
\<close>

theorem migration_stuck_on_old_table:
  assumes "map_of (sc_tables sc) ''jobs'' = Some cols" "''deadline_at'' \<notin> set cols"
    and "''idx_jobs_deadline'' \<notin> set (sc_indexes sc)"
  shows "isl (fst (run_migrations sc))
    \<and> map_of (sc_tables (snd (run_migrations sc))) ''jobs'' = Some cols
    \<and> isl (fst (run_migrations (snd (run_migrations sc))))"
proof -
  have old: "old_jobs cols sc" using assms by (simp add: old_jobs_def)
  note stuck = old_jobs_stuck[OF old]
  show ?thesis using stuck old_jobs_stuck(1)[OF stuck(2)] by (auto simp: old_jobs_def)
qed

theorem migration_stuck_on_old_table_witness:
  "isl (fst (run_migrations \<lparr>sc_tables = [(''jobs'', [''id'', ''queue'', ''status'', ''run_at''])], sc_indexes = []\<rparr>))"
  using migration_stuck_on_old_table[of "\<lparr>sc_tables = [(''jobs'', [''id'', ''queue'', ''status'', ''run_at''])], sc_indexes = []\<rparr>"
      "[''id'', ''queue'', ''status'', ''run_at'']"] by simp

end
