(* ===== verification/Redis_Server.thy ===== *)
theory Redis_Server
  imports Backend_Api "HOL-Library.Sublist"
begin

text \<open>
  What the crate \<^verbatim>\<open>azums-redis\<close> uses of a Redis server, and the programs it sends to it.

  The keys of the server have disjoint prefixes, so each prefix is a field of its own: the
  hash \<^verbatim>\<open>azums:jobs\<close>, the hash \<^verbatim>\<open>azums:idempotency\<close>, the lists
  \<^verbatim>\<open>azums:queue:*\<close> and \<^verbatim>\<open>azums:processing:*\<close> under their full keys, the
  counters \<^verbatim>\<open>azums:attempts:*\<close> by job and the keys of the streams by stream. A list
  that becomes empty disappears, as it does on the server. The channels of
  \<^verbatim>\<open>PUBLISH\<close> and the broadcast channels of the process are kept as the number of
  messages sent on them.

  A value that the crate writes with \<^verbatim>\<open>serde_json::to_string\<close> is the encoding of a
  value; any other string in its place does not decode. Identifiers are written and read back
  without loss, so the model keeps them as identifiers.

  A client call is not atomic: it is a program of single commands, and commands of other
  clients may run between any two of them. A program is a tree: it has returned, or it sends
  a command, which reads and changes the server and decides how the program goes on.
\<close>

section \<open>The server\<close>

datatype 'a encoded = Encoded 'a | Undecodable string

fun from_str :: "'a encoded \<Rightarrow> 'a option" where
  "from_str (Encoded x) = Some x"
| "from_str (Undecodable _) = None"

record RedisBackend =
  rs_jobs :: "(uuid, Job encoded) hashmap"
  rs_idempotency :: "(string, uuid) hashmap"
  rs_queues :: "(string, uuid list) hashmap"
  rs_processing :: "(string, uuid list) hashmap"
  rs_attempts :: "(uuid, int) hashmap"
  rs_stream_seq :: "(string, int) hashmap"
  rs_stream_events :: "(string, Event encoded list) hashmap"
  rs_stream_offsets :: "(string, (string, int) hashmap) hashmap"
  rs_stream_offsets_time :: "(string, (string, datetime encoded) hashmap) hashmap"
  rs_channels :: "(string, nat) hashmap"
  rs_notifiers :: "(string, nat) hashmap"
  rs_stream_notifiers :: "(string, nat) hashmap"

definition redis_new :: RedisBackend where
  "redis_new =
     \<lparr>rs_jobs = [], rs_idempotency = [], rs_queues = [], rs_processing = [], rs_attempts = [],
      rs_stream_seq = [], rs_stream_events = [], rs_stream_offsets = [],
      rs_stream_offsets_time = [], rs_channels = [], rs_notifiers = [], rs_stream_notifiers = []\<rparr>"

text \<open>Values under keys that may be absent.\<close>

definition at_key :: "('k, 'v list) hashmap \<Rightarrow> 'k \<Rightarrow> 'v list" where
  "at_key m k = (case map_of m k of None \<Rightarrow> [] | Some l \<Rightarrow> l)"

definition put_key :: "'k \<Rightarrow> 'v list \<Rightarrow> ('k, 'v list) hashmap \<Rightarrow> ('k, 'v list) hashmap" where
  "put_key k l m = (if l = [] then hm_remove k m else hm_insert k l m)"

definition counter :: "('k, 'n::zero) hashmap \<Rightarrow> 'k \<Rightarrow> 'n" where
  "counter m k = (case map_of m k of None \<Rightarrow> 0 | Some n \<Rightarrow> n)"

lemma at_key_put [simp]: "at_key (put_key k l m) k' = (if k' = k then l else at_key m k')"
  by (simp add: at_key_def put_key_def)

lemma counter_insert [simp]: "counter (hm_insert k n m) k' = (if k' = k then n else counter m k')"
  by (simp add: counter_def)

section \<open>Programs\<close>

datatype 'a prog = Return 'a | Command "RedisBackend \<Rightarrow> 'a prog \<times> RedisBackend"

primrec run_prog :: "'a prog \<Rightarrow> RedisBackend \<Rightarrow> 'a \<times> RedisBackend" where
  "run_prog (Return a) s = (a, s)"
| "run_prog (Command c) s = (case map_prod run_prog id (c s) of (r, s') \<Rightarrow> r s')"

primrec and_then :: "'a prog \<Rightarrow> ('a \<Rightarrow> 'b prog) \<Rightarrow> 'b prog" where
  "and_then (Return a) k = k a"
| "and_then (Command c) k = Command (map_prod (\<lambda>p. and_then p k) id \<circ> c)"

text \<open>The first \<open>n\<close> commands of a program: what a client that crashes there has done.\<close>

fun run_commands :: "nat \<Rightarrow> 'a prog \<Rightarrow> RedisBackend \<Rightarrow> 'a prog \<times> RedisBackend" where
  "run_commands 0 p s = (p, s)"
| "run_commands (Suc n) (Return a) s = (Return a, s)"
| "run_commands (Suc n) (Command c) s = (case c s of (p, s') \<Rightarrow> run_commands n p s')"

text \<open>
  Several clients: a command of any of them may be next.
\<close>

inductive interleaving ::
  "'a prog list \<Rightarrow> RedisBackend \<Rightarrow> 'a prog list \<Rightarrow> RedisBackend \<Rightarrow> bool" where
  start: "interleaving ps s ps s"
| command: "interleaving ps s qs t \<Longrightarrow> i < length qs \<Longrightarrow> qs ! i = Command c \<Longrightarrow> c t = (q, t')
    \<Longrightarrow> interleaving ps s (qs[i := q]) t'"

text \<open>A schedule names the client whose command is next.\<close>

fun run_schedule :: "nat list \<Rightarrow> 'a prog list \<Rightarrow> RedisBackend \<Rightarrow> 'a prog list \<times> RedisBackend" where
  "run_schedule [] ps s = (ps, s)"
| "run_schedule (i # is) ps s =
     (if i < length ps
      then (case ps ! i of
              Return a \<Rightarrow> run_schedule is ps s
            | Command c \<Rightarrow> (case c s of (p, s') \<Rightarrow> run_schedule is (ps[i := p]) s'))
      else run_schedule is ps s)"

lemma run_prog_Command [simp]: "run_prog (Command c) s = run_prog (fst (c s)) (snd (c s))"
  by (simp add: case_prod_unfold)

declare run_prog.simps(2) [simp del]

lemma run_and_then [simp]:
  "run_prog (and_then p k) s = (let (a, s') = run_prog p s in run_prog (k a) s')"
proof (induction p arbitrary: s)
  case (Command c)
  have "run_prog (and_then (fst (c s)) k) (snd (c s)) =
      (let (a, s') = run_prog (fst (c s)) (snd (c s)) in run_prog (k a) s')"
    by (rule Command.IH[OF rangeI fsts.intros])
  then show ?case by simp
qed simp

lemma interleaving_trans:
  assumes "interleaving qs t rs u" "interleaving ps s qs t"
  shows "interleaving ps s rs u"
  using assms by (induction rule: interleaving.induct) (auto intro: interleaving.intros)

lemma schedule_interleaving:
  assumes "interleaving ps s qs t"
  shows "interleaving ps s (fst (run_schedule is qs t)) (snd (run_schedule is qs t))"
  using assms
proof (induction "is" qs t rule: run_schedule.induct)
  case (2 i "is" qs t)
  show ?case
  proof (cases "i < length qs")
    case True
    show ?thesis
    proof (cases "qs ! i")
      case (Command c)
      obtain q t' where c: "c t = (q, t')" by fastforce
      show ?thesis
        using 2(2)[OF True Command c[symmetric]] interleaving.command[OF "2.prems" True Command c]
          True Command c by simp
    qed (use 2 True in simp)
  qed (use 2 in simp)
qed simp

section \<open>Commands\<close>

text \<open>
  Each takes what its reply is used for: the rest of the program.
\<close>

definition PING :: "'a prog \<Rightarrow> 'a prog" where
  "PING p = Command (\<lambda>s. (p, s))"

definition HGET_jobs :: "uuid \<Rightarrow> (Job encoded option \<Rightarrow> 'a prog) \<Rightarrow> 'a prog" where
  "HGET_jobs i k = Command (\<lambda>s. (k (map_of (rs_jobs s) i), s))"

definition HSET_jobs :: "uuid \<Rightarrow> Job encoded \<Rightarrow> 'a prog \<Rightarrow> 'a prog" where
  "HSET_jobs i json p = Command (\<lambda>s. (p, s\<lparr>rs_jobs := hm_insert i json (rs_jobs s)\<rparr>))"

definition HGETALL_jobs :: "((uuid, Job encoded) hashmap \<Rightarrow> 'a prog) \<Rightarrow> 'a prog" where
  "HGETALL_jobs k = Command (\<lambda>s. (k (rs_jobs s), s))"

definition HSETNX_idempotency :: "string \<Rightarrow> uuid \<Rightarrow> (bool \<Rightarrow> 'a prog) \<Rightarrow> 'a prog" where
  "HSETNX_idempotency key i k =
     Command (\<lambda>s. case map_of (rs_idempotency s) key of
         None \<Rightarrow> (k True, s\<lparr>rs_idempotency := hm_insert key i (rs_idempotency s)\<rparr>)
       | Some _ \<Rightarrow> (k False, s))"

definition HGET_idempotency :: "string \<Rightarrow> (uuid option \<Rightarrow> 'a prog) \<Rightarrow> 'a prog" where
  "HGET_idempotency key k = Command (\<lambda>s. (k (map_of (rs_idempotency s) key), s))"

definition RPUSH_queue :: "string \<Rightarrow> uuid \<Rightarrow> 'a prog \<Rightarrow> 'a prog" where
  "RPUSH_queue key i p =
     Command (\<lambda>s. (p, s\<lparr>rs_queues := put_key key (at_key (rs_queues s) key @ [i]) (rs_queues s)\<rparr>))"

definition LPUSH_queue :: "string \<Rightarrow> uuid \<Rightarrow> 'a prog \<Rightarrow> 'a prog" where
  "LPUSH_queue key i p =
     Command (\<lambda>s. (p, s\<lparr>rs_queues := put_key key (i # at_key (rs_queues s) key) (rs_queues s)\<rparr>))"

text \<open>\<^verbatim>\<open>LMOVE queue processing LEFT RIGHT\<close>\<close>

definition LMOVE :: "string \<Rightarrow> string \<Rightarrow> (uuid option \<Rightarrow> 'a prog) \<Rightarrow> 'a prog" where
  "LMOVE queue_key processing_key k =
     Command (\<lambda>s. case at_key (rs_queues s) queue_key of
         [] \<Rightarrow> (k None, s)
       | i # is \<Rightarrow>
           (k (Some i),
            s\<lparr>rs_queues := put_key queue_key is (rs_queues s),
              rs_processing :=
                put_key processing_key (at_key (rs_processing s) processing_key @ [i]) (rs_processing s)\<rparr>))"

text \<open>\<^verbatim>\<open>LREM key 1 id\<close>: the first occurrence.\<close>

definition LREM_processing :: "string \<Rightarrow> uuid \<Rightarrow> 'a prog \<Rightarrow> 'a prog" where
  "LREM_processing key i p =
     Command (\<lambda>s. (p, s\<lparr>rs_processing :=
         put_key key (remove1 i (at_key (rs_processing s) key)) (rs_processing s)\<rparr>))"

definition LRANGE_processing :: "string \<Rightarrow> (uuid list \<Rightarrow> 'a prog) \<Rightarrow> 'a prog" where
  "LRANGE_processing key k = Command (\<lambda>s. (k (at_key (rs_processing s) key), s))"

text \<open>\<^verbatim>\<open>KEYS azums:processing:*\<close>, in the order the server returns them.\<close>

definition KEYS_processing :: "(string list \<Rightarrow> 'a prog) \<Rightarrow> 'a prog" where
  "KEYS_processing k =
     Command (\<lambda>s. (k (filter (prefix ''azums:processing:'') (map fst (rs_processing s))), s))"

definition INCR_attempts :: "uuid \<Rightarrow> (int \<Rightarrow> 'a prog) \<Rightarrow> 'a prog" where
  "INCR_attempts i k =
     Command (\<lambda>s. let n = counter (rs_attempts s) i + 1
                  in (k n, s\<lparr>rs_attempts := hm_insert i n (rs_attempts s)\<rparr>))"

definition PUBLISH :: "string \<Rightarrow> 'a prog \<Rightarrow> 'a prog" where
  "PUBLISH channel p =
     Command (\<lambda>s. (p, s\<lparr>rs_channels := hm_insert channel (counter (rs_channels s) channel + 1) (rs_channels s)\<rparr>))"

definition INCR_stream_seq :: "string \<Rightarrow> (int \<Rightarrow> 'a prog) \<Rightarrow> 'a prog" where
  "INCR_stream_seq stream k =
     Command (\<lambda>s. let n = counter (rs_stream_seq s) stream + 1
                  in (k n, s\<lparr>rs_stream_seq := hm_insert stream n (rs_stream_seq s)\<rparr>))"

definition RPUSH_events :: "string \<Rightarrow> Event encoded list \<Rightarrow> 'a prog \<Rightarrow> 'a prog" where
  "RPUSH_events stream es p =
     Command (\<lambda>s. (p, s\<lparr>rs_stream_events :=
         put_key stream (at_key (rs_stream_events s) stream @ es) (rs_stream_events s)\<rparr>))"

definition LRANGE_events :: "string \<Rightarrow> (Event encoded list \<Rightarrow> 'a prog) \<Rightarrow> 'a prog" where
  "LRANGE_events stream k = Command (\<lambda>s. (k (at_key (rs_stream_events s) stream), s))"

definition DEL_events :: "string \<Rightarrow> 'a prog \<Rightarrow> 'a prog" where
  "DEL_events stream p =
     Command (\<lambda>s. (p, s\<lparr>rs_stream_events := put_key stream [] (rs_stream_events s)\<rparr>))"

definition LLEN_events :: "string \<Rightarrow> (nat \<Rightarrow> 'a prog) \<Rightarrow> 'a prog" where
  "LLEN_events stream k = Command (\<lambda>s. (k (length (at_key (rs_stream_events s) stream)), s))"

definition HGET_offset :: "string \<Rightarrow> string \<Rightarrow> (int option \<Rightarrow> 'a prog) \<Rightarrow> 'a prog" where
  "HGET_offset stream grp k =
     Command (\<lambda>s. (k (map_of (at_key (rs_stream_offsets s) stream) grp), s))"

definition HSET_offset :: "string \<Rightarrow> string \<Rightarrow> int \<Rightarrow> 'a prog \<Rightarrow> 'a prog" where
  "HSET_offset stream grp n p =
     Command (\<lambda>s. (p, s\<lparr>rs_stream_offsets :=
         put_key stream (hm_insert grp n (at_key (rs_stream_offsets s) stream)) (rs_stream_offsets s)\<rparr>))"

definition HGETALL_offsets :: "string \<Rightarrow> ((string, int) hashmap \<Rightarrow> 'a prog) \<Rightarrow> 'a prog" where
  "HGETALL_offsets stream k = Command (\<lambda>s. (k (at_key (rs_stream_offsets s) stream), s))"

definition HSET_offset_time :: "string \<Rightarrow> string \<Rightarrow> datetime \<Rightarrow> 'a prog \<Rightarrow> 'a prog" where
  "HSET_offset_time stream grp t p =
     Command (\<lambda>s. (p, s\<lparr>rs_stream_offsets_time :=
         put_key stream (hm_insert grp (Encoded t) (at_key (rs_stream_offsets_time s) stream))
           (rs_stream_offsets_time s)\<rparr>))"

definition HGETALL_offset_times ::
  "string \<Rightarrow> ((string, datetime encoded) hashmap \<Rightarrow> 'a prog) \<Rightarrow> 'a prog" where
  "HGETALL_offset_times stream k = Command (\<lambda>s. (k (at_key (rs_stream_offsets_time s) stream), s))"

text \<open>Steps inside the process, on its own broadcast channels.\<close>

definition notify_queue_local :: "string \<Rightarrow> 'a prog \<Rightarrow> 'a prog" where
  "notify_queue_local queue p =
     Command (\<lambda>s. (p, s\<lparr>rs_notifiers := hm_modify queue Suc (rs_notifiers s)\<rparr>))"

definition notify_stream_local :: "string \<Rightarrow> 'a prog \<Rightarrow> 'a prog" where
  "notify_stream_local stream p =
     Command (\<lambda>s. (p, s\<lparr>rs_stream_notifiers := hm_modify stream Suc (rs_stream_notifiers s)\<rparr>))"

lemmas commands =
  PING_def HGET_jobs_def HSET_jobs_def HGETALL_jobs_def HSETNX_idempotency_def HGET_idempotency_def
  RPUSH_queue_def LPUSH_queue_def LMOVE_def LREM_processing_def LRANGE_processing_def
  KEYS_processing_def INCR_attempts_def PUBLISH_def INCR_stream_seq_def RPUSH_events_def
  LRANGE_events_def DEL_events_def LLEN_events_def HGET_offset_def HSET_offset_def
  HGETALL_offsets_def HSET_offset_time_def HGETALL_offset_times_def notify_queue_local_def
  notify_stream_local_def

end
