(* ===== verification/Redis_Store.thy ===== *)
theory Redis_Store
  imports Redis_Server
begin

text \<open>
  The storage of \<^verbatim>\<open>azums-redis/src/backend.rs\<close>: every method of its implementation of
  the two traits, as the program of Redis commands it sends, in the order of the source.
\<close>

section \<open>Keys\<close>

definition queue_key :: "string \<Rightarrow> string" where
  "queue_key queue = ''azums:queue:'' @ queue"

definition processing_key :: "string \<Rightarrow> string \<Rightarrow> string" where
  "processing_key queue worker_id = ''azums:processing:'' @ queue @ '':'' @ worker_id"

definition notify_channel :: "string \<Rightarrow> string" where
  "notify_channel queue = ''azums:notify:'' @ queue"

definition stream_notify_channel :: "string \<Rightarrow> string" where
  "stream_notify_channel stream = ''azums:stream_notify:'' @ stream"

text \<open>\<^verbatim>\<open>str::split\<close> at a character.\<close>

fun split_at :: "char \<Rightarrow> string \<Rightarrow> string list" where
  "split_at c [] = [[]]"
| "split_at c (x # xs) =
     (if x = c then [] # split_at c xs
      else (case split_at c xs of [] \<Rightarrow> [[x]] | p # ps \<Rightarrow> (x # p) # ps))"

section \<open>Migration, enqueue and subscribe\<close>

definition redis_run_migrations :: "(anyhow + unit) prog" where
  "redis_run_migrations = PING (Return (Inr ()))"

definition redis_health_check :: "(anyhow + unit) prog" where
  "redis_health_check = PING (Return (Inr ()))"

definition redis_enqueue_entity :: "Env \<Rightarrow> NewJob \<Rightarrow> Job" where
  "redis_enqueue_entity env job =
     \<lparr>j_dataset_id = ''default'', j_replay_of_job_id = None,
      j_idempotency_key = nj_idempotency_key job, j_id = e_fresh env 0, j_queue = nj_queue job,
      j_job_type = nj_job_type job, j_payload = nj_payload_json job, j_run_at = nj_run_at job,
      j_deadline_at = nj_deadline_at job, j_timeout_seconds = nj_timeout_seconds job,
      j_recurring_interval_seconds = nj_recurring_interval_seconds job,
      j_status = JobStatus_as_str JobStatus.Queued, j_priority = nj_priority job,
      j_max_attempts = nj_max_attempts job, j_locked_at = None, j_locked_by = None,
      j_lock_expires_at = None, j_dlq_reason_code = None, j_dlq_at = None,
      j_created_at = e_now env, j_updated_at = e_now env\<rparr>"

definition redis_enqueue_store :: "Env \<Rightarrow> NewJob \<Rightarrow> (anyhow + uuid) prog" where
  "redis_enqueue_store env job =
     HSET_jobs (e_fresh env 0) (Encoded (redis_enqueue_entity env job))
       (RPUSH_queue (queue_key (nj_queue job)) (e_fresh env 0)
         (PUBLISH (notify_channel (nj_queue job))
           (notify_queue_local (nj_queue job) (Return (Inr (e_fresh env 0))))))"

definition redis_enqueue :: "Env \<Rightarrow> NewJob \<Rightarrow> (anyhow + uuid) prog" where
  "redis_enqueue env job =
     (case nj_idempotency_key job of
        None \<Rightarrow> redis_enqueue_store env job
      | Some key \<Rightarrow>
          HSETNX_idempotency key (e_fresh env 0) (\<lambda>claimed.
            if claimed then redis_enqueue_store env job
            else HGET_idempotency key (\<lambda>existing.
              case existing of
                None \<Rightarrow> Return (Inl (message ''response was nil''))
              | Some i \<Rightarrow> Return (Inr i))))"

definition redis_subscribe :: "string \<Rightarrow> (anyhow + unit) prog" where
  "redis_subscribe queue =
     Command (\<lambda>s. (Return (Inr ()),
       case map_of (rs_notifiers s) queue of
         Some _ \<Rightarrow> s
       | None \<Rightarrow> s\<lparr>rs_notifiers := hm_insert queue 0 (rs_notifiers s)\<rparr>))"

section \<open>Leasing\<close>

definition redis_deadline_dlq :: "datetime \<Rightarrow> Job \<Rightarrow> Job" where
  "redis_deadline_dlq now job =
     job\<lparr>j_status := JobStatus_as_str JobStatus.Dlq,
         j_dlq_reason_code := Some ''DEADLINE_EXCEEDED'', j_dlq_at := Some now,
         j_updated_at := now\<rparr>"

definition redis_lock :: "datetime \<Rightarrow> string \<Rightarrow> datetime \<Rightarrow> Job \<Rightarrow> Job" where
  "redis_lock now worker_id lock_expires_at job =
     job\<lparr>j_status := JobStatus_as_str JobStatus.Running, j_locked_at := Some now,
         j_locked_by := Some worker_id, j_lock_expires_at := Some lock_expires_at,
         j_updated_at := now\<rparr>"

definition redis_past_deadline :: "datetime \<Rightarrow> Job \<Rightarrow> bool" where
  "redis_past_deadline now job \<longleftrightarrow>
     (case j_deadline_at job of None \<Rightarrow> False | Some deadline \<Rightarrow> deadline < now)"

primrec redis_lease_loop ::
  "datetime \<Rightarrow> datetime \<Rightarrow> string \<Rightarrow> string \<Rightarrow> string \<Rightarrow> nat \<Rightarrow> Job list
     \<Rightarrow> (anyhow + Job list) prog" where
  "redis_lease_loop now expires qkey pkey worker_id 0 leased = Return (Inr leased)"
| "redis_lease_loop now expires qkey pkey worker_id (Suc n) leased =
     LMOVE qkey pkey (\<lambda>job_id.
       case job_id of
         None \<Rightarrow> Return (Inr leased)
       | Some i \<Rightarrow>
           HGET_jobs i (\<lambda>json.
             case Option.bind json from_str of
               None \<Rightarrow> redis_lease_loop now expires qkey pkey worker_id n leased
             | Some job \<Rightarrow>
                 if now < j_run_at job
                 then LPUSH_queue qkey i
                   (LREM_processing pkey i
                     (redis_lease_loop now expires qkey pkey worker_id n leased))
                 else if redis_past_deadline now job
                 then HSET_jobs i (Encoded (redis_deadline_dlq now job))
                   (LREM_processing pkey i
                     (redis_lease_loop now expires qkey pkey worker_id n leased))
                 else HSET_jobs i (Encoded (redis_lock now worker_id expires job))
                   (redis_lease_loop now expires qkey pkey worker_id n
                     (leased @ [redis_lock now worker_id expires job]))))"

definition redis_lease_jobs_batch ::
  "Env \<Rightarrow> string \<Rightarrow> string \<Rightarrow> int \<Rightarrow> int \<Rightarrow> (anyhow + Job list) prog" where
  "redis_lease_jobs_batch env queue worker_id lease_seconds batch_size =
     redis_lease_loop (e_now env) (e_now env + seconds lease_seconds) (queue_key queue)
       (processing_key queue worker_id) worker_id (nat (clamp 1 100 batch_size)) []"

definition redis_lease_jobs_batch_with_ordering ::
  "Env \<Rightarrow> string \<Rightarrow> string \<Rightarrow> int \<Rightarrow> int \<Rightarrow> QueueOrdering \<Rightarrow> (anyhow + Job list) prog" where
  "redis_lease_jobs_batch_with_ordering env queue worker_id lease_seconds batch_size policy =
     redis_lease_jobs_batch env queue worker_id lease_seconds batch_size"

section \<open>Reaping\<close>

definition redis_requeue :: "datetime \<Rightarrow> Job \<Rightarrow> Job" where
  "redis_requeue now job =
     job\<lparr>j_status := JobStatus_as_str JobStatus.Queued, j_locked_at := None,
         j_locked_by := None, j_lock_expires_at := None, j_updated_at := now\<rparr>"

primrec redis_reap_ids ::
  "datetime \<Rightarrow> string \<Rightarrow> string \<Rightarrow> uuid list \<Rightarrow> nat \<Rightarrow> (nat \<Rightarrow> 'a prog) \<Rightarrow> 'a prog" where
  "redis_reap_ids now proc_key qkey [] reaped k = k reaped"
| "redis_reap_ids now proc_key qkey (i # is) reaped k =
     HGET_jobs i (\<lambda>json.
       case Option.bind json from_str of
         None \<Rightarrow> redis_reap_ids now proc_key qkey is reaped k
       | Some job \<Rightarrow>
           (case j_lock_expires_at job of
              None \<Rightarrow> redis_reap_ids now proc_key qkey is reaped k
            | Some expiry \<Rightarrow>
                if expiry \<le> now
                then HSET_jobs i (Encoded (redis_requeue now job))
                  (LREM_processing proc_key i
                    (RPUSH_queue qkey i
                      (redis_reap_ids now proc_key qkey is (Suc reaped) k)))
                else redis_reap_ids now proc_key qkey is reaped k))"

primrec redis_reap_keys ::
  "datetime \<Rightarrow> string list \<Rightarrow> nat \<Rightarrow> (anyhow + nat) prog" where
  "redis_reap_keys now [] reaped = Return (Inr reaped)"
| "redis_reap_keys now (proc_key # keys) reaped =
     (let parts = split_at (CHR '':'') proc_key
      in if length parts < 4 then redis_reap_keys now keys reaped
         else LRANGE_processing proc_key (\<lambda>job_ids.
           redis_reap_ids now proc_key (queue_key (parts ! 2)) job_ids reaped (redis_reap_keys now keys)))"

definition redis_reap_expired_locks :: "Env \<Rightarrow> (anyhow + nat) prog" where
  "redis_reap_expired_locks env = KEYS_processing (\<lambda>keys. redis_reap_keys (e_now env) keys 0)"

section \<open>Attempts and outcomes\<close>

definition redis_lease_held :: "string \<Rightarrow> Job \<Rightarrow> bool" where
  "redis_lease_held worker_id job \<longleftrightarrow>
     \<not> (j_status job \<noteq> ''running'' \<or> j_locked_by job \<noteq> Some worker_id)"

primrec redis_start_loop ::
  "(nat \<Rightarrow> uuid) \<Rightarrow> string \<Rightarrow> uuid list \<Rightarrow> (uuid \<times> uuid \<times> int) list
     \<Rightarrow> (anyhow + (uuid \<times> uuid \<times> int) list) prog" where
  "redis_start_loop fresh worker_id [] results = Return (Inr results)"
| "redis_start_loop fresh worker_id (i # is) results =
     HGET_jobs i (\<lambda>json.
       case Option.bind json from_str of
         None \<Rightarrow> Return (Inl (job_not_found i))
       | Some job \<Rightarrow>
           if \<not> redis_lease_held worker_id job then Return (Inl (cannot_start_attempt i worker_id))
           else INCR_attempts i (\<lambda>attempt_no.
             redis_start_loop fresh worker_id is
               (results @ [(i, fresh (length results), attempt_no)])))"

definition redis_start_attempts_batch ::
  "Env \<Rightarrow> string list \<Rightarrow> uuid list \<Rightarrow> string \<Rightarrow> (anyhow + (uuid \<times> uuid \<times> int) list) prog" where
  "redis_start_attempts_batch env dataset_ids job_ids worker_id =
     redis_start_loop (e_fresh env) worker_id job_ids []"

definition redis_complete :: "datetime \<Rightarrow> Job \<Rightarrow> Job" where
  "redis_complete now job =
     job\<lparr>j_status := JobStatus_as_str JobStatus.Succeeded, j_locked_at := None,
         j_locked_by := None, j_lock_expires_at := None, j_updated_at := now\<rparr>"

definition redis_next_occurrence :: "Env \<Rightarrow> int \<Rightarrow> Job \<Rightarrow> Job" where
  "redis_next_occurrence env recurring job =
     (let interval = max recurring 1
      in job\<lparr>j_id := e_fresh env 0, j_replay_of_job_id := Some (j_id job),
             j_idempotency_key := None, j_run_at := j_run_at job + seconds interval,
             j_deadline_at := map_option (\<lambda>deadline. deadline + seconds interval) (j_deadline_at job),
             j_status := JobStatus_as_str JobStatus.Queued, j_locked_at := None,
             j_locked_by := None, j_lock_expires_at := None, j_dlq_reason_code := None,
             j_dlq_at := None, j_created_at := e_now env, j_updated_at := e_now env\<rparr>)"

definition redis_mark_succeeded ::
  "Env \<Rightarrow> uuid \<Rightarrow> uuid \<Rightarrow> string \<Rightarrow> int \<Rightarrow> (anyhow + unit) prog" where
  "redis_mark_succeeded env job_id attempt_id worker_id latency_ms =
     HGET_jobs job_id (\<lambda>json.
       case Option.bind json from_str of
         None \<Rightarrow> Return (Inr ())
       | Some job0 \<Rightarrow>
           if \<not> redis_lease_held worker_id job0
           then Return (Inl (illegal_transition ''completed'' job_id worker_id))
           else
             (let job = redis_complete (e_now env) job0;
                  next_job = map_option (\<lambda>interval. redis_next_occurrence env interval job)
                               (j_recurring_interval_seconds job)
              in HSET_jobs job_id (Encoded job)
                   (LREM_processing (processing_key (j_queue job) worker_id) job_id
                     (case next_job of
                        None \<Rightarrow> Return (Inr ())
                      | Some next \<Rightarrow>
                          HSET_jobs (j_id next) (Encoded next)
                            (RPUSH_queue (queue_key (j_queue next)) (j_id next)
                              (notify_queue_local (j_queue next) (Return (Inr ()))))))))"

primrec redis_mark_succeeded_loop ::
  "(uuid \<times> uuid \<times> int) list \<Rightarrow> (nat \<Rightarrow> Env) \<Rightarrow> string \<Rightarrow> (anyhow + unit) prog" where
  "redis_mark_succeeded_loop [] envs worker_id = Return (Inr ())"
| "redis_mark_succeeded_loop (u # us) envs worker_id =
     (case u of (job_id, attempt_id, latency_ms) \<Rightarrow>
        and_then (redis_mark_succeeded (envs 0) job_id attempt_id worker_id latency_ms) (\<lambda>r.
          case r of
            Inl e \<Rightarrow> Return (Inl e)
          | Inr _ \<Rightarrow> redis_mark_succeeded_loop us (\<lambda>k. envs (Suc k)) worker_id))"

definition redis_mark_succeeded_batch ::
  "(nat \<Rightarrow> Env) \<Rightarrow> string \<Rightarrow> (uuid \<times> uuid \<times> int) list \<Rightarrow> string \<Rightarrow> (anyhow + unit) prog" where
  "redis_mark_succeeded_batch envs dataset_id updates worker_id =
     redis_mark_succeeded_loop updates envs worker_id"

definition redis_retry :: "datetime \<Rightarrow> datetime \<Rightarrow> Job \<Rightarrow> Job" where
  "redis_retry now next_run_at job =
     job\<lparr>j_status := JobStatus_as_str JobStatus.Queued, j_run_at := next_run_at,
         j_locked_at := None, j_locked_by := None, j_lock_expires_at := None,
         j_updated_at := now\<rparr>"

definition redis_reschedule_for_retry ::
  "Env \<Rightarrow> uuid \<Rightarrow> uuid \<Rightarrow> string \<Rightarrow> int \<Rightarrow> datetime \<Rightarrow> string \<Rightarrow> string \<Rightarrow> int
     \<Rightarrow> (anyhow + unit) prog" where
  "redis_reschedule_for_retry env job_id attempt_id worker_id latency_ms next_run_at error_code
     error_message attempt_no =
     HGET_jobs job_id (\<lambda>json.
       case Option.bind json from_str of
         None \<Rightarrow> Return (Inr ())
       | Some job0 \<Rightarrow>
           if \<not> redis_lease_held worker_id job0
           then Return (Inl (illegal_transition ''retry_wait'' job_id worker_id))
           else
             (let job = redis_retry (e_now env) next_run_at job0
              in HSET_jobs job_id (Encoded job)
                   (LREM_processing (processing_key (j_queue job) worker_id) job_id
                     (RPUSH_queue (queue_key (j_queue job)) job_id (Return (Inr ()))))))"

definition redis_dlq :: "datetime \<Rightarrow> string \<Rightarrow> Job \<Rightarrow> Job" where
  "redis_dlq now reason_code job =
     job\<lparr>j_status := JobStatus_as_str JobStatus.Dlq, j_dlq_reason_code := Some reason_code,
         j_dlq_at := Some now, j_updated_at := now\<rparr>"

definition redis_mark_dlq ::
  "Env \<Rightarrow> uuid \<Rightarrow> uuid \<Rightarrow> string \<Rightarrow> int \<Rightarrow> string \<Rightarrow> string \<Rightarrow> string \<Rightarrow> int
     \<Rightarrow> (anyhow + unit) prog" where
  "redis_mark_dlq env job_id attempt_id worker_id latency_ms reason_code error_code error_message
     attempt_no =
     HGET_jobs job_id (\<lambda>json.
       case Option.bind json from_str of
         None \<Rightarrow> Return (Inr ())
       | Some job0 \<Rightarrow>
           if \<not> redis_lease_held worker_id job0
           then Return (Inl (illegal_transition ''dlq'' job_id worker_id))
           else
             (let job = redis_dlq (e_now env) reason_code job0
              in HSET_jobs job_id (Encoded job)
                   (LREM_processing (processing_key (j_queue job) worker_id) job_id
                     (Return (Inr ())))))"

section \<open>Retention, maintenance and heartbeats\<close>

definition redis_archive_succeeded_older_than :: "datetime \<Rightarrow> int \<Rightarrow> (anyhow + nat) prog" where
  "redis_archive_succeeded_older_than cutoff limit = Return (Inr 0)"

definition redis_delete_history_for_succeeded_older_than ::
  "datetime \<Rightarrow> int \<Rightarrow> (anyhow + nat \<times> nat) prog" where
  "redis_delete_history_for_succeeded_older_than cutoff limit = Return (Inr (0, 0))"

definition redis_perform_maintenance :: "Env \<Rightarrow> (anyhow + unit) prog" where
  "redis_perform_maintenance env = and_then (redis_reap_expired_locks env) (\<lambda>_. Return (Inr ()))"

definition redis_extend_lease :: "Env \<Rightarrow> uuid \<Rightarrow> string \<Rightarrow> int \<Rightarrow> (anyhow + bool) prog" where
  "redis_extend_lease env job_id worker_id lease_seconds =
     HGET_jobs job_id (\<lambda>json.
       case Option.bind json from_str of
         None \<Rightarrow> Return (Inr False)
       | Some job \<Rightarrow>
           if j_status job = ''running'' \<and> j_locked_by job = Some worker_id
           then HSET_jobs job_id
             (Encoded (job\<lparr>j_lock_expires_at := Some (e_now env + seconds lease_seconds),
                           j_updated_at := e_now env\<rparr>))
             (Return (Inr True))
           else Return (Inr False))"

section \<open>Cancellation and queries\<close>

definition redis_cancelled :: "datetime \<Rightarrow> Job \<Rightarrow> Job" where
  "redis_cancelled now job =
     job\<lparr>j_status := JobStatus_as_str JobStatus.Cancelled, j_locked_at := None,
         j_locked_by := None, j_lock_expires_at := None, j_updated_at := now\<rparr>"

definition redis_cancel_job :: "Env \<Rightarrow> uuid \<Rightarrow> string option \<Rightarrow> (anyhow + unit) prog" where
  "redis_cancel_job env job_id worker_id =
     HGET_jobs job_id (\<lambda>json.
       case json of
         None \<Rightarrow> Return (Inl (job_not_found job_id))
       | Some text \<Rightarrow>
           (case from_str text of
              None \<Rightarrow> Return (Inl (message ''malformed job''))
            | Some job \<Rightarrow>
                (let write = HSET_jobs job_id (Encoded (redis_cancelled (e_now env) job)) (Return (Inr ()))
                 in if j_status job = ''queued'' then write
                    else if j_status job = ''running''
                    then (case worker_id of
                            None \<Rightarrow> Return (Inl (cancel_needs_worker job_id))
                          | Some w \<Rightarrow>
                              if j_locked_by job \<noteq> Some w
                              then Return (Inl (illegal_transition ''cancelled'' job_id w))
                              else LREM_processing (processing_key (j_queue job) w) job_id write)
                    else if j_status job \<in> {''succeeded'', ''dlq'', ''canceled''}
                    then Return (Inl (cancel_terminal job_id (j_status job)))
                    else Return (Inl (cancel_invalid_status job_id (j_status job))))))"

definition redis_get_job :: "uuid \<Rightarrow> (anyhow + Job option) prog" where
  "redis_get_job job_id = HGET_jobs job_id (\<lambda>json. Return (Inr (Option.bind json from_str)))"

definition redis_list_item :: "Job \<Rightarrow> JobListItem" where
  "redis_list_item j =
     \<lparr>li_id = j_id j, li_idempotency_key = j_idempotency_key j, li_queue = j_queue j,
      li_job_type = j_job_type j, li_status = j_status j, li_run_at = j_run_at j,
      li_deadline_at = j_deadline_at j, li_timeout_seconds = j_timeout_seconds j,
      li_recurring_interval_seconds = j_recurring_interval_seconds j,
      li_priority = j_priority j, li_max_attempts = j_max_attempts j,
      li_last_error_code = None, li_last_error_message = None,
      li_dlq_reason_code = j_dlq_reason_code j, li_created_at = j_created_at j,
      li_updated_at = j_updated_at j\<rparr>"

definition redis_listed :: "string option \<Rightarrow> string option \<Rightarrow> Job \<Rightarrow> bool" where
  "redis_listed queue status job \<longleftrightarrow>
     (case queue of Some q \<Rightarrow> j_queue job = q | None \<Rightarrow> True)
     \<and> (case status of Some st \<Rightarrow> j_status job = st | None \<Rightarrow> True)"

definition redis_list_jobs ::
  "string option \<Rightarrow> string option \<Rightarrow> int \<Rightarrow> datetime option \<Rightarrow> uuid option
     \<Rightarrow> (anyhow + JobListItem list) prog" where
  "redis_list_jobs queue status limit cursor_created_at cursor_id =
     HGETALL_jobs (\<lambda>m.
       (let items = map redis_list_item
              (filter (redis_listed queue status) (List.map_filter from_str (hm_values m)))
        in Return (Inr (take (nat (clamp 1 500 limit)) (sort_key (\<lambda>a. - li_created_at a) items)))))"

definition redis_replay_entity ::
  "Env \<Rightarrow> uuid \<Rightarrow> string option \<Rightarrow> datetime option \<Rightarrow> Job \<Rightarrow> Job" where
  "redis_replay_entity env job_id override_queue override_run_at src =
     \<lparr>j_dataset_id = ''default'', j_replay_of_job_id = Some job_id, j_idempotency_key = None,
      j_id = e_fresh env 0,
      j_queue = (case override_queue of Some q \<Rightarrow> q | None \<Rightarrow> j_queue src),
      j_job_type = j_job_type src, j_payload = j_payload src,
      j_run_at = (case override_run_at of Some t \<Rightarrow> t | None \<Rightarrow> e_now env),
      j_deadline_at = j_deadline_at src, j_timeout_seconds = j_timeout_seconds src,
      j_recurring_interval_seconds = j_recurring_interval_seconds src,
      j_status = JobStatus_as_str JobStatus.Queued, j_priority = j_priority src,
      j_max_attempts = j_max_attempts src, j_locked_at = None, j_locked_by = None,
      j_lock_expires_at = None, j_dlq_reason_code = None, j_dlq_at = None,
      j_created_at = e_now env, j_updated_at = e_now env\<rparr>"

definition redis_replay_job ::
  "Env \<Rightarrow> uuid \<Rightarrow> string option \<Rightarrow> datetime option \<Rightarrow> (anyhow + uuid) prog" where
  "redis_replay_job env job_id override_queue override_run_at =
     HGET_jobs job_id (\<lambda>json.
       case json of
         None \<Rightarrow> Return (Inl (job_not_found job_id))
       | Some text \<Rightarrow>
           (case from_str text of
              None \<Rightarrow> Return (Inl (message ''malformed job''))
            | Some src \<Rightarrow>
                (let new_job = redis_replay_entity env job_id override_queue override_run_at src
                 in HSET_jobs (e_fresh env 0) (Encoded new_job)
                      (RPUSH_queue (queue_key (j_queue new_job)) (e_fresh env 0)
                        (notify_queue_local (j_queue new_job) (Return (Inr (e_fresh env 0))))))))"

section \<open>Streams\<close>

definition redis_publish :: "Env \<Rightarrow> string \<Rightarrow> NewEvent \<Rightarrow> (anyhow + int) prog" where
  "redis_publish env stream event =
     INCR_stream_seq stream (\<lambda>sequence_no.
       RPUSH_events stream
         [Encoded \<lparr>ev_sequence_no = sequence_no, ev_stream_name = stream,
                   ev_event_type = ne_event_type event, ev_payload_json = ne_payload_json event,
                   ev_created_at = e_now env\<rparr>]
         (PUBLISH (stream_notify_channel stream)
           (notify_stream_local stream (Return (Inr sequence_no)))))"

definition redis_subscribe_stream :: "string \<Rightarrow> string \<Rightarrow> int option \<Rightarrow> (anyhow + unit) prog" where
  "redis_subscribe_stream stream consumer_group last_seq =
     Command (\<lambda>s. (Return (Inr ()),
       case map_of (rs_stream_notifiers s) stream of
         Some _ \<Rightarrow> s
       | None \<Rightarrow> s\<lparr>rs_stream_notifiers := hm_insert stream 0 (rs_stream_notifiers s)\<rparr>))"

definition redis_ack :: "Env \<Rightarrow> string \<Rightarrow> string \<Rightarrow> int \<Rightarrow> (anyhow + unit) prog" where
  "redis_ack env stream consumer_group n =
     HGET_offset stream consumer_group (\<lambda>current_offset.
       (let new_seq = (case current_offset of Some existing \<Rightarrow> max existing n | None \<Rightarrow> n)
        in HSET_offset stream consumer_group new_seq
             (HSET_offset_time stream consumer_group (e_now env) (Return (Inr ())))))"

fun redis_scan :: "int \<Rightarrow> nat \<Rightarrow> Event encoded list \<Rightarrow> Event list \<Rightarrow> Event list" where
  "redis_scan after_seq limit [] result = result"
| "redis_scan after_seq limit (raw # raws) result =
     (case from_str raw of
        None \<Rightarrow> redis_scan after_seq limit raws result
      | Some event \<Rightarrow>
          if after_seq < ev_sequence_no event
          then (if limit \<le> length (result @ [event]) then result @ [event]
                else redis_scan after_seq limit raws (result @ [event]))
          else redis_scan after_seq limit raws result)"

definition redis_read_events :: "string \<Rightarrow> int \<Rightarrow> int \<Rightarrow> (anyhow + Event list) prog" where
  "redis_read_events stream after_seq limit =
     LRANGE_events stream (\<lambda>raw_events.
       Return (Inr (redis_scan after_seq (nat (clamp 1 1000 limit)) raw_events [])))"

definition redis_prune_events :: "string \<Rightarrow> int \<Rightarrow> (anyhow + nat) prog" where
  "redis_prune_events stream through_seq =
     HGETALL_offsets stream (\<lambda>offsets.
       (let min_offset = (if offsets = [] then through_seq else Min (set (hm_values offsets)));
            cutoff = min through_seq min_offset
        in LRANGE_events stream (\<lambda>raw_events.
             (let before = length raw_events;
                  retained = filter (\<lambda>raw. case from_str raw of
                      Some event \<Rightarrow> cutoff < ev_sequence_no event
                    | None \<Rightarrow> True) raw_events;
                  finish = LLEN_events stream (\<lambda>after. Return (Inr (before - after)))
              in DEL_events stream
                   (if retained \<noteq> [] then RPUSH_events stream retained finish else finish)))))"

definition redis_consumer_group_info ::
  "datetime \<Rightarrow> string \<Rightarrow> (anyhow + ConsumerGroupStatus list) prog" where
  "redis_consumer_group_info now stream =
     HGETALL_offsets stream (\<lambda>m. HGETALL_offset_times stream (\<lambda>times.
       Return (Inr (map (\<lambda>(grp, last_acked_seq).
         \<lparr>cg_consumer_group = grp, cg_stream_name = stream, cg_last_acked_seq = last_acked_seq,
          cg_updated_at = (case Option.bind (map_of times grp) from_str of
                             Some t \<Rightarrow> t | None \<Rightarrow> now)\<rparr>) m))))"

section \<open>The trait objects\<close>

text \<open>
  A call that runs with no other client between its commands is an operation on the state.
  The argument is the time a reader of consumer groups sees where none is recorded.
\<close>

definition redis_stream :: "datetime \<Rightarrow> RedisBackend StreamBackend" where
  "redis_stream now =
     \<lparr>sx_publish = (\<lambda>env stream event. run_prog (redis_publish env stream event)),
      sx_subscribe_stream = (\<lambda>stream grp n. run_prog (redis_subscribe_stream stream grp n)),
      sx_ack = (\<lambda>env stream grp n. run_prog (redis_ack env stream grp n)),
      sx_read_events = (\<lambda>stream n limit. run_prog (redis_read_events stream n limit)),
      sx_prune_events = (\<lambda>stream n. run_prog (redis_prune_events stream n)),
      sx_consumer_group_info = (\<lambda>stream. run_prog (redis_consumer_group_info now stream))\<rparr>"

definition redis_backend :: "datetime \<Rightarrow> RedisBackend StorageBackend" where
  "redis_backend now =
     \<lparr>sb_capabilities = (\<lambda>_. caps_redis),
      sb_as_stream = Some (redis_stream now),
      sb_run_migrations = run_prog redis_run_migrations,
      sb_health_check = run_prog redis_health_check,
      sb_enqueue = (\<lambda>env job. run_prog (redis_enqueue env job)),
      sb_subscribe = (\<lambda>queue. run_prog (redis_subscribe queue)),
      sb_lease_jobs_batch = (\<lambda>env q w ls bs. run_prog (redis_lease_jobs_batch env q w ls bs)),
      sb_lease_jobs_batch_with_ordering =
        (\<lambda>env q w ls bs policy. run_prog (redis_lease_jobs_batch_with_ordering env q w ls bs policy)),
      sb_reap_expired_locks = (\<lambda>env. run_prog (redis_reap_expired_locks env)),
      sb_start_attempts_batch = (\<lambda>env ds is w. run_prog (redis_start_attempts_batch env ds is w)),
      sb_mark_succeeded = (\<lambda>env i a w l. run_prog (redis_mark_succeeded env i a w l)),
      sb_mark_succeeded_batch = (\<lambda>envs d us w. run_prog (redis_mark_succeeded_batch envs d us w)),
      sb_reschedule_for_retry =
        (\<lambda>env i a w l t c m n. run_prog (redis_reschedule_for_retry env i a w l t c m n)),
      sb_mark_dlq = (\<lambda>env i a w l r c m n. run_prog (redis_mark_dlq env i a w l r c m n)),
      sb_archive_succeeded_older_than =
        (\<lambda>c l. run_prog (redis_archive_succeeded_older_than c l)),
      sb_delete_history_for_succeeded_older_than =
        (\<lambda>c l. run_prog (redis_delete_history_for_succeeded_older_than c l)),
      sb_perform_maintenance = (\<lambda>env. run_prog (redis_perform_maintenance env)),
      sb_extend_lease = (\<lambda>env i w ls. run_prog (redis_extend_lease env i w ls)),
      sb_cancel_job = (\<lambda>env i w. run_prog (redis_cancel_job env i w)),
      sb_get_job = (\<lambda>i. run_prog (redis_get_job i)),
      sb_list_jobs = (\<lambda>q st n c i. run_prog (redis_list_jobs q st n c i)),
      sb_replay_job = (\<lambda>env i q t. run_prog (redis_replay_job env i q t))\<rparr>"

end
