(* ===== verification/Redis_Contract.thy ===== *)
theory Redis_Contract
  imports Redis_Store Memory_Contract Stream_Contract
begin

text \<open>
  The Redis storage as one client sees it that is alone on the server: every call runs all of
  its commands. The invariant of its jobs and queues, the laws the worker relies on and the
  laws of event streams.
\<close>

section \<open>The abstract view\<close>

definition redis_stored :: "RedisBackend \<Rightarrow> uuid \<Rightarrow> Job option" where
  "redis_stored s i = Option.bind (map_of (rs_jobs s) i) from_str"

definition redis_used :: "RedisBackend \<Rightarrow> uuid set" where
  "redis_used s = dom (map_of (rs_jobs s))"

abbreviation waiting_ids :: "RedisBackend \<Rightarrow> string \<Rightarrow> uuid list" where
  "waiting_ids s q \<equiv> at_key (rs_queues s) (queue_key q)"

text \<open>
  Stored jobs carry their identifier, and a list of a queue names queued jobs of that queue,
  each once.
\<close>

definition redis_inv :: "RedisBackend \<Rightarrow> bool" where
  "redis_inv s \<longleftrightarrow>
     (\<forall>i j. redis_stored s i = Some j \<longrightarrow> j_id j = i)
     \<and> (\<forall>q. distinct (waiting_ids s q))
     \<and> (\<forall>q. set (waiting_ids s q) \<subseteq> waiting (redis_stored s) q)"

lemma queue_key_inj [simp]: "queue_key q = queue_key q' \<longleftrightarrow> q = q'"
  by (simp add: queue_key_def)

lemma redis_stored_insert [simp]:
  "redis_stored (s\<lparr>rs_jobs := hm_insert i (Encoded j) (rs_jobs s)\<rparr>) = (redis_stored s)(i \<mapsto> j)"
  by (auto simp: redis_stored_def)

lemma redis_stored_cong [simp]:
  "redis_stored (s\<lparr>rs_queues := x\<rparr>) = redis_stored s"
  "redis_stored (s\<lparr>rs_processing := y\<rparr>) = redis_stored s"
  "redis_stored (s\<lparr>rs_attempts := z\<rparr>) = redis_stored s"
  "redis_stored (s\<lparr>rs_notifiers := u\<rparr>) = redis_stored s"
  "redis_stored (s\<lparr>rs_channels := u\<rparr>) = redis_stored s"
  by (simp_all add: redis_stored_def fun_eq_iff)

lemma redis_used_simps [simp]:
  "redis_used (s\<lparr>rs_jobs := hm_insert i json (rs_jobs s)\<rparr>) = insert i (redis_used s)"
  "redis_used (s\<lparr>rs_queues := x\<rparr>) = redis_used s"
  "redis_used (s\<lparr>rs_processing := y\<rparr>) = redis_used s"
  "redis_used (s\<lparr>rs_attempts := z\<rparr>) = redis_used s"
  "redis_used (s\<lparr>rs_notifiers := u\<rparr>) = redis_used s"
  by (simp_all add: redis_used_def)

lemma stored_used: "redis_stored s i = Some j \<Longrightarrow> i \<in> redis_used s"
  by (auto simp: redis_stored_def redis_used_def dom_def split: bind_splits)

text \<open>What the programs do with a job they read is decided by the decoded job.\<close>

lemma run_HGET_stored:
  "run_prog (HGET_jobs i (\<lambda>json. case Option.bind json from_str of None \<Rightarrow> p | Some j \<Rightarrow> f j)) s =
     (case redis_stored s i of None \<Rightarrow> run_prog p s | Some j \<Rightarrow> run_prog (f j) s)"
  by (simp add: HGET_jobs_def redis_stored_def split: option.split)

lemma run_writes [simp]:
  "run_prog (HSET_jobs i json p) s = run_prog p (s\<lparr>rs_jobs := hm_insert i json (rs_jobs s)\<rparr>)"
  "run_prog (RPUSH_queue key i p) s =
     run_prog p (s\<lparr>rs_queues := put_key key (at_key (rs_queues s) key @ [i]) (rs_queues s)\<rparr>)"
  "run_prog (LPUSH_queue key i p) s =
     run_prog p (s\<lparr>rs_queues := put_key key (i # at_key (rs_queues s) key) (rs_queues s)\<rparr>)"
  "run_prog (LREM_processing key i p) s = run_prog p (s\<lparr>rs_processing :=
     put_key key (remove1 i (at_key (rs_processing s) key)) (rs_processing s)\<rparr>)"
  "run_prog (notify_queue_local q p) s = run_prog p (s\<lparr>rs_notifiers := hm_modify q Suc (rs_notifiers s)\<rparr>)"
  "run_prog (PUBLISH ch p) s =
     run_prog p (s\<lparr>rs_channels := hm_insert ch (counter (rs_channels s) ch + 1) (rs_channels s)\<rparr>)"
  by (simp_all add: commands)

section \<open>The invariant under single writes\<close>

lemma redis_invD:
  assumes "redis_inv s"
  shows "redis_stored s i = Some j \<Longrightarrow> j_id j = i" "distinct (waiting_ids s q)"
    "i \<in> set (waiting_ids s q) \<Longrightarrow> i \<in> waiting (redis_stored s) q"
  using assms unfolding redis_inv_def by blast+

lemma waiting_in_one_queue: "i \<in> waiting J q \<Longrightarrow> i \<in> waiting J q' \<Longrightarrow> q = q'"
  by (auto simp: waiting_def)

lemma redis_inv_cong:
  "redis_stored t = redis_stored s \<Longrightarrow> (\<And>q. waiting_ids t q = waiting_ids s q) \<Longrightarrow> redis_inv t = redis_inv s"
  by (simp add: redis_inv_def)

text \<open>A job that is in no list may be written with any content under its identifier.\<close>

lemma redis_inv_write:
  assumes "redis_inv s" "j_id j = i" "\<And>q. i \<notin> set (waiting_ids s q)"
  shows "redis_inv (s\<lparr>rs_jobs := hm_insert i (Encoded j) (rs_jobs s)\<rparr>)"
  unfolding redis_inv_def
proof (intro conjI allI)
  show "redis_stored (s\<lparr>rs_jobs := hm_insert i (Encoded j) (rs_jobs s)\<rparr>) i' = Some j' \<longrightarrow> j_id j' = i'" for i' j'
    using redis_invD(1)[OF assms(1)] assms(2) by auto
  show "distinct (waiting_ids (s\<lparr>rs_jobs := hm_insert i (Encoded j) (rs_jobs s)\<rparr>) q)" for q
    using redis_invD(2)[OF assms(1)] by simp
  show "set (waiting_ids (s\<lparr>rs_jobs := hm_insert i (Encoded j) (rs_jobs s)\<rparr>) q)
      \<subseteq> waiting (redis_stored (s\<lparr>rs_jobs := hm_insert i (Encoded j) (rs_jobs s)\<rparr>)) q" for q
    using redis_invD(3)[OF assms(1)] assms(3) by (auto simp: waiting_def)
qed

lemma not_listed:
  assumes "redis_inv s" "\<And>q. i \<notin> waiting (redis_stored s) q"
  shows "i \<notin> set (waiting_ids s q)"
  using redis_invD(3)[OF assms(1)] assms(2) by blast

text \<open>A queued job that is in no list may be appended to the list of its queue.\<close>

lemma redis_inv_push:
  assumes "redis_inv s" "i \<in> waiting (redis_stored s) q" "i \<notin> set (waiting_ids s q)"
  shows "redis_inv (s\<lparr>rs_queues := put_key (queue_key q) (waiting_ids s q @ [i]) (rs_queues s)\<rparr>)"
  using assms by (auto simp: redis_inv_def)

text \<open>The first entry may be taken off a list.\<close>

lemma redis_inv_pop:
  assumes "redis_inv s" "waiting_ids s q = i # is"
  shows "redis_inv (s\<lparr>rs_queues := put_key (queue_key q) is (rs_queues s), rs_processing := p\<rparr>)"
    "i \<in> waiting (redis_stored s) q"
    "i \<notin> set (waiting_ids (s\<lparr>rs_queues := put_key (queue_key q) is (rs_queues s), rs_processing := p\<rparr>) q')"
proof -
  show w: "i \<in> waiting (redis_stored s) q" using redis_invD(3)[OF assms(1), of i q] assms(2) by simp
  have d: "distinct (i # is)" "set is \<subseteq> waiting (redis_stored s) q"
    using assms unfolding redis_inv_def by (metis, metis set_subset_Cons subset_trans)
  then show "redis_inv (s\<lparr>rs_queues := put_key (queue_key q) is (rs_queues s), rs_processing := p\<rparr>)"
    using assms(1) by (simp add: redis_inv_def)
  show "i \<notin> set (waiting_ids (s\<lparr>rs_queues := put_key (queue_key q) is (rs_queues s), rs_processing := p\<rparr>) q')"
    using d(1) redis_invD(3)[OF assms(1), of i q'] waiting_in_one_queue[OF w, of q'] by auto
qed

section \<open>Leasing\<close>

text \<open>What a lease call may do to the stored jobs.\<close>

definition redis_leases ::
  "string \<Rightarrow> string \<Rightarrow> RedisBackend \<Rightarrow> Job list \<Rightarrow> RedisBackend \<Rightarrow> bool" where
  "redis_leases q w s js s' \<longleftrightarrow>
     redis_inv s' \<and> distinct (map j_id js) \<and> redis_used s' = redis_used s
     \<and> (\<forall>j \<in> set js. redis_stored s' (j_id j) = Some j \<and> held_by (redis_stored s') w (j_id j)
          \<and> (\<exists>old. redis_stored s (j_id j) = Some old \<and> j_status old = ''queued''
                 \<and> j_queue old = q \<and> j_job_type j = j_job_type old
                 \<and> j_recurring_interval_seconds j = j_recurring_interval_seconds old))
     \<and> (\<forall>k. k \<notin> j_id ` set js \<longrightarrow>
          redis_stored s' k = redis_stored s k
          \<or> k \<in> waiting (redis_stored s) q \<and> status_of (redis_stored s') k = Some ''dlq'')"

lemma leases_same:
  "redis_leases q w t js s' \<Longrightarrow> redis_stored t = redis_stored s \<Longrightarrow> redis_used t = redis_used s
    \<Longrightarrow> redis_leases q w s js s'"
  by (simp add: redis_leases_def)

lemma leases_none: "redis_inv s \<Longrightarrow> redis_leases q w s [] s"
  by (simp add: redis_leases_def)

lemma redis_leasesD:
  assumes "redis_leases q w s js s'"
  shows "redis_inv s'" "distinct (map j_id js)" "redis_used s' = redis_used s"
    "j \<in> set js \<Longrightarrow> redis_stored s' (j_id j) = Some j \<and> held_by (redis_stored s') w (j_id j)
       \<and> (\<exists>old. redis_stored s (j_id j) = Some old \<and> j_status old = ''queued''
              \<and> j_queue old = q \<and> j_job_type j = j_job_type old
              \<and> j_recurring_interval_seconds j = j_recurring_interval_seconds old)"
    "k \<notin> j_id ` set js \<Longrightarrow> redis_stored s' k = redis_stored s k
       \<or> k \<in> waiting (redis_stored s) q \<and> status_of (redis_stored s') k = Some ''dlq''"
  using assms unfolding redis_leases_def by simp_all

lemma leased_was_queued:
  assumes "redis_leases q w t js s'" "j_status b \<noteq> ''queued''" "redis_stored t i = Some b"
  shows "i \<notin> j_id ` set js" "redis_stored s' i = Some b"
proof -
  show i: "i \<notin> j_id ` set js"
  proof
    assume "i \<in> j_id ` set js"
    then obtain j where "j \<in> set js" "i = j_id j" by blast
    then show False using redis_leasesD(4)[OF assms(1), of j] assms(2,3) by auto
  qed
  then show "redis_stored s' i = Some b"
    using redis_leasesD(5)[OF assms(1) i] assms(2,3) by (auto simp: waiting_def)
qed

text \<open>One job is settled by a write, then the call goes on.\<close>

lemma leases_after_write:
  assumes "redis_leases q w t js s'" "redis_stored t = (redis_stored s)(i \<mapsto> b)" "j_status b \<noteq> ''queued''"
  shows "i \<notin> j_id ` set js" "redis_stored s' i = Some b"
    "j \<in> set js \<Longrightarrow> redis_stored s' (j_id j) = Some j \<and> held_by (redis_stored s') w (j_id j)
       \<and> (\<exists>old. redis_stored s (j_id j) = Some old \<and> j_status old = ''queued''
              \<and> j_queue old = q \<and> j_job_type j = j_job_type old
              \<and> j_recurring_interval_seconds j = j_recurring_interval_seconds old)"
    "k \<notin> insert i (j_id ` set js) \<Longrightarrow> redis_stored s' k = redis_stored s k
       \<or> k \<in> waiting (redis_stored s) q \<and> status_of (redis_stored s') k = Some ''dlq''"
proof -
  have b: "redis_stored t i = Some b" using assms(2) by simp
  show i: "i \<notin> j_id ` set js" and "redis_stored s' i = Some b"
    using leased_was_queued[OF assms(1,3) b] by blast+
  have same: "redis_stored t k = redis_stored s k" if "k \<noteq> i" for k using assms(2) that by simp
  show "redis_stored s' (j_id j) = Some j \<and> held_by (redis_stored s') w (j_id j)
       \<and> (\<exists>old. redis_stored s (j_id j) = Some old \<and> j_status old = ''queued''
              \<and> j_queue old = q \<and> j_job_type j = j_job_type old
              \<and> j_recurring_interval_seconds j = j_recurring_interval_seconds old)" if "j \<in> set js"
  proof -
    have "j_id j \<noteq> i" using i that by blast
    then show ?thesis using redis_leasesD(4)[OF assms(1) that] same by simp
  qed
  show "redis_stored s' k = redis_stored s k
       \<or> k \<in> waiting (redis_stored s) q \<and> status_of (redis_stored s') k = Some ''dlq''"
    if "k \<notin> insert i (j_id ` set js)"
    using redis_leasesD(5)[OF assms(1), of k] same[of k] that by (auto simp: waiting_def)
qed

lemma leases_after_dlq:
  assumes "redis_leases q w t js s'" "redis_stored t = (redis_stored s)(i \<mapsto> b)"
    and "redis_used t = redis_used s" "j_status b = ''dlq''" "i \<in> waiting (redis_stored s) q"
  shows "redis_leases q w s js s'"
proof -
  have "j_status b \<noteq> ''queued''" using assms(4) by simp
  note later = leases_after_write[OF assms(1,2) this]
  have "redis_stored s' k = redis_stored s k
      \<or> k \<in> waiting (redis_stored s) q \<and> status_of (redis_stored s') k = Some ''dlq''"
    if "k \<notin> j_id ` set js" for k
    using later(4)[of k] later(2) assms(4,5) that by (cases "k = i") (auto simp: status_of_def)
  then show ?thesis
    unfolding redis_leases_def using redis_leasesD(1-3)[OF assms(1)] later(3) assms(3) by blast
qed

lemma leases_after_lock:
  assumes "redis_leases q w t js s'" "redis_stored t = (redis_stored s)(j_id b \<mapsto> b)"
    and "redis_used t = redis_used s" "j_status b = ''running''" "j_locked_by b = Some w"
    and "redis_stored s (j_id b) = Some old" "j_status old = ''queued''" "j_queue old = q"
    and "j_job_type b = j_job_type old"
    and "j_recurring_interval_seconds b = j_recurring_interval_seconds old"
  shows "redis_leases q w s (b # js) s'"
proof -
  have "j_status b \<noteq> ''queued''" using assms(4) by simp
  note later = leases_after_write[OF assms(1,2) this]
  have "held_by (redis_stored s') w (j_id b)" using later(2) assms(4,5) by (simp add: held_by_def)
  then have "redis_stored s' (j_id j) = Some j \<and> held_by (redis_stored s') w (j_id j)
       \<and> (\<exists>old. redis_stored s (j_id j) = Some old \<and> j_status old = ''queued''
              \<and> j_queue old = q \<and> j_job_type j = j_job_type old
              \<and> j_recurring_interval_seconds j = j_recurring_interval_seconds old)"
    if "j \<in> set (b # js)" for j
    using later(3)[of j] later(2) assms(6-10) that by (cases "j = b") auto
  moreover have "redis_stored s' k = redis_stored s k
      \<or> k \<in> waiting (redis_stored s) q \<and> status_of (redis_stored s') k = Some ''dlq''"
    if "k \<notin> j_id ` set (b # js)" for k
    using later(4)[of k] that by simp
  moreover have "distinct (map j_id (b # js))" using later(1) redis_leasesD(2)[OF assms(1)] by simp
  ultimately show ?thesis
    unfolding redis_leases_def using redis_leasesD(1,3)[OF assms(1)] assms(3) by (metis (no_types, lifting))
qed

lemma redis_lease_loop_law:
  assumes "redis_inv s"
  shows "\<exists>js s'. run_prog (redis_lease_loop now ex (queue_key q) pk w n L) s = (Inr (L @ js), s')
    \<and> redis_leases q w s js s'"
  using assms
proof (induction n arbitrary: s L)
  case 0
  then show ?case by (auto simp: leases_none)
next
  case (Suc n)
  show ?case
  proof (cases "waiting_ids s q")
    case Nil
    then show ?thesis using Suc.prems by (auto simp: LMOVE_def leases_none)
  next
    case (Cons i "is")
    define t where "t = s\<lparr>rs_queues := put_key (queue_key q) is (rs_queues s),
        rs_processing := put_key pk (at_key (rs_processing s) pk @ [i]) (rs_processing s)\<rparr>"
    let ?p = "put_key pk (at_key (rs_processing s) pk @ [i]) (rs_processing s)"
    note pop = redis_inv_pop(1)[OF Suc.prems Cons, of ?p, folded t_def]
      redis_inv_pop(2)[OF Suc.prems Cons] redis_inv_pop(3)[OF Suc.prems Cons, of ?p, folded t_def]
    obtain j where j: "redis_stored s i = Some j" "j_status j = ''queued''" "j_queue j = q"
      using pop(2) by (auto simp: waiting_def)
    have id: "j_id j = i" using redis_invD(1)[OF Suc.prems j(1)] .
    have t: "redis_stored t = redis_stored s" "redis_used t = redis_used s" by (simp_all add: t_def)
    have run: "run_prog (redis_lease_loop now ex (queue_key q) pk w (Suc n) L) s =
      (if now < j_run_at j
       then run_prog (LPUSH_queue (queue_key q) i (LREM_processing pk i (redis_lease_loop now ex (queue_key q) pk w n L))) t
       else if redis_past_deadline now j
       then run_prog (HSET_jobs i (Encoded (redis_deadline_dlq now j)) (LREM_processing pk i (redis_lease_loop now ex (queue_key q) pk w n L))) t
       else run_prog (HSET_jobs i (Encoded (redis_lock now w ex j)) (redis_lease_loop now ex (queue_key q) pk w n (L @ [redis_lock now w ex j]))) t)"
      using Cons j(1) t(1) by (simp add: LMOVE_def run_HGET_stored flip: t_def)
    consider (future) "now < j_run_at j" | (dead) "\<not> now < j_run_at j" "redis_past_deadline now j"
      | (lock) "\<not> now < j_run_at j" "\<not> redis_past_deadline now j" by blast
    then show ?thesis
    proof cases
      case future
      define u where "u = t\<lparr>rs_queues := put_key (queue_key q) (i # waiting_ids t q) (rs_queues t),
        rs_processing := put_key pk (remove1 i (at_key (rs_processing t) pk)) (rs_processing t)\<rparr>"
      have "redis_stored u = redis_stored s" "redis_used u = redis_used s"
        by (simp_all add: u_def t)
      moreover have "redis_inv u = redis_inv s"
        by (rule redis_inv_cong) (use Cons in \<open>simp_all add: u_def t_def\<close>)
      moreover have "run_prog (redis_lease_loop now ex (queue_key q) pk w (Suc n) L) s =
          run_prog (redis_lease_loop now ex (queue_key q) pk w n L) u"
        using run future by (simp add: u_def)
      ultimately show ?thesis using Suc.IH[of u L] Suc.prems leases_same[of q w u _ _ s] by metis
    next
      case dead
      let ?b = "redis_deadline_dlq now j"
      define u where "u = t\<lparr>rs_jobs := hm_insert i (Encoded ?b) (rs_jobs t),
        rs_processing := put_key pk (remove1 i (at_key (rs_processing t) pk)) (rs_processing t)\<rparr>"
      have "redis_inv (t\<lparr>rs_jobs := hm_insert i (Encoded ?b) (rs_jobs t)\<rparr>)"
        by (rule redis_inv_write[OF pop(1) _ pop(3)]) (simp add: redis_deadline_dlq_def id)
      then have "redis_inv u" by (simp add: redis_inv_def u_def)
      moreover have "run_prog (redis_lease_loop now ex (queue_key q) pk w (Suc n) L) s =
          run_prog (redis_lease_loop now ex (queue_key q) pk w n L) u"
        using run dead by (simp add: u_def)
      moreover have "redis_stored u = (redis_stored s)(i \<mapsto> ?b)" by (simp add: u_def t)
      moreover have "redis_used u = redis_used s"
        using stored_used[OF j(1)] by (simp add: u_def t insert_absorb)
      moreover have "j_status ?b = ''dlq''" by (simp add: redis_deadline_dlq_def)
      ultimately show ?thesis using Suc.IH[of u L] leases_after_dlq[of q w u _ _ s i ?b] pop(2) by metis
    next
      case lock
      let ?b = "redis_lock now w ex j"
      define u where "u = t\<lparr>rs_jobs := hm_insert i (Encoded ?b) (rs_jobs t)\<rparr>"
      have b: "j_id ?b = i" "j_status ?b = ''running''" "j_locked_by ?b = Some w"
        "j_job_type ?b = j_job_type j" "j_recurring_interval_seconds ?b = j_recurring_interval_seconds j"
        by (simp_all add: redis_lock_def id)
      have u: "redis_inv u" unfolding u_def by (rule redis_inv_write[OF pop(1) b(1) pop(3)])
      have us: "redis_stored u = (redis_stored s)(j_id ?b \<mapsto> ?b)" by (simp add: u_def t b(1))
      have uu: "redis_used u = redis_used s"
        using stored_used[OF j(1)] by (simp add: u_def t insert_absorb)
      from Suc.IH[OF u, of "L @ [?b]"] obtain js s' where js:
        "run_prog (redis_lease_loop now ex (queue_key q) pk w n (L @ [?b])) u = (Inr ((L @ [?b]) @ js), s')"
        "redis_leases q w u js s'" by blast
      have "redis_leases q w s (?b # js) s'"
        by (rule leases_after_lock[OF js(2) us uu b(2,3) _ j(2,3) b(4,5)]) (simp add: b(1) j(1))
      moreover have "run_prog (redis_lease_loop now ex (queue_key q) pk w (Suc n) L) s = (Inr (L @ ?b # js), s')"
        using run lock js(1) by (simp add: u_def)
      ultimately show ?thesis by blast
    qed
  qed
qed

section \<open>Attempts, outcomes and heartbeats\<close>

lemma held_stored:
  assumes "held_by (redis_stored s) w i"
  obtains j where "redis_stored s i = Some j" "redis_lease_held w j" "j_status j = ''running''"
  using assms by (auto simp: held_by_def redis_lease_held_def)

lemma held_not_listed:
  assumes "redis_inv s" "held_by (redis_stored s) w i"
  shows "i \<notin> set (waiting_ids s q)"
  by (rule not_listed[OF assms(1)]) (use assms(2) in \<open>auto simp: held_by_def waiting_def\<close>)

text \<open>Counters may differ after starting attempts, nothing else.\<close>

lemma redis_start_loop_law:
  assumes "\<forall>i \<in> set is. held_by (redis_stored s) w i"
  shows "\<exists>rs s'. run_prog (redis_start_loop fresh w is L) s = (Inr (L @ rs), s')
    \<and> (\<exists>n. s' = s\<lparr>rs_attempts := n\<rparr>) \<and> map fst rs = is"
  using assms
proof (induction "is" arbitrary: s L)
  case Nil
  have "\<exists>n. s = s\<lparr>rs_attempts := n\<rparr>" by (intro exI[of _ "rs_attempts s"]) simp
  then show ?case by simp
next
  case (Cons i "is")
  obtain j where j: "redis_stored s i = Some j" "redis_lease_held w j"
    using Cons.prems held_stored[of s w i] by auto
  define n where "n = counter (rs_attempts s) i + 1"
  define t where "t = s\<lparr>rs_attempts := hm_insert i n (rs_attempts s)\<rparr>"
  have "\<forall>i \<in> set is. held_by (redis_stored t) w i" using Cons.prems by (simp add: t_def)
  from Cons.IH[OF this, of "L @ [(i, fresh (length L), n)]"] obtain rs s' where
    rs: "run_prog (redis_start_loop fresh w is (L @ [(i, fresh (length L), n)])) t
        = (Inr ((L @ [(i, fresh (length L), n)]) @ rs), s')"
      "\<exists>m. s' = t\<lparr>rs_attempts := m\<rparr>" "map fst rs = is" by blast
  have "run_prog (redis_start_loop fresh w (i # is) L) s = (Inr (L @ (i, fresh (length L), n) # rs), s')"
    using j rs(1) by (simp add: run_HGET_stored INCR_attempts_def Let_def t_def n_def)
  moreover have "\<exists>m. s' = s\<lparr>rs_attempts := m\<rparr>" using rs(2) by (auto simp: t_def)
  ultimately show ?case using rs(3) by auto
qed

lemma redis_start_law:
  assumes inv: "redis_inv s" and held: "\<forall>i \<in> set is. held_by (redis_stored s) w i"
  shows "\<exists>rs s'. run_prog (redis_start_attempts_batch env ds is w) s = (Inr rs, s')
        \<and> redis_inv s' \<and> map fst rs = is \<and> redis_stored s' = redis_stored s
        \<and> (\<forall>(i, a, n) \<in> set rs. True)
        \<and> redis_used s' \<subseteq> redis_used s \<union> range (e_fresh env)"
proof -
  from redis_start_loop_law[OF held, of "e_fresh env" "[]"] obtain rs s' where
    "run_prog (redis_start_attempts_batch env ds is w) s = (Inr rs, s')"
    "\<exists>n. s' = s\<lparr>rs_attempts := n\<rparr>" "map fst rs = is" by (auto simp: redis_start_attempts_batch_def)
  moreover from this(2) obtain n where "s' = s\<lparr>rs_attempts := n\<rparr>" by blast
  then have "redis_inv s'" "redis_stored s' = redis_stored s" "redis_used s' = redis_used s"
    using inv by (simp_all add: redis_inv_def)
  ultimately show ?thesis by auto
qed

lemma redis_retry_law:
  assumes inv: "redis_inv s" and held: "held_by (redis_stored s) w i"
  shows "\<exists>s'. run_prog (redis_reschedule_for_retry env i a w l t c m n) s = (Inr (), s') \<and> redis_inv s'
        \<and> status_of (redis_stored s') i = Some ''queued''
        \<and> (\<forall>k. k \<noteq> i \<longrightarrow> redis_stored s' k = redis_stored s k)
        \<and> redis_used s' = redis_used s"
proof -
  obtain j where j: "redis_stored s i = Some j" "redis_lease_held w j" using held_stored[OF held] .
  let ?b = "redis_retry (e_now env) t j"
  define u where "u = s\<lparr>rs_jobs := hm_insert i (Encoded ?b) (rs_jobs s)\<rparr>"
  have id: "j_id ?b = i" "j_queue ?b = j_queue j" "j_status ?b = ''queued''"
    using redis_invD(1)[OF inv j(1)] by (simp_all add: redis_retry_def)
  have u: "redis_inv u" unfolding u_def by (rule redis_inv_write[OF inv id(1) held_not_listed[OF inv held]])
  have us: "redis_stored u = (redis_stored s)(i \<mapsto> ?b)" by (simp add: u_def)
  define v where "v = u\<lparr>rs_queues := put_key (queue_key (j_queue j)) (waiting_ids u (j_queue j) @ [i]) (rs_queues u)\<rparr>"
  have "i \<in> waiting (redis_stored u) (j_queue j)" using id by (simp add: us waiting_def)
  moreover have "i \<notin> set (waiting_ids u (j_queue j))"
    using held_not_listed[OF inv held] by (simp add: u_def)
  ultimately have v: "redis_inv v" unfolding v_def by (rule redis_inv_push[OF u])
  define s' where "s' = v\<lparr>rs_processing := put_key (processing_key (j_queue j) w)
      (remove1 i (at_key (rs_processing s) (processing_key (j_queue j) w))) (rs_processing s)\<rparr>"
  have "run_prog (redis_reschedule_for_retry env i a w l t c m n) s = (Inr (), s')"
    using j id(2) by (simp add: redis_reschedule_for_retry_def run_HGET_stored Let_def s'_def v_def u_def)
  moreover have "redis_inv s'" using v by (simp add: s'_def redis_inv_def)
  moreover have "redis_used s' = redis_used s"
    using stored_used[OF j(1)] by (simp add: s'_def v_def u_def insert_absorb)
  moreover have "redis_stored s' = (redis_stored s)(i \<mapsto> ?b)" by (simp add: s'_def v_def us)
  ultimately show ?thesis using id(3) by (simp add: status_of_def)
qed

lemma redis_dlq_law:
  assumes inv: "redis_inv s" and held: "held_by (redis_stored s) w i"
  shows "\<exists>s'. run_prog (redis_mark_dlq env i a w l r c m n) s = (Inr (), s') \<and> redis_inv s'
        \<and> status_of (redis_stored s') i = Some ''dlq''
        \<and> (\<forall>k. k \<noteq> i \<longrightarrow> redis_stored s' k = redis_stored s k)
        \<and> redis_used s' = redis_used s"
proof -
  obtain j where j: "redis_stored s i = Some j" "redis_lease_held w j" using held_stored[OF held] .
  let ?b = "redis_dlq (e_now env) r j"
  define u where "u = s\<lparr>rs_jobs := hm_insert i (Encoded ?b) (rs_jobs s)\<rparr>"
  have id: "j_id ?b = i" "j_status ?b = ''dlq''" "j_queue ?b = j_queue j"
    using redis_invD(1)[OF inv j(1)] by (simp_all add: redis_dlq_def)
  have u: "redis_inv u" unfolding u_def by (rule redis_inv_write[OF inv id(1) held_not_listed[OF inv held]])
  define s' where "s' = u\<lparr>rs_processing := put_key (processing_key (j_queue j) w)
      (remove1 i (at_key (rs_processing s) (processing_key (j_queue j) w))) (rs_processing s)\<rparr>"
  have "run_prog (redis_mark_dlq env i a w l r c m n) s = (Inr (), s')"
    using j id(3) by (simp add: redis_mark_dlq_def run_HGET_stored Let_def s'_def u_def)
  moreover have "redis_inv s'" using u by (simp add: s'_def redis_inv_def)
  moreover have "redis_used s' = redis_used s"
    using stored_used[OF j(1)] by (simp add: s'_def u_def insert_absorb)
  moreover have "redis_stored s' = (redis_stored s)(i \<mapsto> ?b)" by (simp add: s'_def u_def)
  ultimately show ?thesis using id(2) by (simp add: status_of_def)
qed

text \<open>A new job, written and appended to the list of its queue.\<close>

lemma redis_inv_new:
  assumes inv: "redis_inv s" and j: "j_id j \<notin> redis_used s" "j_status j = ''queued''"
  shows "redis_inv (s\<lparr>rs_jobs := hm_insert (j_id j) (Encoded j) (rs_jobs s),
      rs_queues := put_key (queue_key (j_queue j)) (waiting_ids s (j_queue j) @ [j_id j]) (rs_queues s)\<rparr>)"
proof -
  let ?u = "s\<lparr>rs_jobs := hm_insert (j_id j) (Encoded j) (rs_jobs s)\<rparr>"
  have new: "j_id j \<notin> set (waiting_ids s q)" for q
    by (rule not_listed[OF inv]) (use j(1) in \<open>auto simp: waiting_def dest: stored_used\<close>)
  have u: "redis_inv ?u" by (rule redis_inv_write[OF inv refl new])
  have "redis_inv (?u\<lparr>rs_queues := put_key (queue_key (j_queue j)) (waiting_ids ?u (j_queue j) @ [j_id j]) (rs_queues ?u)\<rparr>)"
    by (rule redis_inv_push[OF u]) (use new j(2) in \<open>simp_all add: waiting_def\<close>)
  then show ?thesis by simp
qed

lemma redis_succeed_law:
  assumes inv: "redis_inv s" and held: "held_by (redis_stored s) w i" and new: "e_fresh env 0 \<notin> redis_used s"
  shows "\<exists>s'. run_prog (redis_mark_succeeded env i a w l) s = (Inr (), s') \<and> redis_inv s'
        \<and> status_of (redis_stored s') i = Some ''succeeded''
        \<and> (\<forall>k. k \<noteq> i \<longrightarrow> k \<noteq> e_fresh env 0 \<longrightarrow> redis_stored s' k = redis_stored s k)
        \<and> (\<forall>j. redis_stored s i = Some j \<longrightarrow> j_recurring_interval_seconds j = None \<longrightarrow> redis_used s' = redis_used s)
        \<and> redis_used s' \<subseteq> insert (e_fresh env 0) (redis_used s)"
proof -
  obtain j where j: "redis_stored s i = Some j" "redis_lease_held w j" using held_stored[OF held] .
  let ?b = "redis_complete (e_now env) j" and ?x = "e_fresh env 0"
  define u where "u = s\<lparr>rs_jobs := hm_insert i (Encoded ?b) (rs_jobs s)\<rparr>"
  have id: "j_id ?b = i" "j_status ?b = ''succeeded''" "j_queue ?b = j_queue j"
    "j_recurring_interval_seconds ?b = j_recurring_interval_seconds j"
    using redis_invD(1)[OF inv j(1)] by (simp_all add: redis_complete_def)
  have u: "redis_inv u" unfolding u_def by (rule redis_inv_write[OF inv id(1) held_not_listed[OF inv held]])
  have used: "redis_used u = redis_used s" using stored_used[OF j(1)] by (simp add: u_def insert_absorb)
  define v where "v = u\<lparr>rs_processing := put_key (processing_key (j_queue j) w)
      (remove1 i (at_key (rs_processing s) (processing_key (j_queue j) w))) (rs_processing s)\<rparr>"
  have v: "redis_inv v" "redis_used v = redis_used s" "redis_stored v = (redis_stored s)(i \<mapsto> ?b)"
    using u used by (simp_all add: v_def redis_inv_def u_def)
  show ?thesis
  proof (cases "j_recurring_interval_seconds j")
    case None
    then have "run_prog (redis_mark_succeeded env i a w l) s = (Inr (), v)"
      using j id(3,4) by (simp add: redis_mark_succeeded_def run_HGET_stored Let_def v_def u_def)
    then show ?thesis using v id(2) by (auto simp: status_of_def)
  next
    case (Some interval)
    let ?n = "redis_next_occurrence env interval ?b"
    define v' where "v' = v\<lparr>rs_jobs := hm_insert ?x (Encoded ?n) (rs_jobs v),
      rs_queues := put_key (queue_key (j_queue j)) (waiting_ids v (j_queue j) @ [?x]) (rs_queues v)\<rparr>"
    have n: "j_id ?n = ?x" "j_status ?n = ''queued''" "j_queue ?n = j_queue j"
      using id(3) by (simp_all add: redis_next_occurrence_def Let_def)
    have "redis_inv v'" using redis_inv_new[OF v(1), of ?n] n new v(2) by (simp add: v'_def)
    moreover have "run_prog (redis_mark_succeeded env i a w l) s =
        (Inr (), v'\<lparr>rs_notifiers := hm_modify (j_queue j) Suc (rs_notifiers v')\<rparr>)"
      using j id(3,4) Some n by (simp add: redis_mark_succeeded_def run_HGET_stored Let_def v'_def v_def u_def)
    moreover have "i \<noteq> ?x" using new stored_used[OF j(1)] by auto
    moreover have "redis_stored v' = (redis_stored s)(i \<mapsto> ?b, ?x \<mapsto> ?n)" by (simp add: v'_def v(3))
    moreover have "redis_used v' = insert ?x (redis_used s)" by (simp add: v'_def v(2))
    ultimately show ?thesis using id(2) Some j(1) by (auto simp: redis_inv_def status_of_def)
  qed
qed

lemma redis_extend_law:
  assumes inv: "redis_inv s"
  shows "redis_inv (snd (run_prog (redis_extend_lease env i w ls) s))
        \<and> (\<forall>k. k \<noteq> i \<longrightarrow> redis_stored (snd (run_prog (redis_extend_lease env i w ls) s)) k = redis_stored s k)
        \<and> (\<forall>j. redis_stored s i = Some j \<longrightarrow>
             (\<exists>e u. redis_stored (snd (run_prog (redis_extend_lease env i w ls) s)) i =
                 Some (j\<lparr>j_lock_expires_at := e, j_updated_at := u\<rparr>)))
        \<and> redis_used (snd (run_prog (redis_extend_lease env i w ls) s)) = redis_used s"
proof (cases "redis_stored s i")
  case None
  then show ?thesis using inv by (simp add: redis_extend_lease_def run_HGET_stored)
next
  case (Some j)
  let ?b = "j\<lparr>j_lock_expires_at := Some (e_now env + seconds ls), j_updated_at := e_now env\<rparr>"
  have same: "\<exists>e u. j = j\<lparr>j_lock_expires_at := e, j_updated_at := u\<rparr>"
    by (intro exI[of _ "j_lock_expires_at j"] exI[of _ "j_updated_at j"]) simp
  show ?thesis
  proof (cases "j_status j = ''running'' \<and> j_locked_by j = Some w")
    case True
    have "held_by (redis_stored s) w i" using Some True by (simp add: held_by_def)
    note free = held_not_listed[OF inv this]
    have "redis_inv (s\<lparr>rs_jobs := hm_insert i (Encoded ?b) (rs_jobs s)\<rparr>)"
      by (rule redis_inv_write[OF inv _ free]) (simp add: redis_invD(1)[OF inv Some])
    moreover have "run_prog (redis_extend_lease env i w ls) s =
        (Inr True, s\<lparr>rs_jobs := hm_insert i (Encoded ?b) (rs_jobs s)\<rparr>)"
      using Some True by (simp add: redis_extend_lease_def run_HGET_stored)
    ultimately show ?thesis using stored_used[OF Some] Some by (auto simp: insert_absorb)
  next
    case False
    then have "run_prog (redis_extend_lease env i w ls) s = (Inr False, s)"
      using Some by (auto simp: redis_extend_lease_def run_HGET_stored)
    then show ?thesis using inv Some same by simp
  qed
qed

interpretation rw: worker_storage "redis_backend now" redis_inv redis_stored "\<lambda>_ _ _. True" redis_used
  "\<lambda>_ _ _. True" "\<lambda>_. True"
proof
  fix s i j env q w ls bs policy
  assume inv: "redis_inv s"
  show "redis_stored s i = Some j \<Longrightarrow> i \<in> redis_used s" by (rule stored_used)
  show "finite (redis_used s)" by (simp add: redis_used_def finite_dom_map_of)
  from redis_lease_loop_law[OF inv, of "e_now env" "e_now env + seconds ls" q "processing_key q w" w
      "nat (clamp 1 100 bs)" "[]"]
  obtain js s' where "run_prog (redis_lease_jobs_batch_with_ordering env q w ls bs policy) s = (Inr js, s')"
    "redis_leases q w s js s'"
    by (auto simp: redis_lease_jobs_batch_with_ordering_def redis_lease_jobs_batch_def)
  then show "\<exists>js s'. sb_lease_jobs_batch_with_ordering (redis_backend now) env q w ls bs policy s = (Inr js, s')
        \<and> redis_inv s' \<and> distinct (map j_id js) \<and> redis_used s' = redis_used s
        \<and> (\<lambda>_ _. True) = (\<lambda>_ _. True)
        \<and> (\<forall>j \<in> set js. redis_stored s' (j_id j) = Some j \<and> held_by (redis_stored s') w (j_id j)
             \<and> True
             \<and> (\<exists>old. redis_stored s (j_id j) = Some old \<and> j_status old = ''queued''
                    \<and> j_queue old = q \<and> j_job_type j = j_job_type old
                    \<and> j_recurring_interval_seconds j = j_recurring_interval_seconds old))
        \<and> (\<forall>k. k \<notin> j_id ` set js \<longrightarrow>
             redis_stored s' k = redis_stored s k
             \<or> k \<in> waiting (redis_stored s) q \<and> status_of (redis_stored s') k = Some ''dlq'')"
    unfolding redis_backend_def StorageBackend.simps redis_leases_def by blast
qed (unfold redis_backend_def StorageBackend.simps simp_thms,
     (rule redis_start_law redis_succeed_law redis_retry_law redis_dlq_law redis_extend_law; assumption)+)

end
