(* ===== verification/Redis_Concurrent.thy ===== *)
theory Redis_Concurrent
  imports Redis_Contract "HOL-Library.Multiset"
begin

text \<open>
  Several clients of one Redis server, whose commands interleave in any order. Nothing on the
  server says who may touch a job; what keeps clients apart is that an identifier is in the
  list of a queue, or has been taken off it by one client. The logic below makes this a
  resource: a client owns the identifiers it has taken, created or leased, it may write only
  the jobs it owns, and no command makes a second copy of an identifier. A client then keeps
  what it knows about its jobs, whatever the other clients do.
\<close>

section \<open>Ownership\<close>

definition listed :: "(string, uuid list) hashmap \<Rightarrow> uuid multiset" where
  "listed m = sum_list (map (\<lambda>kl. mset (snd kl)) m)"

definition entry :: "RedisBackend \<Rightarrow> uuid \<Rightarrow> Job encoded option" where
  "entry s = map_of (rs_jobs s)"

definition ids_ok :: "RedisBackend \<Rightarrow> bool" where
  "ids_ok s \<longleftrightarrow> (\<forall>i j. entry s i = Some (Encoded j) \<longrightarrow> j_id j = i)"

lemma listed_update: "listed (AList.update k l m) + mset (at_key m k) = listed m + mset l"
  by (induction m) (auto simp: listed_def at_key_def)

lemma listed_delete: "listed (AList.delete k m) + mset (at_key m k) \<subseteq># listed m"
proof (induction m)
  case (Cons e m)
  have "listed (AList.delete k m) \<subseteq># listed m" by (rule subset_mset.order_trans[OF mset_subset_eq_add_left Cons])
  then show ?case
    using Cons by (auto simp: listed_def at_key_def add.assoc add.commute intro: subset_mset.add_left_mono)
qed (simp add: listed_def at_key_def)

lemma listed_put: "listed (put_key k l m) + mset (at_key m k) \<subseteq># listed m + mset l"
  by (simp add: put_key_def hm_insert_def hm_remove_def listed_update listed_delete)

text \<open>
  A client that owns \<open>X\<close> and knows the contents \<open>V\<close> of the jobs it owns: whatever state its
  next command finds, as long as its jobs are as it knows them, the command writes only jobs of
  \<open>X\<close>, and what it owns after it together with the lists is no more than before. It may
  count on the lists and its own jobs being all different. The jobs of \<open>D\<close> are disputed: more
  than one client may be writing them, such as a heartbeat beside a report. Anybody may write a
  disputed job without owning it, and nobody knows what it contains; but its identifier, like
  every other, is in at most one place.
\<close>

inductive holds ::
  "uuid set \<Rightarrow> ('a \<Rightarrow> uuid multiset \<Rightarrow> (uuid \<Rightarrow> Job encoded option) \<Rightarrow> bool)
     \<Rightarrow> uuid multiset \<Rightarrow> (uuid \<Rightarrow> Job encoded option) \<Rightarrow> 'a prog \<Rightarrow> bool" for D Q where
  returned: "Q r X V \<Longrightarrow> holds D Q X V (Return r)"
| command: "(\<And>s. ids_ok s \<Longrightarrow> (\<And>i. i \<in># X \<Longrightarrow> i \<notin> D \<Longrightarrow> entry s i = V i)
      \<Longrightarrow> (\<And>i. count (listed (rs_queues s) + X) i \<le> 1) \<Longrightarrow>
      ids_ok (snd (c s)) \<and> (\<forall>i. i \<notin># X \<longrightarrow> i \<notin> D \<longrightarrow> entry (snd (c s)) i = entry s i)
      \<and> (\<exists>Y. listed (rs_queues (snd (c s))) + Y \<subseteq># listed (rs_queues s) + X
            \<and> holds D Q Y (entry (snd (c s))) (fst (c s))))
    \<Longrightarrow> holds D Q X V (Command c)"

inductive_cases holds_ReturnE: "holds D Q X V (Return r)"
inductive_cases holds_CommandE: "holds D Q X V (Command c)"

lemma holds_command_step:
  assumes "holds D Q X V (Command c)" "ids_ok s" "\<And>i. i \<in># X \<Longrightarrow> i \<notin> D \<Longrightarrow> entry s i = V i"
    and "\<And>i. count (listed (rs_queues s) + X) i \<le> 1"
  shows "ids_ok (snd (c s)) \<and> (\<forall>i. i \<notin># X \<longrightarrow> i \<notin> D \<longrightarrow> entry (snd (c s)) i = entry s i)
      \<and> (\<exists>Y. listed (rs_queues (snd (c s))) + Y \<subseteq># listed (rs_queues s) + X
            \<and> holds D Q Y (entry (snd (c s))) (fst (c s)))"
proof (rule holds_CommandE[OF assms(1)], goal_cases)
  case 1
  then show ?case using assms(2-4) by simp
qed

text \<open>One client after the other.\<close>

lemma holds_and_then:
  assumes "holds D R X V p" "\<And>r X V. R r X V \<Longrightarrow> holds D Q X V (k r)"
  shows "holds D Q X V (and_then p k)"
  using assms(1)
proof (induction rule: holds.induct)
  case (returned r X V)
  then show ?case using assms(2) by simp
next
  case (command X V c)
  show ?case
    unfolding and_then.simps
  proof (rule holds.command, goal_cases)
    case (1 s)
    from command[OF 1] show ?case by auto
  qed
qed

lemma holds_weaken:
  "holds D R X V p \<Longrightarrow> (\<And>r X V. R r X V \<Longrightarrow> Q r X V) \<Longrightarrow> holds D Q X V p"
proof (induction rule: holds.induct)
  case (command X V c)
  show ?case
  proof (rule holds.command, goal_cases)
    case (1 s)
    from command(1)[OF 1] command(2) show ?case by blast
  qed
qed (rule holds.returned)

section \<open>The commands\<close>

text \<open>Commands that change neither jobs nor queues; what is no longer needed may be given up.\<close>

lemma holds_read:
  assumes "\<And>s. rs_jobs (snd (c s)) = rs_jobs s" "\<And>s. rs_queues (snd (c s)) = rs_queues s"
    and "\<And>s. ids_ok s \<Longrightarrow> (\<And>i. i \<in># X \<Longrightarrow> i \<notin> D \<Longrightarrow> entry s i = V i) \<Longrightarrow>
      \<exists>Y. Y \<subseteq># X \<and> holds D Q Y (entry s) (fst (c s))"
  shows "holds D Q X V (Command c)"
proof (rule holds.command, goal_cases)
  case (1 s)
  have same: "entry (snd (c s)) = entry s" by (simp add: entry_def assms(1))
  from assms(3)[OF 1(1,2)] obtain Y where Y: "Y \<subseteq># X" "holds D Q Y (entry s) (fst (c s))" by blast
  then have "\<exists>Y. listed (rs_queues (snd (c s))) + Y \<subseteq># listed (rs_queues s) + X
      \<and> holds D Q Y (entry (snd (c s))) (fst (c s))" by (auto simp: assms(2) same)
  then show ?case using 1(1) by (simp add: ids_ok_def same)
qed

lemma holds_HSET:
  assumes "i \<in># X \<or> i \<in> D" "\<And>j. json = Encoded j \<Longrightarrow> j_id j = i" "Y \<subseteq># X"
    and "\<And>W. W i = Some json \<Longrightarrow> (\<And>k. k \<in># X \<Longrightarrow> k \<notin> D \<Longrightarrow> k \<noteq> i \<Longrightarrow> W k = V k) \<Longrightarrow> holds D Q Y W p"
  shows "holds D Q X V (HSET_jobs i json p)"
  unfolding HSET_jobs_def
proof (rule holds.command, goal_cases)
  case (1 s)
  let ?s = "s\<lparr>rs_jobs := hm_insert i json (rs_jobs s)\<rparr>"
  have e: "entry ?s = (entry s)(i \<mapsto> json)" by (simp add: entry_def)
  have "ids_ok ?s" using 1(1) assms(2) by (auto simp: ids_ok_def e)
  moreover have "holds D Q Y (entry ?s) p" by (rule assms(4)) (simp_all add: e 1(2))
  moreover have "\<forall>k. k \<notin># X \<longrightarrow> k \<notin> D \<longrightarrow> entry ?s k = entry s k" using assms(1) by (auto simp: e)
  ultimately show ?case using assms(3) by auto
qed

text \<open>An owned identifier is given back to a list.\<close>

lemma holds_push:
  assumes "\<And>s. rs_jobs (snd (c s)) = rs_jobs s"
    and "\<And>s. \<exists>l. mset l = add_mset i (mset (at_key (rs_queues s) key))
            \<and> rs_queues (snd (c s)) = put_key key l (rs_queues s)"
    and "add_mset i Y \<subseteq># X"
    and "\<And>s. (\<And>i. i \<in># X \<Longrightarrow> i \<notin> D \<Longrightarrow> entry s i = V i) \<Longrightarrow> holds D Q Y (entry s) (fst (c s))"
  shows "holds D Q X V (Command c)"
proof (rule holds.command, goal_cases)
  case (1 s)
  have same: "entry (snd (c s)) = entry s" by (simp add: entry_def assms(1))
  obtain l where l: "mset l = add_mset i (mset (at_key (rs_queues s) key))"
    "rs_queues (snd (c s)) = put_key key l (rs_queues s)" using assms(2) by blast
  have "listed (put_key key l (rs_queues s)) \<subseteq># add_mset i (listed (rs_queues s))"
    using listed_put[of key l "rs_queues s"] l(1) by simp
  then have "listed (put_key key l (rs_queues s)) + Y \<subseteq># listed (rs_queues s) + add_mset i Y"
    using subset_mset.add_mono[of "listed (put_key key l (rs_queues s))" "add_mset i (listed (rs_queues s))" Y Y]
    by simp
  also have "\<dots> \<subseteq># listed (rs_queues s) + X" using assms(3) by simp
  finally have "listed (rs_queues (snd (c s))) + Y \<subseteq># listed (rs_queues s) + X" using l(2) by simp
  moreover have "ids_ok (snd (c s))" using 1(1) by (simp add: ids_ok_def same)
  ultimately show ?case using assms(4)[OF 1(2)] same by auto
qed

lemma holds_RPUSH:
  assumes "add_mset i Y \<subseteq># X" "\<And>W. (\<And>i. i \<in># X \<Longrightarrow> i \<notin> D \<Longrightarrow> W i = V i) \<Longrightarrow> holds D Q Y W p"
  shows "holds D Q X V (RPUSH_queue key i p)"
  unfolding RPUSH_queue_def
  by (rule holds_push[OF _ _ assms(1)]) (auto intro: assms(2) exI[of _ "at_key (rs_queues s) key @ [i]" for s])

lemma holds_LPUSH:
  assumes "add_mset i Y \<subseteq># X" "\<And>W. (\<And>i. i \<in># X \<Longrightarrow> i \<notin> D \<Longrightarrow> W i = V i) \<Longrightarrow> holds D Q Y W p"
  shows "holds D Q X V (LPUSH_queue key i p)"
  unfolding LPUSH_queue_def
  by (rule holds_push[OF _ _ assms(1)]) (auto intro: assms(2) exI[of _ "i # at_key (rs_queues s) key" for s])

text \<open>An identifier is taken off a list by one client.\<close>

lemma holds_LMOVE:
  assumes "\<And>W. (\<And>i. i \<in># X \<Longrightarrow> i \<notin> D \<Longrightarrow> W i = V i) \<Longrightarrow> holds D Q X W (k None)"
    and "\<And>i W. i \<notin># X \<Longrightarrow> (\<And>i. i \<in># X \<Longrightarrow> i \<notin> D \<Longrightarrow> W i = V i) \<Longrightarrow> holds D Q (add_mset i X) W (k (Some i))"
  shows "holds D Q X V (LMOVE qkey pkey k)"
  unfolding LMOVE_def
proof (rule holds.command, goal_cases)
  case (1 s)
  show ?case
  proof (cases "at_key (rs_queues s) qkey")
    case Nil
    have "holds D Q X (entry s) (k None)" by (rule assms(1)) (rule 1(2))
    then show ?thesis using Nil 1(1) by auto
  next
    case (Cons i "is")
    have "listed (put_key qkey is (rs_queues s)) + mset (i # is) \<subseteq># listed (rs_queues s) + mset is"
      using listed_put[of qkey "is" "rs_queues s"] Cons by simp
    then have sub: "add_mset i (listed (put_key qkey is (rs_queues s))) \<subseteq># listed (rs_queues s)" by simp
    then have "0 < count (listed (rs_queues s)) i" by (simp add: insert_subset_eq_iff)
    moreover have "count (listed (rs_queues s)) i + count X i \<le> 1" using 1(3)[of i] by simp
    ultimately have "count X i = 0" by linarith
    then have "i \<notin># X" by (simp add: not_in_iff)
    then have "holds D Q (add_mset i X) (entry s) (k (Some i))" by (rule assms(2)) (rule 1(2))
    moreover have "listed (put_key qkey is (rs_queues s)) + add_mset i X \<subseteq># listed (rs_queues s) + X"
      using sub by (simp add: subset_mset.add_right_mono)
    ultimately have "\<exists>Y. listed (put_key qkey is (rs_queues s)) + Y \<subseteq># listed (rs_queues s) + X
        \<and> holds D Q Y (entry s) (k (Some i))" by blast
    then show ?thesis using Cons 1(1) by (simp add: ids_ok_def entry_def)
  qed
qed

lemma holds_HGET:
  assumes "\<And>json W. W i = json \<Longrightarrow> (\<And>j. json = Some (Encoded j) \<Longrightarrow> j_id j = i)
      \<Longrightarrow> (\<And>i. i \<in># X \<Longrightarrow> i \<notin> D \<Longrightarrow> W i = V i) \<Longrightarrow> \<exists>Y. Y \<subseteq># X \<and> holds D Q Y W (k json)"
  shows "holds D Q X V (HGET_jobs i k)"
  unfolding HGET_jobs_def
proof (rule holds_read)
  fix s
  assume s: "ids_ok s" "\<And>i. i \<in># X \<Longrightarrow> i \<notin> D \<Longrightarrow> entry s i = V i"
  have "\<exists>Y. Y \<subseteq># X \<and> holds D Q Y (entry s) (k (entry s i))"
    by (rule assms[OF refl]) (use s in \<open>auto simp: ids_ok_def\<close>)
  then show "\<exists>Y. Y \<subseteq># X \<and> holds D Q Y (entry s) (fst (k (map_of (rs_jobs s) i), s))"
    by (simp add: entry_def)
qed simp_all

text \<open>Commands on other keys.\<close>

lemma holds_other:
  assumes "Y \<subseteq># X" "\<And>W. (\<And>i. i \<in># X \<Longrightarrow> i \<notin> D \<Longrightarrow> W i = V i) \<Longrightarrow> holds D Q Y W p"
  shows "holds D Q X V (LREM_processing key i p)" "holds D Q X V (PUBLISH ch p)"
    "holds D Q X V (notify_queue_local q p)"
  unfolding LREM_processing_def PUBLISH_def notify_queue_local_def
  by (rule holds_read; use assms in auto)+

section \<open>Any interleaving\<close>

text \<open>
  The clients together: each keeps its own judgement, and no identifier is in two places.
\<close>

definition apart :: "(nat \<Rightarrow> uuid multiset) \<Rightarrow> nat \<Rightarrow> RedisBackend \<Rightarrow> bool" where
  "apart X n s \<longleftrightarrow> (\<forall>i. count (listed (rs_queues s) + (\<Sum>k < n. X k)) i \<le> 1)"

definition clients_ok ::
  "uuid set \<Rightarrow> (nat \<Rightarrow> 'a \<Rightarrow> uuid multiset \<Rightarrow> (uuid \<Rightarrow> Job encoded option) \<Rightarrow> bool)
     \<Rightarrow> (nat \<Rightarrow> uuid multiset) \<Rightarrow> (nat \<Rightarrow> uuid \<Rightarrow> Job encoded option)
     \<Rightarrow> 'a prog list \<Rightarrow> RedisBackend \<Rightarrow> bool" where
  "clients_ok D Q X V ps s \<longleftrightarrow>
     ids_ok s \<and> apart X (length ps) s
     \<and> (\<forall>k < length ps. holds D (Q k) (X k) (V k) (ps ! k) \<and> (\<forall>i. i \<in># X k \<longrightarrow> i \<notin> D \<longrightarrow> entry s i = V k i))"

lemma apart_disjoint:
  assumes "apart X n s" "k < n" "l < n" "k \<noteq> l" "i \<in># X k"
  shows "i \<notin># X l"
proof
  assume "i \<in># X l"
  then have pos: "0 < count (X k) i" "0 < count (X l) i" using assms(5) by simp_all
  have "(\<Sum>m \<in> {k, l}. count (X m) i) \<le> (\<Sum>m < n. count (X m) i)"
    by (rule sum_mono2) (use assms(2,3) in auto)
  moreover have "count (listed (rs_queues s) + (\<Sum>m < n. X m)) i \<le> 1" using assms(1) by (simp add: apart_def)
  ultimately have "count (X k) i + count (X l) i \<le> 1" using assms(4) by (simp add: count_sum)
  then show False using pos by linarith
qed

lemma apart_with_lists:
  assumes "apart X n s" "k < n"
  shows "count (listed (rs_queues s) + X k) i \<le> 1"
proof -
  have "(\<Sum>m \<in> {k}. count (X m) i) \<le> (\<Sum>m < n. count (X m) i)"
    by (rule sum_mono2) (use assms(2) in auto)
  moreover have "count (listed (rs_queues s) + (\<Sum>m < n. X m)) i \<le> 1" using assms(1) by (simp add: apart_def)
  ultimately show ?thesis by (simp add: count_sum)
qed

lemma apart_once: "apart X n s \<Longrightarrow> k < n \<Longrightarrow> count (X k) i \<le> 1"
  using apart_with_lists[of X n s k i] by simp

lemma apart_step:
  assumes "apart X n s" "k < n"
    and "listed (rs_queues t) + Y \<subseteq># listed (rs_queues s) + X k"
  shows "apart (X(k := Y)) n t"
  unfolding apart_def
proof
  fix i
  have split: "(\<Sum>m < n. Z m) = Z k + (\<Sum>m \<in> {..<n} - {k}. Z m)" for Z :: "nat \<Rightarrow> uuid multiset"
    using assms(2) by (simp add: sum.remove)
  have rest: "(\<Sum>m \<in> {..<n} - {k}. (X(k := Y)) m) = (\<Sum>m \<in> {..<n} - {k}. X m)"
    by (rule sum.cong) auto
  have "count (listed (rs_queues t) + Y) i \<le> count (listed (rs_queues s) + X k) i"
    by (rule mset_subset_eq_count[OF assms(3)])
  moreover have "count (listed (rs_queues s) + (\<Sum>m < n. X m)) i \<le> 1" using assms(1) by (simp add: apart_def)
  ultimately show "count (listed (rs_queues t) + (\<Sum>m < n. (X(k := Y)) m)) i \<le> 1"
    unfolding split[of X] split[of "X(k := Y)"] rest by simp
qed

lemma clients_step:
  assumes ok: "clients_ok D Q X V ps s" and k: "k < length ps" "ps ! k = Command c" "c s = (p, t)"
  shows "\<exists>X' V'. clients_ok D Q X' V' (ps[k := p]) t"
proof -
  have h: "holds D (Q k) (X k) (V k) (Command c)" "ids_ok s" "\<And>i. i \<in># X k \<Longrightarrow> i \<notin> D \<Longrightarrow> entry s i = V k i"
    "apart X (length ps) s"
    using ok k unfolding clients_ok_def by metis+
  note once = apart_with_lists[OF h(4) k(1)]
  obtain Y where
    t: "ids_ok t" "\<And>i. i \<notin># X k \<Longrightarrow> i \<notin> D \<Longrightarrow> entry t i = entry s i"
      "listed (rs_queues t) + Y \<subseteq># listed (rs_queues s) + X k" "holds D (Q k) Y (entry t) p"
    using holds_command_step[OF h(1-3) once] k(3) by auto
  define X' V' where "X' = X(k := Y)" and "V' = V(k := entry t)"
  have "holds D (Q m) (X' m) (V' m) (ps[k := p] ! m) \<and> (\<forall>i. i \<in># X' m \<longrightarrow> i \<notin> D \<longrightarrow> entry t i = V' m i)"
    if m: "m < length ps" for m
  proof (cases "m = k")
    case True
    then show ?thesis using t(4) k(1) by (simp add: X'_def V'_def)
  next
    case False
    have "entry t i = entry s i" if "i \<in># X m" "i \<notin> D" for i
      using t(2) apart_disjoint[OF h(4) m k(1) False that(1)] that(2) by blast
    then show ?thesis using ok m False by (simp add: X'_def V'_def clients_ok_def)
  qed
  moreover have "apart X' (length ps) t" unfolding X'_def by (rule apart_step[OF h(4) k(1) t(3)])
  ultimately have "clients_ok D Q X' V' (ps[k := p]) t" using t(1) by (simp add: clients_ok_def)
  then show ?thesis by blast
qed

theorem clients_interleaved:
  assumes "interleaving ps s qs t" "clients_ok D Q X V ps s"
  shows "length qs = length ps \<and> (\<exists>X' V'. clients_ok D Q X' V' qs t)"
  using assms
proof (induction rule: interleaving.induct)
  case (command ps s qs t i c q t')
  then obtain X' V' where "length qs = length ps" "clients_ok D Q X' V' qs t" by blast
  then show ?case using clients_step[OF _ command.hyps(2-4)] by auto
qed auto

text \<open>What the clients know when they have returned.\<close>

lemma clients_returned:
  assumes "clients_ok D Q X V qs t" "k < length qs" "qs ! k = Return r"
  shows "Q k r (X k) (V k)" "\<And>i. i \<in># X k \<Longrightarrow> i \<notin> D \<Longrightarrow> entry t i = V k i" "\<And>i. count (X k) i \<le> 1"
    "\<And>l i. l < length qs \<Longrightarrow> l \<noteq> k \<Longrightarrow> i \<in># X k \<Longrightarrow> i \<notin># X l"
proof -
  have "apart X (length qs) t" "holds D (Q k) (X k) (V k) (Return r)"
    using assms unfolding clients_ok_def by metis+
  then show "Q k r (X k) (V k)" "\<And>i. count (X k) i \<le> 1"
    "\<And>l i. l < length qs \<Longrightarrow> l \<noteq> k \<Longrightarrow> i \<in># X k \<Longrightarrow> i \<notin># X l"
    using apart_once[OF _ assms(2)] apart_disjoint[OF _ assms(2)] by (auto elim: holds_ReturnE)
  show "\<And>i. i \<in># X k \<Longrightarrow> i \<notin> D \<Longrightarrow> entry t i = V k i" using assms(1,2) by (simp add: clients_ok_def)
qed

section \<open>The calls\<close>

text \<open>
  Leasing: a client owns the jobs it has locked, and those that are not disputed are stored as
  it returns them.
\<close>

definition locked_jobs ::
  "uuid set \<Rightarrow> datetime \<Rightarrow> string \<Rightarrow> Job list \<Rightarrow> uuid multiset \<Rightarrow> (uuid \<Rightarrow> Job encoded option) \<Rightarrow> bool" where
  "locked_jobs D now w js X V \<longleftrightarrow>
     mset (map j_id js) = X
     \<and> (\<forall>j \<in> set js. (j_id j \<notin> D \<longrightarrow> V (j_id j) = Some (Encoded j))
          \<and> redis_lease_held w j \<and> j_run_at j \<le> now)"

fun leased_ok ::
  "uuid set \<Rightarrow> datetime \<Rightarrow> string \<Rightarrow> anyhow + Job list \<Rightarrow> uuid multiset \<Rightarrow> (uuid \<Rightarrow> Job encoded option) \<Rightarrow> bool" where
  "leased_ok D now w (Inr js) X V = locked_jobs D now w js X V"
| "leased_ok D now w (Inl e) X V = False"

lemma locked_jobs_cong:
  assumes "locked_jobs D now w js X V" "\<And>i. i \<in># X \<Longrightarrow> i \<notin> D \<Longrightarrow> W i = V i"
  shows "locked_jobs D now w js X W"
  using assms by (auto simp: locked_jobs_def)

lemma lease_loop_holds:
  assumes "locked_jobs D now w L X V"
  shows "holds D (leased_ok D now w) X V (redis_lease_loop now ex qkey pkey w n L)"
  using assms
proof (induction n arbitrary: L X V)
  case 0
  then show ?case by (simp add: holds.returned)
next
  case (Suc n)
  let ?loop = "redis_lease_loop now ex qkey pkey w n"
  have "holds D (leased_ok D now w) X W (Return (Inr L))" if "\<And>i. i \<in># X \<Longrightarrow> i \<notin> D \<Longrightarrow> W i = V i" for W
    using locked_jobs_cong[OF Suc.prems that] by (simp add: holds.returned)
  moreover have "holds D (leased_ok D now w) (add_mset i X) W (HGET_jobs i (\<lambda>json.
             case Option.bind json from_str of
               None \<Rightarrow> ?loop L
             | Some job \<Rightarrow>
                 if now < j_run_at job
                 then LPUSH_queue qkey i (LREM_processing pkey i (?loop L))
                 else if redis_past_deadline now job
                 then HSET_jobs i (Encoded (redis_deadline_dlq now job)) (LREM_processing pkey i (?loop L))
                 else HSET_jobs i (Encoded (redis_lock now w ex job)) (?loop (L @ [redis_lock now w ex job]))))"
    if i: "i \<notin># X" and W: "\<And>i. i \<in># X \<Longrightarrow> i \<notin> D \<Longrightarrow> W i = V i" for i W
  proof (rule holds_HGET, goal_cases)
    case (1 json U)
    have other: "k \<noteq> i" if "k \<in># X" for k using i that by auto
    have U: "locked_jobs D now w L X Y" if "\<And>k. k \<in># X \<Longrightarrow> k \<notin> D \<Longrightarrow> Y k = U k" for Y
      using locked_jobs_cong[OF Suc.prems, of Y] W 1(3) that by simp
    have drop: "holds D (leased_ok D now w) Z Y (LREM_processing pkey i (?loop L))"
      if "\<And>k. k \<in># X \<Longrightarrow> k \<notin> D \<Longrightarrow> Y k = U k" "X \<subseteq># Z" for Y Z
      by (rule holds_other(1)[OF that(2)], rule Suc.IH, rule U) (use that in \<open>auto dest: mset_subset_eqD\<close>)
    show ?case
    proof (cases "Option.bind json from_str")
      case None
      have "holds D (leased_ok D now w) X U (?loop L)" by (rule Suc.IH[OF U]) simp
      then show ?thesis using None by (intro exI[of _ X]) simp
    next
      case (Some job)
      have id: "j_id job = i"
        using Some 1(2) by (cases json; cases "the json") auto
      let ?b = "redis_lock now w ex job"
      have "holds D (leased_ok D now w) (add_mset i X) U (LPUSH_queue qkey i (LREM_processing pkey i (?loop L)))"
        by (rule holds_LPUSH[OF subset_mset.order_refl], rule drop) simp_all
      moreover have "holds D (leased_ok D now w) (add_mset i X) U
          (HSET_jobs i (Encoded (redis_deadline_dlq now job)) (LREM_processing pkey i (?loop L)))"
        by (rule holds_HSET[OF _ _ subset_mset.order_refl], simp, simp add: redis_deadline_dlq_def id, rule drop)
           (use other in simp_all)
      moreover have "holds D (leased_ok D now w) (add_mset i X) U (HSET_jobs i (Encoded ?b) (?loop (L @ [?b])))"
        if "\<not> now < j_run_at job"
      proof (rule holds_HSET[OF _ _ subset_mset.order_refl], simp, simp add: redis_lock_def id, rule Suc.IH, goal_cases)
        case (1 Y)
        have "locked_jobs D now w L X Y" by (rule U) (use 1(2) other in simp)
        moreover have "j_id ?b = i" "redis_lease_held w ?b" "j_run_at ?b \<le> now"
          using id that by (simp_all add: redis_lock_def redis_lease_held_def)
        ultimately show ?case using 1(1) by (simp add: locked_jobs_def)
      qed
      ultimately show ?thesis using Some by (intro exI[of _ "add_mset i X"]) simp
    qed
  qed
  ultimately show ?case unfolding redis_lease_loop.simps
    by (intro holds_LMOVE) simp_all
qed

text \<open>New jobs: the client owns the identifier it draws until it is in the list.\<close>

lemma enqueue_store_holds:
  "holds D (\<lambda>r X V. True) (add_mset (e_fresh env 0) X) V (redis_enqueue_store env job)"
  unfolding redis_enqueue_store_def
  by (intro holds_HSET[OF _ _ subset_mset.order_refl] holds_RPUSH[OF subset_mset.order_refl]
        holds_other[OF subset_mset.order_refl] holds.returned)
     (simp_all add: redis_enqueue_entity_def)

lemma enqueue_holds: "holds D (\<lambda>r X V. True) {#e_fresh env 0#} V (redis_enqueue env job)"
proof (cases "nj_idempotency_key job")
  case None
  then show ?thesis by (simp add: redis_enqueue_def enqueue_store_holds)
next
  case (Some key)
  have "holds D (\<lambda>r X V. True) X V (HGET_idempotency key (\<lambda>existing. case existing of
      None \<Rightarrow> Return (Inl (message ''response was nil'')) | Some i \<Rightarrow> Return (Inr i)))" for X V
    unfolding HGET_idempotency_def
    by (rule holds_read) (auto intro!: exI[of _ X] holds.returned split: option.split)
  then have "holds D (\<lambda>r X V. True) {#e_fresh env 0#} V
      (HSETNX_idempotency key (e_fresh env 0) (\<lambda>claimed.
            if claimed then redis_enqueue_store env job
            else HGET_idempotency key (\<lambda>existing.
              case existing of
                None \<Rightarrow> Return (Inl (message ''response was nil''))
              | Some i \<Rightarrow> Return (Inr i))))"
    unfolding HSETNX_idempotency_def
    by (intro holds_read) (auto intro!: exI[of _ "{#e_fresh env 0#}"] enqueue_store_holds split: option.split)
  then show ?thesis by (simp add: redis_enqueue_def Some)
qed

lemma replay_holds: "holds D (\<lambda>r X V. True) {#e_fresh env 0#} V (redis_replay_job env i q t)"
  unfolding redis_replay_job_def
proof (rule holds_HGET, goal_cases)
  case (1 json W)
  have "holds D (\<lambda>r X V. True) {#e_fresh env 0#} W
     (HSET_jobs (e_fresh env 0) (Encoded (redis_replay_entity env i q t src))
        (RPUSH_queue key (e_fresh env 0) (notify_queue_local q' (Return (Inr (e_fresh env 0))))))" for src key q'
    by (intro holds_HSET[OF _ _ subset_mset.order_refl] holds_RPUSH[OF subset_mset.order_refl]
          holds_other[OF subset_mset.order_refl] holds.returned)
       (simp_all add: redis_replay_entity_def)
  then show ?case
    by (intro exI[of _ "{#e_fresh env 0#}"])
       (auto simp: Let_def intro: holds.returned split: option.split)
qed

text \<open>
  A report, a heartbeat or a cancellation writes the job it names: the caller owns the job, or
  the job is disputed. If the job is not disputed and the caller holds its lease when the call
  starts, the report is accepted and the caller knows how the job is stored.
\<close>

definition token :: "uuid set \<Rightarrow> uuid \<Rightarrow> uuid multiset" where
  "token D i = (if i \<in> D then {#} else {#i#})"

definition recorded_as ::
  "uuid set \<Rightarrow> (uuid \<Rightarrow> Job encoded option) \<Rightarrow> uuid \<Rightarrow> string \<Rightarrow> 'a \<Rightarrow> (Job \<Rightarrow> Job)
     \<Rightarrow> anyhow + 'a \<Rightarrow> uuid multiset \<Rightarrow> (uuid \<Rightarrow> Job encoded option) \<Rightarrow> bool" where
  "recorded_as D V0 i w a b r X V \<longleftrightarrow>
     (\<forall>j. i \<notin> D \<longrightarrow> V0 i = Some (Encoded j) \<longrightarrow> redis_lease_held w j \<longrightarrow>
        r = Inr a \<and> i \<in># X \<and> V i = Some (Encoded (b j)))"

lemma not_recorded:
  assumes "i \<notin> D \<Longrightarrow> W i = V i" "\<And>j. W i = Some (Encoded j) \<Longrightarrow> \<not> redis_lease_held w j"
  shows "recorded_as D V i w a b r X U"
  unfolding recorded_as_def
proof (intro allI impI)
  fix j
  assume "i \<notin> D" "V i = Some (Encoded j)" "redis_lease_held w j"
  then show "r = Inr a \<and> i \<in># X \<and> U i = Some (Encoded (b j))" using assms by auto
qed

lemma recorded:
  assumes "i \<notin> D \<Longrightarrow> W i = V i" "Option.bind (W i) from_str = Some j"
    and "i \<notin> D \<Longrightarrow> i \<in># X \<and> U i = Some (Encoded (b j))"
  shows "recorded_as D V i w a b (Inr a) X U"
  using assms by (auto simp: recorded_as_def)

lemma report_holds:
  fixes a :: 'b
  assumes own: "i \<notin> D \<Longrightarrow> i \<in># X"
    and report: "\<And>j W. j_id j = i \<Longrightarrow> redis_lease_held w j \<Longrightarrow>
      holds D (\<lambda>r X U. r = Inr a \<and> (i \<notin> D \<longrightarrow> i \<in># X \<and> U i = Some (Encoded (b j)))) X W (p j)"
  shows "holds D (recorded_as D V i w a b) X V (HGET_jobs i (\<lambda>json.
      case Option.bind json from_str of
        None \<Rightarrow> Return n
      | Some j \<Rightarrow> if \<not> redis_lease_held w j then Return e else p j))"
proof (rule holds_HGET, goal_cases)
  case (1 json W)
  have same: "W i = V i" if "i \<notin> D" using 1(3) own that by blast
  show ?case
  proof (cases "\<exists>j. Option.bind json from_str = Some j \<and> redis_lease_held w j")
    case True
    then obtain j where j: "Option.bind json from_str = Some j" "redis_lease_held w j" by blast
    have id: "j_id j = i" using j(1) 1(2) by (cases json; cases "the json") auto
    have "holds D (recorded_as D V i w a b) X W (p j)"
    proof (rule holds_weaken[OF report[OF id j(2)]])
      fix r :: "anyhow + 'b" and Y U
      assume "r = Inr a \<and> (i \<notin> D \<longrightarrow> i \<in># Y \<and> U i = Some (Encoded (b j)))"
      then have r: "r = Inr a" "i \<notin> D \<Longrightarrow> i \<in># Y \<and> U i = Some (Encoded (b j))" by auto
      show "recorded_as D V i w a b r Y U"
        unfolding r(1)
        by (rule recorded[where W = W and V = V and i = i and D = D and j = j and b = b and U = U, OF same _ r(2)])
           (use 1(1) j(1) in auto)
    qed
    then show ?thesis using j by (intro exI[of _ X]) simp
  next
    case False
    then have no: "\<not> redis_lease_held w j" if "Option.bind json from_str = Some j" for j using that by blast
    have "recorded_as D V i w a b r X W" for r :: "anyhow + 'b"
      by (rule not_recorded[where W = W and V = V and i = i and D = D, OF same]) (use no 1(1) in auto)
    then show ?thesis using no
      by (intro exI[of _ X]) (auto intro!: holds.returned split: option.split)
  qed
qed

lemma succeed_holds:
  assumes x: "i \<notin> D \<Longrightarrow> i \<noteq> e_fresh env 0"
  shows "holds D (recorded_as D V i w () (redis_complete (e_now env))) (add_mset (e_fresh env 0) (token D i)) V
    (redis_mark_succeeded env i a w l)"
  unfolding redis_mark_succeeded_def
proof (rule report_holds, simp add: token_def, goal_cases)
  case (1 j W)
  let ?b = "redis_complete (e_now env) j" and ?x = "e_fresh env 0"
  let ?X = "add_mset ?x (token D i)"
  let ?Q = "\<lambda>r Z U. r = Inr () \<and> (i \<notin> D \<longrightarrow> i \<in># Z \<and> U i = Some (Encoded ?b))"
  let ?next = "case map_option (\<lambda>interval. redis_next_occurrence env interval ?b) (j_recurring_interval_seconds ?b) of
      None \<Rightarrow> Return (Inr ())
    | Some next \<Rightarrow> HSET_jobs (j_id next) (Encoded next) (RPUSH_queue (queue_key (j_queue next)) (j_id next)
        (notify_queue_local (j_queue next) (Return (Inr ()))))"
  have b: "j_id ?b = i" using 1(1) by (simp add: redis_complete_def)
  have mine: "i \<in># Z" if "i \<notin> D" "token D i \<subseteq># Z" for Z
    using that by (simp add: token_def)
  have rest: "holds D ?Q ?X Y ?next" if Y: "i \<notin> D \<Longrightarrow> Y i = Some (Encoded ?b)" for Y
  proof (cases "j_recurring_interval_seconds ?b")
    case None
    then show ?thesis using Y mine[of ?X] by (auto intro!: holds.returned)
  next
    case (Some interval)
    have n: "j_id (redis_next_occurrence env interval ?b) = ?x" by (simp add: redis_next_occurrence_def Let_def)
    have "holds D ?Q ?X Y (HSET_jobs ?x (Encoded (redis_next_occurrence env interval ?b))
        (RPUSH_queue key ?x (notify_queue_local q (Return (Inr ())))))" for key q
    proof (rule holds_HSET[OF _ _ subset_mset.order_refl], simp, simp add: n, goal_cases)
      case (1 U)
      have U: "U i = Some (Encoded ?b)" if "i \<notin> D" using 1(2)[of i] x Y that mine[of ?X] by simp
      show ?case
      proof (rule holds_RPUSH[where Y = "token D i"], simp, rule holds_other(3)[OF subset_mset.order_refl],
          rule holds.returned, goal_cases)
        case (1 U1 U2)
        then show ?case using U mine[of ?X] mine[of "token D i"] by auto
      qed
    qed
    then show ?thesis using Some n by simp
  qed
  have "holds D ?Q ?X W (HSET_jobs i (Encoded ?b) (LREM_processing key i ?next))" for key
  proof (rule holds_HSET[OF _ _ subset_mset.order_refl], simp add: token_def, simp add: b,
      rule holds_other(1)[OF subset_mset.order_refl], rule rest, goal_cases)
    case (1 U U')
    then show ?case using mine[of ?X] by simp
  qed
  then show ?case by (simp add: Let_def)
qed

lemma retry_holds: "holds D (\<lambda>r X V. True) {#i#} V (redis_reschedule_for_retry env i a w l t c m n)"
  unfolding redis_reschedule_for_retry_def
proof (rule holds_HGET, goal_cases)
  case (1 json W)
  have "holds D (\<lambda>r X V. True) {#i#} W (HSET_jobs i (Encoded (redis_retry (e_now env) t j))
     (LREM_processing pk i (RPUSH_queue qk i (Return (Inr ())))))"
    if "Option.bind json from_str = Some j" for j pk qk
  proof -
    have "j_id j = i" using that 1(2) by (cases json; cases "the json") auto
    then show ?thesis
      by (intro holds_HSET[OF _ _ subset_mset.order_refl] holds_other(1)[OF subset_mset.order_refl]
            holds_RPUSH[OF subset_mset.order_refl] holds.returned)
         (auto simp: redis_retry_def)
  qed
  then show ?case
    by (intro exI[of _ "{#i#}"]) (auto simp: Let_def intro: holds.returned split: option.split)
qed

text \<open>The three calls that write the named job and nothing else.\<close>

lemma write_named:
  assumes "j_id b = i" "\<And>W. (i \<notin> D \<Longrightarrow> W i = Some (Encoded b)) \<Longrightarrow> holds D Q (token D i) W p"
  shows "holds D Q (token D i) V (HSET_jobs i (Encoded b) p)"
  by (rule holds_HSET[OF _ _ subset_mset.order_refl]) (use assms in \<open>auto simp: token_def\<close>)

lemma drop_named:
  assumes "\<And>W. (i \<notin> D \<Longrightarrow> W i = V i) \<Longrightarrow> holds D Q (token D i) W p"
  shows "holds D Q (token D i) V (LREM_processing key k p)"
  by (rule holds_other(1)[OF subset_mset.order_refl]) (use assms in \<open>auto simp: token_def\<close>)

lemma dlq_holds:
  "holds D (recorded_as D V i w () (redis_dlq (e_now env) rc)) (token D i) V (redis_mark_dlq env i a w l rc c m n)"
  unfolding redis_mark_dlq_def Let_def
  by (rule report_holds, simp add: token_def, rule write_named, simp add: redis_dlq_def,
      rule drop_named, rule holds.returned) (simp add: token_def)

definition extended :: "datetime \<Rightarrow> int \<Rightarrow> Job \<Rightarrow> Job" where
  "extended now lease_seconds j =
     j\<lparr>j_lock_expires_at := Some (now + seconds lease_seconds), j_updated_at := now\<rparr>"

lemma extend_holds:
  "holds D (recorded_as D V i w True (extended (e_now env) ls)) (token D i) V (redis_extend_lease env i w ls)"
proof -
  have "redis_extend_lease env i w ls = HGET_jobs i (\<lambda>json. case Option.bind json from_str of
        None \<Rightarrow> Return (Inr False)
      | Some j \<Rightarrow> if \<not> redis_lease_held w j then Return (Inr False)
          else HSET_jobs i (Encoded (extended (e_now env) ls j)) (Return (Inr True)))"
    by (auto simp: redis_extend_lease_def redis_lease_held_def extended_def intro!: arg_cong[of _ _ "HGET_jobs i"] ext
        split: option.split)
  moreover have "holds D (recorded_as D V i w True (extended (e_now env) ls)) (token D i) V \<dots>"
    by (rule report_holds, simp add: token_def, rule write_named, simp add: extended_def, rule holds.returned)
       (simp add: token_def)
  ultimately show ?thesis by simp
qed

lemma cancel_holds: "holds D (\<lambda>r X V. True) (token D i) V (redis_cancel_job env i worker)"
  unfolding redis_cancel_job_def
proof (rule holds_HGET, goal_cases)
  case (1 json W)
  have cancelled: "holds D (\<lambda>r X V. True) (token D i) U
      (HSET_jobs i (Encoded (redis_cancelled (e_now env) j)) (Return (Inr ())))"
    if "json = Some e" "from_str e = Some j" for e j U
  proof (rule write_named)
    show "j_id (redis_cancelled (e_now env) j) = i"
      using 1(2) that by (cases e) (auto simp: redis_cancelled_def)
  qed (rule holds.returned, simp)
  show ?case
    by (intro exI[of _ "token D i"])
       (auto simp: Let_def intro: holds.returned cancelled drop_named split: option.split)
qed

section \<open>Clients that call the storage\<close>

datatype redis_call =
    RLease Env string string int int
  | REnqueue Env NewJob
  | RReplay Env uuid "string option" "datetime option"
  | RSucceed Env uuid uuid string int
  | RRetry Env uuid uuid string int datetime string string int
  | RDlq Env uuid uuid string int string string string int
  | RExtend Env uuid string int
  | RCancel Env uuid "string option"

datatype redis_reply =
  Leased "anyhow + Job list" | Created "anyhow + uuid" | Reported "anyhow + unit" | Extended "anyhow + bool"

fun call_prog :: "redis_call \<Rightarrow> redis_reply prog" where
  "call_prog (RLease env q w ls bs) =
     and_then (redis_lease_jobs_batch env q w ls bs) (\<lambda>r. Return (Leased r))"
| "call_prog (REnqueue env job) = and_then (redis_enqueue env job) (\<lambda>r. Return (Created r))"
| "call_prog (RReplay env i q t) = and_then (redis_replay_job env i q t) (\<lambda>r. Return (Created r))"
| "call_prog (RSucceed env i a w l) =
     and_then (redis_mark_succeeded env i a w l) (\<lambda>r. Return (Reported r))"
| "call_prog (RRetry env i a w l t c m n) =
     and_then (redis_reschedule_for_retry env i a w l t c m n) (\<lambda>r. Return (Reported r))"
| "call_prog (RDlq env i a w l rc c m n) =
     and_then (redis_mark_dlq env i a w l rc c m n) (\<lambda>r. Return (Reported r))"
| "call_prog (RExtend env i w ls) =
     and_then (redis_extend_lease env i w ls) (\<lambda>r. Return (Extended r))"
| "call_prog (RCancel env i w) =
     and_then (redis_cancel_job env i w) (\<lambda>r. Return (Reported r))"

text \<open>
  The identifiers a call may put into the list of a queue: a new one, or the job it gives back.
  The job a call reports on, extends or cancels.
\<close>

fun call_pushes :: "redis_call \<Rightarrow> uuid multiset" where
  "call_pushes (REnqueue env job) = {#e_fresh env 0#}"
| "call_pushes (RReplay env i q t) = {#e_fresh env 0#}"
| "call_pushes (RSucceed env i a w l) = {#e_fresh env 0#}"
| "call_pushes (RRetry env i a w l t c m n) = {#i#}"
| "call_pushes _ = {#}"

fun call_names :: "redis_call \<Rightarrow> uuid set" where
  "call_names (RSucceed env i a w l) = {i}"
| "call_names (RRetry env i a w l t c m n) = {i}"
| "call_names (RDlq env i a w l rc c m n) = {i}"
| "call_names (RExtend env i w ls) = {i}"
| "call_names (RCancel env i w) = {i}"
| "call_names _ = {}"

text \<open>
  No identifier is pushed twice: the lists have no duplicates, the new identifiers are new and
  different, and no job is given back by two retry reports, or while it is waiting. Nothing is
  said of the jobs that calls name.
\<close>

definition pushes_apart :: "redis_call list \<Rightarrow> RedisBackend \<Rightarrow> bool" where
  "pushes_apart cs s \<longleftrightarrow>
     (\<forall>i. count (listed (rs_queues s) + sum_list (map call_pushes cs)) i \<le> 1)"

text \<open>The jobs that the calls of a list name, and the jobs that calls other than the \<open>k\<close>-th name.\<close>

definition named :: "redis_call list \<Rightarrow> uuid set" where
  "named cs = (\<Union>c \<in> set cs. call_names c)"

definition named_by_others :: "redis_call list \<Rightarrow> nat \<Rightarrow> uuid set" where
  "named_by_others cs k = (\<Union>l \<in> {..<length cs} - {k}. call_names (cs ! l))"

text \<open>What a call owns when it starts.\<close>

definition call_owns :: "uuid set \<Rightarrow> redis_call \<Rightarrow> uuid multiset" where
  "call_owns D c = call_pushes c +
     (case c of RSucceed env i a w l \<Rightarrow> token D i | RDlq env i a w l rc cd m n \<Rightarrow> token D i
      | RExtend env i w ls \<Rightarrow> token D i | RCancel env i w \<Rightarrow> token D i | _ \<Rightarrow> {#})"

text \<open>What a call has achieved when it has returned.\<close>

fun call_post ::
  "uuid set \<Rightarrow> RedisBackend \<Rightarrow> redis_call \<Rightarrow> redis_reply \<Rightarrow> uuid multiset
     \<Rightarrow> (uuid \<Rightarrow> Job encoded option) \<Rightarrow> bool" where
  "call_post D s (RLease env q w ls bs) r X V \<longleftrightarrow>
     (\<exists>js. r = Leased (Inr js) \<and> locked_jobs D (e_now env) w js X V)"
| "call_post D s (RSucceed env i a w l) r X V \<longleftrightarrow>
     (\<exists>u. r = Reported u \<and> recorded_as D (entry s) i w () (redis_complete (e_now env)) u X V)"
| "call_post D s (RDlq env i a w l rc c m n) r X V \<longleftrightarrow>
     (\<exists>u. r = Reported u \<and> recorded_as D (entry s) i w () (redis_dlq (e_now env) rc) u X V)"
| "call_post D s (RExtend env i w ls) r X V \<longleftrightarrow>
     (\<exists>u. r = Extended u \<and> recorded_as D (entry s) i w True (extended (e_now env) ls) u X V)"
| "call_post D s _ r X V \<longleftrightarrow> True"

lemma call_holds:
  assumes once: "\<And>i. count (call_owns D c) i \<le> 1"
  shows "holds D (call_post D s c) (call_owns D c) (entry s) (call_prog c)"
proof (cases c)
  case (RLease env q w ls bs)
  have "holds D (leased_ok D (e_now env) w) {#} (entry s) (redis_lease_jobs_batch env q w ls bs)"
    unfolding redis_lease_jobs_batch_def by (rule lease_loop_holds) (simp add: locked_jobs_def)
  moreover have "call_post D s c (Leased r) X V" if "leased_ok D (e_now env) w r X V" for r X V
    using that RLease by (cases r) auto
  ultimately show ?thesis unfolding RLease
    by (auto intro!: holds_and_then[where R = "leased_ok D (e_now env) w"] holds.returned simp: RLease call_owns_def)
next
  case (REnqueue env job)
  then show ?thesis by (auto intro!: holds_and_then[OF enqueue_holds] holds.returned simp: call_owns_def)
next
  case (RReplay env i q t)
  then show ?thesis by (auto intro!: holds_and_then[OF replay_holds] holds.returned simp: call_owns_def)
next
  case (RSucceed env i a w l)
  have "i \<noteq> e_fresh env 0" if "i \<notin> D"
    using once[of i] that by (auto simp: RSucceed call_owns_def token_def split: if_splits)
  then show ?thesis unfolding RSucceed
    by (auto intro!: holds_and_then[OF succeed_holds] holds.returned simp: call_owns_def)
next
  case (RRetry env i a w l t cd m n)
  then show ?thesis by (auto intro!: holds_and_then[OF retry_holds] holds.returned simp: call_owns_def)
next
  case (RDlq env i a w l rc cd m n)
  then show ?thesis by (auto intro!: holds_and_then[OF dlq_holds] holds.returned simp: call_owns_def)
next
  case (RExtend env i w ls)
  then show ?thesis by (auto intro!: holds_and_then[OF extend_holds] holds.returned simp: call_owns_def)
next
  case (RCancel env i w)
  then show ?thesis by (auto intro!: holds_and_then[OF cancel_holds] holds.returned simp: call_owns_def)
qed

lemma calls_ok:
  assumes "ids_ok s" "\<And>i. count (listed (rs_queues s) + (\<Sum>k < length cs. call_owns D (cs ! k))) i \<le> 1"
  shows "clients_ok D (\<lambda>k. call_post D s (cs ! k)) (\<lambda>k. call_owns D (cs ! k)) (\<lambda>_. entry s)
    (map call_prog cs) s"
proof -
  have ap: "apart (\<lambda>k. call_owns D (cs ! k)) (length cs) s" using assms(2) by (simp add: apart_def)
  then show ?thesis using call_holds[of D] assms(1) apart_once[OF ap] by (auto simp: clients_ok_def)
qed

text \<open>With every named job disputed, only what is pushed must be apart.\<close>

lemma owns_disputed:
  assumes "call_names c \<subseteq> D"
  shows "call_owns D c = call_pushes c"
  using assms by (cases c) (simp_all add: call_owns_def token_def)

lemma pushes_sum: "sum_list (map call_pushes cs) = (\<Sum>k < length cs. call_pushes (cs ! k))"
  by (simp add: sum_list_sum_nth atLeast0LessThan)

lemma calls_ok_named:
  assumes "ids_ok s" "pushes_apart cs s"
  shows "clients_ok (named cs) (\<lambda>k. call_post (named cs) s (cs ! k)) (\<lambda>k. call_owns (named cs) (cs ! k))
    (\<lambda>_. entry s) (map call_prog cs) s"
proof (rule calls_ok[OF assms(1)])
  fix i
  have "(\<Sum>k < length cs. call_owns (named cs) (cs ! k)) = (\<Sum>k < length cs. call_pushes (cs ! k))"
    by (rule sum.cong) (auto intro!: owns_disputed bexI[OF _ nth_mem] simp: named_def)
  then show "count (listed (rs_queues s) + (\<Sum>k < length cs. call_owns (named cs) (cs ! k))) i \<le> 1"
    using assms(2) by (simp add: pushes_apart_def pushes_sum)
qed

text \<open>A job that one call reports on, that no other call names and that is nowhere pushed.\<close>

lemma calls_ok_report:
  assumes "ids_ok s" "pushes_apart cs s" "k < length cs"
    and "call_owns D (cs ! k) = add_mset i (call_pushes (cs ! k))" "D = named_by_others cs k"
    and "i \<notin># listed (rs_queues s) + sum_list (map call_pushes cs)"
  shows "clients_ok D (\<lambda>k. call_post D s (cs ! k)) (\<lambda>k. call_owns D (cs ! k)) (\<lambda>_. entry s)
    (map call_prog cs) s"
proof (rule calls_ok[OF assms(1)])
  fix x
  have split: "(\<Sum>l < length cs. f l) = f k + (\<Sum>l \<in> {..<length cs} - {k}. f l)" for f :: "nat \<Rightarrow> uuid multiset"
    using assms(3) by (simp add: sum.remove)
  have "(\<Sum>l \<in> {..<length cs} - {k}. call_owns D (cs ! l)) = (\<Sum>l \<in> {..<length cs} - {k}. call_pushes (cs ! l))"
    by (rule sum.cong) (auto intro!: owns_disputed simp: assms(5) named_by_others_def)
  then have "(\<Sum>l < length cs. call_owns D (cs ! l)) = add_mset i (sum_list (map call_pushes cs))"
    unfolding pushes_sum split[of "\<lambda>l. call_owns D (cs ! l)"] split[of "\<lambda>l. call_pushes (cs ! l)"] assms(4) by simp
  then show "count (listed (rs_queues s) + (\<Sum>l < length cs. call_owns D (cs ! l))) x \<le> 1"
    using assms(2)[unfolded pushes_apart_def, rule_format, of x] assms(6)
    by (cases "x = i") (simp_all only: count_union count_add_mset not_in_iff, simp_all)
qed

end
