(* ===== verification/Redis_Streams.thy ===== *)
theory Redis_Streams
  imports Redis_Contract
begin

text \<open>
  The streams of the Redis storage keep the laws of event streams: the log of a stream is what
  its list decodes to, the numbers come from a counter that pruning does not touch.
\<close>

definition redis_log :: "RedisBackend \<Rightarrow> string \<Rightarrow> Event list" where
  "redis_log s st = List.map_filter from_str (at_key (rs_stream_events s) st)"

definition redis_acked :: "RedisBackend \<Rightarrow> string \<Rightarrow> string \<Rightarrow> int option" where
  "redis_acked s st = map_of (at_key (rs_stream_offsets s) st)"

text \<open>Events are in the order of their numbers, and the counter is at or above all of them.\<close>

definition redis_stream_inv :: "RedisBackend \<Rightarrow> bool" where
  "redis_stream_inv s \<longleftrightarrow>
     (\<forall>st. log_sorted (redis_log s st)
        \<and> (\<forall>e \<in> set (redis_log s st). seq e \<le> counter (rs_stream_seq s) st))"

lemma map_filter_Cons:
  "List.map_filter f (x # xs) = (case f x of None \<Rightarrow> List.map_filter f xs | Some y \<Rightarrow> y # List.map_filter f xs)"
  by (simp add: List.map_filter_def split: option.split)

lemma map_filter_append: "List.map_filter f (xs @ ys) = List.map_filter f xs @ List.map_filter f ys"
  by (induction xs) (simp_all add: map_filter_Cons List.map_filter_def split: option.split)

section \<open>Reading\<close>

lemma redis_scan_spec:
  assumes "length acc < n"
  shows "redis_scan m n raws acc = acc @ take (n - length acc) (after_seq m (List.map_filter from_str raws))"
  using assms
proof (induction m n raws acc rule: redis_scan.induct)
  case (1 m n acc)
  then show ?case by (simp add: List.map_filter_def after_seq_def)
next
  case (2 m n raw raws acc)
  show ?case
  proof (cases "from_str raw")
    case None
    then show ?thesis using 2 by (simp add: map_filter_Cons)
  next
    case (Some e)
    consider "\<not> m < seq e" | "m < seq e" "n \<le> Suc (length acc)" | "m < seq e" "Suc (length acc) < n" by linarith
    then show ?thesis
    proof cases
      case 1
      then show ?thesis using 2(4) 2(1,3) Some "2.prems" by (simp add: map_filter_Cons after_seq_def)
    next
      case two: 2
      then have "n - length acc = Suc 0" using "2.prems" by linarith
      then show ?thesis using two Some by (simp add: map_filter_Cons after_seq_def)
    next
      case three: 3
      then have n: "n - length acc = Suc (n - Suc (length acc))" by linarith
      have "redis_scan m n raws (acc @ [e]) =
          (acc @ [e]) @ take (n - length (acc @ [e])) (after_seq m (List.map_filter from_str raws))"
        using "2.IH"(2)[OF Some three(1)] three(2) by simp
      then show ?thesis using three Some n by (simp add: map_filter_Cons after_seq_def)
    qed
  qed
qed

lemma redis_read_run:
  "run_prog (redis_read_events st n limit) s = (Inr (take (read_limit limit) (after_seq n (redis_log s st))), s)"
proof -
  have "0 < nat (clamp 1 1000 limit)" using clamp_range[of 1 1000 limit] by simp
  then show ?thesis
    by (simp add: redis_read_events_def LRANGE_events_def redis_scan_spec redis_log_def read_limit_def)
qed

lemma find_group:
  "map_option cg_last_acked_seq (find (\<lambda>c. cg_consumer_group c = g)
      (map (\<lambda>(grp, n). \<lparr>cg_consumer_group = grp, cg_stream_name = st, cg_last_acked_seq = n,
          cg_updated_at = t grp\<rparr>) m)) = map_of m g"
  by (induction m) auto

lemma redis_info_run:
  "\<exists>infos. run_prog (redis_consumer_group_info now st) s = (Inr infos, s)
     \<and> map_option cg_last_acked_seq (find (\<lambda>c. cg_consumer_group c = g) infos) = redis_acked s st g"
  by (simp add: redis_consumer_group_info_def HGETALL_offsets_def HGETALL_offset_times_def
      redis_acked_def find_group)

section \<open>Writing\<close>

lemma redis_stream_inv_cong:
  "redis_log t = redis_log s \<Longrightarrow> rs_stream_seq t = rs_stream_seq s \<Longrightarrow> redis_stream_inv t = redis_stream_inv s"
  by (simp add: redis_stream_inv_def)

lemma redis_ack_run:
  "fst (run_prog (redis_ack env st g n) s) = Inr ()"
  "redis_log (snd (run_prog (redis_ack env st g n) s)) = redis_log s"
  "rs_stream_seq (snd (run_prog (redis_ack env st g n) s)) = rs_stream_seq s"
  "redis_acked (snd (run_prog (redis_ack env st g n) s)) =
     (redis_acked s)(st := (redis_acked s st)(g \<mapsto>
        (case redis_acked s st g of None \<Rightarrow> n | Some k \<Rightarrow> max k n)))"
  by (auto simp: redis_ack_def HGET_offset_def HSET_offset_def HSET_offset_time_def redis_log_def
      redis_acked_def Let_def fun_eq_iff split: option.split)

lemma redis_publish_run:
  fixes s :: RedisBackend and st :: string
  defines "n \<equiv> counter (rs_stream_seq s) st + 1"
  shows "fst (run_prog (redis_publish env st ne) s) = Inr n"
    "redis_log (snd (run_prog (redis_publish env st ne) s)) = (redis_log s)(st := redis_log s st @
       [\<lparr>ev_sequence_no = n, ev_stream_name = st, ev_event_type = ne_event_type ne,
         ev_payload_json = ne_payload_json ne, ev_created_at = e_now env\<rparr>])"
    "redis_acked (snd (run_prog (redis_publish env st ne) s)) = redis_acked s"
    "rs_stream_seq (snd (run_prog (redis_publish env st ne) s)) = hm_insert st n (rs_stream_seq s)"
  by (auto simp: redis_publish_def INCR_stream_seq_def RPUSH_events_def PUBLISH_def
      notify_stream_local_def redis_log_def redis_acked_def Let_def n_def fun_eq_iff map_filter_append
      map_filter_Cons map_filter_simps(2))

lemma redis_publish_stream_inv:
  assumes "redis_stream_inv s"
  shows "redis_stream_inv (snd (run_prog (redis_publish env st ne) s))"
  using assms unfolding redis_stream_inv_def redis_publish_run
  by (fastforce simp: log_sorted_def sorted_wrt_append)

text \<open>The events pruning keeps, decoded.\<close>

definition redis_cut :: "string \<Rightarrow> int \<Rightarrow> RedisBackend \<Rightarrow> int" where
  "redis_cut st n s =
     (let offsets = at_key (rs_stream_offsets s) st
      in min n (if offsets = [] then n else Min (set (hm_values offsets))))"

abbreviation kept :: "int \<Rightarrow> Event encoded \<Rightarrow> bool" where
  "kept c raw \<equiv> (case from_str raw of Some event \<Rightarrow> c < seq event | None \<Rightarrow> True)"

lemma decode_kept:
  "List.map_filter from_str (filter (kept c) raws) = after_seq c (List.map_filter from_str raws)"
  by (induction raws) (simp_all add: map_filter_Cons after_seq_def map_filter_simps(2) split: option.split)

lemma count_kept:
  "length raws - length (filter (kept c) raws) =
     length (List.map_filter from_str raws) - length (after_seq c (List.map_filter from_str raws))"
proof -
  have "length raws + length (after_seq c (List.map_filter from_str raws)) =
      length (List.map_filter from_str raws) + length (filter (kept c) raws)"
    by (induction raws) (simp_all add: map_filter_Cons after_seq_def map_filter_simps(2) split: option.split)
  then show ?thesis by linarith
qed

lemma redis_prune_run:
  shows "fst (run_prog (redis_prune_events st n) s) =
      Inr (length (redis_log s st) - length (after_seq (redis_cut st n s) (redis_log s st)))"
    "redis_log (snd (run_prog (redis_prune_events st n) s)) =
      (redis_log s)(st := after_seq (redis_cut st n s) (redis_log s st))"
    "redis_acked (snd (run_prog (redis_prune_events st n) s)) = redis_acked s"
    "rs_stream_seq (snd (run_prog (redis_prune_events st n) s)) = rs_stream_seq s"
proof -
  let ?c = "redis_cut st n s" and ?raws = "at_key (rs_stream_events s) st"
  define t where "t = s\<lparr>rs_stream_events := put_key st (filter (kept ?c) ?raws) (put_key st [] (rs_stream_events s))\<rparr>"
  define t0 where "t0 = s\<lparr>rs_stream_events := put_key st [] (rs_stream_events s)\<rparr>"
  have run: "run_prog (redis_prune_events st n) s =
      (Inr (length ?raws - length (filter (kept ?c) ?raws)), if filter (kept ?c) ?raws = [] then t0 else t)"
    unfolding redis_prune_events_def HGETALL_offsets_def run_prog_Command fst_conv snd_conv Let_def
      redis_cut_def[unfolded Let_def, symmetric]
    by (simp add: LRANGE_events_def DEL_events_def RPUSH_events_def LLEN_events_def t_def t0_def
        del: filter_empty_conv)
  have log: "redis_log (if filter (kept ?c) ?raws = [] then t0 else t) =
      (redis_log s)(st := after_seq ?c (redis_log s st))"
    unfolding redis_log_def decode_kept[symmetric]
    by (auto simp: t_def t0_def fun_eq_iff simp del: filter_empty_conv)
  show "fst (run_prog (redis_prune_events st n) s) =
      Inr (length (redis_log s st) - length (after_seq ?c (redis_log s st)))"
    unfolding run by (simp add: count_kept redis_log_def)
  show "redis_log (snd (run_prog (redis_prune_events st n) s)) =
      (redis_log s)(st := after_seq ?c (redis_log s st))"
    unfolding run using log by simp
  show "redis_acked (snd (run_prog (redis_prune_events st n) s)) = redis_acked s"
    "rs_stream_seq (snd (run_prog (redis_prune_events st n) s)) = rs_stream_seq s"
    unfolding run by (simp_all add: t_def t0_def redis_acked_def fun_eq_iff)
qed

lemma redis_cut_le:
  "redis_cut st n s \<le> n"
  "redis_acked s st g = Some m \<Longrightarrow> redis_cut st n s \<le> m"
proof -
  show "redis_cut st n s \<le> n" by (simp add: redis_cut_def Let_def)
  assume "redis_acked s st g = Some m"
  then have "m \<in> set (hm_values (at_key (rs_stream_offsets s) st))"
    by (force simp: redis_acked_def hm_values_def dest: map_of_SomeD)
  then show "redis_cut st n s \<le> m"
    by (auto simp: redis_cut_def Let_def hm_values_def min_le_iff_disj)
qed

lemma redis_prune_stream_inv:
  assumes "redis_stream_inv s"
  shows "redis_stream_inv (snd (run_prog (redis_prune_events st n) s))"
  using assms unfolding redis_stream_inv_def redis_prune_run
  by (simp add: log_sorted_after) (simp add: after_seq_def)

interpretation rx: ordered_stream "redis_stream now" redis_stream_inv redis_log redis_acked
proof
  fix s st n g limit env and ne :: NewEvent
  assume inv: "redis_stream_inv s"
  show "sx_read_events (redis_stream now) st n limit s =
      (Inr (take (read_limit limit) (after_seq n (redis_log s st))), s)"
    by (simp add: redis_stream_def redis_read_run)
  show "\<exists>infos. sx_consumer_group_info (redis_stream now) st s = (Inr infos, s)
      \<and> map_option cg_last_acked_seq (find (\<lambda>c. cg_consumer_group c = g) infos) = redis_acked s st g"
    by (simp add: redis_stream_def redis_info_run)
  show "fst (sx_ack (redis_stream now) env st g n s) = Inr ()
      \<and> redis_stream_inv (snd (sx_ack (redis_stream now) env st g n s))
      \<and> redis_log (snd (sx_ack (redis_stream now) env st g n s)) = redis_log s
      \<and> (\<exists>m. redis_acked (snd (sx_ack (redis_stream now) env st g n s)) st g = Some m
           \<and> (case redis_acked s st g of None \<Rightarrow> 0 < n \<longrightarrow> m = n | Some k \<Rightarrow> m = max k n))
      \<and> (\<forall>st' g'. (st', g') \<noteq> (st, g) \<longrightarrow>
           redis_acked (snd (sx_ack (redis_stream now) env st g n s)) st' g' = redis_acked s st' g')"
    using inv redis_stream_inv_cong[OF redis_ack_run(2,3)]
    by (auto simp: redis_stream_def redis_ack_run split: option.split)
  let ?e = "\<lparr>ev_sequence_no = counter (rs_stream_seq s) st + 1, ev_stream_name = st,
    ev_event_type = ne_event_type ne, ev_payload_json = ne_payload_json ne, ev_created_at = e_now env\<rparr>"
  show "\<exists>n e. fst (sx_publish (redis_stream now) env st ne s) = Inr n
      \<and> redis_stream_inv (snd (sx_publish (redis_stream now) env st ne s))
      \<and> seq e = n \<and> ev_event_type e = ne_event_type ne \<and> ev_payload_json e = ne_payload_json ne
      \<and> ev_stream_name e = st
      \<and> redis_log (snd (sx_publish (redis_stream now) env st ne s)) = (redis_log s)(st := redis_log s st @ [e])
      \<and> redis_acked (snd (sx_publish (redis_stream now) env st ne s)) = redis_acked s"
    using redis_publish_stream_inv[OF inv]
    by (intro exI[of _ "counter (rs_stream_seq s) st + 1"] exI[of _ ?e])
       (simp add: redis_stream_def redis_publish_run)
  show "\<exists>c. c \<le> n \<and> (\<forall>g m. redis_acked s st g = Some m \<longrightarrow> c \<le> m)
      \<and> redis_stream_inv (snd (sx_prune_events (redis_stream now) st n s))
      \<and> redis_log (snd (sx_prune_events (redis_stream now) st n s)) =
          (redis_log s)(st := after_seq c (redis_log s st))
      \<and> redis_acked (snd (sx_prune_events (redis_stream now) st n s)) = redis_acked s
      \<and> fst (sx_prune_events (redis_stream now) st n s) =
          Inr (length (redis_log s st) - length (after_seq c (redis_log s st)))"
    using redis_prune_stream_inv[OF inv] redis_cut_le
    by (intro exI[of _ "redis_cut st n s"]) (auto simp: redis_stream_def redis_prune_run)
  show "log_sorted (redis_log s st)" using inv by (simp add: redis_stream_inv_def)
qed

end
