(* ===== verification/Redis_Properties.thy ===== *)
theory Redis_Properties
  imports Redis_Concurrent Redis_Streams Sample_States Client_Properties
begin

text \<open>
  The Redis storage: what holds under any interleaving of clients, what a worker may rely on
  when it is alone, and what the non-atomic calls do not give: crashes between two commands,
  cancellation, jobs scheduled for later and names with a colon.
\<close>

fun reply_of :: "'a prog \<Rightarrow> 'a option" where
  "reply_of (Return r) = Some r"
| "reply_of (Command c) = None"

lemma reply_of_Some: "reply_of p = Some r \<longleftrightarrow> p = Return r"
  by (cases p) auto

definition redis_job :: "string \<Rightarrow> datetime \<Rightarrow> string option \<Rightarrow> NewJob" where
  "redis_job queue run_at key =
     \<lparr>nj_queue = queue, nj_job_type = ''send'', nj_payload_json = JNull,
      nj_idempotency_key = key, nj_run_at = run_at, nj_deadline_at = None,
      nj_timeout_seconds = None, nj_recurring_interval_seconds = None, nj_priority = 0,
      nj_max_attempts = 3\<rparr>"

definition redis_two :: RedisBackend where
  "redis_two =
     snd (run_prog (redis_enqueue (sample_env 2 2) (redis_job ''mail'' 0 None))
       (snd (run_prog (redis_enqueue (sample_env 1 1) (redis_job ''mail'' 0 None)) redis_new)))"

definition redis_one_leased :: RedisBackend where
  "redis_one_leased = snd (run_prog (redis_lease_jobs_batch (sample_env 5 5) ''mail'' ''w1'' 10 1) redis_two)"

section \<open>Concurrent clients\<close>

lemma distinct_count:
  assumes "\<And>i. count (mset l) i \<le> 1"
  shows "distinct l"
  unfolding distinct_count_atmost_1
proof
  fix a
  show "count (mset l) a = (if a \<in> set l then 1 else 0)"
    using assms[of a] by (auto simp: le_Suc_eq)
qed

text \<open>
  C7: Whatever the interleaving of the commands of any number of concurrent calls that lease,
  enqueue, replay, report (success, retry, dead-letter), extend a lease or cancel on Redis, no
  two lease calls hand out the same job: a lease call that has returned has handed out different
  jobs, all due and locked for its worker, and none of them to another lease call. Every handed
  out job that no report, heartbeat or cancellation among the calls names is still stored exactly
  as it was returned. Heartbeats, success and dead-letter reports and cancellations may come in
  any number, by anybody, for any jobs, also several for the same job. What must hold is that
  no identifier is pushed twice: the lists of the queues have no duplicates, new identifiers are
  new, and no two concurrent retry reports give back the same job, nor one a waiting job; and
  stored jobs lie under their own identifiers. The reaper is not among the calls.
\<close>

theorem redis_lease_exclusive:
  assumes "interleaving (map call_prog cs) s qs t" "ids_ok s" "pushes_apart cs s"
    and "k < length cs" "cs ! k = RLease env q w ls bs" "qs ! k = Return r"
  shows "\<exists>js. r = Leased (Inr js) \<and> distinct (map j_id js)
    \<and> (\<forall>j \<in> set js. redis_lease_held w j \<and> j_run_at j \<le> e_now env
         \<and> (j_id j \<notin> named cs \<longrightarrow> redis_stored t (j_id j) = Some j))
    \<and> (\<forall>l env' q' w' ls' bs' js'. l < length cs \<longrightarrow> l \<noteq> k \<longrightarrow> cs ! l = RLease env' q' w' ls' bs'
         \<longrightarrow> qs ! l = Return (Leased (Inr js')) \<longrightarrow> j_id ` set js \<inter> j_id ` set js' = {})"
proof -
  let ?D = "named cs"
  obtain X V where ok: "clients_ok ?D (\<lambda>k. call_post ?D s (cs ! k)) X V qs t" and len: "length qs = length cs"
    using clients_interleaved[OF assms(1) calls_ok_named[OF assms(2,3)]] by auto
  have returned: "\<exists>js. r = Leased (Inr js) \<and> locked_jobs ?D (e_now env) w js (X k) (V k)"
    if "k < length cs" "cs ! k = RLease env q w ls bs" "qs ! k = Return r" for k env q w ls bs r
    using clients_returned(1)[OF ok, of k r] that len by simp
  from returned[OF assms(4-6)] obtain js where js: "r = Leased (Inr js)" "locked_jobs ?D (e_now env) w js (X k) (V k)"
    by blast
  have ids: "mset (map j_id js) = X k" using js(2) by (simp add: locked_jobs_def)
  note k = assms(4)[folded len] assms(6)
  have "count (mset (map j_id js)) i \<le> 1" for i using clients_returned(3)[OF ok k] ids by simp
  then have "distinct (map j_id js)" by (rule distinct_count)
  moreover have "redis_lease_held w j \<and> j_run_at j \<le> e_now env
      \<and> (j_id j \<notin> ?D \<longrightarrow> redis_stored t (j_id j) = Some j)" if "j \<in> set js" for j
  proof -
    have "j_id j \<in># X k" unfolding ids[symmetric] using that by simp
    then have "entry t (j_id j) = Some (Encoded j)" if "j_id j \<notin> ?D"
      using clients_returned(2)[OF ok k] js(2) \<open>j \<in> set js\<close> that by (simp add: locked_jobs_def)
    then show ?thesis using js(2) that by (simp add: locked_jobs_def redis_stored_def entry_def)
  qed
  moreover have "j_id ` set js \<inter> j_id ` set js' = {}"
    if "l < length cs" "l \<noteq> k" "cs ! l = RLease env' q' w' ls' bs'" "qs ! l = Return (Leased (Inr js'))"
    for l env' q' w' ls' bs' js'
  proof -
    have "mset (map j_id js') = X l" using returned[OF that(1,3,4)] by (simp add: locked_jobs_def)
    then have "set_mset (X l) = j_id ` set js'" by (metis set_mset_mset set_map)
    moreover have "set_mset (X k) = j_id ` set js" using ids by (metis set_mset_mset set_map)
    moreover have "l < length qs" using that(1) len by simp
    ultimately show ?thesis using clients_returned(4)[OF ok k _ that(2)] by blast
  qed
  ultimately show ?thesis using js(1) by blast
qed

text \<open>
  Two workers lease while a heartbeat and a success report name the second job.
\<close>

definition race :: "redis_call list" where
  "race = [RLease (sample_env 10 10) ''mail'' ''w1'' 10 5, RLease (sample_env 10 20) ''mail'' ''w2'' 10 5,
     RExtend (sample_env 10 30) 2 ''w2'' 10, RSucceed (sample_env 10 40) 2 7 ''w2'' 5]"

definition race_end :: "redis_reply prog list \<times> RedisBackend" where
  "race_end = run_schedule [0, 1, 0, 1, 0, 1, 2, 3, 3, 2, 0, 1, 0, 1, 3] (map call_prog race) redis_two"

fun reply_ids :: "redis_reply \<Rightarrow> uuid list" where
  "reply_ids (Leased (Inr js)) = map j_id js"
| "reply_ids _ = []"

lemma ids_ok_concrete:
  assumes "list_all (\<lambda>(i, json). case from_str json of None \<Rightarrow> True | Some j \<Rightarrow> j_id j = i) (rs_jobs s)"
  shows "ids_ok s"
  using assms by (fastforce simp: ids_ok_def entry_def list_all_iff dest!: map_of_SomeD)

lemma pushes_apart_concrete:
  assumes "map snd (rs_queues s) = [l]" "mset l' = mset l + sum_list (map call_pushes cs)" "distinct l'"
  shows "listed (rs_queues s) = mset l" "pushes_apart cs s"
proof -
  show *: "listed (rs_queues s) = mset l" using assms(1) by (auto simp: listed_def map_eq_Cons_conv)
  have "count (mset l') i \<le> 1" for i using assms(3) by (simp add: distinct_count_atmost_1)
  then show "pushes_apart cs s" unfolding pushes_apart_def * assms(2)[symmetric] by blast
qed

theorem redis_lease_exclusive_witness:
  "map_option reply_ids (reply_of (fst race_end ! 0)) = Some [1]
   \<and> map_option reply_ids (reply_of (fst race_end ! 1)) = Some [2]
   \<and> (\<exists>j. redis_stored (snd race_end) 1 = Some j \<and> j_locked_by j = Some ''w1'')"
proof -
  have r1: "map_option reply_ids (reply_of (fst race_end ! 1)) = Some [2]" by code_simp
  obtain r where r: "fst race_end ! 0 = Return r" "reply_ids r = [1]"
  proof -
    have "map_option reply_ids (reply_of (fst race_end ! 0)) = Some [1]" by code_simp
    then show thesis using that by (auto simp: reply_of_Some)
  qed
  have "interleaving (map call_prog race) redis_two (fst race_end) (snd race_end)"
    unfolding race_end_def by (rule schedule_interleaving[OF interleaving.start])
  moreover have "ids_ok redis_two" by (rule ids_ok_concrete) code_simp
  moreover have "pushes_apart race redis_two"
  proof (rule pushes_apart_concrete(2)[where l = "[1, 2]" and l' = "[1, 2, 40]"])
    show "map snd (rs_queues redis_two) = [[1, 2]]" by code_simp
  qed (simp_all add: race_def sample_env_def)
  ultimately have "\<exists>js. r = Leased (Inr js) \<and> (\<forall>j \<in> set js. redis_lease_held ''w1'' j
      \<and> (j_id j \<notin> named race \<longrightarrow> redis_stored (snd race_end) (j_id j) = Some j))"
    using redis_lease_exclusive[OF _ _ _ _ _ r(1), of race _ _ "sample_env 10 10" "''mail''" "''w1''" 10 5]
    by (fastforce simp: race_def)
  then obtain js where js: "r = Leased (Inr js)" "\<forall>j \<in> set js. redis_lease_held ''w1'' j
      \<and> (j_id j \<notin> named race \<longrightarrow> redis_stored (snd race_end) (j_id j) = Some j)"
    by blast
  then obtain j where "js = [j]" "j_id j = 1" using r(2) by (auto simp: map_eq_Cons_conv)
  moreover have "1 \<notin> named race" by (simp add: named_def race_def)
  ultimately show ?thesis using r js r1 by (auto simp: redis_lease_held_def)
qed

text \<open>
  C21: Whatever the other calls do meanwhile, whichever jobs they lease, report on, extend or
  cancel: a success report, dead-letter report or heartbeat of the holder of a job that has
  returned has been accepted, and the job is stored as the call left it: completed,
  dead-lettered, or with its lease extended. This needs that no other of the concurrent calls
  names this job, that the job is in no list, and that no identifier is pushed twice.
\<close>

theorem redis_reports_kept:
  assumes "interleaving (map call_prog cs) s qs t" "ids_ok s" "pushes_apart cs s"
    and "k < length cs" "qs ! k = Return r"
    and "redis_stored s i = Some j" "redis_lease_held w j"
    and "i \<notin> named_by_others cs k" "i \<notin># listed (rs_queues s) + sum_list (map call_pushes cs)"
  shows "(cs ! k = RSucceed env i a w l \<longrightarrow>
       r = Reported (Inr ()) \<and> redis_stored t i = Some (redis_complete (e_now env) j))
    \<and> (cs ! k = RDlq env i a w l rc c m n \<longrightarrow>
       r = Reported (Inr ()) \<and> redis_stored t i = Some (redis_dlq (e_now env) rc j))
    \<and> (cs ! k = RExtend env i w ls \<longrightarrow>
       r = Extended (Inr True) \<and> redis_stored t i = Some (extended (e_now env) ls j))"
proof -
  let ?D = "named_by_others cs k"
  have j: "entry s i = Some (Encoded j)"
    using assms(6) by (cases "map_of (rs_jobs s) i"; cases "the (map_of (rs_jobs s) i)")
      (auto simp: redis_stored_def entry_def)
  have known: "\<exists>X V. call_post ?D s (cs ! k) r X V \<and> (i \<in># X \<longrightarrow> entry t i = V i)"
    if mine: "call_owns ?D (cs ! k) = add_mset i (call_pushes (cs ! k))"
  proof -
    obtain X V where ok: "clients_ok ?D (\<lambda>k. call_post ?D s (cs ! k)) X V qs t" and len: "length qs = length cs"
      using clients_interleaved[OF assms(1) calls_ok_report[OF assms(2-4) mine refl assms(9)]] by auto
    note k = assms(4)[folded len] assms(5)
    show ?thesis using clients_returned(1,2)[OF ok k] assms(8) by blast
  qed
  have kept: "u = Inr x \<and> redis_stored t i = Some (b j)"
    if "recorded_as ?D (entry s) i w x b u X V" "i \<in># X \<longrightarrow> entry t i = V i" for u x b X V
    using that assms(7,8) j by (auto simp: recorded_as_def redis_stored_def entry_def)
  note own = call_owns_def token_def assms(8)
  show ?thesis
  proof (intro conjI impI)
    assume c: "cs ! k = RSucceed env i a w l"
    then show "r = Reported (Inr ())" "redis_stored t i = Some (redis_complete (e_now env) j)"
      using known kept by (fastforce simp: own)+
  next
    assume c: "cs ! k = RDlq env i a w l rc c m n"
    then show "r = Reported (Inr ())" "redis_stored t i = Some (redis_dlq (e_now env) rc j)"
      using known kept by (fastforce simp: own)+
  next
    assume c: "cs ! k = RExtend env i w ls"
    then show "r = Extended (Inr True)" "redis_stored t i = Some (extended (e_now env) ls j)"
      using known kept by (fastforce simp: own)+
  qed
qed

definition report_race :: "redis_call list" where
  "report_race = [RSucceed (sample_env 12 30) 1 7 ''w1'' 5, RLease (sample_env 12 40) ''mail'' ''w2'' 10 5,
     RExtend (sample_env 12 50) 2 ''w2'' 10]"

definition report_end :: "redis_reply prog list \<times> RedisBackend" where
  "report_end = run_schedule [0, 1, 1, 0, 1, 2, 0, 0, 2, 1, 1] (map call_prog report_race) redis_one_leased"

lemma redis_one_leased_held:
  obtains j where "redis_stored redis_one_leased 1 = Some j" "redis_lease_held ''w1'' j"
proof -
  have "map_option (\<lambda>j. (j_status j, j_locked_by j)) (redis_stored redis_one_leased 1) = Some (''running'', Some ''w1'')"
    by code_simp
  then show thesis using that by (auto simp: redis_lease_held_def)
qed

theorem redis_reports_kept_witness:
  "\<exists>j. redis_stored redis_one_leased 1 = Some j
     \<and> redis_stored (snd report_end) 1 = Some (redis_complete 12 j)"
proof -
  obtain j where j: "redis_stored redis_one_leased 1 = Some j" "redis_lease_held ''w1'' j"
    by (rule redis_one_leased_held)
  have "reply_of (fst report_end ! 0) \<noteq> None" by code_simp
  then obtain r where r: "fst report_end ! 0 = Return r" by (auto simp: reply_of_Some)
  have q: "map snd (rs_queues redis_one_leased) = [[2]]" by code_simp
  have p: "mset [2, 30] = mset [2] + sum_list (map call_pushes report_race)"
    by (simp add: report_race_def sample_env_def)
  note queue = pushes_apart_concrete[OF q p]
  have "interleaving (map call_prog report_race) redis_one_leased (fst report_end) (snd report_end)"
    unfolding report_end_def by (rule schedule_interleaving[OF interleaving.start])
  moreover have "ids_ok redis_one_leased" by (rule ids_ok_concrete) code_simp
  moreover have "pushes_apart report_race redis_one_leased" by (rule queue(2)) simp
  moreover have "1 \<notin> named_by_others report_race 0"
    by (auto simp: named_by_others_def report_race_def less_Suc_eq)
  moreover have "1 \<notin># listed (rs_queues redis_one_leased) + sum_list (map call_pushes report_race)"
    by (simp add: queue(1) report_race_def sample_env_def)
  moreover have "report_race ! 0 = RSucceed (sample_env 12 30) 1 7 ''w1'' 5" "0 < length report_race"
    by (simp_all add: report_race_def)
  ultimately have "redis_stored (snd report_end) 1 = Some (redis_complete (e_now (sample_env 12 30)) j)"
    using redis_reports_kept[OF _ _ _ _ r j, where cs = report_race and t = "snd report_end"] by blast
  then show ?thesis using j(1) by (simp add: sample_env_def)
qed

text \<open>
  The conditions are needed. A heartbeat whose read comes before a success report of the same
  worker and whose write comes after it undoes the accepted report: the job is running again,
  although no worker has it. A worker stops its heartbeat task without waiting for the heartbeat
  in progress, so the two do meet.
\<close>

lemma heartbeat_undoes_report:
  "let (qs, t) = run_schedule [0, 1, 1, 1, 0]
         (map call_prog [RExtend (sample_env 12 20) 1 ''w1'' 10, RSucceed (sample_env 12 30) 1 7 ''w1'' 5])
         redis_one_leased
   in map reply_of qs = [Some (Extended (Inr True)), Some (Reported (Inr ()))]
      \<and> status_of (redis_stored t) 1 = Some ''running'' \<and> 1 \<notin> set (waiting_ids t ''mail'')"
  by code_simp

text \<open>Two retry reports of the same attempt that interleave put the job into its queue twice.\<close>

lemma retry_reports_duplicate:
  "let (qs, t) = run_schedule [0, 1, 0, 1, 0, 1, 0, 1]
         (map call_prog [RRetry (sample_env 12 20) 1 7 ''w1'' 5 12 ''E'' ''m'' 1,
                         RRetry (sample_env 12 30) 1 7 ''w1'' 5 12 ''E'' ''m'' 1])
         redis_one_leased
   in map reply_of qs = [Some (Reported (Inr ())), Some (Reported (Inr ()))]
      \<and> waiting_ids t ''mail'' = [2, 1, 1]"
  by code_simp

section \<open>A worker on its own\<close>

text \<open>
  A worker over Redis that is alone on the server and processes a leased batch in which no
  handler times out settles every job of the batch with the status its outcome calls for and
  changes no other job apart from next occurrences under new identifiers.
\<close>

theorem redis_batch_settles:
  assumes "redis_inv s" "distinct (map j_id batch)"
    and "\<forall>j \<in> set batch. held_by (redis_stored s) (qf_worker_id f) (j_id j)"
    and "fresh_batch env world (redis_used s)"
    and "\<forall>k < length batch. retry_safe f (world k) (batch ! k)"
    and "\<forall>k < length batch. \<not> attempt_timed_out f (world k) (batch ! k)"
  shows "\<exists>rs s'. fst (run_prog (redis_start_attempts_batch env (map j_dataset_id batch) (map j_id batch)
                        (qf_worker_id f)) s) = Inr rs
    \<and> process_batch (redis_backend now) f env world batch s = (Inr (), s') \<and> redis_inv s'
    \<and> (\<forall>k < length batch. status_of (redis_stored s') (j_id (batch ! k)) =
         Some (expected_status f (world k) (batch ! k) (snd (snd (rs ! k)))))
    \<and> (\<forall>i. i \<notin> j_id ` set batch \<longrightarrow> i \<notin> range (new_id world) \<longrightarrow> redis_stored s' i = redis_stored s i)"
  using rw.process_batch_settles[OF assms, where now = now] by (auto simp: redis_backend_def)

lemma redis_inv_concrete:
  assumes "list_all (\<lambda>(i, json). case from_str json of None \<Rightarrow> True | Some j \<Rightarrow> j_id j = i) (rs_jobs s)"
    and "rs_queues s = [(queue_key q, l)]" "distinct l"
    and "list_all (\<lambda>i. case redis_stored s i of None \<Rightarrow> False
           | Some j \<Rightarrow> j_status j = ''queued'' \<and> j_queue j = q) l"
  shows "redis_inv s"
proof -
  have "j_id j = i" if j: "redis_stored s i = Some j" for i j
  proof -
    obtain json where json: "map_of (rs_jobs s) i = Some json" "from_str json = Some j"
      using j by (auto simp: redis_stored_def split: bind_splits)
    then show ?thesis using assms(1) map_of_SomeD[OF json(1)] by (fastforce simp: list_all_iff)
  qed
  moreover have "waiting_ids s q' = (if q' = q then l else [])" for q'
    using assms(2) by (simp add: at_key_def queue_key_def)
  ultimately show ?thesis
    using assms(3,4) by (fastforce simp: redis_inv_def waiting_def list_all_iff split: option.splits)
qed

lemma redis_one_leased_inv: "redis_inv redis_one_leased"
proof (rule redis_inv_concrete[where q = "''mail''" and l = "[2]"])
  show "list_all (\<lambda>(i, json). case from_str json of None \<Rightarrow> True | Some j \<Rightarrow> j_id j = i) (rs_jobs redis_one_leased)"
    "rs_queues redis_one_leased = [(queue_key ''mail'', [2])]" "distinct [2::nat]"
    "list_all (\<lambda>i. case redis_stored redis_one_leased i of None \<Rightarrow> False
           | Some j \<Rightarrow> j_status j = ''queued'' \<and> j_queue j = ''mail'') [2]"
    by code_simp+
qed

theorem redis_batch_settles_witness:
  "\<exists>j s'. redis_stored redis_one_leased 1 = Some j
     \<and> process_batch (redis_backend 0) sample_flow (even_env 3 100) (sample_run False (TaskErr ''TIMEOUT: slow'') 100)
          [j] redis_one_leased = (Inr (), s')
     \<and> status_of (redis_stored s') 1 = Some ''queued''"
proof -
  let ?w = "sample_run False (TaskErr ''TIMEOUT: slow'') 100"
  define j where "j = the (redis_stored redis_one_leased 1)"
  have j: "redis_stored redis_one_leased 1 \<noteq> None" "j_id j = 1" "j_max_attempts j = 3" "redis_lease_held ''w1'' j"
    "fst (run_prog (redis_start_attempts_batch (even_env 3 100) [j_dataset_id j] [1] ''w1'') redis_one_leased)
       = Inr [(1, 100, 1)]"
    "expected_status sample_flow (?w 0) j 1 = ''queued''"
    "list_all (\<lambda>i. i < 3) (map fst (rs_jobs redis_one_leased))"
    unfolding j_def by code_simp+
  have s: "redis_stored redis_one_leased 1 = Some j" using j(1) by (auto simp: j_def)
  have "redis_used redis_one_leased \<subseteq> {..<3}"
    using j(7) by (auto simp: redis_used_def dom_map_of_conv_image_fst list_all_iff)
  then have "fresh_batch (even_env 3 100) ?w (redis_used redis_one_leased)"
    by (rule sample_fresh_batch) simp_all
  moreover have "retry_safe sample_flow (?w 0) j"
    using j(3) by (simp add: retry_safe_def sane_retry_def sample_flow_sel)
  moreover have "\<not> attempt_timed_out sample_flow (?w 0) j" by (simp add: attempt_timed_out_def sample_run_def)
  moreover have "held_by (redis_stored redis_one_leased) ''w1'' 1"
    using s j(4) by (auto simp: held_by_def redis_lease_held_def)
  ultimately show ?thesis
    using redis_batch_settles[OF redis_one_leased_inv, where batch = "[j]" and f = sample_flow
        and env = "even_env 3 100" and world = ?w and now = 0] j s
    by (auto simp: sample_flow_sel)
qed

section \<open>Enqueueing\<close>

text \<open>
  C31: Enqueueing on Redis under a new identifier and an unused key stores the request as a
  queued job, appends it to the list of its queue, and keeps the invariant; enqueueing again
  with the same key returns the first identifier and changes nothing.
\<close>

theorem redis_enqueue_idempotent:
  assumes "redis_inv s" "e_fresh env 0 \<notin> redis_used s"
    and "nj_idempotency_key job = Some key" "map_of (rs_idempotency s) key = None"
  shows "\<exists>s'. run_prog (redis_enqueue env job) s = (Inr (e_fresh env 0), s') \<and> redis_inv s'
    \<and> run_prog (redis_get_job (e_fresh env 0)) s' = (Inr (Some (redis_enqueue_entity env job)), s')
    \<and> waiting_ids s' (nj_queue job) = waiting_ids s (nj_queue job) @ [e_fresh env 0]
    \<and> (\<forall>env' job'. nj_idempotency_key job' = Some key \<longrightarrow>
         run_prog (redis_enqueue env' job') s' = (Inr (e_fresh env 0), s'))"
proof -
  let ?x = "e_fresh env 0" and ?j = "redis_enqueue_entity env job"
  define u where "u = s\<lparr>rs_idempotency := hm_insert key ?x (rs_idempotency s)\<rparr>"
  have j: "j_id ?j = ?x" "j_status ?j = ''queued''" "j_queue ?j = nj_queue job"
    by (simp_all add: redis_enqueue_entity_def)
  have u: "redis_stored u = redis_stored s" "redis_used u = redis_used s"
    by (simp_all add: u_def redis_stored_def redis_used_def fun_eq_iff)
  have "redis_inv u" using assms(1) by (simp add: redis_inv_def u) (simp add: u_def)
  moreover define v where "v = u\<lparr>rs_jobs := hm_insert ?x (Encoded ?j) (rs_jobs u),
      rs_queues := put_key (queue_key (nj_queue job)) (waiting_ids u (nj_queue job) @ [?x]) (rs_queues u)\<rparr>"
  ultimately have v: "redis_inv v"
    using redis_inv_new[of u ?j] j assms(2) u(2) by simp
  define s' where "s' = snd (run_prog (redis_enqueue env job) s)"
  have run: "run_prog (redis_enqueue env job) s = (Inr ?x, s')"
    using assms(3,4) by (simp add: redis_enqueue_def HSETNX_idempotency_def redis_enqueue_store_def s'_def)
  have s': "rs_idempotency s' = hm_insert key ?x (rs_idempotency s)"
    "rs_jobs s' = hm_insert ?x (Encoded ?j) (rs_jobs u)"
    "rs_queues s' = put_key (queue_key (nj_queue job)) (waiting_ids u (nj_queue job) @ [?x]) (rs_queues u)"
    using assms(3,4) by (simp_all add: redis_enqueue_def HSETNX_idempotency_def redis_enqueue_store_def s'_def u_def)
  have "redis_inv s' = redis_inv v"
    by (rule redis_inv_cong) (simp_all add: redis_stored_def fun_eq_iff s'(2,3) v_def)
  then have "redis_inv s'" using v by simp
  moreover have "run_prog (redis_get_job ?x) s' = (Inr (Some ?j), s')"
    by (simp add: redis_get_job_def HGET_jobs_def s'(2))
  moreover have "run_prog (redis_enqueue env' job') s' = (Inr ?x, s')" if "nj_idempotency_key job' = Some key" for env' job'
    using that by (simp add: redis_enqueue_def HSETNX_idempotency_def HGET_idempotency_def s'(1))
  moreover have "waiting_ids s' (nj_queue job) = waiting_ids s (nj_queue job) @ [?x]"
    by (simp add: s'(3) u_def)
  ultimately show ?thesis using run by blast
qed

theorem redis_enqueue_idempotent_witness:
  "\<exists>s'. run_prog (redis_enqueue (sample_env 1 1) (redis_job ''mail'' 0 (Some ''k''))) redis_new = (Inr 1, s')
     \<and> run_prog (redis_enqueue (sample_env 2 2) (redis_job ''sms'' 5 (Some ''k''))) s' = (Inr 1, s')"
proof -
  have new: "redis_inv redis_new"
    by (simp add: redis_inv_def redis_new_def redis_stored_def at_key_def)
  have "e_fresh (sample_env 1 1) 0 \<notin> redis_used redis_new" "map_of (rs_idempotency redis_new) ''k'' = None"
    by (simp_all add: redis_new_def redis_used_def)
  from redis_enqueue_idempotent[OF new this(1) _ this(2), where job = "redis_job ''mail'' 0 (Some ''k'')"]
  show ?thesis by (auto simp: redis_job_def sample_env_def)
qed

text \<open>
  A client that crashes after the first command of enqueueing with a key leaves the key
  claimed by an identifier without a job: every later enqueue with the key returns that
  identifier and stores nothing, and looking the job up finds none.
\<close>

theorem redis_key_without_job:
  assumes "nj_idempotency_key job = Some key" "map_of (rs_idempotency s) key = None"
    and "e_fresh env 0 \<notin> redis_used s" "nj_idempotency_key job' = Some key"
  shows "let t = snd (run_commands 1 (redis_enqueue env job) s)
    in run_prog (redis_enqueue env' job') t = (Inr (e_fresh env 0), t)
       \<and> run_prog (redis_get_job (e_fresh env 0)) t = (Inr None, t)"
proof -
  have "map_of (rs_jobs s) (e_fresh env 0) = None" using assms(3) by (auto simp: redis_used_def)
  moreover have "snd (run_commands 1 (redis_enqueue env job) s) =
      s\<lparr>rs_idempotency := hm_insert key (e_fresh env 0) (rs_idempotency s)\<rparr>"
    using assms(1,2) by (simp add: redis_enqueue_def HSETNX_idempotency_def)
  ultimately show ?thesis
    using assms(4) by (simp add: Let_def redis_enqueue_def HSETNX_idempotency_def HGET_idempotency_def
        redis_get_job_def HGET_jobs_def)
qed

theorem redis_key_without_job_witness:
  "let t = snd (run_commands 1 (redis_enqueue (sample_env 1 1) (redis_job ''mail'' 0 (Some ''k''))) redis_new)
   in run_prog (redis_enqueue (sample_env 9 9) (redis_job ''mail'' 0 (Some ''k''))) t = (Inr 1, t)
      \<and> run_prog (redis_get_job 1) t = (Inr None, t)"
  using redis_key_without_job[of "redis_job ''mail'' 0 (Some ''k'')" "''k''" redis_new "sample_env 1 1"
      "redis_job ''mail'' 0 (Some ''k'')" "sample_env 9 9"]
  by (simp add: redis_job_def sample_env_def redis_new_def redis_used_def)

section \<open>Crashes and recovery\<close>

text \<open>A job that is in no list and has no lease is out of reach of leasing and reaping.\<close>

definition stranded :: "uuid \<Rightarrow> Job \<Rightarrow> RedisBackend \<Rightarrow> bool" where
  "stranded i j s \<longleftrightarrow>
     redis_stored s i = Some j \<and> j_lock_expires_at j = None \<and> (\<forall>q. i \<notin> set (waiting_ids s q))"

datatype redis_recovery = Reap Env | Lease Env string string int int

fun recovery_step :: "redis_recovery \<Rightarrow> RedisBackend \<Rightarrow> RedisBackend" where
  "recovery_step (Reap env) s = snd (run_prog (redis_reap_expired_locks env) s)"
| "recovery_step (Lease env q w ls bs) s = snd (run_prog (redis_lease_jobs_batch env q w ls bs) s)"

lemma stranded_other:
  assumes "stranded i j s" "redis_stored t i = redis_stored s i"
    and "\<And>q. set (waiting_ids t q) \<subseteq> insert k (set (waiting_ids s q))" "k \<noteq> i"
  shows "stranded i j t"
  using assms by (fastforce simp: stranded_def)

lemma stranded_reap_ids:
  assumes "stranded i j s" "\<And>n s. stranded i j s \<Longrightarrow> stranded i j (snd (run_prog (k n) s))"
  shows "stranded i j (snd (run_prog (redis_reap_ids now pk (queue_key q) is n k) s))"
  using assms(1)
proof (induction "is" arbitrary: s n)
  case (Cons x "is")
  show ?case
  proof (cases "redis_stored s x")
    case (Some b)
    show ?thesis
    proof (cases "\<exists>e. j_lock_expires_at b = Some e \<and> e \<le> now")
      case True
      then have "x \<noteq> i" using Cons.prems Some by (auto simp: stranded_def)
      then show ?thesis
        using True Some
        by (auto simp: run_HGET_stored intro!: Cons.IH)
           (rule stranded_other[OF Cons.prems, where k = x]; auto simp: redis_stored_def)
    next
      case False
      then show ?thesis using Some Cons by (auto simp: run_HGET_stored split: option.split)
    qed
  qed (use Cons in \<open>simp add: run_HGET_stored\<close>)
qed (use assms(2) in simp)

lemma stranded_reap:
  assumes "stranded i j s"
  shows "stranded i j (snd (run_prog (redis_reap_expired_locks env) s))"
proof -
  have "stranded i j (snd (run_prog (redis_reap_keys now keys n) s))" if "stranded i j s" for now keys n s
    using that
  proof (induction keys arbitrary: n s)
    case (Cons key keys)
    then show ?case by (auto simp: Let_def LRANGE_processing_def intro!: stranded_reap_ids)
  qed simp
  then show ?thesis using assms by (simp add: redis_reap_expired_locks_def KEYS_processing_def)
qed

lemma stranded_lease:
  assumes "stranded i j s"
  shows "stranded i j (snd (run_prog (redis_lease_loop now ex (queue_key q) pk w n L) s))"
  using assms
proof (induction n arbitrary: s L)
  case (Suc n)
  show ?case
  proof (cases "waiting_ids s q")
    case (Cons k ks)
    have "k \<noteq> i" using Suc.prems Cons by (auto simp: stranded_def) (metis list.set_intros(1))
    then show ?thesis
      using Cons
      by (auto simp: LMOVE_def run_HGET_stored intro!: Suc.IH split: option.split)
         (rule stranded_other[OF Suc.prems, where k = k]; auto simp: redis_stored_def)+
  qed (use Suc.prems in \<open>simp add: LMOVE_def\<close>)
qed simp

lemma stranded_recovery: "stranded i j s \<Longrightarrow> stranded i j (fold recovery_step rs s)"
proof (induction rs arbitrary: s)
  case (Cons r rs)
  have "stranded i j (recovery_step r s)"
    using Cons.prems by (cases r) (simp_all add: stranded_reap stranded_lease redis_lease_jobs_batch_def)
  then show ?case by (simp add: Cons.IH)
qed simp

text \<open>
  A worker that crashes after the first command of leasing loses the job at the head of the
  queue for good: it has been moved to the worker's list, but carries no lease, so that no
  sequence of reaper passes and lease calls, however late, brings it back; the job stays stored
  as queued, and no queue lists it.
\<close>

theorem redis_crash_strands_job:
  assumes "redis_inv s" "waiting_ids s q = i # is" "redis_stored s i = Some j" "j_lock_expires_at j = None"
  shows "let t = snd (run_commands 1 (redis_lease_jobs_batch env q w ls bs) s);
             u = fold recovery_step rs t
    in i \<in> set (at_key (rs_processing t) (processing_key q w))
       \<and> redis_stored u i = Some j \<and> j_status j = ''queued'' \<and> (\<forall>q'. i \<notin> set (waiting_ids u q'))"
proof -
  let ?p = "put_key (processing_key q w) (at_key (rs_processing s) (processing_key q w) @ [i]) (rs_processing s)"
  define t where "t = s\<lparr>rs_queues := put_key (queue_key q) is (rs_queues s), rs_processing := ?p\<rparr>"
  have "0 < nat (clamp 1 100 bs)" using clamp_range[of 1 100 bs] by simp
  then obtain n where n: "nat (clamp 1 100 bs) = Suc n" using gr0_implies_Suc by blast
  have t: "snd (run_commands 1 (redis_lease_jobs_batch env q w ls bs) s) = t"
    using assms(2) by (simp add: redis_lease_jobs_batch_def n LMOVE_def t_def)
  note pop = redis_inv_pop[OF assms(1,2)]
  have "stranded i j t"
    using pop(3)[of ?p] assms(3,4) by (simp add: stranded_def t_def)
  then have "stranded i j (fold recovery_step rs t)" by (rule stranded_recovery)
  moreover have "j_status j = ''queued''" using pop(2) assms(3) by (auto simp: waiting_def)
  moreover have "i \<in> set (at_key (rs_processing t) (processing_key q w))" by (simp add: t_def)
  ultimately show ?thesis unfolding Let_def t stranded_def by blast
qed

lemma redis_two_inv: "redis_inv redis_two"
proof (rule redis_inv_concrete[where q = "''mail''" and l = "[1, 2]"])
  show "list_all (\<lambda>(i, json). case from_str json of None \<Rightarrow> True | Some j \<Rightarrow> j_id j = i) (rs_jobs redis_two)"
    "rs_queues redis_two = [(queue_key ''mail'', [1, 2])]" "distinct [1::nat, 2]"
    "list_all (\<lambda>i. case redis_stored redis_two i of None \<Rightarrow> False
           | Some j \<Rightarrow> j_status j = ''queued'' \<and> j_queue j = ''mail'') [1, 2]"
    by code_simp+
qed

lemma redis_two_head:
  obtains j where "waiting_ids redis_two ''mail'' = [1, 2]" "redis_stored redis_two 1 = Some j"
    "j_lock_expires_at j = None" "j_status j = ''queued''" "j_run_at j = 0" "j_deadline_at j = None"
proof -
  have "waiting_ids redis_two ''mail'' = [1, 2]" by code_simp
  moreover have "map_option (\<lambda>j. (j_lock_expires_at j, j_status j, j_run_at j, j_deadline_at j)) (redis_stored redis_two 1)
      = Some (None, ''queued'', 0, None)" by code_simp
  ultimately show thesis using that by auto
qed

theorem redis_crash_strands_job_witness:
  "let t = snd (run_commands 1 (redis_lease_jobs_batch (sample_env 5 5) ''mail'' ''w1'' 10 1) redis_two)
   in map_option j_status (redis_stored (fold recovery_step [Reap (sample_env 1000000000000 9),
          Lease (sample_env 1000000000000 9) ''mail'' ''w2'' 10 5] t) 1) = Some ''queued''"
proof -
  obtain j where j: "waiting_ids redis_two ''mail'' = [1, 2]" "redis_stored redis_two 1 = Some j"
    "j_lock_expires_at j = None" by (rule redis_two_head)
  show ?thesis
    using redis_crash_strands_job[OF redis_two_inv j(1-3), where env = "sample_env 5 5" and w = "''w1''"
        and ls = 10 and bs = 1 and rs = "[Reap (sample_env 1000000000000 9),
          Lease (sample_env 1000000000000 9) ''mail'' ''w2'' 10 5]"]
    unfolding Let_def by (metis option.map(2))
qed

section \<open>Cancellation and scheduling\<close>

lemma lease_loop_extends:
  "\<exists>js. fst (run_prog (redis_lease_loop now ex qk pk w n L) s) = Inr (L @ js)"
proof (induction n arbitrary: s L)
  case (Suc n)
  show ?case
  proof (cases "at_key (rs_queues s) qk")
    case (Cons k ks)
    have "\<exists>js. fst (run_prog (redis_lease_loop now ex qk pk w n (L @ [b])) t) = Inr (L @ js)" for b t
      using Suc.IH[of "L @ [b]" t] by auto
    then show ?thesis
      using Cons Suc.IH by (simp add: LMOVE_def run_HGET_stored split: option.split)
  qed (simp add: LMOVE_def)
qed simp

lemma lease_batch_Suc:
  obtains n where "redis_lease_jobs_batch env q w ls bs =
    redis_lease_loop (e_now env) (e_now env + seconds ls) (queue_key q) (processing_key q w) w (Suc n) []"
proof -
  have "0 < nat (clamp 1 100 bs)" using clamp_range[of 1 100 bs] by simp
  then obtain n where "nat (clamp 1 100 bs) = Suc n" using gr0_implies_Suc by blast
  then show thesis using that[of n] by (simp add: redis_lease_jobs_batch_def)
qed

text \<open>
  Cancelling a queued job on Redis succeeds but does not stop it: its identifier stays in
  the list of the queue and leasing does not look at the status, so the next lease call hands
  the cancelled job out as its first job, locked and running.
\<close>

theorem redis_cancelled_job_runs:
  assumes "redis_inv s" "waiting_ids s q = i # is" "redis_stored s i = Some j"
    and "j_run_at j \<le> e_now env'" "\<not> redis_past_deadline (e_now env') j"
  shows "let (r, t) = run_prog (redis_cancel_job env i worker) s
    in r = Inr () \<and> status_of (redis_stored t) i = Some ''canceled''
       \<and> (\<exists>js. fst (run_prog (redis_lease_jobs_batch env' q w ls bs) t) =
            Inr (redis_lock (e_now env') w (e_now env' + seconds ls) (redis_cancelled (e_now env) j) # js))"
proof -
  let ?c = "redis_cancelled (e_now env) j"
  have "i \<in> waiting (redis_stored s) q" using redis_invD(3)[OF assms(1), of i q] assms(2) by simp
  then have queued: "j_status j = ''queued''" using assms(3) by (auto simp: waiting_def)
  obtain json where json: "map_of (rs_jobs s) i = Some json" "from_str json = Some j"
    using assms(3) by (auto simp: redis_stored_def split: bind_splits)
  define t where "t = s\<lparr>rs_jobs := hm_insert i (Encoded ?c) (rs_jobs s)\<rparr>"
  have cancel: "run_prog (redis_cancel_job env i worker) s = (Inr (), t)"
    using json queued by (simp add: redis_cancel_job_def HGET_jobs_def t_def)
  have c: "j_run_at ?c = j_run_at j" "redis_past_deadline now ?c = redis_past_deadline now j"
    "j_status ?c = ''canceled''" for now
    by (simp_all add: redis_cancelled_def redis_past_deadline_def)
  obtain n where n: "redis_lease_jobs_batch env' q w ls bs =
    redis_lease_loop (e_now env') (e_now env' + seconds ls) (queue_key q) (processing_key q w) w (Suc n) []"
    by (rule lease_batch_Suc)
  have "at_key (rs_queues t) (queue_key q) = i # is" using assms(2) by (simp add: t_def)
  then have "\<exists>u. run_prog (redis_lease_jobs_batch env' q w ls bs) t =
      run_prog (redis_lease_loop (e_now env') (e_now env' + seconds ls) (queue_key q) (processing_key q w) w n
        [redis_lock (e_now env') w (e_now env' + seconds ls) ?c]) u"
    using assms(4,5) c unfolding n
    by (simp add: LMOVE_def run_HGET_stored redis_stored_def t_def) blast
  then obtain u where u: "run_prog (redis_lease_jobs_batch env' q w ls bs) t =
      run_prog (redis_lease_loop (e_now env') (e_now env' + seconds ls) (queue_key q) (processing_key q w) w n
        [redis_lock (e_now env') w (e_now env' + seconds ls) ?c]) u" by blast
  have "\<exists>js. fst (run_prog (redis_lease_jobs_batch env' q w ls bs) t) =
      Inr (redis_lock (e_now env') w (e_now env' + seconds ls) ?c # js)"
    using lease_loop_extends[of "e_now env'" "e_now env' + seconds ls" "queue_key q" "processing_key q w" w n
        "[redis_lock (e_now env') w (e_now env' + seconds ls) ?c]" u] unfolding u by simp
  moreover have "status_of (redis_stored t) i = Some ''canceled''" using c(3) by (simp add: t_def status_of_def)
  ultimately show ?thesis using cancel by simp
qed

theorem redis_cancelled_job_runs_witness:
  "\<exists>j js. fst (run_prog (redis_lease_jobs_batch (sample_env 5 5) ''mail'' ''w1'' 10 1)
        (snd (run_prog (redis_cancel_job (sample_env 4 4) 1 None) redis_two))) = Inr (j # js)
     \<and> j_id j = 1 \<and> j_status j = ''running''"
proof -
  obtain j where j: "waiting_ids redis_two ''mail'' = [1, 2]" "redis_stored redis_two 1 = Some j"
    "j_run_at j = 0" "j_deadline_at j = None" by (rule redis_two_head)
  define b where "b = redis_lock 5 ''w1'' (5 + seconds 10) (redis_cancelled 4 j)"
  have "j_id j = 1" using redis_invD(1)[OF redis_two_inv j(2)] .
  then have b: "j_id b = 1" "j_status b = ''running''" by (simp_all add: b_def redis_lock_def redis_cancelled_def)
  have "j_run_at j \<le> e_now (sample_env 5 5)" "\<not> redis_past_deadline (e_now (sample_env 5 5)) j"
    "e_now (sample_env 5 5) = 5" "e_now (sample_env 4 4) = 4"
    using j(3,4) by (simp_all add: sample_env_def redis_past_deadline_def)
  then have "\<exists>js. fst (run_prog (redis_lease_jobs_batch (sample_env 5 5) ''mail'' ''w1'' 10 1)
        (snd (run_prog (redis_cancel_job (sample_env 4 4) 1 None) redis_two))) = Inr (b # js)"
    using redis_cancelled_job_runs[OF redis_two_inv j(1,2), of "sample_env 5 5" "sample_env 4 4" None "''w1''" 10 1]
    by (simp add: b_def case_prod_unfold Let_def)
  then show ?thesis using b by blast
qed

text \<open>
  A job at the head of a Redis queue that is scheduled for later hides all jobs behind it:
  a lease call takes it off and puts it back as often as the batch is large, returns no job,
  and leaves the jobs and the queues as they were, however many of them are due.
\<close>

theorem redis_head_blocks_queue:
  assumes "waiting_ids s q = i # is" "redis_stored s i = Some j" "e_now env < j_run_at j"
  shows "\<exists>s'. run_prog (redis_lease_jobs_batch env q w ls bs) s = (Inr [], s')
    \<and> redis_stored s' = redis_stored s \<and> (\<forall>q'. waiting_ids s' q' = waiting_ids s q')"
proof -
  have "\<exists>s'. run_prog (redis_lease_loop (e_now env) ex (queue_key q) pk w n []) s = (Inr [], s')
    \<and> redis_stored s' = redis_stored s \<and> (\<forall>q'. waiting_ids s' q' = waiting_ids s q')" for ex pk n
    using assms(1,2)
  proof (induction n arbitrary: s)
    case (Suc n)
    define t where "t = s\<lparr>rs_queues := put_key (queue_key q) (i # is) (put_key (queue_key q) is (rs_queues s)),
      rs_processing := put_key pk (remove1 i (at_key (rs_processing s) pk @ [i]))
        (put_key pk (at_key (rs_processing s) pk @ [i]) (rs_processing s))\<rparr>"
    have t: "redis_stored t = redis_stored s" "\<And>q'. waiting_ids t q' = waiting_ids s q'"
      using Suc.prems(1) by (simp_all add: t_def)
    have "run_prog (redis_lease_loop (e_now env) ex (queue_key q) pk w (Suc n) []) s =
        run_prog (redis_lease_loop (e_now env) ex (queue_key q) pk w n []) t"
      using Suc.prems assms(3) by (simp add: LMOVE_def run_HGET_stored t_def)
    then show ?case using Suc.IH[of t] Suc.prems t by simp
  qed auto
  then show ?thesis unfolding redis_lease_jobs_batch_def by blast
qed

definition redis_future_first :: RedisBackend where
  "redis_future_first =
     snd (run_prog (redis_enqueue (sample_env 2 2) (redis_job ''mail'' 0 None))
       (snd (run_prog (redis_enqueue (sample_env 1 1) (redis_job ''mail'' 99 None)) redis_new)))"

theorem redis_head_blocks_queue_witness:
  "waiting_ids redis_future_first ''mail'' = [1, 2]
   \<and> map_option j_run_at (redis_stored redis_future_first 2) = Some 0
   \<and> fst (run_prog (redis_lease_jobs_batch (sample_env 5 5) ''mail'' ''w1'' 10 50) redis_future_first) = Inr []"
proof -
  have w: "waiting_ids redis_future_first ''mail'' = [1, 2]" by code_simp
  have "map_option j_run_at (redis_stored redis_future_first 1) = Some 99" by code_simp
  then obtain j where j: "redis_stored redis_future_first 1 = Some j" "j_run_at j = 99" by auto
  have "map_option j_run_at (redis_stored redis_future_first 2) = Some 0" by code_simp
  moreover have "e_now (sample_env 5 5) < j_run_at j" using j(2) by (simp add: sample_env_def)
  from redis_head_blocks_queue[OF w j(1) this, of "''w1''" 10 50]
  have "fst (run_prog (redis_lease_jobs_batch (sample_env 5 5) ''mail'' ''w1'' 10 50) redis_future_first) = Inr []"
    by auto
  ultimately show ?thesis using w by blast
qed

section \<open>Reaping\<close>

lemma split_at_first: "c \<notin> set a \<Longrightarrow> split_at c (a @ c # b) = a # split_at c b"
  by (induction a) auto

lemma split_at_nonempty [simp]: "split_at c xs \<noteq> []"
  by (induction xs) (auto split: list.split)

lemma split_at_head: "hd (split_at c (a @ c # b)) = takeWhile (\<lambda>x. x \<noteq> c) a"
  by (induction a) (auto split: list.splits)

lemma split_at_length: "2 \<le> length (split_at c (a @ c # b))"
proof (induction a)
  case Nil
  then show ?case by (cases "split_at c b") auto
next
  case (Cons x a)
  then show ?case by (auto split: list.split)
qed

lemma processing_key_parts:
  "4 \<le> length (split_at (CHR '':'') (processing_key q w))"
  "split_at (CHR '':'') (processing_key q w) ! 2 = takeWhile (\<lambda>c. c \<noteq> CHR '':'') q"
proof -
  have "processing_key q w = ''azums'' @ CHR '':'' # (''processing'' @ CHR '':'' # (q @ CHR '':'' # w))"
    by (simp add: processing_key_def)
  then have parts: "split_at (CHR '':'') (processing_key q w) =
      ''azums'' # ''processing'' # split_at (CHR '':'') (q @ CHR '':'' # w)"
    by (simp only: split_at_first[of "CHR '':''" "''azums''"] split_at_first[of "CHR '':''" "''processing''"])
       simp
  show "4 \<le> length (split_at (CHR '':'') (processing_key q w))"
    unfolding parts using split_at_length[of "CHR '':''" q w] by simp
  show "split_at (CHR '':'') (processing_key q w) ! 2 = takeWhile (\<lambda>c. c \<noteq> CHR '':'') q"
    unfolding parts using split_at_head[of "CHR '':''" q w] by (simp add: hd_conv_nth)
qed

text \<open>
  The reaper of Redis gives a job whose lease has expired back, but to the queue named by
  the part of the queue's name before the first colon: to the job's own queue exactly when
  the name has no colon. The job is stored as queued without a lease, and no other job changes.
\<close>

theorem redis_reap_queue_name:
  assumes "rs_processing s = [(processing_key q w, [i])]" "redis_stored s i = Some j"
    and "j_lock_expires_at j = Some expiry" "expiry \<le> e_now env"
  shows "\<exists>s'. run_prog (redis_reap_expired_locks env) s = (Inr 1, s')
    \<and> redis_stored s' = (redis_stored s)(i \<mapsto> redis_requeue (e_now env) j)
    \<and> (\<forall>q'. waiting_ids s' q' = waiting_ids s q' @ (if q' = takeWhile (\<lambda>c. c \<noteq> CHR '':'') q then [i] else []))
    \<and> (takeWhile (\<lambda>c. c \<noteq> CHR '':'') q = q \<longleftrightarrow> CHR '':'' \<notin> set q)"
proof -
  let ?q = "takeWhile (\<lambda>c. c \<noteq> CHR '':'') q" and ?k = "processing_key q w"
  have key: "prefix ''azums:processing:'' ?k" by (simp add: processing_key_def)
  have len: "\<not> length (split_at (CHR '':'') ?k) < 4" using processing_key_parts(1)[of q w] by simp
  have ids: "at_key (rs_processing s) ?k = [i]" using assms(1) by (simp add: at_key_def)
  define s' where "s' = s\<lparr>rs_jobs := hm_insert i (Encoded (redis_requeue (e_now env) j)) (rs_jobs s),
    rs_processing := put_key ?k [] (rs_processing s),
    rs_queues := put_key (queue_key ?q) (waiting_ids s ?q @ [i]) (rs_queues s)\<rparr>"
  have "run_prog (redis_reap_expired_locks env) s = run_prog (redis_reap_keys (e_now env) [?k] 0) s"
    using assms(1) key by (simp add: redis_reap_expired_locks_def KEYS_processing_def del: redis_reap_keys.simps)
  also have "\<dots> = run_prog (redis_reap_ids (e_now env) ?k (queue_key ?q) [i] 0 (redis_reap_keys (e_now env) [])) s"
    using len ids processing_key_parts(2)[of q w]
    by (simp add: Let_def LRANGE_processing_def del: redis_reap_ids.simps)
  also have "\<dots> = (Inr 1, s')" using assms(2-4) ids by (simp add: run_HGET_stored s'_def)
  finally have "run_prog (redis_reap_expired_locks env) s = (Inr 1, s')" .
  moreover have "takeWhile (\<lambda>c. c \<noteq> CHR '':'') q = q \<longleftrightarrow> CHR '':'' \<notin> set q"
    by (auto simp: takeWhile_eq_all_conv)
  moreover have "redis_stored s' = (redis_stored s)(i \<mapsto> redis_requeue (e_now env) j)"
    by (simp add: s'_def)
  moreover have "waiting_ids s' q' = waiting_ids s q' @ (if q' = ?q then [i] else [])" for q'
    by (simp add: s'_def)
  ultimately show ?thesis by blast
qed

definition redis_colon :: RedisBackend where
  "redis_colon = snd (run_prog (redis_lease_jobs_batch (sample_env 5 5) ''mail:eu'' ''w1'' 10 1)
     (snd (run_prog (redis_enqueue (sample_env 1 1) (redis_job ''mail:eu'' 0 None)) redis_new)))"

theorem redis_reap_queue_name_witness:
  "\<exists>s'. run_prog (redis_reap_expired_locks (sample_env 99999999999 9)) redis_colon = (Inr 1, s')
     \<and> waiting_ids s' ''mail'' = [1] \<and> waiting_ids s' ''mail:eu'' = []"
proof -
  have p: "rs_processing redis_colon = [(processing_key ''mail:eu'' ''w1'', [1])]" by code_simp
  have "map_option (\<lambda>j. j_lock_expires_at j) (redis_stored redis_colon 1) = Some (Some 10000000005)" by code_simp
  then obtain j where j: "redis_stored redis_colon 1 = Some j" "j_lock_expires_at j = Some 10000000005" by auto
  have e: "10000000005 \<le> e_now (sample_env 99999999999 9)" by (simp add: sample_env_def)
  have "waiting_ids redis_colon ''mail'' = []" "waiting_ids redis_colon ''mail:eu'' = []" by code_simp+
  then show ?thesis using redis_reap_queue_name[OF p j e] by auto
qed

text \<open>
  Two reapers whose commands interleave put an expired job twice into its queue, and two
  workers then get it at the same time.
\<close>

definition two_reapers :: "(anyhow + nat) prog list \<times> RedisBackend" where
  "two_reapers = run_schedule [0, 1, 0, 1, 0, 1, 0, 1, 0, 1, 0, 1]
     [redis_reap_expired_locks (sample_env 99999999999 9), redis_reap_expired_locks (sample_env 99999999999 9)]
     redis_one_leased"

theorem redis_two_reapers_duplicate:
  "interleaving [redis_reap_expired_locks (sample_env 99999999999 9), redis_reap_expired_locks (sample_env 99999999999 9)]
     redis_one_leased (fst two_reapers) (snd two_reapers)
   \<and> waiting_ids (snd two_reapers) ''mail'' = [2, 1, 1]
   \<and> (let (r1, t) = run_prog (redis_lease_jobs_batch (sample_env 99999999999 9) ''mail'' ''w2'' 10 2) (snd two_reapers);
          (r2, u) = run_prog (redis_lease_jobs_batch (sample_env 99999999999 9) ''mail'' ''w3'' 10 1) t
      in reply_ids (Leased r1) = [2, 1] \<and> reply_ids (Leased r2) = [1])"
proof (intro conjI)
  show "interleaving [redis_reap_expired_locks (sample_env 99999999999 9), redis_reap_expired_locks (sample_env 99999999999 9)]
     redis_one_leased (fst two_reapers) (snd two_reapers)"
    unfolding two_reapers_def by (rule schedule_interleaving[OF interleaving.start])
  show "waiting_ids (snd two_reapers) ''mail'' = [2, 1, 1]" by code_simp
  show "let (r1, t) = run_prog (redis_lease_jobs_batch (sample_env 99999999999 9) ''mail'' ''w2'' 10 2) (snd two_reapers);
          (r2, u) = run_prog (redis_lease_jobs_batch (sample_env 99999999999 9) ''mail'' ''w3'' 10 1) t
      in reply_ids (Leased r1) = [2, 1] \<and> reply_ids (Leased r2) = [1]" by code_simp
qed

section \<open>Streams\<close>

text \<open>
  A consumer group on Redis that reads and acknowledges batch by batch receives exactly its
  unread events, in order and once, and pruning takes none of them away.
\<close>

theorem redis_consume_in_order:
  assumes "redis_stream_inv s"
  shows "fst (consume (redis_stream now) env st g limit rounds s) =
      take (rounds * read_limit limit) (unread (redis_acked s st g) (redis_log s st))
    \<and> (redis_acked s st g \<noteq> None \<longrightarrow>
         unread (redis_acked s st g) (redis_log (snd (run_prog (redis_prune_events st n) s)) st) =
         unread (redis_acked s st g) (redis_log s st))"
  using rx.consume_in_order[OF assms] rx.prune_keeps_pending[OF assms, where now = now]
  by (auto simp: redis_stream_def redis_prune_run(3))

end
