(* ===== verification/Postgres_Tables.thy ===== *)
theory Postgres_Tables
  imports Sql_Tables Memory_Store
begin

text \<open>
  The tables of the PostgreSQL storage and the statements on them that several repositories
  share. The tables are those of a migrated database: \<^verbatim>\<open>jobs\<close> with primary key
  \<^verbatim>\<open>(dataset_id, id)\<close>, a unique index on \<^verbatim>\<open>(dataset_id, idempotency_key)\<close> and a trigger
  that sets \<^verbatim>\<open>updated_at\<close> on every update, \<^verbatim>\<open>job_attempts\<close> and \<^verbatim>\<open>policy_decisions\<close> with
  foreign keys that cascade, and the tables of policies, archived jobs, streams, refused
  requests and rate counters. How \<^verbatim>\<open>jobs\<close> is split into partitions is a matter of layout that
  no query sees, so \<^verbatim>\<open>ensure_dataset_partition\<close> has no counterpart.

  A timestamp column has microseconds: a bound instant loses its nanoseconds. The clock of the
  database is the clock of the environment. A transaction runs as one step; a method that sends
  several statements without a transaction is the composition of its steps. A cast to
  \<^verbatim>\<open>integer\<close> fails outside 32 bits.
\<close>

section \<open>Rows\<close>

text \<open>A row of \<^verbatim>\<open>jobs\<close> is a job with the two columns that \<^verbatim>\<open>Job\<close> does not read.\<close>

record PgJob = Job +
  j_last_error_code :: "string option"
  j_last_error_message :: "string option"

record QueuePolicy =
  qp_queue :: string
  qp_max_attempts_per_minute :: int
  qp_max_in_flight :: int
  qp_throttle_delay_ms :: int

record PolicyDecisionRow =
  pd_id :: uuid
  pd_dataset_id :: string
  pd_job_id :: uuid
  pd_decision :: string
  pd_reason_code :: string
  pd_details_json :: json
  pd_created_at :: datetime

record IngestDecisionRow =
  in_id :: uuid
  in_queue :: string
  in_decision :: string
  in_reason_code :: string
  in_details_json :: json
  in_created_at :: datetime

record RateCounterRow =
  rc_queue :: string
  rc_window_start :: datetime
  rc_count :: int

record ArchivedRow =
  ar_id :: uuid
  ar_replay_of_job_id :: "uuid option"
  ar_queue :: string
  ar_job_type :: string
  ar_payload :: json
  ar_run_at :: datetime
  ar_status :: string
  ar_priority :: int
  ar_max_attempts :: int
  ar_dlq_reason_code :: "string option"
  ar_dlq_at :: "datetime option"
  ar_created_at :: datetime
  ar_updated_at :: datetime

record PostgresBackend =
  pg_jobs :: "PgJob list"
  pg_attempts :: "MemoryAttempt list"
  pg_decisions :: "PolicyDecisionRow list"
  pg_policies :: "QueuePolicy list"
  pg_archive :: "ArchivedRow list"
  pg_events :: "Event list"
  pg_sequence :: int
  pg_offsets :: "ConsumerGroupStatus list"
  pg_ingest :: "IngestDecisionRow list"
  pg_counters :: "RateCounterRow list"
  pg_listeners :: "(string, nat) hashmap"

definition pg_new :: PostgresBackend where
  "pg_new =
     \<lparr>pg_jobs = [], pg_attempts = [], pg_decisions = [], pg_policies = [], pg_archive = [],
      pg_events = [], pg_sequence = 0, pg_offsets = [], pg_ingest = [], pg_counters = [],
      pg_listeners = []\<rparr>"

text \<open>\<^verbatim>\<open>query_as::<_, Job>\<close>: the columns of \<^verbatim>\<open>Job\<close>.\<close>

abbreviation job_of :: "PgJob \<Rightarrow> Job" where
  "job_of \<equiv> Job.truncate"

section \<open>Values\<close>

definition pg_timestamp :: "datetime \<Rightarrow> datetime" where
  "pg_timestamp t = t - t mod 1000"

definition pg_now :: "Env \<Rightarrow> datetime" where
  "pg_now env = pg_timestamp (e_now env)"

definition fits_int4 :: "int \<Rightarrow> bool" where
  "fits_int4 n \<longleftrightarrow> - (2 ^ 31) \<le> n \<and> n < 2 ^ 31"

definition opt_int4 :: "int option \<Rightarrow> bool" where
  "opt_int4 x = (case x of None \<Rightarrow> True | Some n \<Rightarrow> fits_int4 n)"

definition out_of_range :: anyhow where
  "out_of_range = sql_error ''integer out of range''"

text \<open>\<^verbatim>\<open>now() + (n * interval '1 millisecond')\<close>\<close>

definition milliseconds :: "int \<Rightarrow> int" where
  "milliseconds n = n * 1000000"

section \<open>Statements on jobs\<close>

text \<open>UPDATE jobs SET f WHERE P, with the trigger on \<^verbatim>\<open>updated_at\<close>.\<close>

definition update_jobs ::
  "datetime \<Rightarrow> (PgJob \<Rightarrow> bool) \<Rightarrow> (PgJob \<Rightarrow> PgJob) \<Rightarrow> PgJob list \<Rightarrow> PgJob list" where
  "update_jobs now P f = sql_update P (\<lambda>r. (f r)\<lparr>j_updated_at := now\<rparr>)"

text \<open>The row an INSERT INTO jobs starts from: every column has its default.\<close>

definition default_row :: "Env \<Rightarrow> string \<Rightarrow> PgJob" where
  "default_row env dataset_id =
     \<lparr>j_dataset_id = dataset_id, j_replay_of_job_id = None, j_idempotency_key = None,
      j_id = e_fresh env 0, j_queue = [], j_job_type = [], j_payload = JObject [],
      j_run_at = pg_now env, j_deadline_at = None, j_timeout_seconds = None,
      j_recurring_interval_seconds = None, j_status = ''queued'', j_priority = 0,
      j_max_attempts = 25, j_locked_at = None, j_locked_by = None, j_lock_expires_at = None,
      j_dlq_reason_code = None, j_dlq_at = None, j_created_at = pg_now env,
      j_updated_at = pg_now env, j_last_error_code = None, j_last_error_message = None\<rparr>"

definition same_job :: "PgJob \<Rightarrow> PgJob \<Rightarrow> bool" where
  "same_job r r' \<longleftrightarrow> j_dataset_id r = j_dataset_id r' \<and> j_id r = j_id r'"

definition key_conflict :: "PgJob \<Rightarrow> PgJob \<Rightarrow> bool" where
  "key_conflict row r \<longleftrightarrow>
     j_idempotency_key row \<noteq> None \<and> j_idempotency_key r = j_idempotency_key row
     \<and> j_dataset_id r = j_dataset_id row"

definition pg_insert_job :: "PgJob \<Rightarrow> PgJob list \<Rightarrow> anyhow + PgJob list" where
  "pg_insert_job row t =
     (if list_ex (same_job row) t then Inl (sql_error ''duplicate key: jobs_pkey'')
      else if list_ex (key_conflict row) t
      then Inl (sql_error ''duplicate key: jobs_idempotency_key_uq'')
      else Inr (t @ [row]))"

text \<open>
  ON CONFLICT (dataset_id, idempotency_key) DO UPDATE SET idempotency_key =
  EXCLUDED.idempotency_key RETURNING id: the row that has the key stays, but the trigger
  touches it.
\<close>

definition pg_upsert_job :: "datetime \<Rightarrow> PgJob \<Rightarrow> PgJob list \<Rightarrow> anyhow + (uuid \<times> PgJob list)" where
  "pg_upsert_job now row t =
     (case find (key_conflict row) t of
        Some existing \<Rightarrow>
          Inr (j_id existing,
               update_jobs now (same_job existing)
                 (\<lambda>r. r\<lparr>j_idempotency_key := j_idempotency_key row\<rparr>) t)
      | None \<Rightarrow>
          (case pg_insert_job row t of
             Inl e \<Rightarrow> Inl e
           | Inr t' \<Rightarrow> Inr (j_id row, t')))"

text \<open>DELETE FROM jobs WHERE P, which cascades to attempts and decisions.\<close>

definition belongs :: "PgJob list \<Rightarrow> string \<Rightarrow> uuid \<Rightarrow> bool" where
  "belongs t dataset_id job_id \<longleftrightarrow>
     list_ex (\<lambda>r. j_dataset_id r = dataset_id \<and> j_id r = job_id) t"

definition pg_delete_jobs :: "(PgJob \<Rightarrow> bool) \<Rightarrow> PostgresBackend \<Rightarrow> PostgresBackend" where
  "pg_delete_jobs P s =
     (let gone = filter P (pg_jobs s)
      in s\<lparr>pg_jobs := sql_delete P (pg_jobs s),
           pg_attempts :=
             sql_delete (\<lambda>a. belongs gone (at_dataset_id a) (at_job_id a)) (pg_attempts s),
           pg_decisions :=
             sql_delete (\<lambda>d. belongs gone (pd_dataset_id d) (pd_job_id d)) (pg_decisions s)\<rparr>)"

section \<open>Statements on attempts and decisions\<close>

definition attempt_key :: "MemoryAttempt \<Rightarrow> uuid \<times> int" where
  "attempt_key a = (at_job_id a, at_attempt_no a)"

text \<open>INSERT INTO job_attempts of several rows: all of them, or an error and none.\<close>

definition pg_insert_attempts ::
  "MemoryAttempt list \<Rightarrow> PostgresBackend \<Rightarrow> anyhow + PostgresBackend" where
  "pg_insert_attempts rows s =
     (let t = pg_attempts s @ rows
      in if \<not> list_all (\<lambda>a. belongs (pg_jobs s) (at_dataset_id a) (at_job_id a)) rows
         then Inl (sql_error ''foreign key: job_attempts_dataset_job_fkey'')
         else if \<not> distinct (map at_id t) then Inl (sql_error ''duplicate key: job_attempts_pkey'')
         else if \<not> distinct (map attempt_key t)
         then Inl (sql_error ''duplicate key: job_attempts_job_attempt_no_uq'')
         else Inr (s\<lparr>pg_attempts := t\<rparr>))"

definition pg_insert_decision ::
  "PolicyDecisionRow \<Rightarrow> PostgresBackend \<Rightarrow> anyhow + PostgresBackend" where
  "pg_insert_decision row s =
     (if \<not> belongs (pg_jobs s) (pd_dataset_id row) (pd_job_id row)
      then Inl (sql_error ''foreign key: policy_decisions_dataset_job_fkey'')
      else if pd_id row \<in> pd_id ` set (pg_decisions s)
      then Inl (sql_error ''duplicate key: policy_decisions_pkey'')
      else Inr (s\<lparr>pg_decisions := pg_decisions s @ [row]\<rparr>))"

text \<open>\<^verbatim>\<open>SELECT pg_notify($1, '')\<close>: wakes the listeners of the channel.\<close>

definition pg_notify :: "string \<Rightarrow> PostgresBackend \<Rightarrow> PostgresBackend" where
  "pg_notify channel s = s\<lparr>pg_listeners := hm_modify channel Suc (pg_listeners s)\<rparr>"

definition pg_listen :: "string \<Rightarrow> PostgresBackend \<Rightarrow> PostgresBackend" where
  "pg_listen channel s =
     (case map_of (pg_listeners s) channel of
        Some _ \<Rightarrow> s
      | None \<Rightarrow> s\<lparr>pg_listeners := hm_insert channel 0 (pg_listeners s)\<rparr>)"

end
