(* ===== verification/Postgres_Jobs.thy ===== *)
theory Postgres_Jobs
  imports Postgres_Tables
begin

text \<open>
  The repository of jobs, \<^verbatim>\<open>azums/src/jobs/repo.rs\<close>. A job lives in a dataset, named after its
  queue and the hour of its \<^verbatim>\<open>run_at\<close>. The formatting of the hour is the argument \<open>stamp\<close>: the
  source calls the date library for it. Where SQL leaves the order of rows open the model
  takes the order of the table.
\<close>

section \<open>Datasets and channels\<close>

definition is_ascii_alphanumeric :: "char \<Rightarrow> bool" where
  "is_ascii_alphanumeric c \<longleftrightarrow>
     (let n = of_char c :: nat
      in 48 \<le> n \<and> n \<le> 57 \<or> 65 \<le> n \<and> n \<le> 90 \<or> 97 \<le> n \<and> n \<le> 122)"

definition to_ascii_lowercase :: "char \<Rightarrow> char" where
  "to_ascii_lowercase c =
     (let n = of_char c :: nat in if 65 \<le> n \<and> n \<le> 90 then char_of (n + 32) else c)"

definition trim_matches :: "char \<Rightarrow> string \<Rightarrow> string" where
  "trim_matches c s = rev (dropWhile (\<lambda>x. x = c) (rev (dropWhile (\<lambda>x. x = c) s)))"

definition sanitize_dataset_queue :: "string \<Rightarrow> string" where
  "sanitize_dataset_queue queue =
     (let out = map (\<lambda>ch. if is_ascii_alphanumeric ch then to_ascii_lowercase ch else CHR ''_'') queue;
          trimmed = trim_matches (CHR ''_'') out
      in if trimmed = [] then ''default'' else take 32 trimmed)"

definition dataset_id_for :: "(datetime \<Rightarrow> string) \<Rightarrow> string \<Rightarrow> datetime \<Rightarrow> string" where
  "dataset_id_for stamp queue instant = sanitize_dataset_queue queue @ ''_'' @ stamp instant"

definition notify_channel_name :: "string \<Rightarrow> string" where
  "notify_channel_name queue = ''azums_job_enqueued_'' @ sanitize_dataset_queue queue"

section \<open>Enqueue\<close>

definition enqueued_row :: "(datetime \<Rightarrow> string) \<Rightarrow> Env \<Rightarrow> NewJob \<Rightarrow> PgJob" where
  "enqueued_row stamp env job =
     (default_row env (dataset_id_for stamp (nj_queue job) (nj_run_at job)))
       \<lparr>j_idempotency_key := nj_idempotency_key job, j_queue := nj_queue job,
        j_job_type := nj_job_type job, j_payload := nj_payload_json job,
        j_run_at := pg_timestamp (nj_run_at job),
        j_deadline_at := map_option pg_timestamp (nj_deadline_at job),
        j_timeout_seconds := nj_timeout_seconds job,
        j_recurring_interval_seconds := nj_recurring_interval_seconds job,
        j_status := ''queued'', j_priority := nj_priority job,
        j_max_attempts := nj_max_attempts job\<rparr>"

definition pg_enqueue :: "(datetime \<Rightarrow> string) \<Rightarrow> Env \<Rightarrow> NewJob \<Rightarrow> (PostgresBackend, uuid) op" where
  "pg_enqueue stamp env job s =
     (if \<not> (opt_int4 (nj_timeout_seconds job) \<and> opt_int4 (nj_recurring_interval_seconds job))
      then (Inl out_of_range, s)
      else
        (case pg_upsert_job (pg_now env) (enqueued_row stamp env job) (pg_jobs s) of
           Inl e \<Rightarrow> (Inl e, s)
         | Inr (i, t) \<Rightarrow>
             (Inr i, pg_notify (notify_channel_name (nj_queue job)) (s\<lparr>pg_jobs := t\<rparr>))))"

text \<open>
  In the caller's transaction, which commits or rolls back later; listeners hear of it at the
  commit.
\<close>

definition pg_enqueue_in_tx ::
  "(datetime \<Rightarrow> string) \<Rightarrow> Env \<Rightarrow> NewJob \<Rightarrow> (PostgresBackend, uuid) op" where
  "pg_enqueue_in_tx stamp env job s =
     (let channel = notify_channel_name (nj_queue job)
      in if \<not> (opt_int4 (nj_timeout_seconds job) \<and> opt_int4 (nj_recurring_interval_seconds job))
         then (Inl out_of_range, s)
         else
           (case pg_upsert_job (pg_now env) (enqueued_row stamp env job) (pg_jobs s) of
              Inl e \<Rightarrow> (Inl e, s)
            | Inr (i, t) \<Rightarrow> (Inr i, pg_notify channel (s\<lparr>pg_jobs := t\<rparr>))))"

definition plain_job :: "string \<Rightarrow> string \<Rightarrow> json \<Rightarrow> datetime \<Rightarrow> NewJob" where
  "plain_job queue job_type payload_json run_at =
     \<lparr>nj_queue = queue, nj_job_type = job_type, nj_payload_json = payload_json,
      nj_idempotency_key = None, nj_run_at = run_at, nj_deadline_at = None,
      nj_timeout_seconds = None, nj_recurring_interval_seconds = None, nj_priority = 0,
      nj_max_attempts = 25\<rparr>"

definition pg_enqueue_now ::
  "(datetime \<Rightarrow> string) \<Rightarrow> Env \<Rightarrow> string \<Rightarrow> string \<Rightarrow> json \<Rightarrow> (PostgresBackend, uuid) op" where
  "pg_enqueue_now stamp env queue job_type payload_json =
     pg_enqueue stamp env (plain_job queue job_type payload_json (e_now env))"

definition pg_enqueue_in ::
  "(datetime \<Rightarrow> string) \<Rightarrow> Env \<Rightarrow> string \<Rightarrow> string \<Rightarrow> json \<Rightarrow> int \<Rightarrow> (PostgresBackend, uuid) op" where
  "pg_enqueue_in stamp env queue job_type payload_json delay_secs =
     pg_enqueue stamp env (plain_job queue job_type payload_json (e_now env + seconds delay_secs))"

definition pg_enqueue_at ::
  "(datetime \<Rightarrow> string) \<Rightarrow> Env \<Rightarrow> string \<Rightarrow> string \<Rightarrow> json \<Rightarrow> datetime \<Rightarrow> (PostgresBackend, uuid) op" where
  "pg_enqueue_at stamp env queue job_type payload_json run_at =
     pg_enqueue stamp env (plain_job queue job_type payload_json run_at)"

definition pg_subscribe :: "string \<Rightarrow> (PostgresBackend, unit) op" where
  "pg_subscribe queue s = (Inr (), pg_listen (notify_channel_name queue) s)"

section \<open>Reads and heartbeats\<close>

definition pg_get_job :: "uuid \<Rightarrow> (PostgresBackend, Job option) op" where
  "pg_get_job job_id s = (Inr (map_option job_of (row_at j_id (pg_jobs s) job_id)), s)"

definition held_row :: "uuid \<Rightarrow> string \<Rightarrow> PgJob \<Rightarrow> bool" where
  "held_row job_id worker_id r \<longleftrightarrow>
     j_id r = job_id \<and> j_locked_by r = Some worker_id \<and> j_status r = ''running''"

definition pg_extend_lease :: "Env \<Rightarrow> uuid \<Rightarrow> string \<Rightarrow> int \<Rightarrow> (PostgresBackend, bool) op" where
  "pg_extend_lease env job_id worker_id lease_seconds s =
     (if \<not> fits_int4 lease_seconds then (Inl out_of_range, s)
      else
        (Inr (rows_affected (held_row job_id worker_id) (pg_jobs s) > 0),
         s\<lparr>pg_jobs :=
             update_jobs (pg_now env) (held_row job_id worker_id)
               (\<lambda>r. r\<lparr>j_lock_expires_at := Some (pg_now env + seconds lease_seconds)\<rparr>)
               (pg_jobs s)\<rparr>))"

definition pg_list_item :: "PgJob \<Rightarrow> JobListItem" where
  "pg_list_item r =
     \<lparr>li_id = j_id r, li_idempotency_key = j_idempotency_key r, li_queue = j_queue r,
      li_job_type = j_job_type r, li_status = j_status r, li_run_at = j_run_at r,
      li_deadline_at = j_deadline_at r, li_timeout_seconds = j_timeout_seconds r,
      li_recurring_interval_seconds = j_recurring_interval_seconds r, li_priority = j_priority r,
      li_max_attempts = j_max_attempts r, li_last_error_code = j_last_error_code r,
      li_last_error_message = j_last_error_message r, li_dlq_reason_code = j_dlq_reason_code r,
      li_created_at = j_created_at r, li_updated_at = j_updated_at r\<rparr>"

definition before_cursor :: "datetime \<Rightarrow> uuid \<Rightarrow> PgJob \<Rightarrow> bool" where
  "before_cursor ca cid r \<longleftrightarrow> j_created_at r < ca \<or> j_created_at r = ca \<and> j_id r < cid"

definition pg_list_jobs ::
  "string option \<Rightarrow> string option \<Rightarrow> int \<Rightarrow> datetime option \<Rightarrow> uuid option
     \<Rightarrow> (PostgresBackend, JobListItem list) op" where
  "pg_list_jobs queue status limit cursor_created_at cursor_id s =
     (let n = clamp 1 500 limit;
          rows =
            (case (queue, status, map_option pg_timestamp cursor_created_at, cursor_id) of
               (Some q, Some st, Some ca, Some cid) \<Rightarrow>
                 filter (\<lambda>r. j_queue r = q \<and> j_status r = st \<and> before_cursor ca cid r) (pg_jobs s)
             | (Some q, Some st, _, _) \<Rightarrow>
                 filter (\<lambda>r. j_queue r = q \<and> j_status r = st) (pg_jobs s)
             | (Some q, None, Some ca, Some cid) \<Rightarrow>
                 filter (\<lambda>r. j_queue r = q \<and> before_cursor ca cid r) (pg_jobs s)
             | (Some q, None, _, _) \<Rightarrow> filter (\<lambda>r. j_queue r = q) (pg_jobs s)
             | (None, Some st, Some ca, Some cid) \<Rightarrow>
                 filter (\<lambda>r. j_status r = st \<and> before_cursor ca cid r) (pg_jobs s)
             | (None, Some st, _, _) \<Rightarrow> filter (\<lambda>r. j_status r = st) (pg_jobs s)
             | (None, None, Some ca, Some cid) \<Rightarrow> filter (before_cursor ca cid) (pg_jobs s)
             | (None, None, _, _) \<Rightarrow> pg_jobs s)
      in (Inr (sql_limit n (sort_key newest_first (map pg_list_item rows))), s))"

definition pg_metrics_snapshot :: "Env \<Rightarrow> (PostgresBackend, nat \<times> nat \<times> nat \<times> nat) op" where
  "pg_metrics_snapshot env s =
     (let since = pg_now env - seconds 60;
          queued = rows_affected (\<lambda>r. j_status r = ''queued'') (pg_jobs s);
          running = rows_affected (\<lambda>r. j_status r = ''running'') (pg_jobs s);
          succeeded_last_60s =
            rows_affected (\<lambda>r. j_status r = ''succeeded'' \<and> j_updated_at r \<ge> since) (pg_jobs s);
          failed_last_60s =
            rows_affected
              (\<lambda>r. (j_status r = ''failed'' \<or> j_status r = ''dlq'') \<and> j_updated_at r \<ge> since)
              (pg_jobs s)
      in (Inr (queued, running, succeeded_last_60s, failed_last_60s), s))"

section \<open>Leasing\<close>

definition pg_due :: "datetime \<Rightarrow> string \<Rightarrow> PgJob \<Rightarrow> bool" where
  "pg_due now queue r \<longleftrightarrow> j_queue r = queue \<and> j_status r = ''queued'' \<and> j_run_at r \<le> now"

definition pg_past_deadline :: "datetime \<Rightarrow> PgJob \<Rightarrow> bool" where
  "pg_past_deadline now r \<longleftrightarrow>
     (case j_deadline_at r of None \<Rightarrow> False | Some deadline \<Rightarrow> deadline < now)"

definition pg_expire_deadlines :: "datetime \<Rightarrow> string \<Rightarrow> PgJob list \<Rightarrow> PgJob list" where
  "pg_expire_deadlines now queue =
     update_jobs now (\<lambda>r. pg_due now queue r \<and> pg_past_deadline now r)
       (\<lambda>r. r\<lparr>j_status := ''dlq'', j_dlq_reason_code := Some ''DEADLINE_EXCEEDED'',
             j_dlq_at := Some now\<rparr>)"

text \<open>ORDER BY run_at ASC, created_at ASC LIMIT 1\<close>

definition pg_pick_dataset :: "datetime \<Rightarrow> string \<Rightarrow> PgJob list \<Rightarrow> string option" where
  "pg_pick_dataset now queue t =
     (case sort_key (\<lambda>r. (j_run_at r, j_created_at r)) (filter (pg_due now queue) t) of
        [] \<Rightarrow> None
      | r # _ \<Rightarrow> Some (j_dataset_id r))"

fun pg_order :: "QueueOrdering \<Rightarrow> PgJob list \<Rightarrow> PgJob list" where
  "pg_order Fifo t = sort_key (\<lambda>r. (- j_priority r, j_run_at r, j_created_at r, j_id r)) t"
| "pg_order Fastest t = sort_key (\<lambda>r. (- j_priority r, j_run_at r)) t"

definition pg_candidates ::
  "datetime \<Rightarrow> string \<Rightarrow> string \<Rightarrow> int \<Rightarrow> QueueOrdering \<Rightarrow> PgJob list \<Rightarrow> PgJob list" where
  "pg_candidates now dataset_id queue n policy t =
     sql_limit n
       (pg_order policy (filter (\<lambda>r. j_dataset_id r = dataset_id \<and> pg_due now queue r) t))"

definition pg_in_flight :: "string \<Rightarrow> PgJob list \<Rightarrow> int" where
  "pg_in_flight queue t = int (rows_affected (\<lambda>r. j_queue r = queue \<and> j_status r = ''running'') t)"

definition pg_attempts_last_min :: "datetime \<Rightarrow> string \<Rightarrow> PgJob list \<Rightarrow> MemoryAttempt list \<Rightarrow> int" where
  "pg_attempts_last_min now queue t atts =
     int (rows_affected
       (\<lambda>a. belongs (filter (\<lambda>r. j_queue r = queue) t) (at_dataset_id a) (at_job_id a)
            \<and> at_started_at a \<ge> now - seconds 60) atts)"

definition pg_throttle_reason ::
  "datetime \<Rightarrow> string \<Rightarrow> QueuePolicy option \<Rightarrow> PgJob list \<Rightarrow> MemoryAttempt list \<Rightarrow> string option" where
  "pg_throttle_reason now queue policy t atts =
     (case policy of
        None \<Rightarrow> None
      | Some p \<Rightarrow>
          if pg_in_flight queue t \<ge> qp_max_in_flight p then Some ''IN_FLIGHT_EXCEEDED''
          else if pg_attempts_last_min now queue t atts \<ge> qp_max_attempts_per_minute p
          then Some ''RETRY_RATE_EXCEEDED''
          else None)"

definition pg_throttle_details ::
  "string \<Rightarrow> string \<Rightarrow> string \<Rightarrow> int \<Rightarrow> int \<Rightarrow> QueuePolicy \<Rightarrow> json" where
  "pg_throttle_details reason_code dataset_id queue in_flight attempts_last_min p =
     (if reason_code = ''IN_FLIGHT_EXCEEDED''
      then JObject [(''dataset_id'', JString dataset_id), (''queue'', JString queue),
             (''in_flight'', JNumber in_flight), (''max_in_flight'', JNumber (qp_max_in_flight p)),
             (''throttle_delay_ms'', JNumber (qp_throttle_delay_ms p))]
      else JObject [(''dataset_id'', JString dataset_id), (''queue'', JString queue),
             (''attempts_last_minute'', JNumber attempts_last_min),
             (''max_attempts_per_minute'', JNumber (qp_max_attempts_per_minute p)),
             (''throttle_delay_ms'', JNumber (qp_throttle_delay_ms p))])"

text \<open>A throttled lease records its decision and delays the job it would have handed out first.\<close>

definition pg_throttle ::
  "Env \<Rightarrow> string \<Rightarrow> string \<Rightarrow> QueueOrdering \<Rightarrow> string \<Rightarrow> QueuePolicy \<Rightarrow> (PostgresBackend, Job list) op" where
  "pg_throttle env dataset_id queue policy reason_code p s =
     (let now = pg_now env
      in case pg_candidates now dataset_id queue 1 policy (pg_jobs s) of
           [] \<Rightarrow> (Inr [], s)
         | candidate # _ \<Rightarrow>
             (case pg_insert_decision
                     \<lparr>pd_id = e_fresh env 0, pd_dataset_id = dataset_id, pd_job_id = j_id candidate,
                      pd_decision = ''THROTTLED'', pd_reason_code = reason_code,
                      pd_details_json =
                        pg_throttle_details reason_code dataset_id queue
                          (pg_in_flight queue (pg_jobs s))
                          (pg_attempts_last_min now queue (pg_jobs s) (pg_attempts s)) p,
                      pd_created_at = now\<rparr> s of
                Inl e \<Rightarrow> (Inl e, s)
              | Inr s1 \<Rightarrow>
                  (Inr [],
                   s1\<lparr>pg_jobs :=
                        update_jobs now (\<lambda>r. j_id r = j_id candidate)
                          (\<lambda>r. r\<lparr>j_run_at := now + milliseconds (qp_throttle_delay_ms p)\<rparr>)
                          (pg_jobs s1)\<rparr>)))"

definition pg_lock_row :: "datetime \<Rightarrow> string \<Rightarrow> int \<Rightarrow> PgJob \<Rightarrow> PgJob" where
  "pg_lock_row now worker_id lease_seconds r =
     r\<lparr>j_status := ''running'', j_locked_by := Some worker_id, j_locked_at := Some now,
       j_lock_expires_at := Some (now + seconds lease_seconds)\<rparr>"

definition pg_lease_batch ::
  "Env \<Rightarrow> string \<Rightarrow> string \<Rightarrow> string \<Rightarrow> int \<Rightarrow> int \<Rightarrow> QueueOrdering \<Rightarrow> (PostgresBackend, Job list) op" where
  "pg_lease_batch env dataset_id queue worker_id lease_seconds n policy s =
     (if \<not> fits_int4 lease_seconds then (Inl out_of_range, s)
      else
        (let now = pg_now env;
             candidates = pg_candidates now dataset_id queue n policy (pg_jobs s);
             P = (\<lambda>r. j_id r \<in> j_id ` set candidates);
             t = update_jobs now P (pg_lock_row now worker_id lease_seconds) (pg_jobs s)
         in (Inr (map job_of (pg_order policy (filter P t))), s\<lparr>pg_jobs := t\<rparr>)))"

text \<open>After the deadlines: pick the dataset, ask the policy, throttle or lease.\<close>

definition pg_lease_unexpired ::
  "Env \<Rightarrow> string \<Rightarrow> string \<Rightarrow> int \<Rightarrow> int \<Rightarrow> QueueOrdering \<Rightarrow> (PostgresBackend, Job list) op" where
  "pg_lease_unexpired env queue worker_id lease_seconds n policy s =
     (let now = pg_now env;
          queue_policy = find (\<lambda>p. qp_queue p = queue) (pg_policies s)
      in case pg_pick_dataset now queue (pg_jobs s) of
           None \<Rightarrow> (Inr [], s)
         | Some dataset_id \<Rightarrow>
             (case (queue_policy,
                    pg_throttle_reason now queue queue_policy (pg_jobs s) (pg_attempts s)) of
                (Some p, Some reason_code) \<Rightarrow>
                  pg_throttle env dataset_id queue policy reason_code p s
              | _ \<Rightarrow> pg_lease_batch env dataset_id queue worker_id lease_seconds n policy s))"

definition pg_lease_jobs_batch_with_ordering ::
  "Env \<Rightarrow> string \<Rightarrow> string \<Rightarrow> int \<Rightarrow> int \<Rightarrow> QueueOrdering \<Rightarrow> (PostgresBackend, Job list) op" where
  "pg_lease_jobs_batch_with_ordering env queue worker_id lease_seconds batch_size policy =
     transaction (\<lambda>s.
       pg_lease_unexpired env queue worker_id lease_seconds (clamp 1 4096 batch_size) policy
         (s\<lparr>pg_jobs := pg_expire_deadlines (pg_now env) queue (pg_jobs s)\<rparr>))"

definition pg_lease_jobs_batch ::
  "Env \<Rightarrow> string \<Rightarrow> string \<Rightarrow> int \<Rightarrow> int \<Rightarrow> (PostgresBackend, Job list) op" where
  "pg_lease_jobs_batch env queue worker_id lease_seconds batch_size =
     pg_lease_jobs_batch_with_ordering env queue worker_id lease_seconds batch_size Fifo"

definition pg_lease_one_job ::
  "Env \<Rightarrow> string \<Rightarrow> string \<Rightarrow> int \<Rightarrow> (PostgresBackend, Job option) op" where
  "pg_lease_one_job env queue worker_id lease_seconds s =
     (case pg_lease_jobs_batch env queue worker_id lease_seconds 1 s of
        (Inl e, s') \<Rightarrow> (Inl e, s')
      | (Inr js, s') \<Rightarrow> (Inr (if js = [] then None else Some (last js)), s'))"

section \<open>Recovery\<close>

definition pg_lease_expired :: "datetime \<Rightarrow> PgJob \<Rightarrow> bool" where
  "pg_lease_expired now r \<longleftrightarrow>
     j_status r = ''running''
     \<and> (case j_lock_expires_at r of None \<Rightarrow> False | Some t \<Rightarrow> t < now)"

text \<open>
  \<^verbatim>\<open>(EXTRACT(EPOCH FROM (now() - started_at)) * 1000)::int\<close>: the milliseconds, rounded half away
  from zero, which must fit into 32 bits.
\<close>

definition pg_elapsed_ms :: "datetime \<Rightarrow> datetime \<Rightarrow> int" where
  "pg_elapsed_ms now started_at =
     (let d = now - started_at
      in if 0 \<le> d then (d + 500000) div 1000000 else - ((- d + 500000) div 1000000))"

definition reaped_attempt ::
  "string set \<Rightarrow> uuid set \<Rightarrow> MemoryAttempt \<Rightarrow> bool" where
  "reaped_attempt dataset_ids job_ids a \<longleftrightarrow>
     at_dataset_id a \<in> dataset_ids \<and> at_job_id a \<in> job_ids \<and> at_status a = ''running''"

definition pg_reap_attempt :: "datetime \<Rightarrow> MemoryAttempt \<Rightarrow> MemoryAttempt" where
  "pg_reap_attempt now a =
     a\<lparr>at_status := ''failed'', at_finished_at := Some now,
       at_latency_ms :=
         Some (case at_latency_ms a of
                 Some l \<Rightarrow> l
               | None \<Rightarrow> max 0 (pg_elapsed_ms now (at_started_at a))),
       at_error_code := Some ''LEASE_EXPIRED'',
       at_error_message := Some ''worker lease expired before ACK''\<rparr>"

definition unlocked :: "PgJob \<Rightarrow> PgJob" where
  "unlocked r = r\<lparr>j_locked_at := None, j_locked_by := None, j_lock_expires_at := None\<rparr>"

definition pg_reap_expired_locks :: "Env \<Rightarrow> (PostgresBackend, nat) op" where
  "pg_reap_expired_locks env =
     transaction (\<lambda>s.
       let now = pg_now env;
           expired = filter (pg_lease_expired now) (pg_jobs s)
       in if expired = [] then (Inr 0, s)
          else
            (let P = reaped_attempt (j_dataset_id ` set expired) (j_id ` set expired)
             in if list_ex
                     (\<lambda>a. P a \<and> at_latency_ms a = None
                          \<and> \<not> fits_int4 (pg_elapsed_ms now (at_started_at a))) (pg_attempts s)
                then (Inl out_of_range, s)
                else
                  (Inr (rows_affected (pg_lease_expired now) (pg_jobs s)),
                   s\<lparr>pg_attempts := sql_update P (pg_reap_attempt now) (pg_attempts s),
                     pg_jobs :=
                       update_jobs now (pg_lease_expired now)
                         (\<lambda>r. (unlocked r)\<lparr>j_status := ''queued''\<rparr>) (pg_jobs s)\<rparr>)))"

section \<open>State transitions\<close>

text \<open>An UPDATE of jobs that has to hit a given number of rows, outside a transaction.\<close>

definition pg_settle ::
  "Env \<Rightarrow> (PgJob \<Rightarrow> bool) \<Rightarrow> (PgJob \<Rightarrow> PgJob) \<Rightarrow> nat \<Rightarrow> anyhow \<Rightarrow> (PostgresBackend, nat) op" where
  "pg_settle env P f expected err s =
     (let changed = rows_affected P (pg_jobs s);
          s' = s\<lparr>pg_jobs := update_jobs (pg_now env) P f (pg_jobs s)\<rparr>
      in if changed \<noteq> expected then (Inl err, s') else (Inr changed, s'))"

definition discard :: "('s, 'r) op \<Rightarrow> ('s, unit) op" where
  "discard body s = (case body s of (Inl e, s') \<Rightarrow> (Inl e, s') | (Inr _, s') \<Rightarrow> (Inr (), s'))"

definition succeeded_row :: "PgJob \<Rightarrow> PgJob" where
  "succeeded_row r = (unlocked r)\<lparr>j_status := ''succeeded''\<rparr>"

definition repo_mark_succeeded_batch ::
  "Env \<Rightarrow> uuid list \<Rightarrow> string \<Rightarrow> (PostgresBackend, nat) op" where
  "repo_mark_succeeded_batch env job_ids worker_id s =
     (if job_ids = [] then (Inr 0, s)
      else
        pg_settle env
          (\<lambda>r. j_id r \<in> set job_ids \<and> j_locked_by r = Some worker_id \<and> j_status r = ''running'')
          succeeded_row (length job_ids)
          (message ''illegal job state transition to completed'') s)"

definition repo_mark_succeeded_batch_for_dataset ::
  "Env \<Rightarrow> string \<Rightarrow> uuid list \<Rightarrow> string \<Rightarrow> (PostgresBackend, nat) op" where
  "repo_mark_succeeded_batch_for_dataset env dataset_id job_ids worker_id s =
     (if job_ids = [] then (Inr 0, s)
      else
        pg_settle env
          (\<lambda>r. j_dataset_id r = dataset_id \<and> j_id r \<in> set job_ids
               \<and> j_locked_by r = Some worker_id \<and> j_status r = ''running'')
          succeeded_row (length job_ids)
          (message ''illegal job state transition to completed'') s)"

definition repo_mark_succeeded :: "Env \<Rightarrow> uuid \<Rightarrow> string \<Rightarrow> (PostgresBackend, unit) op" where
  "repo_mark_succeeded env job_id worker_id =
     discard (pg_settle env (held_row job_id worker_id) succeeded_row 1
       (illegal_transition ''completed'' job_id worker_id))"

text \<open>The one transition that does not ask who holds the lease.\<close>

definition repo_reschedule_for_retry ::
  "Env \<Rightarrow> uuid \<Rightarrow> datetime \<Rightarrow> string option \<Rightarrow> string option \<Rightarrow> (PostgresBackend, unit) op" where
  "repo_reschedule_for_retry env job_id next_run_at last_error_code last_error_message =
     discard (pg_settle env (\<lambda>r. j_id r = job_id \<and> j_status r = ''running'')
       (\<lambda>r. (unlocked r)\<lparr>j_status := ''queued'', j_run_at := pg_timestamp next_run_at,
              j_last_error_code := last_error_code, j_last_error_message := last_error_message\<rparr>)
       1 (message ''illegal job state transition to retry_wait''))"

definition repo_mark_failed ::
  "Env \<Rightarrow> uuid \<Rightarrow> string \<Rightarrow> string option \<Rightarrow> string option \<Rightarrow> (PostgresBackend, unit) op" where
  "repo_mark_failed env job_id worker_id last_error_code last_error_message =
     discard (pg_settle env (held_row job_id worker_id)
       (\<lambda>r. (unlocked r)\<lparr>j_status := ''failed'', j_last_error_code := last_error_code,
              j_last_error_message := last_error_message\<rparr>)
       1 (illegal_transition ''failed'' job_id worker_id))"

definition repo_mark_dlq ::
  "Env \<Rightarrow> uuid \<Rightarrow> string \<Rightarrow> string \<Rightarrow> string option \<Rightarrow> string option \<Rightarrow> (PostgresBackend, unit) op" where
  "repo_mark_dlq env job_id worker_id reason_code last_error_code last_error_message =
     discard (pg_settle env (held_row job_id worker_id)
       (\<lambda>r. (unlocked r)\<lparr>j_status := ''dlq'', j_dlq_reason_code := Some reason_code,
              j_dlq_at := Some (pg_now env), j_last_error_code := last_error_code,
              j_last_error_message := last_error_message\<rparr>)
       1 (illegal_transition ''dlq'' job_id worker_id))"

definition pg_cancel_attempt :: "datetime \<Rightarrow> MemoryAttempt \<Rightarrow> MemoryAttempt" where
  "pg_cancel_attempt now a =
     a\<lparr>at_status := ''failed'', at_finished_at := Some now,
       at_latency_ms := Some (case at_latency_ms a of None \<Rightarrow> 0 | Some l \<Rightarrow> l),
       at_error_code := Some ''CANCELLED'', at_error_message := Some ''job cancelled''\<rparr>"

text \<open>ORDER BY attempt_no DESC LIMIT 1\<close>

definition pg_latest_running :: "uuid \<Rightarrow> MemoryAttempt list \<Rightarrow> MemoryAttempt list" where
  "pg_latest_running job_id t =
     take 1 (sort_key (\<lambda>a. - at_attempt_no a)
       (filter (\<lambda>a. at_job_id a = job_id \<and> at_status a = ''running'') t))"

definition pg_cancel_job :: "Env \<Rightarrow> uuid \<Rightarrow> string option \<Rightarrow> (PostgresBackend, unit) op" where
  "pg_cancel_job env job_id worker_id =
     transaction (\<lambda>s.
       case row_at j_id (pg_jobs s) job_id of
         None \<Rightarrow> (Inl (job_not_found job_id), s)
       | Some current \<Rightarrow>
           (case cancel_guard job_id worker_id (job_of current) of
              Some e \<Rightarrow> (Inl e, s)
            | None \<Rightarrow>
                (let now = pg_now env;
                     s1 = (if j_status current = ''running'' then
                             s\<lparr>pg_attempts :=
                                 sql_update
                                   (\<lambda>a. at_id a \<in> at_id ` set (pg_latest_running job_id (pg_attempts s)))
                                   (pg_cancel_attempt now) (pg_attempts s)\<rparr>
                           else s)
                 in (Inr (),
                     s1\<lparr>pg_jobs :=
                          update_jobs now (\<lambda>r. j_id r = job_id)
                            (\<lambda>r. (unlocked r)\<lparr>j_status := ''canceled''\<rparr>) (pg_jobs s1)\<rparr>))))"

section \<open>Replay\<close>

definition replayed_row ::
  "(datetime \<Rightarrow> string) \<Rightarrow> Env \<Rightarrow> PgJob \<Rightarrow> string \<Rightarrow> datetime \<Rightarrow> PgJob" where
  "replayed_row stamp env src new_queue new_run_at =
     (default_row env (dataset_id_for stamp new_queue new_run_at))
       \<lparr>j_queue := new_queue, j_job_type := j_job_type src, j_payload := j_payload src,
        j_run_at := pg_timestamp new_run_at, j_deadline_at := j_deadline_at src,
        j_timeout_seconds := j_timeout_seconds src,
        j_recurring_interval_seconds := j_recurring_interval_seconds src,
        j_status := ''queued'', j_priority := j_priority src,
        j_max_attempts := j_max_attempts src, j_replay_of_job_id := Some (j_id src)\<rparr>"

definition pg_replay_job ::
  "(datetime \<Rightarrow> string) \<Rightarrow> Env \<Rightarrow> uuid \<Rightarrow> string option \<Rightarrow> datetime option
     \<Rightarrow> (PostgresBackend, uuid) op" where
  "pg_replay_job stamp env job_id override_queue override_run_at s =
     (case row_at j_id (pg_jobs s) job_id of
        None \<Rightarrow> (Inl (job_not_found job_id), s)
      | Some src \<Rightarrow>
          (let new_queue = (case override_queue of Some q \<Rightarrow> q | None \<Rightarrow> j_queue src);
               new_run_at = (case override_run_at of Some t \<Rightarrow> t | None \<Rightarrow> e_now env);
               row = replayed_row stamp env src new_queue new_run_at
           in if \<not> (opt_int4 (j_timeout_seconds src) \<and> opt_int4 (j_recurring_interval_seconds src))
              then (Inl out_of_range, s)
              else
                (case pg_insert_job row (pg_jobs s) of
                   Inl e \<Rightarrow> (Inl e, s)
                 | Inr t \<Rightarrow>
                     (Inr (j_id row), pg_notify (notify_channel_name new_queue) (s\<lparr>pg_jobs := t\<rparr>)))))"

end
