(* ===== verification/Postgres_Attempts.thy ===== *)
theory Postgres_Attempts
  imports Postgres_Jobs Client_Runtime
begin

text \<open>
  The repository of attempts, \<^verbatim>\<open>azums/src/jobs/attempts.rs\<close>, and the runner that reports the
  outcomes of a worker, \<^verbatim>\<open>azums/src/jobs/runner.rs\<close>. None of its methods opens a transaction:
  each statement commits on its own, so a method that fails in the middle keeps what it did.
\<close>

section \<open>Attempts\<close>

datatype AttemptStatus = Running | Succeeded | Failed

fun AttemptStatus_as_str :: "AttemptStatus \<Rightarrow> string" where
  "AttemptStatus_as_str AttemptStatus.Running = ''running''"
| "AttemptStatus_as_str AttemptStatus.Succeeded = ''succeeded''"
| "AttemptStatus_as_str AttemptStatus.Failed = ''failed''"

definition claimed_row :: "string \<Rightarrow> uuid \<Rightarrow> string \<Rightarrow> PgJob \<Rightarrow> bool" where
  "claimed_row dataset_id job_id worker_id r \<longleftrightarrow>
     j_dataset_id r = dataset_id \<and> j_id r = job_id \<and> j_status r = ''running''
     \<and> j_locked_by r = Some worker_id"

text \<open>\<^verbatim>\<open>COALESCE((SELECT MAX(attempt_no) ...), 0) + 1\<close>\<close>

definition pg_next_attempt_no :: "string \<Rightarrow> uuid \<Rightarrow> MemoryAttempt list \<Rightarrow> int" where
  "pg_next_attempt_no dataset_id job_id t =
     (let numbers =
            map at_attempt_no (filter (\<lambda>a. at_dataset_id a = dataset_id \<and> at_job_id a = job_id) t)
      in (if numbers = [] then 0 else Max (set numbers)) + 1)"

definition attempt_row ::
  "datetime \<Rightarrow> uuid \<Rightarrow> string \<Rightarrow> uuid \<Rightarrow> int \<Rightarrow> string \<Rightarrow> MemoryAttempt" where
  "attempt_row now attempt_id dataset_id job_id n worker_id =
     \<lparr>at_id = attempt_id, at_dataset_id = dataset_id, at_job_id = job_id, at_attempt_no = n,
      at_status = AttemptStatus_as_str AttemptStatus.Running, at_worker_id = worker_id,
      at_started_at = now, at_finished_at = None, at_latency_ms = None, at_error_code = None,
      at_error_message = None\<rparr>"

definition pg_start_attempt_for_dataset ::
  "Env \<Rightarrow> string \<Rightarrow> uuid \<Rightarrow> string \<Rightarrow> (PostgresBackend, MemoryAttempt) op" where
  "pg_start_attempt_for_dataset env dataset_id job_id worker_id s =
     (let claim_count = rows_affected (claimed_row dataset_id job_id worker_id) (pg_jobs s)
      in if claim_count \<noteq> 1 then (Inl (cannot_start_attempt job_id worker_id), s)
         else
           (let attempt =
                  attempt_row (pg_now env) (e_fresh env 0) dataset_id job_id
                    (pg_next_attempt_no dataset_id job_id (pg_attempts s)) worker_id
            in case pg_insert_attempts [attempt] s of
                 Inl e \<Rightarrow> (Inl e, s)
               | Inr s' \<Rightarrow> (Inr attempt, s')))"

definition pg_start_attempt :: "Env \<Rightarrow> uuid \<Rightarrow> string \<Rightarrow> (PostgresBackend, MemoryAttempt) op" where
  "pg_start_attempt env job_id worker_id s =
     (case row_at j_id (pg_jobs s) job_id of
        None \<Rightarrow> (Inl (sql_error ''no rows returned by a query that expected one''), s)
      | Some r \<Rightarrow> pg_start_attempt_for_dataset env (j_dataset_id r) job_id worker_id s)"

text \<open>The rows the INSERT of a batch makes: the input joined with the jobs the worker holds.\<close>

definition started_rows ::
  "Env \<Rightarrow> string \<Rightarrow> (string \<times> uuid) list \<Rightarrow> PostgresBackend \<Rightarrow> MemoryAttempt list" where
  "started_rows env worker_id input s =
     (let joined = filter (\<lambda>(d, i). list_ex (claimed_row d i worker_id) (pg_jobs s)) input
      in map2 (\<lambda>k (d, i). attempt_row (pg_now env) (e_fresh env k) d i
                 (pg_next_attempt_no d i (pg_attempts s)) worker_id)
           [0..<length joined] joined)"

definition pg_start_attempts_batch ::
  "Env \<Rightarrow> string list \<Rightarrow> uuid list \<Rightarrow> string
     \<Rightarrow> (PostgresBackend, (uuid \<times> uuid \<times> int) list) op" where
  "pg_start_attempts_batch env dataset_ids job_ids worker_id s =
     (if dataset_ids = [] \<or> job_ids = [] then (Inr [], s)
      else if length dataset_ids \<noteq> length job_ids then (Inl length_mismatch, s)
      else
        (let rows = started_rows env worker_id (zip dataset_ids job_ids) s
         in case pg_insert_attempts rows s of
              Inl e \<Rightarrow> (Inl e, s)
            | Inr s' \<Rightarrow>
                if length rows \<noteq> length job_ids then (Inl (cannot_start_attempts worker_id), s')
                else (Inr (map (\<lambda>a. (at_job_id a, at_id a, at_attempt_no a)) rows), s')))"

text \<open>The three methods that close an attempt look at its identifier only.\<close>

definition pg_finish_succeeded :: "Env \<Rightarrow> uuid \<Rightarrow> int \<Rightarrow> (PostgresBackend, unit) op" where
  "pg_finish_succeeded env attempt_id latency_ms s =
     (Inr (), s\<lparr>pg_attempts :=
        sql_update (\<lambda>a. at_id a = attempt_id)
          (\<lambda>a. a\<lparr>at_status := AttemptStatus_as_str AttemptStatus.Succeeded,
                at_finished_at := Some (pg_now env), at_latency_ms := Some latency_ms\<rparr>)
          (pg_attempts s)\<rparr>)"

definition pg_finish_succeeded_batch ::
  "Env \<Rightarrow> (uuid \<times> int) list \<Rightarrow> (PostgresBackend, unit) op" where
  "pg_finish_succeeded_batch env updates s =
     (if updates = [] then (Inr (), s)
      else
        (Inr (), s\<lparr>pg_attempts :=
           sql_update (\<lambda>a. map_of updates (at_id a) \<noteq> None)
             (\<lambda>a. a\<lparr>at_status := AttemptStatus_as_str AttemptStatus.Succeeded,
                   at_finished_at := Some (pg_now env), at_latency_ms := map_of updates (at_id a)\<rparr>)
             (pg_attempts s)\<rparr>))"

definition pg_finish_failed ::
  "Env \<Rightarrow> uuid \<Rightarrow> int \<Rightarrow> string \<Rightarrow> string \<Rightarrow> (PostgresBackend, unit) op" where
  "pg_finish_failed env attempt_id latency_ms error_code error_message s =
     (Inr (), s\<lparr>pg_attempts :=
        sql_update (\<lambda>a. at_id a = attempt_id)
          (\<lambda>a. a\<lparr>at_status := AttemptStatus_as_str AttemptStatus.Failed,
                at_finished_at := Some (pg_now env), at_latency_ms := Some latency_ms,
                at_error_code := Some error_code, at_error_message := Some error_message\<rparr>)
          (pg_attempts s)\<rparr>)"

definition pg_list_attempts_for_job :: "uuid \<Rightarrow> (PostgresBackend, MemoryAttempt list) op" where
  "pg_list_attempts_for_job job_id s =
     (Inr (sort_key at_attempt_no (filter (\<lambda>a. at_job_id a = job_id) (pg_attempts s))), s)"

section \<open>The runner\<close>

text \<open>
  A runner carries its retry configuration. The environments of its statements are given one
  by one, because time passes between them.
\<close>

definition on_success ::
  "(nat \<Rightarrow> Env) \<Rightarrow> uuid \<Rightarrow> uuid \<Rightarrow> string \<Rightarrow> int \<Rightarrow> (PostgresBackend, unit) op" where
  "on_success envs job_id attempt_id worker_id latency_ms s =
     (case pg_finish_succeeded (envs 0) attempt_id latency_ms s of
        (Inl e, s1) \<Rightarrow> (Inl e, s1)
      | (Inr _, s1) \<Rightarrow> repo_mark_succeeded (envs 1) job_id worker_id s1)"

definition on_success_batch ::
  "(nat \<Rightarrow> Env) \<Rightarrow> string \<Rightarrow> (uuid \<times> uuid \<times> int) list \<Rightarrow> string \<Rightarrow> (PostgresBackend, unit) op" where
  "on_success_batch envs dataset_id updates worker_id s =
     (if updates = [] then (Inr (), s)
      else
        (let attempt_updates = map (\<lambda>(_, attempt_id, latency_ms). (attempt_id, latency_ms)) updates;
             job_ids = map fst updates
         in case pg_finish_succeeded_batch (envs 0) attempt_updates s of
              (Inl e, s1) \<Rightarrow> (Inl e, s1)
            | (Inr _, s1) \<Rightarrow>
                discard (repo_mark_succeeded_batch_for_dataset (envs 1) dataset_id job_ids worker_id) s1))"

definition on_failure ::
  "RetryConfig \<Rightarrow> (nat \<Rightarrow> Env) \<Rightarrow> (rat \<Rightarrow> rat \<Rightarrow> rat) \<Rightarrow> uuid \<Rightarrow> uuid \<Rightarrow> string \<Rightarrow> int
     \<Rightarrow> string \<Rightarrow> string \<Rightarrow> int \<Rightarrow> int \<Rightarrow> (PostgresBackend, unit) run" where
  "on_failure cfg envs rng job_id attempt_id worker_id latency_ms error_code error_message
     attempt_no max_attempts s =
     (case pg_finish_failed (envs 0) attempt_id latency_ms error_code error_message s of
        (Inl e, s1) \<Rightarrow> (Inl (client_error.Failed e), s1)
      | (Inr _, s1) \<Rightarrow>
          (let cls = classify_error error_code;
               can_retry = is_retryable cls \<and> attempt_no < max_attempts
           in if can_retry then
                (case next_delay_seconds attempt_no cfg rng of
                   Panics msg \<Rightarrow> (Inl (Panicked msg), s1)
                 | Returns delay_secs \<Rightarrow>
                     lift (repo_reschedule_for_retry (envs 1) job_id
                             (e_now (envs 1) + seconds delay_secs)
                             (Some error_code) (Some error_message)) s1)
              else
                lift (repo_mark_dlq (envs 1) job_id worker_id (dlq_reason_code cls)
                        (Some error_code) (Some error_message)) s1))"

end
