(* ===== verification/Postgres_Policies.thy ===== *)
theory Postgres_Policies
  imports Postgres_Jobs
begin

text \<open>
  Policies of queues and the record of what they decided (\<^verbatim>\<open>azums/src/jobs/policies.rs\<close>,
  \<^verbatim>\<open>policy_decisions.rs\<close>), and the guard in front of enqueueing with its own record
  (\<^verbatim>\<open>enqueue_guard.rs\<close>, \<^verbatim>\<open>ingest_decisions.rs\<close>).
\<close>

section \<open>Queue policies\<close>

definition get_policy :: "string \<Rightarrow> (PostgresBackend, QueuePolicy option) op" where
  "get_policy queue s = (Inr (find (\<lambda>p. qp_queue p = queue) (pg_policies s)), s)"

definition upsert_policy ::
  "string \<Rightarrow> int \<Rightarrow> int \<Rightarrow> int \<Rightarrow> (PostgresBackend, unit) op" where
  "upsert_policy queue max_attempts_per_minute max_in_flight throttle_delay_ms s =
     (if list_ex (\<lambda>p. qp_queue p = queue) (pg_policies s)
      then (Inr (), s\<lparr>pg_policies :=
              sql_update (\<lambda>p. qp_queue p = queue)
                (\<lambda>p. p\<lparr>qp_max_attempts_per_minute := max_attempts_per_minute,
                      qp_max_in_flight := max_in_flight,
                      qp_throttle_delay_ms := throttle_delay_ms\<rparr>) (pg_policies s)\<rparr>)
      else (Inr (), s\<lparr>pg_policies := pg_policies s
              @ [\<lparr>qp_queue = queue, qp_max_attempts_per_minute = max_attempts_per_minute,
                  qp_max_in_flight = max_in_flight, qp_throttle_delay_ms = throttle_delay_ms\<rparr>]\<rparr>))"

section \<open>Decisions about jobs\<close>

definition insert_decision ::
  "Env \<Rightarrow> uuid \<Rightarrow> string \<Rightarrow> string \<Rightarrow> json \<Rightarrow> (PostgresBackend, uuid) op" where
  "insert_decision env job_id decision reason_code details_json s =
     (case row_at j_id (pg_jobs s) job_id of
        None \<Rightarrow> (Inl (sql_error ''null value in column dataset_id''), s)
      | Some r \<Rightarrow>
          (case pg_insert_decision
                  \<lparr>pd_id = e_fresh env 0, pd_dataset_id = j_dataset_id r, pd_job_id = job_id,
                   pd_decision = decision, pd_reason_code = reason_code,
                   pd_details_json = details_json, pd_created_at = pg_now env\<rparr> s of
             Inl e \<Rightarrow> (Inl e, s)
           | Inr s' \<Rightarrow> (Inr (e_fresh env 0), s')))"

definition list_for_job :: "uuid \<Rightarrow> (PostgresBackend, PolicyDecisionRow list) op" where
  "list_for_job job_id s =
     (Inr (sort_key pd_created_at (filter (\<lambda>d. pd_job_id d = job_id) (pg_decisions s))), s)"

section \<open>Refused requests\<close>

definition ingest_record ::
  "Env \<Rightarrow> string \<Rightarrow> string \<Rightarrow> string \<Rightarrow> json \<Rightarrow> (PostgresBackend, uuid) op" where
  "ingest_record env queue decision reason_code details s =
     (if e_fresh env 0 \<in> in_id ` set (pg_ingest s)
      then (Inl (sql_error ''duplicate key: ingest_decisions_pkey''), s)
      else (Inr (e_fresh env 0), s\<lparr>pg_ingest := pg_ingest s
              @ [\<lparr>in_id = e_fresh env 0, in_queue = queue, in_decision = decision,
                  in_reason_code = reason_code, in_details_json = details,
                  in_created_at = pg_now env\<rparr>]\<rparr>))"

definition list_recent ::
  "string option \<Rightarrow> int \<Rightarrow> (PostgresBackend, IngestDecisionRow list) op" where
  "list_recent queue limit s =
     (if limit < 0 then (Inl (sql_error ''LIMIT must not be negative''), s)
      else
        (let rows = (case queue of
                       Some q \<Rightarrow> filter (\<lambda>d. in_queue d = q) (pg_ingest s)
                     | None \<Rightarrow> pg_ingest s)
         in (Inr (take (nat limit) (sort_key (\<lambda>d. - in_created_at d) rows)), s)))"

section \<open>The guard\<close>

record EnqueueGuardConfig =
  gc_max_payload_bytes :: nat
  gc_max_enqueues_per_minute_per_queue :: int

definition EnqueueGuardConfig_default :: EnqueueGuardConfig where
  "EnqueueGuardConfig_default =
     \<lparr>gc_max_payload_bytes = 256 * 1024, gc_max_enqueues_per_minute_per_queue = 10000\<rparr>"

definition check_payload ::
  "EnqueueGuardConfig \<Rightarrow> Env \<Rightarrow> string \<Rightarrow> nat \<Rightarrow> (PostgresBackend, unit) op" where
  "check_payload cfg env queue payload_bytes s =
     (if payload_bytes > gc_max_payload_bytes cfg then
        (case ingest_record env queue ''DENIED'' ''PAYLOAD_TOO_LARGE''
                (JObject [(''max_payload_bytes'', JNumber (int (gc_max_payload_bytes cfg))),
                          (''payload_bytes'', JNumber (int payload_bytes))]) s of
           (Inl e, s') \<Rightarrow> (Inl e, s')
         | (Inr _, s') \<Rightarrow> (Inl (message ''PAYLOAD_TOO_LARGE''), s'))
      else (Inr (), s))"

text \<open>The start of the minute: the seconds of the clock are taken off, and its fraction.\<close>

definition window_start :: "datetime \<Rightarrow> datetime" where
  "window_start now =
     (let timestamp = now div 1000000000; second = timestamp mod 60
      in seconds (timestamp - second))"

text \<open>INSERT ... ON CONFLICT (queue, window_start) DO UPDATE SET count = count + 1 RETURNING count\<close>

definition rate_count :: "string \<Rightarrow> datetime \<Rightarrow> RateCounterRow list \<Rightarrow> int" where
  "rate_count queue window t =
     (case find (\<lambda>r. rc_queue r = queue \<and> rc_window_start r = window) t of
        None \<Rightarrow> 0 | Some r \<Rightarrow> rc_count r)"

definition bump_counter :: "string \<Rightarrow> datetime \<Rightarrow> RateCounterRow list \<Rightarrow> RateCounterRow list" where
  "bump_counter queue window t =
     (if list_ex (\<lambda>r. rc_queue r = queue \<and> rc_window_start r = window) t
      then sql_update (\<lambda>r. rc_queue r = queue \<and> rc_window_start r = window)
             (\<lambda>r. r\<lparr>rc_count := rc_count r + 1\<rparr>) t
      else t @ [\<lparr>rc_queue = queue, rc_window_start = window, rc_count = 1\<rparr>])"

text \<open>
  The counter is raised in a transaction; the refusal is recorded on another connection before
  the transaction commits, and an error there rolls the counter back.
\<close>

definition check_rate :: "EnqueueGuardConfig \<Rightarrow> Env \<Rightarrow> string \<Rightarrow> (PostgresBackend, unit) op" where
  "check_rate cfg env queue s =
     (let window = window_start (e_now env);
          counters = bump_counter queue window (pg_counters s);
          count = rate_count queue window counters
      in if count > gc_max_enqueues_per_minute_per_queue cfg then
           (case ingest_record env queue ''DENIED'' ''ENQUEUE_RATE_EXCEEDED''
                   (JObject [(''max_per_minute'',
                              JNumber (gc_max_enqueues_per_minute_per_queue cfg)),
                             (''count_this_minute'', JNumber count)]) s of
              (Inl e, s') \<Rightarrow> (Inl e, s')
            | (Inr _, s') \<Rightarrow>
                (Inl (message ''ENQUEUE_RATE_EXCEEDED''), s'\<lparr>pg_counters := counters\<rparr>))
         else (Inr (), s\<lparr>pg_counters := counters\<rparr>))"

end
