(* ===== verification/Postgres_Backend.thy ===== *)
theory Postgres_Backend
  imports Postgres_Attempts Postgres_Policies
begin

text \<open>
  The PostgreSQL storage as a trait object: the methods that
  \<^verbatim>\<open>azums/src/backend/postgres.rs\<close> implements itself, maintenance
  (\<^verbatim>\<open>azums/src/jobs/maintenance.rs\<close>) and streams (\<^verbatim>\<open>azums/src/jobs/stream_repo.rs\<close>).
\<close>

section \<open>Outcomes\<close>

text \<open>UPDATE job_attempts ... WHERE id = $1 AND job_id = $5 AND status = 'running'\<close>

definition running_attempt :: "uuid \<Rightarrow> uuid \<Rightarrow> MemoryAttempt \<Rightarrow> bool" where
  "running_attempt attempt_id job_id a \<longleftrightarrow>
     at_id a = attempt_id \<and> at_job_id a = job_id \<and> at_status a = ''running''"

definition pg_close_attempt ::
  "(MemoryAttempt \<Rightarrow> bool) \<Rightarrow> (MemoryAttempt \<Rightarrow> MemoryAttempt) \<Rightarrow> anyhow \<Rightarrow> (PostgresBackend, unit) op" where
  "pg_close_attempt P f err s =
     (if rows_affected P (pg_attempts s) \<noteq> 1 then (Inl err, s)
      else (Inr (), s\<lparr>pg_attempts := sql_update P f (pg_attempts s)\<rparr>))"

definition pg_succeed_attempt :: "datetime \<Rightarrow> int \<Rightarrow> MemoryAttempt \<Rightarrow> MemoryAttempt" where
  "pg_succeed_attempt now latency_ms a =
     a\<lparr>at_status := ''succeeded'', at_finished_at := Some now, at_latency_ms := Some latency_ms\<rparr>"

definition pg_fail_attempt ::
  "datetime \<Rightarrow> int \<Rightarrow> string \<Rightarrow> string \<Rightarrow> MemoryAttempt \<Rightarrow> MemoryAttempt" where
  "pg_fail_attempt now latency_ms error_code error_message a =
     a\<lparr>at_status := ''failed'', at_finished_at := Some now, at_latency_ms := Some latency_ms,
       at_error_code := Some error_code, at_error_message := Some error_message\<rparr>"

text \<open>The next occurrence of a recurring job.\<close>

definition next_row :: "(datetime \<Rightarrow> string) \<Rightarrow> Env \<Rightarrow> PgJob \<Rightarrow> int \<Rightarrow> PgJob" where
  "next_row stamp env job interval_seconds =
     (let next_run_at = j_run_at job + seconds (max interval_seconds 1);
          next_deadline_at =
            map_option (\<lambda>deadline. deadline + seconds (max interval_seconds 1)) (j_deadline_at job)
      in (default_row env (dataset_id_for stamp (j_queue job) next_run_at))
           \<lparr>j_replay_of_job_id := Some (j_id job), j_idempotency_key := None,
            j_queue := j_queue job, j_job_type := j_job_type job, j_payload := j_payload job,
            j_run_at := pg_timestamp next_run_at,
            j_deadline_at := map_option pg_timestamp next_deadline_at,
            j_timeout_seconds := j_timeout_seconds job,
            j_recurring_interval_seconds := j_recurring_interval_seconds job,
            j_status := ''queued'', j_priority := j_priority job,
            j_max_attempts := j_max_attempts job\<rparr>)"

definition pg_insert_next ::
  "(datetime \<Rightarrow> string) \<Rightarrow> Env \<Rightarrow> PgJob \<Rightarrow> PgJob list \<Rightarrow> anyhow + PgJob list" where
  "pg_insert_next stamp env job t =
     (case j_recurring_interval_seconds job of
        None \<Rightarrow> Inr t
      | Some interval_seconds \<Rightarrow>
          if \<not> (opt_int4 (j_timeout_seconds job) \<and> fits_int4 interval_seconds) then Inl out_of_range
          else pg_insert_job (next_row stamp env job interval_seconds) t)"

definition pg_mark_succeeded ::
  "(datetime \<Rightarrow> string) \<Rightarrow> Env \<Rightarrow> uuid \<Rightarrow> uuid \<Rightarrow> string \<Rightarrow> int \<Rightarrow> (PostgresBackend, unit) op" where
  "pg_mark_succeeded stamp env job_id attempt_id worker_id latency_ms =
     transaction (\<lambda>s.
       case pg_close_attempt (running_attempt attempt_id job_id)
              (pg_succeed_attempt (pg_now env) latency_ms)
              (cannot_complete_attempt attempt_id job_id) s of
         (Inl e, s1) \<Rightarrow> (Inl e, s1)
       | (Inr _, s1) \<Rightarrow>
           (case filter (held_row job_id worker_id) (pg_jobs s1) of
              [] \<Rightarrow> (Inl (illegal_transition ''completed'' job_id worker_id), s1)
            | claimed # _ \<Rightarrow>
                (let completed_job = (succeeded_row claimed)\<lparr>j_updated_at := pg_now env\<rparr>;
                     t = update_jobs (pg_now env) (held_row job_id worker_id) succeeded_row (pg_jobs s1)
                 in case pg_insert_next stamp env completed_job t of
                      Inl e \<Rightarrow> (Inl e, s1)
                    | Inr t' \<Rightarrow> (Inr (), s1\<lparr>pg_jobs := t'\<rparr>))))"

text \<open>One entry of a batch; no next occurrence is scheduled here.\<close>

definition pg_succeed_one ::
  "Env \<Rightarrow> string \<Rightarrow> string \<Rightarrow> uuid \<times> uuid \<times> int \<Rightarrow> (PostgresBackend, unit) op" where
  "pg_succeed_one env dataset_id worker_id u s =
     (case u of (job_id, attempt_id, latency_ms) \<Rightarrow>
        (case pg_close_attempt
                (\<lambda>a. at_dataset_id a = dataset_id \<and> running_attempt attempt_id job_id a)
                (pg_succeed_attempt (pg_now env) latency_ms)
                (cannot_complete_attempt attempt_id job_id) s of
           (Inl e, s1) \<Rightarrow> (Inl e, s1)
         | (Inr _, s1) \<Rightarrow>
             discard (pg_settle env (claimed_row dataset_id job_id worker_id) succeeded_row 1
               (illegal_transition ''completed'' job_id worker_id)) s1))"

text \<open>All statements of a transaction see the same \<^verbatim>\<open>now()\<close>.\<close>

definition pg_mark_succeeded_batch ::
  "Env \<Rightarrow> string \<Rightarrow> (uuid \<times> uuid \<times> int) list \<Rightarrow> string \<Rightarrow> (PostgresBackend, unit) op" where
  "pg_mark_succeeded_batch env dataset_id updates worker_id s =
     (if updates = [] then (Inr (), s)
      else
        transaction
          (for_each (\<lambda>env. pg_succeed_one env dataset_id worker_id) (\<lambda>_. env) updates) s)"

definition pg_reschedule_for_retry ::
  "Env \<Rightarrow> uuid \<Rightarrow> uuid \<Rightarrow> string \<Rightarrow> int \<Rightarrow> datetime \<Rightarrow> string \<Rightarrow> string \<Rightarrow> int
     \<Rightarrow> (PostgresBackend, unit) op" where
  "pg_reschedule_for_retry env job_id attempt_id worker_id latency_ms next_run_at
     error_code error_message attempt_no =
     transaction (\<lambda>s.
       case pg_close_attempt (running_attempt attempt_id job_id)
              (pg_fail_attempt (pg_now env) latency_ms error_code error_message)
              (cannot_fail_attempt attempt_id job_id) s of
         (Inl e, s1) \<Rightarrow> (Inl e, s1)
       | (Inr _, s1) \<Rightarrow>
           discard (pg_settle env (held_row job_id worker_id)
             (\<lambda>r. (unlocked r)\<lparr>j_status := ''queued'', j_run_at := pg_timestamp next_run_at,
                    j_last_error_code := Some error_code,
                    j_last_error_message := Some error_message\<rparr>)
             1 (illegal_transition ''retry_wait'' job_id worker_id)) s1)"

definition pg_mark_dlq ::
  "Env \<Rightarrow> uuid \<Rightarrow> uuid \<Rightarrow> string \<Rightarrow> int \<Rightarrow> string \<Rightarrow> string \<Rightarrow> string \<Rightarrow> int
     \<Rightarrow> (PostgresBackend, unit) op" where
  "pg_mark_dlq env job_id attempt_id worker_id latency_ms reason_code
     error_code error_message attempt_no =
     transaction (\<lambda>s.
       case pg_close_attempt (running_attempt attempt_id job_id)
              (pg_fail_attempt (pg_now env) latency_ms error_code error_message)
              (cannot_fail_attempt attempt_id job_id) s of
         (Inl e, s1) \<Rightarrow> (Inl e, s1)
       | (Inr _, s1) \<Rightarrow>
           discard (pg_settle env (held_row job_id worker_id)
             (\<lambda>r. (unlocked r)\<lparr>j_status := ''dlq'', j_dlq_reason_code := Some reason_code,
                    j_dlq_at := Some (pg_now env), j_last_error_code := Some error_code,
                    j_last_error_message := Some error_message\<rparr>)
             1 (illegal_transition ''dlq'' job_id worker_id)) s1)"

section \<open>Maintenance\<close>

definition archived_row :: "PgJob \<Rightarrow> ArchivedRow" where
  "archived_row r =
     \<lparr>ar_id = j_id r, ar_replay_of_job_id = j_replay_of_job_id r, ar_queue = j_queue r,
      ar_job_type = j_job_type r, ar_payload = j_payload r, ar_run_at = j_run_at r,
      ar_status = j_status r, ar_priority = j_priority r, ar_max_attempts = j_max_attempts r,
      ar_dlq_reason_code = j_dlq_reason_code r, ar_dlq_at = j_dlq_at r,
      ar_created_at = j_created_at r, ar_updated_at = j_updated_at r\<rparr>"

definition old_success :: "datetime \<Rightarrow> PgJob \<Rightarrow> bool" where
  "old_success cutoff r \<longleftrightarrow> j_status r = ''succeeded'' \<and> j_updated_at r < pg_timestamp cutoff"

definition oldest_successes :: "datetime \<Rightarrow> int \<Rightarrow> PgJob list \<Rightarrow> PgJob list" where
  "oldest_successes cutoff batch t =
     take (nat batch) (sort_key j_updated_at (filter (old_success cutoff) t))"

definition negative_limit :: anyhow where
  "negative_limit = sql_error ''LIMIT must not be negative''"

definition pg_archive_succeeded_older_than :: "datetime \<Rightarrow> int \<Rightarrow> (PostgresBackend, nat) op" where
  "pg_archive_succeeded_older_than cutoff batch =
     transaction (\<lambda>s.
       if batch < 0 then (Inl negative_limit, s)
       else
         (let rows =
                map archived_row
                  (filter (\<lambda>c. j_id c \<notin> ar_id ` set (pg_archive s))
                    (oldest_successes cutoff batch (pg_jobs s)));
              archive' = pg_archive s @ rows;
              P = (\<lambda>r. j_id r \<in> ar_id ` set archive' \<and> old_success cutoff r)
          in (Inr (rows_affected P (pg_jobs s)),
              pg_delete_jobs P (s\<lparr>pg_archive := archive'\<rparr>))))"

definition pg_delete_history_for_succeeded_older_than ::
  "datetime \<Rightarrow> int \<Rightarrow> (PostgresBackend, nat \<times> nat) op" where
  "pg_delete_history_for_succeeded_older_than cutoff batch =
     transaction (\<lambda>s.
       if batch < 0 then (Inl negative_limit, s)
       else
         (let job_ids = j_id ` set (oldest_successes cutoff batch (pg_jobs s));
              A = (\<lambda>a. at_job_id a \<in> job_ids);
              D = (\<lambda>d. pd_job_id d \<in> job_ids)
          in (Inr (rows_affected A (pg_attempts s), rows_affected D (pg_decisions s)),
              s\<lparr>pg_attempts := sql_delete A (pg_attempts s),
                pg_decisions := sql_delete D (pg_decisions s)\<rparr>)))"

text \<open>\<^verbatim>\<open>VACUUM ANALYZE\<close> changes no row, and its errors are ignored.\<close>

definition pg_vacuum_analyze :: "Env \<Rightarrow> (PostgresBackend, unit) op" where
  "pg_vacuum_analyze env s = (Inr (), s)"

definition cutoff_days :: "Env \<Rightarrow> int \<Rightarrow> datetime" where
  "cutoff_days env days = e_now env - seconds (days * 86400)"

section \<open>Streams\<close>

definition stream_channel_name :: "string \<Rightarrow> string" where
  "stream_channel_name stream =
     ''azums_stream_''
       @ map (\<lambda>ch. if is_ascii_alphanumeric ch then to_ascii_lowercase ch else CHR ''_'') stream"

text \<open>\<^verbatim>\<open>BIGSERIAL\<close>: one sequence for all streams.\<close>

definition pg_publish :: "Env \<Rightarrow> string \<Rightarrow> NewEvent \<Rightarrow> (PostgresBackend, int) op" where
  "pg_publish env stream event s =
     (let n = pg_sequence s + 1;
          row = \<lparr>ev_sequence_no = n, ev_stream_name = stream,
                 ev_event_type = ne_event_type event, ev_payload_json = ne_payload_json event,
                 ev_created_at = pg_now env\<rparr>
      in (Inr n, pg_notify (stream_channel_name stream)
                   (s\<lparr>pg_events := pg_events s @ [row], pg_sequence := n\<rparr>)))"

definition pg_subscribe_stream ::
  "string \<Rightarrow> string \<Rightarrow> int option \<Rightarrow> (PostgresBackend, unit) op" where
  "pg_subscribe_stream stream consumer_group last_seq s =
     (Inr (), pg_listen (stream_channel_name stream) s)"

definition pg_offset_row :: "string \<Rightarrow> string \<Rightarrow> ConsumerGroupStatus \<Rightarrow> bool" where
  "pg_offset_row stream consumer_group r \<longleftrightarrow>
     cg_stream_name r = stream \<and> cg_consumer_group r = consumer_group"

definition pg_ack :: "Env \<Rightarrow> string \<Rightarrow> string \<Rightarrow> int \<Rightarrow> (PostgresBackend, unit) op" where
  "pg_ack env stream consumer_group seq s =
     (if list_ex (pg_offset_row stream consumer_group) (pg_offsets s)
      then (Inr (), s\<lparr>pg_offsets :=
               sql_update (pg_offset_row stream consumer_group)
                 (\<lambda>r. r\<lparr>cg_last_acked_seq := max (cg_last_acked_seq r) seq,
                       cg_updated_at := pg_now env\<rparr>) (pg_offsets s)\<rparr>)
      else (Inr (), s\<lparr>pg_offsets := pg_offsets s
               @ [\<lparr>cg_consumer_group = consumer_group, cg_stream_name = stream,
                   cg_last_acked_seq = seq, cg_updated_at = pg_now env\<rparr>]\<rparr>))"

definition pg_read_events :: "string \<Rightarrow> int \<Rightarrow> int \<Rightarrow> (PostgresBackend, Event list) op" where
  "pg_read_events stream after limit s =
     (Inr (sql_limit (clamp 1 1000 limit)
        (sort_key ev_sequence_no
          (filter (\<lambda>r. ev_stream_name r = stream \<and> ev_sequence_no r > after) (pg_events s)))), s)"

text \<open>\<^verbatim>\<open>LEAST($2, COALESCE((SELECT MIN(last_acked_seq) ...), $2))\<close>\<close>

definition pg_prune_cutoff :: "string \<Rightarrow> int \<Rightarrow> PostgresBackend \<Rightarrow> int" where
  "pg_prune_cutoff stream through_seq s =
     (let offsets =
            map cg_last_acked_seq (filter (\<lambda>r. cg_stream_name r = stream) (pg_offsets s))
      in min through_seq (if offsets = [] then through_seq else Min (set offsets)))"

definition pg_prune_events :: "string \<Rightarrow> int \<Rightarrow> (PostgresBackend, nat) op" where
  "pg_prune_events stream through_seq s =
     (let cutoff = pg_prune_cutoff stream through_seq s;
          P = (\<lambda>r. ev_stream_name r = stream \<and> ev_sequence_no r \<le> cutoff)
      in (Inr (rows_affected P (pg_events s)),
          s\<lparr>pg_events := sql_delete P (pg_events s)\<rparr>))"

definition pg_consumer_group_info ::
  "string \<Rightarrow> (PostgresBackend, ConsumerGroupStatus list) op" where
  "pg_consumer_group_info stream s =
     (Inr (filter (\<lambda>r. cg_stream_name r = stream) (pg_offsets s)), s)"

section \<open>The trait objects\<close>

definition postgres_stream :: "PostgresBackend StreamBackend" where
  "postgres_stream =
     \<lparr>sx_publish = pg_publish, sx_subscribe_stream = pg_subscribe_stream, sx_ack = pg_ack,
      sx_read_events = pg_read_events, sx_prune_events = pg_prune_events,
      sx_consumer_group_info = pg_consumer_group_info\<rparr>"

definition postgres_backend :: "(datetime \<Rightarrow> string) \<Rightarrow> PostgresBackend StorageBackend" where
  "postgres_backend stamp =
     \<lparr>sb_capabilities = (\<lambda>_. caps_postgres), sb_as_stream = Some postgres_stream,
      sb_run_migrations = (\<lambda>s. (Inr (), s)), sb_health_check = (\<lambda>s. (Inr (), s)),
      sb_enqueue = pg_enqueue stamp, sb_subscribe = pg_subscribe,
      sb_lease_jobs_batch = pg_lease_jobs_batch,
      sb_lease_jobs_batch_with_ordering = pg_lease_jobs_batch_with_ordering,
      sb_reap_expired_locks = pg_reap_expired_locks,
      sb_start_attempts_batch = pg_start_attempts_batch,
      sb_mark_succeeded = pg_mark_succeeded stamp,
      sb_mark_succeeded_batch = (\<lambda>envs. pg_mark_succeeded_batch (envs 0)),
      sb_reschedule_for_retry = pg_reschedule_for_retry, sb_mark_dlq = pg_mark_dlq,
      sb_archive_succeeded_older_than = pg_archive_succeeded_older_than,
      sb_delete_history_for_succeeded_older_than = pg_delete_history_for_succeeded_older_than,
      sb_perform_maintenance = pg_vacuum_analyze, sb_extend_lease = pg_extend_lease,
      sb_cancel_job = pg_cancel_job, sb_get_job = pg_get_job, sb_list_jobs = pg_list_jobs,
      sb_replay_job = pg_replay_job stamp\<rparr>"

end
