(* ===== verification/Postgres_Reports.thy ===== *)
theory Postgres_Reports
  imports Postgres_Backend
begin

text \<open>
  What the PostgreSQL storage reports about jobs and queues: the timeline of a job
  (\<^verbatim>\<open>azums/src/jobs/timeline.rs\<close>), the debug view built on it (\<^verbatim>\<open>debug_view.rs\<close>) and the
  metrics of a queue (\<^verbatim>\<open>metrics.rs\<close>). The fractions are exact here, and the debug view
  carries the values that the source turns into JSON.
\<close>

section \<open>Timeline\<close>

record TimelineAttempt =
  ta_id :: uuid
  ta_attempt_no :: int
  ta_status :: string
  ta_started_at :: datetime
  ta_finished_at :: "datetime option"
  ta_error_code :: "string option"
  ta_error_message :: "string option"
  ta_latency_ms :: "int option"
  ta_worker_id :: string
  ta_suggested_action :: "string option"

record LastError =
  le_error_code :: "string option"
  le_error_message :: "string option"

datatype TimelineEvent =
    AttemptEvent datetime uuid int string string "string option" "string option" "string option"
      "int option"
  | PolicyDecisionEvent datetime uuid string string json

record JobTimeline =
  tl_job_id :: uuid
  tl_status :: string
  tl_queue :: string
  tl_job_type :: string
  tl_run_at :: datetime
  tl_next_run_at :: "datetime option"
  tl_last_worker_id :: "string option"
  tl_last_error :: "LastError option"
  tl_attempts :: "TimelineAttempt list"
  tl_story :: "TimelineEvent list"

definition timeline_attempt :: "MemoryAttempt \<Rightarrow> TimelineAttempt" where
  "timeline_attempt a =
     \<lparr>ta_id = at_id a, ta_attempt_no = at_attempt_no a, ta_status = at_status a,
      ta_started_at = at_started_at a, ta_finished_at = at_finished_at a,
      ta_error_code = at_error_code a, ta_error_message = at_error_message a,
      ta_latency_ms = at_latency_ms a, ta_worker_id = at_worker_id a,
      ta_suggested_action = map_option suggested_action (at_error_code a)\<rparr>"

definition story_attempt :: "TimelineAttempt \<Rightarrow> TimelineEvent" where
  "story_attempt a =
     AttemptEvent (ta_started_at a) (ta_id a) (ta_attempt_no a) (ta_status a) (ta_worker_id a)
       (ta_error_code a) (ta_error_message a) (ta_suggested_action a) (ta_latency_ms a)"

definition story_decision :: "PolicyDecisionRow \<Rightarrow> TimelineEvent" where
  "story_decision p =
     PolicyDecisionEvent (pd_created_at p) (pd_id p) (pd_decision p) (pd_reason_code p)
       (pd_details_json p)"

text \<open>The comparison of \<^verbatim>\<open>story.sort_by\<close>: by time, decisions before attempts.\<close>

fun story_key :: "TimelineEvent \<Rightarrow> datetime \<times> int \<times> int" where
  "story_key (AttemptEvent t i n st w c m act l) = (t, 1, n)"
| "story_key (PolicyDecisionEvent t i d r js) = (t, 0, 0)"

definition build_timeline :: "uuid \<Rightarrow> (PostgresBackend, JobTimeline option) op" where
  "build_timeline job_id s =
     (case pg_get_job job_id s of
        (Inl e, s1) \<Rightarrow> (Inl e, s1)
      | (Inr None, s1) \<Rightarrow> (Inr None, s1)
      | (Inr (Some job), s1) \<Rightarrow>
          (case pg_list_attempts_for_job job_id s1 of
             (Inl e, s2) \<Rightarrow> (Inl e, s2)
           | (Inr raw_attempts, s2) \<Rightarrow>
               (case list_for_job job_id s2 of
                  (Inl e, s3) \<Rightarrow> (Inl e, s3)
                | (Inr policy_rows, s3) \<Rightarrow>
                    (let last_worker_id =
                           (if raw_attempts = [] then None
                            else Some (at_worker_id (last raw_attempts)));
                         last_failed = find (\<lambda>a. at_status a = ''failed'') (rev raw_attempts);
                         last_error =
                           map_option (\<lambda>a. \<lparr>le_error_code = at_error_code a,
                                            le_error_message = at_error_message a\<rparr>) last_failed;
                         next_run_at =
                           (if j_status job = ''queued'' then Some (j_run_at job) else None);
                         attempts_out = map timeline_attempt raw_attempts;
                         story =
                           sort_key story_key
                             (map story_attempt attempts_out @ map story_decision policy_rows)
                     in (Inr (Some
                           \<lparr>tl_job_id = j_id job, tl_status = j_status job, tl_queue = j_queue job,
                            tl_job_type = j_job_type job, tl_run_at = j_run_at job,
                            tl_next_run_at = next_run_at, tl_last_worker_id = last_worker_id,
                            tl_last_error = last_error, tl_attempts = attempts_out,
                            tl_story = story\<rparr>), s3)))))"

section \<open>Debug view\<close>

datatype NextAction =
    RetryAt datetime
  | DlqAction "string option"
  | Replayable
  | RunningAction
  | QueuedAction
  | SucceededAction
  | UnknownAction

record DebugView =
  dv_job_id :: uuid
  dv_status :: string
  dv_attempts :: "TimelineAttempt list option"
  dv_decisions :: "TimelineEvent list option"
  dv_next_action :: NextAction

definition next_action :: "Job \<Rightarrow> NextAction" where
  "next_action job =
     (if j_status job = ''queued'' then QueuedAction
      else if j_status job = ''running'' then RunningAction
      else if j_status job = ''succeeded'' then SucceededAction
      else if j_status job = ''dlq'' then DlqAction (j_dlq_reason_code job)
      else if j_status job = ''failed'' then Replayable
      else UnknownAction)"

definition build_debug_view :: "uuid \<Rightarrow> (PostgresBackend, DebugView option) op" where
  "build_debug_view job_id s =
     (case pg_get_job job_id s of
        (Inl e, s1) \<Rightarrow> (Inl e, s1)
      | (Inr None, s1) \<Rightarrow> (Inr None, s1)
      | (Inr (Some job), s1) \<Rightarrow>
          (case build_timeline job_id s1 of
             (Inl e, s2) \<Rightarrow> (Inl e, s2)
           | (Inr timeline, s2) \<Rightarrow>
               (Inr (Some
                  \<lparr>dv_job_id = job_id, dv_status = j_status job,
                   dv_attempts = map_option tl_attempts timeline,
                   dv_decisions = map_option tl_story timeline,
                   dv_next_action = next_action job\<rparr>), s2)))"

section \<open>Metrics\<close>

record PgQueueMetrics =
  qm_at :: datetime
  qm_queue :: string
  qm_runnable_queue_depth :: nat
  qm_jobs_per_sec :: rat
  qm_success_rate :: rat
  qm_retry_rate :: rat
  qm_mean_latency_ms :: rat

definition recent_attempts :: "datetime \<Rightarrow> string \<Rightarrow> PostgresBackend \<Rightarrow> MemoryAttempt list" where
  "recent_attempts now queue s =
     filter
       (\<lambda>a. belongs (filter (\<lambda>r. j_queue r = queue) (pg_jobs s)) (at_dataset_id a) (at_job_id a)
            \<and> at_started_at a \<ge> now - seconds 60) (pg_attempts s)"

text \<open>\<^verbatim>\<open>AVG\<close> ignores NULL; the average of nothing is reported as 0.\<close>

definition average :: "int option list \<Rightarrow> rat" where
  "average xs =
     (let ys = List.map_filter id xs
      in if ys = [] then 0 else rat_of_int (sum_list ys) / rat_of_nat (length ys))"

definition snapshot_for_queue :: "Env \<Rightarrow> string \<Rightarrow> (PostgresBackend, PgQueueMetrics) op" where
  "snapshot_for_queue env queue s =
     (let now = pg_now env;
          depth = rows_affected (pg_due now queue) (pg_jobs s);
          a = recent_attempts now queue s;
          finished = filter (\<lambda>x. at_finished_at x \<noteq> None) a;
          finished_count = rat_of_nat (length finished);
          succeeded_count = rat_of_nat (rows_affected (\<lambda>x. at_status x = ''succeeded'') finished);
          retry_count = rat_of_nat (rows_affected (\<lambda>x. at_attempt_no x \<ge> 2) a);
          started_count = rat_of_nat (length a)
      in (Inr \<lparr>qm_at = e_now env, qm_queue = queue, qm_runnable_queue_depth = depth,
               qm_jobs_per_sec = finished_count / 60,
               qm_success_rate =
                 (if finished_count > 0 then succeeded_count / finished_count else 0),
               qm_retry_rate = (if started_count > 0 then retry_count / started_count else 0),
               qm_mean_latency_ms = average (map at_latency_ms finished)\<rparr>, s))"

text \<open>SELECT DISTINCT queue FROM jobs ORDER BY queue: the order of the queues is a parameter.\<close>

definition snapshot_all ::
  "(string list \<Rightarrow> string list) \<Rightarrow> Env \<Rightarrow> (PostgresBackend, PgQueueMetrics list) op" where
  "snapshot_all collate env s =
     (Inr (map (\<lambda>queue. projr (fst (snapshot_for_queue env queue s)))
             (collate (remdups (map j_queue (pg_jobs s))))), s)"

end
