(* ===== verification/Worker_Binary.thy ===== *)
theory Worker_Binary
  imports Postgres_Backend Memory_Observe
begin

text \<open>
  The worker process of \<^verbatim>\<open>worker/src/main.rs\<close> with its handlers, \<^verbatim>\<open>worker/src/handlers.rs\<close>: one
  round of its loop (reap, lease, start attempts, run the handlers, report) and one round of
  its maintenance task. The handlers run concurrently; what each of them does, when its timer
  fires and in which order they finish is given by the world of the round. Printing and
  waiting for a notification are left out.
\<close>

section \<open>Handlers\<close>

record JobError =
  err_code :: string
  err_message :: string

record HandlerOptions =
  ho_max_concurrency :: "nat option"
  ho_timeout_ms :: "nat option"

definition HandlerOptions_new :: HandlerOptions where
  "HandlerOptions_new = \<lparr>ho_max_concurrency = None, ho_timeout_ms = None\<rparr>"

definition opt_max_concurrency :: "HandlerOptions \<Rightarrow> nat \<Rightarrow> HandlerOptions" where
  "opt_max_concurrency opts n = opts\<lparr>ho_max_concurrency := Some n\<rparr>"

definition opt_timeout :: "HandlerOptions \<Rightarrow> nat \<Rightarrow> HandlerOptions" where
  "opt_timeout opts ms = opts\<lparr>ho_timeout_ms := Some ms\<rparr>"

record HandlerEntry =
  he_permits :: "nat option"
  he_timeout_ms :: "nat option"

type_synonym HandlerRegistry = "(string, HandlerEntry) hashmap"

definition register_with_options ::
  "string \<Rightarrow> HandlerOptions \<Rightarrow> HandlerRegistry \<Rightarrow> HandlerRegistry" where
  "register_with_options job_type opts reg =
     hm_insert job_type
       \<lparr>he_permits = map_option (\<lambda>n. max n 1) (ho_max_concurrency opts),
        he_timeout_ms = ho_timeout_ms opts\<rparr> reg"

definition register_plain :: "string \<Rightarrow> HandlerRegistry \<Rightarrow> HandlerRegistry" where
  "register_plain job_type = register_with_options job_type HandlerOptions_new"

definition register_with_limit :: "string \<Rightarrow> nat \<Rightarrow> HandlerRegistry \<Rightarrow> HandlerRegistry" where
  "register_with_limit job_type max_concurrency =
     register_with_options job_type (opt_max_concurrency HandlerOptions_new max_concurrency)"

definition register_with_timeout :: "string \<Rightarrow> nat \<Rightarrow> HandlerRegistry \<Rightarrow> HandlerRegistry" where
  "register_with_timeout job_type ms =
     register_with_options job_type (opt_timeout HandlerOptions_new ms)"

definition handler_for :: "HandlerRegistry \<Rightarrow> string \<Rightarrow> HandlerEntry option" where
  "handler_for reg job_type = map_of reg job_type"

definition build_registry :: HandlerRegistry where
  "build_registry =
     register_with_options ''email_send''
       (opt_timeout (opt_max_concurrency HandlerOptions_new 50) 10000)
       (register_with_timeout ''fail_me'' 5000
         (register_with_timeout ''demo_ok'' 5000
           (register_with_timeout ''ok'' 5000 [])))"

text \<open>
  What the world supplies for one job: whether its semaphore is closed, whether the timer fires
  before the handler is done, how the handler ends, how long that takes, and the clock and the
  jitter of the report.
\<close>

datatype handler_end = HandlerOk | HandlerErr JobError | HandlerPanics string | TaskLost string

record TaskRun =
  tr_permit_closed :: bool
  tr_elapsed :: bool
  tr_end :: handler_end
  tr_millis :: nat
  tr_envs :: "nat \<Rightarrow> Env"
  tr_rng :: "rat \<Rightarrow> rat \<Rightarrow> rat"

definition entry_run :: "HandlerEntry \<Rightarrow> TaskRun \<Rightarrow> handler_end" where
  "entry_run entry w =
     (if he_permits entry \<noteq> None \<and> tr_permit_closed w
      then HandlerErr \<lparr>err_code = ''WORKER_SHUTDOWN'', err_message = ''handler semaphore closed''\<rparr>
      else
        (case he_timeout_ms entry of
           Some dur \<Rightarrow>
             if tr_elapsed w
             then HandlerErr \<lparr>err_code = ''TIMEOUT'',
                    err_message = ''handler timeout after '' @ show_nat dur @ ''ms''\<rparr>
             else tr_end w
         | None \<Rightarrow> tr_end w))"

section \<open>Outcomes of a job\<close>

datatype JobExecutionOutcome =
    JobSucceeded uuid uuid int int
  | JobFailed uuid uuid int int int string string

text \<open>\<^verbatim>\<open>as_millis() as i32\<close> keeps the low 32 bits.\<close>

definition as_i32 :: "nat \<Rightarrow> int" where
  "as_i32 n = (int n + 2 ^ 31) mod 2 ^ 32 - 2 ^ 31"

definition task_end :: "HandlerRegistry \<Rightarrow> Job \<Rightarrow> TaskRun \<Rightarrow> handler_end" where
  "task_end reg job w =
     (case handler_for reg (j_job_type job) of
        Some entry \<Rightarrow> entry_run entry w
      | None \<Rightarrow>
          HandlerErr \<lparr>err_code = ''UNKNOWN_JOB_TYPE'',
             err_message = ''no handler for job_type='' @ j_job_type job\<rparr>)"

definition execute_job ::
  "HandlerRegistry \<Rightarrow> Job \<Rightarrow> uuid \<Rightarrow> int \<Rightarrow> TaskRun \<Rightarrow> JobExecutionOutcome" where
  "execute_job reg job attempt_id attempt_no w =
     (let latency_ms = as_i32 (tr_millis w)
      in case task_end reg job w of
           HandlerOk \<Rightarrow> JobSucceeded (j_id job) attempt_id attempt_no latency_ms
         | HandlerErr err \<Rightarrow>
             JobFailed (j_id job) attempt_id attempt_no (j_max_attempts job) latency_ms
               (err_code err) (err_message err)
         | HandlerPanics msg \<Rightarrow>
             JobFailed (j_id job) attempt_id attempt_no 0 latency_ms ''PANIC'' msg
         | TaskLost msg \<Rightarrow>
             JobFailed (j_id job) attempt_id attempt_no 0 latency_ms ''PANIC''
               (''task join error: '' @ msg))"

section \<open>One round of the worker\<close>

record WorkerConfig =
  wc_worker_id :: string
  wc_queue :: string
  wc_lease_seconds :: int
  wc_batch_size :: int
  wc_registry :: HandlerRegistry
  wc_retry :: RetryConfig

record WorkerRound =
  wr_reap_due :: bool
  wr_reap_env :: Env
  wr_lease_env :: Env
  wr_start_env :: Env
  wr_tasks :: "uuid \<Rightarrow> TaskRun"
  wr_finish_order :: "JobExecutionOutcome list \<Rightarrow> JobExecutionOutcome list"
  wr_success_envs :: "nat \<Rightarrow> Env"

text \<open>
  The loop that starts a task per job: \<^term>\<open>None\<close> where a job of the batch has no attempt.
\<close>

fun spawn_tasks ::
  "HandlerRegistry \<Rightarrow> (uuid \<Rightarrow> TaskRun) \<Rightarrow> Job list \<Rightarrow> (uuid, uuid \<times> int) hashmap
     \<Rightarrow> JobExecutionOutcome list option" where
  "spawn_tasks reg tasks [] attempts_by_job = Some []"
| "spawn_tasks reg tasks (job # rest) attempts_by_job =
     (case map_of attempts_by_job (j_id job) of
        None \<Rightarrow> None
      | Some (attempt_id, attempt_no) \<Rightarrow>
          map_option (\<lambda>os. execute_job reg job attempt_id attempt_no (tasks (j_id job)) # os)
            (spawn_tasks reg tasks rest (hm_remove (j_id job) attempts_by_job)))"

fun succeeded_update :: "JobExecutionOutcome \<Rightarrow> (uuid \<times> uuid \<times> int) option" where
  "succeeded_update (JobSucceeded i a n l) = Some (i, a, l)"
| "succeeded_update (JobFailed i a n m l c msg) = None"

fun is_failed :: "JobExecutionOutcome \<Rightarrow> bool" where
  "is_failed (JobSucceeded i a n l) = False"
| "is_failed (JobFailed i a n m l c msg) = True"

fun report_failures ::
  "WorkerConfig \<Rightarrow> (uuid \<Rightarrow> TaskRun) \<Rightarrow> JobExecutionOutcome list \<Rightarrow> (PostgresBackend, unit) run" where
  "report_failures cfg tasks [] s = (Inr (), s)"
| "report_failures cfg tasks (JobSucceeded i a n l # rest) s = report_failures cfg tasks rest s"
| "report_failures cfg tasks (JobFailed i a n m l c msg # rest) s =
     (case on_failure (wc_retry cfg) (tr_envs (tasks i)) (tr_rng (tasks i)) i a (wc_worker_id cfg)
             l c msg n m s of
        (Inl e, s') \<Rightarrow> (Inl e, s')
      | (Inr _, s') \<Rightarrow> report_failures cfg tasks rest s')"

definition process_round ::
  "WorkerConfig \<Rightarrow> WorkerRound \<Rightarrow> Job list \<Rightarrow> (PostgresBackend, unit) run" where
  "process_round cfg r batch s =
     (let leased_dataset_id = j_dataset_id (hd batch)
      in if list_ex (\<lambda>j. j_dataset_id j \<noteq> leased_dataset_id) batch
         then (Inl (client_error.Failed (message ''mixed dataset batch returned from lease query'')), s)
         else
           (case pg_start_attempts_batch (wr_start_env r) (map j_dataset_id batch) (map j_id batch)
                   (wc_worker_id cfg) s of
              (Inl e, s1) \<Rightarrow> (Inl (client_error.Failed e), s1)
            | (Inr started, s1) \<Rightarrow>
                if length started \<noteq> length batch
                then (Inl (client_error.Failed (message ''attempt insert count mismatch'')), s1)
                else
                  (case spawn_tasks (wc_registry cfg) (wr_tasks r) batch (attempts_table started) of
                     None \<Rightarrow> (Inl (client_error.Failed (message ''missing started attempt'')), s1)
                   | Some outcomes \<Rightarrow>
                       (let joined = wr_finish_order r outcomes
                        in case on_success_batch (wr_success_envs r) leased_dataset_id
                                  (List.map_filter succeeded_update joined) (wc_worker_id cfg) s1 of
                             (Inl e, s2) \<Rightarrow> (Inl (client_error.Failed e), s2)
                           | (Inr _, s2) \<Rightarrow>
                               report_failures cfg (wr_tasks r) (filter is_failed joined) s2))))"

text \<open>An error ends the worker; an empty batch makes it wait.\<close>

definition worker_round :: "WorkerConfig \<Rightarrow> WorkerRound \<Rightarrow> (PostgresBackend, nat) run" where
  "worker_round cfg r s =
     (case (if wr_reap_due r then pg_reap_expired_locks (wr_reap_env r) s else (Inr 0, s)) of
        (Inl e, s1) \<Rightarrow> (Inl (client_error.Failed e), s1)
      | (Inr _, s1) \<Rightarrow>
          (case pg_lease_jobs_batch (wr_lease_env r) (wc_queue cfg) (wc_worker_id cfg)
                  (wc_lease_seconds cfg) (wc_batch_size cfg) s1 of
             (Inl e, s2) \<Rightarrow> (Inl (client_error.Failed e), s2)
           | (Inr batch, s2) \<Rightarrow>
               if batch = [] then (Inr 0, s2)
               else
                 (case process_round cfg r batch s2 of
                    (Inl e, s3) \<Rightarrow> (Inl e, s3)
                  | (Inr _, s3) \<Rightarrow> (Inr (length batch), s3))))"

section \<open>One round of maintenance\<close>

text \<open>Errors are printed and forgotten.\<close>

definition maintenance_round :: "Env \<Rightarrow> int \<Rightarrow> int \<Rightarrow> PostgresBackend \<Rightarrow> PostgresBackend" where
  "maintenance_round env archive_after_days prune_history_after_days s =
     (let s1 = snd (pg_archive_succeeded_older_than (cutoff_days env archive_after_days) 500 s)
      in snd (pg_delete_history_for_succeeded_older_than
                (cutoff_days env prune_history_after_days) 500 s1))"

end
