(* ===== verification/Postgres_Invariant.thy ===== *)
theory Postgres_Invariant
  imports Postgres_Reports Worker_Binary Memory_Backend
begin

text \<open>
  What the tables of the PostgreSQL storage satisfy after every sequence of calls: of the
  storage trait, of the repositories and the runner behind it, of the policies and the guard.
  Identifiers come from \<^verbatim>\<open>gen_random_uuid()\<close> and \<^verbatim>\<open>Uuid::new_v4()\<close>; the primary key of
  \<^verbatim>\<open>jobs\<close> is the pair of dataset and identifier, so that identifiers alone are unique only
  because they are drawn fresh.
\<close>

section \<open>The invariant\<close>

definition job_statuses :: "string list" where
  "job_statuses = [''queued'', ''running'', ''succeeded'', ''failed'', ''dlq'', ''canceled'']"

definition pg_job_ok :: "PgJob \<Rightarrow> bool" where
  "pg_job_ok r \<longleftrightarrow>
     j_status r \<in> set job_statuses
     \<and> (j_locked_by r \<noteq> None \<longleftrightarrow> j_status r = ''running'')
     \<and> (j_lock_expires_at r \<noteq> None \<longleftrightarrow> j_status r = ''running'')
     \<and> opt_int4 (j_timeout_seconds r) \<and> opt_int4 (j_recurring_interval_seconds r)
     \<and> j_run_at r mod 1000 = 0 \<and> j_created_at r mod 1000 = 0"

definition row_keys :: "PgJob list \<Rightarrow> (string \<times> string option) list" where
  "row_keys t =
     map (\<lambda>r. (j_dataset_id r, j_idempotency_key r)) (filter (\<lambda>r. j_idempotency_key r \<noteq> None) t)"

definition jobs_ok :: "PgJob list \<Rightarrow> bool" where
  "jobs_ok t \<longleftrightarrow> distinct (map j_id t) \<and> distinct (row_keys t) \<and> list_all pg_job_ok t"

definition pg_attempt_ok :: "MemoryAttempt \<Rightarrow> bool" where
  "pg_attempt_ok a \<longleftrightarrow>
     at_status a \<in> {''running'', ''succeeded'', ''failed''}
     \<and> (at_finished_at a = None \<longleftrightarrow> at_status a = ''running'')"

definition pg_attempts_ok :: "PgJob list \<Rightarrow> MemoryAttempt list \<Rightarrow> bool" where
  "pg_attempts_ok t atts \<longleftrightarrow>
     distinct (map at_id atts) \<and> distinct (map attempt_key atts) \<and> list_all pg_attempt_ok atts
     \<and> list_all (\<lambda>a. belongs t (at_dataset_id a) (at_job_id a)) atts"

definition pg_decisions_ok :: "PgJob list \<Rightarrow> PolicyDecisionRow list \<Rightarrow> bool" where
  "pg_decisions_ok t ds \<longleftrightarrow>
     distinct (map pd_id ds) \<and> list_all (\<lambda>d. belongs t (pd_dataset_id d) (pd_job_id d)) ds"

definition pg_archive_ok :: "PgJob list \<Rightarrow> ArchivedRow list \<Rightarrow> bool" where
  "pg_archive_ok t ar \<longleftrightarrow> distinct (map ar_id ar) \<and> j_id ` set t \<inter> ar_id ` set ar = {}"

definition pg_streams_ok :: "PostgresBackend \<Rightarrow> bool" where
  "pg_streams_ok s \<longleftrightarrow>
     sorted_wrt (<) (map ev_sequence_no (pg_events s))
     \<and> list_all (\<lambda>e. ev_sequence_no e \<le> pg_sequence s) (pg_events s)
     \<and> distinct (map (\<lambda>c. (cg_stream_name c, cg_consumer_group c)) (pg_offsets s))"

definition pg_guard_ok :: "PostgresBackend \<Rightarrow> bool" where
  "pg_guard_ok s \<longleftrightarrow>
     distinct (map qp_queue (pg_policies s))
     \<and> distinct (map (\<lambda>c. (rc_queue c, rc_window_start c)) (pg_counters s))
     \<and> distinct (map in_id (pg_ingest s))"

definition pg_inv :: "PostgresBackend \<Rightarrow> bool" where
  "pg_inv s \<longleftrightarrow>
     jobs_ok (pg_jobs s) \<and> pg_attempts_ok (pg_jobs s) (pg_attempts s)
     \<and> pg_decisions_ok (pg_jobs s) (pg_decisions s) \<and> pg_archive_ok (pg_jobs s) (pg_archive s)
     \<and> pg_streams_ok s \<and> pg_guard_ok s"

lemma pg_inv_new: "pg_inv pg_new"
  by (simp add: pg_inv_def pg_new_def jobs_ok_def row_keys_def pg_attempts_ok_def pg_decisions_ok_def
      pg_archive_ok_def pg_streams_ok_def pg_guard_ok_def)

text \<open>The identifiers in use, and environments that draw unused ones.\<close>

definition pg_used :: "PostgresBackend \<Rightarrow> uuid set" where
  "pg_used s = j_id ` set (pg_jobs s) \<union> at_id ` set (pg_attempts s) \<union> ar_id ` set (pg_archive s)"

definition pg_fresh :: "Env \<Rightarrow> PostgresBackend \<Rightarrow> bool" where
  "pg_fresh env s \<longleftrightarrow> e_fresh env 0 \<notin> pg_used s"

section \<open>Statements keep the tables\<close>

lemma pg_timestamp_mod [simp]: "pg_timestamp t mod 1000 = 0"
  by (simp add: pg_timestamp_def minus_mod_eq_div_mult)

lemma pg_now_mod [simp]: "pg_now env mod 1000 = 0"
  by (simp add: pg_now_def)

lemma milliseconds_mod [simp]: "(pg_now env + milliseconds n) mod 1000 = 0"
proof -
  have "milliseconds n mod 1000 = 0" by (simp add: milliseconds_def mod_mult_right_eq[symmetric, of n 1000000])
  then show ?thesis using mod_add_eq[of "pg_now env" 1000 "milliseconds n"] by simp
qed

lemma belongs_iff: "belongs t d i \<longleftrightarrow> (d, i) \<in> (\<lambda>r. (j_dataset_id r, j_id r)) ` set t"
  by (auto simp: belongs_def list_ex_iff)

lemma belongs_snoc: "belongs t d i \<Longrightarrow> belongs (t @ u) d i"
  by (simp add: belongs_def)

lemma belongs_update [simp]:
  assumes "\<And>r. j_id (f r) = j_id r" "\<And>r. j_dataset_id (f r) = j_dataset_id r"
  shows "belongs (update_jobs now P f t) = belongs t"
  unfolding belongs_def by (intro ext, induction t) (auto simp: update_jobs_def sql_update_def assms)

lemma row_keys_update [simp]:
  assumes "\<And>r. j_dataset_id (f r) = j_dataset_id r" "\<And>r. j_idempotency_key (f r) = j_idempotency_key r"
  shows "row_keys (update_jobs now P f t) = row_keys t"
  by (induction t) (simp_all add: row_keys_def update_jobs_def sql_update_def assms)

lemma ids_update_jobs [simp]:
  "(\<And>r. j_id (f r) = j_id r) \<Longrightarrow> map j_id (update_jobs now P f t) = map j_id t"
  by (simp add: update_jobs_def)

lemma id_set_update_jobs [simp]:
  "(\<And>r. j_id (f r) = j_id r) \<Longrightarrow> j_id ` set (update_jobs now P f t) = j_id ` set t"
  using ids_update_jobs[of f now P t] by (metis list.set_map)

lemma pg_job_ok_touch [simp]: "pg_job_ok (r\<lparr>j_updated_at := now\<rparr>) = pg_job_ok r"
  by (simp add: pg_job_ok_def)

definition keeps_identity :: "(PgJob \<Rightarrow> PgJob) \<Rightarrow> bool" where
  "keeps_identity f \<longleftrightarrow>
     (\<forall>r. j_id (f r) = j_id r \<and> j_dataset_id (f r) = j_dataset_id r
        \<and> j_idempotency_key (f r) = j_idempotency_key r)"

lemma keeps_identityD:
  assumes "keeps_identity f"
  shows "j_id (f r) = j_id r" "j_dataset_id (f r) = j_dataset_id r"
    "j_idempotency_key (f r) = j_idempotency_key r"
  using assms by (simp_all add: keeps_identity_def)

lemma jobs_ok_update:
  assumes "jobs_ok t" "keeps_identity f" "\<And>r. pg_job_ok r \<Longrightarrow> P r \<Longrightarrow> pg_job_ok (f r)"
  shows "jobs_ok (update_jobs now P f t)"
proof -
  have "list_all pg_job_ok (update_jobs now P f t)"
    using assms(1,3) by (auto simp: jobs_ok_def update_jobs_def sql_update_def list_all_iff)
  then show ?thesis using assms(1) by (simp add: jobs_ok_def keeps_identityD[OF assms(2)])
qed

lemma pg_inv_update:
  assumes "pg_inv s" "keeps_identity f" "\<And>r. pg_job_ok r \<Longrightarrow> P r \<Longrightarrow> pg_job_ok (f r)"
  shows "pg_inv (s\<lparr>pg_jobs := update_jobs now P f (pg_jobs s)\<rparr>)"
  using assms(1) jobs_ok_update[OF _ assms(2,3)]
  by (simp add: pg_inv_def pg_attempts_ok_def pg_decisions_ok_def pg_archive_ok_def pg_streams_ok_def
      pg_guard_ok_def keeps_identityD[OF assms(2)])

text \<open>The rows statements write.\<close>

lemma row_functions:
  "keeps_identity unlocked" "keeps_identity succeeded_row" "keeps_identity (pg_lock_row now w ls)"
  "pg_job_ok r \<Longrightarrow> pg_job_ok (succeeded_row r)"
  "pg_job_ok r \<Longrightarrow> pg_job_ok (pg_lock_row now w ls r)"
  by (simp_all add: keeps_identity_def unlocked_def succeeded_row_def pg_lock_row_def pg_job_ok_def
      job_statuses_def)

lemma unlocked_sel [simp]:
  "j_id (unlocked r) = j_id r" "j_dataset_id (unlocked r) = j_dataset_id r"
  "j_idempotency_key (unlocked r) = j_idempotency_key r" "j_status (unlocked r) = j_status r"
  "j_locked_by (unlocked r) = None" "j_lock_expires_at (unlocked r) = None"
  "j_timeout_seconds (unlocked r) = j_timeout_seconds r"
  "j_recurring_interval_seconds (unlocked r) = j_recurring_interval_seconds r"
  "j_run_at (unlocked r) = j_run_at r" "j_queue (unlocked r) = j_queue r" "j_created_at (unlocked r) = j_created_at r"
  by (simp_all add: unlocked_def)

lemma pg_insert_job_cases:
  assumes "pg_insert_job row t = Inr t'"
  shows "t' = t @ [row]" "\<not> list_ex (key_conflict row) t"
  using assms by (simp_all add: pg_insert_job_def split: if_splits)

lemma jobs_ok_snoc:
  assumes "jobs_ok t" "\<not> list_ex (key_conflict row) t" "j_id row \<notin> j_id ` set t" "pg_job_ok row"
  shows "jobs_ok (t @ [row])"
  using assms by (auto simp: jobs_ok_def row_keys_def key_conflict_def list_ex_iff)

lemma pg_inv_insert:
  assumes "pg_inv s" "\<not> list_ex (key_conflict row) (pg_jobs s)" "j_id row \<notin> pg_used s" "pg_job_ok row"
  shows "pg_inv (s\<lparr>pg_jobs := pg_jobs s @ [row]\<rparr>)"
proof -
  have "j_id row \<notin> j_id ` set (pg_jobs s)" "j_id row \<notin> ar_id ` set (pg_archive s)"
    using assms(3) by (auto simp: pg_used_def)
  then show ?thesis
    using assms(1,4) jobs_ok_snoc[OF _ assms(2)]
    by (auto simp: pg_inv_def pg_attempts_ok_def pg_decisions_ok_def pg_archive_ok_def pg_streams_ok_def
        pg_guard_ok_def belongs_snoc list_all_iff)
qed

lemma pg_inv_attempts:
  assumes "pg_inv s" "pg_attempts_ok (pg_jobs s) atts"
  shows "pg_inv (s\<lparr>pg_attempts := atts\<rparr>)"
  using assms by (simp add: pg_inv_def pg_streams_ok_def pg_guard_ok_def)

lemma pg_attempts_ok_update:
  assumes "pg_attempts_ok t atts"
    and "\<And>a. at_id (f a) = at_id a" "\<And>a. at_dataset_id (f a) = at_dataset_id a"
      "\<And>a. at_job_id (f a) = at_job_id a" "\<And>a. at_attempt_no (f a) = at_attempt_no a"
    and "\<And>a. pg_attempt_ok a \<Longrightarrow> P a \<Longrightarrow> pg_attempt_ok (f a)"
  shows "pg_attempts_ok t (sql_update P f atts)"
proof -
  have "map attempt_key (sql_update P f atts) = map attempt_key atts"
    by (rule map_key_update) (simp add: attempt_key_def assms)
  moreover have "list_all pg_attempt_ok (sql_update P f atts)"
    "list_all (\<lambda>a. belongs t (at_dataset_id a) (at_job_id a)) (sql_update P f atts)"
    using assms by (auto simp: pg_attempts_ok_def sql_update_def list_all_iff)
  ultimately show ?thesis using assms by (simp add: pg_attempts_ok_def)
qed

lemma pg_attempts_ok_filter: "pg_attempts_ok t atts \<Longrightarrow> pg_attempts_ok t (filter P atts)"
  by (simp add: pg_attempts_ok_def list_all_iff)

lemma pg_decisions_ok_filter: "pg_decisions_ok t ds \<Longrightarrow> pg_decisions_ok t (filter P ds)"
  by (simp add: pg_decisions_ok_def list_all_iff)

lemma pg_inv_notify [simp]: "pg_inv (pg_notify c s) = pg_inv s" "pg_inv (pg_listen c s) = pg_inv s"
  by (simp_all add: pg_notify_def pg_listen_def pg_inv_def pg_streams_ok_def pg_guard_ok_def
      split: option.split)

lemma jobs_ok_filter:
  assumes "jobs_ok t"
  shows "jobs_ok (filter P t)"
proof -
  have "row_keys (filter P t) =
      map (\<lambda>r. (j_dataset_id r, j_idempotency_key r)) (filter P (filter (\<lambda>r. j_idempotency_key r \<noteq> None) t))"
    by (simp add: row_keys_def conj_commute)
  also have "distinct \<dots>" by (rule distinct_map_filter) (use assms in \<open>simp add: jobs_ok_def row_keys_def\<close>)
  finally show ?thesis using assms by (simp add: jobs_ok_def list_all_iff distinct_map_filter)
qed

text \<open>Deleting jobs with their attempts and decisions.\<close>

lemma belongs_rest:
  "belongs t d i \<Longrightarrow> \<not> belongs (filter P t) d i \<Longrightarrow> belongs (sql_delete P t) d i"
  by (auto simp: belongs_def list_ex_iff sql_delete_def)

lemma pg_inv_delete:
  assumes "pg_inv s" "distinct (map ar_id ar)" "ar_id ` set ar \<inter> j_id ` set (sql_delete P (pg_jobs s)) = {}"
  shows "pg_inv (pg_delete_jobs P (s\<lparr>pg_archive := ar\<rparr>))"
proof -
  let ?t = "sql_delete P (pg_jobs s)"
  have "jobs_ok ?t" using assms(1) jobs_ok_filter by (simp add: pg_inv_def sql_delete_def)
  moreover have "pg_attempts_ok ?t
      (sql_delete (\<lambda>a. belongs (filter P (pg_jobs s)) (at_dataset_id a) (at_job_id a)) (pg_attempts s))"
    using assms(1) belongs_rest[of "pg_jobs s"]
    by (auto simp: pg_inv_def pg_attempts_ok_def sql_delete_def list_all_iff)
  moreover have "pg_decisions_ok ?t
      (sql_delete (\<lambda>d. belongs (filter P (pg_jobs s)) (pd_dataset_id d) (pd_job_id d)) (pg_decisions s))"
    using assms(1) belongs_rest[of "pg_jobs s"]
    by (auto simp: pg_inv_def pg_decisions_ok_def sql_delete_def list_all_iff)
  ultimately show ?thesis
    using assms
    by (auto simp: pg_inv_def pg_delete_jobs_def Let_def pg_archive_ok_def pg_streams_ok_def pg_guard_ok_def)
qed

section \<open>Jobs\<close>

lemma same_key_update: "r\<lparr>j_idempotency_key := j_idempotency_key r\<rparr> = (r :: PgJob)"
  by (cases r) simp

lemma upsert_touch:
  assumes "jobs_ok t" "find (key_conflict row) t = Some e"
  shows "update_jobs now (same_job e) (\<lambda>r. r\<lparr>j_idempotency_key := j_idempotency_key row\<rparr>) t
    = update_jobs now (same_job e) (\<lambda>r. r) t"
proof -
  have e: "e \<in> set t" "j_idempotency_key e = j_idempotency_key row"
    using assms(2) by (auto simp: find_Some_iff key_conflict_def)
  have "r = e" if "r \<in> set t" "same_job e r" for r
    using that e(1) assms(1) by (auto simp: jobs_ok_def same_job_def distinct_map dest: inj_onD)
  moreover have "e\<lparr>j_idempotency_key := j_idempotency_key row\<rparr> = e"
    unfolding e(2)[symmetric] by (rule same_key_update)
  ultimately have "r\<lparr>j_idempotency_key := j_idempotency_key row\<rparr> = r" if "r \<in> set t" "same_job e r" for r
    using that by blast
  then show ?thesis by (simp add: update_jobs_def sql_update_def)
qed

lemma pg_upsert_cases:
  assumes "jobs_ok t" "pg_upsert_job now row t = Inr (i, t')"
  obtains e where "find (key_conflict row) t = Some e" "i = j_id e" "t' = update_jobs now (same_job e) (\<lambda>r. r) t"
  | "find (key_conflict row) t = None" "i = j_id row" "t' = t @ [row]" "\<not> list_ex (key_conflict row) t"
proof (cases "find (key_conflict row) t")
  case (Some e)
  then show ?thesis using assms upsert_touch[OF assms(1) Some] that(1) by (simp add: pg_upsert_job_def)
next
  case None
  then show ?thesis
    using assms(2) that(2) pg_insert_job_cases[of row t] by (simp add: pg_upsert_job_def split: sum.splits)
qed

lemma default_row_sel [simp]:
  "j_id (default_row env d) = e_fresh env 0" "j_dataset_id (default_row env d) = d"
  "j_status (default_row env d) = ''queued''" "j_locked_by (default_row env d) = None"
  "j_lock_expires_at (default_row env d) = None" "j_idempotency_key (default_row env d) = None"
  "j_locked_at (default_row env d) = None" "j_created_at (default_row env d) = pg_now env"
  "j_updated_at (default_row env d) = pg_now env"
  by (simp_all add: default_row_def)

lemma enqueued_row_ok:
  "opt_int4 (nj_timeout_seconds job) \<Longrightarrow> opt_int4 (nj_recurring_interval_seconds job) \<Longrightarrow>
     pg_job_ok (enqueued_row stamp env job)"
  by (simp add: enqueued_row_def pg_job_ok_def job_statuses_def)

lemma enqueued_row_sel [simp]:
  "j_id (enqueued_row stamp env job) = e_fresh env 0"
  "j_dataset_id (enqueued_row stamp env job) = dataset_id_for stamp (nj_queue job) (nj_run_at job)"
  "j_idempotency_key (enqueued_row stamp env job) = nj_idempotency_key job"
  by (simp_all add: enqueued_row_def)

lemma pg_enqueue_same: "pg_enqueue_in_tx stamp env job s = pg_enqueue stamp env job s"
  by (simp add: pg_enqueue_in_tx_def pg_enqueue_def Let_def)

lemma pg_enqueue_inv:
  assumes inv: "pg_inv s" and fresh: "pg_fresh env s"
  shows "pg_inv (snd (pg_enqueue stamp env job s))"
proof (cases "opt_int4 (nj_timeout_seconds job) \<and> opt_int4 (nj_recurring_interval_seconds job)")
  case True
  let ?row = "enqueued_row stamp env job"
  have t: "jobs_ok (pg_jobs s)" using inv by (simp add: pg_inv_def)
  show ?thesis
  proof (cases "pg_upsert_job (pg_now env) ?row (pg_jobs s)")
    case (Inl e)
    then show ?thesis using inv True by (simp add: pg_enqueue_def)
  next
    case (Inr it)
    obtain i t' where it: "it = (i, t')" by fastforce
    have "pg_inv (s\<lparr>pg_jobs := t'\<rparr>)"
      using t Inr[unfolded it]
    proof (cases rule: pg_upsert_cases)
      case (1 e)
      then show ?thesis using pg_inv_update[OF inv, of "\<lambda>r. r"] by (simp add: keeps_identity_def)
    next
      case 2
      then show ?thesis
        using pg_inv_insert[OF inv] fresh enqueued_row_ok True by (simp add: pg_fresh_def)
    qed
    then show ?thesis using Inr it True by (simp add: pg_enqueue_def)
  qed
qed (use inv in \<open>simp add: pg_enqueue_def\<close>)

lemma pg_inv_insert_row:
  assumes inv: "pg_inv s" and fresh: "pg_fresh env s"
    and row: "j_id row = e_fresh env 0" "pg_job_ok row" "pg_insert_job row (pg_jobs s) = Inr t"
  shows "pg_inv (s\<lparr>pg_jobs := t\<rparr>)"
  using pg_inv_insert[OF inv pg_insert_job_cases(2)[OF row(3)] _ row(2)] fresh row(1)
    pg_insert_job_cases(1)[OF row(3)] by (simp add: pg_fresh_def)

lemma replayed_row_ok:
  assumes "opt_int4 (j_timeout_seconds src)" "opt_int4 (j_recurring_interval_seconds src)"
  shows "pg_job_ok (replayed_row stamp env src q t)" "j_id (replayed_row stamp env src q t) = e_fresh env 0"
  using assms by (simp_all add: replayed_row_def pg_job_ok_def job_statuses_def)

lemma pg_replay_inv:
  assumes inv: "pg_inv s" and fresh: "pg_fresh env s"
  shows "pg_inv (snd (pg_replay_job stamp env i q t s))"
  using inv pg_inv_insert_row[OF inv fresh replayed_row_ok(2,1)]
  by (auto simp: pg_replay_job_def Let_def split: option.split sum.split)

lemma pg_extend_inv: "pg_inv s \<Longrightarrow> pg_inv (snd (pg_extend_lease env i w ls s))"
  using pg_inv_update[of s _ "held_row i w"]
  by (simp add: pg_extend_lease_def keeps_identity_def pg_job_ok_def held_row_def)

lemma pg_expire_inv:
  "pg_inv s \<Longrightarrow> pg_inv (s\<lparr>pg_jobs := pg_expire_deadlines now q (pg_jobs s)\<rparr>)"
  unfolding pg_expire_deadlines_def
  by (rule pg_inv_update) (simp_all add: keeps_identity_def pg_job_ok_def job_statuses_def pg_due_def)

lemma pg_insert_decision_cases:
  assumes "pg_insert_decision row s = Inr s'"
  shows "s' = s\<lparr>pg_decisions := pg_decisions s @ [row]\<rparr>"
    "belongs (pg_jobs s) (pd_dataset_id row) (pd_job_id row)" "pd_id row \<notin> pd_id ` set (pg_decisions s)"
  using assms by (simp_all add: pg_insert_decision_def split: if_splits)

lemma pg_insert_decision_inv:
  assumes "pg_inv s" "pg_insert_decision row s = Inr s'"
  shows "pg_inv s'"
  using pg_insert_decision_cases[OF assms(2)] assms(1)
  by (simp add: pg_inv_def pg_decisions_ok_def pg_streams_ok_def pg_guard_ok_def)

lemma pg_throttle_inv:
  assumes inv: "pg_inv s"
  shows "pg_inv (snd (pg_throttle env d q policy reason p s))"
proof -
  have "pg_inv (s1\<lparr>pg_jobs := update_jobs (pg_now env) (\<lambda>r. j_id r = j_id c)
      (\<lambda>r. r\<lparr>j_run_at := pg_now env + milliseconds (qp_throttle_delay_ms p)\<rparr>) (pg_jobs s1)\<rparr>)"
    if "pg_insert_decision row s = Inr s1" for row s1 c
    by (rule pg_inv_update[OF pg_insert_decision_inv[OF inv that]])
       (simp_all add: keeps_identity_def pg_job_ok_def)
  then show ?thesis using inv by (auto simp: pg_throttle_def Let_def split: list.split sum.split)
qed

lemma pg_lease_batch_inv: "pg_inv s \<Longrightarrow> pg_inv (snd (pg_lease_batch env d q w ls n policy s))"
  by (auto simp: pg_lease_batch_def Let_def intro!: pg_inv_update row_functions)

lemma pg_lease_unexpired_inv: "pg_inv s \<Longrightarrow> pg_inv (snd (pg_lease_unexpired env q w ls n policy s))"
  by (simp add: pg_lease_unexpired_def Let_def pg_throttle_inv pg_lease_batch_inv split: option.split)

lemma transaction_inv: "P s \<Longrightarrow> P (snd (body s)) \<Longrightarrow> P (snd (transaction body s))"
  by (rule transaction_keeps[of P]) (simp_all add: prod_eq_iff)

lemma pg_lease_inv:
  "pg_inv s \<Longrightarrow> pg_inv (snd (pg_lease_jobs_batch_with_ordering env q w ls bs policy s))"
  unfolding pg_lease_jobs_batch_with_ordering_def
  by (rule transaction_inv[of pg_inv]) (simp_all add: pg_lease_unexpired_inv pg_expire_inv)

lemma pg_reap_attempt_ok:
  "pg_attempts_ok t atts \<Longrightarrow> pg_attempts_ok t (sql_update P (pg_reap_attempt now) atts)"
  by (rule pg_attempts_ok_update) (simp_all add: pg_reap_attempt_def pg_attempt_ok_def)

lemma pg_inv_parts:
  assumes "pg_inv s"
  shows "jobs_ok (pg_jobs s)" "pg_attempts_ok (pg_jobs s) (pg_attempts s)"
    "pg_decisions_ok (pg_jobs s) (pg_decisions s)" "pg_archive_ok (pg_jobs s) (pg_archive s)"
    "pg_streams_ok s" "pg_guard_ok s"
  using assms by (simp_all add: pg_inv_def)

lemma pg_reap_inv: "pg_inv s \<Longrightarrow> pg_inv (snd (pg_reap_expired_locks env s))"
proof -
  assume inv: "pg_inv s"
  have "pg_inv (s\<lparr>pg_attempts := sql_update P (pg_reap_attempt now) (pg_attempts s)\<rparr>)" for P now
    by (rule pg_inv_attempts[OF inv pg_reap_attempt_ok[OF pg_inv_parts(2)[OF inv]]])
  from pg_inv_update[OF this, of "\<lambda>r. (unlocked r)\<lparr>j_status := ''queued''\<rparr>" "pg_lease_expired (pg_now env)"]
  show ?thesis
    unfolding pg_reap_expired_locks_def
    by (intro transaction_inv[of pg_inv])
       (simp_all add: inv Let_def keeps_identity_def pg_job_ok_def job_statuses_def)
qed

lemma pg_settle_inv:
  assumes "pg_inv s" "keeps_identity f" "\<And>r. pg_job_ok r \<Longrightarrow> P r \<Longrightarrow> pg_job_ok (f r)"
  shows "pg_inv (snd (pg_settle env P f n err s))"
  using pg_inv_update[OF assms] by (simp add: pg_settle_def Let_def)

lemma snd_discard [simp]: "snd (discard f s) = snd (f s)"
  by (simp add: discard_def split: prod.split sum.split)

lemma settled_rows:
  "keeps_identity (\<lambda>r. (unlocked r)\<lparr>j_status := ''queued'', j_run_at := t, j_last_error_code := c, j_last_error_message := m\<rparr>)"
  "keeps_identity (\<lambda>r. (unlocked r)\<lparr>j_status := ''failed'', j_last_error_code := c, j_last_error_message := m\<rparr>)"
  "keeps_identity (\<lambda>r. (unlocked r)\<lparr>j_status := ''dlq'', j_dlq_reason_code := rc, j_dlq_at := dt,
     j_last_error_code := c, j_last_error_message := m\<rparr>)"
  "pg_job_ok r \<Longrightarrow> pg_job_ok ((unlocked r)\<lparr>j_status := ''queued'', j_run_at := pg_timestamp t',
     j_last_error_code := c, j_last_error_message := m\<rparr>)"
  "pg_job_ok r \<Longrightarrow> pg_job_ok ((unlocked r)\<lparr>j_status := ''failed'', j_last_error_code := c, j_last_error_message := m\<rparr>)"
  "pg_job_ok r \<Longrightarrow> pg_job_ok ((unlocked r)\<lparr>j_status := ''dlq'', j_dlq_reason_code := rc, j_dlq_at := dt,
     j_last_error_code := c, j_last_error_message := m\<rparr>)"
  by (simp_all add: keeps_identity_def pg_job_ok_def job_statuses_def)

lemma repo_inv:
  assumes "pg_inv s"
  shows "pg_inv (snd (repo_mark_succeeded_batch env is w s))"
    "pg_inv (snd (repo_mark_succeeded_batch_for_dataset env d is w s))"
    "pg_inv (snd (repo_mark_succeeded env i w s))"
    "pg_inv (snd (repo_reschedule_for_retry env i t oc om s))"
    "pg_inv (snd (repo_mark_failed env i w oc om s))"
    "pg_inv (snd (repo_mark_dlq env i w rc oc om s))"
  using assms
  by (simp_all add: repo_mark_succeeded_batch_def repo_mark_succeeded_batch_for_dataset_def
      repo_mark_succeeded_def repo_reschedule_for_retry_def repo_mark_failed_def repo_mark_dlq_def
      pg_settle_inv row_functions settled_rows)

lemma pg_cancel_inv: "pg_inv s \<Longrightarrow> pg_inv (snd (pg_cancel_job env i w s))"
proof -
  assume inv: "pg_inv s"
  have row: "keeps_identity (\<lambda>r. (unlocked r)\<lparr>j_status := ''canceled''\<rparr>)"
    "pg_job_ok r \<Longrightarrow> pg_job_ok ((unlocked r)\<lparr>j_status := ''canceled''\<rparr>)" for r
    by (simp_all add: keeps_identity_def pg_job_ok_def job_statuses_def)
  have "pg_attempts_ok (pg_jobs s) (sql_update P (pg_cancel_attempt now) (pg_attempts s))" for P now
    by (rule pg_attempts_ok_update[OF pg_inv_parts(2)[OF inv]])
       (simp_all add: pg_cancel_attempt_def pg_attempt_ok_def)
  from pg_inv_update[OF pg_inv_attempts[OF inv this] row(1)] pg_inv_update[OF inv row(1)]
  show ?thesis
    unfolding pg_cancel_job_def
    by (intro transaction_inv[of pg_inv]) (simp_all add: inv row(2) Let_def split: option.split)
qed

section \<open>Attempts and outcomes\<close>

lemma pg_insert_attempts_cases:
  assumes "pg_insert_attempts rows s = Inr s'"
  shows "s' = s\<lparr>pg_attempts := pg_attempts s @ rows\<rparr>"
    "list_all (\<lambda>a. belongs (pg_jobs s) (at_dataset_id a) (at_job_id a)) rows"
    "distinct (map at_id (pg_attempts s @ rows))" "distinct (map attempt_key (pg_attempts s @ rows))"
  using assms by (simp_all add: pg_insert_attempts_def Let_def split: if_splits)

lemma pg_insert_attempts_inv:
  assumes "pg_inv s" "pg_insert_attempts rows s = Inr s'" "list_all pg_attempt_ok rows"
  shows "pg_inv s'"
proof -
  note c = pg_insert_attempts_cases[OF assms(2)]
  have "pg_attempts_ok (pg_jobs s) (pg_attempts s @ rows)"
    using c(2-4) assms(3) pg_inv_parts(2)[OF assms(1)] by (simp add: pg_attempts_ok_def)
  then show ?thesis unfolding c(1) by (rule pg_inv_attempts[OF assms(1)])
qed

lemma attempt_row_sel [simp]:
  "at_id (attempt_row now a d i n w) = a" "at_dataset_id (attempt_row now a d i n w) = d"
  "at_job_id (attempt_row now a d i n w) = i" "at_attempt_no (attempt_row now a d i n w) = n"
  "at_status (attempt_row now a d i n w) = ''running''" "pg_attempt_ok (attempt_row now a d i n w)"
  by (simp_all add: attempt_row_def pg_attempt_ok_def)

lemma started_rows_ok: "list_all pg_attempt_ok (started_rows env w input s)"
  by (auto simp: started_rows_def Let_def list_all_iff)

lemma pg_start_inv:
  assumes "pg_inv s"
  shows "pg_inv (snd (pg_start_attempts_batch env ds is w s))"
    "pg_inv (snd (pg_start_attempt_for_dataset env d i w s))" "pg_inv (snd (pg_start_attempt env i w s))"
proof -
  show "pg_inv (snd (pg_start_attempts_batch env ds is w s))"
    using assms pg_insert_attempts_inv[OF assms _ started_rows_ok]
    by (simp add: pg_start_attempts_batch_def Let_def split: sum.split)
  show one: "pg_inv (snd (pg_start_attempt_for_dataset env d i w s))" for d
    using assms pg_insert_attempts_inv[OF assms]
    by (simp add: pg_start_attempt_for_dataset_def Let_def split: sum.split)
  show "pg_inv (snd (pg_start_attempt env i w s))"
    using assms one by (simp add: pg_start_attempt_def split: option.split)
qed

lemma pg_finish_inv:
  assumes "pg_inv s"
  shows "pg_inv (snd (pg_finish_succeeded env a l s))" "pg_inv (snd (pg_finish_succeeded_batch env us s))"
    "pg_inv (snd (pg_finish_failed env a l c m s))"
  using assms pg_inv_parts(2)[OF assms]
  by (auto simp: pg_finish_succeeded_def pg_finish_succeeded_batch_def pg_finish_failed_def pg_attempt_ok_def
      intro!: pg_inv_attempts pg_attempts_ok_update)

lemma snd_lift [simp]: "snd (lift f s) = snd (f s)"
  by (simp add: lift_def split: prod.split sum.split)

text \<open>One call after another, the second only if the first returned.\<close>

lemma chain_inv:
  assumes "pg_inv (snd x)" "\<And>s1. pg_inv s1 \<Longrightarrow> pg_inv (snd (g s1))"
  shows "pg_inv (snd (case x of (Inl e, s1) \<Rightarrow> (Inl (h e), s1) | (Inr r, s1) \<Rightarrow> g s1))"
  using assms by (cases x; cases "fst x") auto

lemma runner_inv:
  assumes "pg_inv s"
  shows "pg_inv (snd (on_success envs i a w l s))" "pg_inv (snd (on_success_batch envs d us w s))"
    "pg_inv (snd (on_failure cfg envs rng i a w l c m n mx s))"
proof -
  show "pg_inv (snd (on_success envs i a w l s))"
    unfolding on_success_def by (rule chain_inv[OF pg_finish_inv(1)[OF assms]]) (rule repo_inv(3))
  show "pg_inv (snd (on_success_batch envs d us w s))"
    unfolding on_success_batch_def Let_def
    using assms by (auto intro!: chain_inv pg_finish_inv simp: repo_inv(2))
  have "pg_inv (snd (let cls = classify_error c; can_retry = is_retryable cls \<and> n < mx
      in if can_retry then
           (case next_delay_seconds n cfg rng of
              Panics msg \<Rightarrow> (Inl (Panicked msg), s1)
            | Returns delay_secs \<Rightarrow>
                lift (repo_reschedule_for_retry (envs 1) i (e_now (envs 1) + seconds delay_secs)
                        (Some c) (Some m)) s1)
         else lift (repo_mark_dlq (envs 1) i w (dlq_reason_code cls) (Some c) (Some m)) s1))"
    if "pg_inv s1" for s1
    using that repo_inv(4,6)[OF that] by (simp add: Let_def split: outcome.split)
  from chain_inv[OF pg_finish_inv(3)[OF assms] this]
  show "pg_inv (snd (on_failure cfg envs rng i a w l c m n mx s))" unfolding on_failure_def .
qed

lemma pg_close_cases:
  "pg_close_attempt P f err s = (Inl err, s)
   \<or> rows_affected P (pg_attempts s) = 1
     \<and> pg_close_attempt P f err s = (Inr (), s\<lparr>pg_attempts := sql_update P f (pg_attempts s)\<rparr>)"
  by (simp add: pg_close_attempt_def)

lemma pg_close_inv:
  assumes "pg_inv s" "f = pg_succeed_attempt now l \<or> f = pg_fail_attempt now l c m"
  shows "pg_inv (snd (pg_close_attempt P f err s))"
proof -
  have "pg_attempts_ok (pg_jobs s) (sql_update P f (pg_attempts s))"
    using assms(2) pg_inv_parts(2)[OF assms(1)]
    by (auto simp: pg_succeed_attempt_def pg_fail_attempt_def pg_attempt_ok_def intro!: pg_attempts_ok_update)
  from pg_inv_attempts[OF assms(1) this] assms(1) show ?thesis by (simp add: pg_close_attempt_def)
qed

text \<open>Closing an attempt leaves the other tables alone.\<close>

lemma pg_close_frame:
  assumes "pg_close_attempt P f err s = (r, s')"
  shows "pg_jobs s' = pg_jobs s" "pg_archive s' = pg_archive s"
    "(\<And>a. at_id (f a) = at_id a) \<Longrightarrow> pg_used s' = pg_used s"
proof -
  show "pg_used s' = pg_used s" if "\<And>a. at_id (f a) = at_id a"
    using assms map_key_update[of at_id f P "pg_attempts s", OF that, THEN arg_cong[of _ _ set]]
    by (auto simp: pg_close_attempt_def pg_used_def simp del: map_key_update split: if_splits)
qed (use assms in \<open>auto simp: pg_close_attempt_def split: if_splits\<close>)

lemma pg_succeed_attempt_id [simp]:
  "at_id (pg_succeed_attempt now l a) = at_id a" "at_id (pg_fail_attempt now l c m a) = at_id a"
  by (simp_all add: pg_succeed_attempt_def pg_fail_attempt_def)

lemma next_row_ok:
  assumes "opt_int4 (j_timeout_seconds job)" "fits_int4 n" "j_recurring_interval_seconds job = Some n"
  shows "pg_job_ok (next_row stamp env job k)" "j_id (next_row stamp env job k) = e_fresh env 0"
  using assms by (simp_all add: next_row_def Let_def pg_job_ok_def job_statuses_def opt_int4_def)

lemma pg_insert_next_inv:
  assumes "pg_inv s" "pg_fresh env s" "pg_insert_next stamp env job (pg_jobs s) = Inr t"
  shows "pg_inv (s\<lparr>pg_jobs := t\<rparr>)"
proof (cases "j_recurring_interval_seconds job")
  case None
  then have "s\<lparr>pg_jobs := t\<rparr> = s" using assms(3) by (simp add: pg_insert_next_def)
  then show ?thesis using assms(1) by simp
next
  case (Some n)
  then show ?thesis
    using assms(3) pg_inv_insert_row[OF assms(1,2) next_row_ok(2,1)[OF _ _ Some]]
    by (simp add: pg_insert_next_def split: if_splits)
qed

lemma pg_succeed_inv:
  assumes inv: "pg_inv s" and fresh: "pg_fresh env s"
  shows "pg_inv (snd (pg_mark_succeeded stamp env i a w l s))"
  unfolding pg_mark_succeeded_def
proof (rule transaction_inv[of pg_inv, OF inv])
  obtain r s1 where c: "pg_close_attempt (running_attempt a i) (pg_succeed_attempt (pg_now env) l)
      (cannot_complete_attempt a i) s = (r, s1)" by fastforce
  have inv1: "pg_inv s1" using pg_close_inv[OF inv] c by (metis snd_conv)
  let ?t = "update_jobs (pg_now env) (held_row i w) succeeded_row (pg_jobs s1)"
  let ?s2 = "s1\<lparr>pg_jobs := ?t\<rparr>"
  have "pg_inv ?s2" by (rule pg_inv_update[OF inv1 row_functions(2) row_functions(4)])
  moreover have "pg_fresh env ?s2"
    using fresh pg_close_frame[OF c] by (auto simp: pg_fresh_def pg_used_def keeps_identityD[OF row_functions(2)])
  ultimately have "pg_inv (s1\<lparr>pg_jobs := t'\<rparr>)" if "pg_insert_next stamp env job ?t = Inr t'" for job t'
    using pg_insert_next_inv[of ?s2 env stamp job t'] that by simp
  then show "pg_inv (snd (case pg_close_attempt (running_attempt a i) (pg_succeed_attempt (pg_now env) l)
      (cannot_complete_attempt a i) s of
         (Inl e, s1) \<Rightarrow> (Inl e, s1)
       | (Inr _, s1) \<Rightarrow>
           (case filter (held_row i w) (pg_jobs s1) of
              [] \<Rightarrow> (Inl (illegal_transition ''completed'' i w), s1)
            | claimed # _ \<Rightarrow>
                (let completed_job = (succeeded_row claimed)\<lparr>j_updated_at := pg_now env\<rparr>;
                     t = update_jobs (pg_now env) (held_row i w) succeeded_row (pg_jobs s1)
                 in case pg_insert_next stamp env completed_job t of
                      Inl e \<Rightarrow> (Inl e, s1)
                    | Inr t' \<Rightarrow> (Inr (), s1\<lparr>pg_jobs := t'\<rparr>)))))"
    using inv1 by (simp add: c Let_def split: sum.split list.split)
qed

lemma pg_outcome_inv:
  assumes inv: "pg_inv s"
  shows "pg_inv (snd (pg_succeed_one env d w u s))"
    "pg_inv (snd (pg_reschedule_for_retry env i a w l t c m n s))"
    "pg_inv (snd (pg_mark_dlq env i a w l rc c m n s))"
proof -
  have succeed: "pg_inv (snd (pg_close_attempt P (pg_succeed_attempt now l') e s))"
    and fail: "pg_inv (snd (pg_close_attempt P (pg_fail_attempt now l' c m) e s))" for P now l' e
    by (rule pg_close_inv[OF inv]; blast)+
  show "pg_inv (snd (pg_succeed_one env d w u s))"
    unfolding pg_succeed_one_def
    by (cases u) (auto intro!: chain_inv succeed simp: pg_settle_inv row_functions)
  show "pg_inv (snd (pg_reschedule_for_retry env i a w l t c m n s))"
    unfolding pg_reschedule_for_retry_def
    by (rule transaction_inv[of pg_inv, OF inv], rule chain_inv[OF fail])
       (simp add: pg_settle_inv settled_rows)
  show "pg_inv (snd (pg_mark_dlq env i a w l rc c m n s))"
    unfolding pg_mark_dlq_def
    by (rule transaction_inv[of pg_inv, OF inv], rule chain_inv[OF fail])
       (simp add: pg_settle_inv settled_rows)
qed

lemma pg_succeed_batch_inv:
  assumes "pg_inv s"
  shows "pg_inv (snd (pg_mark_succeeded_batch env d us w s))"
  using assms for_each_invariant[of us pg_inv, OF pg_outcome_inv(1) assms]
  by (auto simp: pg_mark_succeeded_batch_def intro: transaction_inv[of pg_inv])

section \<open>Maintenance\<close>

lemma oldest_successes_set:
  "r \<in> set (oldest_successes cutoff n t) \<Longrightarrow> r \<in> set t \<and> old_success cutoff r"
  by (auto simp: oldest_successes_def dest!: in_set_takeD)

lemma distinct_map_sort: "distinct (map key t) \<Longrightarrow> distinct (map key (sort_key f t))"
  by (simp add: distinct_map)

lemma distinct_oldest:
  "distinct (map j_id t) \<Longrightarrow> distinct (map j_id (oldest_successes cutoff n t))"
  by (simp add: oldest_successes_def take_map[symmetric] distinct_map_sort distinct_map_filter)

lemma archived_row_id [simp]: "ar_id (archived_row r) = j_id r" "ar_id \<circ> archived_row = j_id"
  by (simp_all add: archived_row_def fun_eq_iff)

lemma disjoint_images: "(\<And>y. y \<in> B \<Longrightarrow> g y \<notin> f ` A) \<Longrightarrow> f ` A \<inter> g ` B = {}"
  by (simp add: disjoint_iff) blast

lemma pg_archive_inv: "pg_inv s \<Longrightarrow> pg_inv (snd (pg_archive_succeeded_older_than cutoff n s))"
proof -
  assume inv: "pg_inv s"
  let ?new = "filter (\<lambda>c. j_id c \<notin> ar_id ` set (pg_archive s)) (oldest_successes cutoff n (pg_jobs s))"
  let ?ar = "pg_archive s @ map archived_row ?new"
  let ?P = "\<lambda>r. j_id r \<in> ar_id ` set ?ar \<and> old_success cutoff r"
  have dist: "distinct (map j_id (pg_jobs s))" using inv by (simp add: pg_inv_def jobs_ok_def)
  have "ar_id ` set (pg_archive s) \<inter> j_id ` set ?new = {}"
    by (rule disjoint_images) simp
  then have "distinct (map ar_id ?ar)"
    using inv distinct_map_filter[OF distinct_oldest[OF dist]]
    by (simp add: pg_inv_def pg_archive_ok_def image_image)
  moreover have "j_id r \<notin> ar_id ` set ?ar" if r: "r \<in> set (sql_delete ?P (pg_jobs s))" for r
  proof
    assume a: "j_id r \<in> ar_id ` set ?ar"
    have "r \<in> set (pg_jobs s)" "\<not> ?P r" using r by (auto simp: sql_delete_def)
    then have "\<not> old_success cutoff r" "j_id r \<notin> ar_id ` set (pg_archive s)"
      using a inv by (auto simp: pg_inv_def pg_archive_ok_def)
    moreover obtain c where "c \<in> set ?new" "j_id c = j_id r" using a calculation by auto
    then have "c \<in> set (pg_jobs s)" "old_success cutoff c" using oldest_successes_set by auto
    ultimately show False
      using \<open>j_id c = j_id r\<close> \<open>r \<in> set (pg_jobs s)\<close> dist by (auto simp: distinct_map dest: inj_onD)
  qed
  then have "ar_id ` set ?ar \<inter> j_id ` set (sql_delete ?P (pg_jobs s)) = {}"
    by (rule disjoint_images)
  ultimately have "pg_inv (pg_delete_jobs ?P (s\<lparr>pg_archive := ?ar\<rparr>))" by (rule pg_inv_delete[OF inv])
  then show ?thesis
    unfolding pg_archive_succeeded_older_than_def
    by (intro transaction_inv[of pg_inv] inv) (simp add: Let_def inv)
qed

lemma pg_delete_history_inv:
  "pg_inv s \<Longrightarrow> pg_inv (snd (pg_delete_history_for_succeeded_older_than cutoff n s))"
  unfolding pg_delete_history_for_succeeded_older_than_def
  by (rule transaction_inv[of pg_inv])
     (auto simp: Let_def sql_delete_def pg_inv_def pg_attempts_ok_filter pg_decisions_ok_filter
       pg_streams_ok_def pg_guard_ok_def)

section \<open>Policies, the guard and streams\<close>

lemma pg_inv_side_tables:
  assumes "pg_inv s"
  shows "pg_guard_ok (s\<lparr>pg_policies := ps\<rparr>) \<Longrightarrow> pg_inv (s\<lparr>pg_policies := ps\<rparr>)"
    "pg_guard_ok (s\<lparr>pg_counters := cs\<rparr>) \<Longrightarrow> pg_inv (s\<lparr>pg_counters := cs\<rparr>)"
    "pg_guard_ok (s\<lparr>pg_ingest := ds\<rparr>) \<Longrightarrow> pg_inv (s\<lparr>pg_ingest := ds\<rparr>)"
    "pg_streams_ok (s\<lparr>pg_offsets := os\<rparr>) \<Longrightarrow> pg_inv (s\<lparr>pg_offsets := os\<rparr>)"
    "pg_streams_ok (s\<lparr>pg_events := es\<rparr>) \<Longrightarrow> pg_inv (s\<lparr>pg_events := es\<rparr>)"
    "pg_streams_ok (s\<lparr>pg_events := es, pg_sequence := n\<rparr>) \<Longrightarrow> pg_inv (s\<lparr>pg_events := es, pg_sequence := n\<rparr>)"
  using assms by (simp_all add: pg_inv_def pg_streams_ok_def pg_guard_ok_def)

lemma upsert_policy_inv: "pg_inv s \<Longrightarrow> pg_inv (snd (upsert_policy q a b c s))"
  using pg_inv_parts(6)[of s]
  by (auto simp: upsert_policy_def list_ex_iff pg_guard_ok_def intro!: pg_inv_side_tables(1))

lemma insert_decision_inv: "pg_inv s \<Longrightarrow> pg_inv (snd (insert_decision env i d rc js s))"
  using pg_insert_decision_inv[of s]
  by (simp add: insert_decision_def split: option.split sum.split)

lemma ingest_record_inv: "pg_inv s \<Longrightarrow> pg_inv (snd (ingest_record env q d rc js s))"
  using pg_inv_parts(6)[of s]
  by (auto simp: ingest_record_def pg_guard_ok_def intro!: pg_inv_side_tables(3))

lemma check_payload_inv:
  assumes inv: "pg_inv s"
  shows "pg_inv (snd (check_payload cfg env q n s))"
proof -
  have "pg_inv s'" if "ingest_record env q d rc js s = (r, s')" for d rc js r s'
    using ingest_record_inv[OF inv, of env q d rc js] that by simp
  then show ?thesis using inv by (auto simp: check_payload_def split: prod.split sum.split)
qed

lemma bump_counter_keys:
  assumes "distinct (map (\<lambda>c. (rc_queue c, rc_window_start c)) t)"
  shows "distinct (map (\<lambda>c. (rc_queue c, rc_window_start c)) (bump_counter q w t))"
  using assms by (auto simp: bump_counter_def list_ex_iff)

lemma check_rate_inv:
  assumes inv: "pg_inv s"
  shows "pg_inv (snd (check_rate cfg env q s))"
proof -
  have "pg_inv (s'\<lparr>pg_counters := bump_counter q w (pg_counters s)\<rparr>)"
    if "pg_inv s'" for s' w
    using pg_inv_parts(6)[OF that] pg_inv_parts(6)[OF inv]
    by (intro pg_inv_side_tables(2)[OF that]) (simp add: pg_guard_ok_def bump_counter_keys)
  moreover have "pg_inv s'" if "ingest_record env q d rc js s = (r, s')" for d rc js r s'
    using ingest_record_inv[OF inv, of env q d rc js] that by simp
  ultimately show ?thesis using inv by (auto simp: check_rate_def Let_def split: prod.split sum.split)
qed

lemma pg_stream_calls_inv:
  assumes inv: "pg_inv s"
  shows "pg_inv (snd (pg_publish env st ev s))" "pg_inv (snd (pg_ack env st g n s))"
    "pg_inv (snd (pg_prune_events st n s))" "pg_inv (snd (pg_subscribe_stream st g l s))"
    "pg_inv (snd (pg_subscribe q s))"
proof -
  note str = pg_inv_parts(5)[OF inv]
  have "pg_streams_ok (s\<lparr>pg_events := pg_events s @ [e], pg_sequence := pg_sequence s + 1\<rparr>)"
    if "ev_sequence_no e = pg_sequence s + 1" for e
    using str that by (fastforce simp: pg_streams_ok_def sorted_wrt_append list_all_iff)
  from pg_inv_side_tables(6)[OF inv this] show "pg_inv (snd (pg_publish env st ev s))"
    by (simp add: pg_publish_def Let_def)
  show "pg_inv (snd (pg_ack env st g n s))"
    using str by (auto simp: pg_ack_def pg_streams_ok_def list_ex_iff pg_offset_row_def
        intro!: pg_inv_side_tables(4)[OF inv])
  have "sorted_wrt (<) (map ev_sequence_no (filter P (pg_events s)))" for P
    using str by (simp add: pg_streams_ok_def sorted_wrt_map sorted_wrt_filter)
  then show "pg_inv (snd (pg_prune_events st n s))"
    using str by (auto simp: pg_prune_events_def Let_def sql_delete_def pg_streams_ok_def list_all_iff
        intro!: pg_inv_side_tables(5)[OF inv])
qed (simp_all add: inv pg_subscribe_stream_def pg_subscribe_def)

section \<open>Every sequence of calls\<close>

datatype pg_call =
    PTrait mem_call
  | PEnqueueInTx NewJob
  | PRepoSucceedBatch "uuid list" string
  | PRepoSucceedDataset string "uuid list" string
  | PRepoSucceed uuid string
  | PRepoRetry uuid datetime "string option" "string option"
  | PRepoFail uuid string "string option" "string option"
  | PRepoDlq uuid string string "string option" "string option"
  | PStart uuid string
  | PStartDataset string uuid string
  | PFinishOk uuid int
  | PFinishOkBatch "(uuid \<times> int) list"
  | PFinishFailed uuid int string string
  | PRunnerSuccess uuid uuid string int
  | PRunnerSuccessBatch string "(uuid \<times> uuid \<times> int) list" string
  | PRunnerFailure RetryConfig "rat \<Rightarrow> rat \<Rightarrow> rat" uuid uuid string int string string int int
  | PPolicy string int int int
  | PDecision uuid string string json
  | PCheckPayload EnqueueGuardConfig string nat
  | PCheckRate EnqueueGuardConfig string

fun pg_exec :: "(datetime \<Rightarrow> string) \<Rightarrow> (nat \<Rightarrow> Env) \<Rightarrow> pg_call \<Rightarrow> PostgresBackend \<Rightarrow> PostgresBackend" where
  "pg_exec stamp envs (PTrait (CEnqueue job)) s = snd (pg_enqueue stamp (envs 0) job s)"
| "pg_exec stamp envs (PTrait (CLease q w ls bs policy)) s =
     snd (pg_lease_jobs_batch_with_ordering (envs 0) q w ls bs policy s)"
| "pg_exec stamp envs (PTrait CReap) s = snd (pg_reap_expired_locks (envs 0) s)"
| "pg_exec stamp envs (PTrait (CStart ds is w)) s = snd (pg_start_attempts_batch (envs 0) ds is w s)"
| "pg_exec stamp envs (PTrait (CSucceed i a w l)) s = snd (pg_mark_succeeded stamp (envs 0) i a w l s)"
| "pg_exec stamp envs (PTrait (CSucceedBatch d us w)) s = snd (pg_mark_succeeded_batch (envs 0) d us w s)"
| "pg_exec stamp envs (PTrait (CRetry i a w l t c m n)) s =
     snd (pg_reschedule_for_retry (envs 0) i a w l t c m n s)"
| "pg_exec stamp envs (PTrait (CDlq i a w l r c m n)) s = snd (pg_mark_dlq (envs 0) i a w l r c m n s)"
| "pg_exec stamp envs (PTrait (CArchive cutoff n)) s = snd (pg_archive_succeeded_older_than cutoff n s)"
| "pg_exec stamp envs (PTrait (CDeleteHistory cutoff n)) s =
     snd (pg_delete_history_for_succeeded_older_than cutoff n s)"
| "pg_exec stamp envs (PTrait (CExtend i w ls)) s = snd (pg_extend_lease (envs 0) i w ls s)"
| "pg_exec stamp envs (PTrait (CCancel i w)) s = snd (pg_cancel_job (envs 0) i w s)"
| "pg_exec stamp envs (PTrait (CReplay i q t)) s = snd (pg_replay_job stamp (envs 0) i q t s)"
| "pg_exec stamp envs (PTrait (CSubscribe q)) s = snd (pg_subscribe q s)"
| "pg_exec stamp envs (PTrait (CPublish st e)) s = snd (pg_publish (envs 0) st e s)"
| "pg_exec stamp envs (PTrait (CSubscribeStream st g n)) s = snd (pg_subscribe_stream st g n s)"
| "pg_exec stamp envs (PTrait (CAck st g n)) s = snd (pg_ack (envs 0) st g n s)"
| "pg_exec stamp envs (PTrait (CPrune st n)) s = snd (pg_prune_events st n s)"
| "pg_exec stamp envs (PTrait CRead) s = s"
| "pg_exec stamp envs (PEnqueueInTx job) s = snd (pg_enqueue_in_tx stamp (envs 0) job s)"
| "pg_exec stamp envs (PRepoSucceedBatch is w) s = snd (repo_mark_succeeded_batch (envs 0) is w s)"
| "pg_exec stamp envs (PRepoSucceedDataset d is w) s =
     snd (repo_mark_succeeded_batch_for_dataset (envs 0) d is w s)"
| "pg_exec stamp envs (PRepoSucceed i w) s = snd (repo_mark_succeeded (envs 0) i w s)"
| "pg_exec stamp envs (PRepoRetry i t c m) s = snd (repo_reschedule_for_retry (envs 0) i t c m s)"
| "pg_exec stamp envs (PRepoFail i w c m) s = snd (repo_mark_failed (envs 0) i w c m s)"
| "pg_exec stamp envs (PRepoDlq i w r c m) s = snd (repo_mark_dlq (envs 0) i w r c m s)"
| "pg_exec stamp envs (PStart i w) s = snd (pg_start_attempt (envs 0) i w s)"
| "pg_exec stamp envs (PStartDataset d i w) s = snd (pg_start_attempt_for_dataset (envs 0) d i w s)"
| "pg_exec stamp envs (PFinishOk a l) s = snd (pg_finish_succeeded (envs 0) a l s)"
| "pg_exec stamp envs (PFinishOkBatch us) s = snd (pg_finish_succeeded_batch (envs 0) us s)"
| "pg_exec stamp envs (PFinishFailed a l c m) s = snd (pg_finish_failed (envs 0) a l c m s)"
| "pg_exec stamp envs (PRunnerSuccess i a w l) s = snd (on_success envs i a w l s)"
| "pg_exec stamp envs (PRunnerSuccessBatch d us w) s = snd (on_success_batch envs d us w s)"
| "pg_exec stamp envs (PRunnerFailure cfg rng i a w l c m n mx) s =
     snd (on_failure cfg envs rng i a w l c m n mx s)"
| "pg_exec stamp envs (PPolicy q a b c) s = snd (upsert_policy q a b c s)"
| "pg_exec stamp envs (PDecision i d r js) s = snd (insert_decision (envs 0) i d r js s)"
| "pg_exec stamp envs (PCheckPayload cfg q n) s = snd (check_payload cfg (envs 0) q n s)"
| "pg_exec stamp envs (PCheckRate cfg q) s = snd (check_rate cfg (envs 0) q s)"

inductive pg_reachable :: "(datetime \<Rightarrow> string) \<Rightarrow> PostgresBackend \<Rightarrow> bool" for stamp where
  init: "pg_reachable stamp pg_new"
| next_call: "pg_reachable stamp s \<Longrightarrow> pg_fresh (envs 0) s \<Longrightarrow> pg_reachable stamp (pg_exec stamp envs c s)"

lemmas pg_inv_ops = pg_enqueue_inv pg_enqueue_same pg_lease_inv pg_reap_inv pg_start_inv pg_succeed_inv
  pg_succeed_batch_inv pg_outcome_inv pg_archive_inv pg_delete_history_inv pg_extend_inv pg_cancel_inv
  pg_replay_inv pg_stream_calls_inv repo_inv pg_finish_inv runner_inv upsert_policy_inv
  insert_decision_inv check_payload_inv check_rate_inv

lemma pg_exec_inv:
  assumes "pg_inv s" "pg_fresh (envs 0) s"
  shows "pg_inv (pg_exec stamp envs c s)"
proof (cases c)
  case (PTrait m)
  then show ?thesis using assms by (cases m) (simp_all add: pg_inv_ops)
qed (use assms in \<open>simp_all add: pg_inv_ops\<close>)

lemma pg_reachable_inv: "pg_reachable stamp s \<Longrightarrow> pg_inv s"
  by (induction rule: pg_reachable.induct) (simp_all add: pg_inv_new pg_exec_inv)

end
