(* ===== verification/Postgres_Contract.thy ===== *)
theory Postgres_Contract
  imports Postgres_Invariant Backend_Contract
begin

text \<open>
  The PostgreSQL storage satisfies the contract the worker relies on as long as no queue has a
  policy: with a policy a lease call may hand out nothing and delay a job instead. Lease
  durations have to fit into 32 bits, and attempts are started under the dataset of the job.
\<close>

section \<open>The view of the contract\<close>

definition pg_stored :: "PostgresBackend \<Rightarrow> uuid \<Rightarrow> Job option" where
  "pg_stored s i = map_option job_of (row_at j_id (pg_jobs s) i)"

definition pg_opened :: "PostgresBackend \<Rightarrow> uuid \<Rightarrow> uuid \<Rightarrow> bool" where
  "pg_opened s a i \<longleftrightarrow> list_ex (running_attempt a i) (pg_attempts s)"

definition pg_located :: "PostgresBackend \<Rightarrow> string \<Rightarrow> uuid \<Rightarrow> bool" where
  "pg_located s d i \<longleftrightarrow> (\<exists>r. row_at j_id (pg_jobs s) i = Some r \<and> j_dataset_id r = d)"

definition pg_free_inv :: "PostgresBackend \<Rightarrow> bool" where
  "pg_free_inv s \<longleftrightarrow> pg_inv s \<and> pg_policies s = []"

lemma job_of_sel [simp]:
  "j_id (job_of r) = j_id r" "j_status (job_of r) = j_status r" "j_queue (job_of r) = j_queue r"
  "j_dataset_id (job_of r) = j_dataset_id r" "j_locked_by (job_of r) = j_locked_by r"
  "j_job_type (job_of r) = j_job_type r" "j_run_at (job_of r) = j_run_at r"
  "j_recurring_interval_seconds (job_of r) = j_recurring_interval_seconds r"
  "j_max_attempts (job_of r) = j_max_attempts r" "j_timeout_seconds (job_of r) = j_timeout_seconds r"
  "j_priority (job_of r) = j_priority r" "j_idempotency_key (job_of r) = j_idempotency_key r"
  by (simp_all add: Job.truncate_def)

lemma pg_distinct: "pg_inv s \<Longrightarrow> distinct (map j_id (pg_jobs s))"
  by (simp add: pg_inv_def jobs_ok_def)

lemma row_at_update_jobs:
  "keeps_identity f \<Longrightarrow> row_at j_id (update_jobs now P f t) i =
     map_option (\<lambda>r. if P r then (f r)\<lparr>j_updated_at := now\<rparr> else r) (row_at j_id t i)"
  unfolding update_jobs_def by (rule row_at_update) (simp add: keeps_identity_def)

lemma held_by_pg:
  "held_by (pg_stored s) w i \<longleftrightarrow> (\<exists>r. row_at j_id (pg_jobs s) i = Some r \<and> held_row i w r)"
  by (auto simp: held_by_def pg_stored_def held_row_def dest: row_at_SomeD)

section \<open>Leasing\<close>

lemma set_pg_order [simp]: "set (pg_order policy t) = set t"
  by (cases policy) simp_all

lemma distinct_pg_order: "distinct (map j_id t) \<Longrightarrow> distinct (map j_id (pg_order policy t))"
  by (cases policy) (simp_all add: distinct_map_sort)

lemma pg_order_Nil [simp]: "pg_order policy t = [] \<longleftrightarrow> t = []"
  by (metis set_empty set_pg_order)

lemma pg_candidates_set:
  "r \<in> set (pg_candidates now d q n policy t) \<Longrightarrow> r \<in> set t \<and> j_dataset_id r = d \<and> pg_due now q r"
  unfolding pg_candidates_def using set_sql_limit by fastforce

lemma expire_identity:
  "keeps_identity (\<lambda>r. r\<lparr>j_status := ''dlq'', j_dlq_reason_code := c, j_dlq_at := t\<rparr>)"
  by (simp add: keeps_identity_def)

text \<open>Deadlines: a row is unchanged, or it was waiting in the queue and is dead-lettered now.\<close>

lemma pg_expire_row:
  "row_at j_id (pg_expire_deadlines now q t) k =
     map_option (\<lambda>r. if pg_due now q r \<and> pg_past_deadline now r
        then r\<lparr>j_status := ''dlq'', j_dlq_reason_code := Some ''DEADLINE_EXCEEDED'', j_dlq_at := Some now,
               j_updated_at := now\<rparr> else r) (row_at j_id t k)"
  unfolding pg_expire_deadlines_def by (subst row_at_update_jobs[OF expire_identity]) simp

lemma pg_expire_ids [simp]: "map j_id (pg_expire_deadlines now q t) = map j_id t"
  by (simp add: pg_expire_deadlines_def)

lemma pg_expire_due:
  assumes "row_at j_id (pg_expire_deadlines now q t) k = Some r" "j_status r = ''queued''"
  shows "row_at j_id t k = Some r"
  using assms unfolding pg_expire_row by (auto split: if_splits)

lemma key_image_filter: "key ` set (filter (\<lambda>r. key r \<in> I) t) = key ` set t \<inter> I"
  by auto

text \<open>What the leasing statement does to the table, and what it returns.\<close>

lemma pg_lease_batch_rows:
  assumes dist: "distinct (map j_id t)" and C: "\<forall>r \<in> set C. r \<in> set t \<and> pg_due now q r"
    and t': "t' = update_jobs now (\<lambda>r. j_id r \<in> j_id ` set C) (pg_lock_row now w ls) t"
    and js: "js = map job_of (pg_order policy (filter (\<lambda>r. j_id r \<in> j_id ` set C) t'))"
  shows "distinct (map j_id js)" "j_id ` set js = j_id ` set C"
    "\<And>j. j \<in> set js \<Longrightarrow> \<exists>r. row_at j_id t (j_id j) = Some r \<and> r \<in> set C
       \<and> row_at j_id t' (j_id j) = Some ((pg_lock_row now w ls r)\<lparr>j_updated_at := now\<rparr>)
       \<and> j = job_of ((pg_lock_row now w ls r)\<lparr>j_updated_at := now\<rparr>)"
    "\<And>k. k \<notin> j_id ` set js \<Longrightarrow> row_at j_id t' k = row_at j_id t k"
proof -
  have dist': "distinct (map j_id t')"
    using dist by (simp add: t' keeps_identityD[OF row_functions(3)])
  have "map j_id js = map j_id (pg_order policy (filter (\<lambda>r. j_id r \<in> j_id ` set C) t'))"
    by (simp add: js)
  then show "distinct (map j_id js)" using distinct_pg_order distinct_map_filter[OF dist'] by metis
  have row': "row_at j_id t' k = map_option (\<lambda>r. if j_id r \<in> j_id ` set C
      then (pg_lock_row now w ls r)\<lparr>j_updated_at := now\<rparr> else r) (row_at j_id t k)" for k
    unfolding t' by (rule row_at_update_jobs[OF row_functions(3)])
  have "j_id ` set t' = j_id ` set t" by (simp add: t' keeps_identityD[OF row_functions(3)])
  moreover have "j_id ` set C \<subseteq> j_id ` set t" using C by blast
  moreover have "j_id ` set js = j_id ` set t' \<inter> j_id ` set C"
    by (simp only: js set_map image_image job_of_sel set_pg_order key_image_filter)
  ultimately show ids: "j_id ` set js = j_id ` set C" by (simp only: Int_absorb1)
  show "row_at j_id t' k = row_at j_id t k" if "k \<notin> j_id ` set js" for k
  proof (cases "row_at j_id t k")
    case (Some r)
    then show ?thesis using that ids row'[of k] by (auto dest: row_at_SomeD)
  qed (simp add: row')
  show "\<exists>r. row_at j_id t (j_id j) = Some r \<and> r \<in> set C
       \<and> row_at j_id t' (j_id j) = Some ((pg_lock_row now w ls r)\<lparr>j_updated_at := now\<rparr>)
       \<and> j = job_of ((pg_lock_row now w ls r)\<lparr>j_updated_at := now\<rparr>)" if j: "j \<in> set js" for j
  proof -
    obtain r' where r': "r' \<in> set t'" "j = job_of r'" using j by (auto simp: js)
    then have here: "row_at j_id t' (j_id j) = Some r'" using row_at_unique[OF dist'] by simp
    have in_C: "j_id j \<in> j_id ` set C" using j ids by blast
    then obtain r where r: "r \<in> set C" "j_id r = j_id j" by auto
    then have "r \<in> set t" using C by blast
    then have old: "row_at j_id t (j_id j) = Some r" using row_at_unique[OF dist] r(2) by blast
    then have "row_at j_id t' (j_id j) = Some ((pg_lock_row now w ls r)\<lparr>j_updated_at := now\<rparr>)"
      using row'[of "j_id j"] in_C by (simp only: option.map r(2) if_True)
    with here have "r' = (pg_lock_row now w ls r)\<lparr>j_updated_at := now\<rparr>" by simp
    then show ?thesis using old r(1) here r'(2) by blast
  qed
qed

lemma pg_lease_free:
  assumes "pg_policies s = []" "fits_int4 ls"
  shows "pg_lease_jobs_batch_with_ordering env q w ls bs policy s =
    (let t = pg_expire_deadlines (pg_now env) q (pg_jobs s)
     in case pg_pick_dataset (pg_now env) q t of
          None \<Rightarrow> (Inr [], s\<lparr>pg_jobs := t\<rparr>)
        | Some d \<Rightarrow> pg_lease_batch env d q w ls (clamp 1 4096 bs) policy (s\<lparr>pg_jobs := t\<rparr>))"
  using assms
  by (simp add: pg_lease_jobs_batch_with_ordering_def transaction_def pg_lease_unexpired_def Let_def
      pg_lease_batch_def split: option.split)

lemma pg_lease_shape:
  assumes "pg_free_inv s" "fits_int4 ls"
  obtains C js s' t t' where
    "t = pg_expire_deadlines (pg_now env) q (pg_jobs s)" "distinct (map j_id t)"
    "C = (case pg_pick_dataset (pg_now env) q t of None \<Rightarrow> []
          | Some d \<Rightarrow> pg_candidates (pg_now env) d q (clamp 1 4096 bs) policy t)"
    "\<forall>r \<in> set C. r \<in> set t \<and> pg_due (pg_now env) q r"
    "t' = update_jobs (pg_now env) (\<lambda>r. j_id r \<in> j_id ` set C) (pg_lock_row (pg_now env) w ls) t"
    "js = map job_of (pg_order policy (filter (\<lambda>r. j_id r \<in> j_id ` set C) t'))"
    "s' = s\<lparr>pg_jobs := t'\<rparr>"
    "pg_lease_jobs_batch_with_ordering env q w ls bs policy s = (Inr js, s')"
proof -
  let ?now = "pg_now env" and ?n = "clamp 1 4096 bs"
  define t where "t = pg_expire_deadlines ?now q (pg_jobs s)"
  have inv: "pg_inv s" "pg_policies s = []" using assms(1) by (simp_all add: pg_free_inv_def)
  have dist: "distinct (map j_id t)" using pg_distinct[OF inv(1)] by (simp add: t_def)
  show thesis
  proof (cases "pg_pick_dataset ?now q t")
    case None
    have "update_jobs ?now (\<lambda>r. j_id r \<in> j_id ` set []) (pg_lock_row ?now w ls) t = t"
      by (simp add: update_jobs_def update_none)
    then show thesis
      using that[of t "[]" t "[]" "s\<lparr>pg_jobs := t\<rparr>"] dist None pg_lease_free[OF inv(2) assms(2)]
      by (simp add: t_def Let_def)
  next
    case (Some d)
    then show thesis
      using that[OF t_def dist _ _ refl refl refl] pg_lease_free[OF inv(2) assms(2), of env q w bs policy]
        pg_candidates_set[of _ ?now d q ?n policy t] assms(2)
      by (simp add: t_def[symmetric] Let_def pg_lease_batch_def)
  qed
qed

lemma pg_used_jobs:
  "j_id ` set t = j_id ` set (pg_jobs s) \<Longrightarrow> pg_used (s\<lparr>pg_jobs := t\<rparr>) = pg_used s"
  by (simp add: pg_used_def)

lemma postgres_lease_law:
  assumes inv: "pg_free_inv s" and ls: "fits_int4 ls"
  shows "\<exists>js s'. pg_lease_jobs_batch_with_ordering env q w ls bs policy s = (Inr js, s')
        \<and> pg_free_inv s' \<and> distinct (map j_id js) \<and> pg_used s' = pg_used s \<and> pg_opened s' = pg_opened s
        \<and> (\<forall>j \<in> set js. pg_stored s' (j_id j) = Some j \<and> held_by (pg_stored s') w (j_id j)
             \<and> pg_located s' (j_dataset_id j) (j_id j)
             \<and> (\<exists>old. pg_stored s (j_id j) = Some old \<and> j_status old = ''queued''
                    \<and> j_queue old = q \<and> j_job_type j = j_job_type old
                    \<and> j_recurring_interval_seconds j = j_recurring_interval_seconds old))
        \<and> (\<forall>k. k \<notin> j_id ` set js \<longrightarrow>
             pg_stored s' k = pg_stored s k
             \<or> k \<in> waiting (pg_stored s) q \<and> status_of (pg_stored s') k = Some ''dlq'')"
proof -
  obtain C js s' t t' where st:
    "t = pg_expire_deadlines (pg_now env) q (pg_jobs s)" "distinct (map j_id t)"
    "\<forall>r \<in> set C. r \<in> set t \<and> pg_due (pg_now env) q r"
    "t' = update_jobs (pg_now env) (\<lambda>r. j_id r \<in> j_id ` set C) (pg_lock_row (pg_now env) w ls) t"
    "js = map job_of (pg_order policy (filter (\<lambda>r. j_id r \<in> j_id ` set C) t'))"
    "s' = s\<lparr>pg_jobs := t'\<rparr>"
    "pg_lease_jobs_batch_with_ordering env q w ls bs policy s = (Inr js, s')"
    by (rule pg_lease_shape[OF inv ls])
  note rows = pg_lease_batch_rows[OF st(2) st(3) st(4) st(5)]
  have "pg_inv s" "pg_policies s = []" using inv by (simp_all add: pg_free_inv_def)
  then have inv': "pg_free_inv s'"
    using pg_lease_inv[of s env q w ls bs policy] st(6,7) by (simp add: pg_free_inv_def)
  have ids: "j_id ` set t' = j_id ` set (pg_jobs s)"
    by (simp add: st(1,4) keeps_identityD[OF row_functions(3)] pg_expire_deadlines_def)
  have in_js: "pg_stored s' (j_id j) = Some j \<and> held_by (pg_stored s') w (j_id j)
      \<and> pg_located s' (j_dataset_id j) (j_id j)
      \<and> (\<exists>old. pg_stored s (j_id j) = Some old \<and> j_status old = ''queued''
             \<and> j_queue old = q \<and> j_job_type j = j_job_type old
             \<and> j_recurring_interval_seconds j = j_recurring_interval_seconds old)" if j: "j \<in> set js" for j
  proof -
    obtain r where r: "row_at j_id t (j_id j) = Some r" "r \<in> set C"
      "row_at j_id t' (j_id j) = Some ((pg_lock_row (pg_now env) w ls r)\<lparr>j_updated_at := pg_now env\<rparr>)"
      "j = job_of ((pg_lock_row (pg_now env) w ls r)\<lparr>j_updated_at := pg_now env\<rparr>)"
      using rows(3)[OF j] by blast
    have due: "j_status r = ''queued''" "j_queue r = q" using st(3) r(2) by (auto simp: pg_due_def)
    have "row_at j_id (pg_jobs s) (j_id j) = Some r"
      using pg_expire_due[of "pg_now env" q "pg_jobs s"] r(1) due(1) by (simp add: st(1))
    then have "pg_stored s (j_id j) = Some (job_of r)" by (simp add: pg_stored_def)
    moreover have "pg_stored s' (j_id j) = Some j" using r(3,4) by (simp add: pg_stored_def st(6))
    moreover have "pg_located s' (j_dataset_id j) (j_id j)"
      using r(3,4) by (simp add: pg_located_def st(6))
    ultimately show ?thesis using due r(4) by (auto simp: held_by_def pg_lock_row_def)
  qed
  have "pg_stored s' k = pg_stored s k
      \<or> k \<in> waiting (pg_stored s) q \<and> status_of (pg_stored s') k = Some ''dlq''"
    if "k \<notin> j_id ` set js" for k
    using rows(4)[OF that]
    by (cases "row_at j_id (pg_jobs s) k")
       (auto simp: pg_stored_def st(1,6) pg_expire_row waiting_def status_of_def pg_due_def)
  then show ?thesis
    using st(7) inv' rows(1) in_js pg_used_jobs[OF ids] by (auto simp: st(6) pg_opened_def fun_eq_iff)
qed

section \<open>Starting attempts\<close>

lemma next_no_above:
  assumes "a \<in> set t" "at_dataset_id a = d" "at_job_id a = i"
  shows "at_attempt_no a < pg_next_attempt_no d i t"
proof -
  let ?N = "at_attempt_no ` set (filter (\<lambda>a. at_dataset_id a = d \<and> at_job_id a = i) t)"
  have in_N: "at_attempt_no a \<in> ?N" using assms by auto
  then have "at_attempt_no a \<le> Max ?N" by (intro Max_ge) simp_all
  moreover have "filter (\<lambda>a. at_dataset_id a = d \<and> at_job_id a = i) t \<noteq> []"
    using assms by (auto simp: filter_empty_conv)
  ultimately show ?thesis by (simp add: pg_next_attempt_no_def Let_def)
qed

lemma started_rows_all:
  assumes "\<forall>(d, i) \<in> set input. list_ex (claimed_row d i w) (pg_jobs s)"
  shows "map at_id (started_rows env w input s) = map (e_fresh env) [0..<length input]"
    "map at_job_id (started_rows env w input s) = map snd input"
    "a \<in> set (started_rows env w input s) \<Longrightarrow> (at_dataset_id a, at_job_id a) \<in> set input
       \<and> at_attempt_no a = pg_next_attempt_no (at_dataset_id a) (at_job_id a) (pg_attempts s)
       \<and> at_status a = ''running''"
proof -
  let ?row = "\<lambda>k (d, i). attempt_row (pg_now env) (e_fresh env k) d i (pg_next_attempt_no d i (pg_attempts s)) w"
  have rows: "started_rows env w input s = map2 ?row [0..<length input] input"
    using filter_id_conv[of "\<lambda>(d, i). list_ex (claimed_row d i w) (pg_jobs s)" input] assms
    by (simp add: started_rows_def)
  show "map at_id (started_rows env w input s) = map (e_fresh env) [0..<length input]"
    "map at_job_id (started_rows env w input s) = map snd input"
    unfolding rows by (rule nth_equalityI; simp add: case_prod_beta)+
  show "(at_dataset_id a, at_job_id a) \<in> set input
      \<and> at_attempt_no a = pg_next_attempt_no (at_dataset_id a) (at_job_id a) (pg_attempts s)
      \<and> at_status a = ''running''" if "a \<in> set (started_rows env w input s)"
    using that unfolding rows by (auto dest: set_zip_rightD)
qed

lemma held_claimed:
  assumes "held_by (pg_stored s) w i" "pg_located s d i"
  shows "list_ex (claimed_row d i w) (pg_jobs s)" "belongs (pg_jobs s) d i"
  using assms
  by (auto simp: held_by_pg pg_located_def claimed_row_def held_row_def belongs_def list_ex_iff
      dest: row_at_SomeD)

text \<open>An attempt of a job lies in the dataset of the job.\<close>

lemma attempt_dataset:
  assumes inv: "pg_inv s" and a: "a \<in> set (pg_attempts s)" and loc: "pg_located s d (at_job_id a)"
  shows "at_dataset_id a = d"
proof -
  have "belongs (pg_jobs s) (at_dataset_id a) (at_job_id a)"
    using pg_inv_parts(2)[OF inv] a by (simp add: pg_attempts_ok_def list_all_iff)
  then obtain r where r: "r \<in> set (pg_jobs s)" "j_dataset_id r = at_dataset_id a" "j_id r = at_job_id a"
    by (auto simp: belongs_def list_ex_iff)
  then have "row_at j_id (pg_jobs s) (at_job_id a) = Some r"
    using row_at_unique[OF pg_distinct[OF inv]] by blast
  then show ?thesis using loc r(2) by (simp add: pg_located_def)
qed

lemma pg_start_inserts:
  assumes inv: "pg_inv s" and inj: "inj (e_fresh env)" and new: "range (e_fresh env) \<inter> pg_used s = {}"
    and h: "\<forall>(d, i) \<in> set input. held_by (pg_stored s) w i \<and> pg_located s d i"
    and dist: "distinct (map snd input)"
  shows "pg_insert_attempts (started_rows env w input s) s =
    Inr (s\<lparr>pg_attempts := pg_attempts s @ started_rows env w input s\<rparr>)"
proof -
  let ?rows = "started_rows env w input s"
  have "\<forall>(d, i) \<in> set input. list_ex (claimed_row d i w) (pg_jobs s)" using h held_claimed(1) by fast
  note rows = started_rows_all[OF this, where env = env]
  have att: "distinct (map at_id (pg_attempts s))" "distinct (map attempt_key (pg_attempts s))"
    using pg_inv_parts(2)[OF inv] by (simp_all add: pg_attempts_ok_def)
  have fk: "list_all (\<lambda>a. belongs (pg_jobs s) (at_dataset_id a) (at_job_id a)) ?rows"
    using rows(3) h held_claimed(2) by (fastforce simp: list_all_iff)
  have "at_id ` set ?rows \<subseteq> range (e_fresh env)" using arg_cong[OF rows(1), of set] by auto
  then have "at_id ` set (pg_attempts s) \<inter> at_id ` set ?rows = {}" using new by (auto simp: pg_used_def)
  moreover have "distinct (map at_id ?rows)" unfolding rows(1) using inj by (simp add: distinct_map inj_on_def)
  ultimately have pk: "distinct (map at_id (pg_attempts s @ ?rows))" using att(1) by simp
  have "attempt_key b \<notin> attempt_key ` set (pg_attempts s)" if b: "b \<in> set ?rows" for b
  proof
    assume "attempt_key b \<in> attempt_key ` set (pg_attempts s)"
    then obtain a where a: "a \<in> set (pg_attempts s)" "at_job_id a = at_job_id b" "at_attempt_no a = at_attempt_no b"
      by (auto simp: attempt_key_def)
    have "pg_located s (at_dataset_id b) (at_job_id a)" using rows(3)[OF b] h a(2) by fastforce
    then have "at_dataset_id a = at_dataset_id b" by (rule attempt_dataset[OF inv a(1)])
    then show False using next_no_above[OF a(1) _ a(2)] a(3) rows(3)[OF b] by fastforce
  qed
  then have "attempt_key ` set (pg_attempts s) \<inter> attempt_key ` set ?rows = {}" by (rule disjoint_images)
  moreover have "map fst (map attempt_key ?rows) = map snd input"
    unfolding rows(2)[symmetric] by (simp add: attempt_key_def)
  then have "distinct (map attempt_key ?rows)" using dist by (metis distinct_map)
  ultimately have uq: "distinct (map attempt_key (pg_attempts s @ ?rows))" using att(2) by simp
  show ?thesis using fk pk uq by (simp add: pg_insert_attempts_def Let_def)
qed

lemma postgres_start_law:
  assumes inv: "pg_free_inv s" and inj: "inj (e_fresh env)" and new: "range (e_fresh env) \<inter> pg_used s = {}"
    and h: "\<forall>i \<in> set is. held_by (pg_stored s) w i" and dist: "distinct is"
    and loc: "list_all2 (pg_located s) ds is"
  shows "\<exists>rs s'. pg_start_attempts_batch env ds is w s = (Inr rs, s')
        \<and> pg_free_inv s' \<and> map fst rs = is \<and> pg_stored s' = pg_stored s
        \<and> (\<forall>(i, a, n) \<in> set rs. pg_opened s' a i)
        \<and> pg_used s' \<subseteq> pg_used s \<union> range (e_fresh env)"
proof (cases "is = []")
  case True
  then show ?thesis using loc inv by (auto simp: pg_start_attempts_batch_def)
next
  case False
  let ?input = "zip ds is" and ?rows = "started_rows env w (zip ds is) s"
  define s' where "s' = s\<lparr>pg_attempts := pg_attempts s @ ?rows\<rparr>"
  have len: "length ds = length is" using loc by (rule list_all2_lengthD)
  have inv0: "pg_inv s" "pg_policies s = []" using inv by (simp_all add: pg_free_inv_def)
  have input: "\<forall>(d, i) \<in> set ?input. held_by (pg_stored s) w i \<and> pg_located s d i"
    using loc h by (auto simp: list_all2_iff dest: set_zip_rightD)
  then have "\<forall>(d, i) \<in> set ?input. list_ex (claimed_row d i w) (pg_jobs s)" using held_claimed(1) by fast
  note rows = started_rows_all[OF this, where env = env]
  have ins: "pg_insert_attempts ?rows s = Inr s'"
    unfolding s'_def using pg_start_inserts[OF inv0(1) inj new input] dist len by simp
  let ?rs = "map (\<lambda>a. (at_job_id a, at_id a, at_attempt_no a)) ?rows"
  have rlen: "length ?rows = length is" using arg_cong[OF rows(2), of length] len by simp
  have run: "pg_start_attempts_batch env ds is w s = (Inr ?rs, s')"
    using False len ins rlen by (auto simp: pg_start_attempts_batch_def Let_def)
  have "map fst ?rs = map at_job_id ?rows" by simp
  then have fsts: "map fst ?rs = is" unfolding rows(2) using len by simp
  have open_att: "pg_opened s' a i" if "(i, a, n) \<in> set ?rs" for i a n
    using that rows(3) by (auto simp: pg_opened_def s'_def running_attempt_def list_ex_iff)
  have "at_id ` set ?rows \<subseteq> range (e_fresh env)" using arg_cong[OF rows(1), of set] by auto
  then have used: "pg_used s' \<subseteq> pg_used s \<union> range (e_fresh env)" by (auto simp: pg_used_def s'_def)
  have "pg_free_inv s'"
    using pg_insert_attempts_inv[OF inv0(1) ins started_rows_ok] inv0(2) by (simp add: pg_free_inv_def s'_def)
  then show ?thesis
    using run fsts open_att used by (auto simp: pg_stored_def s'_def fun_eq_iff)
qed

section \<open>Outcomes\<close>

lemma pg_open_one:
  assumes "pg_inv s" "pg_opened s a i"
  shows "rows_affected (running_attempt a i) (pg_attempts s) = 1"
proof -
  have dist: "distinct (map at_id (pg_attempts s))"
    using pg_inv_parts(2)[OF assms(1)] by (simp add: pg_attempts_ok_def)
  obtain x where x: "x \<in> set (pg_attempts s)" "running_attempt a i x"
    using assms(2) by (auto simp: pg_opened_def list_ex_iff)
  then have "row_at at_id (pg_attempts s) a = Some x"
    using row_at_unique[OF dist] by (simp add: running_attempt_def)
  then show ?thesis
    using affected_key[OF dist, of a "\<lambda>y. at_job_id y = i \<and> at_status y = ''running''"] x(2)
    by (simp add: running_attempt_def[abs_def])
qed

lemma filter_key:
  "distinct (map key t) \<Longrightarrow> row_at key t i = Some r \<Longrightarrow> Q r \<Longrightarrow> filter (\<lambda>x. key x = i \<and> Q x) t = [r]"
proof (induction t)
  case (Cons y t)
  then show ?case by (cases "key y = i") (auto simp: row_at_Cons filter_empty_conv image_iff)
qed simp

lemma pg_held_filter:
  assumes "pg_inv s" "row_at j_id (pg_jobs s) i = Some r" "held_row i w r"
  shows "filter (held_row i w) (pg_jobs s) = [r]"
  using filter_key[OF pg_distinct[OF assms(1)] assms(2), of "\<lambda>r. j_locked_by r = Some w \<and> j_status r = ''running''"]
    assms(3) by (simp add: held_row_def[abs_def])

lemma pg_opened_frame:
  assumes "k \<noteq> i" "pg_opened s b k" "pg_attempts s' = sql_update (running_attempt a i) f (pg_attempts s)"
  shows "pg_opened s' b k"
proof -
  obtain x where x: "x \<in> set (pg_attempts s)" "running_attempt b k x"
    using assms(2) by (auto simp: pg_opened_def list_ex_iff)
  then have "\<not> running_attempt a i x" using assms(1) by (simp add: running_attempt_def)
  then have "x \<in> set (pg_attempts s')" using x(1) by (simp add: assms(3) set_update)
  then show ?thesis using x(2) by (auto simp: pg_opened_def list_ex_iff)
qed

lemma attempt_ids_update:
  "(\<And>a. at_id (f a) = at_id a) \<Longrightarrow> at_id ` set (sql_update P f t) = at_id ` set t"
  by (metis list.set_map map_key_update)

lemma pg_stored_one:
  assumes "keeps_identity g" "row_at j_id (pg_jobs s) i = Some r" "\<And>x. P x \<Longrightarrow> j_id x = i" "P r"
    and "pg_jobs s' = update_jobs now P g (pg_jobs s)"
  shows "pg_stored s' k = (if k = i then Some (job_of ((g r)\<lparr>j_updated_at := now\<rparr>)) else pg_stored s k)"
proof (cases "row_at j_id (pg_jobs s) k")
  case (Some r')
  have upd: "pg_stored s' k = Some (job_of (if P r' then (g r')\<lparr>j_updated_at := now\<rparr> else r'))"
    by (simp add: pg_stored_def assms(5) row_at_update_jobs[OF assms(1)] Some)
  show ?thesis
  proof (cases "k = i")
    case True
    then show ?thesis using upd Some assms(2,4) by simp
  next
    case False
    then have "\<not> P r'" using row_at_SomeD[OF Some] assms(3) by blast
    then show ?thesis using upd False Some by (simp add: pg_stored_def)
  qed
qed (use assms(2) in \<open>auto simp: pg_stored_def assms(5) row_at_update_jobs[OF assms(1)]\<close>)

lemma held_row_id: "held_row i w x \<Longrightarrow> j_id x = i"
  by (simp add: held_row_def)

lemma postgres_settle_law:
  assumes inv: "pg_free_inv s" and h: "held_by (pg_stored s) w i" and a: "pg_opened s a i"
    and f: "\<And>r. at_id (f r) = at_id r" and g: "keeps_identity g" "\<And>r. j_status (g r) = st"
    and res: "res = transaction (\<lambda>s. case pg_close_attempt (running_attempt a i) f e1 s of
         (Inl e, s1) \<Rightarrow> (Inl e, s1)
       | (Inr _, s1) \<Rightarrow> discard (pg_settle env (held_row i w) g 1 e2) s1) s"
    and keeps: "pg_inv (snd res)"
  shows "\<exists>s'. res = (Inr (), s') \<and> pg_free_inv s' \<and> status_of (pg_stored s') i = Some st
        \<and> (\<forall>k. k \<noteq> i \<longrightarrow> pg_stored s' k = pg_stored s k)
        \<and> (\<forall>a' k. k \<noteq> i \<longrightarrow> pg_opened s a' k \<longrightarrow> pg_opened s' a' k)
        \<and> pg_used s' = pg_used s"
proof -
  have inv0: "pg_inv s" "pg_policies s = []" using inv by (simp_all add: pg_free_inv_def)
  obtain r where r: "row_at j_id (pg_jobs s) i = Some r" "held_row i w r" using h by (auto simp: held_by_pg)
  define s' where "s' = s\<lparr>pg_attempts := sql_update (running_attempt a i) f (pg_attempts s),
      pg_jobs := update_jobs (pg_now env) (held_row i w) g (pg_jobs s)\<rparr>"
  have run: "res = (Inr (), s')"
    using pg_open_one[OF inv0(1) a] pg_held_filter[OF inv0(1) r]
    by (simp add: res transaction_def pg_close_attempt_def pg_settle_def discard_def rows_affected_def s'_def)
  have stored: "pg_stored s' k = (if k = i then Some (job_of ((g r)\<lparr>j_updated_at := pg_now env\<rparr>)) else pg_stored s k)" for k
    by (rule pg_stored_one[where P = "held_row i w", OF g(1) r(1) held_row_id r(2)]) (simp_all add: s'_def)
  have "pg_used s' = pg_used s"
    by (simp add: pg_used_def s'_def attempt_ids_update[OF f] keeps_identityD[OF g(1)])
  moreover have "pg_opened s' b k" if "k \<noteq> i" "pg_opened s b k" for b k
    using pg_opened_frame[OF that] by (simp add: s'_def)
  moreover have "status_of (pg_stored s') i = Some st" using stored[of i] g(2) by (simp add: status_of_def)
  moreover have "pg_free_inv s'" using keeps run inv0(2) by (simp add: pg_free_inv_def s'_def)
  ultimately show ?thesis using run stored by auto
qed

lemma postgres_retry_law:
  assumes "pg_free_inv s" "held_by (pg_stored s) w i" "pg_opened s a i"
  shows "\<exists>s'. pg_reschedule_for_retry env i a w l t c m n s = (Inr (), s') \<and> pg_free_inv s'
        \<and> status_of (pg_stored s') i = Some ''queued''
        \<and> (\<forall>k. k \<noteq> i \<longrightarrow> pg_stored s' k = pg_stored s k)
        \<and> (\<forall>a' k. k \<noteq> i \<longrightarrow> pg_opened s a' k \<longrightarrow> pg_opened s' a' k)
        \<and> pg_used s' = pg_used s"
  by (rule postgres_settle_law[OF assms _ settled_rows(1) _ fun_cong[OF pg_reschedule_for_retry_def]])
     (use assms(1) in \<open>simp_all add: pg_free_inv_def pg_outcome_inv\<close>)

lemma postgres_dlq_law:
  assumes "pg_free_inv s" "held_by (pg_stored s) w i" "pg_opened s a i"
  shows "\<exists>s'. pg_mark_dlq env i a w l r c m n s = (Inr (), s') \<and> pg_free_inv s'
        \<and> status_of (pg_stored s') i = Some ''dlq''
        \<and> (\<forall>k. k \<noteq> i \<longrightarrow> pg_stored s' k = pg_stored s k)
        \<and> (\<forall>a' k. k \<noteq> i \<longrightarrow> pg_opened s a' k \<longrightarrow> pg_opened s' a' k)
        \<and> pg_used s' = pg_used s"
  by (rule postgres_settle_law[OF assms _ settled_rows(3) _ fun_cong[OF pg_mark_dlq_def]])
     (use assms(1) in \<open>simp_all add: pg_free_inv_def pg_outcome_inv\<close>)

lemma pg_insert_next_runs:
  assumes "opt_int4 (j_timeout_seconds job)" "opt_int4 (j_recurring_interval_seconds job)"
    "e_fresh env 0 \<notin> j_id ` set t"
  shows "pg_insert_next stamp env job t = Inr (case j_recurring_interval_seconds job of
     None \<Rightarrow> t | Some n \<Rightarrow> t @ [next_row stamp env job n])"
  using assms
  by (auto simp: pg_insert_next_def opt_int4_def pg_insert_job_def same_job_def key_conflict_def list_ex_iff
      next_row_def Let_def image_iff split: option.split)

text \<open>Success of a held job with an open attempt: the tables afterwards.\<close>

lemma pg_succeed_runs:
  assumes inv: "pg_inv s" and r: "row_at j_id (pg_jobs s) i = Some r" "held_row i w r"
    and a: "pg_opened s a i" and new: "e_fresh env 0 \<notin> pg_used s"
  shows "pg_mark_succeeded stamp env i a w l s = (Inr (),
    s\<lparr>pg_attempts := sql_update (running_attempt a i) (pg_succeed_attempt (pg_now env) l) (pg_attempts s),
      pg_jobs := update_jobs (pg_now env) (held_row i w) succeeded_row (pg_jobs s)
        @ (case j_recurring_interval_seconds r of None \<Rightarrow> []
           | Some n \<Rightarrow> [next_row stamp env ((succeeded_row r)\<lparr>j_updated_at := pg_now env\<rparr>) n])\<rparr>)"
proof -
  let ?job = "(succeeded_row r)\<lparr>j_updated_at := pg_now env\<rparr>"
  let ?t = "update_jobs (pg_now env) (held_row i w) succeeded_row (pg_jobs s)"
  have "pg_job_ok r"
    using pg_inv_parts(1)[OF inv] r(1) by (auto simp: jobs_ok_def list_all_iff dest: row_at_SomeD)
  then have "opt_int4 (j_timeout_seconds ?job)" "opt_int4 (j_recurring_interval_seconds ?job)"
    by (simp_all add: pg_job_ok_def succeeded_row_def)
  moreover have "e_fresh env 0 \<notin> j_id ` set ?t"
    using new by (simp add: pg_used_def keeps_identityD[OF row_functions(2)])
  ultimately have "pg_insert_next stamp env ?job ?t = Inr (case j_recurring_interval_seconds ?job of
     None \<Rightarrow> ?t | Some n \<Rightarrow> ?t @ [next_row stamp env ?job n])" by (rule pg_insert_next_runs)
  then have "pg_insert_next stamp env ?job ?t = Inr (?t @ (case j_recurring_interval_seconds r of
     None \<Rightarrow> [] | Some n \<Rightarrow> [next_row stamp env ?job n]))"
    by (simp add: succeeded_row_def split: option.split)
  then show ?thesis
    using pg_open_one[OF inv a] pg_held_filter[OF inv r]
    by (simp add: pg_mark_succeeded_def transaction_def pg_close_attempt_def Let_def)
qed

lemma row_at_append:
  "row_at key (t @ u) i = (case row_at key t i of Some x \<Rightarrow> Some x | None \<Rightarrow> row_at key u i)"
  by (induction t) (simp_all add: row_at_Cons)

lemma next_row_id [simp]: "j_id (next_row stamp env job n) = e_fresh env 0"
  by (simp add: next_row_def Let_def)

lemma postgres_succeed_law:
  assumes inv: "pg_free_inv s" and h: "held_by (pg_stored s) w i" and a: "pg_opened s a i"
    and fresh: "e_fresh env 0 \<notin> pg_used s"
  shows "\<exists>s'. pg_mark_succeeded stamp env i a w l s = (Inr (), s') \<and> pg_free_inv s'
        \<and> status_of (pg_stored s') i = Some ''succeeded''
        \<and> (\<forall>k. k \<noteq> i \<longrightarrow> k \<noteq> e_fresh env 0 \<longrightarrow> pg_stored s' k = pg_stored s k)
        \<and> (\<forall>j. pg_stored s i = Some j \<longrightarrow> j_recurring_interval_seconds j = None \<longrightarrow> pg_used s' = pg_used s)
        \<and> (\<forall>a' k. k \<noteq> i \<longrightarrow> pg_opened s a' k \<longrightarrow> pg_opened s' a' k)
        \<and> pg_used s' \<subseteq> insert (e_fresh env 0) (pg_used s)"
proof -
  have inv0: "pg_inv s" "pg_policies s = []" using inv by (simp_all add: pg_free_inv_def)
  obtain r where r: "row_at j_id (pg_jobs s) i = Some r" "held_row i w r" using h by (auto simp: held_by_pg)
  define ext where "ext = (case j_recurring_interval_seconds r of None \<Rightarrow> []
      | Some n \<Rightarrow> [next_row stamp env ((succeeded_row r)\<lparr>j_updated_at := pg_now env\<rparr>) n])"
  let ?t = "update_jobs (pg_now env) (held_row i w) succeeded_row (pg_jobs s)"
  define s1 where "s1 = s\<lparr>pg_attempts := sql_update (running_attempt a i) (pg_succeed_attempt (pg_now env) l) (pg_attempts s),
      pg_jobs := ?t\<rparr>"
  define s' where "s' = s1\<lparr>pg_jobs := ?t @ ext\<rparr>"
  have run: "pg_mark_succeeded stamp env i a w l s = (Inr (), s')"
    using pg_succeed_runs[OF inv0(1) r a fresh] by (simp add: s'_def s1_def ext_def)
  have ids: "j_id ` set ext \<subseteq> {e_fresh env 0}" "j_recurring_interval_seconds r = None \<Longrightarrow> ext = []"
    by (auto simp: ext_def split: option.split)
  have s1: "pg_stored s1 k = (if k = i then Some (job_of ((succeeded_row r)\<lparr>j_updated_at := pg_now env\<rparr>)) else pg_stored s k)" for k
    by (rule pg_stored_one[where P = "held_row i w", OF row_functions(2) r(1) held_row_id r(2)]) (simp_all add: s1_def)
  have "row_at j_id ext k = None" if "k \<noteq> e_fresh env 0" for k
    using ids(1) that by (intro row_at_absent) auto
  then have ext: "pg_stored s' k = pg_stored s1 k" if "k \<noteq> e_fresh env 0" for k
    using that by (simp add: pg_stored_def s'_def s1_def row_at_append split: option.split)
  have ne: "i \<noteq> e_fresh env 0" using fresh row_at_SomeD[OF r(1)] unfolding pg_used_def by (metis UnI1 imageI)
  have used1: "pg_used s1 = pg_used s"
    by (simp add: pg_used_def s1_def attempt_ids_update keeps_identityD[OF row_functions(2)])
  have "pg_used s' = j_id ` set ext \<union> pg_used s1" by (auto simp: pg_used_def s'_def s1_def)
  then have used: "pg_used s' \<subseteq> insert (e_fresh env 0) (pg_used s)"
    "j_recurring_interval_seconds r = None \<Longrightarrow> pg_used s' = pg_used s" using used1 ids by auto
  have opened: "pg_opened s' b k" if "k \<noteq> i" "pg_opened s b k" for b k
    using pg_opened_frame[OF that] by (simp add: s'_def s1_def)
  have status: "status_of (pg_stored s') i = Some ''succeeded''"
    using ext[OF ne] s1[of i] by (simp add: status_of_def succeeded_row_def)
  have "pg_free_inv s'"
    using pg_succeed_inv[of s env stamp i a w l] inv0 fresh run
    by (simp add: pg_free_inv_def pg_fresh_def s'_def s1_def)
  then show ?thesis using run status ext s1 used opened r(1) by (auto simp: pg_stored_def)
qed

lemma postgres_extend_law:
  assumes inv: "pg_free_inv s"
  shows "pg_free_inv (snd (pg_extend_lease env i w ls s))
        \<and> (\<forall>k. k \<noteq> i \<longrightarrow> pg_stored (snd (pg_extend_lease env i w ls s)) k = pg_stored s k)
        \<and> (\<forall>j. pg_stored s i = Some j \<longrightarrow>
             (\<exists>e u. pg_stored (snd (pg_extend_lease env i w ls s)) i =
                 Some (j\<lparr>j_lock_expires_at := e, j_updated_at := u\<rparr>)))
        \<and> pg_opened (snd (pg_extend_lease env i w ls s)) = pg_opened s
        \<and> pg_used (snd (pg_extend_lease env i w ls s)) = pg_used s"
proof -
  let ?s = "snd (pg_extend_lease env i w ls s)"
  let ?f = "\<lambda>r. r\<lparr>j_lock_expires_at := Some (pg_now env + seconds ls)\<rparr>"
  have keep: "keeps_identity ?f" by (simp add: keeps_identity_def)
  have same: "\<exists>e u. j = j\<lparr>j_lock_expires_at := e, j_updated_at := u\<rparr>" for j :: Job
    by (intro exI[of _ "j_lock_expires_at j"] exI[of _ "j_updated_at j"]) simp
  have stored: "pg_stored ?s k = pg_stored s k \<or> k = i \<and> (\<exists>r. row_at j_id (pg_jobs s) k = Some r
      \<and> pg_stored ?s k = Some (job_of ((?f r)\<lparr>j_updated_at := pg_now env\<rparr>)))" for k
  proof (cases "row_at j_id (pg_jobs s) k")
    case (Some r)
    then have "j_id r = k" by (auto dest: row_at_SomeD)
    then show ?thesis
      using Some by (auto simp: pg_stored_def pg_extend_lease_def row_at_update_jobs[OF keep] held_row_def)
  qed (simp add: pg_stored_def pg_extend_lease_def row_at_update_jobs[OF keep])
  have "\<exists>e u. pg_stored ?s i = Some (j\<lparr>j_lock_expires_at := e, j_updated_at := u\<rparr>)"
    if j: "pg_stored s i = Some j" for j
  proof (cases "pg_stored ?s i = pg_stored s i")
    case True
    then show ?thesis using same[of j] j by simp
  next
    case False
    then obtain r where "row_at j_id (pg_jobs s) i = Some r"
      "pg_stored ?s i = Some (job_of ((?f r)\<lparr>j_updated_at := pg_now env\<rparr>))" using stored[of i] by blast
    then show ?thesis using j by (auto simp: pg_stored_def Job.truncate_def)
  qed
  moreover have "pg_opened ?s = pg_opened s" "pg_used ?s = pg_used s"
    by (simp_all add: pg_opened_def pg_used_def pg_extend_lease_def fun_eq_iff)
  moreover have "pg_free_inv ?s"
    using inv pg_extend_inv[of s env i w ls] by (simp add: pg_free_inv_def pg_extend_lease_def)
  ultimately show ?thesis using stored by blast
qed

section \<open>An empty batch\<close>

lemma pg_after_now:
  assumes "run_at mod 1000 = 0" "pg_now env < run_at"
  shows "e_now env < run_at"
proof -
  let ?k = "e_now env div 1000" and ?m = "run_at div 1000"
  have "pg_now env = 1000 * ?k" by (simp add: pg_now_def pg_timestamp_def minus_mod_eq_mult_div)
  moreover have "run_at = 1000 * ?m" using assms(1) by (simp add: mod_eq_0_iff_dvd)
  ultimately have "?k < ?m" using assms(2) by linarith
  moreover have "e_now env = 1000 * ?k + e_now env mod 1000" "e_now env mod 1000 < 1000" by simp_all
  ultimately show ?thesis using \<open>run_at = 1000 * ?m\<close> by linarith
qed

lemma pg_nothing_picked:
  assumes "(case pg_pick_dataset now q t of None \<Rightarrow> [] | Some d \<Rightarrow> pg_candidates now d q n policy t) = []"
    "0 < n" "r \<in> set t"
  shows "\<not> pg_due now q r"
proof (cases "sort_key (\<lambda>r. (j_run_at r, j_created_at r)) (filter (pg_due now q) t)")
  case Nil
  then have "set (filter (pg_due now q) t) = {}" by (metis set_empty set_sort)
  then show ?thesis using assms(3) by auto
next
  case (Cons x xs)
  then have "x \<in> set (filter (pg_due now q) t)" by (metis list.set_intros(1) set_sort)
  then have "filter (\<lambda>r. j_dataset_id r = j_dataset_id x \<and> pg_due now q r) t \<noteq> []"
    by (auto simp: filter_empty_conv)
  then show ?thesis
    using assms(1,2) Cons by (simp add: pg_pick_dataset_def pg_candidates_def sql_limit_Nil)
qed

lemma postgres_drained_law:
  assumes inv: "pg_free_inv s" and ls: "fits_int4 ls"
    and run: "pg_lease_jobs_batch_with_ordering env q w ls bs policy s = (Inr [], s')"
    and j: "pg_stored s' k = Some j" "j_status j = ''queued''" "j_queue j = q"
  shows "e_now env < j_run_at j"
proof -
  obtain C js s'' t t' where st:
    "t = pg_expire_deadlines (pg_now env) q (pg_jobs s)" "distinct (map j_id t)"
    "C = (case pg_pick_dataset (pg_now env) q t of None \<Rightarrow> []
          | Some d \<Rightarrow> pg_candidates (pg_now env) d q (clamp 1 4096 bs) policy t)"
    "\<forall>r \<in> set C. r \<in> set t \<and> pg_due (pg_now env) q r"
    "t' = update_jobs (pg_now env) (\<lambda>r. j_id r \<in> j_id ` set C) (pg_lock_row (pg_now env) w ls) t"
    "js = map job_of (pg_order policy (filter (\<lambda>r. j_id r \<in> j_id ` set C) t'))"
    "s'' = s\<lparr>pg_jobs := t'\<rparr>"
    "pg_lease_jobs_batch_with_ordering env q w ls bs policy s = (Inr js, s'')"
    by (rule pg_lease_shape[OF inv ls])
  have eq: "js = []" "s'' = s'" using st(8) run by simp_all
  then have C: "C = []" using pg_lease_batch_rows(2)[OF st(2) st(4) st(5) st(6)] by simp
  then have same: "t' = t" by (simp add: st(5) update_jobs_def update_none)
  have "pg_inv s'" using pg_lease_inv[of s env q w ls bs policy] inv run by (simp add: pg_free_inv_def)
  then have ok: "list_all pg_job_ok t" using st(7) eq(2) same by (auto simp: pg_inv_def jobs_ok_def)
  obtain r where r: "r \<in> set t" "j = job_of r"
    using j(1) st(7) eq(2) same by (auto simp: pg_stored_def dest: row_at_SomeD)
  have "0 < clamp 1 4096 bs" by (simp add: clamp_def)
  then have "\<not> pg_due (pg_now env) q r" using pg_nothing_picked[OF st(3)[symmetric, unfolded C] _ r(1)] by blast
  then have "pg_now env < j_run_at r" using j(2,3) r(2) by (simp add: pg_due_def)
  then show ?thesis using pg_after_now[of "j_run_at r" env] ok r by (simp add: list_all_iff pg_job_ok_def)
qed

section \<open>The contract holds\<close>

interpretation pb: job_backend "postgres_backend stamp" pg_free_inv pg_stored pg_opened pg_used
  pg_located fits_int4 for stamp
proof
  fix s i j
  assume inv: "pg_free_inv s"
  show "pg_stored s i = Some j \<Longrightarrow> i \<in> pg_used s"
    by (auto simp: pg_stored_def pg_used_def dest: row_at_SomeD)
  show "finite (pg_used s)" by (simp add: pg_used_def)
qed (unfold postgres_backend_def StorageBackend.simps,
     rule postgres_lease_law, assumption+,
     (rule postgres_start_law postgres_succeed_law postgres_retry_law postgres_dlq_law; assumption)+,
     rule postgres_extend_law, assumption,
     rule postgres_drained_law, assumption+)

end
