(* ===== verification/Postgres_Leasing.thy ===== *)
theory Postgres_Leasing
  imports Postgres_Contract
begin

text \<open>
  Leasing on the PostgreSQL storage in closed form: the statement with its common table
  expressions, its update and its second sort hands out the first due jobs of one dataset, and
  what the policy of a queue makes of a lease call.
\<close>

section \<open>Sorting and filtering\<close>

lemma sort_key_map_commute: "sort_key f (map g xs) = map g (sort_key (\<lambda>x. f (g x)) xs)"
proof (induction xs)
  case (Cons x xs)
  have "insort_key f (g x) (map g ys) = map g (insort_key (\<lambda>x. f (g x)) x ys)" for ys
    by (induction ys) simp_all
  then show ?case using Cons by simp
qed simp

lemma pg_order_map:
  assumes "\<And>r. j_priority (g r) = j_priority r" "\<And>r. j_run_at (g r) = j_run_at r"
    "\<And>r. j_created_at (g r) = j_created_at r" "\<And>r. j_id (g r) = j_id r"
  shows "pg_order policy (map g t) = map g (pg_order policy t)"
  by (cases policy) (simp_all add: sort_key_map_commute assms)

lemma pg_order_filter: "pg_order policy (filter P t) = filter P (pg_order policy t)"
  by (cases policy) (simp_all add: filter_sort)

lemma filter_take_members:
  "distinct ys \<Longrightarrow> filter (\<lambda>y. y \<in> set (take n (filter D ys))) ys = take n (filter D ys)"
proof (induction ys arbitrary: n)
  case (Cons y ys)
  have rest: "filter (\<lambda>x. x = y \<or> x \<in> A) ys = filter (\<lambda>x. x \<in> A) ys" for A
    using Cons.prems by (intro filter_cong) auto
  show ?case
  proof (cases "D y \<and> n \<noteq> 0")
    case True
    then obtain m where "n = Suc m" by (cases n) auto
    then show ?thesis using True Cons.IH[of m] Cons.prems rest by simp
  next
    case False
    then have "y \<notin> set (take n (filter D ys))" using Cons.prems by (auto dest: in_set_takeD)
    then show ?thesis using False Cons.IH[of n] Cons.prems by auto
  qed
qed simp

section \<open>The batch\<close>

text \<open>A row as the lease leaves it.\<close>

definition leased_row :: "datetime \<Rightarrow> string \<Rightarrow> int \<Rightarrow> PgJob \<Rightarrow> PgJob" where
  "leased_row now w ls r = (pg_lock_row now w ls r)\<lparr>j_updated_at := now\<rparr>"

lemma leased_row_sel [simp]:
  "j_priority (leased_row now w ls r) = j_priority r" "j_run_at (leased_row now w ls r) = j_run_at r"
  "j_created_at (leased_row now w ls r) = j_created_at r" "j_id (leased_row now w ls r) = j_id r"
  "j_dataset_id (leased_row now w ls r) = j_dataset_id r" "j_queue (leased_row now w ls r) = j_queue r"
  "j_max_attempts (leased_row now w ls r) = j_max_attempts r"
  "j_status (leased_row now w ls r) = ''running''"
  by (simp_all add: leased_row_def pg_lock_row_def)

lemma pg_lease_batch_rows_eq:
  assumes "distinct (map j_id t)" "0 \<le> n"
    and C: "C = pg_candidates now d q n policy t"
  shows "pg_order policy (filter (\<lambda>r. j_id r \<in> j_id ` set C)
      (update_jobs now (\<lambda>r. j_id r \<in> j_id ` set C) (pg_lock_row now w ls) t)) = map (leased_row now w ls) C"
proof -
  let ?P = "\<lambda>r. j_id r \<in> j_id ` set C" and ?g = "leased_row now w ls"
  let ?D = "\<lambda>r. j_dataset_id r = d \<and> pg_due now q r"
  have sub: "set C \<subseteq> set t" using pg_candidates_set unfolding C by blast
  have "filter ?P (update_jobs now ?P (pg_lock_row now w ls) u) = map ?g (filter ?P u)" for u
    unfolding update_jobs_def sql_update_def leased_row_def[abs_def]
    by (induction u) (simp_all add: pg_lock_row_def)
  moreover have "filter ?P t = filter (\<lambda>r. r \<in> set C) t"
    using assms(1) sub by (intro filter_cong) (auto simp: distinct_map dest: inj_onD)
  moreover have "C = take (nat n) (filter ?D (pg_order policy t))"
    using assms(2) by (simp add: C pg_candidates_def sql_limit_def pg_order_filter)
  moreover have "distinct (pg_order policy t)"
    using distinct_pg_order[OF assms(1)] by (simp add: distinct_map)
  ultimately show ?thesis
    by (simp add: pg_order_map pg_order_filter filter_take_members)
qed

text \<open>The due jobs of a table before the deadlines are enforced.\<close>

definition pg_ready :: "datetime \<Rightarrow> string \<Rightarrow> PgJob \<Rightarrow> bool" where
  "pg_ready now q r \<longleftrightarrow> pg_due now q r \<and> \<not> pg_past_deadline now r"

lemma due_after_expiry: "filter (pg_due now q) (pg_expire_deadlines now q t) = filter (pg_ready now q) t"
  unfolding pg_expire_deadlines_def update_jobs_def sql_update_def
  by (induction t) (auto simp: pg_ready_def pg_due_def)

text \<open>The reference: the dataset of the job that waits longest, its first ready jobs in order.\<close>

definition pg_first_ready ::
  "datetime \<Rightarrow> string \<Rightarrow> int \<Rightarrow> QueueOrdering \<Rightarrow> PgJob list \<Rightarrow> PgJob list" where
  "pg_first_ready now q bs policy t =
     (case sort_key (\<lambda>r. (j_run_at r, j_created_at r)) (filter (pg_ready now q) t) of
        [] \<Rightarrow> []
      | oldest # _ \<Rightarrow>
          take (nat (clamp 1 4096 bs))
            (pg_order policy
              (filter (\<lambda>r. j_dataset_id r = j_dataset_id oldest) (filter (pg_ready now q) t))))"

lemma candidates_after_expiry:
  assumes "0 \<le> n"
  shows "pg_candidates now d q n policy (pg_expire_deadlines now q t) =
    take (nat n) (pg_order policy (filter (\<lambda>r. j_dataset_id r = d) (filter (pg_ready now q) t)))"
  using assms arg_cong[OF due_after_expiry[of now q t], of "filter (\<lambda>r. j_dataset_id r = d)"]
  by (simp add: pg_candidates_def sql_limit_def conj_commute)

lemma pick_after_expiry:
  "pg_pick_dataset now q (pg_expire_deadlines now q t) =
     (case sort_key (\<lambda>r. (j_run_at r, j_created_at r)) (filter (pg_ready now q) t) of
        [] \<Rightarrow> None | r # _ \<Rightarrow> Some (j_dataset_id r))"
  by (simp add: pg_pick_dataset_def due_after_expiry)

section \<open>Policies\<close>

lemma in_flight_after_expiry: "pg_in_flight q (pg_expire_deadlines now q' t) = pg_in_flight q t"
  unfolding pg_in_flight_def rows_affected_def pg_expire_deadlines_def update_jobs_def sql_update_def
  by (induction t) (auto simp: pg_due_def)

lemma attempts_after_expiry:
  "pg_attempts_last_min now q (pg_expire_deadlines now' q' t) atts = pg_attempts_last_min now q t atts"
proof -
  have "belongs (filter (\<lambda>r. j_queue r = q) (pg_expire_deadlines now' q' t)) = belongs (filter (\<lambda>r. j_queue r = q) t)"
    unfolding pg_expire_deadlines_def update_jobs_def sql_update_def belongs_def
    by (intro ext, induction t) auto
  then show ?thesis by (simp add: pg_attempts_last_min_def)
qed

lemma throttle_after_expiry:
  "pg_throttle_reason now q p (pg_expire_deadlines now' q' t) atts = pg_throttle_reason now q p t atts"
  by (simp add: pg_throttle_reason_def in_flight_after_expiry attempts_after_expiry split: option.split)

abbreviation queue_policy :: "string \<Rightarrow> PostgresBackend \<Rightarrow> QueuePolicy option" where
  "queue_policy q s \<equiv> find (\<lambda>p. qp_queue p = q) (pg_policies s)"

text \<open>The lease call when the policy of the queue lets it pass.\<close>

lemma pg_lease_passes:
  assumes inv: "pg_inv s" and ls: "fits_int4 ls"
    and pass: "pg_throttle_reason (pg_now env) q (queue_policy q s) (pg_jobs s) (pg_attempts s) = None"
  shows "pg_lease_jobs_batch_with_ordering env q w ls bs policy s =
    (let now = pg_now env; C = pg_first_ready now q bs policy (pg_jobs s);
         t = pg_expire_deadlines now q (pg_jobs s)
     in (Inr (map (\<lambda>r. job_of (leased_row now w ls r)) C),
         s\<lparr>pg_jobs := update_jobs now (\<lambda>r. j_id r \<in> j_id ` set C) (pg_lock_row now w ls) t\<rparr>))"
proof -
  let ?now = "pg_now env" and ?n = "clamp 1 4096 bs"
  define t where "t = pg_expire_deadlines ?now q (pg_jobs s)"
  have dist: "distinct (map j_id t)" using pg_distinct[OF inv] by (simp add: t_def)
  have n: "0 \<le> ?n" by (simp add: clamp_def)
  have reason: "pg_throttle_reason ?now q (queue_policy q s) t (pg_attempts s) = None"
    using pass by (simp add: t_def throttle_after_expiry)
  show ?thesis
  proof (cases "sort_key (\<lambda>r. (j_run_at r, j_created_at r)) (filter (pg_ready ?now q) (pg_jobs s))")
    case Nil
    then show ?thesis
      by (simp add: pg_lease_jobs_batch_with_ordering_def transaction_def pg_lease_unexpired_def Let_def
          pick_after_expiry pg_first_ready_def update_jobs_def update_none)
  next
    case (Cons oldest rest)
    let ?d = "j_dataset_id oldest"
    have C: "pg_candidates ?now ?d q ?n policy t = pg_first_ready ?now q bs policy (pg_jobs s)"
      using candidates_after_expiry[OF n] Cons by (simp add: t_def pg_first_ready_def)
    have "pg_pick_dataset ?now q t = Some ?d" using Cons by (simp add: t_def pick_after_expiry)
    then have "pg_lease_jobs_batch_with_ordering env q w ls bs policy s =
        transaction (\<lambda>_. pg_lease_batch env ?d q w ls ?n policy (s\<lparr>pg_jobs := t\<rparr>)) s"
      using reason
      by (simp add: pg_lease_jobs_batch_with_ordering_def transaction_def pg_lease_unexpired_def Let_def
          t_def[symmetric] split: option.split)
    then show ?thesis
      using ls pg_lease_batch_rows_eq[OF dist n C[symmetric]]
      by (simp add: transaction_def pg_lease_batch_def Let_def C t_def[symmetric] comp_def)
  qed
qed

text \<open>The lease call when the policy stops it.\<close>

lemma pg_lease_throttled:
  assumes inv: "pg_inv s" and p: "queue_policy q s = Some p"
    and stop: "pg_throttle_reason (pg_now env) q (Some p) (pg_jobs s) (pg_attempts s) = Some code"
    and c: "pg_first_ready (pg_now env) q 1 policy (pg_jobs s) = [c]"
    and fresh: "e_fresh env 0 \<notin> pd_id ` set (pg_decisions s)"
  shows "pg_lease_jobs_batch_with_ordering env q w ls bs policy s = (Inr [],
    s\<lparr>pg_jobs := update_jobs (pg_now env) (\<lambda>r. j_id r = j_id c)
          (\<lambda>r. r\<lparr>j_run_at := pg_now env + milliseconds (qp_throttle_delay_ms p)\<rparr>)
          (pg_expire_deadlines (pg_now env) q (pg_jobs s)),
      pg_decisions := pg_decisions s @
        [\<lparr>pd_id = e_fresh env 0, pd_dataset_id = j_dataset_id c, pd_job_id = j_id c,
          pd_decision = ''THROTTLED'', pd_reason_code = code,
          pd_details_json = pg_throttle_details code (j_dataset_id c) q (pg_in_flight q (pg_jobs s))
            (pg_attempts_last_min (pg_now env) q (pg_jobs s) (pg_attempts s)) p,
          pd_created_at = pg_now env\<rparr>]\<rparr>)"
proof -
  let ?now = "pg_now env"
  define t where "t = pg_expire_deadlines ?now q (pg_jobs s)"
  have reason: "pg_throttle_reason ?now q (Some p) t (pg_attempts s) = Some code"
    using stop by (simp add: t_def throttle_after_expiry)
  obtain oldest rest where first: "sort_key (\<lambda>r. (j_run_at r, j_created_at r)) (filter (pg_ready ?now q) (pg_jobs s)) = oldest # rest"
    using c by (auto simp: pg_first_ready_def split: list.splits)
  have C: "pg_candidates ?now (j_dataset_id oldest) q 1 policy t = [c]"
    using candidates_after_expiry[of 1 ?now "j_dataset_id oldest" q policy "pg_jobs s"] c first
    by (simp add: t_def pg_first_ready_def clamp_def)
  then have "c \<in> set t" "j_dataset_id c = j_dataset_id oldest"
    using pg_candidates_set[of c ?now "j_dataset_id oldest" q 1 policy t] by auto
  then have in_t: "belongs t (j_dataset_id oldest) (j_id c)" "j_dataset_id c = j_dataset_id oldest"
    by (auto simp: belongs_def list_ex_iff)
  have pick: "pg_pick_dataset ?now q t = Some (j_dataset_id oldest)" using first by (simp add: t_def pick_after_expiry)
  have counts: "pg_in_flight q t = pg_in_flight q (pg_jobs s)"
    "pg_attempts_last_min ?now q t (pg_attempts s) = pg_attempts_last_min ?now q (pg_jobs s) (pg_attempts s)"
    by (simp_all add: t_def in_flight_after_expiry attempts_after_expiry)
  have "pg_lease_jobs_batch_with_ordering env q w ls bs policy s =
      transaction (\<lambda>_. pg_throttle env (j_dataset_id oldest) q policy code p (s\<lparr>pg_jobs := t\<rparr>)) s"
    using reason p pick
    by (simp add: pg_lease_jobs_batch_with_ordering_def transaction_def pg_lease_unexpired_def Let_def
        t_def[symmetric])
  then show ?thesis
    using fresh in_t
    by (simp add: transaction_def pg_throttle_def Let_def C pg_insert_decision_def counts t_def[symmetric])
qed

section \<open>Counting\<close>

lemma affected_update:
  assumes "\<And>r. r \<in> set t \<Longrightarrow> P r \<Longrightarrow> \<not> R r" "\<And>r. P r \<Longrightarrow> R (f r)"
  shows "rows_affected R (sql_update P f t) = rows_affected R t + rows_affected P t"
  using assms by (induction t) (auto simp: rows_affected_def sql_update_def)

lemma first_ready_length: "length (pg_first_ready now q bs policy t) \<le> nat (clamp 1 4096 bs)"
  by (simp add: pg_first_ready_def split: list.split)

lemma first_ready_set:
  "r \<in> set (pg_first_ready now q bs policy t) \<Longrightarrow> r \<in> set t \<and> pg_ready now q r"
  by (auto simp: pg_first_ready_def dest!: in_set_takeD split: list.splits)

lemma first_ready_dataset:
  assumes "r \<in> set (pg_first_ready now q bs policy t)" "r' \<in> set (pg_first_ready now q bs policy t)"
  shows "j_dataset_id r = j_dataset_id r'"
proof (cases "sort_key (\<lambda>r. (j_run_at r, j_created_at r)) (filter (pg_ready now q) t)")
  case Nil
  then show ?thesis using assms(1) by (simp add: pg_first_ready_def)
next
  case (Cons oldest rest)
  have "j_dataset_id x = j_dataset_id oldest" if "x \<in> set (pg_first_ready now q bs policy t)" for x
    using that Cons by (auto simp: pg_first_ready_def dest!: in_set_takeD)
  then show ?thesis using assms by simp
qed

section \<open>The state after a lease\<close>

lemma first_ready_distinct:
  assumes "distinct (map j_id t)"
  shows "distinct (map j_id (pg_first_ready now q bs policy t))"
proof -
  have "distinct (map j_id (take n (pg_order policy (filter P t))))" for n P
    using distinct_pg_order[OF distinct_map_filter[OF assms]] by (simp add: take_map[symmetric])
  then show ?thesis by (simp add: pg_first_ready_def split: list.split)
qed

lemma ready_after_expiry: "r \<in> set t \<Longrightarrow> pg_ready now q r \<Longrightarrow> r \<in> set (pg_expire_deadlines now q t)"
  using arg_cong[OF due_after_expiry[of now q t], of set] by auto

lemma pg_leased_rows:
  assumes inv: "pg_inv s" and C: "C = pg_first_ready now q bs policy (pg_jobs s)"
    and t: "t = pg_expire_deadlines now q (pg_jobs s)"
    and t': "t' = update_jobs now (\<lambda>r. j_id r \<in> j_id ` set C) (pg_lock_row now w ls) t"
  shows "distinct (map j_id C)"
    "x \<in> set C \<Longrightarrow> row_at j_id t' (j_id x) = Some (leased_row now w ls x)"
    "k \<notin> j_id ` set C \<Longrightarrow> row_at j_id t' k = row_at j_id t k"
proof -
  have dist: "distinct (map j_id t)" using pg_distinct[OF inv] by (simp add: t)
  show "distinct (map j_id C)" unfolding C by (rule first_ready_distinct[OF pg_distinct[OF inv]])
  have row: "row_at j_id t' k = map_option (\<lambda>r. if j_id r \<in> j_id ` set C then leased_row now w ls r else r)
      (row_at j_id t k)" for k
    unfolding t' leased_row_def by (rule row_at_update_jobs[OF row_functions(3)])
  show "row_at j_id t' (j_id x) = Some (leased_row now w ls x)" if x: "x \<in> set C"
  proof -
    have "x \<in> set t" using ready_after_expiry first_ready_set x unfolding C t by blast
    then show ?thesis using row[of "j_id x"] row_at_unique[OF dist] x by simp
  qed
  show "row_at j_id t' k = row_at j_id t k" if "k \<notin> j_id ` set C"
    using row[of k] that by (cases "row_at j_id t k") (auto dest: row_at_SomeD)
qed

text \<open>A lease adds at most its batch to the jobs in flight; a throttled lease adds none.\<close>

lemma lease_in_flight:
  assumes inv: "pg_inv s" and C: "C = pg_first_ready now q bs policy (pg_jobs s)"
    and t: "t = pg_expire_deadlines now q (pg_jobs s)"
  shows "pg_in_flight q (update_jobs now (\<lambda>r. j_id r \<in> j_id ` set C) (pg_lock_row now w ls) t)
    \<le> pg_in_flight q (pg_jobs s) + int (length C)"
proof -
  let ?P = "\<lambda>r. j_id r \<in> j_id ` set C" and ?R = "\<lambda>r. j_queue r = q \<and> j_status r = ''running''"
  have dist: "distinct (map j_id t)" using pg_distinct[OF inv] by (simp add: t)
  have in_C: "r \<in> set C" if r: "r \<in> set t" "?P r" for r
  proof -
    obtain c where c: "c \<in> set C" "j_id c = j_id r" using r(2) by auto
    then have "c \<in> set t" using ready_after_expiry first_ready_set unfolding C t by blast
    then show ?thesis using c dist r(1) by (auto simp: distinct_map dest: inj_onD)
  qed
  have "\<not> ?R r" if "r \<in> set t" "?P r" for r
  proof -
    have "pg_ready now q r" using in_C[OF that] first_ready_set unfolding C by blast
    then show ?thesis by (simp add: pg_ready_def pg_due_def)
  qed
  moreover have "?R ((pg_lock_row now w ls r)\<lparr>j_updated_at := now\<rparr>) \<longleftrightarrow> j_queue r = q" for r
    by (simp add: pg_lock_row_def)
  ultimately have le: "rows_affected ?R (update_jobs now ?P (pg_lock_row now w ls) t) \<le> rows_affected ?R t + rows_affected ?P t"
    unfolding update_jobs_def sql_update_def rows_affected_def by (induction t) auto
  have "rows_affected ?P t = card (j_id ` set (filter ?P t))"
    using distinct_card[OF distinct_map_filter[OF dist, of ?P]] by (simp add: rows_affected_def)
  also have "\<dots> \<le> card (j_id ` set C)" by (intro card_mono) auto
  also have "\<dots> \<le> length C" using card_length[of "map j_id C"] by simp
  finally show ?thesis
    using le in_flight_after_expiry[of q now q "pg_jobs s"] unfolding pg_in_flight_def t[symmetric] by linarith
qed

lemma in_flight_update:
  assumes "\<And>r. j_queue (f r) = j_queue r" "\<And>r. j_status (f r) = j_status r"
  shows "pg_in_flight q (update_jobs now P f t) = pg_in_flight q t"
  unfolding pg_in_flight_def rows_affected_def update_jobs_def sql_update_def
  by (induction t) (auto simp: assms)

lemma throttle_in_flight:
  "pg_in_flight q' (pg_jobs (snd (pg_throttle env d q policy code p s))) = pg_in_flight q' (pg_jobs s)"
proof -
  have "pg_jobs s1 = pg_jobs s" if "pg_insert_decision row s = Inr s1" for row s1
    using pg_insert_decision_cases(1)[OF that] by simp
  then show ?thesis by (auto simp: pg_throttle_def Let_def in_flight_update split: list.split sum.split)
qed

lemma stopped_in_flight:
  assumes "pg_throttle_reason (pg_now env) q (queue_policy q s) (pg_jobs s) (pg_attempts s) = Some code"
  shows "pg_in_flight q (pg_jobs (snd (pg_lease_jobs_batch_with_ordering env q w ls bs policy s)))
    = pg_in_flight q (pg_jobs s)"
proof -
  obtain p where p: "queue_policy q s = Some p" using assms by (auto simp: pg_throttle_reason_def split: option.splits)
  show ?thesis
    unfolding pg_lease_jobs_batch_with_ordering_def
    by (rule transaction_inv[of "\<lambda>s'. pg_in_flight q (pg_jobs s') = pg_in_flight q (pg_jobs s)"])
       (use assms p in \<open>simp_all add: pg_lease_unexpired_def Let_def throttle_after_expiry throttle_in_flight
          in_flight_after_expiry split: option.split\<close>)
qed

end
