(* ===== verification/Worker_Round.thy ===== *)
theory Worker_Round
  imports Postgres_Leasing "HOL-Library.Multiset"
begin

text \<open>
  A round of the worker process: every leased job is settled with the status its handler calls
  for, through the batch of successes and the single reports of failures, and no other job is
  touched.
\<close>

section \<open>Single reports\<close>

lemma pg_one_row:
  assumes "pg_inv s" "row_at j_id (pg_jobs s) i = Some r" "Q r"
  shows "rows_affected (\<lambda>x. j_id x = i \<and> Q x) (pg_jobs s) = 1"
  using affected_key[OF pg_distinct[OF assms(1)], of i Q] assms(2,3) by simp

text \<open>An update of the one job with an identifier, as the repository sends it.\<close>

lemma pg_settle_one:
  assumes inv: "pg_inv s" and r: "row_at j_id (pg_jobs s) i = Some r" "Q r"
    and g: "keeps_identity g" "\<And>x. pg_job_ok x \<Longrightarrow> pg_job_ok (g x)"
  shows "\<exists>s'. discard (pg_settle env (\<lambda>x. j_id x = i \<and> Q x) g 1 err) s = (Inr (), s') \<and> pg_inv s'
    \<and> pg_policies s' = pg_policies s \<and> pg_stored s' i = Some (job_of ((g r)\<lparr>j_updated_at := pg_now env\<rparr>))
    \<and> (\<forall>k. k \<noteq> i \<longrightarrow> pg_stored s' k = pg_stored s k)"
proof -
  let ?P = "\<lambda>x. j_id x = i \<and> Q x"
  define s' where "s' = s\<lparr>pg_jobs := update_jobs (pg_now env) ?P g (pg_jobs s)\<rparr>"
  have run: "discard (pg_settle env ?P g 1 err) s = (Inr (), s')"
    using pg_one_row[of s i r Q, OF inv r] by (simp add: discard_def pg_settle_def Let_def s'_def)
  have P: "?P x \<Longrightarrow> j_id x = i" "?P r" for x using row_at_SomeD[OF r(1)] r(2) by auto
  have "pg_stored s' k = (if k = i then Some (job_of ((g r)\<lparr>j_updated_at := pg_now env\<rparr>)) else pg_stored s k)" for k
    by (rule pg_stored_one[where P = ?P, OF g(1) r(1) P]) (simp_all add: s'_def)
  moreover have "pg_inv s'" unfolding s'_def by (rule pg_inv_update[OF inv g])
  ultimately show ?thesis using run by (simp add: s'_def)
qed

text \<open>What a report may change: the job itself.\<close>

definition reports :: "PostgresBackend \<Rightarrow> PostgresBackend \<Rightarrow> (uuid \<Rightarrow> string option) \<Rightarrow> bool" where
  "reports s s' st \<longleftrightarrow>
     pg_inv s' \<and> pg_policies s' = pg_policies s
     \<and> (\<forall>i. case st i of None \<Rightarrow> pg_stored s' i = pg_stored s i
                      | Some x \<Rightarrow> status_of (pg_stored s') i = Some x)"

lemma reportsD: "reports s s' st \<Longrightarrow> st i = None \<Longrightarrow> pg_stored s' i = pg_stored s i"
  "reports s s' st \<Longrightarrow> st i = Some x \<Longrightarrow> status_of (pg_stored s') i = Some x"
  unfolding reports_def by (metis option.simps(4), metis option.simps(5))

lemma reports_trans:
  assumes "reports s s1 A" "reports s1 s2 B" "dom A \<inter> dom B = {}"
  shows "reports s s2 (A ++ B)"
proof -
  have "case (A ++ B) k of None \<Rightarrow> pg_stored s2 k = pg_stored s k
      | Some x \<Rightarrow> status_of (pg_stored s2) k = Some x" for k
  proof (cases "B k")
    case None
    then have same: "pg_stored s2 k = pg_stored s1 k" by (rule reportsD(1)[OF assms(2)])
    then show ?thesis
      using None reportsD[OF assms(1), of k] by (simp add: map_add_def status_of_def split: option.split)
  next
    case (Some x)
    then show ?thesis using reportsD(2)[OF assms(2), of k x] by simp
  qed
  then show ?thesis using assms(1,2) by (simp add: reports_def)
qed

lemma reports_held:
  assumes "reports s s' st" "held_by (pg_stored s) w i" "st i = None"
  shows "held_by (pg_stored s') w i"
  using assms(2) reportsD(1)[OF assms(1,3)] by (simp add: held_by_def)

lemma on_failure_settles:
  assumes inv: "pg_inv s" and r: "row_at j_id (pg_jobs s) i = Some r" "held_row i w r"
    and delay: "n < mx \<Longrightarrow> \<exists>d. next_delay_seconds n cfg rng = Returns d"
  shows "\<exists>s'. on_failure cfg envs rng i a w l c m n mx s = (Inr (), s') \<and> reports s s' [i \<mapsto> failure_status c n mx]"
proof -
  define s1 where "s1 = snd (pg_finish_failed (envs 0) a l c m s)"
  have fin: "pg_finish_failed (envs 0) a l c m s = (Inr (), s1)" by (simp add: s1_def pg_finish_failed_def)
  have inv1: "pg_inv s1" unfolding s1_def by (rule pg_finish_inv[OF inv])
  have same: "pg_jobs s1 = pg_jobs s" "pg_policies s1 = pg_policies s" "pg_stored s1 = pg_stored s"
    by (simp_all add: s1_def pg_finish_failed_def pg_stored_def fun_eq_iff)
  have r1: "row_at j_id (pg_jobs s1) i = Some r" using r(1) same by simp
  have held: "j_locked_by r = Some w \<and> j_status r = ''running''" using r(2) by (simp add: held_row_def)
  show ?thesis
  proof (cases "is_retryable (classify_error c) \<and> n < mx")
    case True
    then obtain d where d: "next_delay_seconds n cfg rng = Returns d" using delay by blast
    let ?g = "\<lambda>r. (unlocked r)\<lparr>j_status := ''queued'', j_run_at := pg_timestamp (e_now (envs 1) + seconds d),
        j_last_error_code := Some c, j_last_error_message := Some m\<rparr>"
    from pg_settle_one[of s1 i r "\<lambda>x. j_status x = ''running''" ?g, OF inv1 r1 _ settled_rows(1,4), of "envs 1"]
    held obtain s' where
      "repo_reschedule_for_retry (envs 1) i (e_now (envs 1) + seconds d) (Some c) (Some m) s1 = (Inr (), s')"
      "pg_inv s'" "pg_policies s' = pg_policies s1" "status_of (pg_stored s') i = Some ''queued''"
      "\<forall>k. k \<noteq> i \<longrightarrow> pg_stored s' k = pg_stored s1 k"
      unfolding repo_reschedule_for_retry_def status_of_def by fastforce
    then show ?thesis using True d same
      by (auto simp: on_failure_def fin lift_def reports_def failure_status_def)
  next
    case False
    let ?g = "\<lambda>r. (unlocked r)\<lparr>j_status := ''dlq'', j_dlq_reason_code := Some (dlq_reason_code (classify_error c)),
        j_dlq_at := Some (pg_now (envs 1)), j_last_error_code := Some c, j_last_error_message := Some m\<rparr>"
    from pg_settle_one[of s1 i r "\<lambda>x. j_locked_by x = Some w \<and> j_status x = ''running''" ?g,
        OF inv1 r1 held settled_rows(3,6), of "envs 1"]
    obtain s' where
      "repo_mark_dlq (envs 1) i w (dlq_reason_code (classify_error c)) (Some c) (Some m) s1 = (Inr (), s')"
      "pg_inv s'" "pg_policies s' = pg_policies s1" "status_of (pg_stored s') i = Some ''dlq''"
      "\<forall>k. k \<noteq> i \<longrightarrow> pg_stored s' k = pg_stored s1 k"
      unfolding repo_mark_dlq_def status_of_def held_row_def[abs_def] by fastforce
    then show ?thesis using False same
      by (auto simp: on_failure_def fin lift_def reports_def failure_status_def)
  qed
qed

section \<open>Reports of a batch\<close>

fun outcome_job :: "JobExecutionOutcome \<Rightarrow> uuid" where
  "outcome_job (JobSucceeded i a n l) = i"
| "outcome_job (JobFailed i a n m l c msg) = i"

fun outcome_status :: "JobExecutionOutcome \<Rightarrow> string" where
  "outcome_status (JobSucceeded i a n l) = ''succeeded''"
| "outcome_status (JobFailed i a n m l c msg) = failure_status c n m"

fun outcome_limit :: "JobExecutionOutcome \<Rightarrow> int" where
  "outcome_limit (JobSucceeded i a n l) = 0"
| "outcome_limit (JobFailed i a n m l c msg) = m"

abbreviation outcome_map :: "JobExecutionOutcome list \<Rightarrow> uuid \<Rightarrow> string option" where
  "outcome_map os \<equiv> map_of (map (\<lambda>x. (outcome_job x, outcome_status x)) os)"

lemma outcome_map_None: "outcome_map os i = None \<longleftrightarrow> i \<notin> outcome_job ` set os"
  by (induction os) auto

lemma outcome_map_Some:
  "distinct (map outcome_job os) \<Longrightarrow> x \<in> set os \<Longrightarrow> outcome_map os (outcome_job x) = Some (outcome_status x)"
  by (induction os) (auto simp: rev_image_eqI)

lemma report_failures_settles:
  assumes "pg_inv s" "distinct (map outcome_job os)" "\<forall>x \<in> set os. is_failed x \<and> outcome_limit x \<le> 64"
    and "\<forall>x \<in> set os. held_by (pg_stored s) (wc_worker_id cfg) (outcome_job x)" "sane_retry (wc_retry cfg)"
  shows "\<exists>s'. report_failures cfg tasks os s = (Inr (), s') \<and> reports s s' (outcome_map os)"
  using assms
proof (induction os arbitrary: s)
  case Nil
  then show ?case by (simp add: reports_def)
next
  case (Cons x os)
  obtain i a n m l c msg where x: "x = JobFailed i a n m l c msg"
    using Cons.prems(3) by (cases x) auto
  obtain r where r: "row_at j_id (pg_jobs s) i = Some r" "held_row i (wc_worker_id cfg) r"
    using Cons.prems(4) by (auto simp: x held_by_pg)
  have "\<exists>d. next_delay_seconds n (wc_retry cfg) (tr_rng (tasks i)) = Returns d" if "n < m"
    using sane_delay[OF Cons.prems(5) that] Cons.prems(3) by (simp add: x)
  from on_failure_settles[OF Cons.prems(1) r this, where envs = "tr_envs (tasks i)" and a = a and l = l and c = c and m = msg] obtain s1 where
    s1: "on_failure (wc_retry cfg) (tr_envs (tasks i)) (tr_rng (tasks i)) i a (wc_worker_id cfg) l c msg n m s
      = (Inr (), s1)" "reports s s1 [i \<mapsto> failure_status c n m]" by blast
  have new: "i \<notin> outcome_job ` set os" using Cons.prems(2) by (simp add: x)
  have "held_by (pg_stored s1) (wc_worker_id cfg) (outcome_job y)" if "y \<in> set os" for y
    using reports_held[OF s1(2)] Cons.prems(4) that new by (metis fun_upd_other imageI list.set_intros(2))
  then obtain s2 where s2: "report_failures cfg tasks os s1 = (Inr (), s2)" "reports s1 s2 (outcome_map os)"
    using Cons.IH[of s1] Cons.prems(2,3,5) s1(2) by (auto simp: reports_def)
  have "reports s s2 ([i \<mapsto> failure_status c n m] ++ outcome_map os)"
    using new by (intro reports_trans[OF s1(2) s2(2)]) (auto simp: dom_map_of_conv_image_fst)
  also have "[i \<mapsto> failure_status c n m] ++ outcome_map os = outcome_map (x # os)"
    using new outcome_map_None[of os i] by (auto simp: x map_add_def fun_eq_iff split: option.split)
  finally show ?case using s1(1) s2(1) by (simp add: x)
qed

lemma on_success_batch_settles:
  assumes inv: "pg_inv s" and dist: "distinct (map fst us)"
    and h: "\<forall>u \<in> set us. held_by (pg_stored s) w (fst u) \<and> pg_located s d (fst u)"
  shows "\<exists>s'. on_success_batch envs d us w s = (Inr (), s')
    \<and> reports s s' (\<lambda>i. if i \<in> fst ` set us then Some ''succeeded'' else None)"
proof (cases "us = []")
  case True
  then show ?thesis using inv by (simp add: on_success_batch_def reports_def)
next
  case False
  let ?ids = "map fst us"
  define ups where "ups = map (\<lambda>(_, a, l). (a :: uuid, l :: int)) us"
  define s1 where "s1 = snd (pg_finish_succeeded_batch (envs 0) ups s)"
  have fin: "pg_finish_succeeded_batch (envs 0) ups s = (Inr (), s1)"
    by (simp add: s1_def pg_finish_succeeded_batch_def)
  have inv1: "pg_inv s1" unfolding s1_def by (rule pg_finish_inv[OF inv])
  have same: "pg_jobs s1 = pg_jobs s" "pg_policies s1 = pg_policies s"
    by (simp_all add: s1_def pg_finish_succeeded_batch_def)
  let ?P = "\<lambda>r. j_dataset_id r = d \<and> j_id r \<in> set ?ids \<and> j_locked_by r = Some w \<and> j_status r = ''running''"
  have hit: "\<exists>r. row_at j_id (pg_jobs s) i = Some r \<and> ?P r" if "i \<in> set ?ids" for i
  proof -
    have "held_by (pg_stored s) w i" "pg_located s d i" using h that by auto
    then obtain r where "row_at j_id (pg_jobs s) i = Some r" "held_row i w r" "j_dataset_id r = d"
      by (auto simp: held_by_pg pg_located_def)
    then show ?thesis using that by (auto simp: held_row_def)
  qed
  have "j_id ` set (filter ?P (pg_jobs s)) = set ?ids"
  proof
    show "set ?ids \<subseteq> j_id ` set (filter ?P (pg_jobs s))"
    proof
      fix i assume "i \<in> set ?ids"
      from hit[OF this] obtain r where r: "row_at j_id (pg_jobs s) i = Some r" "?P r" by blast
      then have "r \<in> set (filter ?P (pg_jobs s))" "j_id r = i" using row_at_SomeD[OF r(1)] by auto
      then show "i \<in> j_id ` set (filter ?P (pg_jobs s))" by blast
    qed
  qed auto
  then have "card (set ?ids) = length (map j_id (filter ?P (pg_jobs s)))"
    using distinct_card[OF distinct_map_filter[OF pg_distinct[OF inv], of ?P]] by simp
  then have count: "rows_affected ?P (pg_jobs s) = length us"
    using distinct_card[OF dist] by (simp add: rows_affected_def)
  define s' where "s' = s1\<lparr>pg_jobs := update_jobs (pg_now (envs 1)) ?P succeeded_row (pg_jobs s1)\<rparr>"
  have run: "on_success_batch envs d us w s = (Inr (), s')"
    unfolding on_success_batch_def Let_def ups_def[symmetric] fin
    using False count
    by (simp add: discard_def repo_mark_succeeded_batch_for_dataset_def pg_settle_def Let_def same(1) s'_def)
  have inv': "pg_inv s'" unfolding s'_def by (rule pg_inv_update[OF inv1 row_functions(2) row_functions(4)])
  have "status_of (pg_stored s') i = Some ''succeeded''" if "i \<in> set ?ids" for i
  proof -
    from hit[OF that] obtain r where "row_at j_id (pg_jobs s) i = Some r" "?P r" by blast
    then show ?thesis
      by (simp add: status_of_def pg_stored_def s'_def same(1) row_at_update_jobs[OF row_functions(2)]
          succeeded_row_def)
  qed
  moreover have "pg_stored s' i = pg_stored s i" if "i \<notin> set ?ids" for i
  proof (cases "row_at j_id (pg_jobs s) i")
    case (Some r)
    then have "\<not> ?P r" using row_at_SomeD[OF Some] that by auto
    then show ?thesis using Some by (auto simp: pg_stored_def s'_def same(1) row_at_update_jobs[OF row_functions(2)])
  qed (simp add: pg_stored_def s'_def same(1) row_at_update_jobs[OF row_functions(2)])
  ultimately have "reports s s' (\<lambda>i. if i \<in> fst ` set us then Some ''succeeded'' else None)"
    using inv' same(2) by (simp add: reports_def s'_def)
  then show ?thesis using run by blast
qed

section \<open>A round\<close>

text \<open>The status a handler calls for, at the number of the attempt.\<close>

definition worker_status :: "HandlerRegistry \<Rightarrow> Job \<Rightarrow> int \<Rightarrow> TaskRun \<Rightarrow> string" where
  "worker_status reg job n w =
     (case task_end reg job w of
        HandlerOk \<Rightarrow> ''succeeded''
      | HandlerErr err \<Rightarrow> failure_status (err_code err) n (j_max_attempts job)
      | _ \<Rightarrow> failure_status ''PANIC'' n 0)"

lemma execute_job_sel [simp]:
  "outcome_job (execute_job reg job a n w) = j_id job"
  "outcome_status (execute_job reg job a n w) = worker_status reg job n w"
  by (simp_all add: execute_job_def worker_status_def Let_def split: handler_end.split)

lemma execute_job_limit: "j_max_attempts job \<le> 64 \<Longrightarrow> outcome_limit (execute_job reg job a n w) \<le> 64"
  by (simp add: execute_job_def Let_def split: handler_end.split)

lemma spawn_tasks_all:
  assumes "distinct (map j_id batch)" "\<forall>j \<in> set batch. map_of m (j_id j) = Some (f j)"
  shows "spawn_tasks reg tasks batch m =
    Some (map (\<lambda>j. execute_job reg j (fst (f j)) (snd (f j)) (tasks (j_id j))) batch)"
  using assms
proof (induction batch arbitrary: m)
  case (Cons j batch)
  have "\<forall>x \<in> set batch. map_of (hm_remove (j_id j) m) (j_id x) = Some (f x)"
    using Cons.prems by (auto simp: image_iff)
  then show ?case using Cons by (cases "f j") auto
qed simp

lemma succeeded_updates:
  "map fst (List.map_filter succeeded_update os) = map outcome_job (filter (\<lambda>x. \<not> is_failed x) os)"
proof (induction os)
  case (Cons x os)
  then show ?case by (cases x) (simp_all add: List.map_filter_def)
qed (simp add: List.map_filter_def)

lemma succeeded_status: "\<not> is_failed x \<Longrightarrow> outcome_status x = ''succeeded''"
  by (cases x) auto

text \<open>Both kinds of reports, in whatever order the tasks ended.\<close>

lemma joined_reports:
  assumes inv: "pg_inv s" and dist: "distinct (map outcome_job os)" and lim: "\<forall>x \<in> set os. outcome_limit x \<le> 64"
    and h: "\<forall>x \<in> set os. held_by (pg_stored s) (wc_worker_id cfg) (outcome_job x) \<and> pg_located s d (outcome_job x)"
    and cfg: "sane_retry (wc_retry cfg)"
  shows "\<exists>s1 s2. on_success_batch envs d (List.map_filter succeeded_update os) (wc_worker_id cfg) s = (Inr (), s1)
    \<and> report_failures cfg tasks (filter is_failed os) s1 = (Inr (), s2)
    \<and> pg_inv s2 \<and> pg_policies s2 = pg_policies s
    \<and> (\<forall>x \<in> set os. status_of (pg_stored s2) (outcome_job x) = Some (outcome_status x))
    \<and> (\<forall>k. k \<notin> outcome_job ` set os \<longrightarrow> pg_stored s2 k = pg_stored s k)"
proof -
  let ?us = "List.map_filter succeeded_update os" and ?ok = "filter (\<lambda>x. \<not> is_failed x) os"
    and ?bad = "filter is_failed os"
  let ?A = "\<lambda>i. if i \<in> fst ` set ?us then Some ''succeeded'' else None"
  have ids: "fst ` set ?us = outcome_job ` set ?ok"
    using arg_cong[OF succeeded_updates[of os], of set] by (simp only: set_map)
  have apart: "outcome_job x \<notin> outcome_job ` set ?ok" if "x \<in> set ?bad" for x
    using dist that by (auto simp: distinct_map dest: inj_onD)
  have "distinct (map fst ?us)" unfolding succeeded_updates by (rule distinct_map_filter[OF dist])
  moreover have "\<forall>u \<in> set ?us. held_by (pg_stored s) (wc_worker_id cfg) (fst u) \<and> pg_located s d (fst u)"
  proof
    fix u assume "u \<in> set ?us"
    then have "fst u \<in> outcome_job ` set ?ok" using ids by (metis imageI)
    then show "held_by (pg_stored s) (wc_worker_id cfg) (fst u) \<and> pg_located s d (fst u)" using h by auto
  qed
  ultimately obtain s1 where s1: "on_success_batch envs d ?us (wc_worker_id cfg) s = (Inr (), s1)" "reports s s1 ?A"
    using on_success_batch_settles[OF inv] by blast
  have held1: "held_by (pg_stored s1) (wc_worker_id cfg) (outcome_job x)" if x: "x \<in> set ?bad" for x
    by (rule reports_held[OF s1(2)]) (use h x apart[OF x] ids in auto)
  have "\<exists>s2. report_failures cfg tasks ?bad s1 = (Inr (), s2) \<and> reports s1 s2 (outcome_map ?bad)"
    by (rule report_failures_settles)
       (use s1(2) dist lim held1 cfg in \<open>auto simp: reports_def distinct_map_filter\<close>)
  then obtain s2 where s2: "report_failures cfg tasks ?bad s1 = (Inr (), s2)" "reports s1 s2 (outcome_map ?bad)"
    by blast
  have "dom ?A \<inter> dom (outcome_map ?bad) = {}"
    using apart ids by (auto simp: dom_map_of_conv_image_fst split: if_splits)
  from reports_trans[OF s1(2) s2(2) this] have all: "reports s s2 (?A ++ outcome_map ?bad)" .
  have "(?A ++ outcome_map ?bad) (outcome_job x) = Some (outcome_status x)" if x: "x \<in> set os" for x
  proof (cases "is_failed x")
    case True
    then show ?thesis
      using outcome_map_Some[OF distinct_map_filter[OF dist], of x is_failed] x by (simp add: map_add_def)
  next
    case False
    then have ok: "outcome_job x \<in> outcome_job ` set ?ok" using x by simp
    have "outcome_job x \<notin> outcome_job ` set ?bad"
    proof
      assume "outcome_job x \<in> outcome_job ` set ?bad"
      then show False using apart ok by (metis imageE)
    qed
    then show ?thesis
      using ok outcome_map_None[of ?bad "outcome_job x"] succeeded_status[OF False] ids by (simp add: map_add_def)
  qed
  moreover have "(?A ++ outcome_map ?bad) k = None" if "k \<notin> outcome_job ` set os" for k
    using that ids outcome_map_None[of ?bad k] by (auto simp: map_add_def)
  ultimately show ?thesis
    using s1(1) s2(1) all reportsD[OF all] by (auto simp: reports_def)
qed

text \<open>Starting the attempts of a batch: one per job, with the next number of the job.\<close>

lemma batch_attempts:
  assumes inv: "pg_inv s" and inj: "inj (e_fresh env)" and new: "range (e_fresh env) \<inter> pg_used s = {}"
    and dist: "distinct (map j_id batch)" and ne: "batch \<noteq> []"
    and h: "\<forall>j \<in> set batch. held_by (pg_stored s) w (j_id j) \<and> pg_located s (j_dataset_id j) (j_id j)"
  shows "\<exists>rs s'. pg_start_attempts_batch env (map j_dataset_id batch) (map j_id batch) w s = (Inr rs, s')
    \<and> pg_inv s' \<and> pg_jobs s' = pg_jobs s \<and> pg_policies s' = pg_policies s \<and> length rs = length batch
    \<and> (\<forall>j \<in> set batch. \<exists>a. map_of (attempts_table rs) (j_id j) =
         Some (a, pg_next_attempt_no (j_dataset_id j) (j_id j) (pg_attempts s)))"
proof -
  let ?input = "map (\<lambda>j. (j_dataset_id j, j_id j)) batch"
  have input: "zip (map j_dataset_id batch) (map j_id batch) = ?input" by (simp add: zip_map_map zip_same_conv_map)
  let ?rows = "started_rows env w ?input s"
  let ?rs = "map (\<lambda>a. (at_job_id a, at_id a, at_attempt_no a)) ?rows"
  have held: "\<forall>(d, i) \<in> set ?input. held_by (pg_stored s) w i \<and> pg_located s d i" using h by auto
  then have "\<forall>(d, i) \<in> set ?input. list_ex (claimed_row d i w) (pg_jobs s)" using held_claimed(1) by fast
  note rows = started_rows_all[OF this, where env = env]
  define s' where "s' = s\<lparr>pg_attempts := pg_attempts s @ ?rows\<rparr>"
  have ins: "pg_insert_attempts ?rows s = Inr s'"
    unfolding s'_def using pg_start_inserts[OF inv inj new held] dist by (simp add: comp_def)
  have ids: "map at_job_id ?rows = map j_id batch" using rows(2) by (simp add: comp_def)
  have len: "length ?rows = length batch" using arg_cong[OF ids, of length] by simp
  have run: "pg_start_attempts_batch env (map j_dataset_id batch) (map j_id batch) w s = (Inr ?rs, s')"
    using ne ins len by (simp add: pg_start_attempts_batch_def Let_def input)
  have keys: "map fst ?rs = map j_id batch" using ids by (simp add: comp_def)
  have "\<exists>a. map_of (attempts_table ?rs) (j_id j) =
      Some (a, pg_next_attempt_no (j_dataset_id j) (j_id j) (pg_attempts s))" if j: "j \<in> set batch" for j
  proof -
    have "j_id j \<in> at_job_id ` set ?rows" using arg_cong[OF ids, of set] j by simp
    then obtain a where a: "a \<in> set ?rows" "at_job_id a = j_id j" by auto
    then have "at_dataset_id a = j_dataset_id j"
      using rows(3)[OF a(1)] j dist by (auto simp: distinct_map dest: inj_onD)
    then have no: "at_attempt_no a = pg_next_attempt_no (j_dataset_id j) (j_id j) (pg_attempts s)"
      using rows(3)[OF a(1)] a(2) by simp
    have one: "distinct (map fst ?rs)" unfolding keys by (rule dist)
    have mem: "(at_job_id a, at_id a, at_attempt_no a) \<in> set ?rs" using a(1) by simp
    have "map_of (attempts_table ?rs) (at_job_id a) = Some (at_id a, at_attempt_no a)"
      using attempts_table_lookup[OF one mem] by (simp only: fst_conv snd_conv)
    then show ?thesis using a(2) no by simp
  qed
  moreover have "pg_inv s'" by (rule pg_insert_attempts_inv[OF inv ins started_rows_ok])
  ultimately show ?thesis using run len by (auto simp: s'_def)
qed

lemma process_round_settles:
  assumes inv: "pg_inv s" and fresh: "inj (e_fresh (wr_start_env r))" "range (e_fresh (wr_start_env r)) \<inter> pg_used s = {}"
    and dist: "distinct (map j_id batch)" and ne: "batch \<noteq> []"
    and h: "\<forall>j \<in> set batch. held_by (pg_stored s) (wc_worker_id cfg) (j_id j) \<and> pg_located s d (j_id j) \<and> j_dataset_id j = d"
    and lim: "\<forall>j \<in> set batch. j_max_attempts j \<le> 64" and cfg: "sane_retry (wc_retry cfg)"
    and order: "\<And>os. mset (wr_finish_order r os) = mset os"
  shows "\<exists>s'. process_round cfg r batch s = (Inr (), s') \<and> pg_inv s' \<and> pg_policies s' = pg_policies s
    \<and> (\<forall>j \<in> set batch. status_of (pg_stored s') (j_id j) = Some (worker_status (wc_registry cfg) j
         (pg_next_attempt_no d (j_id j) (pg_attempts s)) (wr_tasks r (j_id j))))
    \<and> (\<forall>k. k \<notin> j_id ` set batch \<longrightarrow> pg_stored s' k = pg_stored s k)"
proof -
  let ?no = "\<lambda>j. pg_next_attempt_no d (j_id j) (pg_attempts s)"
  have "\<forall>j \<in> set batch. held_by (pg_stored s) (wc_worker_id cfg) (j_id j) \<and> pg_located s (j_dataset_id j) (j_id j)"
    using h by auto
  from batch_attempts[OF inv fresh dist ne this] obtain rs s1 where st:
    "pg_start_attempts_batch (wr_start_env r) (map j_dataset_id batch) (map j_id batch) (wc_worker_id cfg) s = (Inr rs, s1)"
    "pg_inv s1" "pg_jobs s1 = pg_jobs s" "pg_policies s1 = pg_policies s" "length rs = length batch"
    "\<forall>j \<in> set batch. \<exists>a. map_of (attempts_table rs) (j_id j) = Some (a, pg_next_attempt_no (j_dataset_id j) (j_id j) (pg_attempts s))"
    by blast
  define f where "f j = the (map_of (attempts_table rs) (j_id j))" for j :: Job
  have f: "map_of (attempts_table rs) (j_id j) = Some (f j) \<and> snd (f j) = ?no j" if "j \<in> set batch" for j
    using st(6) that h by (fastforce simp: f_def)
  let ?run = "\<lambda>j. execute_job (wc_registry cfg) j (fst (f j)) (snd (f j)) (wr_tasks r (j_id j))"
  let ?os = "wr_finish_order r (map ?run batch)"
  have spawn: "spawn_tasks (wc_registry cfg) (wr_tasks r) batch (attempts_table rs) = Some (map ?run batch)"
    using f by (intro spawn_tasks_all[OF dist]) blast
  have os: "set ?os = ?run ` set batch" using mset_eq_setD[OF order[of "map ?run batch"]] by simp
  have "mset (map outcome_job ?os) = mset (map j_id batch)"
    by (simp add: order image_mset.compositionality comp_def)
  then have dist_os: "distinct (map outcome_job ?os)" using dist mset_eq_imp_distinct_iff by blast
  have same: "pg_stored s1 = pg_stored s" "pg_located s1 = pg_located s"
    using st(3) by (simp_all add: pg_stored_def pg_located_def fun_eq_iff)
  have lim_os: "\<forall>x \<in> set ?os. outcome_limit x \<le> 64" using os lim execute_job_limit by auto
  have held_os: "\<forall>x \<in> set ?os. held_by (pg_stored s1) (wc_worker_id cfg) (outcome_job x) \<and> pg_located s1 d (outcome_job x)"
    using os h same by auto
  from joined_reports[OF st(2) dist_os lim_os held_os cfg, where envs = "wr_success_envs r" and tasks = "wr_tasks r"]
  obtain s2 s3 where rep:
    "on_success_batch (wr_success_envs r) d (List.map_filter succeeded_update ?os) (wc_worker_id cfg) s1 = (Inr (), s2)"
    "report_failures cfg (wr_tasks r) (filter is_failed ?os) s2 = (Inr (), s3)"
    "pg_inv s3" "pg_policies s3 = pg_policies s1"
    "\<forall>x \<in> set ?os. status_of (pg_stored s3) (outcome_job x) = Some (outcome_status x)"
    "\<forall>k. k \<notin> outcome_job ` set ?os \<longrightarrow> pg_stored s3 k = pg_stored s1 k"
    by (elim exE conjE) (rule that)
  have hd: "j_dataset_id (hd batch) = d" "\<not> list_ex (\<lambda>j. j_dataset_id j \<noteq> d) batch"
    using ne h by (auto simp: list_ex_iff)
  have "process_round cfg r batch s = (Inr (), s3)"
    using st(5) by (simp add: process_round_def Let_def hd st(1) spawn rep(1,2))
  moreover have "outcome_job ` set ?os = j_id ` set batch" by (simp add: os image_image)
  ultimately show ?thesis using rep(3-6) os f same st(4) by auto
qed

section \<open>The loop body\<close>

lemma pg_reap_used: "pg_used (snd (pg_reap_expired_locks env s)) = pg_used s"
  unfolding pg_reap_expired_locks_def
  by (rule transaction_inv[of "\<lambda>s'. pg_used s' = pg_used s"])
     (simp_all add: Let_def pg_used_def attempt_ids_update pg_reap_attempt_def)

lemma pg_reap_limits:
  assumes "\<forall>r \<in> set (pg_jobs s). j_max_attempts r \<le> 64"
  shows "\<forall>r \<in> set (pg_jobs (snd (pg_reap_expired_locks env s))). j_max_attempts r \<le> 64"
  unfolding pg_reap_expired_locks_def
  by (rule transaction_inv[of "\<lambda>s'. \<forall>r \<in> set (pg_jobs s'). j_max_attempts r \<le> 64"])
     (use assms in \<open>auto simp: Let_def update_jobs_def set_update unlocked_def\<close>)

lemma worker_status_leased:
  "worker_status reg (job_of (leased_row now w ls x)) n t = worker_status reg (job_of x) n t"
  by (simp add: worker_status_def task_end_def leased_row_def pg_lock_row_def
      split: option.split handler_end.split)

lemma worker_round_runs:
  assumes inv: "pg_inv s" and reap: "(if wr_reap_due r then pg_reap_expired_locks (wr_reap_env r) s else (Inr 0, s)) = (Inr n, s1)"
    and pass: "pg_throttle_reason (pg_now (wr_lease_env r)) (wc_queue cfg) (queue_policy (wc_queue cfg) s1)
        (pg_jobs s1) (pg_attempts s1) = None"
    and ls: "fits_int4 (wc_lease_seconds cfg)"
    and fresh: "inj (e_fresh (wr_start_env r))" "range (e_fresh (wr_start_env r)) \<inter> pg_used s = {}"
    and lim: "\<forall>x \<in> set (pg_jobs s). j_max_attempts x \<le> 64" and cfg: "sane_retry (wc_retry cfg)"
    and order: "\<And>os. mset (wr_finish_order r os) = mset os"
    and C: "C = pg_first_ready (pg_now (wr_lease_env r)) (wc_queue cfg) (wc_batch_size cfg) Fifo (pg_jobs s1)"
  shows "\<exists>s'. worker_round cfg r s = (Inr (length C), s') \<and> pg_inv s'
    \<and> (\<forall>x \<in> set C. status_of (pg_stored s') (j_id x) = Some (worker_status (wc_registry cfg) (job_of x)
         (pg_next_attempt_no (j_dataset_id x) (j_id x) (pg_attempts s1)) (wr_tasks r (j_id x))))
    \<and> (\<forall>k. k \<notin> j_id ` set C \<longrightarrow> pg_stored s' k = map_option job_of
         (row_at j_id (pg_expire_deadlines (pg_now (wr_lease_env r)) (wc_queue cfg) (pg_jobs s1)) k))"
proof -
  let ?now = "pg_now (wr_lease_env r)" and ?q = "wc_queue cfg" and ?w = "wc_worker_id cfg" and ?ls = "wc_lease_seconds cfg"
  have s1: "s1 = s \<or> s1 = snd (pg_reap_expired_locks (wr_reap_env r) s)" using reap by (auto split: if_splits)
  have inv1: "pg_inv s1" and used1: "pg_used s1 = pg_used s" and lim1: "\<forall>x \<in> set (pg_jobs s1). j_max_attempts x \<le> 64"
    using s1 inv lim pg_reap_inv[OF inv] pg_reap_used pg_reap_limits[OF lim] by auto
  define t where "t = pg_expire_deadlines ?now ?q (pg_jobs s1)"
  define t' where "t' = update_jobs ?now (\<lambda>r. j_id r \<in> j_id ` set C) (pg_lock_row ?now ?w ?ls) t"
  define s2 where "s2 = s1\<lparr>pg_jobs := t'\<rparr>"
  let ?batch = "map (\<lambda>x. job_of (leased_row ?now ?w ?ls x)) C"
  note rows = pg_leased_rows[OF inv1 C t_def t'_def]
  have lease: "pg_lease_jobs_batch (wr_lease_env r) ?q ?w ?ls (wc_batch_size cfg) s1 = (Inr ?batch, s2)"
    unfolding pg_lease_jobs_batch_def pg_lease_passes[OF inv1 ls pass] Let_def
    by (simp add: C[symmetric] t_def[symmetric] t'_def s2_def)
  have inv2: "pg_inv s2" using pg_lease_inv[OF inv1] lease by (metis pg_lease_jobs_batch_def snd_conv)
  have frame: "pg_stored s2 k = map_option job_of (row_at j_id t k)" if "k \<notin> j_id ` set C" for k
    using rows(3)[OF that] by (simp add: pg_stored_def s2_def)
  show ?thesis
  proof (cases "C = []")
    case True
    then have "worker_round cfg r s = (Inr (length C), s2)"
      using lease by (simp add: worker_round_def reap)
    then show ?thesis using inv2 frame True by (auto simp: t_def)
  next
    case False
    let ?d = "j_dataset_id (hd C)"
    have d: "j_dataset_id x = ?d" if "x \<in> set C" for x
      using first_ready_dataset that hd_in_set[OF False] unfolding C by blast
    have ids: "map j_id ?batch = map j_id C" by simp
    have h: "held_by (pg_stored s2) ?w (j_id x) \<and> pg_located s2 ?d (j_id x)" if x: "x \<in> set C" for x
      using rows(2)[OF x] d[OF x]
      by (simp add: held_by_pg pg_located_def s2_def held_row_def leased_row_def pg_lock_row_def)
    have mx: "j_max_attempts x \<le> 64" if "x \<in> set C" for x
      using first_ready_set that lim1 unfolding C by blast
    have used2: "pg_used s2 = pg_used s"
      unfolding used1[symmetric] s2_def
      by (rule pg_used_jobs)
         (simp add: t'_def t_def keeps_identityD[OF row_functions(3)] pg_expire_deadlines_def)
    have dist2: "distinct (map j_id ?batch)" unfolding ids by (rule rows(1))
    have fresh2: "range (e_fresh (wr_start_env r)) \<inter> pg_used s2 = {}" unfolding used2 by (rule fresh(2))
    have h2: "\<forall>j \<in> set ?batch. held_by (pg_stored s2) ?w (j_id j) \<and> pg_located s2 ?d (j_id j) \<and> j_dataset_id j = ?d"
      using h d by simp
    have mx2: "\<forall>j \<in> set ?batch. j_max_attempts j \<le> 64" using mx by simp
    have "?batch \<noteq> []" using False by simp
    from process_round_settles[OF inv2 fresh(1) fresh2 dist2 this h2 mx2 cfg order]
    obtain s' where s': "process_round cfg r ?batch s2 = (Inr (), s')" "pg_inv s'"
      "\<forall>j \<in> set ?batch. status_of (pg_stored s') (j_id j) = Some (worker_status (wc_registry cfg) j
           (pg_next_attempt_no ?d (j_id j) (pg_attempts s2)) (wr_tasks r (j_id j)))"
      "\<forall>k. k \<notin> j_id ` set ?batch \<longrightarrow> pg_stored s' k = pg_stored s2 k" by blast
    have att: "pg_attempts s2 = pg_attempts s1" by (simp add: s2_def)
    have "worker_round cfg r s = (Inr (length C), s')"
      using False by (simp add: worker_round_def reap lease s'(1))
    moreover have "status_of (pg_stored s') (j_id x) = Some (worker_status (wc_registry cfg) (job_of x)
         (pg_next_attempt_no (j_dataset_id x) (j_id x) (pg_attempts s1)) (wr_tasks r (j_id x)))" if x: "x \<in> set C" for x
    proof -
      have "job_of (leased_row ?now ?w ?ls x) \<in> set ?batch" using x by simp
      from s'(3)[rule_format, OF this] show ?thesis
        unfolding worker_status_leased job_of_sel leased_row_sel att d[OF x] .
    qed
    moreover have "pg_stored s' k = map_option job_of (row_at j_id t k)" if k: "k \<notin> j_id ` set C" for k
    proof -
      have "k \<notin> j_id ` set ?batch" using k by (simp add: image_image)
      then show ?thesis using s'(4) frame[OF k] by simp
    qed
    ultimately show ?thesis using s'(2) by (auto simp: t_def)
  qed
qed

end
