(* ===== verification/Postgres_Streams.thy ===== *)
theory Postgres_Streams
  imports Postgres_Contract Sql_Streams
begin

text \<open>
  The event streams of the PostgreSQL storage satisfy the stream contract when publications
  do not overlap: one sequence numbers the events of all streams.
\<close>

definition pg_log :: "PostgresBackend \<Rightarrow> string \<Rightarrow> Event list" where
  "pg_log s = log_of (pg_events s)"

definition pg_acked :: "PostgresBackend \<Rightarrow> string \<Rightarrow> string \<Rightarrow> int option" where
  "pg_acked s = acked_of (pg_offsets s)"

lemma pg_log_sorted: "pg_inv s \<Longrightarrow> log_sorted (pg_log s st)"
  by (simp add: pg_inv_def pg_streams_ok_def pg_log_def log_of_sorted sorted_wrt_map)

lemma pg_offset_rows: "pg_offset_row = offset_entry"
  by (simp add: fun_eq_iff pg_offset_row_def offset_entry_def)

lemma pg_publish_effect:
  "fst (pg_publish env st ne s) = Inr (pg_sequence s + 1)"
  "pg_log (snd (pg_publish env st ne s)) =
     (pg_log s)(st := pg_log s st @
       [\<lparr>ev_sequence_no = pg_sequence s + 1, ev_stream_name = st, ev_event_type = ne_event_type ne,
         ev_payload_json = ne_payload_json ne, ev_created_at = pg_now env\<rparr>])"
  "pg_acked (snd (pg_publish env st ne s)) = pg_acked s"
  by (simp_all add: pg_publish_def Let_def pg_notify_def pg_log_def pg_acked_def log_of_publish)

lemma pg_ack_effect:
  "pg_ack env st g n s = (Inr (), s\<lparr>pg_offsets := raise_offset (pg_now env) st g n (pg_offsets s)\<rparr>)"
  by (simp add: pg_ack_def raise_offset_def pg_offset_rows find_None_iff list_ex_iff)

lemma pg_prune_effect:
  "pg_log (snd (pg_prune_events st n s)) = (pg_log s)(st := after_seq (pg_prune_cutoff st n s) (pg_log s st))"
  "pg_acked (snd (pg_prune_events st n s)) = pg_acked s"
  "fst (pg_prune_events st n s) =
     Inr (length (pg_log s st) - length (after_seq (pg_prune_cutoff st n s) (pg_log s st)))"
  by (simp_all add: pg_prune_events_def Let_def pg_log_def pg_acked_def log_of_prune prune_count)

lemma pg_cutoff:
  "pg_prune_cutoff st n s \<le> n"
  "pg_acked s st g = Some m \<Longrightarrow> pg_prune_cutoff st n s \<le> m"
proof -
  have "pg_prune_cutoff st n s = lowest_offset st n (pg_offsets s)"
    by (simp add: pg_prune_cutoff_def lowest_offset_def)
  then show "pg_prune_cutoff st n s \<le> n" "pg_acked s st g = Some m \<Longrightarrow> pg_prune_cutoff st n s \<le> m"
    by (simp_all add: lowest_offset_le lowest_offset_acked pg_acked_def)
qed

interpretation ps: ordered_stream postgres_stream pg_inv pg_log pg_acked
proof
  fix s st n limit env g ne
  assume inv: "pg_inv s"
  show sorted: "log_sorted (pg_log s st)" by (rule pg_log_sorted[OF inv])
  show "sx_read_events postgres_stream st n limit s =
      (Inr (take (read_limit limit) (after_seq n (pg_log s st))), s)"
    using read_query[OF sorted[unfolded pg_log_def]] by (simp add: postgres_stream_def pg_read_events_def pg_log_def)
  show "\<exists>infos. sx_consumer_group_info postgres_stream st s = (Inr infos, s)
      \<and> map_option cg_last_acked_seq (find (\<lambda>c. cg_consumer_group c = g) infos) = pg_acked s st g"
    by (simp add: postgres_stream_def pg_consumer_group_info_def info_query pg_acked_def)
  show "fst (sx_ack postgres_stream env st g n s) = Inr ()
      \<and> pg_inv (snd (sx_ack postgres_stream env st g n s))
      \<and> pg_log (snd (sx_ack postgres_stream env st g n s)) = pg_log s
      \<and> (\<exists>m. pg_acked (snd (sx_ack postgres_stream env st g n s)) st g = Some m
           \<and> (case pg_acked s st g of None \<Rightarrow> 0 < n \<longrightarrow> m = n | Some k \<Rightarrow> m = max k n))
      \<and> (\<forall>st' g'. (st', g') \<noteq> (st, g) \<longrightarrow>
           pg_acked (snd (sx_ack postgres_stream env st g n s)) st' g' = pg_acked s st' g')"
    using pg_stream_calls_inv(2)[OF inv, of env st g n]
    by (simp add: postgres_stream_def pg_ack_effect pg_log_def pg_acked_def acked_raised acked_raised_other
        split: option.split)
  show "\<exists>m e. fst (sx_publish postgres_stream env st ne s) = Inr m
      \<and> pg_inv (snd (sx_publish postgres_stream env st ne s))
      \<and> seq e = m \<and> ev_event_type e = ne_event_type ne \<and> ev_payload_json e = ne_payload_json ne
      \<and> ev_stream_name e = st
      \<and> pg_log (snd (sx_publish postgres_stream env st ne s)) = (pg_log s)(st := pg_log s st @ [e])
      \<and> pg_acked (snd (sx_publish postgres_stream env st ne s)) = pg_acked s"
    using pg_stream_calls_inv(1)[OF inv]
    by (intro exI[of _ "pg_sequence s + 1"]
        exI[of _ "\<lparr>ev_sequence_no = pg_sequence s + 1, ev_stream_name = st, ev_event_type = ne_event_type ne,
          ev_payload_json = ne_payload_json ne, ev_created_at = pg_now env\<rparr>"])
       (simp add: postgres_stream_def pg_publish_effect)
  show "\<exists>c. c \<le> n \<and> (\<forall>g m. pg_acked s st g = Some m \<longrightarrow> c \<le> m)
      \<and> pg_inv (snd (sx_prune_events postgres_stream st n s))
      \<and> pg_log (snd (sx_prune_events postgres_stream st n s)) = (pg_log s)(st := after_seq c (pg_log s st))
      \<and> pg_acked (snd (sx_prune_events postgres_stream st n s)) = pg_acked s
      \<and> fst (sx_prune_events postgres_stream st n s) =
          Inr (length (pg_log s st) - length (after_seq c (pg_log s st)))"
    using pg_stream_calls_inv(3)[OF inv] pg_cutoff
    by (intro exI[of _ "pg_prune_cutoff st n s"])
       (simp add: postgres_stream_def pg_prune_effect)
qed

end
