(* ===== verification/Postgres_Properties.thy ===== *)
theory Postgres_Properties
  imports Worker_Round Postgres_Streams Client_Properties Stream_Properties Sample_States
begin

text \<open>
  The PostgreSQL storage and the worker process on it: integrity of the tables, leasing and
  the policies of queues, the guard in front of enqueueing, outcomes, the round of a worker,
  streams and the timeline of a job.
\<close>

section \<open>Sample states\<close>

definition sample_stamp :: "datetime \<Rightarrow> string" where
  "sample_stamp t = (if t < seconds 3600 then ''00'' else ''01'')"

definition pg_queued :: "int option \<Rightarrow> PostgresBackend" where
  "pg_queued interval = snd (pg_enqueue sample_stamp (sample_env 1000 1) (sample_job interval) pg_new)"

definition pg_leased :: "int option \<Rightarrow> PostgresBackend" where
  "pg_leased interval = snd (pg_lease_jobs_batch (sample_env 2000 10) ''mail'' ''w1'' 10 5 (pg_queued interval))"

definition pg_started :: "int option \<Rightarrow> PostgresBackend" where
  "pg_started interval =
     snd (pg_start_attempts_batch (sample_env 3000 20) [''mail_00''] [1] ''w1'' (pg_leased interval))"

definition pg_failed :: PostgresBackend where
  "pg_failed =
     snd (pg_reschedule_for_retry (sample_env 4000 40) 1 20 ''w1'' 7 5000 ''TIMEOUT'' ''slow'' 1 (pg_started None))"

definition pg_limited :: "int \<Rightarrow> PostgresBackend" where
  "pg_limited n = snd (upsert_policy ''mail'' 100 n 500 (pg_queued None))"

definition pg_published :: PostgresBackend where
  "pg_published =
     snd (pg_publish (sample_env 2000 0) ''orders'' (NewEvent_new ''paid'' JNull)
       (snd (pg_publish (sample_env 1000 0) ''orders'' (NewEvent_new ''created'' JNull) pg_new)))"

lemma pg_exec_sel:
  "pg_exec stamp envs (PTrait (CEnqueue job)) s = snd (pg_enqueue stamp (envs 0) job s)"
  "pg_exec stamp envs (PTrait (CLease q w ls bs policy)) s =
     snd (pg_lease_jobs_batch_with_ordering (envs 0) q w ls bs policy s)"
  "pg_exec stamp envs (PTrait (CStart ds is w)) s = snd (pg_start_attempts_batch (envs 0) ds is w s)"
  "pg_exec stamp envs (PTrait (CRetry i a w l t c m n)) s =
     snd (pg_reschedule_for_retry (envs 0) i a w l t c m n s)"
  "pg_exec stamp envs (PPolicy q x y z) s = snd (upsert_policy q x y z s)"
  "pg_exec stamp envs (PTrait (CPublish st e)) s = snd (pg_publish (envs 0) st e s)"
  by simp_all

lemma pg_samples_reachable:
  "pg_reachable sample_stamp (pg_queued interval)" "pg_reachable sample_stamp (pg_leased None)"
  "pg_reachable sample_stamp (pg_started None)" "pg_reachable sample_stamp pg_failed"
  "pg_reachable sample_stamp (pg_limited n)" "pg_reachable sample_stamp pg_published"
proof -
  note next_call = pg_reachable.next_call[where envs = "\<lambda>_. e" for e]
  have "pg_fresh (sample_env t n) pg_new" for t n by (simp add: pg_fresh_def pg_used_def pg_new_def)
  note start = next_call[OF pg_reachable.init this]
  show q: "pg_reachable sample_stamp (pg_queued i)" for i
    using start[of sample_stamp 1000 1 "PTrait (CEnqueue (sample_job i))"]
    by (simp only: pg_exec_sel pg_queued_def)
  have "pg_fresh (sample_env 2000 10) (pg_queued None)" by code_simp
  from next_call[OF q this, of "PTrait (CLease ''mail'' ''w1'' 10 5 Fifo)"]
  show l: "pg_reachable sample_stamp (pg_leased None)"
    by (simp only: pg_exec_sel pg_leased_def pg_lease_jobs_batch_def)
  have "pg_fresh (sample_env 3000 20) (pg_leased None)" by code_simp
  from next_call[OF l this, of "PTrait (CStart [''mail_00''] [1] ''w1'')"]
  show st: "pg_reachable sample_stamp (pg_started None)" by (simp only: pg_exec_sel pg_started_def)
  have "pg_fresh (sample_env 4000 40) (pg_started None)" by code_simp
  from next_call[OF st this, of "PTrait (CRetry 1 20 ''w1'' 7 5000 ''TIMEOUT'' ''slow'' 1)"]
  show "pg_reachable sample_stamp pg_failed" by (simp only: pg_exec_sel pg_failed_def)
  have "pg_fresh (sample_env 2000 10) (pg_queued None)" by code_simp
  from next_call[OF q this, of "PPolicy ''mail'' 100 n 500"]
  show "pg_reachable sample_stamp (pg_limited n)" by (simp only: pg_exec_sel pg_limited_def)
  have "pg_fresh (sample_env 2000 0) (snd (pg_publish (sample_env 1000 0) ''orders'' (NewEvent_new ''created'' JNull) pg_new))"
    by code_simp
  from next_call[OF start[of sample_stamp 1000 0 "PTrait (CPublish ''orders'' (NewEvent_new ''created'' JNull))",
        unfolded pg_exec_sel] this, of "PTrait (CPublish ''orders'' (NewEvent_new ''paid'' JNull))"]
  show "pg_reachable sample_stamp pg_published" by (simp only: pg_exec_sel pg_published_def)
qed

lemmas pg_samples_inv = pg_samples_reachable[THEN pg_reachable_inv]

section \<open>Integrity\<close>

text \<open>
  C5: The tables of the PostgreSQL storage after any sequence of calls of the storage trait, the
  repositories, the runner, the policies and the guard, with identifiers drawn fresh: job
  identifiers are unique also across datasets, an idempotency key belongs to one job of a
  dataset, every attempt lies in the dataset of a stored job and its number is its own among the
  attempts of that job, every policy decision is about a stored job of its dataset, a job is
  running exactly when it is locked, no archived job is still stored, event numbers ascend in the
  order of publication and none is above the sequence they are drawn from, and a queue has one
  counter per minute.
\<close>

theorem postgres_tables_sound:
  assumes "pg_reachable stamp s"
  shows "distinct (map j_id (pg_jobs s))
    \<and> (\<forall>r \<in> set (pg_jobs s). \<forall>r' \<in> set (pg_jobs s). j_dataset_id r = j_dataset_id r' \<longrightarrow>
         j_idempotency_key r = j_idempotency_key r' \<longrightarrow> j_idempotency_key r \<noteq> None \<longrightarrow> r = r')
    \<and> (\<forall>a \<in> set (pg_attempts s). \<exists>r \<in> set (pg_jobs s). j_id r = at_job_id a \<and> j_dataset_id r = at_dataset_id a)
    \<and> (\<forall>a \<in> set (pg_attempts s). \<forall>b \<in> set (pg_attempts s).
         at_job_id a = at_job_id b \<longrightarrow> at_attempt_no a = at_attempt_no b \<longrightarrow> a = b)
    \<and> (\<forall>d \<in> set (pg_decisions s). \<exists>r \<in> set (pg_jobs s). j_id r = pd_job_id d \<and> j_dataset_id r = pd_dataset_id d)
    \<and> (\<forall>r \<in> set (pg_jobs s). j_status r = ''running'' \<longleftrightarrow> j_locked_by r \<noteq> None)
    \<and> (\<forall>r \<in> set (pg_jobs s). j_id r \<notin> ar_id ` set (pg_archive s))
    \<and> sorted_wrt (<) (map ev_sequence_no (pg_events s))
    \<and> (\<forall>e \<in> set (pg_events s). ev_sequence_no e \<le> pg_sequence s)
    \<and> distinct (map (\<lambda>c. (rc_queue c, rc_window_start c)) (pg_counters s))"
proof -
  note inv = pg_reachable_inv[OF assms]
  note parts = pg_inv_parts[OF inv]
  have "inj_on (\<lambda>r. (j_dataset_id r, j_idempotency_key r)) {r \<in> set (pg_jobs s). j_idempotency_key r \<noteq> None}"
    using parts(1) by (simp add: jobs_ok_def row_keys_def distinct_map)
  then have "\<forall>r \<in> set (pg_jobs s). \<forall>r' \<in> set (pg_jobs s). j_dataset_id r = j_dataset_id r' \<longrightarrow>
      j_idempotency_key r = j_idempotency_key r' \<longrightarrow> j_idempotency_key r \<noteq> None \<longrightarrow> r = r'"
    by (auto simp: inj_on_def)
  moreover have "\<forall>a \<in> set (pg_attempts s). \<exists>r \<in> set (pg_jobs s). j_id r = at_job_id a \<and> j_dataset_id r = at_dataset_id a"
    using parts(2) by (auto simp: pg_attempts_ok_def list_all_iff belongs_def list_ex_iff)
  moreover have "inj_on attempt_key (set (pg_attempts s))"
    using parts(2) by (simp add: pg_attempts_ok_def distinct_map)
  then have "\<forall>a \<in> set (pg_attempts s). \<forall>b \<in> set (pg_attempts s).
      at_job_id a = at_job_id b \<longrightarrow> at_attempt_no a = at_attempt_no b \<longrightarrow> a = b"
    by (simp add: inj_on_def attempt_key_def)
  moreover have "\<forall>d \<in> set (pg_decisions s). \<exists>r \<in> set (pg_jobs s). j_id r = pd_job_id d \<and> j_dataset_id r = pd_dataset_id d"
    using parts(3) by (auto simp: pg_decisions_ok_def list_all_iff belongs_def list_ex_iff)
  moreover have "\<forall>e \<in> set (pg_events s). ev_sequence_no e \<le> pg_sequence s"
    using parts(5) by (simp add: pg_streams_ok_def list_all_iff)
  moreover have "\<forall>r \<in> set (pg_jobs s). j_status r = ''running'' \<longleftrightarrow> j_locked_by r \<noteq> None"
    using parts(1) by (auto simp: jobs_ok_def list_all_iff pg_job_ok_def)
  moreover have "\<forall>r \<in> set (pg_jobs s). j_id r \<notin> ar_id ` set (pg_archive s)"
    using parts(4) by (auto simp: pg_archive_ok_def)
  ultimately show ?thesis
    using pg_distinct[OF inv] parts(5,6) by (simp add: pg_streams_ok_def pg_guard_ok_def)
qed

theorem postgres_tables_sound_witness:
  "\<exists>a r. pg_attempts (pg_started None) = [a] \<and> r \<in> set (pg_jobs (pg_started None))
     \<and> j_id r = at_job_id a \<and> j_dataset_id r = at_dataset_id a"
proof -
  have "length (pg_attempts (pg_started None)) = 1" by code_simp
  then obtain a where a: "pg_attempts (pg_started None) = [a]" by (auto simp: length_Suc_conv)
  have "\<forall>a \<in> set (pg_attempts (pg_started None)). \<exists>r \<in> set (pg_jobs (pg_started None)).
      j_id r = at_job_id a \<and> j_dataset_id r = at_dataset_id a"
    using postgres_tables_sound[OF pg_samples_reachable(3)] by blast
  then show ?thesis using a by auto
qed

section \<open>Leasing and policies\<close>

text \<open>
  C6: When the policy of the queue lets a lease call pass, the call hands out exactly the first
  ready jobs, up to the batch size clamped to 1..4096, of the dataset of the ready job that
  waits longest, in lease order and locked for the worker: the statement with its common table
  expressions equals filtering and sorting the table. Every other job is left as enforcing the
  deadlines of the queue leaves it.
\<close>

theorem postgres_lease_spec:
  assumes "pg_reachable stamp s" "fits_int4 ls"
    and "pg_throttle_reason (pg_now env) q (queue_policy q s) (pg_jobs s) (pg_attempts s) = None"
    and "C = pg_first_ready (pg_now env) q bs policy (pg_jobs s)"
    and "pg_lease_jobs_batch_with_ordering env q w ls bs policy s = (res, s')"
  shows "res = Inr (map (\<lambda>r. job_of (leased_row (pg_now env) w ls r)) C)
    \<and> (\<forall>x \<in> set C. pg_stored s' (j_id x) = Some (job_of (leased_row (pg_now env) w ls x)))
    \<and> (\<forall>k. k \<notin> j_id ` set C \<longrightarrow>
         pg_stored s' k = map_option job_of (row_at j_id (pg_expire_deadlines (pg_now env) q (pg_jobs s)) k))"
proof -
  note inv = pg_reachable_inv[OF assms(1)]
  note rows = pg_leased_rows[of s C "pg_now env" q bs policy _ _ w ls, OF inv assms(4) refl refl]
  from pg_lease_passes[OF inv assms(2,3), of w bs policy] assms(5)
  have "res = Inr (map (\<lambda>r. job_of (leased_row (pg_now env) w ls r)) C)"
    "pg_jobs s' = update_jobs (pg_now env) (\<lambda>r. j_id r \<in> j_id ` set C) (pg_lock_row (pg_now env) w ls)
       (pg_expire_deadlines (pg_now env) q (pg_jobs s))"
    by (simp_all add: Let_def assms(4)[symmetric])
  then show ?thesis using rows(2,3) by (simp add: pg_stored_def)
qed

theorem postgres_lease_spec_witness:
  "\<exists>s'. pg_lease_jobs_batch_with_ordering (sample_env 2000 10) ''mail'' ''w1'' 10 5 Fifo (pg_queued None)
     = (Inr (map (\<lambda>r. job_of (leased_row 2000 ''w1'' 10 r)) (pg_jobs (pg_queued None))), s')
     \<and> length (pg_jobs (pg_queued None)) = 1"
proof -
  let ?s = "pg_queued None" and ?env = "sample_env 2000 10"
  obtain res s' where run: "pg_lease_jobs_batch_with_ordering ?env ''mail'' ''w1'' 10 5 Fifo ?s = (res, s')"
    by fastforce
  have "fits_int4 10"
    "pg_throttle_reason (pg_now ?env) ''mail'' (queue_policy ''mail'' ?s) (pg_jobs ?s) (pg_attempts ?s) = None"
    by code_simp+
  moreover have "pg_first_ready (pg_now ?env) ''mail'' 5 Fifo (pg_jobs ?s) = pg_jobs ?s" "length (pg_jobs ?s) = 1"
    "pg_now ?env = 2000" by code_simp+
  ultimately show ?thesis
    using postgres_lease_spec[OF pg_samples_reachable(1) _ _ refl run] run by simp
qed

text \<open>
  When the policy of the queue stops a lease call (too many jobs in flight, or too many
  attempts in the last minute), the call hands out nothing whatever its batch size: it records
  one decision with the reason, for the job it would have handed out first, and delays exactly
  that job by the delay of the policy; attempts are unchanged and every other job is left as
  enforcing the deadlines of the queue leaves it.
\<close>

theorem postgres_throttle_effect:
  assumes "pg_reachable stamp s" "queue_policy q s = Some p"
    and "pg_throttle_reason (pg_now env) q (Some p) (pg_jobs s) (pg_attempts s) = Some code"
    and "pg_first_ready (pg_now env) q 1 policy (pg_jobs s) = [c]"
    and "e_fresh env 0 \<notin> pd_id ` set (pg_decisions s)"
    and "pg_lease_jobs_batch_with_ordering env q w ls bs policy s = (res, s')"
  shows "res = Inr [] \<and> pg_attempts s' = pg_attempts s
    \<and> map (\<lambda>d. (pd_job_id d, pd_decision d, pd_reason_code d)) (pg_decisions s')
        = map (\<lambda>d. (pd_job_id d, pd_decision d, pd_reason_code d)) (pg_decisions s) @ [(j_id c, ''THROTTLED'', code)]
    \<and> (\<exists>j. pg_stored s' (j_id c) = Some j \<and> j_status j = ''queued''
          \<and> j_run_at j = pg_now env + milliseconds (qp_throttle_delay_ms p))
    \<and> (\<forall>k. k \<noteq> j_id c \<longrightarrow>
         pg_stored s' k = map_option job_of (row_at j_id (pg_expire_deadlines (pg_now env) q (pg_jobs s)) k))"
proof -
  note inv = pg_reachable_inv[OF assms(1)]
  let ?t = "pg_expire_deadlines (pg_now env) q (pg_jobs s)"
  let ?f = "\<lambda>r. r\<lparr>j_run_at := pg_now env + milliseconds (qp_throttle_delay_ms p)\<rparr>"
  have keep: "keeps_identity ?f" by (simp add: keeps_identity_def)
  have s': "res = Inr []" "pg_attempts s' = pg_attempts s"
    "pg_jobs s' = update_jobs (pg_now env) (\<lambda>r. j_id r = j_id c) ?f ?t"
    "map (\<lambda>d. (pd_job_id d, pd_decision d, pd_reason_code d)) (pg_decisions s')
        = map (\<lambda>d. (pd_job_id d, pd_decision d, pd_reason_code d)) (pg_decisions s) @ [(j_id c, ''THROTTLED'', code)]"
    using pg_lease_throttled[OF inv assms(2-5), of w ls bs] assms(6) by auto
  have c: "c \<in> set (pg_jobs s)" "pg_ready (pg_now env) q c"
    using first_ready_set[of c "pg_now env" q 1 policy "pg_jobs s"] assms(4) by simp_all
  then have "c \<in> set ?t" by (rule ready_after_expiry)
  then have row: "row_at j_id ?t (j_id c) = Some c"
    using row_at_unique[of j_id ?t] pg_distinct[OF inv] by simp
  have "pg_stored s' k = map_option job_of (map_option (\<lambda>r. if j_id r = j_id c then (?f r)\<lparr>j_updated_at := pg_now env\<rparr> else r)
      (row_at j_id ?t k))" for k
    unfolding pg_stored_def s'(3) by (subst row_at_update_jobs[OF keep]) simp
  moreover have "map_option (\<lambda>r. if j_id r = j_id c then (?f r)\<lparr>j_updated_at := pg_now env\<rparr> else r)
      (row_at j_id ?t k) = row_at j_id ?t k" if "k \<noteq> j_id c" for k
    using that by (cases "row_at j_id ?t k") (auto dest: row_at_SomeD)
  ultimately show ?thesis
    using s' row c(2) by (auto simp: pg_ready_def pg_due_def)
qed

theorem postgres_throttle_effect_witness:
  "\<exists>s' j. pg_lease_jobs_batch_with_ordering (sample_env 2000 10) ''mail'' ''w1'' 10 5 Fifo (pg_limited 0) = (Inr [], s')
     \<and> pg_stored s' 1 = Some j \<and> j_run_at j = 500002000"
proof -
  let ?s = "pg_limited 0" and ?env = "sample_env 2000 10"
  let ?p = "\<lparr>qp_queue = ''mail'', qp_max_attempts_per_minute = 100, qp_max_in_flight = 0, qp_throttle_delay_ms = 500\<rparr>"
  obtain res s' where run: "pg_lease_jobs_batch_with_ordering ?env ''mail'' ''w1'' 10 5 Fifo ?s = (res, s')"
    by fastforce
  have p: "queue_policy ''mail'' ?s = Some ?p"
    "pg_throttle_reason (pg_now ?env) ''mail'' (Some ?p) (pg_jobs ?s) (pg_attempts ?s) = Some ''IN_FLIGHT_EXCEEDED''"
    "e_fresh ?env 0 \<notin> pd_id ` set (pg_decisions ?s)" "pg_now ?env + milliseconds (qp_throttle_delay_ms ?p) = 500002000"
    by code_simp+
  have "length (pg_first_ready (pg_now ?env) ''mail'' 1 Fifo (pg_jobs ?s)) = 1"
    "map j_id (pg_first_ready (pg_now ?env) ''mail'' 1 Fifo (pg_jobs ?s)) = [1]" by code_simp+
  then obtain c where c: "pg_first_ready (pg_now ?env) ''mail'' 1 Fifo (pg_jobs ?s) = [c]" "j_id c = 1"
    by (auto simp: length_Suc_conv)
  show ?thesis
    using postgres_throttle_effect[OF pg_samples_reachable(5) p(1,2) c(1) p(3) run] p(4) c(2) run by auto
qed

text \<open>
  C12: The limit of a policy on the jobs in flight binds up to one batch: it is compared once,
  before a lease call, so a call made below the limit may pass it by at most the batch size
  minus one; a call made at the limit never adds a job in flight.
\<close>

theorem postgres_in_flight_bound:
  assumes "pg_reachable stamp s" "fits_int4 ls" "queue_policy q s = Some p"
  shows "let s' = snd (pg_lease_jobs_batch_with_ordering env q w ls bs policy s)
    in pg_in_flight q (pg_jobs s') \<le> max (pg_in_flight q (pg_jobs s)) (qp_max_in_flight p - 1 + clamp 1 4096 bs)
       \<and> (qp_max_in_flight p \<le> pg_in_flight q (pg_jobs s) \<longrightarrow>
            pg_in_flight q (pg_jobs s') = pg_in_flight q (pg_jobs s))"
proof (cases "pg_throttle_reason (pg_now env) q (queue_policy q s) (pg_jobs s) (pg_attempts s)")
  case None
  note inv = pg_reachable_inv[OF assms(1)]
  let ?C = "pg_first_ready (pg_now env) q bs policy (pg_jobs s)"
  have "pg_in_flight q (pg_jobs s) < qp_max_in_flight p"
    using None assms(3) by (auto simp: pg_throttle_reason_def split: if_splits)
  moreover have "int (length ?C) \<le> clamp 1 4096 bs"
    using first_ready_length[of "pg_now env" q bs policy "pg_jobs s"] clamp_range[of 1 4096 bs] by linarith
  ultimately show ?thesis
    using lease_in_flight[OF inv refl refl, where now = "pg_now env" and q = q and bs = bs and policy = policy and w = w and ls = ls] pg_lease_passes[OF inv assms(2) None, of w bs policy]
    by (simp add: Let_def)
next
  case (Some code)
  show ?thesis using stopped_in_flight[OF Some, of w ls bs policy] by (simp add: Let_def)
qed

theorem postgres_in_flight_bound_witness:
  "pg_in_flight ''mail'' (pg_jobs (snd (pg_lease_jobs_batch_with_ordering (sample_env 2000 10) ''mail'' ''w1'' 10 1 Fifo
     (pg_limited 1)))) \<le> 1
   \<and> pg_in_flight ''mail'' (pg_jobs (snd (pg_lease_jobs_batch_with_ordering (sample_env 2000 10) ''mail'' ''w1'' 10 5 Fifo
     (pg_limited 0)))) = 0"
proof
  let ?p = "\<lambda>n. \<lparr>qp_queue = ''mail'', qp_max_attempts_per_minute = 100, qp_max_in_flight = n, qp_throttle_delay_ms = 500\<rparr>"
  note bound = postgres_in_flight_bound[OF pg_samples_reachable(5), of 10 "''mail''" _ "?p _" "sample_env 2000 10" "''w1''"]
  have fits: "fits_int4 10" by code_simp
  have "queue_policy ''mail'' (pg_limited 1) = Some (?p 1)" "pg_in_flight ''mail'' (pg_jobs (pg_limited 1)) = 0"
    by code_simp+
  then show "pg_in_flight ''mail'' (pg_jobs (snd (pg_lease_jobs_batch_with_ordering (sample_env 2000 10) ''mail'' ''w1'' 10 1 Fifo
     (pg_limited 1)))) \<le> 1"
    using bound[OF fits, of 1 1 1 Fifo] by (simp add: clamp_def Let_def)
  have "queue_policy ''mail'' (pg_limited 0) = Some (?p 0)" "pg_in_flight ''mail'' (pg_jobs (pg_limited 0)) = 0"
    by code_simp+
  then show "pg_in_flight ''mail'' (pg_jobs (snd (pg_lease_jobs_batch_with_ordering (sample_env 2000 10) ''mail'' ''w1'' 10 5 Fifo
     (pg_limited 0)))) = 0"
    using bound[OF fits, of 0 0 5 Fifo] by (simp add: Let_def)
qed

section \<open>Enqueueing\<close>

lemma enqueue_holds_key:
  assumes inv: "pg_inv s" and run: "pg_enqueue stamp env job s = (Inr i, s')" and k: "nj_idempotency_key job = Some k"
  shows "\<exists>r \<in> set (pg_jobs s'). j_id r = i \<and> j_dataset_id r = dataset_id_for stamp (nj_queue job) (nj_run_at job)
    \<and> j_idempotency_key r = Some k"
proof -
  let ?row = "enqueued_row stamp env job"
  obtain t' where up: "pg_upsert_job (pg_now env) ?row (pg_jobs s) = Inr (i, t')" and s': "pg_jobs s' = t'"
    using run by (auto simp: pg_enqueue_def pg_notify_def split: if_splits sum.splits prod.splits)
  show ?thesis
    using pg_inv_parts(1)[OF inv] up
  proof (cases rule: pg_upsert_cases)
    case (1 e)
    then have e: "e \<in> set (pg_jobs s)" "key_conflict ?row e" by (auto simp: find_Some_iff)
    have "e\<lparr>j_updated_at := pg_now env\<rparr> \<in> set t'"
      using e(1) 1(3) by (auto simp: update_jobs_def set_update same_job_def)
    moreover have "j_dataset_id e = dataset_id_for stamp (nj_queue job) (nj_run_at job)" "j_idempotency_key e = Some k"
      using e(2) k by (simp_all add: key_conflict_def)
    ultimately show ?thesis using 1(2) s' by (intro bexI[of _ "e\<lparr>j_updated_at := pg_now env\<rparr>"]) simp_all
  next
    case 2
    then show ?thesis using s' k by simp
  qed
qed

lemma pg_used_jobsI: "r \<in> set (pg_jobs s) \<Longrightarrow> j_id r \<in> pg_used s"
  by (simp add: pg_used_def)

text \<open>
  C23: An idempotency key is honoured within a dataset, the jobs of a queue that are due in the
  same hour: a second request for the same queue with the key returns the identifier of the
  first job exactly when both are due in the same hour; otherwise it never does.
\<close>

theorem postgres_enqueue_idempotent:
  assumes "pg_reachable stamp s" "pg_fresh env s" "pg_enqueue stamp env job s = (Inr i, s')"
    and "nj_idempotency_key job = Some k" "nj_idempotency_key job' = Some k" "nj_queue job' = nj_queue job"
    and "opt_int4 (nj_timeout_seconds job')" "opt_int4 (nj_recurring_interval_seconds job')" "pg_fresh env' s'"
  shows "fst (pg_enqueue stamp env' job' s') = Inr i \<longleftrightarrow> stamp (nj_run_at job') = stamp (nj_run_at job)"
proof -
  note inv = pg_reachable_inv[OF assms(1)]
  have inv': "pg_inv s'" using pg_enqueue_inv[OF inv assms(2), of stamp job] assms(3) by simp
  let ?row = "enqueued_row stamp env' job'"
  obtain r where r: "r \<in> set (pg_jobs s')" "j_id r = i" "j_idempotency_key r = Some k"
    "j_dataset_id r = dataset_id_for stamp (nj_queue job) (nj_run_at job)"
    using enqueue_holds_key[OF inv assms(3,4)] by blast
  have same: "key_conflict ?row r \<longleftrightarrow> stamp (nj_run_at job') = stamp (nj_run_at job)"
    using r(3,4) assms(5,6) by (auto simp: key_conflict_def dataset_id_for_def)
  have fresh: "e_fresh env' 0 \<notin> j_id ` set (pg_jobs s')" using assms(9) by (simp add: pg_fresh_def pg_used_def)
  have run: "fst (pg_enqueue stamp env' job' s') = Inr (case find (key_conflict ?row) (pg_jobs s') of
      Some e \<Rightarrow> j_id e | None \<Rightarrow> e_fresh env' 0)"
  proof (cases "find (key_conflict ?row) (pg_jobs s')")
    case None
    then have "\<not> list_ex (key_conflict ?row) (pg_jobs s')" by (simp add: find_None_iff list_ex_iff)
    moreover have "\<not> list_ex (same_job ?row) (pg_jobs s')" using fresh by (auto simp: same_job_def list_ex_iff)
    ultimately show ?thesis
      using assms(7,8) None by (simp add: pg_enqueue_def pg_upsert_job_def pg_insert_job_def)
  qed (use assms(7,8) in \<open>simp add: pg_enqueue_def pg_upsert_job_def\<close>)
  show ?thesis
  proof (cases "find (key_conflict ?row) (pg_jobs s')")
    case None
    then have "\<not> key_conflict ?row r" using r(1) by (simp add: find_None_iff)
    then show ?thesis using run None same fresh r(1,2) by auto
  next
    case (Some e)
    then have e: "e \<in> set (pg_jobs s')" "key_conflict ?row e" by (auto simp: find_Some_iff)
    have "inj_on (\<lambda>r. (j_dataset_id r, j_idempotency_key r)) {r \<in> set (pg_jobs s'). j_idempotency_key r \<noteq> None}"
      using pg_inv_parts(1)[OF inv'] by (simp add: jobs_ok_def row_keys_def distinct_map)
    then have "key_conflict ?row r \<longleftrightarrow> r = e"
      using e r(1) by (auto simp: key_conflict_def inj_on_def)
    moreover have "j_id e = i \<longleftrightarrow> r = e"
      using e(1) r(1,2) pg_distinct[OF inv'] by (auto simp: distinct_map dest: inj_onD)
    ultimately show ?thesis using run Some same by simp
  qed
qed

theorem postgres_enqueue_idempotent_witness:
  "fst (pg_enqueue sample_stamp (sample_env 2000 5) (sample_job None) (pg_queued None)) = Inr 1
   \<and> fst (pg_enqueue sample_stamp (sample_env 2000 5) ((sample_job None)\<lparr>nj_run_at := seconds 4000\<rparr>) (pg_queued None))
       \<noteq> Inr 1"
proof -
  have "fst (pg_enqueue sample_stamp (sample_env 1000 1) (sample_job None) pg_new) = Inr 1" by code_simp
  then have first: "pg_enqueue sample_stamp (sample_env 1000 1) (sample_job None) pg_new = (Inr 1, pg_queued None)"
    by (simp add: pg_queued_def prod_eq_iff)
  have fresh: "pg_fresh (sample_env 1000 1) pg_new" "pg_fresh (sample_env 2000 5) (pg_queued None)" by code_simp+
  have job: "nj_idempotency_key (sample_job None) = Some ''k1''" "opt_int4 (nj_timeout_seconds (sample_job None))"
    "opt_int4 (nj_recurring_interval_seconds (sample_job None))" by code_simp+
  have stamps: "sample_stamp (seconds 4000) \<noteq> sample_stamp (nj_run_at (sample_job None))" by code_simp
  note two = postgres_enqueue_idempotent[OF pg_reachable.init fresh(1) first job(1) _ _ _ _ fresh(2)]
  have "fst (pg_enqueue sample_stamp (sample_env 2000 5) (sample_job None) (pg_queued None)) = Inr 1"
    using two[of "sample_job None"] job by simp
  moreover have "fst (pg_enqueue sample_stamp (sample_env 2000 5) ((sample_job None)\<lparr>nj_run_at := seconds 4000\<rparr>)
      (pg_queued None)) \<noteq> Inr 1"
    using two[of "(sample_job None)\<lparr>nj_run_at := seconds 4000\<rparr>"] job stamps by simp
  ultimately show ?thesis by blast
qed

section \<open>The guard\<close>

text \<open>The requests for a queue in a minute that a sequence of rate checks admits.\<close>

definition same_window :: "string \<Rightarrow> datetime \<Rightarrow> Env \<times> string \<Rightarrow> bool" where
  "same_window q w c \<longleftrightarrow> snd c = q \<and> window_start (e_now (fst c)) = w"

fun admitted :: "EnqueueGuardConfig \<Rightarrow> string \<Rightarrow> datetime \<Rightarrow> (Env \<times> string) list \<Rightarrow> PostgresBackend \<Rightarrow> nat" where
  "admitted cfg q w [] s = 0"
| "admitted cfg q w (c # cs) s =
     (case check_rate cfg (fst c) (snd c) s of
        (res, s') \<Rightarrow> (if same_window q w c \<and> res = Inr () then 1 else 0) + admitted cfg q w cs s')"

lemma rate_count_bump:
  "rate_count q w (bump_counter q' w' t) = rate_count q w t + (if (q', w') = (q, w) then 1 else 0)"
proof (cases "list_ex (\<lambda>r. rc_queue r = q' \<and> rc_window_start r = w') t")
  case True
  then show ?thesis
  proof -
    have "find (\<lambda>r. rc_queue r = q \<and> rc_window_start r = w)
        (sql_update (\<lambda>r. rc_queue r = q' \<and> rc_window_start r = w') (\<lambda>r. r\<lparr>rc_count := rc_count r + 1\<rparr>) t) =
      map_option (\<lambda>r. if rc_queue r = q' \<and> rc_window_start r = w' then r\<lparr>rc_count := rc_count r + 1\<rparr> else r)
        (find (\<lambda>r. rc_queue r = q \<and> rc_window_start r = w) t)" by (rule find_update) simp
    then show ?thesis
      using True by (auto simp: rate_count_def bump_counter_def list_ex_iff find_None_iff
          split: option.split dest: find_SomeD)
  qed
next
  case False
  then have "find (\<lambda>r. rc_queue r = q' \<and> rc_window_start r = w') t = None"
    by (simp add: find_None_iff list_ex_iff)
  then show ?thesis
    using False by (auto simp: rate_count_def bump_counter_def find_append split: option.split)
qed

lemma check_rate_cases:
  assumes "check_rate cfg env q s = (res, s')"
  shows "res = Inr () \<longleftrightarrow> rate_count q (window_start (e_now env)) (pg_counters s) < gc_max_enqueues_per_minute_per_queue cfg"
    "res = Inr () \<Longrightarrow> pg_counters s' = bump_counter q (window_start (e_now env)) (pg_counters s)"
    "pg_counters s' = pg_counters s \<or> pg_counters s' = bump_counter q (window_start (e_now env)) (pg_counters s)"
  using assms
  by (auto simp: check_rate_def Let_def rate_count_bump ingest_record_def split: if_splits)

text \<open>
  C24: The guard admits, of the requests for a queue within one minute, exactly the first ones up
  to the configured maximum, whatever requests for other queues and other minutes come in
  between, and in whatever order they are checked.
\<close>

theorem guard_admits_maximum:
  "int (admitted cfg q w cs s) =
     min (int (length (filter (same_window q w) cs)))
       (max 0 (gc_max_enqueues_per_minute_per_queue cfg - rate_count q w (pg_counters s)))"
proof (induction cs arbitrary: s)
  case (Cons c cs)
  obtain res s' where run: "check_rate cfg (fst c) (snd c) s = (res, s')" by fastforce
  let ?n = "rate_count q w (pg_counters s)" and ?max = "gc_max_enqueues_per_minute_per_queue cfg"
  note cases = check_rate_cases[OF run]
  have count: "rate_count q w (bump_counter (snd c) (window_start (e_now (fst c))) (pg_counters s)) =
      ?n + (if same_window q w c then 1 else 0)" by (simp add: rate_count_bump same_window_def)
  show ?case
  proof (cases "same_window q w c")
    case True
    then have res: "res = Inr () \<longleftrightarrow> ?n < ?max" using cases(1) by (simp add: same_window_def)
    have "res = Inr () \<Longrightarrow> rate_count q w (pg_counters s') = ?n + 1" using cases(2) count True by simp
    moreover have "?n \<le> rate_count q w (pg_counters s')" using cases(3) count True by auto
    ultimately show ?thesis using True res Cons.IH[of s'] by (auto simp: run)
  next
    case False
    then have "rate_count q w (pg_counters s') = ?n" using cases(3) count by auto
    then show ?thesis using False Cons.IH[of s'] by (simp add: run)
  qed
qed simp

end
