(* ===== verification/Worker_Properties.thy ===== *)
theory Worker_Properties
  imports Postgres_Properties Postgres_Reports
begin

text \<open>
  The worker process over the PostgreSQL storage, the client's own loop over it, what reports
  of outcomes do to recurring jobs and to jobs of other workers, streams, and the timeline of a
  job.
\<close>

section \<open>A round of the worker\<close>

definition sample_task :: "uuid \<Rightarrow> TaskRun" where
  "sample_task i =
     \<lparr>tr_permit_closed = False, tr_elapsed = False, tr_end = HandlerOk, tr_millis = 7,
      tr_envs = (\<lambda>n. sample_env 5000 60), tr_rng = (\<lambda>lo hi. hi)\<rparr>"

definition sample_worker :: WorkerConfig where
  "sample_worker =
     \<lparr>wc_worker_id = ''w1'', wc_queue = ''mail'', wc_lease_seconds = 10, wc_batch_size = 5,
      wc_registry = register_with_timeout ''send'' 5000 [], wc_retry = RetryConfig_default\<rparr>"

definition sample_round :: WorkerRound where
  "sample_round =
     \<lparr>wr_reap_due = True, wr_reap_env = sample_env 1500 8, wr_lease_env = sample_env 2000 10,
      wr_start_env = sample_env 3000 20, wr_tasks = sample_task, wr_finish_order = rev,
      wr_success_envs = (\<lambda>n. sample_env 4000 40)\<rparr>"

text \<open>
  C4: A round of the worker process whose queue the policy lets pass: after the reaper's pass it
  leases the first ready jobs, runs each handler under its timeout, reports the successes in one
  batch and the failures one by one, in whatever order the tasks finish, and returns the size of
  the batch. Every job of the batch ends with the status its handler calls for: succeeded,
  queued again for a retryable error with attempts left, dead-lettered otherwise, for a panic
  and for an unknown job type. Every other job is left as enforcing the deadlines leaves it.
  Lease durations fit into 32 bits, the retry configuration is not negative and no job allows
  more than 64 attempts.
\<close>

theorem worker_round_settles:
  assumes "pg_reachable stamp s"
    and "(if wr_reap_due r then pg_reap_expired_locks (wr_reap_env r) s else (Inr 0, s)) = (Inr n, s1)"
    and "pg_throttle_reason (pg_now (wr_lease_env r)) (wc_queue cfg) (queue_policy (wc_queue cfg) s1)
        (pg_jobs s1) (pg_attempts s1) = None"
    and "fits_int4 (wc_lease_seconds cfg)"
    and "inj (e_fresh (wr_start_env r))" "range (e_fresh (wr_start_env r)) \<inter> pg_used s = {}"
    and "\<forall>x \<in> set (pg_jobs s). j_max_attempts x \<le> 64" "sane_retry (wc_retry cfg)"
    and "\<And>os. mset (wr_finish_order r os) = mset os"
    and "C = pg_first_ready (pg_now (wr_lease_env r)) (wc_queue cfg) (wc_batch_size cfg) Fifo (pg_jobs s1)"
  shows "\<exists>s'. worker_round cfg r s = (Inr (length C), s')
    \<and> (\<forall>x \<in> set C. status_of (pg_stored s') (j_id x) = Some (worker_status (wc_registry cfg) (job_of x)
         (pg_next_attempt_no (j_dataset_id x) (j_id x) (pg_attempts s1)) (wr_tasks r (j_id x))))
    \<and> (\<forall>k. k \<notin> j_id ` set C \<longrightarrow> pg_stored s' k = map_option job_of
         (row_at j_id (pg_expire_deadlines (pg_now (wr_lease_env r)) (wc_queue cfg) (pg_jobs s1)) k))"
  using worker_round_runs[OF pg_reachable_inv[OF assms(1)] assms(2-10)] by blast

theorem worker_round_settles_witness:
  "\<exists>s'. worker_round sample_worker sample_round (pg_queued None) = (Inr 1, s')
     \<and> status_of (pg_stored s') 1 = Some ''succeeded''"
proof -
  let ?s = "pg_queued None" and ?C = "pg_jobs (pg_queued None)"
  have n: "pg_reap_expired_locks (wr_reap_env sample_round) ?s = (Inr 0, ?s)"
  proof -
    have "filter (pg_lease_expired (pg_now (wr_reap_env sample_round))) (pg_jobs ?s) = []" by code_simp
    then show ?thesis by (simp add: pg_reap_expired_locks_def transaction_def)
  qed
  have "wr_reap_due sample_round" by (simp add: sample_round_def)
  then have reap: "(if wr_reap_due sample_round then pg_reap_expired_locks (wr_reap_env sample_round) ?s else (Inr 0, ?s))
      = (Inr 0, ?s)" using n by simp
  have facts: "pg_throttle_reason (pg_now (wr_lease_env sample_round)) (wc_queue sample_worker)
      (queue_policy (wc_queue sample_worker) ?s) (pg_jobs ?s) (pg_attempts ?s) = None"
    "fits_int4 (wc_lease_seconds sample_worker)" "\<forall>x \<in> set (pg_jobs ?s). j_max_attempts x \<le> 64"
    "pg_used ?s = {1}" "length ?C = 1"
    "?C = pg_first_ready (pg_now (wr_lease_env sample_round)) (wc_queue sample_worker)
       (wc_batch_size sample_worker) Fifo (pg_jobs ?s)"
    by code_simp+
  obtain x where x: "?C = [x]" using facts(5) by (auto simp: length_Suc_conv)
  have "map j_id ?C = [1]" "map j_job_type ?C = [''send'']" by code_simp+
  then have sel: "j_id x = 1" "j_job_type x = ''send''" using x by simp_all
  have "worker_status (wc_registry sample_worker) (job_of x) m (wr_tasks sample_round (j_id x)) = ''succeeded''" for m
    by (simp add: worker_status_def task_end_def sel sample_worker_def sample_round_def sample_task_def handler_for_def
        register_with_timeout_def register_with_options_def entry_run_def HandlerOptions_new_def opt_timeout_def)
  moreover have "inj (e_fresh (wr_start_env sample_round))"
    "range (e_fresh (wr_start_env sample_round)) \<inter> pg_used ?s = {}"
    unfolding facts(4) by (auto simp: sample_round_def sample_env_def inj_def)
  moreover have "sane_retry (wc_retry sample_worker)" by (simp add: sample_worker_def sane_retry_def)
  moreover have "mset (wr_finish_order sample_round os) = mset os" for os by (simp add: sample_round_def)
  ultimately show ?thesis
    using worker_round_settles[OF pg_samples_reachable(1) reap facts(1,2) _ _ facts(3) _ _ facts(6)] x sel(1)
    by fastforce
qed

section \<open>The client's loop\<close>

text \<open>
  C22: The client's own worker loop over PostgreSQL, for a queue whose handlers succeed, are
  registered and whose jobs do not recur, and with no policies: \<^verbatim>\<open>run_until_empty\<close> returns within
  one more round than there are waiting jobs, with the number of waiting jobs that are now
  succeeded; every waiting job has succeeded, was dead-lettered because of its deadline, or is
  queued for a later time.
\<close>

theorem postgres_drain_completes:
  assumes "pg_reachable stamp s" "pg_policies s = []" "fits_int4 (qf_lease_seconds f)"
    and "all_tasks_ok rounds" "runnable f (pg_stored s)" "fresh_rounds rounds (pg_used s)"
    and "card (waiting (pg_stored s) (qf_queue f)) < fuel"
  shows "\<exists>n s'. run_until_empty fuel (postgres_backend stamp) f rounds 0 s = Some (Inr n, s')
    \<and> n = card {i \<in> waiting (pg_stored s) (qf_queue f). status_of (pg_stored s') i = Some ''succeeded''}
    \<and> (\<forall>i \<in> waiting (pg_stored s) (qf_queue f).
         status_of (pg_stored s') i \<in> {Some ''succeeded'', Some ''dlq'', Some ''queued''})
    \<and> (\<exists>r. \<forall>i j. pg_stored s' i = Some j \<longrightarrow> j_status j = ''queued'' \<longrightarrow> j_queue j = qf_queue f
         \<longrightarrow> e_now (rd_lease_env (rounds r)) < j_run_at j)"
proof -
  have "pg_free_inv s" using pg_reachable_inv[OF assms(1)] assms(2) by (simp add: pg_free_inv_def)
  from pb.run_until_empty_drains[OF this assms(4-7,3), of stamp 0] show ?thesis
    unfolding pb.drained_def by auto
qed

theorem postgres_drain_completes_witness:
  "\<exists>n s'. run_until_empty 2 (postgres_backend sample_stamp) sample_flow sample_rounds 0 (pg_queued None) = Some (Inr n, s')
     \<and> status_of (pg_stored s') 1 \<in> {Some ''succeeded'', Some ''dlq'', Some ''queued''}"
proof -
  let ?s = "pg_queued None"
  have "length (pg_jobs ?s) = 1" by code_simp
  then obtain x where x: "pg_jobs ?s = [x]" by (auto simp: length_Suc_conv)
  have facts: "map j_id (pg_jobs ?s) = [1]" "map j_status (pg_jobs ?s) = [''queued'']" "map j_queue (pg_jobs ?s) = [''mail'']"
    "map j_job_type (pg_jobs ?s) = [''send'']" "map j_recurring_interval_seconds (pg_jobs ?s) = [None]"
    "pg_policies ?s = []" "pg_used ?s = {1}" by code_simp+
  have stored: "pg_stored ?s i = (if i = 1 then Some (job_of x) else None)" for i
    using facts(1) by (simp add: pg_stored_def x row_at_Cons)
  have w: "waiting (pg_stored ?s) ''mail'' = {1}"
    using facts(2,3) by (auto simp: waiting_def stored x split: if_splits)
  have "runnable sample_flow (pg_stored ?s)"
    using facts(4,5) by (auto simp: runnable_def stored x sample_flow_sel split: if_splits)
  moreover have "all_tasks_ok sample_rounds" by (simp add: all_tasks_ok_def sample_rounds_def)
  moreover have "fresh_rounds sample_rounds (pg_used ?s)" unfolding facts(7) by (rule sample_rounds_fresh[of _ 2]) auto
  moreover have "fits_int4 (qf_lease_seconds sample_flow)" by (simp add: sample_flow_sel fits_int4_def)
  moreover have "card (waiting (pg_stored ?s) (qf_queue sample_flow)) < 2" by (simp add: sample_flow_sel w)
  ultimately obtain n s' where
    "run_until_empty 2 (postgres_backend sample_stamp) sample_flow sample_rounds 0 ?s = Some (Inr n, s')"
    "\<forall>i \<in> waiting (pg_stored ?s) (qf_queue sample_flow).
       status_of (pg_stored s') i \<in> {Some ''succeeded'', Some ''dlq'', Some ''queued''}"
    using postgres_drain_completes[OF pg_samples_reachable(1) facts(6), of sample_flow sample_rounds 2] by blast
  then show ?thesis using w by (simp add: sample_flow_sel)
qed

section \<open>Reports\<close>

text \<open>
  The runner's report of a retryable failure does not ask who holds the lease: a worker whose
  lease has expired, whose job was requeued and leased by another worker, puts the job back into
  the queue and takes the lease away from the worker that runs it now.
\<close>

theorem stale_failure_requeues:
  assumes "pg_reachable stamp s" "held_by (pg_stored s) w i" "w' \<noteq> w"
    and "is_retryable (classify_error c)" "n < mx" "next_delay_seconds n cfg rng = Returns d"
  shows "\<exists>s' j. on_failure cfg envs rng i a w' l c m n mx s = (Inr (), s')
    \<and> pg_stored s' i = Some j \<and> j_status j = ''queued'' \<and> j_locked_by j = None"
proof -
  note inv = pg_reachable_inv[OF assms(1)]
  obtain r where r: "row_at j_id (pg_jobs s) i = Some r" "j_status r = ''running''"
    using assms(2) by (auto simp: held_by_pg held_row_def)
  define s1 where "s1 = snd (pg_finish_failed (envs 0) a l c m s)"
  have fin: "pg_finish_failed (envs 0) a l c m s = (Inr (), s1)" by (simp add: s1_def pg_finish_failed_def)
  have inv1: "pg_inv s1" unfolding s1_def by (rule pg_finish_inv[OF inv])
  have r1: "row_at j_id (pg_jobs s1) i = Some r" using r(1) by (simp add: s1_def pg_finish_failed_def)
  let ?g = "\<lambda>r. (unlocked r)\<lparr>j_status := ''queued'', j_run_at := pg_timestamp (e_now (envs 1) + seconds d),
      j_last_error_code := Some c, j_last_error_message := Some m\<rparr>"
  from pg_settle_one[of s1 i r "\<lambda>x. j_status x = ''running''" ?g, OF inv1 r1 r(2) settled_rows(1,4), of "envs 1"]
  obtain s' where "repo_reschedule_for_retry (envs 1) i (e_now (envs 1) + seconds d) (Some c) (Some m) s1 = (Inr (), s')"
    "pg_stored s' i = Some (job_of ((?g r)\<lparr>j_updated_at := pg_now (envs 1)\<rparr>))"
    unfolding repo_reschedule_for_retry_def by blast
  then show ?thesis using assms(4-6) by (simp add: on_failure_def fin Let_def lift_def)
qed

theorem stale_failure_requeues_witness:
  "\<exists>s' j. on_failure RetryConfig_default (\<lambda>_. sample_env 9000 90) (\<lambda>lo hi. hi) 1 20 ''w0'' 7 ''TIMEOUT'' ''slow'' 1 3
     (pg_leased None) = (Inr (), s') \<and> pg_stored s' 1 = Some j \<and> j_locked_by j = None"
proof -
  have "length (pg_jobs (pg_leased None)) = 1" by code_simp
  then obtain x where x: "pg_jobs (pg_leased None) = [x]" by (auto simp: length_Suc_conv)
  have "map (\<lambda>x. (j_id x, j_status x, j_locked_by x)) (pg_jobs (pg_leased None)) = [(1, ''running'', Some ''w1'')]"
    by code_simp
  then have held: "held_by (pg_stored (pg_leased None)) ''w1'' 1"
    by (simp add: held_by_def pg_stored_def x row_at_Cons)
  have "is_retryable (classify_error ''TIMEOUT'')" by code_simp
  moreover obtain d where "next_delay_seconds 1 RetryConfig_default (\<lambda>lo hi. hi) = Returns d"
    using sane_delay[of RetryConfig_default 1 3 "\<lambda>lo hi. hi"] by (auto simp: sane_retry_def)
  ultimately show ?thesis
    using stale_failure_requeues[OF pg_samples_reachable(2) held, of "''w0''" "''TIMEOUT''" 1 3] by fastforce
qed

lemma chain_jobs:
  assumes "P (snd x)" "\<And>s1. P s1 \<Longrightarrow> P (snd (g s1))"
  shows "P (snd (case x of (Inl e, s1) \<Rightarrow> (Inl e, s1) | (Inr r, s1) \<Rightarrow> g s1))"
  using assms by (cases x; cases "fst x") auto

lemma batch_reports_ids:
  "map j_id (pg_jobs (snd (pg_mark_succeeded_batch env d us w s))) = map j_id (pg_jobs s)"
  "map j_id (pg_jobs (snd (on_success_batch envs d us w s))) = map j_id (pg_jobs s)"
proof -
  define P where "P s' \<longleftrightarrow> map j_id (pg_jobs s') = map j_id (pg_jobs s)" for s' :: PostgresBackend
  have P0: "P s" by (simp add: P_def)
  have settle: "P (snd (discard (pg_settle e Q succeeded_row k err) s1))" if "P s1" for e Q k err s1
    using that by (simp add: P_def pg_settle_def Let_def keeps_identityD[OF row_functions(2)])
  have close: "P (snd (pg_close_attempt Q f e s1))" if "P s1" for Q f e s1
    using that by (simp add: P_def pg_close_attempt_def)
  have one: "P (snd (pg_succeed_one e d w u s1))" if "P s1" for e u s1
    unfolding pg_succeed_one_def
    by (cases u) (simp only: prod.case, rule chain_jobs[of P, OF close[OF that] settle])
  have "P (snd (for_each (\<lambda>e. pg_succeed_one e d w) (\<lambda>_. env) us s))"
    by (rule for_each_invariant[of us P, OF one P0])
  then have "P (snd (pg_mark_succeeded_batch env d us w s))"
    using P0 by (simp add: pg_mark_succeeded_batch_def transaction_inv[of P])
  then show "map j_id (pg_jobs (snd (pg_mark_succeeded_batch env d us w s))) = map j_id (pg_jobs s)"
    by (simp only: P_def)
  have "P (snd (pg_finish_succeeded_batch e ups s))" for e ups
    by (simp add: P_def pg_finish_succeeded_batch_def)
  moreover have "P (snd (discard (repo_mark_succeeded_batch_for_dataset e d is w) s1))" if "P s1" for e "is" s1
    using settle[OF that] that by (simp add: repo_mark_succeeded_batch_for_dataset_def)
  ultimately have "us \<noteq> [] \<Longrightarrow> P (snd (on_success_batch envs d us w s))"
    unfolding on_success_batch_def Let_def by (simp only: if_False) (rule chain_jobs[of P])
  then have "P (snd (on_success_batch envs d us w s))"
    using P0 by (cases "us = []") (simp_all add: on_success_batch_def)
  then show "map j_id (pg_jobs (snd (on_success_batch envs d us w s))) = map j_id (pg_jobs s)"
    by (simp only: P_def)
qed

text \<open>
  A single success report of a recurring job schedules exactly its next occurrence, one
  interval (at least a second) after the last; the two batch reports of successes, the one of the
  storage trait and the one the worker process uses, never add a job: a recurring job that is
  reported in a batch does not recur.
\<close>

theorem batch_success_ends_recurrence:
  assumes "pg_reachable stamp s" "row_at j_id (pg_jobs s) i = Some r" "held_row i w r" "pg_opened s a i"
    and "e_fresh env 0 \<notin> pg_used s" "j_recurring_interval_seconds r = Some n"
  shows "(\<exists>s' j. pg_mark_succeeded stamp env i a w l s = (Inr (), s')
      \<and> map j_id (pg_jobs s') = map j_id (pg_jobs s) @ [e_fresh env 0]
      \<and> pg_stored s' (e_fresh env 0) = Some j \<and> j_status j = ''queued'' \<and> j_replay_of_job_id j = Some i
      \<and> j_run_at j = pg_timestamp (j_run_at r + seconds (max n 1)))
    \<and> map j_id (pg_jobs (snd (pg_mark_succeeded_batch env d [(i, a, l)] w s))) = map j_id (pg_jobs s)
    \<and> map j_id (pg_jobs (snd (on_success_batch envs d [(i, a, l)] w s))) = map j_id (pg_jobs s)"
proof -
  note inv = pg_reachable_inv[OF assms(1)]
  let ?next = "next_row stamp env ((succeeded_row r)\<lparr>j_updated_at := pg_now env\<rparr>) n"
  let ?t = "update_jobs (pg_now env) (held_row i w) succeeded_row (pg_jobs s)"
  obtain s' where s': "pg_mark_succeeded stamp env i a w l s = (Inr (), s')" "pg_jobs s' = ?t @ [?next]"
    using pg_succeed_runs[OF inv assms(2-5), of stamp l] assms(6) by simp
  have ids: "map j_id ?t = map j_id (pg_jobs s)" by (simp add: keeps_identityD[OF row_functions(2)])
  then have "e_fresh env 0 \<notin> j_id ` set ?t" using assms(5) by (metis list.set_map pg_used_def UnI1)
  then have "pg_stored s' (e_fresh env 0) = Some (job_of ?next)"
    by (simp add: pg_stored_def s'(2) row_at_snoc row_at_absent)
  moreover have "j_status ?next = ''queued''" "j_replay_of_job_id (job_of ?next) = Some i"
    "j_run_at ?next = pg_timestamp (j_run_at r + seconds (max n 1))"
    using row_at_SomeD[OF assms(2)] by (simp_all add: next_row_def Let_def succeeded_row_def unlocked_def Job.truncate_def)
  ultimately show ?thesis using s' ids batch_reports_ids by auto
qed

lemma recurring_reachable: "pg_reachable sample_stamp (pg_started (Some 60))"
proof -
  note next_call = pg_reachable.next_call[where envs = "\<lambda>_. e" for e]
  have "pg_fresh (sample_env 2000 10) (pg_queued (Some 60))" by code_simp
  from next_call[OF pg_samples_reachable(1) this, of "PTrait (CLease ''mail'' ''w1'' 10 5 Fifo)"]
  have l: "pg_reachable sample_stamp (pg_leased (Some 60))"
    by (simp only: pg_exec_sel pg_leased_def pg_lease_jobs_batch_def)
  have "pg_fresh (sample_env 3000 20) (pg_leased (Some 60))" by code_simp
  from next_call[OF l this, of "PTrait (CStart [''mail_00''] [1] ''w1'')"]
  show ?thesis by (simp only: pg_exec_sel pg_started_def)
qed

theorem batch_success_ends_recurrence_witness:
  "(\<exists>s' j. pg_mark_succeeded sample_stamp (sample_env 4000 40) 1 20 ''w1'' 7 (pg_started (Some 60)) = (Inr (), s')
     \<and> pg_stored s' 40 = Some j \<and> j_run_at j = seconds 60)
   \<and> map j_id (pg_jobs (snd (pg_mark_succeeded_batch (sample_env 4000 40) ''mail_00'' [(1, 20, 7)] ''w1''
        (pg_started (Some 60))))) = [1]"
proof -
  let ?s = "pg_started (Some 60)"
  have "length (pg_jobs ?s) = 1" by code_simp
  then obtain x where x: "pg_jobs ?s = [x]" by (auto simp: length_Suc_conv)
  have "map (\<lambda>x. (j_id x, j_status x, j_locked_by x, j_recurring_interval_seconds x, j_run_at x)) (pg_jobs ?s) =
      [(1, ''running'', Some ''w1'', Some 60, 0)]" by code_simp
  then have sel: "j_id x = 1" "held_row 1 ''w1'' x" "j_recurring_interval_seconds x = Some 60" "j_run_at x = 0"
    by (simp_all add: x held_row_def)
  have row: "row_at j_id (pg_jobs ?s) 1 = Some x" using sel(1) by (simp add: x row_at_Cons)
  have more: "pg_opened ?s 20 1" "e_fresh (sample_env 4000 40) 0 \<notin> pg_used ?s" "e_fresh (sample_env 4000 40) 0 = 40"
    "pg_timestamp (0 + seconds (max 60 1)) = seconds 60" by code_simp+
  note both = batch_success_ends_recurrence[OF recurring_reachable row sel(2) more(1,2) sel(3), of 7 "''mail_00''"]
  from both[THEN conjunct1] obtain s' j where
    "pg_mark_succeeded sample_stamp (sample_env 4000 40) 1 20 ''w1'' 7 ?s = (Inr (), s')"
    "pg_stored s' (e_fresh (sample_env 4000 40) 0) = Some j" "j_run_at j = pg_timestamp (j_run_at x + seconds (max 60 1))"
    by blast
  moreover have "map j_id (pg_jobs (snd (pg_mark_succeeded_batch (sample_env 4000 40) ''mail_00'' [(1, 20, 7)] ''w1'' ?s))) = [1]"
    using both x sel(1) by simp
  ultimately show ?thesis using more(3,4) sel(4) by auto
qed

section \<open>Streams\<close>

text \<open>
  C25: A consumer group of a PostgreSQL stream that reads and acknowledges batch by batch receives,
  in any reachable state, pruned or not, and with any number of rounds, the first of its unread
  events in the order of publication, each once; a batch holds the limit clamped to 1..1000.
\<close>

theorem postgres_consume_in_order:
  assumes "pg_reachable stamp s"
  shows "fst (consume postgres_stream env st g limit rounds s) =
    take (rounds * read_limit limit) (unread (acked_of (pg_offsets s) st g) (log_of (pg_events s) st))"
  using ps.consume_in_order[OF pg_reachable_inv[OF assms], of env st g limit rounds]
  by (simp add: pg_acked_def pg_log_def)

theorem postgres_consume_in_order_witness:
  "map ev_event_type (fst (consume postgres_stream (sample_env 3000 0) ''orders'' ''billing'' 1 2 pg_published)) =
     [''created'', ''paid'']"
proof -
  have "map ev_event_type (take (2 * read_limit 1) (unread (acked_of (pg_offsets pg_published) ''orders'' ''billing'')
      (log_of (pg_events pg_published) ''orders''))) = [''created'', ''paid'']" by code_simp
  then show ?thesis using postgres_consume_in_order[OF pg_samples_reachable(6)] by simp
qed

section \<open>The timeline\<close>

lemma last_match_greatest:
  assumes "sorted (map f xs)" "find P (rev xs) = Some a"
  shows "a \<in> set xs \<and> P a \<and> (\<forall>b \<in> set xs. P b \<longrightarrow> f b \<le> f a)"
  using assms
proof (induction xs rule: rev_induct)
  case (snoc x xs)
  then show ?case by (cases "P x") (auto simp: sorted_append)
qed simp

text \<open>
  C32: The timeline of a stored job tells its whole story: its attempts are all attempts of the
  job, in strictly ascending order of their numbers; the story holds exactly these attempts and
  the decisions about the job, in the order of time, decisions before attempts of the same
  moment; the last error is that of the failed attempt with the highest number, and there is
  none exactly when no attempt failed; reading it changes nothing.
\<close>

theorem timeline_complete:
  assumes "pg_reachable stamp s" "row_at j_id (pg_jobs s) i = Some r"
  shows "\<exists>t. build_timeline i s = (Inr (Some t), s) \<and> tl_status t = j_status r
    \<and> sorted_wrt (<) (map ta_attempt_no (tl_attempts t))
    \<and> set (tl_attempts t) = timeline_attempt ` {a \<in> set (pg_attempts s). at_job_id a = i}
    \<and> sorted (map story_key (tl_story t))
    \<and> set (tl_story t) = story_attempt ` set (tl_attempts t)
         \<union> story_decision ` {d \<in> set (pg_decisions s). pd_job_id d = i}
    \<and> (case tl_last_error t of
          None \<Rightarrow> \<forall>a \<in> set (pg_attempts s). at_job_id a = i \<longrightarrow> at_status a \<noteq> ''failed''
        | Some e \<Rightarrow> \<exists>a \<in> set (pg_attempts s). at_job_id a = i \<and> at_status a = ''failed''
            \<and> le_error_code e = at_error_code a
            \<and> (\<forall>b \<in> set (pg_attempts s). at_job_id b = i \<longrightarrow> at_status b = ''failed'' \<longrightarrow>
                 at_attempt_no b \<le> at_attempt_no a))"
proof -
  note inv = pg_reachable_inv[OF assms(1)]
  let ?A = "filter (\<lambda>a. at_job_id a = i) (pg_attempts s)"
  define raw where "raw = sort_key at_attempt_no ?A"
  define ds where "ds = sort_key pd_created_at (filter (\<lambda>d. pd_job_id d = i) (pg_decisions s))"
  have raw: "set raw = {a \<in> set (pg_attempts s). at_job_id a = i}" "sorted (map at_attempt_no raw)"
    by (simp_all add: raw_def)
  have "inj_on attempt_key (set (pg_attempts s))" "distinct (pg_attempts s)"
    using pg_inv_parts(2)[OF inv] by (simp_all add: pg_attempts_ok_def distinct_map)
  then have "distinct (map at_attempt_no raw)"
    by (auto simp: raw_def distinct_map attempt_key_def inj_on_def)
  then have strict: "sorted_wrt (<) (map at_attempt_no raw)" using raw(2) by (simp add: strict_sorted_iff)
  define err where "err = map_option (\<lambda>a. \<lparr>le_error_code = at_error_code a, le_error_message = at_error_message a\<rparr>)
      (find (\<lambda>a. at_status a = ''failed'') (rev raw))"
  define t where "t = \<lparr>tl_job_id = j_id r, tl_status = j_status r, tl_queue = j_queue r, tl_job_type = j_job_type r,
      tl_run_at = j_run_at r, tl_next_run_at = (if j_status r = ''queued'' then Some (j_run_at r) else None),
      tl_last_worker_id = (if raw = [] then None else Some (at_worker_id (last raw))), tl_last_error = err,
      tl_attempts = map timeline_attempt raw,
      tl_story = sort_key story_key (map story_attempt (map timeline_attempt raw) @ map story_decision ds)\<rparr>"
  have "build_timeline i s = (Inr (Some t), s)"
    using assms(2)
    by (simp add: build_timeline_def pg_get_job_def pg_list_attempts_for_job_def list_for_job_def Let_def
        raw_def[symmetric] ds_def[symmetric] err_def[symmetric] t_def)
  moreover have "sorted_wrt (<) (map ta_attempt_no (tl_attempts t))"
    using strict by (simp add: t_def comp_def timeline_attempt_def)
  moreover have "set (tl_attempts t) = timeline_attempt ` {a \<in> set (pg_attempts s). at_job_id a = i}"
    by (simp add: t_def raw(1))
  moreover have "set (tl_story t) = story_attempt ` set (tl_attempts t)
         \<union> story_decision ` {d \<in> set (pg_decisions s). pd_job_id d = i}"
    by (simp add: t_def ds_def image_image)
  moreover have "case err of
          None \<Rightarrow> \<forall>a \<in> set (pg_attempts s). at_job_id a = i \<longrightarrow> at_status a \<noteq> ''failed''
        | Some e \<Rightarrow> \<exists>a \<in> set (pg_attempts s). at_job_id a = i \<and> at_status a = ''failed''
            \<and> le_error_code e = at_error_code a
            \<and> (\<forall>b \<in> set (pg_attempts s). at_job_id b = i \<longrightarrow> at_status b = ''failed'' \<longrightarrow>
                 at_attempt_no b \<le> at_attempt_no a)"
  proof (cases "find (\<lambda>a. at_status a = ''failed'') (rev raw)")
    case None
    then have "\<forall>a \<in> set raw. at_status a \<noteq> ''failed''" by (auto simp: find_None_iff)
    then show ?thesis using None raw(1) by (simp add: err_def)
  next
    case (Some a)
    from last_match_greatest[OF raw(2) this] have a: "a \<in> set raw" "at_status a = ''failed''"
      "\<forall>b \<in> set raw. at_status b = ''failed'' \<longrightarrow> at_attempt_no b \<le> at_attempt_no a" by auto
    then show ?thesis using Some raw(1) by (auto simp: err_def)
  qed
  ultimately show ?thesis by (intro exI[of _ t]) (simp add: t_def)
qed

theorem timeline_complete_witness:
  "\<exists>t e. build_timeline 1 pg_failed = (Inr (Some t), pg_failed) \<and> tl_last_error t = Some e
     \<and> le_error_code e = Some ''TIMEOUT''"
proof -
  have "length (pg_jobs pg_failed) = 1" "map j_id (pg_jobs pg_failed) = [1]" by code_simp+
  then obtain x where "pg_jobs pg_failed = [x]" "j_id x = 1" by (auto simp: length_Suc_conv)
  then have row: "row_at j_id (pg_jobs pg_failed) 1 = Some x" by (simp add: row_at_Cons)
  have "length (pg_attempts pg_failed) = 1"
    "map (\<lambda>a. (at_job_id a, at_status a, at_error_code a)) (pg_attempts pg_failed) = [(1, ''failed'', Some ''TIMEOUT'')]"
    by code_simp+
  then obtain a where a: "pg_attempts pg_failed = [a]" "at_job_id a = 1" "at_status a = ''failed''"
    "at_error_code a = Some ''TIMEOUT''" by (auto simp: length_Suc_conv)
  obtain t where t: "build_timeline 1 pg_failed = (Inr (Some t), pg_failed)"
    "case tl_last_error t of
          None \<Rightarrow> \<forall>a \<in> set (pg_attempts pg_failed). at_job_id a = 1 \<longrightarrow> at_status a \<noteq> ''failed''
        | Some e \<Rightarrow> \<exists>a \<in> set (pg_attempts pg_failed). at_job_id a = 1 \<and> at_status a = ''failed''
            \<and> le_error_code e = at_error_code a
            \<and> (\<forall>b \<in> set (pg_attempts pg_failed). at_job_id b = 1 \<longrightarrow> at_status b = ''failed'' \<longrightarrow>
                 at_attempt_no b \<le> at_attempt_no a)"
    using timeline_complete[OF pg_samples_reachable(4) row] by blast
  then show ?thesis using a by (cases "tl_last_error t") auto
qed

end
