(* ===== verification/Dashboard_Api.thy ===== *)
theory Dashboard_Api
  imports Postgres_Reports Worker_Binary
begin

text \<open>
  The HTTP interface of the dashboard, \<^verbatim>\<open>azums-dashboard/src/api/mod.rs\<close>: its routes, the check
  of the API key in front of them, and its handlers over the repositories of the PostgreSQL
  storage; and the metrics page of \<^verbatim>\<open>admin/metrics.rs\<close>. A request is a value of a datatype with
  one constructor per route, after the framework has parsed its path, query and body. The
  length of a payload in JSON, the text of a time, of an identifier's error message and the
  statistics the server keeps on its tables come from the world.
\<close>

section \<open>Requests and responses\<close>

datatype StatusCode =
    OK | BAD_REQUEST | UNAUTHORIZED | NOT_FOUND | PAYLOAD_TOO_LARGE | TOO_MANY_REQUESTS
  | INTERNAL_SERVER_ERROR

record TableMaintenanceInfo =
  tm_table_name :: string
  tm_dead_tuples :: int
  tm_live_tuples :: int
  tm_last_vacuum :: "datetime option"
  tm_last_autovacuum :: "datetime option"
  tm_last_analyze :: "datetime option"
  tm_last_autoanalyze :: "datetime option"

record DashboardWorld =
  dw_stamp :: "datetime \<Rightarrow> string"
  dw_json_bytes :: "json \<Rightarrow> nat"
  dw_show_time :: "datetime \<Rightarrow> string"
  dw_show_error :: "anyhow \<Rightarrow> string"
  dw_collate :: "string list \<Rightarrow> string list"
  dw_statistics :: "anyhow + TableMaintenanceInfo list"

record ApiState =
  as_maintenance :: bool
  as_enqueue_guard :: EnqueueGuardConfig
  as_api_token :: "string option"

record Headers =
  h_x_api_key :: "string option"
  h_authorization :: "string option"

record ReplayRequest =
  rr_queue :: "string option"
  rr_run_at :: "datetime option"

record EnqueueRequest =
  er_queue :: "string option"
  er_job_type :: string
  er_payload_json :: json
  er_run_at :: "datetime option"
  er_priority :: "int option"
  er_max_attempts :: "int option"

record ListJobsQuery =
  lq_queue :: "string option"
  lq_status :: "string option"
  lq_limit :: "int option"
  lq_cursor_created_at :: "datetime option"
  lq_cursor_id :: "uuid option"

record ListJobsResponse =
  lr_items :: "JobListItem list"
  lr_next_cursor_created_at :: "datetime option"
  lr_next_cursor_id :: "uuid option"

record ExplainResponse =
  ex_job_id :: uuid
  ex_status :: string
  ex_queue :: string
  ex_job_type :: string
  ex_summary :: string
  ex_attempts :: int
  ex_failed_attempts :: int
  ex_next_run_at :: "datetime option"
  ex_last_error :: "LastError option"
  ex_dlq_reason_code :: "string option"
  ex_suggested_action :: "string option"

text \<open>\<^verbatim>\<open>metrics_prom\<close> prints the four numbers of the snapshot into a fixed text.\<close>

datatype Body =
    PlainText string
  | ErrorBody string
  | AdminPage
  | EnqueueResponse uuid
  | ReplayResponse uuid uuid
  | TimelineBody JobTimeline
  | JobsBody ListJobsResponse
  | DecisionsBody "IngestDecisionRow list"
  | MetricsResponse datetime "PgQueueMetrics list"
  | PrometheusBody nat nat nat nat
  | ExplainBody ExplainResponse
  | TablesBody "TableMaintenanceInfo list"
  | NoTables

type_synonym Response = "StatusCode \<times> Body"

text \<open>
  A handler that returns \<^verbatim>\<open>Result<Json<T>, (StatusCode, String)>\<close>.
\<close>

type_synonym 'r handled = "(StatusCode \<times> string) + 'r"

definition respond :: "('r \<Rightarrow> Body) \<Rightarrow> 'r handled \<Rightarrow> Response" where
  "respond json res = (case res of Inl (code, text) \<Rightarrow> (code, PlainText text) | Inr r \<Rightarrow> (OK, json r))"

section \<open>Errors and the API key\<close>

text \<open>\<^verbatim>\<open>str::contains\<close>, \<^verbatim>\<open>str::strip_prefix\<close>\<close>

fun contains :: "string \<Rightarrow> string \<Rightarrow> bool" where
  "contains needle [] \<longleftrightarrow> needle = []"
| "contains needle (c # cs) \<longleftrightarrow> starts_with needle (c # cs) \<or> contains needle cs"

definition strip_prefix :: "string \<Rightarrow> string \<Rightarrow> string option" where
  "strip_prefix prefix s = (if starts_with prefix s then Some (drop (length prefix) s) else None)"

text \<open>A message of \<^verbatim>\<open>bail!\<close> displays as itself; the text of other errors is the world's.\<close>

fun error_text :: "DashboardWorld \<Rightarrow> anyhow \<Rightarrow> string" where
  "error_text w (message text) = text"
| "error_text w e = dw_show_error w e"

definition internal_err :: "DashboardWorld \<Rightarrow> anyhow \<Rightarrow> StatusCode \<times> string" where
  "internal_err w e = (INTERNAL_SERVER_ERROR, ''internal error: '' @ error_text w e)"

definition enqueue_err :: "DashboardWorld \<Rightarrow> anyhow \<Rightarrow> StatusCode \<times> string" where
  "enqueue_err w e =
     (let msg = error_text w e
      in if contains ''PAYLOAD_TOO_LARGE'' msg then (PAYLOAD_TOO_LARGE, msg)
         else if contains ''ENQUEUE_RATE_EXCEEDED'' msg then (TOO_MANY_REQUESTS, msg)
         else internal_err w e)"

text \<open>The key a request provides: the header for it, or else a bearer token.\<close>

definition provided_key :: "Headers \<Rightarrow> string option" where
  "provided_key h =
     (case h_x_api_key h of
        Some v \<Rightarrow> Some v
      | None \<Rightarrow> Option.bind (h_authorization h) (strip_prefix ''Bearer ''))"

definition require_api_key ::
  "string option \<Rightarrow> Headers \<Rightarrow> ('s \<Rightarrow> Response \<times> 's) \<Rightarrow> 's \<Rightarrow> Response \<times> 's" where
  "require_api_key expected h next_handler s =
     (case expected of
        Some key \<Rightarrow>
          if provided_key h \<noteq> Some key then ((UNAUTHORIZED, PlainText ''unauthorized''), s)
          else next_handler s
      | None \<Rightarrow> next_handler s)"

section \<open>Handlers\<close>

text \<open>The guard's two checks, then the number of attempts, then the job.\<close>

definition dash_enqueue_job ::
  "DashboardWorld \<Rightarrow> ApiState \<Rightarrow> (nat \<Rightarrow> Env) \<Rightarrow> EnqueueRequest \<Rightarrow> PostgresBackend
     \<Rightarrow> uuid handled \<times> PostgresBackend" where
  "dash_enqueue_job w st envs body s =
     (if trim (er_job_type body) = [] then (Inl (BAD_REQUEST, ''job_type is required''), s)
      else
        (let queue = (case er_queue body of Some q \<Rightarrow> q | None \<Rightarrow> ''default'');
             payload_bytes = dw_json_bytes w (er_payload_json body)
         in case check_payload (as_enqueue_guard st) (envs 0) queue payload_bytes s of
              (Inl e, s1) \<Rightarrow> (Inl (enqueue_err w e), s1)
            | (Inr _, s1) \<Rightarrow>
                (case check_rate (as_enqueue_guard st) (envs 1) queue s1 of
                   (Inl e, s2) \<Rightarrow> (Inl (enqueue_err w e), s2)
                 | (Inr _, s2) \<Rightarrow>
                     (let max_attempts = (case er_max_attempts body of Some n \<Rightarrow> n | None \<Rightarrow> 25)
                      in if max_attempts \<le> 0
                         then (Inl (BAD_REQUEST, ''max_attempts must be > 0''), s2)
                         else
                           (case pg_enqueue (dw_stamp w) (envs 2)
                                   \<lparr>nj_queue = queue, nj_job_type = er_job_type body,
                                    nj_payload_json = er_payload_json body,
                                    nj_idempotency_key = None,
                                    nj_run_at = (case er_run_at body of
                                                   Some t \<Rightarrow> t | None \<Rightarrow> e_now (envs 2)),
                                    nj_deadline_at = None, nj_timeout_seconds = None,
                                    nj_recurring_interval_seconds = None,
                                    nj_priority = (case er_priority body of Some p \<Rightarrow> p | None \<Rightarrow> 0),
                                    nj_max_attempts = max_attempts\<rparr> s2 of
                              (Inl e, s3) \<Rightarrow> (Inl (internal_err w e), s3)
                            | (Inr job_id, s3) \<Rightarrow> (Inr job_id, s3))))))"

definition dash_replay_job ::
  "DashboardWorld \<Rightarrow> (nat \<Rightarrow> Env) \<Rightarrow> uuid \<Rightarrow> ReplayRequest \<Rightarrow> PostgresBackend
     \<Rightarrow> (uuid \<times> uuid) handled \<times> PostgresBackend" where
  "dash_replay_job w envs i body s =
     (case pg_replay_job (dw_stamp w) (envs 0) i (rr_queue body) (rr_run_at body) s of
        (Inl e, s') \<Rightarrow> (Inl (internal_err w e), s')
      | (Inr new_id, s') \<Rightarrow> (Inr (new_id, i), s'))"

definition dash_get_timeline ::
  "DashboardWorld \<Rightarrow> uuid \<Rightarrow> PostgresBackend \<Rightarrow> Response \<times> PostgresBackend" where
  "dash_get_timeline w i s =
     (case build_timeline i s of
        (Inr (Some timeline), s') \<Rightarrow> ((OK, TimelineBody timeline), s')
      | (Inr None, s') \<Rightarrow> ((NOT_FOUND, ErrorBody ''job not found''), s')
      | (Inl e, s') \<Rightarrow>
          ((INTERNAL_SERVER_ERROR, ErrorBody (''internal error: '' @ error_text w e)), s'))"

definition dash_list_jobs ::
  "DashboardWorld \<Rightarrow> ListJobsQuery \<Rightarrow> PostgresBackend
     \<Rightarrow> ListJobsResponse handled \<times> PostgresBackend" where
  "dash_list_jobs w q s =
     (case pg_list_jobs (lq_queue q) (lq_status q)
             (case lq_limit q of Some n \<Rightarrow> n | None \<Rightarrow> 100)
             (lq_cursor_created_at q) (lq_cursor_id q) s of
        (Inl e, s') \<Rightarrow> (Inl (internal_err w e), s')
      | (Inr items, s') \<Rightarrow>
          (let next_cursor =
                 (if items = [] then (None, None)
                  else (Some (li_created_at (last items)), Some (li_id (last items))))
           in (Inr \<lparr>lr_items = items, lr_next_cursor_created_at = fst next_cursor,
                    lr_next_cursor_id = snd next_cursor\<rparr>, s')))"

definition dash_list_dlq ::
  "DashboardWorld \<Rightarrow> ListJobsQuery \<Rightarrow> PostgresBackend
     \<Rightarrow> ListJobsResponse handled \<times> PostgresBackend" where
  "dash_list_dlq w q = dash_list_jobs w (q\<lparr>lq_status := Some ''dlq''\<rparr>)"

definition dash_list_ingest_decisions ::
  "DashboardWorld \<Rightarrow> string option \<Rightarrow> int option \<Rightarrow> PostgresBackend
     \<Rightarrow> IngestDecisionRow list handled \<times> PostgresBackend" where
  "dash_list_ingest_decisions w queue limit s =
     (case list_recent queue (clamp 1 500 (case limit of Some n \<Rightarrow> n | None \<Rightarrow> 100)) s of
        (Inl e, s') \<Rightarrow> (Inl (internal_err w e), s')
      | (Inr rows, s') \<Rightarrow> (Inr rows, s'))"

definition dash_metrics ::
  "DashboardWorld \<Rightarrow> (nat \<Rightarrow> Env) \<Rightarrow> string option \<Rightarrow> PostgresBackend
     \<Rightarrow> (datetime \<times> PgQueueMetrics list) handled \<times> PostgresBackend" where
  "dash_metrics w envs queue s =
     (case (case queue of
              Some q \<Rightarrow>
                (case snapshot_for_queue (envs 0) q s of
                   (Inl e, s') \<Rightarrow> (Inl e, s')
                 | (Inr m, s') \<Rightarrow> (Inr [m], s'))
            | None \<Rightarrow> snapshot_all (dw_collate w) (envs 0) s) of
        (Inl e, s') \<Rightarrow> (Inl (internal_err w e), s')
      | (Inr queues, s') \<Rightarrow> (Inr (e_now (envs 1), queues), s'))"

definition dash_metrics_prom ::
  "DashboardWorld \<Rightarrow> (nat \<Rightarrow> Env) \<Rightarrow> PostgresBackend \<Rightarrow> Response \<times> PostgresBackend" where
  "dash_metrics_prom w envs s =
     (case pg_metrics_snapshot (envs 0) s of
        (Inr (queued, running, succeeded_last_60s, failed_last_60s), s') \<Rightarrow>
          ((OK, PrometheusBody queued running succeeded_last_60s failed_last_60s), s')
      | (Inl e, s') \<Rightarrow>
          ((INTERNAL_SERVER_ERROR, PlainText (''metrics error: '' @ error_text w e)), s'))"

text \<open>The sentence that explains a job.\<close>

definition explain_summary :: "DashboardWorld \<Rightarrow> Job \<Rightarrow> JobTimeline \<Rightarrow> int \<Rightarrow> string" where
  "explain_summary w job timeline tries =
     (let status = tl_status timeline
      in if status = ''succeeded''
         then ''Succeeded after '' @ show_int (max tries 1) @ '' attempt(s).''
         else if status = ''running'' then ''Currently running.''
         else if status = ''dlq''
         then ''Moved to DLQ after '' @ show_int (max tries 1) @ '' attempt(s). Reason: ''
                @ (case j_dlq_reason_code job of Some c \<Rightarrow> c | None \<Rightarrow> ''UNKNOWN'') @ ''.''
         else if status = ''queued'' then
           (if tl_last_error timeline \<noteq> None
            then ''Retry scheduled. Next run at ''
                   @ (case tl_next_run_at timeline of
                        Some t \<Rightarrow> dw_show_time w t | None \<Rightarrow> ''unknown'') @ ''.''
            else ''Queued and waiting to run.'')
         else ''Status: '' @ status @ ''.'')"

definition dash_explain_job ::
  "DashboardWorld \<Rightarrow> uuid \<Rightarrow> PostgresBackend \<Rightarrow> Response \<times> PostgresBackend" where
  "dash_explain_job w i s =
     (case pg_get_job i s of
        (Inr None, s1) \<Rightarrow> ((NOT_FOUND, ErrorBody ''job not found''), s1)
      | (Inl e, s1) \<Rightarrow>
          ((INTERNAL_SERVER_ERROR, ErrorBody (''internal error: '' @ error_text w e)), s1)
      | (Inr (Some job), s1) \<Rightarrow>
          (case build_timeline i s1 of
             (Inr None, s2) \<Rightarrow> ((NOT_FOUND, ErrorBody ''job not found''), s2)
           | (Inl e, s2) \<Rightarrow>
               ((INTERNAL_SERVER_ERROR, ErrorBody (''internal error: '' @ error_text w e)), s2)
           | (Inr (Some timeline), s2) \<Rightarrow>
               (let tries = as_i32 (length (tl_attempts timeline));
                    failed_attempts =
                      as_i32 (length (filter (\<lambda>a. ta_status a = ''failed'') (tl_attempts timeline)))
                in ((OK, ExplainBody
                      \<lparr>ex_job_id = tl_job_id timeline, ex_status = tl_status timeline,
                       ex_queue = tl_queue timeline, ex_job_type = tl_job_type timeline,
                       ex_summary = explain_summary w job timeline tries,
                       ex_attempts = tries, ex_failed_attempts = failed_attempts,
                       ex_next_run_at = tl_next_run_at timeline,
                       ex_last_error = tl_last_error timeline,
                       ex_dlq_reason_code = j_dlq_reason_code job,
                       ex_suggested_action =
                         map_option suggested_action
                           (Option.bind (tl_last_error timeline) le_error_code)\<rparr>), s2))))"

definition dash_maintenance_status :: "DashboardWorld \<Rightarrow> ApiState \<Rightarrow> Response" where
  "dash_maintenance_status w st =
     (if as_maintenance st then
        (case dw_statistics w of
           Inr tables \<Rightarrow> (OK, TablesBody tables)
         | Inl e \<Rightarrow> (INTERNAL_SERVER_ERROR, ErrorBody (error_text w e)))
      else (OK, NoTables))"

section \<open>The routes\<close>

datatype Request =
    GetIndex
  | GetHealth
  | GetJobs ListJobsQuery
  | PostJobs EnqueueRequest
  | GetTimeline uuid
  | GetExplain uuid
  | PostReplay uuid ReplayRequest
  | GetDlq ListJobsQuery
  | GetIngestDecisions "string option" "int option"
  | GetMetrics "string option"
  | GetMetricsProm
  | GetMaintenanceStatus

fun protected_route ::
  "DashboardWorld \<Rightarrow> ApiState \<Rightarrow> (nat \<Rightarrow> Env) \<Rightarrow> Request \<Rightarrow> PostgresBackend
     \<Rightarrow> Response \<times> PostgresBackend" where
  "protected_route w st envs (GetJobs q) s = apfst (respond JobsBody) (dash_list_jobs w q s)"
| "protected_route w st envs (PostJobs body) s =
     apfst (respond EnqueueResponse) (dash_enqueue_job w st envs body s)"
| "protected_route w st envs (GetTimeline i) s = dash_get_timeline w i s"
| "protected_route w st envs (GetExplain i) s = dash_explain_job w i s"
| "protected_route w st envs (PostReplay i body) s =
     apfst (respond (\<lambda>(new_id, i). ReplayResponse new_id i)) (dash_replay_job w envs i body s)"
| "protected_route w st envs (GetDlq q) s = apfst (respond JobsBody) (dash_list_dlq w q s)"
| "protected_route w st envs (GetIngestDecisions queue limit) s =
     apfst (respond DecisionsBody) (dash_list_ingest_decisions w queue limit s)"
| "protected_route w st envs (GetMetrics queue) s =
     apfst (respond (\<lambda>(now, queues). MetricsResponse now queues)) (dash_metrics w envs queue s)"
| "protected_route w st envs GetMetricsProm s = dash_metrics_prom w envs s"
| "protected_route w st envs GetMaintenanceStatus s = (dash_maintenance_status w st, s)"
| "protected_route w st envs GetIndex s = ((NOT_FOUND, PlainText []), s)"
| "protected_route w st envs GetHealth s = ((NOT_FOUND, PlainText []), s)"

definition dash_router ::
  "DashboardWorld \<Rightarrow> ApiState \<Rightarrow> (nat \<Rightarrow> Env) \<Rightarrow> Headers \<Rightarrow> Request \<Rightarrow> PostgresBackend
     \<Rightarrow> Response \<times> PostgresBackend" where
  "dash_router w st envs h r s =
     (case r of
        GetIndex \<Rightarrow> ((OK, AdminPage), s)
      | GetHealth \<Rightarrow> ((OK, PlainText ''ok''), s)
      | _ \<Rightarrow> require_api_key (as_api_token st) h (protected_route w st envs r) s)"

section \<open>The metrics page\<close>

record Totals =
  to_queued :: nat
  to_running :: nat
  to_succeeded :: nat
  to_failed :: nat
  to_dlq :: nat

record AdminQueueMetrics =
  aq_queue :: string
  aq_runnable :: nat
  aq_scheduled :: nat
  aq_in_flight :: nat
  aq_dlq :: nat
  aq_attempts_last_min :: nat

record AdminMetrics =
  am_now_utc :: string
  am_totals :: Totals
  am_per_queue :: "AdminQueueMetrics list"

text \<open>\<^verbatim>\<open>COUNT(*) FILTER (WHERE status = ...)\<close>\<close>

definition count_status :: "string \<Rightarrow> PgJob list \<Rightarrow> nat" where
  "count_status status = rows_affected (\<lambda>r. j_status r = status)"

definition admin_totals :: "PgJob list \<Rightarrow> Totals" where
  "admin_totals t =
     \<lparr>to_queued = count_status ''queued'' t, to_running = count_status ''running'' t,
      to_succeeded = count_status ''succeeded'' t, to_failed = count_status ''failed'' t,
      to_dlq = count_status ''dlq'' t\<rparr>"

text \<open>A group of GROUP BY queue, joined with the attempts of the last minute.\<close>

definition admin_queue_row ::
  "datetime \<Rightarrow> MemoryAttempt list \<Rightarrow> PgJob list \<Rightarrow> string \<Rightarrow> AdminQueueMetrics" where
  "admin_queue_row now atts t queue =
     (let g = filter (\<lambda>r. j_queue r = queue) t
      in \<lparr>aq_queue = queue,
          aq_runnable = rows_affected (\<lambda>r. j_status r = ''queued'' \<and> j_run_at r \<le> now) g,
          aq_scheduled = rows_affected (\<lambda>r. j_status r = ''queued'' \<and> j_run_at r > now) g,
          aq_in_flight =
            rows_affected
              (\<lambda>r. j_status r = ''running''
                   \<and> (case j_lock_expires_at r of Some e \<Rightarrow> e > now | None \<Rightarrow> False)) g,
          aq_dlq = count_status ''dlq'' g,
          aq_attempts_last_min =
            rows_affected
              (\<lambda>a. belongs g (at_dataset_id a) (at_job_id a) \<and> at_started_at a \<ge> now - seconds 60)
              atts\<rparr>)"

text \<open>The three queries of the page are sent one by one; here they see one state of the tables.\<close>

definition admin_metrics ::
  "DashboardWorld \<Rightarrow> (nat \<Rightarrow> Env) \<Rightarrow> PostgresBackend \<Rightarrow> AdminMetrics" where
  "admin_metrics w envs s =
     \<lparr>am_now_utc = dw_show_time w (e_now (envs 1)), am_totals = admin_totals (pg_jobs s),
      am_per_queue =
        map (admin_queue_row (pg_now (envs 0)) (pg_attempts s) (pg_jobs s))
          (dw_collate w (remdups (map j_queue (pg_jobs s))))\<rparr>"

end
