(* ===== verification/Dashboard_Properties.thy ===== *)
theory Dashboard_Properties
  imports Dashboard_Api Postgres_Properties Listing_Pages
begin

text \<open>
  The dashboard over the PostgreSQL storage: who may use it, what its answers to a request to
  enqueue mean, that its pages enumerate the jobs, and that its metrics page adds up.
\<close>

section \<open>Access\<close>

fun changes_jobs :: "Request \<Rightarrow> bool" where
  "changes_jobs (PostJobs body) = True"
| "changes_jobs (PostReplay i body) = True"
| "changes_jobs r = False"

lemma build_timeline_same: "snd (build_timeline i s) = s"
  by (simp add: build_timeline_def pg_get_job_def pg_list_attempts_for_job_def list_for_job_def Let_def
      split: option.split)

lemma pg_list_jobs_same: "pg_list_jobs q st n c i s = (res, s') \<Longrightarrow> s' = s"
  by (simp add: pg_list_jobs_def Let_def)

lemma list_jobs_same: "snd (dash_list_jobs w q s) = s"
  by (auto simp: dash_list_jobs_def Let_def dest: pg_list_jobs_same split: prod.split sum.split)

lemma reading_same:
  assumes "\<not> changes_jobs r"
  shows "snd (protected_route w st envs r s) = s"
proof (cases r)
  case (GetTimeline i)
  then show ?thesis
    using build_timeline_same[of i s]
    by (auto simp: dash_get_timeline_def split: prod.split sum.split option.split)
next
  case (GetExplain i)
  then show ?thesis
    using build_timeline_same[of i s]
    by (auto simp: dash_explain_job_def pg_get_job_def Let_def split: prod.split sum.split option.split)
qed (use assms in \<open>auto simp: list_jobs_same dash_list_dlq_def dash_list_ingest_decisions_def list_recent_def
      dash_metrics_def snapshot_for_queue_def snapshot_all_def dash_metrics_prom_def pg_metrics_snapshot_def
      Let_def split: option.split\<close>)

lemma respond_unauthorized:
  "fst (respond json res) = UNAUTHORIZED \<longleftrightarrow> (\<exists>text. res = Inl (UNAUTHORIZED, text))"
  by (auto simp: respond_def split: sum.split)

lemma err_codes: "fst (internal_err w e) = INTERNAL_SERVER_ERROR" "fst (enqueue_err w e) \<noteq> UNAUTHORIZED"
  by (simp_all add: internal_err_def enqueue_err_def Let_def)

lemma err_not_unauthorized [simp]:
  "internal_err w e \<noteq> (UNAUTHORIZED, text)" "enqueue_err w e \<noteq> (UNAUTHORIZED, text)"
  using err_codes[of w e] by auto

lemma handlers_authorize: "fst (fst (protected_route w st envs r s)) \<noteq> UNAUTHORIZED"
proof (cases r)
  case (PostJobs body)
  then show ?thesis
    by (auto simp: respond_unauthorized dash_enqueue_job_def Let_def split: prod.splits sum.splits if_splits)
qed (auto simp: respond_unauthorized dash_list_jobs_def dash_list_dlq_def dash_list_ingest_decisions_def
      dash_metrics_def dash_replay_job_def dash_get_timeline_def dash_explain_job_def dash_metrics_prom_def
      dash_maintenance_status_def Let_def split: prod.splits sum.splits option.splits if_splits)

text \<open>
  C34: With a configured API token, every route but the start page and the health check answers
  \<^verbatim>\<open>401\<close> exactly to the requests that do not provide this token, in the header for it or else as
  a bearer token, and such a request changes nothing; no other answer is \<^verbatim>\<open>401\<close>. Only an
  authorised request to enqueue or replay can change the storage at all.
\<close>

theorem dashboard_guarded:
  "(fst (fst (dash_router w st envs h r s)) = UNAUTHORIZED \<longleftrightarrow>
      r \<notin> {GetIndex, GetHealth} \<and> as_api_token st \<notin> {None, provided_key h})
   \<and> (snd (dash_router w st envs h r s) = s
      \<or> changes_jobs r \<and> as_api_token st \<in> {None, provided_key h})"
proof (cases "r \<in> {GetIndex, GetHealth}")
  case True
  then show ?thesis by (auto simp: dash_router_def)
next
  case False
  then have "dash_router w st envs h r s = require_api_key (as_api_token st) h (protected_route w st envs r) s"
    by (cases r) (simp_all add: dash_router_def)
  then show ?thesis
    using False handlers_authorize[of w st envs r s] reading_same[of r w st envs s]
    by (auto simp: require_api_key_def split: option.split)
qed

section \<open>Enqueueing\<close>

lemma check_payload_run:
  assumes "e_fresh env 0 \<notin> in_id ` set (pg_ingest s)"
  shows "\<exists>s'. check_payload cfg env q n s =
      (if n \<le> gc_max_payload_bytes cfg then Inr () else Inl (message ''PAYLOAD_TOO_LARGE''), s')
    \<and> pg_jobs s' = pg_jobs s \<and> pg_counters s' = pg_counters s
    \<and> (n \<le> gc_max_payload_bytes cfg \<longrightarrow> s' = s)"
  using assms by (auto simp: check_payload_def ingest_record_def)

lemma check_rate_run:
  assumes "e_fresh env 0 \<notin> in_id ` set (pg_ingest s)" "w = window_start (e_now env)"
  shows "\<exists>s'. check_rate cfg env q s =
      (if rate_count q w (pg_counters s) < gc_max_enqueues_per_minute_per_queue cfg then Inr ()
       else Inl (message ''ENQUEUE_RATE_EXCEEDED''), s')
    \<and> pg_jobs s' = pg_jobs s \<and> pg_counters s' = bump_counter q w (pg_counters s)"
  using assms by (auto simp: check_rate_def ingest_record_def Let_def rate_count_bump)

lemma enqueue_err_codes:
  "enqueue_err w (message ''PAYLOAD_TOO_LARGE'') = (PAYLOAD_TOO_LARGE, ''PAYLOAD_TOO_LARGE'')"
  "enqueue_err w (message ''ENQUEUE_RATE_EXCEEDED'') = (TOO_MANY_REQUESTS, ''ENQUEUE_RATE_EXCEEDED'')"
  by (simp_all add: enqueue_err_def starts_with_def Let_def)

lemma pg_enqueue_run:
  assumes "nj_idempotency_key job = None" "nj_timeout_seconds job = None" "nj_recurring_interval_seconds job = None"
    and "e_fresh env 0 \<notin> j_id ` set (pg_jobs s)"
  shows "\<exists>s'. pg_enqueue stamp env job s = (Inr (e_fresh env 0), s')
    \<and> pg_jobs s' = pg_jobs s @ [enqueued_row stamp env job] \<and> pg_counters s' = pg_counters s"
proof -
  let ?row = "enqueued_row stamp env job"
  have "\<not> key_conflict ?row r" for r using assms(1) by (simp add: key_conflict_def enqueued_row_def)
  then have "find (key_conflict ?row) (pg_jobs s) = None" "\<not> list_ex (key_conflict ?row) (pg_jobs s)"
    by (simp_all add: find_None_iff list_ex_iff)
  moreover have "j_id ?row = e_fresh env 0" by (simp add: enqueued_row_def)
  moreover from this have "\<not> list_ex (same_job ?row) (pg_jobs s)"
    using assms(4) by (auto simp: same_job_def list_ex_iff)
  ultimately have "pg_upsert_job (pg_now env) ?row (pg_jobs s) = Inr (e_fresh env 0, pg_jobs s @ [?row])"
    by (simp add: pg_upsert_job_def pg_insert_job_def)
  then show ?thesis using assms(2,3) by (simp add: pg_enqueue_def opt_int4_def pg_notify_def)
qed

text \<open>
  C35: What the answer to a request to enqueue means. The request is refused, without a job, exactly
  when its job type is blank, its payload is larger than the guard allows, the guard has counted
  the maximum of requests for the queue in this minute, or its number of attempts is not
  positive, with the code of the first of these that applies. Otherwise exactly one job is
  added, queued with what the request asks for, and its identifier is returned. Every request
  that gets as far as the rate check counts in its minute, a refused one too.
\<close>

theorem dashboard_enqueue_answer:
  assumes "e_fresh (envs 0) 0 \<notin> in_id ` set (pg_ingest s)" "e_fresh (envs 1) 0 \<notin> in_id ` set (pg_ingest s)"
    and "e_fresh (envs 2) 0 \<notin> j_id ` set (pg_jobs s)"
    and "q = (case er_queue body of Some q \<Rightarrow> q | None \<Rightarrow> ''default'')"
    and "n = (case er_max_attempts body of Some n \<Rightarrow> n | None \<Rightarrow> 25)"
    and "minute = window_start (e_now (envs 1))"
    and "blank = (trim (er_job_type body) = [])"
    and "large = (gc_max_payload_bytes (as_enqueue_guard st) < dw_json_bytes w (er_payload_json body))"
    and "full = (gc_max_enqueues_per_minute_per_queue (as_enqueue_guard st) \<le> rate_count q minute (pg_counters s))"
    and "dash_enqueue_job w st envs body s = (res, s')"
  shows "(case res of
      Inl (code, text) \<Rightarrow> (blank \<or> large \<or> full \<or> n \<le> 0) \<and> pg_jobs s' = pg_jobs s
        \<and> code = (if blank then BAD_REQUEST else if large then PAYLOAD_TOO_LARGE
                  else if full then TOO_MANY_REQUESTS else BAD_REQUEST)
    | Inr i \<Rightarrow> (blank, large, full) = (False, False, False) \<and> 0 < n
        \<and> (\<exists>r. pg_jobs s' = pg_jobs s @ [r] \<and> j_id r = i \<and> j_status r = ''queued'' \<and> j_queue r = q
             \<and> j_job_type r = er_job_type body \<and> j_payload r = er_payload_json body \<and> j_max_attempts r = n
             \<and> j_run_at r = pg_timestamp (case er_run_at body of Some t \<Rightarrow> t | None \<Rightarrow> e_now (envs 2))
             \<and> j_priority r = (case er_priority body of Some p \<Rightarrow> p | None \<Rightarrow> 0)))
    \<and> rate_count q minute (pg_counters s') =
        rate_count q minute (pg_counters s) + (if blank \<or> large then 0 else 1)"
proof (cases "blank \<or> large")
  case True
  obtain s1 where "check_payload (as_enqueue_guard st) (envs 0) q (dw_json_bytes w (er_payload_json body)) s =
      (if \<not> large then Inr () else Inl (message ''PAYLOAD_TOO_LARGE''), s1)"
    "pg_jobs s1 = pg_jobs s" "pg_counters s1 = pg_counters s"
    using check_payload_run[OF assms(1), of "as_enqueue_guard st" q "dw_json_bytes w (er_payload_json body)"] assms(8)
    by (auto simp: not_less split: if_splits)
  then show ?thesis
    using True assms(4,7,10) by (auto simp: dash_enqueue_job_def Let_def enqueue_err_codes split: if_splits)
next
  case False
  have one: "check_payload (as_enqueue_guard st) (envs 0) q (dw_json_bytes w (er_payload_json body)) s = (Inr (), s)"
    using False assms(8) by (simp add: check_payload_def)
  obtain s2 where two: "check_rate (as_enqueue_guard st) (envs 1) q s =
      (if \<not> full then Inr () else Inl (message ''ENQUEUE_RATE_EXCEEDED''), s2)"
    "pg_jobs s2 = pg_jobs s" "pg_counters s2 = bump_counter q minute (pg_counters s)"
    using check_rate_run[OF assms(2,6), of "as_enqueue_guard st" q] assms(9) by (auto simp: not_less split: if_splits)
  note start = dash_enqueue_job_def Let_def assms(4,5)[symmetric] one two(1) enqueue_err_codes
  consider "full" | "\<not> full" "n \<le> 0" | "\<not> full" "0 < n" by linarith
  then show ?thesis
  proof cases
    case 3
    let ?job = "\<lparr>nj_queue = q, nj_job_type = er_job_type body, nj_payload_json = er_payload_json body,
        nj_idempotency_key = None, nj_run_at = (case er_run_at body of Some t \<Rightarrow> t | None \<Rightarrow> e_now (envs 2)),
        nj_deadline_at = None, nj_timeout_seconds = None, nj_recurring_interval_seconds = None,
        nj_priority = (case er_priority body of Some p \<Rightarrow> p | None \<Rightarrow> 0), nj_max_attempts = n\<rparr>"
    obtain s3 where "pg_enqueue (dw_stamp w) (envs 2) ?job s2 = (Inr (e_fresh (envs 2) 0), s3)"
      "pg_jobs s3 = pg_jobs s2 @ [enqueued_row (dw_stamp w) (envs 2) ?job]" "pg_counters s3 = pg_counters s2"
      using pg_enqueue_run[of ?job "envs 2" s2 "dw_stamp w"] assms(3) two(2) by auto
    then show ?thesis
      using 3 False assms(7,10) two by (auto simp: start rate_count_bump enqueued_row_def simp del: One_nat_def)
  qed (use False assms(7,10) two in \<open>auto simp: start rate_count_bump simp del: One_nat_def\<close>)
qed

definition sample_world :: DashboardWorld where
  "sample_world =
     \<lparr>dw_stamp = sample_stamp, dw_json_bytes = (\<lambda>_. 2), dw_show_time = show_int,
      dw_show_error = (\<lambda>_. ''error''), dw_collate = (\<lambda>qs. qs), dw_statistics = Inr []\<rparr>"

definition sample_api :: ApiState where
  "sample_api =
     \<lparr>as_maintenance = False,
      as_enqueue_guard = \<lparr>gc_max_payload_bytes = 64, gc_max_enqueues_per_minute_per_queue = 5\<rparr>,
      as_api_token = Some ''secret''\<rparr>"

definition sample_request :: "int \<Rightarrow> EnqueueRequest" where
  "sample_request n =
     \<lparr>er_queue = None, er_job_type = ''send'', er_payload_json = JNull, er_run_at = None,
      er_priority = None, er_max_attempts = Some n\<rparr>"

theorem dashboard_enqueue_answer_witness:
  "\<exists>text s'. dash_enqueue_job sample_world sample_api (\<lambda>_. sample_env 2000 30) (sample_request 0) (pg_queued None)
       = (Inl (BAD_REQUEST, text), s')
     \<and> pg_jobs s' = pg_jobs (pg_queued None) \<and> rate_count ''default'' 0 (pg_counters s') = 1"
proof -
  let ?s = "pg_queued None" and ?envs = "\<lambda>_::nat. sample_env 2000 30" and ?body = "sample_request 0"
  obtain res s' where run: "dash_enqueue_job sample_world sample_api ?envs ?body ?s = (res, s')" by fastforce
  have facts: "e_fresh (sample_env 2000 30) 0 \<notin> in_id ` set (pg_ingest ?s)"
    "e_fresh (sample_env 2000 30) 0 \<notin> j_id ` set (pg_jobs ?s)"
    "(trim (er_job_type ?body) = []) = False"
    "(gc_max_payload_bytes (as_enqueue_guard sample_api) < dw_json_bytes sample_world (er_payload_json ?body)) = False"
    "(gc_max_enqueues_per_minute_per_queue (as_enqueue_guard sample_api)
       \<le> rate_count ''default'' 0 (pg_counters ?s)) = False"
    "rate_count ''default'' 0 (pg_counters ?s) = 0" "window_start (e_now (sample_env 2000 30)) = 0"
    "(case er_queue ?body of Some q \<Rightarrow> q | None \<Rightarrow> ''default'') = ''default''"
    "(case er_max_attempts ?body of Some n \<Rightarrow> n | None \<Rightarrow> 25) = 0" by code_simp+
  from dashboard_enqueue_answer[where envs = ?envs, OF facts(1) facts(1) facts(2) facts(8)[symmetric]
      facts(9)[symmetric] facts(7)[symmetric] facts(3)[symmetric] facts(4)[symmetric] facts(5)[symmetric] run]
  show ?thesis using run facts(6) by (auto split: sum.splits)
qed

section \<open>Pages\<close>

definition row_matches :: "string option \<times> string option \<Rightarrow> PgJob \<Rightarrow> bool" where
  "row_matches filters r \<longleftrightarrow>
     (case fst filters of None \<Rightarrow> True | Some q \<Rightarrow> j_queue r = q)
     \<and> (case snd filters of None \<Rightarrow> True | Some st \<Rightarrow> j_status r = st)"

definition pg_listing :: "string option \<times> string option \<Rightarrow> PostgresBackend \<Rightarrow> JobListItem list" where
  "pg_listing filters s = sort_key newest_first (map pg_list_item (filter (row_matches filters) (pg_jobs s)))"

definition pg_page ::
  "string option \<times> string option \<Rightarrow> int \<Rightarrow> (datetime \<times> uuid) option \<Rightarrow> PostgresBackend
     \<Rightarrow> JobListItem list" where
  "pg_page filters limit cursor s =
     projr (fst (pg_list_jobs (fst filters) (snd filters) limit (map_option fst cursor) (map_option snd cursor) s))"

lemma pg_list_item_sel [simp]:
  "li_id (pg_list_item r) = j_id r" "li_created_at (pg_list_item r) = j_created_at r"
  by (simp_all add: pg_list_item_def)

lemma pg_created_at:
  assumes "pg_inv s" "r \<in> set (pg_jobs s)"
  shows "pg_timestamp (j_created_at r) = j_created_at r"
  using pg_inv_parts(1)[OF assms(1)] assms(2) by (auto simp: jobs_ok_def list_all_iff pg_job_ok_def pg_timestamp_def)

lemma after_cursor_row: "after_cursor (Some c) (Some i) (pg_list_item r) = before_cursor c i r"
  by (auto simp: after_cursor_def before_cursor_def)

lemma pg_list_jobs_cursor:
  "pg_list_jobs (fst filters) (snd filters) limit (map_option fst cursor) (map_option snd cursor) s =
     (Inr (take (page_size limit)
        (sort_key newest_first (map pg_list_item
          (filter (\<lambda>r. row_matches filters r \<and>
             (case cursor of None \<Rightarrow> True | Some (c, i) \<Rightarrow> before_cursor (pg_timestamp c) i r)) (pg_jobs s))))), s)"
proof -
  have "\<not> clamp 1 500 limit < 0" using clamp_range[of 1 500 limit] by linarith
  then show ?thesis
    by (cases filters; cases "fst filters"; cases "snd filters"; cases cursor)
      (auto simp: pg_list_jobs_def Let_def sql_limit_def page_size_def row_matches_def conj_assoc split: prod.split)
qed

interpretation dl: cursor_listing pg_inv pg_page pg_listing
proof
  fix s q limit and c :: "(datetime \<times> uuid) option"
  assume inv: "pg_inv s"
  have "distinct (map (newest_first \<circ> pg_list_item) (filter (row_matches q) (pg_jobs s)))"
    using pg_distinct[OF inv] by (auto simp: distinct_map inj_on_def newest_first_def intro: distinct_filter)
  then have "distinct (map newest_first (map pg_list_item (filter (row_matches q) (pg_jobs s))))" by simp
  then have "distinct (map newest_first (pg_listing q s))"
    unfolding pg_listing_def by (simp only: distinct_map distinct_sort set_sort)
  moreover have "sorted (map newest_first (pg_listing q s))" by (simp add: pg_listing_def)
  ultimately have "sorted_wrt (<) (map newest_first (pg_listing q s))" by (simp add: strict_sorted_iff)
  then show "sorted_wrt (\<lambda>a b. newest_first a < newest_first b) (pg_listing q s)" by (simp add: sorted_wrt_map)
  assume "c = None \<or> (\<exists>x \<in> set (pg_listing q s). c = Some (li_created_at x, li_id x))"
  then have "(\<lambda>r. case c of None \<Rightarrow> True | Some (c, i) \<Rightarrow> before_cursor (pg_timestamp c) i r) =
      (\<lambda>r. after_cursor (map_option fst c) (map_option snd c) (pg_list_item r))"
    using pg_created_at[OF inv] by (auto simp: pg_listing_def after_cursor_row) (simp add: after_cursor_def)
  then show "pg_page q limit c s =
      take (page_size limit) (filter (after_cursor (map_option fst c) (map_option snd c)) (pg_listing q s))"
    by (simp add: pg_page_def pg_list_jobs_cursor pg_listing_def filter_sort_key filter_map comp_def conj_commute fun_eq_iff)
qed

text \<open>A client of the dashboard that asks for page after page, with the cursor of the last answer.\<close>

fun browse :: "DashboardWorld \<Rightarrow> nat \<Rightarrow> ListJobsQuery \<Rightarrow> PostgresBackend \<Rightarrow> JobListItem list" where
  "browse w 0 q s = []"
| "browse w (Suc n) q s =
     (case fst (dash_list_jobs w q s) of
        Inl e \<Rightarrow> []
      | Inr answer \<Rightarrow>
          if lr_items answer = [] then []
          else lr_items answer
                 @ browse w n (q\<lparr>lq_cursor_created_at := lr_next_cursor_created_at answer,
                                lq_cursor_id := lr_next_cursor_id answer\<rparr>) s)"

definition query_limit :: "ListJobsQuery \<Rightarrow> int" where
  "query_limit q = (case lq_limit q of Some n \<Rightarrow> n | None \<Rightarrow> 100)"

lemma browse_follows:
  assumes "lq_cursor_created_at q = map_option fst c" "lq_cursor_id q = map_option snd c"
  shows "browse w n q s = follow_cursor (\<lambda>c. pg_page (lq_queue q, lq_status q) (query_limit q) c s) n c"
  using assms
proof (induction n arbitrary: q c)
  case (Suc n)
  let ?items = "pg_page (lq_queue q, lq_status q) (query_limit q) c s"
  have page: "pg_list_jobs (lq_queue q) (lq_status q) (query_limit q) (lq_cursor_created_at q) (lq_cursor_id q) s =
      (Inr ?items, s)"
    using Suc.prems pg_list_jobs_cursor[of "(lq_queue q, lq_status q)" "query_limit q" c s] by (simp add: pg_page_def)
  show ?case
  proof (cases ?items)
    case Nil
    then show ?thesis using page by (simp add: dash_list_jobs_def query_limit_def)
  next
    case (Cons x xs)
    let ?q = "q\<lparr>lq_cursor_created_at := Some (li_created_at (last (x # xs))), lq_cursor_id := Some (li_id (last (x # xs)))\<rparr>"
    have "browse w n ?q s = follow_cursor (\<lambda>c. pg_page (lq_queue ?q, lq_status ?q) (query_limit ?q) c s) n
        (Some (li_created_at (last (x # xs)), li_id (last (x # xs))))" by (rule Suc.IH) simp_all
    then show ?thesis using page Cons by (simp add: dash_list_jobs_def query_limit_def Let_def)
  qed
qed simp

text \<open>
  C36: A client of the dashboard that follows the cursor of each answer gets the jobs that match
  its filters, each exactly once and newest first, as soon as it asks for enough pages; a page
  holds the limit clamped to 1..500, or 100 jobs by default.
\<close>

theorem dashboard_pages:
  assumes "pg_reachable stamp s" "lq_cursor_created_at q = None" "lq_cursor_id q = None"
    and "length (pg_jobs s) \<le> n * page_size (query_limit q)"
  shows "distinct (map li_id (browse w n q s))
    \<and> set (browse w n q s) = pg_list_item ` {r \<in> set (pg_jobs s). row_matches (lq_queue q, lq_status q) r}
    \<and> sorted (map newest_first (browse w n q s))"
proof -
  note inv = pg_reachable_inv[OF assms(1)]
  let ?L = "pg_listing (lq_queue q, lq_status q) s"
  have "length ?L \<le> length (pg_jobs s)"
    using length_filter_le[of "row_matches (lq_queue q, lq_status q)" "pg_jobs s"] by (simp add: pg_listing_def)
  then have all: "browse w n q s = ?L"
    using assms(2-4) dl.follow_all[OF inv, of "(lq_queue q, lq_status q)" "query_limit q" n]
    by (simp add: browse_follows[of q None])
  have "li_id \<circ> pg_list_item = j_id" by (simp add: fun_eq_iff)
  then have "distinct (map li_id (map pg_list_item (filter (row_matches (lq_queue q, lq_status q)) (pg_jobs s))))"
    using pg_distinct[OF inv] by (simp add: distinct_map_filter)
  then have "distinct (map li_id ?L)" unfolding pg_listing_def by (simp only: distinct_map distinct_sort set_sort)
  then show ?thesis by (auto simp: all pg_listing_def)
qed

theorem dashboard_pages_witness:
  "li_id ` set (browse sample_world 1 \<lparr>lq_queue = Some ''mail'', lq_status = None, lq_limit = Some 1,
      lq_cursor_created_at = None, lq_cursor_id = None\<rparr> (pg_queued None)) = {1}"
proof -
  let ?q = "\<lparr>lq_queue = Some ''mail'', lq_status = None, lq_limit = Some 1, lq_cursor_created_at = None, lq_cursor_id = None\<rparr>"
  have len: "length (pg_jobs (pg_queued None)) \<le> 1 * page_size (query_limit ?q)"
    and ids: "map j_id (filter (row_matches (lq_queue ?q, lq_status ?q)) (pg_jobs (pg_queued None))) = [1]" by code_simp+
  have "li_id ` set (browse sample_world 1 ?q (pg_queued None)) =
      j_id ` {r \<in> set (pg_jobs (pg_queued None)). row_matches (lq_queue ?q, lq_status ?q) r}"
    using dashboard_pages[OF pg_samples_reachable(1) _ _ len, where w = sample_world] by (simp add: image_image)
  also have "\<dots> = {1}" using arg_cong[OF ids, of set] by simp
  finally show ?thesis .
qed

section \<open>The metrics page\<close>

lemma sum_of_groups:
  assumes "distinct qs" "f ` set t \<subseteq> set qs"
  shows "(\<Sum>q \<leftarrow> qs. rows_affected P (filter (\<lambda>r. f r = q) t)) = rows_affected P t"
proof -
  have "(\<Sum>q \<leftarrow> qs. rows_affected P (filter (\<lambda>r. f r = q) t)) =
      (\<Sum>q \<in> set qs. length (filter (\<lambda>x. x = q) (map f (filter P t))))"
    using assms(1) by (simp add: sum_list_distinct_conv_sum_set rows_affected_def filter_map comp_def conj_commute)
  also have "\<dots> = length (map f (filter P t))" using assms(2) by (intro sum_rows) auto
  finally show ?thesis by (simp add: rows_affected_def)
qed

lemma affected_split:
  "rows_affected P t = rows_affected (\<lambda>r. P r \<and> Q r) t + rows_affected (\<lambda>r. P r \<and> \<not> Q r) t"
  unfolding rows_affected_def by (rule partition_count)

lemma admin_row_sel [simp]:
  "aq_queue (admin_queue_row now atts t q) = q"
  "aq_runnable (admin_queue_row now atts t q) + aq_scheduled (admin_queue_row now atts t q) =
     count_status ''queued'' (filter (\<lambda>r. j_queue r = q) t)"
  "aq_dlq (admin_queue_row now atts t q) = count_status ''dlq'' (filter (\<lambda>r. j_queue r = q) t)"
  using affected_split[of "\<lambda>r. j_status r = ''queued''" "filter (\<lambda>r. j_queue r = q) t" "\<lambda>r. j_run_at r \<le> now"]
  by (simp_all add: admin_queue_row_def Let_def count_status_def not_le)

lemma admin_row_in_flight:
  assumes "list_all pg_job_ok t"
  shows "aq_in_flight (admin_queue_row now atts t q) + rows_affected (\<lambda>r. j_status r = ''running'' \<and>
      the (j_lock_expires_at r) \<le> now) (filter (\<lambda>r. j_queue r = q) t) =
    count_status ''running'' (filter (\<lambda>r. j_queue r = q) t)"
proof -
  let ?g = "filter (\<lambda>r. j_queue r = q) t"
  have "filter (\<lambda>r. j_status r = ''running'' \<and> (case j_lock_expires_at r of Some e \<Rightarrow> e > now | None \<Rightarrow> False)) ?g =
      filter (\<lambda>r. j_status r = ''running'' \<and> \<not> the (j_lock_expires_at r) \<le> now) ?g"
    using assms by (intro filter_cong) (auto simp: list_all_iff pg_job_ok_def)
  then show ?thesis
    using affected_split[of "\<lambda>r. j_status r = ''running''" ?g "\<lambda>r. the (j_lock_expires_at r) \<le> now"]
    by (simp add: admin_queue_row_def Let_def count_status_def rows_affected_def)
qed

text \<open>
  C37: The metrics page adds up, whatever order the database gives its queues: every queue that has
  a job has exactly one row; the runnable and scheduled jobs of the rows are the queued jobs of
  the totals, their dead-lettered jobs those of the totals, and their jobs in flight together
  with the running jobs whose lease has expired are the running jobs of the totals; the totals
  and the cancelled jobs, which it does not show, are all jobs.
\<close>

theorem admin_metrics_add_up:
  assumes "pg_reachable stamp s" "\<And>qs. mset (dw_collate w qs) = mset qs" "m = admin_metrics w envs s"
  shows "distinct (map aq_queue (am_per_queue m)) \<and> aq_queue ` set (am_per_queue m) = j_queue ` set (pg_jobs s)
    \<and> (\<Sum>row \<leftarrow> am_per_queue m. aq_runnable row + aq_scheduled row) = to_queued (am_totals m)
    \<and> (\<Sum>row \<leftarrow> am_per_queue m. aq_dlq row) = to_dlq (am_totals m)
    \<and> (\<Sum>row \<leftarrow> am_per_queue m. aq_in_flight row)
        + rows_affected (\<lambda>r. j_status r = ''running'' \<and> the (j_lock_expires_at r) \<le> pg_now (envs 0)) (pg_jobs s)
        = to_running (am_totals m)
    \<and> to_queued (am_totals m) + to_running (am_totals m) + to_succeeded (am_totals m) + to_failed (am_totals m)
        + to_dlq (am_totals m) + count_status ''canceled'' (pg_jobs s) = length (pg_jobs s)"
proof -
  have ok: "list_all pg_job_ok (pg_jobs s)"
    using pg_inv_parts(1)[OF pg_reachable_inv[OF assms(1)]] by (simp add: jobs_ok_def)
  let ?t = "pg_jobs s" and ?now = "pg_now (envs 0)"
  define qs where "qs = dw_collate w (remdups (map j_queue ?t))"
  have perm: "mset qs = mset (remdups (map j_queue ?t))" by (simp add: qs_def assms(2))
  have "distinct qs" using mset_eq_imp_distinct_iff[OF perm] by simp
  moreover have "set qs = j_queue ` set ?t" using mset_eq_setD[OF perm] by simp
  ultimately have qs: "distinct qs" "set qs = j_queue ` set ?t" .
  have rows: "am_per_queue m = map (admin_queue_row ?now (pg_attempts s) ?t) qs" "am_totals m = admin_totals ?t"
    by (simp_all add: assms(3) admin_metrics_def qs_def)
  note groups = sum_of_groups[OF qs(1), of j_queue ?t, unfolded qs(2), OF subset_refl]
  let ?late = "\<lambda>r. j_status r = ''running'' \<and> the (j_lock_expires_at r) \<le> ?now"
  have "(\<Sum>q \<leftarrow> qs. aq_in_flight (admin_queue_row ?now (pg_attempts s) ?t q))
      + (\<Sum>q \<leftarrow> qs. rows_affected ?late (filter (\<lambda>r. j_queue r = q) ?t)) =
      (\<Sum>q \<leftarrow> qs. count_status ''running'' (filter (\<lambda>r. j_queue r = q) ?t))"
    by (simp only: sum_list_addf[symmetric] admin_row_in_flight[OF ok])
  also have "\<dots> = count_status ''running'' ?t" unfolding count_status_def by (rule groups)
  finally have flight: "(\<Sum>row \<leftarrow> am_per_queue m. aq_in_flight row) + rows_affected ?late ?t = to_running (am_totals m)"
    unfolding groups by (simp add: rows comp_def admin_totals_def)
  have "length ?t = (\<Sum>st \<in> set job_statuses. length (filter (\<lambda>x. x = st) (map j_status ?t)))"
    using ok by (subst sum_rows) (auto simp: list_all_iff pg_job_ok_def)
  also have "\<dots> = (\<Sum>st \<in> set job_statuses. count_status st ?t)"
    by (simp add: count_status_def rows_affected_def filter_map comp_def)
  finally have total: "to_queued (am_totals m) + to_running (am_totals m) + to_succeeded (am_totals m)
      + to_failed (am_totals m) + to_dlq (am_totals m) + count_status ''canceled'' ?t = length ?t"
    by (simp add: rows admin_totals_def job_statuses_def)
  have "distinct (map aq_queue (am_per_queue m)) \<and> aq_queue ` set (am_per_queue m) = j_queue ` set ?t"
    using qs by (simp add: rows comp_def image_image)
  moreover have "(\<Sum>row \<leftarrow> am_per_queue m. aq_runnable row + aq_scheduled row) = to_queued (am_totals m)"
    using groups[of "\<lambda>r. j_status r = ''queued''"] by (simp add: rows comp_def admin_totals_def count_status_def)
  moreover have "(\<Sum>row \<leftarrow> am_per_queue m. aq_dlq row) = to_dlq (am_totals m)"
    using groups[of "\<lambda>r. j_status r = ''dlq''"] by (simp add: rows comp_def admin_totals_def count_status_def)
  ultimately show ?thesis using flight total by blast
qed

theorem admin_metrics_add_up_witness:
  "to_queued (am_totals (admin_metrics sample_world (\<lambda>_. sample_env 2000 0) (pg_queued None))) = 1
   \<and> (\<Sum>row \<leftarrow> am_per_queue (admin_metrics sample_world (\<lambda>_. sample_env 2000 0) (pg_queued None)).
        aq_runnable row + aq_scheduled row) = 1"
proof -
  have "to_queued (am_totals (admin_metrics sample_world (\<lambda>_. sample_env 2000 0) (pg_queued None))) = 1" by code_simp
  moreover have "mset (dw_collate sample_world qs) = mset qs" for qs by (simp add: sample_world_def)
  ultimately show ?thesis
    using admin_metrics_add_up[OF pg_samples_reachable(1) _ refl, where w = sample_world and envs = "\<lambda>_. sample_env 2000 0"]
    by auto
qed

end
