(* ===== verification/Configuration.thy ===== *)
theory Configuration
  imports Worker_Binary
begin

text \<open>
  The settings of the worker process, \<^verbatim>\<open>azums/src/config.rs\<close>, and of its connection pool,
  \<^verbatim>\<open>azums/src/db.rs\<close>, as functions of the environment variables: \<^term>\<open>None\<close> for a variable that
  is not set or is not Unicode. What \<^verbatim>\<open>dotenv\<close> adds is part of the environment. Opening the
  connection is left out. \<^verbatim>\<open>trim\<close> and \<^verbatim>\<open>to_lowercase\<close> are on ASCII.
\<close>

section \<open>Parsing\<close>

type_synonym environment = "string \<Rightarrow> string option"

definition to_lowercase :: "string \<Rightarrow> string" where
  "to_lowercase s = map to_ascii_lowercase s"

definition is_digit :: "char \<Rightarrow> bool" where
  "is_digit c \<longleftrightarrow> (let n = of_char c :: nat in 48 \<le> n \<and> n \<le> 57)"

definition digits_value :: "string \<Rightarrow> int" where
  "digits_value ds = foldl (\<lambda>acc c. 10 * acc + (of_char c - 48)) 0 ds"

text \<open>
  \<^verbatim>\<open>str::parse\<close> for an integer type with the values from \<open>lo\<close> to \<open>hi\<close>: an optional sign, a minus
  for signed types only, at least one digit and nothing else, and a value of the type.
\<close>

definition parse_integer :: "int \<Rightarrow> int \<Rightarrow> string \<Rightarrow> int option" where
  "parse_integer lo hi s =
     (let (negative, ds) =
            (case s of
               [] \<Rightarrow> (False, [])
             | c # cs \<Rightarrow>
                 if c = CHR ''+'' then (False, cs)
                 else if c = CHR ''-'' \<and> lo < 0 then (True, cs)
                 else (False, c # cs))
      in if ds = [] \<or> \<not> list_all is_digit ds then None
         else
           (let n = (if negative then - digits_value ds else digits_value ds)
            in if lo \<le> n \<and> n \<le> hi then Some n else None))"

definition parse_i64 :: "string \<Rightarrow> int option" where
  "parse_i64 = parse_integer (- (2 ^ 63)) (2 ^ 63 - 1)"

definition parse_u64 :: "string \<Rightarrow> int option" where
  "parse_u64 = parse_integer 0 (2 ^ 64 - 1)"

definition parse_u32 :: "string \<Rightarrow> int option" where
  "parse_u32 = parse_integer 0 (2 ^ 32 - 1)"

text \<open>\<^verbatim>\<open>value.and_then(|s| s.parse().ok()).unwrap_or(default)\<close>\<close>

definition parsed_or :: "(string \<Rightarrow> int option) \<Rightarrow> int \<Rightarrow> string option \<Rightarrow> int" where
  "parsed_or parse dflt v = (case Option.bind v parse of Some n \<Rightarrow> n | None \<Rightarrow> dflt)"

definition value_or :: "'a \<Rightarrow> 'a option \<Rightarrow> 'a" where
  "value_or dflt v = (case v of Some x \<Rightarrow> x | None \<Rightarrow> dflt)"

definition non_blank :: "string option \<Rightarrow> string option" where
  "non_blank v = (case v of Some s \<Rightarrow> if trim s = [] then None else Some s | None \<Rightarrow> None)"

definition env_or_fallback :: "environment \<Rightarrow> string \<Rightarrow> string \<Rightarrow> string option" where
  "env_or_fallback env primary fallback =
     (case non_blank (env primary) of Some s \<Rightarrow> Some s | None \<Rightarrow> non_blank (env fallback))"

definition is_true_word :: "string \<Rightarrow> bool" where
  "is_true_word v \<longleftrightarrow> to_lowercase v \<in> {''1'', ''true'', ''yes'', ''on''}"

definition env_bool :: "environment \<Rightarrow> string \<Rightarrow> bool option" where
  "env_bool env key = map_option is_true_word (env key)"

definition normalize_optional_addr :: "string \<Rightarrow> string option" where
  "normalize_optional_addr val =
     (let v = trim val
      in if v = [] then None
         else if to_lowercase v \<in> {''0'', ''off'', ''false'', ''none''} then None
         else Some v)"

section \<open>Settings of the worker process\<close>

record Config =
  c_database_url :: string
  c_worker_id :: string
  c_queue :: string
  c_lease_seconds :: int
  c_dequeue_batch_size :: int
  c_reap_interval_ms :: int
  c_verbose_job_logs :: bool
  c_admin_addr :: "string option"
  c_api_token :: "string option"
  c_migrate_on_startup :: bool
  c_max_payload_bytes :: int
  c_max_enqueues_per_minute_per_queue :: int
  c_maintenance_interval_secs :: int
  c_sqlite_incremental_vacuum_n :: int

definition config_from_env :: "environment \<Rightarrow> anyhow + Config" where
  "config_from_env env =
     (case env ''DATABASE_URL'' of
        None \<Rightarrow> Inl (message ''DATABASE_URL is missing'')
      | Some database_url \<Rightarrow>
          Inr
            \<lparr>c_database_url = database_url,
             c_worker_id =
               (case env_or_fallback env ''AZUMS_WORKER_ID'' ''WORKER_ID'' of
                  Some s \<Rightarrow> s
                | None \<Rightarrow> value_or ''worker-1'' (env ''HOSTNAME'')),
             c_queue = value_or ''default'' (env_or_fallback env ''AZUMS_QUEUE'' ''QUEUE''),
             c_lease_seconds =
               parsed_or parse_i64 10 (env_or_fallback env ''AZUMS_LEASE_SECONDS'' ''LEASE_SECONDS''),
             c_dequeue_batch_size =
               clamp 1 4096 (parsed_or parse_i64 256
                 (env_or_fallback env ''AZUMS_DEQUEUE_BATCH_SIZE'' ''DEQUEUE_BATCH_SIZE'')),
             c_reap_interval_ms =
               clamp 250 60000 (parsed_or parse_u64 5000
                 (env_or_fallback env ''AZUMS_REAP_INTERVAL_MS'' ''REAP_INTERVAL_MS'')),
             c_verbose_job_logs = value_or False (env_bool env ''AZUMS_VERBOSE_JOB_LOGS''),
             c_admin_addr =
               Option.bind (env_or_fallback env ''AZUMS_ADMIN_ADDR'' ''ADMIN_ADDR'')
                 normalize_optional_addr,
             c_api_token = env_or_fallback env ''AZUMS_API_TOKEN'' ''API_TOKEN'',
             c_migrate_on_startup = value_or False (env_bool env ''AZUMS_MIGRATE_ON_STARTUP''),
             c_max_payload_bytes =
               parsed_or parse_u64 (256 * 1024)
                 (env_or_fallback env ''AZUMS_MAX_PAYLOAD_BYTES'' ''MAX_PAYLOAD_BYTES''),
             c_max_enqueues_per_minute_per_queue =
               parsed_or parse_i64 10000
                 (env_or_fallback env ''AZUMS_MAX_ENQUEUE_PER_MINUTE'' ''MAX_ENQUEUE_PER_MINUTE''),
             c_maintenance_interval_secs =
               clamp 10 86400 (parsed_or parse_u64 300
                 (env_or_fallback env ''AZUMS_MAINTENANCE_INTERVAL_SECS''
                    ''MAINTENANCE_INTERVAL_SECS'')),
             c_sqlite_incremental_vacuum_n =
               clamp 1 100000 (parsed_or parse_u64 100
                 (env_or_fallback env ''AZUMS_SQLITE_INCREMENTAL_VACUUM_N''
                    ''SQLITE_INCREMENTAL_VACUUM_N''))\<rparr>)"

text \<open>What the worker loop of \<^verbatim>\<open>worker/src/main.rs\<close> takes from the settings.\<close>

definition worker_config :: "Config \<Rightarrow> WorkerConfig" where
  "worker_config cfg =
     \<lparr>wc_worker_id = c_worker_id cfg, wc_queue = c_queue cfg,
      wc_lease_seconds = c_lease_seconds cfg, wc_batch_size = c_dequeue_batch_size cfg,
      wc_registry = build_registry, wc_retry = RetryConfig_default\<rparr>"

text \<open>
  The settings of the maintenance task, which \<^verbatim>\<open>main\<close> reads for itself: the days after which jobs
  are archived and history is deleted, and the seconds between two rounds.
\<close>

definition maintenance_settings :: "environment \<Rightarrow> int \<times> int \<times> int" where
  "maintenance_settings env =
     (parsed_or parse_i64 7 (env ''ARCHIVE_SUCCEEDED_AFTER_DAYS''),
      parsed_or parse_i64 7 (env ''PRUNE_HISTORY_AFTER_DAYS''),
      parsed_or parse_u64 60 (env ''MAINTENANCE_INTERVAL_SECS''))"

section \<open>Settings of the pool\<close>

record PoolOptions =
  po_max_connections :: int
  po_acquire_timeout_secs :: int
  po_after_connect :: "string list"

definition pool_env_bool :: "environment \<Rightarrow> string \<Rightarrow> bool \<Rightarrow> bool" where
  "pool_env_bool env key dflt = value_or dflt (map_option is_true_word (env key))"

definition pool_options :: "environment \<Rightarrow> PoolOptions" where
  "pool_options env =
     \<lparr>po_max_connections = clamp 1 32 (parsed_or parse_u32 4 (env ''AZUMS_DB_MAX_CONNECTIONS'')),
      po_acquire_timeout_secs =
        clamp 1 60 (parsed_or parse_u64 10 (env ''AZUMS_DB_ACQUIRE_TIMEOUT_SECS'')),
      po_after_connect =
        (if pool_env_bool env ''AZUMS_DISABLE_SYNC_COMMIT'' False
         then [''SET synchronous_commit = OFF''] else [])
        @ (if pool_env_bool env ''AZUMS_DISABLE_JIT'' True then [''SET jit = OFF''] else [])\<rparr>"

section \<open>Reading back what was printed\<close>

lemma of_char_digit:
  assumes "d < (10 :: nat)"
  shows "of_char (char_of (48 + d)) = (48 + int d)"
proof -
  have "(of_char (char_of (48 + d)) :: nat) = 48 + d" using assms by simp
  from arg_cong[OF this, of int] show ?thesis by (simp only: of_nat_of_char of_nat_add of_nat_numeral)
qed

lemma is_digit_char: "d < 10 \<Longrightarrow> is_digit (char_of (48 + d :: nat))"
  by (simp add: is_digit_def)

lemma show_nat_digits: "list_all is_digit (show_nat n) \<and> show_nat n \<noteq> [] \<and> digits_value (show_nat n) = int n"
proof (induction n rule: show_nat.induct)
  case (1 n)
  show ?case
  proof (cases "n < 10")
    case True
    then show ?thesis by (subst (1 2 3) show_nat.simps) (simp add: is_digit_char digits_value_def of_char_digit)
  next
    case False
    have "int n = 10 * int (n div 10) + int (n mod 10)"
      by (metis mult.commute div_mult_mod_eq of_nat_add of_nat_mult of_nat_numeral)
    with 1[OF False] False show ?thesis
      by (subst (1 2 3) show_nat.simps) (simp add: is_digit_char digits_value_def of_char_digit)
  qed
qed

lemma is_digit_not: "is_digit c \<Longrightarrow> c \<noteq> CHR ''+'' \<and> c \<noteq> CHR ''-'' \<and> \<not> is_ws c"
  by (auto simp: is_digit_def is_ws_def Let_def)

lemma parse_show: "lo \<le> n \<Longrightarrow> n \<le> hi \<Longrightarrow> parse_integer lo hi (show_int n) = Some n"
proof -
  assume n: "lo \<le> n" "n \<le> hi"
  obtain c cs where d: "show_nat (nat \<bar>n\<bar>) = c # cs" using show_nat_digits[of "nat \<bar>n\<bar>"] by (cases "show_nat (nat \<bar>n\<bar>)") auto
  have all: "list_all is_digit (c # cs)" "digits_value (c # cs) = \<bar>n\<bar>" using show_nat_digits[of "nat \<bar>n\<bar>"] d by auto
  then show ?thesis using d n is_digit_not[of c] by (auto simp: show_int_def parse_integer_def Let_def)
qed

lemma dropWhile_keeps: "x \<in> set s \<Longrightarrow> \<not> P x \<Longrightarrow> x \<in> set (dropWhile P s)"
  by (induction s) auto

lemma trim_not_blank: "x \<in> set s \<Longrightarrow> \<not> is_ws x \<Longrightarrow> trim s \<noteq> []"
  by (force simp: trim_def trim_start_def dropWhile_eq_Nil_conv dest: dropWhile_keeps[of x s is_ws])

lemma trim_digits: "trim (show_int n) \<noteq> []"
proof -
  obtain c cs where d: "show_nat (nat \<bar>n\<bar>) = c # cs" using show_nat_digits[of "nat \<bar>n\<bar>"] by (cases "show_nat (nat \<bar>n\<bar>)") auto
  moreover have "\<not> is_ws c" using show_nat_digits[of "nat \<bar>n\<bar>"] d is_digit_not[of c] by simp
  moreover have "c \<in> set (show_int n)" using d by (auto simp: show_int_def abs_if)
  ultimately show ?thesis using trim_not_blank by blast
qed

end
