(* ===== verification/Configuration_Properties.thy ===== *)
theory Configuration_Properties
  imports Configuration Worker_Properties
begin

text \<open>
  Settings that are printed into environment variables are read back, and what a setting that
  no bound is put on does to the worker process.
\<close>

section \<open>Round trip\<close>

definition show_bool :: "bool \<Rightarrow> string" where
  "show_bool b = (if b then ''true'' else ''false'')"

definition config_env :: "Config \<Rightarrow> environment" where
  "config_env c =
     [''DATABASE_URL'' \<mapsto> c_database_url c, ''AZUMS_WORKER_ID'' \<mapsto> c_worker_id c,
      ''AZUMS_QUEUE'' \<mapsto> c_queue c, ''AZUMS_LEASE_SECONDS'' \<mapsto> show_int (c_lease_seconds c),
      ''AZUMS_DEQUEUE_BATCH_SIZE'' \<mapsto> show_int (c_dequeue_batch_size c),
      ''AZUMS_REAP_INTERVAL_MS'' \<mapsto> show_int (c_reap_interval_ms c),
      ''AZUMS_VERBOSE_JOB_LOGS'' \<mapsto> show_bool (c_verbose_job_logs c),
      ''AZUMS_MIGRATE_ON_STARTUP'' \<mapsto> show_bool (c_migrate_on_startup c),
      ''AZUMS_MAX_PAYLOAD_BYTES'' \<mapsto> show_int (c_max_payload_bytes c),
      ''AZUMS_MAX_ENQUEUE_PER_MINUTE'' \<mapsto> show_int (c_max_enqueues_per_minute_per_queue c),
      ''AZUMS_MAINTENANCE_INTERVAL_SECS'' \<mapsto> show_int (c_maintenance_interval_secs c),
      ''AZUMS_SQLITE_INCREMENTAL_VACUUM_N'' \<mapsto> show_int (c_sqlite_incremental_vacuum_n c)]
     (''AZUMS_ADMIN_ADDR'' := c_admin_addr c, ''AZUMS_API_TOKEN'' := c_api_token c)"

definition proper_config :: "Config \<Rightarrow> bool" where
  "proper_config c \<longleftrightarrow>
     trim (c_worker_id c) \<noteq> [] \<and> trim (c_queue c) \<noteq> []
     \<and> - (2 ^ 63) \<le> c_lease_seconds c \<and> c_lease_seconds c < 2 ^ 63
     \<and> 1 \<le> c_dequeue_batch_size c \<and> c_dequeue_batch_size c \<le> 4096
     \<and> 250 \<le> c_reap_interval_ms c \<and> c_reap_interval_ms c \<le> 60000
     \<and> (case c_admin_addr c of None \<Rightarrow> True
        | Some a \<Rightarrow> trim a = a \<and> a \<noteq> [] \<and> to_lowercase a \<notin> {''0'', ''off'', ''false'', ''none''})
     \<and> (case c_api_token c of None \<Rightarrow> True | Some t \<Rightarrow> trim t \<noteq> [])
     \<and> 0 \<le> c_max_payload_bytes c \<and> c_max_payload_bytes c < 2 ^ 64
     \<and> - (2 ^ 63) \<le> c_max_enqueues_per_minute_per_queue c \<and> c_max_enqueues_per_minute_per_queue c < 2 ^ 63
     \<and> 10 \<le> c_maintenance_interval_secs c \<and> c_maintenance_interval_secs c \<le> 86400
     \<and> 1 \<le> c_sqlite_incremental_vacuum_n c \<and> c_sqlite_incremental_vacuum_n c \<le> 100000"

lemma printed_integer:
  "env primary = Some (show_int n) \<Longrightarrow> env_or_fallback env primary fallback = Some (show_int n)"
  by (simp add: env_or_fallback_def non_blank_def trim_digits)

lemma printed_string:
  "env primary = Some v \<Longrightarrow> trim v \<noteq> [] \<Longrightarrow> env_or_fallback env primary fallback = Some v"
  by (simp add: env_or_fallback_def non_blank_def)

lemma unset_string:
  "env primary = None \<Longrightarrow> env fallback = None \<Longrightarrow> env_or_fallback env primary fallback = None"
  by (simp add: env_or_fallback_def non_blank_def)

lemma parsed_printed:
  "- (2 ^ 63) \<le> n \<Longrightarrow> n < 2 ^ 63 \<Longrightarrow> parsed_or parse_i64 d (Some (show_int n)) = n"
  "0 \<le> n \<Longrightarrow> n < 2 ^ 64 \<Longrightarrow> parsed_or parse_u64 d (Some (show_int n)) = n"
  by (simp_all add: parsed_or_def parse_i64_def parse_u64_def parse_show)

lemma true_word_show [simp]: "is_true_word (show_bool b) = b"
  by (cases b) (simp_all add: is_true_word_def show_bool_def to_lowercase_def to_ascii_lowercase_def Let_def)

lemma config_env_sel:
  "config_env c ''DATABASE_URL'' = Some (c_database_url c)"
  "config_env c ''AZUMS_WORKER_ID'' = Some (c_worker_id c)"
  "config_env c ''AZUMS_QUEUE'' = Some (c_queue c)"
  "config_env c ''AZUMS_LEASE_SECONDS'' = Some (show_int (c_lease_seconds c))"
  "config_env c ''AZUMS_DEQUEUE_BATCH_SIZE'' = Some (show_int (c_dequeue_batch_size c))"
  "config_env c ''AZUMS_REAP_INTERVAL_MS'' = Some (show_int (c_reap_interval_ms c))"
  "config_env c ''AZUMS_VERBOSE_JOB_LOGS'' = Some (show_bool (c_verbose_job_logs c))"
  "config_env c ''AZUMS_MIGRATE_ON_STARTUP'' = Some (show_bool (c_migrate_on_startup c))"
  "config_env c ''AZUMS_MAX_PAYLOAD_BYTES'' = Some (show_int (c_max_payload_bytes c))"
  "config_env c ''AZUMS_MAX_ENQUEUE_PER_MINUTE'' = Some (show_int (c_max_enqueues_per_minute_per_queue c))"
  "config_env c ''AZUMS_MAINTENANCE_INTERVAL_SECS'' = Some (show_int (c_maintenance_interval_secs c))"
  "config_env c ''AZUMS_SQLITE_INCREMENTAL_VACUUM_N'' = Some (show_int (c_sqlite_incremental_vacuum_n c))"
  "config_env c ''AZUMS_ADMIN_ADDR'' = c_admin_addr c" "config_env c ''ADMIN_ADDR'' = None"
  "config_env c ''AZUMS_API_TOKEN'' = c_api_token c" "config_env c ''API_TOKEN'' = None"
  by (simp_all add: config_env_def)

lemma printed_optional:
  assumes "env primary = v" "env fallback = None" "case v of None \<Rightarrow> True | Some t \<Rightarrow> trim t \<noteq> []"
  shows "env_or_fallback env primary fallback = v"
  using assms by (auto simp: env_or_fallback_def non_blank_def split: option.splits)

lemma clamp_within: "lo \<le> n \<Longrightarrow> n \<le> hi \<Longrightarrow> clamp lo hi n = n"
  by (simp add: clamp_def)

text \<open>
  C38: Settings survive the environment: printing the settings of a worker into the environment
  variables and loading them gives the same settings, integers in decimal, switches as words,
  the two optional ones unset, when every number is in the range that loading keeps it in and no
  text is blank.
\<close>

theorem config_round_trip:
  assumes "proper_config c"
  shows "config_from_env (config_env c) = Inr c"
proof -
  note c = assms[unfolded proper_config_def]
  note sel = config_env_sel[of c]
  have "env_or_fallback (config_env c) ''AZUMS_ADMIN_ADDR'' ''ADMIN_ADDR'' = c_admin_addr c"
    using c by (intro printed_optional sel) (auto split: option.splits)
  moreover have "Option.bind (c_admin_addr c) normalize_optional_addr = c_admin_addr c"
    using c by (cases "c_admin_addr c") (simp_all add: normalize_optional_addr_def Let_def)
  moreover have "env_or_fallback (config_env c) ''AZUMS_API_TOKEN'' ''API_TOKEN'' = c_api_token c"
    using c by (intro printed_optional sel) (auto split: option.splits)
  moreover have "env_or_fallback (config_env c) ''AZUMS_WORKER_ID'' ''WORKER_ID'' = Some (c_worker_id c)"
    "env_or_fallback (config_env c) ''AZUMS_QUEUE'' ''QUEUE'' = Some (c_queue c)"
    using c by (intro printed_string sel; simp)+
  ultimately show ?thesis
    using c unfolding config_from_env_def sel option.case
    by (simp add: sel printed_integer parsed_printed clamp_within value_or_def env_bool_def)
qed

definition sample_config :: Config where
  "sample_config =
     \<lparr>c_database_url = ''postgres://db'', c_worker_id = ''w1'', c_queue = ''mail'', c_lease_seconds = 3000000000,
      c_dequeue_batch_size = 5, c_reap_interval_ms = 500, c_verbose_job_logs = True, c_admin_addr = None,
      c_api_token = Some ''secret'', c_migrate_on_startup = False, c_max_payload_bytes = 64,
      c_max_enqueues_per_minute_per_queue = 5, c_maintenance_interval_secs = 60,
      c_sqlite_incremental_vacuum_n = 1\<rparr>"

lemma sample_config_proper: "proper_config sample_config"
  by code_simp

theorem config_round_trip_witness: "config_from_env (config_env sample_config) = Inr sample_config"
  by (rule config_round_trip[OF sample_config_proper])

section \<open>An unbounded setting\<close>

text \<open>
  The lease duration is the one setting of the worker loop that loading puts no bound on: a
  worker configured with more seconds than 32 bits hold stops with an error at the first job
  that is ready, before it has leased it, and leaves the storage as it was.
\<close>

theorem oversized_lease_stops_worker:
  assumes "pg_reachable stamp s" "config_from_env env = Inr c"
    and "env ''AZUMS_LEASE_SECONDS'' = Some (show_int n)" "2 ^ 31 \<le> n" "n < 2 ^ 63"
    and "\<not> wr_reap_due r"
    and "pg_throttle_reason (pg_now (wr_lease_env r)) (c_queue c) (queue_policy (c_queue c) s) (pg_jobs s) (pg_attempts s) = None"
    and "pg_first_ready (pg_now (wr_lease_env r)) (c_queue c) (c_dequeue_batch_size c) Fifo (pg_jobs s) \<noteq> []"
  shows "worker_round (worker_config c) r s = (Inl (client_error.Failed out_of_range), s)"
proof -
  have "c_lease_seconds c = n"
    using assms(2-5) by (auto simp: config_from_env_def printed_integer parsed_printed split: option.splits)
  then have ls: "\<not> fits_int4 (c_lease_seconds c)" using assms(4) by (simp add: fits_int4_def)
  let ?now = "pg_now (wr_lease_env r)" and ?t = "pg_expire_deadlines (pg_now (wr_lease_env r)) (c_queue c) (pg_jobs s)"
  obtain d where "pg_pick_dataset ?now (c_queue c) ?t = Some d"
    using assms(8) by (auto simp: pick_after_expiry pg_first_ready_def split: list.splits)
  then have "pg_lease_jobs_batch (wr_lease_env r) (c_queue c) (c_worker_id c) (c_lease_seconds c) (c_dequeue_batch_size c) s
      = (Inl out_of_range, s)"
    using assms(7) ls
    by (simp add: pg_lease_jobs_batch_def pg_lease_jobs_batch_with_ordering_def transaction_def pg_lease_unexpired_def
        throttle_after_expiry pg_lease_batch_def Let_def split: option.splits)
  then show ?thesis using assms(6) by (simp add: worker_round_def worker_config_def)
qed

theorem oversized_lease_stops_worker_witness:
  "worker_round (worker_config sample_config) (sample_round\<lparr>wr_reap_due := False\<rparr>) (pg_queued None) =
     (Inl (client_error.Failed out_of_range), pg_queued None)"
proof (rule oversized_lease_stops_worker[where n = 3000000000, OF pg_samples_reachable(1) config_round_trip[OF sample_config_proper]])
  show "config_env sample_config ''AZUMS_LEASE_SECONDS'' = Some (show_int 3000000000)"
    by (simp add: config_env_sel sample_config_def)
  show "pg_throttle_reason (pg_now (wr_lease_env (sample_round\<lparr>wr_reap_due := False\<rparr>))) (c_queue sample_config)
      (queue_policy (c_queue sample_config) (pg_queued None)) (pg_jobs (pg_queued None)) (pg_attempts (pg_queued None)) = None"
    by code_simp
  have "length (pg_first_ready (pg_now (wr_lease_env (sample_round\<lparr>wr_reap_due := False\<rparr>))) (c_queue sample_config)
      (c_dequeue_batch_size sample_config) Fifo (pg_jobs (pg_queued None))) = 1" by code_simp
  then show "pg_first_ready (pg_now (wr_lease_env (sample_round\<lparr>wr_reap_due := False\<rparr>))) (c_queue sample_config)
      (c_dequeue_batch_size sample_config) Fifo (pg_jobs (pg_queued None)) \<noteq> []" by auto
qed simp_all

end
