(* ===== verification/Admin_Tool.thy ===== *)
theory Admin_Tool
  imports Postgres_Backend Configuration
begin

text \<open>
  The command line tool \<^verbatim>\<open>azums/src/bin/azumsctl.rs\<close> over the PostgreSQL tables: its statements,
  its commands and what they print. A line of output is a value with the data that is formatted
  into it. Every statement commits on its own; the \<open>k\<close>-th statement of a command runs in the
  environment \<open>envs k\<close>. Parsing of identifiers is a parameter; connecting is left out.
\<close>

section \<open>Output\<close>

datatype EventData =
    AttemptData int string datetime "datetime option" "string option" "string option" string "int option"
  | PolicyData string string json

record JobRow =
  jr_id :: uuid
  jr_queue :: string
  jr_job_type :: string
  jr_status :: string
  jr_run_at :: datetime
  jr_locked_by :: "string option"
  jr_lock_expires_at :: "datetime option"
  jr_dlq_at :: "datetime option"
  jr_dlq_reason_code :: "string option"

record EventRow =
  tr_ts :: datetime
  tr_kind :: string
  tr_data :: EventData

datatype line =
    ResetOk
  | InsertedJob string uuid
  | JobCounts nat nat nat
  | TimelineOf uuid
  | JobLine JobRow
  | EventLine EventRow
  | Usage
  | UnknownCommand string

datatype exit = Finished | Failure anyhow | ExitCode int | Panic

section \<open>Statements\<close>

text \<open>TRUNCATE TABLE policy_decisions, job_attempts, queue_policies, jobs.\<close>

definition ctl_reset :: "PostgresBackend \<Rightarrow> PostgresBackend" where
  "ctl_reset s = s\<lparr>pg_decisions := [], pg_attempts := [], pg_policies := [], pg_jobs := []\<rparr>"

text \<open>The INSERT INTO jobs of both kinds of seeding; the dataset is the column's default.\<close>

definition seed_row :: "Env \<Rightarrow> string \<Rightarrow> string \<Rightarrow> PgJob" where
  "seed_row env queue job_type =
     (default_row env ''legacy'')
       \<lparr>j_queue := queue, j_job_type := job_type, j_payload := JObject [], j_run_at := pg_now env,
        j_status := ''queued'', j_priority := 0, j_max_attempts := 5\<rparr>"

definition seed_job :: "Env \<Rightarrow> string \<Rightarrow> string \<Rightarrow> (PostgresBackend, uuid) op" where
  "seed_job env queue job_type s =
     (case pg_insert_job (seed_row env queue job_type) (pg_jobs s) of
        Inl e \<Rightarrow> (Inl e, s)
      | Inr t \<Rightarrow> (Inr (e_fresh env 0), s\<lparr>pg_jobs := t\<rparr>))"

text \<open>\<^verbatim>\<open>seed\<close> from its loop variable \<open>i\<close> on, with the lines that were printed.\<close>

fun seed_from ::
  "(nat \<Rightarrow> Env) \<Rightarrow> nat \<Rightarrow> nat \<Rightarrow> PostgresBackend \<Rightarrow> (anyhow option \<times> line list) \<times> PostgresBackend" where
  "seed_from envs i 0 s = ((None, []), s)"
| "seed_from envs i (Suc n) s =
     (let job_type = (if i mod 2 = 0 then ''demo_ok'' else ''fail_me'')
      in case seed_job (envs i) ''default'' job_type s of
           (Inl e, s') \<Rightarrow> ((Some e, []), s')
         | (Inr job_id, s') \<Rightarrow>
             (case seed_from envs (Suc i) n s' of
                ((e, out), s'') \<Rightarrow> ((e, InsertedJob job_type job_id # out), s'')))"

definition ctl_seed ::
  "(nat \<Rightarrow> Env) \<Rightarrow> int \<Rightarrow> PostgresBackend \<Rightarrow> (anyhow option \<times> line list) \<times> PostgresBackend" where
  "ctl_seed envs n s = seed_from envs 0 (nat n) s"

definition show_counts :: "PostgresBackend \<Rightarrow> line" where
  "show_counts s =
     (let count = (\<lambda>status. rows_affected (\<lambda>r. j_status r = status) (pg_jobs s))
      in JobCounts (count ''queued'') (count ''running'') (count ''dlq''))"

definition demo_locked :: "datetime \<Rightarrow> PgJob \<Rightarrow> PgJob" where
  "demo_locked now r =
     r\<lparr>j_status := ''running'', j_locked_by := Some ''demo-worker'', j_locked_at := Some now,
       j_lock_expires_at := Some (now + seconds 30)\<rparr>"

definition demo_requeued :: "datetime \<Rightarrow> PgJob \<Rightarrow> PgJob" where
  "demo_requeued now r =
     r\<lparr>j_status := ''queued'', j_run_at := now + seconds 5, j_locked_by := None,
       j_locked_at := None, j_lock_expires_at := None\<rparr>"

definition demo_attempt :: "Env \<Rightarrow> uuid \<Rightarrow> MemoryAttempt" where
  "demo_attempt env job_id =
     \<lparr>at_id = e_fresh env 0, at_dataset_id = ''legacy'', at_job_id = job_id, at_attempt_no = 1,
      at_status = ''failed'', at_worker_id = ''demo-worker'', at_started_at = pg_now env,
      at_finished_at = Some (pg_now env), at_latency_ms = Some 12,
      at_error_code = Some ''TIMEOUT'', at_error_message = Some ''demo timeout''\<rparr>"

text \<open>Insert a job, simulate its lease, insert a failed attempt, reschedule.\<close>

definition seed_one_with_failed_attempt ::
  "(nat \<Rightarrow> Env) \<Rightarrow> string \<Rightarrow> string \<Rightarrow> (PostgresBackend, uuid) op" where
  "seed_one_with_failed_attempt envs queue job_type s =
     (case seed_job (envs 0) queue job_type s of
        (Inl e, s1) \<Rightarrow> (Inl e, s1)
      | (Inr job_id, s1) \<Rightarrow>
          (let now2 = pg_now (envs 1);
               s2 = s1\<lparr>pg_jobs := update_jobs now2 (\<lambda>r. j_id r = job_id) (demo_locked now2) (pg_jobs s1)\<rparr>
           in case pg_insert_attempts [demo_attempt (envs 2) job_id] s2 of
                Inl e \<Rightarrow> (Inl e, s2)
              | Inr s3 \<Rightarrow>
                  (let now4 = pg_now (envs 3)
                   in (Inr job_id,
                       s3\<lparr>pg_jobs :=
                           update_jobs now4 (\<lambda>r. j_id r = job_id) (demo_requeued now4) (pg_jobs s3)\<rparr>))))"

section \<open>The timeline\<close>

definition ctl_job_row :: "PgJob \<Rightarrow> JobRow" where
  "ctl_job_row r =
     \<lparr>jr_id = j_id r, jr_queue = j_queue r, jr_job_type = j_job_type r, jr_status = j_status r,
      jr_run_at = j_run_at r, jr_locked_by = j_locked_by r,
      jr_lock_expires_at = j_lock_expires_at r, jr_dlq_at = j_dlq_at r,
      jr_dlq_reason_code = j_dlq_reason_code r\<rparr>"

definition ctl_attempt_event :: "MemoryAttempt \<Rightarrow> EventRow" where
  "ctl_attempt_event a =
     \<lparr>tr_ts = (case at_finished_at a of Some t \<Rightarrow> t | None \<Rightarrow> at_started_at a),
      tr_kind = ''attempt'',
      tr_data = AttemptData (at_attempt_no a) (at_status a) (at_started_at a) (at_finished_at a)
                  (at_error_code a) (at_error_message a) (at_worker_id a) (at_latency_ms a)\<rparr>"

definition ctl_policy_event :: "PolicyDecisionRow \<Rightarrow> EventRow" where
  "ctl_policy_event d =
     \<lparr>tr_ts = pd_created_at d, tr_kind = ''policy'',
      tr_data = PolicyData (pd_decision d) (pd_reason_code d) (pd_details_json d)\<rparr>"

text \<open>The UNION ALL, in the order of its timestamps.\<close>

definition timeline_events :: "uuid \<Rightarrow> PostgresBackend \<Rightarrow> EventRow list" where
  "timeline_events job_id s =
     sort_key tr_ts
       (map ctl_attempt_event (filter (\<lambda>a. at_job_id a = job_id) (pg_attempts s))
        @ map ctl_policy_event (filter (\<lambda>d. pd_job_id d = job_id) (pg_decisions s)))"

definition print_timeline :: "uuid \<Rightarrow> PostgresBackend \<Rightarrow> anyhow + line list" where
  "print_timeline job_id s =
     (case row_at j_id (pg_jobs s) job_id of
        None \<Rightarrow> Inl (sql_error ''no rows returned'')
      | Some job \<Rightarrow> Inr (JobLine (ctl_job_row job) # map EventLine (timeline_events job_id s)))"

section \<open>The commands\<close>

definition ended :: "anyhow option \<Rightarrow> exit" where
  "ended e = (case e of None \<Rightarrow> Finished | Some e \<Rightarrow> Failure e)"

definition print_one ::
  "(string \<Rightarrow> uuid option) \<Rightarrow> string option \<Rightarrow> PostgresBackend \<Rightarrow> exit \<times> line list" where
  "print_one parse_uuid arg s =
     (case arg of
        None \<Rightarrow> (Panic, [])
      | Some text \<Rightarrow>
          (case parse_uuid text of
             None \<Rightarrow> (Failure (message ''invalid uuid''), [])
           | Some job_id \<Rightarrow>
               (case print_timeline job_id s of
                  Inl e \<Rightarrow> (Failure e, [])
                | Inr out \<Rightarrow> (Finished, out))))"

definition azumsctl ::
  "environment \<Rightarrow> (string \<Rightarrow> uuid option) \<Rightarrow> (nat \<Rightarrow> Env) \<Rightarrow> string list \<Rightarrow> PostgresBackend
     \<Rightarrow> (exit \<times> line list) \<times> PostgresBackend" where
  "azumsctl env parse_uuid envs args s =
     (if length args < 2 then ((ExitCode 2, [Usage]), s)
      else if env ''DATABASE_URL'' = None \<and> env ''TEST_DATABASE_URL'' = None then ((Panic, []), s)
      else
        (let command = args ! 1; arg = (if length args > 2 then Some (args ! 2) else None)
         in if command = ''reset'' then ((Finished, [ResetOk]), ctl_reset s)
            else if command = ''seed'' then
              (case ctl_seed envs (parsed_or parse_i64 10 arg) s of
                 ((e, out), s') \<Rightarrow> ((ended e, out), s'))
            else if command = ''demo'' then
              (case ctl_seed envs 5 (ctl_reset s) of
                 ((None, out), s') \<Rightarrow> ((Finished, ResetOk # out @ [show_counts s']), s')
               | ((Some e, out), s') \<Rightarrow> ((Failure e, ResetOk # out), s'))
            else if command = ''stats'' then ((Finished, [show_counts s]), s)
            else if command = ''inspect'' \<or> command = ''timeline'' then (print_one parse_uuid arg s, s)
            else if command = ''demo-timeline'' then
              (case seed_one_with_failed_attempt envs ''default'' ''fail_me'' (ctl_reset s) of
                 (Inl e, s') \<Rightarrow> ((Failure e, [ResetOk]), s')
               | (Inr job_id, s') \<Rightarrow>
                   (case print_timeline job_id s' of
                      Inl e \<Rightarrow> ((Failure e, [ResetOk, TimelineOf job_id]), s')
                    | Inr out \<Rightarrow> ((Finished, ResetOk # TimelineOf job_id # out), s')))
            else ((ExitCode 2, [UnknownCommand command]), s)))"

end
