(* ===== verification/Admin_Tool_Properties.thy ===== *)
theory Admin_Tool_Properties
  imports Admin_Tool Postgres_Properties
begin

text \<open>
  The command line tool keeps the invariant of the PostgreSQL tables, and the jobs it seeds are
  jobs that a worker leases.
\<close>

section \<open>Fresh identifiers\<close>

definition ctl_fresh :: "(nat \<Rightarrow> Env) \<Rightarrow> PostgresBackend \<Rightarrow> bool" where
  "ctl_fresh envs s \<longleftrightarrow> inj (\<lambda>k. e_fresh (envs k) 0) \<and> (\<forall>k. e_fresh (envs k) 0 \<notin> pg_used s)"

lemma ctl_freshD:
  assumes "ctl_fresh envs s"
  shows "e_fresh (envs k) 0 \<notin> pg_used s" "e_fresh (envs k) 0 = e_fresh (envs l) 0 \<longleftrightarrow> k = l"
  using assms by (auto simp: ctl_fresh_def dest: injD)

lemma ctl_fresh_reset: "ctl_fresh envs s \<Longrightarrow> ctl_fresh envs (ctl_reset s)"
  by (auto simp: ctl_fresh_def pg_used_def ctl_reset_def)

section \<open>Statements\<close>

lemma reset_sel [simp]:
  "pg_jobs (ctl_reset s) = []" "pg_attempts (ctl_reset s) = []" "pg_decisions (ctl_reset s) = []"
  "pg_policies (ctl_reset s) = []" "pg_archive (ctl_reset s) = pg_archive s"
  by (simp_all add: ctl_reset_def)

lemma reset_inv: "pg_inv s \<Longrightarrow> pg_inv (ctl_reset s)"
  by (auto simp: pg_inv_def jobs_ok_def row_keys_def pg_attempts_ok_def pg_decisions_ok_def pg_archive_ok_def
      pg_streams_ok_def pg_guard_ok_def ctl_reset_def)

lemma seed_row_sel [simp]:
  "j_id (seed_row env q jt) = e_fresh env 0" "j_dataset_id (seed_row env q jt) = ''legacy''"
  "j_idempotency_key (seed_row env q jt) = None" "j_status (seed_row env q jt) = ''queued''"
  "j_queue (seed_row env q jt) = q" "j_run_at (seed_row env q jt) = pg_now env"
  "j_deadline_at (seed_row env q jt) = None" "pg_job_ok (seed_row env q jt)"
  by (simp_all add: seed_row_def pg_job_ok_def job_statuses_def) (simp_all add: default_row_def opt_int4_def)

lemma seed_job_fresh:
  assumes "e_fresh env 0 \<notin> j_id ` set (pg_jobs s)"
  shows "seed_job env q jt s = (Inr (e_fresh env 0), s\<lparr>pg_jobs := pg_jobs s @ [seed_row env q jt]\<rparr>)"
  using assms
  by (auto simp: seed_job_def pg_insert_job_def same_job_def key_conflict_def list_ex_iff image_iff)

lemma seed_job_inv:
  assumes "pg_inv s" "e_fresh env 0 \<notin> pg_used s"
  shows "pg_inv (snd (seed_job env q jt s))"
proof -
  have "e_fresh env 0 \<notin> j_id ` set (pg_jobs s)" using assms(2) by (auto simp: pg_used_def)
  then show ?thesis
    using pg_inv_insert[OF assms(1), of "seed_row env q jt"] assms(2)
    by (simp add: seed_job_fresh key_conflict_def list_ex_iff)
qed

section \<open>Seeding\<close>

abbreviation seed_type :: "nat \<Rightarrow> string" where
  "seed_type k \<equiv> if k mod 2 = 0 then ''demo_ok'' else ''fail_me''"

abbreviation seeded :: "(nat \<Rightarrow> Env) \<Rightarrow> nat \<Rightarrow> PgJob" where
  "seeded envs k \<equiv> seed_row (envs k) ''default'' (seed_type k)"

lemma seed_from_run:
  assumes "inj (\<lambda>k. e_fresh (envs k) 0)" "\<forall>k \<ge> i. e_fresh (envs k) 0 \<notin> j_id ` set (pg_jobs s)"
  shows "seed_from envs i n s =
    ((None, map (\<lambda>k. InsertedJob (seed_type k) (e_fresh (envs k) 0)) [i..<i + n]),
     s\<lparr>pg_jobs := pg_jobs s @ map (seeded envs) [i..<i + n]\<rparr>)"
  using assms(2)
proof (induction n arbitrary: i s)
  case (Suc n)
  let ?s = "s\<lparr>pg_jobs := pg_jobs s @ [seeded envs i]\<rparr>"
  have "\<forall>k \<ge> Suc i. e_fresh (envs k) 0 \<notin> j_id ` set (pg_jobs ?s)"
    using Suc.prems assms(1) by (auto dest: injD)
  from Suc.IH[OF this] show ?case
    using Suc.prems by (simp add: seed_job_fresh Let_def upt_conv_Cons del: upt_Suc)
qed simp

lemma ctl_seed_run:
  assumes "ctl_fresh envs s"
  shows "ctl_seed envs n s =
    ((None, map (\<lambda>k. InsertedJob (seed_type k) (e_fresh (envs k) 0)) [0..<nat n]),
     s\<lparr>pg_jobs := pg_jobs s @ map (seeded envs) [0..<nat n]\<rparr>)"
  using seed_from_run[of envs 0 s "nat n"] assms by (simp add: ctl_seed_def ctl_fresh_def pg_used_def)

lemma seed_from_inv:
  assumes "inj (\<lambda>k. e_fresh (envs k) 0)" "pg_inv s" "\<forall>k \<ge> i. e_fresh (envs k) 0 \<notin> pg_used s"
  shows "pg_inv (snd (seed_from envs i n s))"
  using assms(2,3)
proof (induction n arbitrary: i s)
  case (Suc n)
  have fresh: "e_fresh (envs i) 0 \<notin> j_id ` set (pg_jobs s)" using Suc.prems(2) by (auto simp: pg_used_def)
  let ?s = "s\<lparr>pg_jobs := pg_jobs s @ [seeded envs i]\<rparr>"
  have "pg_inv ?s" using seed_job_inv[OF Suc.prems(1), of "envs i" "''default''" "seed_type i"] Suc.prems(2)
    by (simp add: seed_job_fresh[OF fresh])
  moreover have "\<forall>k \<ge> Suc i. e_fresh (envs k) 0 \<notin> pg_used ?s"
    using Suc.prems(2) assms(1) by (auto simp: pg_used_def dest: injD)
  ultimately have "pg_inv (snd (seed_from envs (Suc i) n ?s))" by (rule Suc.IH)
  then show ?case
    by (cases "i mod 2 = 0") (auto simp: seed_job_fresh[OF fresh] Let_def split: prod.split)
qed simp

lemma ctl_seed_inv: "pg_inv s \<Longrightarrow> ctl_fresh envs s \<Longrightarrow> pg_inv (snd (ctl_seed envs n s))"
  by (simp add: ctl_seed_def seed_from_inv ctl_fresh_def)

section \<open>The seeded failure\<close>

lemma demo_rows:
  "keeps_identity (demo_locked now)" "keeps_identity (demo_requeued now)"
  "pg_job_ok r \<Longrightarrow> pg_job_ok (demo_locked now r)"
  "pg_job_ok r \<Longrightarrow> now mod 1000 = 0 \<Longrightarrow> pg_job_ok (demo_requeued now r)"
  by (auto simp: keeps_identity_def demo_locked_def demo_requeued_def pg_job_ok_def job_statuses_def seconds_def)

lemma failed_attempt_inv:
  assumes "pg_inv s" "e_fresh (envs 0) 0 \<notin> pg_used s"
  shows "pg_inv (snd (seed_one_with_failed_attempt envs q jt s))"
proof (cases "seed_job (envs 0) q jt s")
  case (Pair res s1)
  then have s1: "pg_inv s1" using seed_job_inv[OF assms, of q jt] by simp
  show ?thesis
  proof (cases res)
    case (Inr i)
    let ?s2 = "s1\<lparr>pg_jobs := update_jobs (pg_now (envs 1)) (\<lambda>r. j_id r = i) (demo_locked (pg_now (envs 1))) (pg_jobs s1)\<rparr>"
    have s2: "pg_inv ?s2" by (rule pg_inv_update[OF s1]) (simp_all add: demo_rows)
    show ?thesis
    proof (cases "pg_insert_attempts [demo_attempt (envs 2) i] ?s2")
      case (Inr s3)
      have "pg_inv s3" by (rule pg_insert_attempts_inv[OF s2 Inr]) (simp add: demo_attempt_def pg_attempt_ok_def)
      from pg_inv_update[OF this demo_rows(2,4)] show ?thesis
        using Pair Inr \<open>res = Inr i\<close> by (simp add: seed_one_with_failed_attempt_def Let_def)
    qed (use Pair Inr s2 in \<open>simp add: seed_one_with_failed_attempt_def Let_def\<close>)
  qed (use Pair s1 in \<open>simp add: seed_one_with_failed_attempt_def\<close>)
qed

section \<open>The commands\<close>

lemma azumsctl_state:
  "snd (azumsctl env parse envs args s) =
    (if length args < 2 \<or> env ''DATABASE_URL'' = None \<and> env ''TEST_DATABASE_URL'' = None then s
     else if args ! 1 = ''reset'' then ctl_reset s
     else if args ! 1 = ''seed''
     then snd (ctl_seed envs (parsed_or parse_i64 10 (if length args > 2 then Some (args ! 2) else None)) s)
     else if args ! 1 = ''demo'' then snd (ctl_seed envs 5 (ctl_reset s))
     else if args ! 1 = ''demo-timeline''
     then snd (seed_one_with_failed_attempt envs ''default'' ''fail_me'' (ctl_reset s))
     else s)"
proof -
  have "snd (case p of ((e, out), s') \<Rightarrow> ((ended e, out), s')) = snd p"
    "snd (case p of ((None, out), s') \<Rightarrow> ((Finished, ResetOk # out @ [show_counts s']), s')
       | ((Some e, out), s') \<Rightarrow> ((Failure e, ResetOk # out), s')) = snd p"
    for p :: "(anyhow option \<times> line list) \<times> PostgresBackend"
    by (simp_all split: prod.split option.split)
  moreover have "snd (case p of
        (Inl e, s') \<Rightarrow> ((Failure e, [ResetOk]), s')
      | (Inr job_id, s') \<Rightarrow>
          (case print_timeline job_id s' of
             Inl e \<Rightarrow> ((Failure e, [ResetOk, TimelineOf job_id]), s')
           | Inr out \<Rightarrow> ((Finished, ResetOk # TimelineOf job_id # out), s'))) = snd p"
    for p :: "(anyhow + uuid) \<times> PostgresBackend"
    by (simp split: prod.split sum.split)
  ultimately show ?thesis
    unfolding azumsctl_def Let_def by (simp only: if_distrib[of snd] snd_conv) simp
qed

text \<open>
  C39: Every command of the tool, whatever its arguments, keeps the invariant of the PostgreSQL
  tables that the storage and the worker rely on, also where it fails half way, as long as the
  database draws unused identifiers; a command that is not one of those that reset or seed
  changes nothing.
\<close>

theorem azumsctl_keeps_tables:
  assumes "pg_inv s" "ctl_fresh envs s" "azumsctl env parse envs args s = ((ended_as, out), s')"
  shows "pg_inv s' \<and> (s' = s \<or> args ! 1 \<in> {''reset'', ''seed'', ''demo'', ''demo-timeline''})"
proof -
  note reset = reset_inv[OF assms(1)] ctl_fresh_reset[OF assms(2)]
  have "s' = snd (azumsctl env parse envs args s)" using assms(3) by simp
  then show ?thesis
    using assms(1) reset(1) ctl_seed_inv[OF assms(1,2)] ctl_seed_inv[OF reset]
      failed_attempt_inv[OF reset(1) ctl_freshD(1)[OF reset(2)]]
    by (auto simp: azumsctl_state)
qed

definition ctl_envs :: "nat \<Rightarrow> Env" where
  "ctl_envs k = sample_env (3000 + 1000 * int k) (10 + k)"

lemma ctl_envs_fresh: "pg_used s \<subseteq> {0..<10} \<Longrightarrow> ctl_fresh ctl_envs s"
  by (auto simp: ctl_fresh_def ctl_envs_def sample_env_def inj_def)

lemma queued_used: "pg_used (pg_queued None) \<subseteq> {0..<10}"
proof -
  have "list_all (\<lambda>r. j_id r < 10) (pg_jobs (pg_queued None)) \<and> pg_attempts (pg_queued None) = []
    \<and> pg_archive (pg_queued None) = []" by code_simp
  then show ?thesis by (auto simp: pg_used_def list_all_iff)
qed

theorem azumsctl_keeps_tables_witness:
  "pg_inv (snd (azumsctl [''DATABASE_URL'' \<mapsto> ''postgres://db''] (\<lambda>_. None) ctl_envs
      [''azumsctl'', ''demo-timeline''] (pg_queued None)))"
proof -
  obtain e out s' where "azumsctl [''DATABASE_URL'' \<mapsto> ''postgres://db''] (\<lambda>_. None) ctl_envs
      [''azumsctl'', ''demo-timeline''] (pg_queued None) = ((e, out), s')" by (metis surj_pair)
  with azumsctl_keeps_tables[OF pg_samples_inv(1)[of None] ctl_envs_fresh[OF queued_used] this] show ?thesis by simp
qed

section \<open>Leasing what was seeded\<close>

lemma pg_timestamp_mono: "t \<le> u \<Longrightarrow> pg_timestamp t \<le> pg_timestamp u"
  by (simp add: pg_timestamp_def minus_mod_eq_mult_div zdiv_mono1)

lemma length_pg_order: "length (pg_order policy xs) = length xs" "set (pg_order policy xs) = set xs"
  by (cases policy; simp)+

text \<open>All jobs of a table are ready and in one dataset: a lease takes as many as it may.\<close>

lemma first_ready_all:
  assumes "list_all (\<lambda>r. pg_ready now q r \<and> j_dataset_id r = d) t"
  shows "length (pg_first_ready now q bs policy t) = min (length t) (nat (clamp 1 4096 bs))"
    "set (pg_first_ready now q bs policy t) \<subseteq> set t"
proof -
  have all: "filter (pg_ready now q) t = t" using assms by (simp add: filter_id_conv list_all_iff)
  show "length (pg_first_ready now q bs policy t) = min (length t) (nat (clamp 1 4096 bs))"
    "set (pg_first_ready now q bs policy t) \<subseteq> set t"
  proof (atomize (full), cases "sort_key (\<lambda>r. (j_run_at r, j_created_at r)) t")
    case Nil
    then have "t = []" by (metis length_0_conv length_sort)
    then show "length (pg_first_ready now q bs policy t) = min (length t) (nat (clamp 1 4096 bs))
      \<and> set (pg_first_ready now q bs policy t) \<subseteq> set t" by (simp add: pg_first_ready_def)
  next
    case (Cons o1 rest)
    then have "o1 \<in> set t" by (metis list.set_intros(1) set_sort)
    then have "filter (\<lambda>r. j_dataset_id r = j_dataset_id o1) t = t"
      using assms by (auto simp: filter_id_conv list_all_iff)
    then show "length (pg_first_ready now q bs policy t) = min (length t) (nat (clamp 1 4096 bs))
      \<and> set (pg_first_ready now q bs policy t) \<subseteq> set t"
      using Cons set_take_subset[of _ "pg_order policy t"]
      by (simp add: pg_first_ready_def all length_pg_order)
  qed
qed

text \<open>
  What the tool seeds is work for a worker: after a reset and seeding \<open>n\<close> jobs, the first
  lease call of the default queue at a later time hands out as many of the \<open>n\<close> jobs as its batch
  size allows, locked for the worker, whatever policies the queue had before the reset.
\<close>

theorem seeded_jobs_leased:
  assumes "pg_inv s" "ctl_fresh envs s" "\<And>k. e_now (envs k) \<le> e_now env" "fits_int4 ls"
    and "pg_lease_jobs_batch_with_ordering env ''default'' w ls bs policy
           (snd (ctl_seed envs n (ctl_reset s))) = (res, s')"
  shows "\<exists>js. res = Inr js \<and> length js = min (nat n) (nat (clamp 1 4096 bs))
    \<and> (\<forall>j \<in> set js. j_locked_by j = Some w \<and> (\<exists>k < nat n. j_id j = e_fresh (envs k) 0))"
proof -
  let ?s = "snd (ctl_seed envs n (ctl_reset s))" and ?t = "map (seeded envs) [0..<nat n]"
  note reset = reset_inv[OF assms(1)] ctl_fresh_reset[OF assms(2)]
  have s: "pg_jobs ?s = ?t" "pg_policies ?s = []" by (simp_all add: ctl_seed_run[OF reset(2)])
  have "list_all (\<lambda>r. pg_ready (pg_now env) ''default'' r \<and> j_dataset_id r = ''legacy'') ?t"
    using pg_timestamp_mono[OF assms(3)]
    by (auto simp: list_all_iff pg_ready_def pg_due_def pg_past_deadline_def pg_now_def)
  note first = first_ready_all[OF this, of bs policy]
  define C where "C = pg_first_ready (pg_now env) ''default'' bs policy ?t"
  from pg_lease_passes[OF ctl_seed_inv[OF reset] assms(4), where env = env and q = "''default''" and w = w and bs = bs
      and policy = policy] assms(5)
  have res: "res = Inr (map (\<lambda>r. job_of (leased_row (pg_now env) w ls r)) C)"
    by (simp add: s pg_throttle_reason_def Let_def C_def)
  have "j_locked_by (job_of (leased_row now w ls r)) = Some w" "j_id (job_of (leased_row now w ls r)) = j_id r" for now r
    by (simp_all add: leased_row_def pg_lock_row_def Job.defs)
  moreover have "\<exists>k < nat n. j_id r = e_fresh (envs k) 0" if "r \<in> set C" for r
  proof -
    have "r \<in> set ?t" using that first(2) unfolding C_def by blast
    then show ?thesis by auto
  qed
  moreover have "length C = min (nat n) (nat (clamp 1 4096 bs))" using first(1) by (simp add: C_def)
  ultimately show ?thesis by (simp add: res)
qed

theorem seeded_jobs_leased_witness:
  "\<exists>js. fst (pg_lease_jobs_batch_with_ordering (sample_env 10000 50) ''default'' ''w1'' 10 2 Fifo
      (snd (ctl_seed (\<lambda>k. sample_env 3000 (10 + k)) 3 (ctl_reset (pg_queued None))))) = Inr js \<and> length js = 2"
proof -
  let ?envs = "\<lambda>k. sample_env 3000 (10 + k)"
  obtain res s' where run: "pg_lease_jobs_batch_with_ordering (sample_env 10000 50) ''default'' ''w1'' 10 2 Fifo
      (snd (ctl_seed ?envs 3 (ctl_reset (pg_queued None)))) = (res, s')" by fastforce
  have "ctl_fresh ?envs (pg_queued None)"
    using queued_used by (auto simp: ctl_fresh_def sample_env_def inj_def)
  from seeded_jobs_leased[OF pg_samples_inv(1)[of None] this _ _ run] run show ?thesis
    by (auto simp: sample_env_def fits_int4_def clamp_def)
qed

end
