(* ===== verification/Perf_Guard.thy ===== *)
theory Perf_Guard
  imports Configuration "HOL-Library.Multiset"
begin

text \<open>
  The check of performance reports \<^verbatim>\<open>azums/src/bin/azums-perf-guard.rs\<close>: two reports are grouped
  by scenario, their medians compared against thresholds, and what exceeds them may have to be
  confirmed by a second pair of reports. Measurements are exact fractions where the program has
  64-bit floats, which in a JSON file are finite. The order in which a hash map is iterated is
  the argument \<open>iter\<close>, the reading of a file and the parsing of a float are the arguments
  \<open>files\<close> and \<open>parse\<close>. The lines about what is skipped and observed are left out.
\<close>

section \<open>Reports\<close>

record ScenarioReport =
  sr_backend :: string
  sr_workload :: string
  sr_throughput_jobs_per_sec :: rat
  sr_p50_ms :: rat
  sr_p99_ms :: rat
  sr_allocations :: "nat option"
  sr_cpu :: "string option"
  sr_ram_bytes :: "nat option"

type_synonym PerfReport = "ScenarioReport list"

record ScenarioAggregate =
  sa_throughput_jobs_per_sec :: rat
  sa_latency_p50_ms :: rat
  sa_latency_p99_ms :: rat
  sa_allocations :: "rat option"
  sa_ram_bytes :: "rat option"
  sa_cpu_measured :: bool

record Thresholds =
  th_throughput_regression :: rat
  th_latency_regression :: rat
  th_allocation_regression :: rat
  th_memory_regression :: rat

record Regression =
  rg_key :: string
  rg_metric :: string
  rg_baseline :: rat
  rg_current :: rat
  rg_change_pct :: rat
  rg_threshold_pct :: rat

definition env_parse :: "(string \<Rightarrow> rat option) \<Rightarrow> environment \<Rightarrow> string \<Rightarrow> rat \<Rightarrow> rat" where
  "env_parse parse env name dflt = value_or dflt (Option.bind (env name) parse)"

definition thresholds_from_env :: "(string \<Rightarrow> rat option) \<Rightarrow> environment \<Rightarrow> Thresholds" where
  "thresholds_from_env parse env =
     \<lparr>th_throughput_regression = env_parse parse env ''AZUMS_PERF_MAX_THROUGHPUT_REGRESSION'' (5 / 100),
      th_latency_regression = env_parse parse env ''AZUMS_PERF_MAX_LATENCY_REGRESSION'' (5 / 100),
      th_allocation_regression = env_parse parse env ''AZUMS_PERF_MAX_ALLOCATION_REGRESSION'' (10 / 100),
      th_memory_regression = env_parse parse env ''AZUMS_PERF_MAX_MEMORY_REGRESSION'' (10 / 100)\<rparr>"

section \<open>Medians of a scenario\<close>

definition median :: "rat list \<Rightarrow> rat" where
  "median xs =
     (let values = sort xs; middle = length values div 2
      in if length values mod 2 = 0 then (values ! (middle - 1) + values ! middle) / 2
         else values ! middle)"

definition optional_median :: "rat list \<Rightarrow> rat option" where
  "optional_median values = (if values = [] then None else Some (median values))"

definition group_key :: "ScenarioReport \<Rightarrow> string" where
  "group_key r = sr_backend r @ ''|'' @ sr_workload r"

text \<open>\<^verbatim>\<open>groups.entry(key).or_default().push(result)\<close>\<close>

definition push_result ::
  "(string, ScenarioReport list) hashmap \<Rightarrow> ScenarioReport
     \<Rightarrow> (string, ScenarioReport list) hashmap" where
  "push_result groups r =
     (case map_of groups (group_key r) of
        None \<Rightarrow> hm_insert (group_key r) [r] groups
      | Some _ \<Rightarrow> hm_modify (group_key r) (\<lambda>rs. rs @ [r]) groups)"

definition aggregate_of :: "ScenarioReport list \<Rightarrow> ScenarioAggregate" where
  "aggregate_of results =
     \<lparr>sa_throughput_jobs_per_sec = median (map sr_throughput_jobs_per_sec results),
      sa_latency_p50_ms = median (map sr_p50_ms results),
      sa_latency_p99_ms = median (map sr_p99_ms results),
      sa_allocations = optional_median (map rat_of_nat (List.map_filter sr_allocations results)),
      sa_ram_bytes = optional_median (map rat_of_nat (List.map_filter sr_ram_bytes results)),
      sa_cpu_measured = list_all (\<lambda>r. sr_cpu r \<noteq> None) results\<rparr>"

definition aggregate_results :: "PerfReport \<Rightarrow> (string, ScenarioAggregate) hashmap" where
  "aggregate_results report =
     map (\<lambda>(key, results). (key, aggregate_of results)) (foldl push_result [] report)"

section \<open>Comparing\<close>

definition compare_lower_is_worse ::
  "string \<Rightarrow> string \<Rightarrow> rat \<Rightarrow> rat \<Rightarrow> rat \<Rightarrow> Regression list" where
  "compare_lower_is_worse key metric baseline current threshold =
     (if baseline \<le> 0 then []
      else
        (let change = (baseline - current) / baseline
         in if change > threshold
            then [\<lparr>rg_key = key, rg_metric = metric, rg_baseline = baseline, rg_current = current,
                   rg_change_pct = change, rg_threshold_pct = threshold\<rparr>]
            else []))"

definition compare_higher_is_worse ::
  "string \<Rightarrow> string \<Rightarrow> rat \<Rightarrow> rat \<Rightarrow> rat \<Rightarrow> Regression list" where
  "compare_higher_is_worse key metric baseline current threshold =
     (if baseline \<le> 0 then []
      else
        (let change = (current - baseline) / baseline
         in if change > threshold
            then [\<lparr>rg_key = key, rg_metric = metric, rg_baseline = baseline, rg_current = current,
                   rg_change_pct = change, rg_threshold_pct = threshold\<rparr>]
            else []))"

definition compare_optional_higher_is_worse ::
  "string \<Rightarrow> string \<Rightarrow> rat option \<Rightarrow> rat option \<Rightarrow> rat \<Rightarrow> Regression list" where
  "compare_optional_higher_is_worse key metric baseline current threshold =
     (case (baseline, current) of
        (Some b, Some c) \<Rightarrow> compare_higher_is_worse key metric b c threshold
      | _ \<Rightarrow> [])"

text \<open>One scenario: the two latencies count only together.\<close>

definition compare_scenario ::
  "Thresholds \<Rightarrow> string \<Rightarrow> ScenarioAggregate \<Rightarrow> ScenarioAggregate \<Rightarrow> Regression list" where
  "compare_scenario th key b c =
     (let latency_regressions =
            compare_higher_is_worse key ''latency.p50_ms'' (sa_latency_p50_ms b)
              (sa_latency_p50_ms c) (th_latency_regression th)
            @ compare_higher_is_worse key ''latency.p99_ms'' (sa_latency_p99_ms b)
                (sa_latency_p99_ms c) (th_latency_regression th)
      in compare_lower_is_worse key ''throughput_jobs_per_sec'' (sa_throughput_jobs_per_sec b)
           (sa_throughput_jobs_per_sec c) (th_throughput_regression th)
         @ (if length latency_regressions = 2 then latency_regressions else [])
         @ compare_optional_higher_is_worse key ''resources.allocations'' (sa_allocations b)
             (sa_allocations c) (th_allocation_regression th)
         @ compare_optional_higher_is_worse key ''resources.ram_bytes'' (sa_ram_bytes b)
             (sa_ram_bytes c) (th_memory_regression th))"

type_synonym iteration =
  "(string, ScenarioAggregate) hashmap \<Rightarrow> (string \<times> ScenarioAggregate) list"

definition compare_reports ::
  "iteration \<Rightarrow> PerfReport \<Rightarrow> PerfReport \<Rightarrow> Thresholds \<Rightarrow> Regression list" where
  "compare_reports iter baseline current th =
     concat (map (\<lambda>(key, current_result).
                    case map_of (aggregate_results baseline) key of
                      None \<Rightarrow> []
                    | Some baseline_result \<Rightarrow> compare_scenario th key baseline_result current_result)
               (iter (aggregate_results current)))"

section \<open>The verdict\<close>

definition regression_id :: "Regression \<Rightarrow> string \<times> string" where
  "regression_id r = (rg_key r, rg_metric r)"

datatype verdict =
    Compared nat
  | Regressions "Regression list"
  | Unreadable anyhow
  | BadUsage

definition judge :: "PerfReport \<Rightarrow> Regression list \<Rightarrow> verdict" where
  "judge current regressions =
     (if regressions = [] then Compared (length (aggregate_results current))
      else Regressions regressions)"

definition perf_guard ::
  "iteration \<Rightarrow> (string \<Rightarrow> anyhow + PerfReport) \<Rightarrow> Thresholds \<Rightarrow> string list \<Rightarrow> verdict" where
  "perf_guard iter files th args =
     (if length args \<noteq> 3 \<and> length args \<noteq> 5 then BadUsage
      else
        (case files (args ! 1) of
           Inl e \<Rightarrow> Unreadable e
         | Inr baseline \<Rightarrow>
             (case files (args ! 2) of
                Inl e \<Rightarrow> Unreadable e
              | Inr current \<Rightarrow>
                  (let regressions = compare_reports iter baseline current th
                   in if length args = 5 \<and> regressions \<noteq> [] then
                        (case files (args ! 3) of
                           Inl e \<Rightarrow> Unreadable e
                         | Inr confirmation_baseline \<Rightarrow>
                             (case files (args ! 4) of
                                Inl e \<Rightarrow> Unreadable e
                              | Inr confirmation_current \<Rightarrow>
                                  (let confirmed =
                                         map regression_id
                                           (compare_reports iter confirmation_baseline
                                              confirmation_current th)
                                   in judge current
                                        (filter (\<lambda>r. regression_id r \<in> set confirmed) regressions))))
                      else judge current regressions))))"

section \<open>Groups\<close>

lemma median_perm: "mset xs = mset ys \<Longrightarrow> median xs = median ys"
  using properties_for_sort[of "sort ys" xs] by (simp add: median_def Let_def)

lemma push_result_lookup:
  "map_of (push_result g r) k =
    (if k = group_key r then Some (case map_of g k of None \<Rightarrow> [r] | Some rs \<Rightarrow> rs @ [r]) else map_of g k)"
  by (simp add: push_result_def split: option.split)

text \<open>Grouping through the hash map equals filtering the report.\<close>

lemma grouped:
  "map_of (foldl push_result [] report) k =
    (let g = filter (\<lambda>r. group_key r = k) report in if g = [] then None else Some g)"
  by (induction report rule: rev_induct) (auto simp: push_result_lookup Let_def split: option.splits if_splits)

lemma aggregate_lookup:
  "map_of (aggregate_results report) k =
    (let g = filter (\<lambda>r. group_key r = k) report in if g = [] then None else Some (aggregate_of g))"
proof -
  have "map_of (map (\<lambda>(k, rs). (k, aggregate_of rs)) xs) k = map_option aggregate_of (map_of xs k)" for xs
    by (induction xs) auto
  then show ?thesis by (simp add: aggregate_results_def grouped Let_def)
qed

lemma wf_push_result: "wf_map g \<Longrightarrow> wf_map (push_result g r)"
  by (simp add: push_result_def split: option.split)

lemma wf_grouped: "wf_map (foldl push_result [] report)"
  by (induction report rule: rev_induct) (simp_all add: wf_push_result)

lemma wf_aggregates: "wf_map (aggregate_results report)"
  using wf_grouped[of report] by (simp add: aggregate_results_def wf_map_def comp_def case_prod_unfold)

lemma aggregate_count: "length (aggregate_results report) = card (group_key ` set report)"
proof -
  have "fst ` set (aggregate_results report) = dom (map_of (aggregate_results report))"
    by (simp add: dom_map_of_conv_image_fst)
  also have "\<dots> = group_key ` set report"
    by (auto simp: dom_def aggregate_lookup Let_def filter_empty_conv image_iff split: if_splits)
  finally show ?thesis
    using wf_aggregates[of report] distinct_card[of "map fst (aggregate_results report)"] by (simp add: wf_map_def)
qed

end
