(* ===== verification/Perf_Guard_Properties.thy ===== *)
theory Perf_Guard_Properties
  imports Perf_Guard
begin

text \<open>
  What the check of performance reports decides: the grouping, the divisions and the order of
  the hash map are gone, and only the medians of the scenarios that both reports have remain.
\<close>

section \<open>Breached thresholds\<close>

definition runs :: "string \<Rightarrow> PerfReport \<Rightarrow> PerfReport" where
  "runs key report = filter (\<lambda>r. group_key r = key) report"

definition exceeds :: "rat \<Rightarrow> rat \<Rightarrow> rat \<Rightarrow> bool" where
  "exceeds th base cur \<longleftrightarrow> 0 < base \<and> (1 + th) * base < cur"

definition measured_exceeds :: "rat \<Rightarrow> rat option \<Rightarrow> rat option \<Rightarrow> bool" where
  "measured_exceeds th base cur \<longleftrightarrow> (\<exists>b c. base = Some b \<and> cur = Some c \<and> exceeds th b c)"

definition only_if :: "bool \<Rightarrow> 'a list \<Rightarrow> 'a set" where
  "only_if P xs = (if P then set xs else {})"

definition worse :: "Thresholds \<Rightarrow> ScenarioAggregate \<Rightarrow> ScenarioAggregate \<Rightarrow> string set" where
  "worse th b c =
     only_if (0 < sa_throughput_jobs_per_sec b
         \<and> sa_throughput_jobs_per_sec c < (1 - th_throughput_regression th) * sa_throughput_jobs_per_sec b)
       [''throughput_jobs_per_sec'']
     \<union> only_if (exceeds (th_latency_regression th) (sa_latency_p50_ms b) (sa_latency_p50_ms c)
         \<and> exceeds (th_latency_regression th) (sa_latency_p99_ms b) (sa_latency_p99_ms c))
       [''latency.p50_ms'', ''latency.p99_ms'']
     \<union> only_if (measured_exceeds (th_allocation_regression th) (sa_allocations b) (sa_allocations c))
       [''resources.allocations'']
     \<union> only_if (measured_exceeds (th_memory_regression th) (sa_ram_bytes b) (sa_ram_bytes c))
       [''resources.ram_bytes'']"

text \<open>The scenarios of both reports and the metrics that got worse beyond the threshold.\<close>

definition breached :: "Thresholds \<Rightarrow> PerfReport \<Rightarrow> PerfReport \<Rightarrow> (string \<times> string) set" where
  "breached th baseline current =
     {(key, metric). runs key baseline \<noteq> [] \<and> runs key current \<noteq> []
        \<and> metric \<in> worse th (aggregate_of (runs key baseline)) (aggregate_of (runs key current))}"

lemma compare_ids:
  "regression_id ` set (compare_lower_is_worse key metric b c th) =
     only_if (0 < b \<and> c < (1 - th) * b) [(key, metric)]"
  "regression_id ` set (compare_higher_is_worse key metric b c th) = only_if (exceeds th b c) [(key, metric)]"
  "length (compare_higher_is_worse key metric b c th) = (if exceeds th b c then 1 else 0)"
proof -
  have "(c - b) / b > th \<longleftrightarrow> (1 + th) * b < c" "(b - c) / b > th \<longleftrightarrow> c < (1 - th) * b" if "0 < b"
    using that by (simp_all add: pos_less_divide_eq algebra_simps)
  then show "regression_id ` set (compare_lower_is_worse key metric b c th) =
      only_if (0 < b \<and> c < (1 - th) * b) [(key, metric)]"
    and "regression_id ` set (compare_higher_is_worse key metric b c th) = only_if (exceeds th b c) [(key, metric)]"
    and "length (compare_higher_is_worse key metric b c th) = (if exceeds th b c then 1 else 0)"
    by (simp_all add: compare_lower_is_worse_def compare_higher_is_worse_def exceeds_def only_if_def regression_id_def not_le)
qed

lemma compare_optional_ids:
  "regression_id ` set (compare_optional_higher_is_worse key metric x y th) =
     only_if (measured_exceeds th x y) [(key, metric)]"
  by (cases x; cases y) (simp_all add: compare_optional_higher_is_worse_def compare_ids measured_exceeds_def only_if_def)

lemma only_if_pair: "{key} \<times> only_if P xs = only_if P (map (Pair key) xs)"
  by (auto simp: only_if_def)

lemma both_ids:
  "regression_id ` set (let l = compare_higher_is_worse key m1 b1 c1 th @ compare_higher_is_worse key m2 b2 c2 th
      in if length l = 2 then l else []) =
    only_if (exceeds th b1 c1 \<and> exceeds th b2 c2) [(key, m1), (key, m2)]"
proof -
  have "regression_id ` set (compare_higher_is_worse key m1 b1 c1 th @ compare_higher_is_worse key m2 b2 c2 th) =
      only_if (exceeds th b1 c1) [(key, m1)] \<union> only_if (exceeds th b2 c2) [(key, m2)]"
    by (simp only: set_append image_Un compare_ids(2))
  then show ?thesis by (auto simp: Let_def compare_ids(3) only_if_def simp del: set_append)
qed

lemma scenario_ids: "regression_id ` set (compare_scenario th key b c) = {key} \<times> worse th b c"
  using both_ids[of key "''latency.p50_ms''" "sa_latency_p50_ms b" "sa_latency_p50_ms c" "th_latency_regression th"
      "''latency.p99_ms''" "sa_latency_p99_ms b" "sa_latency_p99_ms c"]
  by (simp only: compare_scenario_def worse_def Let_def set_append image_Un Sigma_Un_distrib2 compare_ids(1)
      compare_optional_ids only_if_pair list.map Un_assoc)

lemma report_ids:
  assumes "\<And>m. set (iter m) = set m"
  shows "regression_id ` set (compare_reports iter b c th) = breached th b c"
proof -
  have cur: "(k, x) \<in> set (aggregate_results c) \<longleftrightarrow> runs k c \<noteq> [] \<and> x = aggregate_of (runs k c)" for k x
    using in_set_iff_map_of[OF wf_aggregates, of k x c] by (auto simp: aggregate_lookup Let_def runs_def)
  have base: "map_of (aggregate_results b) k = (if runs k b = [] then None else Some (aggregate_of (runs k b)))" for k
    by (simp add: aggregate_lookup Let_def runs_def)
  show ?thesis
  proof -
    have "set (compare_reports iter b c th) =
        (\<Union>(k, x) \<in> set (aggregate_results c). case map_of (aggregate_results b) k of
           None \<Rightarrow> {} | Some y \<Rightarrow> set (compare_scenario th k y x))"
      by (simp add: compare_reports_def assms case_prod_unfold if_distrib option.case_distrib[of set] cong: option.case_cong)
    then have "regression_id ` set (compare_reports iter b c th) =
        (\<Union>(k, x) \<in> set (aggregate_results c). case map_of (aggregate_results b) k of
           None \<Rightarrow> {} | Some y \<Rightarrow> {k} \<times> worse th y x)"
      by (auto simp: image_UN scenario_ids[symmetric] split: option.splits)
    also have "set (aggregate_results c) = (\<lambda>k. (k, aggregate_of (runs k c))) ` {k. runs k c \<noteq> []}"
      by (auto simp: cur)
    also have "(\<Union>(k, x) \<in> \<dots>. case map_of (aggregate_results b) k of
           None \<Rightarrow> {} | Some y \<Rightarrow> {k} \<times> worse th y x) = breached th b c"
      by (auto simp: breached_def base split: if_splits)
    finally show ?thesis .
  qed
qed

text \<open>
  C40: The verdict of the check of performance reports, for two reports and for four that can all
  be read: exactly the pairs of a scenario and a metric are reported whose median got worse than
  its threshold allows, relative to a positive baseline, in the one comparison or, with four
  reports, in both, a latency only when the median and the tail both did; when there is none, the
  number of scenarios of the current report is printed. Neither the order of the runs within a
  report's scenario nor the order of a hash map matters.
\<close>

theorem perf_guard_verdict:
  assumes "\<And>m. set (iter m) = set m"
    and "files f = Inr b" "files g = Inr c" "files f' = Inr b'" "files g' = Inr c'"
    and "args = [p, f, g] \<and> B = breached th b c
      \<or> args = [p, f, g, f', g'] \<and> B = breached th b c \<inter> breached th b' c'"
  shows "case perf_guard iter files th args of
      Compared n \<Rightarrow> B = {} \<and> n = card (group_key ` set c)
    | Regressions rs \<Rightarrow> B \<noteq> {} \<and> regression_id ` set rs = B
    | _ \<Rightarrow> False"
proof -
  note ids = report_ids[OF assms(1)]
  let ?R = "compare_reports iter b c th" and ?R' = "compare_reports iter b' c' th"
  let ?F = "filter (\<lambda>r. regression_id r \<in> set (map regression_id ?R')) ?R"
  define J where "J rs B \<longleftrightarrow> (case judge c rs of
      Compared n \<Rightarrow> B = {} \<and> n = card (group_key ` set c)
    | Regressions rs \<Rightarrow> B \<noteq> {} \<and> regression_id ` set rs = B | _ \<Rightarrow> False)" for rs B
  have J: "J rs B" if "regression_id ` set rs = B" for rs B
    using that by (auto simp: J_def judge_def aggregate_count)
  have "regression_id ` {r \<in> A. regression_id r \<in> X} = regression_id ` A \<inter> X" for A X by auto
  then have "regression_id ` set ?F = regression_id ` set ?R \<inter> regression_id ` set ?R'" by simp
  then have both: "regression_id ` set ?F = breached th b c \<inter> breached th b' c'" by (simp only: ids)
  from assms(6) show ?thesis
  proof
    assume "args = [p, f, g] \<and> B = breached th b c"
    then have args: "args = [p, f, g]" and B: "B = breached th b c" by blast+
    show ?thesis unfolding args B using J[OF ids, of b c th] assms(2,3) by (simp add: perf_guard_def Let_def J_def)
  next
    assume "args = [p, f, g, f', g'] \<and> B = breached th b c \<inter> breached th b' c'"
    then have args: "args = [p, f, g, f', g']" and B: "B = breached th b c \<inter> breached th b' c'" by blast+
    show ?thesis
    proof (cases "?R = []")
      case True
      then have "B = {}" using ids[of b c th] B by simp
      show ?thesis unfolding args \<open>B = {}\<close> using J[of "[]" "{}"] True assms(2,3)
        by (simp add: perf_guard_def Let_def J_def)
    next
      case False
      then show ?thesis unfolding args B using J[OF both] assms(2-5) by (simp add: perf_guard_def Let_def J_def)
    qed
  qed
qed

definition sample_scenario :: "rat \<Rightarrow> rat \<Rightarrow> ScenarioReport" where
  "sample_scenario throughput p99 =
     \<lparr>sr_backend = ''memory'', sr_workload = ''enqueue'', sr_throughput_jobs_per_sec = throughput, sr_p50_ms = 2,
      sr_p99_ms = p99, sr_allocations = Some 10, sr_cpu = None, sr_ram_bytes = None\<rparr>"

theorem perf_guard_verdict_witness:
  "\<exists>rs. perf_guard (\<lambda>m. m) (\<lambda>f. Inr [sample_scenario (if f = ''old'' then 100 else 90) 5])
      (thresholds_from_env (\<lambda>_. None) (\<lambda>_. None)) [''guard'', ''old'', ''new''] = Regressions rs
    \<and> regression_id ` set rs = {(''memory|enqueue'', ''throughput_jobs_per_sec'')}"
proof -
  let ?files = "\<lambda>f. (Inr [sample_scenario (if f = ''old'' then 100 else 90) 5] :: anyhow + PerfReport)"
  let ?th = "thresholds_from_env (\<lambda>_. None) (\<lambda>_. None)"
  let ?b = "[sample_scenario 100 5]" and ?c = "[sample_scenario 90 5]"
  have runs: "runs key ?b = (if key = ''memory|enqueue'' then ?b else [])"
    "runs key ?c = (if key = ''memory|enqueue'' then ?c else [])" for key
    by (auto simp: runs_def group_key_def sample_scenario_def)
  have "\<not> measured_exceeds th x None" "\<not> measured_exceeds (1 / 10) (Some 10) (Some 10)" for th x
    by (simp_all add: measured_exceeds_def exceeds_def)
  then have "worse ?th (aggregate_of ?b) (aggregate_of ?c) = {''throughput_jobs_per_sec''}"
    by (simp add: worse_def only_if_def exceeds_def aggregate_of_def median_def optional_median_def
        sample_scenario_def map_filter_simps thresholds_from_env_def env_parse_def value_or_def)
  then have "breached ?th ?b ?c = {(''memory|enqueue'', ''throughput_jobs_per_sec'')}"
    unfolding breached_def runs by (simp add: set_eq_iff split: if_split)
  then show ?thesis
    using perf_guard_verdict[where iter = "\<lambda>m. m" and files = ?files and f = "''old''" and g = "''new''"
        and f' = "''old''" and g' = "''new''" and b = ?b and c = ?c and b' = ?b and c' = ?c and th = ?th
        and p = "''guard''" and args = "[''guard'', ''old'', ''new'']" and B = "breached ?th ?b ?c"]
    by (auto split: verdict.splits)
qed

end
