(* ===== verification/Web_Integrations.thy ===== *)
theory Web_Integrations
  imports Memory_Properties Client_Runtime
begin

text \<open>
  The integrations with web frameworks, \<^verbatim>\<open>azums-axum\<close>, \<^verbatim>\<open>azums-actix\<close>, \<^verbatim>\<open>azums-poem\<close> and
  \<^verbatim>\<open>azums-rocket\<close>: the queue that a request handler extracts and the service that owns a storage
  and a client. The two types and their methods are the same text in the four crates and appear
  here once, as in \<^verbatim>\<open>azums-axum\<close>; how a queue is found in the state of a request differs. The clock
  is read by a method before the storage reads it: \<open>now\<close> is the first reading.
\<close>

section \<open>The queue\<close>

datatype 's JobQueue = JobQueue (jq_backend: "'s StorageBackend")

definition jq_enqueue :: "'s JobQueue \<Rightarrow> Env \<Rightarrow> NewJob \<Rightarrow> ('s, uuid) op" where
  "jq_enqueue q env job = sb_enqueue (jq_backend q) env job"

definition jq_enqueue_at ::
  "'s JobQueue \<Rightarrow> Env \<Rightarrow> string \<Rightarrow> string \<Rightarrow> json \<Rightarrow> datetime \<Rightarrow> ('s, uuid) op" where
  "jq_enqueue_at q env queue job_type payload_json run_at =
     sb_enqueue (jq_backend q) env
       \<lparr>nj_queue = queue, nj_job_type = job_type, nj_payload_json = payload_json,
        nj_idempotency_key = None, nj_run_at = run_at, nj_deadline_at = None,
        nj_timeout_seconds = None, nj_recurring_interval_seconds = None, nj_priority = 0,
        nj_max_attempts = 25\<rparr>"

definition jq_enqueue_now ::
  "'s JobQueue \<Rightarrow> datetime \<Rightarrow> Env \<Rightarrow> string \<Rightarrow> string \<Rightarrow> json \<Rightarrow> ('s, uuid) op" where
  "jq_enqueue_now q now env queue job_type payload_json =
     sb_enqueue (jq_backend q) env
       \<lparr>nj_queue = queue, nj_job_type = job_type, nj_payload_json = payload_json,
        nj_idempotency_key = None, nj_run_at = now, nj_deadline_at = None,
        nj_timeout_seconds = None, nj_recurring_interval_seconds = None, nj_priority = 0,
        nj_max_attempts = 25\<rparr>"

definition jq_enqueue_in ::
  "'s JobQueue \<Rightarrow> datetime \<Rightarrow> Env \<Rightarrow> string \<Rightarrow> string \<Rightarrow> json \<Rightarrow> int \<Rightarrow> ('s, uuid) op" where
  "jq_enqueue_in q now env queue job_type payload_json delay_secs =
     jq_enqueue_at q env queue job_type payload_json (now + seconds delay_secs)"

section \<open>The service\<close>

record 's BackgroundJobs =
  bj_backend :: "'s StorageBackend"
  bj_flow :: QuickstartFlow

definition BackgroundJobs_from_flow :: "'s StorageBackend \<Rightarrow> QuickstartFlow \<Rightarrow> 's BackgroundJobs" where
  "BackgroundJobs_from_flow B flow = \<lparr>bj_backend = B, bj_flow = flow\<rparr>"

text \<open>The arguments are the environment variables that a new client reads.\<close>

definition BackgroundJobs_from_backend ::
  "string option \<Rightarrow> string option \<Rightarrow> int option \<Rightarrow> 's StorageBackend \<Rightarrow> 's BackgroundJobs" where
  "BackgroundJobs_from_backend env_queue env_worker env_lease B =
     \<lparr>bj_backend = B, bj_flow = QuickstartFlow_new env_queue env_worker env_lease\<rparr>"

definition bj_queue :: "'s BackgroundJobs \<Rightarrow> 's JobQueue" where
  "bj_queue service = JobQueue (bj_backend service)"

definition bj_register_handler :: "'s BackgroundJobs \<Rightarrow> string \<Rightarrow> 's BackgroundJobs" where
  "bj_register_handler service job_type = service\<lparr>bj_flow := register_handler (bj_flow service) job_type\<rparr>"

text \<open>The worker task that \<^verbatim>\<open>spawn_worker\<close> starts: \<^verbatim>\<open>flow.run()\<close>, whose token nobody cancels.\<close>

definition bj_spawn_worker :: "'s BackgroundJobs \<Rightarrow> Tick list \<Rightarrow> ('s, unit) run" where
  "bj_spawn_worker service ticks = run_with_shutdown (bj_backend service) (bj_flow service) ticks"

section \<open>Extraction from a request\<close>

text \<open>What the application has put into the state of the framework.\<close>

record 's AppState =
  app_jobs :: "'s BackgroundJobs option"
  app_queue :: "'s JobQueue option"

datatype rejection = InternalServerError string

text \<open>Axum knows the type of its state, which is the service or a queue.\<close>

definition axum_from_request :: "'s BackgroundJobs + 's JobQueue \<Rightarrow> rejection + 's JobQueue" where
  "axum_from_request st = Inr (case st of Inl service \<Rightarrow> bj_queue service | Inr q \<Rightarrow> q)"

definition actix_from_request :: "'s AppState \<Rightarrow> rejection + 's JobQueue" where
  "actix_from_request st =
     (case app_jobs st of
        Some service \<Rightarrow> Inr (bj_queue service)
      | None \<Rightarrow>
          (case app_queue st of
             Some q \<Rightarrow> Inr q
           | None \<Rightarrow>
               Inl (InternalServerError
                 ''BackgroundJobs or JobQueue app_data missing in Actix Web request'')))"

definition poem_from_request :: "'s AppState \<Rightarrow> rejection + 's JobQueue" where
  "poem_from_request st =
     (case app_jobs st of
        Some service \<Rightarrow> Inr (bj_queue service)
      | None \<Rightarrow>
          (case app_queue st of
             Some q \<Rightarrow> Inr q
           | None \<Rightarrow>
               Inl (InternalServerError
                 ''BackgroundJobs or JobQueue data missing in Poem request data'')))"

definition rocket_from_request :: "'s AppState \<Rightarrow> rejection + 's JobQueue" where
  "rocket_from_request st =
     (case app_jobs st of
        Some service \<Rightarrow> Inr (bj_queue service)
      | None \<Rightarrow> (case app_queue st of Some q \<Rightarrow> Inr q | None \<Rightarrow> Inl (InternalServerError [])))"

section \<open>Facts\<close>

text \<open>Every framework hands a request the queue on the storage of the service's own worker.\<close>

lemma extracted_queue:
  assumes "app_jobs st = Some service"
  shows "axum_from_request (Inl service) = Inr (bj_queue service)" "actix_from_request st = Inr (bj_queue service)"
    "poem_from_request st = Inr (bj_queue service)" "rocket_from_request st = Inr (bj_queue service)"
  using assms by (simp_all add: axum_from_request_def actix_from_request_def poem_from_request_def rocket_from_request_def)

lemma enqueue_in_zero:
  "jq_enqueue_in q now env queue job_type payload 0 = jq_enqueue_now q now env queue job_type payload"
  by (simp add: jq_enqueue_in_def jq_enqueue_at_def jq_enqueue_now_def seconds_def)

text \<open>
  A job that a request handler enqueues with a delay through the service of an in-memory storage
  can be read back: it is queued, unlocked, due after the delay, and has the defaults of the
  integration.
\<close>

lemma handler_enqueue_in:
  assumes "bj_backend service = memory_backend"
    and "jq_enqueue_in (bj_queue service) now env queue job_type payload delay s = (Inr i, s')"
  shows "\<exists>j. sb_get_job (bj_backend service) i s' = (Inr (Some j), s') \<and> j_id j = i \<and> j_queue j = queue
    \<and> j_job_type j = job_type \<and> j_payload j = payload \<and> j_status j = ''queued'' \<and> j_locked_by j = None
    \<and> j_run_at j = now + seconds delay \<and> j_priority j = 0 \<and> j_max_attempts j = 25"
proof -
  let ?job = "\<lparr>nj_queue = queue, nj_job_type = job_type, nj_payload_json = payload, nj_idempotency_key = None,
    nj_run_at = now + seconds delay, nj_deadline_at = None, nj_timeout_seconds = None,
    nj_recurring_interval_seconds = None, nj_priority = 0, nj_max_attempts = 25\<rparr>"
  have "mem_enqueue env ?job s = (Inr i, s')"
    using assms by (simp add: jq_enqueue_in_def jq_enqueue_at_def bj_queue_def memory_backend_def)
  moreover have "mem_find_idempotent ?job s = None" by (simp add: mem_find_idempotent_def)
  ultimately obtain j where "mem_get_job i s' = (Inr (Some j), s')" "NewJob_from_Job j = ?job" "j_id j = i"
      "j_status j = ''queued''" "j_locked_by j = None"
    using enqueue_read_back by blast
  then show ?thesis using assms(1) by (simp add: memory_backend_def NewJob_from_Job_def)
qed

end
