(* ===== verification/Client_Observe_Properties.thy ===== *)
theory Client_Observe_Properties
  imports Client_Observe Dashboard_Properties
begin

text \<open>
  The metrics that the client counts itself, over the PostgreSQL storage, which does not observe
  its jobs: what the rows say, and how far they can be trusted.
\<close>

lemma entry_keys:
  "map_of (entry_or_default q m) k = (if k = q then Some (case map_of m q of None \<Rightarrow> [] | Some v \<Rightarrow> v) else map_of m k)"
  by (auto simp: entry_or_default_def split: option.split)

text \<open>The groups of a listing are its queues, with the items of each.\<close>

definition listing_groups :: "string option \<Rightarrow> JobListItem list \<Rightarrow> (string, JobListItem list) hashmap" where
  "listing_groups queue items =
     (case queue of Some q \<Rightarrow> entry_or_default q (foldl push_item [] items) | None \<Rightarrow> foldl push_item [] items)"

lemma listing_groups_facts:
  shows "distinct (map fst (listing_groups queue items))"
    and "set (map fst (listing_groups queue items)) = li_queue ` set items \<union> set_option queue"
    and "map (\<lambda>(q, is). fallback_row now q is) (listing_groups queue items) =
      map (\<lambda>q. fallback_row now q (filter (\<lambda>i. li_queue i = q) items)) (map fst (listing_groups queue items))"
proof -
  let ?G = "listing_groups queue items"
  have wf: "wf_map ?G" by (simp add: listing_groups_def wf_items wf_entry split: option.split)
  have look: "map_of ?G q = (let g = filter (\<lambda>i. li_queue i = q) items in
      if g = [] \<and> queue \<noteq> Some q then None else Some g)" for q
    by (auto simp: listing_groups_def entry_keys grouped_items Let_def split: option.splits if_splits)
  show "distinct (map fst ?G)" using wf by (simp add: wf_map_def)
  have "set (map fst ?G) = dom (map_of ?G)" by (simp add: dom_map_of_conv_image_fst)
  then show "set (map fst ?G) = li_queue ` set items \<union> set_option queue"
    by (auto simp: dom_def look Let_def filter_empty_conv split: if_splits)
  have "v = filter (\<lambda>i. li_queue i = q) items" if "(q, v) \<in> set ?G" for q v
    using that in_set_iff_map_of[OF wf, of q v] by (auto simp: look Let_def split: if_splits)
  then show "map (\<lambda>(q, is). fallback_row now q is) ?G =
      map (\<lambda>q. fallback_row now q (filter (\<lambda>i. li_queue i = q) items)) (map fst ?G)"
    by (auto simp: comp_def)
qed

lemma fallback_row_sel [simp]: "QueueMetrics.qm_queue (fallback_row now q items) = q" "qm_jobs_total (fallback_row now q items) = length items"
  by (simp_all add: fallback_row_def)

text \<open>
  On a storage that does not observe its jobs the client's metrics have one row for each queue
  that occurs among the 500 newest jobs, and for the queue that is asked for, sorted by name;
  the totals add up to the number of jobs, but never to more than 500.
\<close>

theorem fallback_metrics_capped:
  assumes "flow_queue_metrics (postgres_backend stamp) None env queue s = (res, s')"
  shows "\<exists>rows. res = Inr rows \<and> s' = s \<and> distinct (map QueueMetrics.qm_queue rows) \<and> sorted (map QueueMetrics.qm_queue rows)
    \<and> (\<Sum>row \<leftarrow> rows. qm_jobs_total row) = min 500 (rows_affected (\<lambda>r. queue \<in> {None, Some (j_queue r)}) (pg_jobs s))"
proof -
  define items where "items = take 500 (pg_listing (queue, None) s)"
  have "page_size 500 = 500" by (simp add: page_size_def clamp_def)
  then have "pg_list_jobs queue None 500 None None s = (Inr items, s)"
    using pg_list_jobs_cursor[of "(queue, None)" 500 None s] by (simp add: items_def pg_listing_def)
  then have run: "res = Inr (sort_key QueueMetrics.qm_queue (map (\<lambda>(q, is). fallback_row (e_now env) q is) (listing_groups queue items)))"
    "s' = s"
    using assms by (auto simp: flow_queue_metrics_def fallback_queue_metrics_def postgres_backend_def listing_groups_def
        Let_def split: option.splits)
  let ?qs = "map fst (listing_groups queue items)"
  define rows where "rows = map (\<lambda>q. fallback_row (e_now env) q (filter (\<lambda>i. li_queue i = q) items)) ?qs"
  note g = listing_groups_facts[where queue = queue and items = items]
  have res: "res = Inr (sort_key QueueMetrics.qm_queue rows)" unfolding rows_def g(3)[symmetric] by (rule run(1))
  have "map QueueMetrics.qm_queue rows = ?qs" by (simp add: rows_def comp_def)
  then have "distinct (map QueueMetrics.qm_queue rows)" using g(1) by (simp only:)
  then have d: "distinct (map QueueMetrics.qm_queue (sort_key QueueMetrics.qm_queue rows))"
    by (simp add: distinct_map)
  have "(\<Sum>row \<leftarrow> sort_key QueueMetrics.qm_queue rows. qm_jobs_total row) = (\<Sum>row \<leftarrow> rows. qm_jobs_total row)"
    by (metis mset_map mset_sort sum_mset_sum_list)
  also have "\<dots> = (\<Sum>q \<leftarrow> ?qs. rows_affected (\<lambda>_. True) (filter (\<lambda>i. li_queue i = q) items))"
    by (simp add: rows_def comp_def rows_affected_def)
  also have "\<dots> = length items"
    using sum_of_groups[OF g(1), of li_queue items "\<lambda>_. True"] g(2) by (simp add: rows_affected_def)
  also have "\<dots> = min 500 (rows_affected (\<lambda>r. queue \<in> {None, Some (j_queue r)}) (pg_jobs s))"
  proof -
    have "row_matches (queue, None) = (\<lambda>r. queue \<in> {None, Some (j_queue r)})"
      by (cases queue) (auto simp: row_matches_def fun_eq_iff)
    then show ?thesis by (simp add: items_def pg_listing_def rows_affected_def min.commute)
  qed
  finally show ?thesis using res run(2) d by simp
qed

end
