(* ===== verification/Spec2Isabelle.thy ===== *)
theory Spec2Isabelle
  imports Memory_Properties Recovery_Properties Query_Properties Stream_Properties
    Client_Properties Core_Properties Mock_Backend Semantic_Contract Sqlite_Properties
    Redis_Properties Worker_Properties Dashboard_Properties
    Configuration_Properties Admin_Tool_Properties Perf_Guard_Properties Web_Integrations
    Client_Observe_Properties
begin

text \<open>
  A verification library for Azums, a durable job queue written in Rust (crates
  \<^verbatim>\<open>azums-core\<close>, \<^verbatim>\<open>azums\<close>, \<^verbatim>\<open>azums-redis\<close>, \<^verbatim>\<open>azums-dashboard\<close>, \<^verbatim>\<open>azums-axum\<close>,
  \<^verbatim>\<open>azums-actix\<close>, \<^verbatim>\<open>azums-poem\<close>, \<^verbatim>\<open>azums-rocket\<close>, \<^verbatim>\<open>worker\<close>).

  \<^bold>\<open>The program.\<close> A client enqueues jobs into a storage; workers lease due jobs of a queue,
  start an attempt for each, run the application's handler, and report success, a retry after
  a back-off, or the dead-letter queue. A lease expires unless the worker sends heartbeats, and
  a reaper puts jobs with expired leases back. Jobs can be cancelled, replayed, listed,
  explained and archived. Beside jobs, a storage keeps event streams with consumer groups. The
  storages are interchangeable behind two traits: in memory, SQLite, PostgreSQL and Redis.

  \<^bold>\<open>The theories and the code.\<close>
  \<^item> \<^verbatim>\<open>Prelude\<close>: Rust's hash maps and ordered sets as lists, \<^verbatim>\<open>as\<close> casts, \<^verbatim>\<open>clamp\<close> and
    \<^verbatim>\<open>saturating_*\<close>, time in nanoseconds, the collections of rules.
  \<^item> \<^verbatim>\<open>Core_Model\<close>: the data model and the error type (\<^verbatim>\<open>azums-core/src/model.rs\<close>,
    \<^verbatim>\<open>model/stream.rs\<close>, \<^verbatim>\<open>error.rs\<close>); \<^verbatim>\<open>Semantic_Contract\<close>: \<^verbatim>\<open>semantics.rs\<close>.
  \<^item> \<^verbatim>\<open>Backend_Api\<close>: the traits \<^verbatim>\<open>StorageBackend\<close> and \<^verbatim>\<open>StreamBackend\<close> as records of
    operations on an abstract state, with their provided methods
    (\<^verbatim>\<open>azums-core/src/backend/{mod,stream}.rs\<close>).
  \<^item> \<^verbatim>\<open>Memory_Store\<close>, \<^verbatim>\<open>Memory_Streams\<close>, \<^verbatim>\<open>Memory_Observe\<close>, \<^verbatim>\<open>Memory_Backend\<close>: the in-memory
    storage (\<^verbatim>\<open>backend/memory.rs\<close>, \<^verbatim>\<open>backend/observability.rs\<close>). The lock of the Rust code
    makes each method one step, so an operation is a function from the whole state to a result
    and the next state, and a run is a list of calls in any order by any clients.
  \<^item> \<^verbatim>\<open>Mock_Backend\<close>: the recording wrapper (\<^verbatim>\<open>backend/mock.rs\<close>).
  \<^item> \<^verbatim>\<open>Retry_Policy\<close>: \<^verbatim>\<open>azums/src/jobs/retry.rs\<close> and \<^verbatim>\<open>error_codes.rs\<close>. \<^verbatim>\<open>Client_Runtime\<close>:
    \<^verbatim>\<open>quickstart.rs\<close> (configuration, batches, failures, both worker loops) and
    \<^verbatim>\<open>stream_handle.rs\<close>. \<^verbatim>\<open>Client_Observe\<close>: the explanations and metrics of \<^verbatim>\<open>quickstart.rs\<close> and the
    storage it chooses for a URL.
  \<^item> \<^verbatim>\<open>Sql_Tables\<close>: the fragment of SQL in use; \<^verbatim>\<open>Sqlite_Schema\<close> the migration script and
    \<^verbatim>\<open>Sqlite_Store\<close> the operations of \<^verbatim>\<open>azums/src/backend/sqlite.rs\<close>. A transaction that fails
    puts the old tables back; the write lock of SQLite makes a transaction one step.
  \<^item> \<^verbatim>\<open>Redis_Server\<close>: the commands in use and programs of commands; \<^verbatim>\<open>Redis_Store\<close>: each
    method of \<^verbatim>\<open>azums-redis/src/backend.rs\<close> as the program it sends. A command is atomic, a
    method is not: \<^verbatim>\<open>run_prog\<close> runs a program alone, \<^verbatim>\<open>interleaving\<close> runs the commands of several
    clients in any order, and a crash stops a program after any of its commands.
  \<^item> \<^verbatim>\<open>Postgres_Tables\<close>: the tables of a migrated PostgreSQL database with their keys, cascades
    and trigger; \<^verbatim>\<open>Postgres_Jobs\<close>, \<^verbatim>\<open>Postgres_Attempts\<close>, \<^verbatim>\<open>Postgres_Policies\<close>,
    \<^verbatim>\<open>Postgres_Backend\<close>, \<^verbatim>\<open>Postgres_Reports\<close>: the repositories of \<^verbatim>\<open>azums/src/jobs/\<close> (\<^verbatim>\<open>repo.rs\<close>;
    \<^verbatim>\<open>attempts.rs\<close> and \<^verbatim>\<open>runner.rs\<close>; \<^verbatim>\<open>policies.rs\<close>, \<^verbatim>\<open>policy_decisions.rs\<close>, \<^verbatim>\<open>enqueue_guard.rs\<close>,
    \<^verbatim>\<open>ingest_decisions.rs\<close>; \<^verbatim>\<open>maintenance.rs\<close>, \<^verbatim>\<open>stream_repo.rs\<close> and \<^verbatim>\<open>azums/src/backend/postgres.rs\<close>;
    \<^verbatim>\<open>timeline.rs\<close>, \<^verbatim>\<open>debug_view.rs\<close>, \<^verbatim>\<open>metrics.rs\<close>). A transaction is one step, as is a single
    statement; a method that sends several statements without a transaction keeps what the first
    ones did when a later one fails.
  \<^item> \<^verbatim>\<open>Worker_Binary\<close>: the worker process (\<^verbatim>\<open>worker/src/main.rs\<close>, \<^verbatim>\<open>handlers.rs\<close>), a round of its
    loop and a round of its maintenance task. \<^verbatim>\<open>Configuration\<close>: the settings of the process and of
    its connection pool as functions of the environment variables (\<^verbatim>\<open>azums/src/config.rs\<close>,
    \<^verbatim>\<open>db.rs\<close>).
  \<^item> \<^verbatim>\<open>Dashboard_Api\<close>: the HTTP interface over the PostgreSQL storage
    (\<^verbatim>\<open>azums-dashboard/src/api/mod.rs\<close>, \<^verbatim>\<open>admin/metrics.rs\<close>), from a parsed request to the status
    code and the value of its answer, with the check of the API key in front.
  \<^item> \<^verbatim>\<open>Web_Integrations\<close>: the queue and the service of the four crates for web frameworks.
    \<^verbatim>\<open>Admin_Tool\<close>: the command line tool \<^verbatim>\<open>azums/src/bin/azumsctl.rs\<close> as statements on the
    PostgreSQL tables. \<^verbatim>\<open>Perf_Guard\<close>: the check of performance reports
    \<^verbatim>\<open>azums/src/bin/azums-perf-guard.rs\<close>.

  \<^bold>\<open>Interfaces.\<close> \<^verbatim>\<open>Backend_Contract\<close> states what a worker relies on as the locale
  \<^verbatim>\<open>worker_storage\<close> (laws of leasing, starting attempts, reporting and heartbeats over the
  stored jobs) and its extension \<^verbatim>\<open>job_backend\<close> (a queue with nothing to lease is empty of due
  jobs); inside them the client's obligations are proved once. They are interpreted on the
  in-memory storage (\<^verbatim>\<open>Memory_Contract\<close>), the recording wrapper, SQLite (\<^verbatim>\<open>Sqlite_Contract\<close>),
  PostgreSQL without policies (\<^verbatim>\<open>Postgres_Contract\<close>) and Redis (\<^verbatim>\<open>Redis_Contract\<close>, the first locale only: a scheduled job at the head of a Redis queue
  hides due jobs). \<^verbatim>\<open>Stream_Contract\<close> states the laws of event streams as the locale
  \<^verbatim>\<open>event_stream\<close> and its extension \<^verbatim>\<open>ordered_stream\<close> (numbers are never reused), interpreted on
  the streams of all four storages; the in-memory streams satisfy the first only. \<^verbatim>\<open>Listing_Pages\<close>
  states the promise of a listing with a cursor as the locale \<^verbatim>\<open>cursor_listing\<close>, interpreted on the
  listing of the in-memory storage and on that of PostgreSQL as the dashboard calls it. \<^verbatim>\<open>Sql_Streams\<close> holds
  what the stream tables of SQLite and PostgreSQL share.

  \<^bold>\<open>What is shown.\<close>
  \<^item> \<^verbatim>\<open>Memory_Invariant\<close>, \<^verbatim>\<open>Memory_Lease\<close>, \<^verbatim>\<open>Memory_Outcomes\<close>, \<^verbatim>\<open>Memory_Runs\<close>, \<^verbatim>\<open>Memory_Listing\<close>
    build up the properties of \<^verbatim>\<open>Memory_Properties\<close>, \<^verbatim>\<open>Recovery_Properties\<close> and
    \<^verbatim>\<open>Query_Properties\<close>: the invariant of every reachable state, leasing equal to its reference
    definition, exclusive leases, final terminal states, idempotent enqueueing, who may report
    and what a report does, exact reaping and recovery after a crash, paging, cancellation,
    archiving. \<^verbatim>\<open>Stream_Properties\<close>: delivery once and in order, pruning.
  \<^item> \<^verbatim>\<open>Client_Properties\<close>: a batch is settled up to the first timeout, which
    abandons the rest; a drain ends.
    \<^verbatim>\<open>Mock_Backend\<close>: the wrapper does not change what a worker does.
  \<^item> \<^verbatim>\<open>Storage_Agreement\<close>: a simulation between the SQLite tables and the in-memory state, so
    that both give the same answers to every sequence of calls of the job protocol.
    \<^verbatim>\<open>Sqlite_Invariant\<close>, \<^verbatim>\<open>Sqlite_Streams\<close>, \<^verbatim>\<open>Sqlite_Properties\<close>: table invariant, atomicity of
    failing calls, migration, and where SQLite departs from the in-memory storage.
  \<^item> \<^verbatim>\<open>Redis_Concurrent\<close>: an ownership logic for programs of commands. An identifier is in one
    place, a list or a client; a client knows what the jobs it owns contain, except for disputed
    jobs, which several calls name. From it \<^verbatim>\<open>Redis_Properties\<close> gets exclusive leases and kept reports
    under every interleaving; beside them, what a heartbeat beside a report, two retry reports, a
    crash between two commands and the order of the lists do.
  \<^item> \<^verbatim>\<open>Postgres_Invariant\<close>: the invariant of the tables under every sequence of calls;
    \<^verbatim>\<open>Postgres_Leasing\<close>: leasing equal to its reference definition and the effect of policies;
    \<^verbatim>\<open>Postgres_Streams\<close>; \<^verbatim>\<open>Postgres_Properties\<close>: integrity, leases, throttling and its bound,
    idempotency within an hour, the guard. \<^verbatim>\<open>Worker_Round\<close>, \<^verbatim>\<open>Worker_Properties\<close>: a round of the
    worker process settles its batch, the client's loop ends, stale reports, recurring jobs,
    streams and the timeline of a job.
  \<^item> \<^verbatim>\<open>Dashboard_Properties\<close>: who may use the dashboard, what each answer to a request to enqueue
    means, its pages, its metrics page. \<^verbatim>\<open>Configuration_Properties\<close>: settings survive the
    environment, and what the one setting without a bound can do to a worker.
    \<^verbatim>\<open>Client_Observe_Properties\<close>: what the client's own metrics count.
    \<^verbatim>\<open>Admin_Tool_Properties\<close>: the tool keeps the invariant of the tables, and what it seeds is
    leased. \<^verbatim>\<open>Perf_Guard_Properties\<close>: the verdict in terms of the medians of the scenarios.

  \<^bold>\<open>Parameters, bounds and fuel.\<close> The clock and the identifiers drawn by \<^verbatim>\<open>Uuid::new_v4\<close> are
  the argument \<^verbatim>\<open>env\<close> of a call; freshness of identifiers is a hypothesis where it matters. JSON
  values are a datatype with integers for numbers; the code never looks inside a payload. The handler of a job and
  the clock readings while it runs are the argument \<^verbatim>\<open>JobRun\<close> of the client's worker, and
  \<^verbatim>\<open>TaskRun\<close> and \<^verbatim>\<open>WorkerRound\<close> of the worker process, which also give the order in which its
  tasks finish. The text of an hour that names a dataset on PostgreSQL, which the date library
  formats, is the argument \<^verbatim>\<open>stamp\<close>; the size of a payload in JSON, the texts of times and errors,
  the collation of the database and its statistics are fields of \<^verbatim>\<open>DashboardWorld\<close>. The loop that drains a queue
  takes a number of rounds; the property on draining shows that one more round than there are
  waiting jobs is enough. Machine integers are \<^typ>\<open>int\<close> with the casts, saturation and
  shifts of the source written out; shifts are on 64-bit words. The number of an attempt, one more
  than the highest of its job, has no upper bound here and 32 bits in the code.

  \<^bold>\<open>Not modelled.\<close> Of PostgreSQL: the partitions of the tables, which no query sees; the migration
  scripts; the effect of \<^verbatim>\<open>VACUUM\<close> on files and \<^verbatim>\<open>get_maintenance_status\<close>, which reads statistics of
  the server; transactions that overlap (rows locked by another transaction are skipped, sequence
  numbers of streams that become visible out of order). The two statements of \<^verbatim>\<open>prune_events\<close> of
  SQLite and the three statements of the metrics page are one step and see one state of the tables,
  although the code sends them without a transaction. Opening connections, reading a \<^verbatim>\<open>.env\<close>
  file, the health check, the background task that forwards Redis messages, and the parsing of
  HTTP requests and rendering of answers are input and output. Instants are unbounded: the range
  of the date library, some 262000 years around the year 0, is not modelled. Floats are exact
  fractions (\<^verbatim>\<open>metrics.rs\<close>, \<^verbatim>\<open>azums-perf-guard.rs\<close>). \<^verbatim>\<open>azums-perf.rs\<close> measures a running machine.
\<close>

end
